(* ===== verification/Prelude.thy ===== *)
theory Prelude
  imports Main "HOL-Library.Word"
begin

text \<open>
  Shared vocabulary of the development.

  \<^item> \<open>res\<close>: the outcome of a C function that may stop the process.  \<open>Ret x\<close> is a normal
    return; \<open>Fault f\<close> is an abort (\<open>assert\<close>, \<open>DI_CHECK\<close>, \<open>DI_PANIC\<close>, \<open>abort\<close>), an access the C
    standard leaves undefined (a freed object, bytes read at the wrong type, an uninitialised variable,
    memory outside an allocation, a null pointer), or the
    model running out of fuel.  Error codes the C code returns are ordinary values.
  \<^item> \<open>hash_find\<close>, \<open>hash_add\<close>, \<open>hash_del\<close>: the uthash tables of the program.  A table iterates in
    insertion order, so it is an association list; its interface is the locale \<open>hash_table\<close>.
  \<^item> C strings, 64-bit reference counters and sums over the domain of a finite map.
\<close>

named_theorems res_simps \<open>equations of the result type\<close>
named_theorems rc_simps \<open>equations of the counting functions\<close>

section \<open>Outcomes\<close>

datatype fault =
    OutOfFuel
  | Aborted string
  | Use_After_Free nat
  | Type_Confusion
  | Uninitialised
  | Out_Of_Bounds
  | Null_Deref

datatype 'a res = Ret 'a | Fault fault

primrec bind_res :: "'a res \<Rightarrow> ('a \<Rightarrow> 'b res) \<Rightarrow> 'b res" where
  "bind_res (Ret x) f = f x"
| "bind_res (Fault e) f = Fault e"

definition assert_res :: "bool \<Rightarrow> string \<Rightarrow> 'a res \<Rightarrow> 'a res" where
  "assert_res b msg k = (if b then k else Fault (Aborted msg))"

lemma bind_res_Ret_iff [simp]: "(bind_res m f = Ret y) = (\<exists>x. m = Ret x \<and> f x = Ret y)"
  by (cases m) auto

lemma bind_res_Fault_iff:
  "(bind_res m f = Fault e) = (m = Fault e \<or> (\<exists>x. m = Ret x \<and> f x = Fault e))"
  by (cases m) auto

lemma bind_res_assoc: "bind_res (bind_res m f) g = bind_res m (\<lambda>x. bind_res (f x) g)"
  by (cases m) auto

lemma bind_res_Ret [simp]: "bind_res m Ret = m"
  by (cases m) auto

lemma bind_res_cong [fundef_cong]:
  "m = m' \<Longrightarrow> (\<And>x. m' = Ret x \<Longrightarrow> f x = f' x) \<Longrightarrow> bind_res m f = bind_res m' f'"
  by (cases m') auto

lemma assert_res_True [simp]: "assert_res True msg k = k"
  by (simp add: assert_res_def)

lemma assert_res_False [simp]: "assert_res False msg k = Fault (Aborted msg)"
  by (simp add: assert_res_def)

lemma assert_res_Ret_iff [simp]: "(assert_res b msg k = Ret y) = (b \<and> k = Ret y)"
  by (simp add: assert_res_def)

lemmas res_splits = res.splits if_splits option.splits prod.splits

fun is_Ret :: "'a res \<Rightarrow> bool" where
  "is_Ret (Ret x) = True"
| "is_Ret (Fault e) = False"

lemma is_Ret_iff: "is_Ret r = (\<exists>x. r = Ret x)"
  by (cases r) auto

text \<open>Running a step over a list, left to right, stopping at the first fault.\<close>

fun fold_res :: "('a \<Rightarrow> 's \<Rightarrow> 's res) \<Rightarrow> 'a list \<Rightarrow> 's \<Rightarrow> 's res" where
  "fold_res f [] s = Ret s"
| "fold_res f (x # xs) s = bind_res (f x s) (fold_res f xs)"

lemma fold_res_append: "fold_res f (xs @ ys) s = bind_res (fold_res f xs s) (fold_res f ys)"
  by (induction xs arbitrary: s) (auto simp: bind_res_assoc intro: bind_res_cong)

lemma fold_res_cong [fundef_cong]:
  "xs = ys \<Longrightarrow> s = t \<Longrightarrow> (\<And>x u. x \<in> set ys \<Longrightarrow> f x u = g x u) \<Longrightarrow> fold_res f xs s = fold_res g ys t"
proof (induction ys arbitrary: xs s t)
  case (Cons y ys)
  have "\<And>u. fold_res f ys u = fold_res g ys u" using Cons.IH Cons.prems(3) by auto
  then have "fold_res f ys = fold_res g ys" by (rule ext)
  with Cons.prems show ?case by simp
qed simp

text \<open>
  An invariant that every step keeps is kept by the whole loop.  The rest of the list is part of the
  invariant, so that a loop may use up what it was given.
\<close>

lemma fold_res_invariant:
  assumes "I xs s"
    and "\<And>x xs s. I (x # xs) s \<Longrightarrow> \<exists>s'. f x s = Ret s' \<and> I xs s'"
  shows "\<exists>s'. fold_res f xs s = Ret s' \<and> I [] s'"
  using assms(1)
proof (induction xs arbitrary: s)
  case (Cons x xs)
  then obtain s' where "f x s = Ret s'" "I xs s'" using assms(2) by blast
  with Cons.IH show ?case by auto
qed simp

section \<open>Hash tables\<close>

type_synonym ('k, 'v) table = "('k \<times> 'v) list"

definition hash_find :: "'k \<Rightarrow> ('k, 'v) table \<Rightarrow> 'v option" where
  "hash_find k t = map_of t k"

definition hash_add :: "'k \<Rightarrow> 'v \<Rightarrow> ('k, 'v) table \<Rightarrow> ('k, 'v) table" where
  "hash_add k v t = t @ [(k, v)]"

definition hash_del :: "'k \<Rightarrow> ('k, 'v) table \<Rightarrow> ('k, 'v) table" where
  "hash_del k t = filter (\<lambda>p. fst p \<noteq> k) t"

definition hash_set :: "'k \<Rightarrow> 'v \<Rightarrow> ('k, 'v) table \<Rightarrow> ('k, 'v) table" where
  "hash_set k v t = map (\<lambda>p. if fst p = k then (k, v) else p) t"

definition table_ok :: "('k, 'v) table \<Rightarrow> bool" where
  "table_ok t \<longleftrightarrow> distinct (map fst t)"

text \<open>
  The interface the clients of a table rely on: what a lookup gives after an insertion of a fresh
  key, after a replacement of a stored value and after a deletion.
\<close>

locale hash_table =
  fixes find :: "'k \<Rightarrow> 't \<Rightarrow> 'v option"
    and add :: "'k \<Rightarrow> 'v \<Rightarrow> 't \<Rightarrow> 't"
    and del :: "'k \<Rightarrow> 't \<Rightarrow> 't"
    and upd :: "'k \<Rightarrow> 'v \<Rightarrow> 't \<Rightarrow> 't"
    and invar :: "'t \<Rightarrow> bool"
  assumes find_add: "invar t \<Longrightarrow> find k t = None \<Longrightarrow> find j (add k v t) = (if j = k then Some v else find j t)"
    and find_del: "invar t \<Longrightarrow> find j (del k t) = (if j = k then None else find j t)"
    and find_upd: "invar t \<Longrightarrow> find k t \<noteq> None \<Longrightarrow> find j (upd k v t) = (if j = k then Some v else find j t)"
    and invar_add: "invar t \<Longrightarrow> find k t = None \<Longrightarrow> invar (add k v t)"
    and invar_del: "invar t \<Longrightarrow> invar (del k t)"
    and invar_upd: "invar t \<Longrightarrow> invar (upd k v t)"
begin

lemma del_add: "invar t \<Longrightarrow> find k t = None \<Longrightarrow> find j (del k (add k v t)) = find j t"
  by (simp add: find_del invar_add find_add)

lemma add_del: "invar t \<Longrightarrow> find k t = Some v \<Longrightarrow> find j (add k v (del k t)) = find j t"
  by (simp add: find_add invar_del find_del)

lemma upd_after_add: "invar t \<Longrightarrow> find k t = None \<Longrightarrow> find j (upd k w (add k v t)) = find j (add k w t)"
  by (simp add: find_upd invar_add find_add)

lemma del_comm: "invar t \<Longrightarrow> find j (del a (del b t)) = find j (del b (del a t))"
  by (simp add: find_del invar_del)

end

lemma hash_find_Nil [simp]: "hash_find k [] = None"
  by (simp add: hash_find_def)

lemma hash_find_Cons [simp]: "hash_find k (p # t) = (if fst p = k then Some (snd p) else hash_find k t)"
  by (auto simp: hash_find_def)

lemma hash_del_Nil [simp]: "hash_del k [] = []"
  by (simp add: hash_del_def)

lemma hash_del_Cons [simp]: "hash_del k (p # t) = (if fst p = k then hash_del k t else p # hash_del k t)"
  by (simp add: hash_del_def)

lemma hash_find_None_iff: "(hash_find k t = None) = (k \<notin> fst ` set t)"
  by (simp add: hash_find_def map_of_eq_None_iff)

lemma hash_find_SomeD: "hash_find k t = Some v \<Longrightarrow> (k, v) \<in> set t"
  by (simp add: hash_find_def map_of_SomeD)

lemma hash_del_absent: "hash_find k t = None \<Longrightarrow> hash_del k t = t"
  by (induction t) (auto split: if_splits)

lemma set_hash_del: "set (hash_del k t) = {p \<in> set t. fst p \<noteq> k}"
  by (simp add: hash_del_def)

lemma hash_set_keys [simp]: "map fst (hash_set k v t) = map fst t"
  by (induction t) (auto simp: hash_set_def)

lemma table_ok_simps [simp]:
  "table_ok []"
  "table_ok (p # t) = (fst p \<notin> fst ` set t \<and> table_ok t)"
  by (auto simp: table_ok_def)

lemma hash_find_set:
  "hash_find j (hash_set k v t) = (if j = k \<and> hash_find k t \<noteq> None then Some v else hash_find j t)"
  by (induction t) (auto simp: hash_set_def)

interpretation alist: hash_table hash_find hash_add hash_del hash_set table_ok
proof unfold_locales
  fix t :: "('k \<times> 'v) list" and k j v
  show "hash_find k t = None \<Longrightarrow> hash_find j (hash_add k v t) = (if j = k then Some v else hash_find j t)"
    by (induction t) (auto simp: hash_add_def split: if_splits)
  show "hash_find j (hash_del k t) = (if j = k then None else hash_find j t)"
    by (induction t) auto
  show "hash_find k t \<noteq> None \<Longrightarrow> hash_find j (hash_set k v t) = (if j = k then Some v else hash_find j t)"
    by (simp add: hash_find_set)
  show "table_ok t \<Longrightarrow> hash_find k t = None \<Longrightarrow> table_ok (hash_add k v t)"
    by (auto simp: table_ok_def hash_add_def hash_find_None_iff)
  show "table_ok t \<Longrightarrow> table_ok (hash_del k t)"
    by (simp add: table_ok_def hash_del_def distinct_map_filter)
  show "table_ok t \<Longrightarrow> table_ok (hash_set k v t)"
    by (simp add: table_ok_def)
qed

section \<open>Strings\<close>

text \<open>
  \<open>starts_with p s\<close> is the test \<open>s.length \<ge> n \<and> strncmp(s.data, p, n) == 0\<close> with \<open>n\<close> the length of
  the literal \<open>p\<close>.  \<open>cstr\<close> reads a byte buffer as a NUL-terminated C string.
\<close>

definition starts_with :: "string \<Rightarrow> string \<Rightarrow> bool" where
  "starts_with p s \<longleftrightarrow> take (length p) s = p"

definition cstr :: "string \<Rightarrow> string" where
  "cstr s = takeWhile (\<lambda>c. c \<noteq> CHR 0x00) s"

definition nul_free :: "string \<Rightarrow> bool" where
  "nul_free s \<longleftrightarrow> CHR 0x00 \<notin> set s"

lemma starts_with_iff: "starts_with p s = (\<exists>t. s = p @ t)"
  unfolding starts_with_def by (metis append_eq_conv_conj append_take_drop_id)

lemma starts_with_append [simp]: "starts_with p (p @ t)"
  by (simp add: starts_with_def)

lemma starts_with_length: "starts_with p s \<Longrightarrow> length p \<le> length s"
  by (auto simp: starts_with_iff)

lemma cstr_nul_free [simp]: "nul_free s \<Longrightarrow> cstr s = s"
  by (auto simp: cstr_def nul_free_def takeWhile_eq_all_conv)

lemma nul_free_cstr [simp]: "nul_free (cstr s)"
  by (auto simp: cstr_def nul_free_def dest: set_takeWhileD)

lemma length_cstr: "length (cstr s) \<le> length s"
  by (simp add: cstr_def length_takeWhile_le)

section \<open>Sixty-four bit counters\<close>

lemma unat_dec: "w \<noteq> 0 \<Longrightarrow> unat (w - 1 :: 64 word) = unat w - 1"
  by (simp add: unat_minus_one)

lemma unat_inc: "unat w + 1 < 2 ^ 64 \<Longrightarrow> unat (w + 1 :: 64 word) = unat w + 1"
  by (simp add: unat_word_ariths)

lemma unat_pos_iff: "(0 < unat w) = (w \<noteq> (0 :: 64 word))"
  by (simp add: unat_gt_0)

section \<open>Sums over finite maps\<close>

text \<open>
  \<open>sum_entries f m\<close> adds \<open>f\<close> over the entries of a finite map: the number of references a heap holds is
  such a sum.  The three equations are what the reference-count proofs use.
\<close>

definition sum_entries :: "('v \<Rightarrow> nat) \<Rightarrow> ('k \<Rightarrow> 'v option) \<Rightarrow> nat" where
  "sum_entries f m = (\<Sum>k \<in> dom m. f (the (m k)))"

lemma sum_entries_empty [simp]: "sum_entries f Map.empty = 0"
  by (simp add: sum_entries_def)

lemma sum_entries_insert:
  assumes "finite (dom m)" and "m k = None"
  shows "sum_entries f (m(k \<mapsto> v)) = sum_entries f m + f v"
proof -
  have k: "k \<notin> dom m" using assms(2) by auto
  have "(\<Sum>j \<in> dom m. f (the ((m(k \<mapsto> v)) j))) = (\<Sum>j \<in> dom m. f (the (m j)))"
    using k by (intro sum.cong) auto
  then show ?thesis using assms k by (simp add: sum_entries_def)
qed

lemma sum_entries_remove:
  assumes "finite (dom m)" and "m k = Some v"
  shows "sum_entries f (m(k := None)) + f v = sum_entries f m"
proof -
  have "sum_entries f ((m(k := None))(k \<mapsto> v)) = sum_entries f (m(k := None)) + f v"
    by (rule sum_entries_insert) (use assms in auto)
  moreover have "(m(k := None))(k \<mapsto> v) = m" using assms(2) by auto
  ultimately show ?thesis by simp
qed

lemma sum_entries_update:
  assumes "finite (dom m)" and "m k = Some v"
  shows "sum_entries f (m(k \<mapsto> w)) + f v = sum_entries f m + f w"
proof -
  have "sum_entries f ((m(k := None))(k \<mapsto> w)) = sum_entries f (m(k := None)) + f w"
    by (rule sum_entries_insert) (use assms in auto)
  then show ?thesis using sum_entries_remove [OF assms, of f] by simp
qed

lemma sum_entries_update_same:
  assumes "finite (dom m)" and "m k = Some v" and "f w = f v"
  shows "sum_entries f (m(k \<mapsto> w)) = sum_entries f m"
  using sum_entries_update [OF assms(1,2), of f w] assms(3) by simp

lemma sum_entries_zero_iff: "finite (dom m) \<Longrightarrow> (sum_entries f m = 0) = (\<forall>k v. m k = Some v \<longrightarrow> f v = 0)"
  by (auto simp: sum_entries_def dom_def)

lemma sum_entries_member_le:
  assumes "finite (dom m)" and "m k = Some v"
  shows "f v \<le> sum_entries f m"
  using sum_entries_remove [OF assms, of f] by linarith

lemma sum_entries_mono:
  assumes fin: "finite (dom m)" and le: "\<And>k v'. m' k = Some v' \<Longrightarrow> \<exists>v. m k = Some v \<and> f v' \<le> f v"
  shows "sum_entries f m' \<le> sum_entries f m"
proof -
  have sub: "dom m' \<subseteq> dom m" using le by fastforce
  have "f (the (m' k)) \<le> f (the (m k))" if "k \<in> dom m'" for k using that le by fastforce
  then have "sum_entries f m' \<le> (\<Sum>k \<in> dom m'. f (the (m k)))" unfolding sum_entries_def by (rule sum_mono)
  also have "\<dots> \<le> sum_entries f m" unfolding sum_entries_def by (rule sum_mono2 [OF fin sub]) simp
  finally show ?thesis .
qed

end
