(* ===== verification/DiTypes.thy ===== *)
theory DiTypes
  imports Prelude
begin

text \<open>
  The dynamic type system of \<open>include/deai/object.h\<close>: type identifiers, typed values, sizes and
  strings.

  In C a value is a pair of a type identifier and a \<open>union di_value\<close>.  In the model a value carries
  its type: \<open>di_typeof v\<close> is the identifier and the constructor holds the union member of that
  identifier.  \<open>VArray t None\<close> is an array whose storage pointer is \<open>NULL\<close>; \<open>VArray t (Some xs)\<close> has
  storage for the elements \<open>xs\<close>.  \<open>VLast\<close> stands for the bottom type, which only appears inside a
  variant or as the answer of a getter.  A \<open>di_string\<close> is \<open>None\<close> when its \<open>data\<close> pointer is \<open>NULL\<close>.
  The sizes are those of an LP64 machine, the platform of \<open>PTR_POISON\<close> and of the build files.
\<close>

section \<open>Type identifiers\<close>

datatype di_type =
    DI_TYPE_NIL
  | DI_TYPE_ANY
  | DI_TYPE_BOOL
  | DI_TYPE_NINT
  | DI_TYPE_NUINT
  | DI_TYPE_INT
  | DI_TYPE_UINT
  | DI_TYPE_FLOAT
  | DI_TYPE_POINTER
  | DI_TYPE_OBJECT
  | DI_TYPE_WEAK_OBJECT
  | DI_TYPE_STRING
  | DI_TYPE_STRING_LITERAL
  | DI_TYPE_ARRAY
  | DI_TYPE_TUPLE
  | DI_TYPE_VARIANT
  | DI_LAST_TYPE

primrec di_type_ord :: "di_type \<Rightarrow> nat" where
  "di_type_ord DI_TYPE_NIL = 0"
| "di_type_ord DI_TYPE_ANY = 1"
| "di_type_ord DI_TYPE_BOOL = 2"
| "di_type_ord DI_TYPE_NINT = 3"
| "di_type_ord DI_TYPE_NUINT = 4"
| "di_type_ord DI_TYPE_INT = 5"
| "di_type_ord DI_TYPE_UINT = 6"
| "di_type_ord DI_TYPE_FLOAT = 7"
| "di_type_ord DI_TYPE_POINTER = 8"
| "di_type_ord DI_TYPE_OBJECT = 9"
| "di_type_ord DI_TYPE_WEAK_OBJECT = 10"
| "di_type_ord DI_TYPE_STRING = 11"
| "di_type_ord DI_TYPE_STRING_LITERAL = 12"
| "di_type_ord DI_TYPE_ARRAY = 13"
| "di_type_ord DI_TYPE_TUPLE = 14"
| "di_type_ord DI_TYPE_VARIANT = 15"
| "di_type_ord DI_LAST_TYPE = 16"

lemma di_type_ord_inject [simp]: "(di_type_ord a = di_type_ord b) = (a = b)"
  by (cases a; cases b) simp_all

instantiation di_type :: linorder
begin

definition less_eq_di_type :: "di_type \<Rightarrow> di_type \<Rightarrow> bool" where
  "less_eq_di_type a b \<longleftrightarrow> di_type_ord a \<le> di_type_ord b"

definition less_di_type :: "di_type \<Rightarrow> di_type \<Rightarrow> bool" where
  "less_di_type a b \<longleftrightarrow> di_type_ord a < di_type_ord b"

instance
  by standard (auto simp: less_eq_di_type_def less_di_type_def)

end

fun di_type_to_string :: "di_type \<Rightarrow> string" where
  "di_type_to_string DI_TYPE_NIL = ''NIL''"
| "di_type_to_string DI_TYPE_ANY = ''ANY''"
| "di_type_to_string DI_TYPE_BOOL = ''BOOL''"
| "di_type_to_string DI_TYPE_INT = ''INT''"
| "di_type_to_string DI_TYPE_UINT = ''UINT''"
| "di_type_to_string DI_TYPE_NINT = ''NINT''"
| "di_type_to_string DI_TYPE_NUINT = ''NUINT''"
| "di_type_to_string DI_TYPE_FLOAT = ''FLOAT''"
| "di_type_to_string DI_TYPE_STRING = ''STRING''"
| "di_type_to_string DI_TYPE_STRING_LITERAL = ''STRING_LITERAL''"
| "di_type_to_string DI_TYPE_TUPLE = ''TUPLE''"
| "di_type_to_string DI_TYPE_ARRAY = ''ARRAY''"
| "di_type_to_string DI_TYPE_VARIANT = ''VARIANT''"
| "di_type_to_string DI_TYPE_OBJECT = ''OBJECT''"
| "di_type_to_string DI_TYPE_WEAK_OBJECT = ''WEAK_OBJECT''"
| "di_type_to_string DI_TYPE_POINTER = ''POINTER''"
| "di_type_to_string DI_LAST_TYPE = ''LAST_TYPE''"

text \<open>\<open>di_sizeof_type\<close> calls \<open>abort\<close> on the two types that have no values.\<close>

fun di_sizeof_type :: "di_type \<Rightarrow> nat res" where
  "di_sizeof_type DI_TYPE_NIL = Ret 0"
| "di_sizeof_type DI_TYPE_ANY = Fault (Aborted ''di_sizeof_type'')"
| "di_sizeof_type DI_LAST_TYPE = Fault (Aborted ''di_sizeof_type'')"
| "di_sizeof_type DI_TYPE_FLOAT = Ret 8"
| "di_sizeof_type DI_TYPE_ARRAY = Ret 24"
| "di_sizeof_type DI_TYPE_TUPLE = Ret 16"
| "di_sizeof_type DI_TYPE_VARIANT = Ret 16"
| "di_sizeof_type DI_TYPE_UINT = Ret 8"
| "di_sizeof_type DI_TYPE_INT = Ret 8"
| "di_sizeof_type DI_TYPE_NUINT = Ret 4"
| "di_sizeof_type DI_TYPE_NINT = Ret 4"
| "di_sizeof_type DI_TYPE_STRING = Ret 16"
| "di_sizeof_type DI_TYPE_STRING_LITERAL = Ret 8"
| "di_sizeof_type DI_TYPE_OBJECT = Ret 8"
| "di_sizeof_type DI_TYPE_POINTER = Ret 8"
| "di_sizeof_type DI_TYPE_WEAK_OBJECT = Ret 8"
| "di_sizeof_type DI_TYPE_BOOL = Ret 1"

text \<open>\<open>no_value t\<close>: the identifiers whose size \<open>di_sizeof_type\<close> refuses to give.\<close>

definition no_value :: "di_type \<Rightarrow> bool" where
  "no_value t \<longleftrightarrow> t = DI_TYPE_ANY \<or> t = DI_LAST_TYPE"

lemma di_sizeof_type_Ret: "(\<exists>n. di_sizeof_type t = Ret n) = (\<not> no_value t)"
  by (cases t) (auto simp: no_value_def)

lemma di_sizeof_type_0: "(di_sizeof_type t = Ret 0) = (t = DI_TYPE_NIL)"
  by (cases t) auto

lemma di_sizeof_type_no_value: "no_value t \<Longrightarrow> di_sizeof_type t = Fault (Aborted ''di_sizeof_type'')"
  by (auto simp: no_value_def)

section \<open>Values\<close>

type_synonym oref = nat
type_synonym di_string = "string option"

text \<open>A double: \<open>Finite m e\<close> is the number \<open>m\<close> times two to the \<open>e\<close>.\<close>

datatype double = Finite int int | Infinite bool | NotANumber

datatype di_value =
    VNil
  | VBool bool
  | VNint "32 word"
  | VNuint "32 word"
  | VInt "64 word"
  | VUint "64 word"
  | VFloat double
  | VPointer nat
  | VObject oref
  | VWeak oref
  | VString di_string
  | VLiteral string
  | VArray di_type "di_value list option"
  | VTuple "di_value list"
  | VVariant di_value
  | VLast

primrec di_typeof :: "di_value \<Rightarrow> di_type" where
  "di_typeof VNil = DI_TYPE_NIL"
| "di_typeof (VBool b) = DI_TYPE_BOOL"
| "di_typeof (VNint i) = DI_TYPE_NINT"
| "di_typeof (VNuint i) = DI_TYPE_NUINT"
| "di_typeof (VInt i) = DI_TYPE_INT"
| "di_typeof (VUint i) = DI_TYPE_UINT"
| "di_typeof (VFloat d) = DI_TYPE_FLOAT"
| "di_typeof (VPointer p) = DI_TYPE_POINTER"
| "di_typeof (VObject p) = DI_TYPE_OBJECT"
| "di_typeof (VWeak p) = DI_TYPE_WEAK_OBJECT"
| "di_typeof (VString s) = DI_TYPE_STRING"
| "di_typeof (VLiteral s) = DI_TYPE_STRING_LITERAL"
| "di_typeof (VArray t xs) = DI_TYPE_ARRAY"
| "di_typeof (VTuple xs) = DI_TYPE_TUPLE"
| "di_typeof (VVariant v) = DI_TYPE_VARIANT"
| "di_typeof VLast = DI_LAST_TYPE"

text \<open>The constants \<open>DI_ARRAY_INIT\<close>, \<open>DI_TUPLE_INIT\<close>, \<open>DI_VARIANT_INIT\<close>, \<open>DI_STRING_INIT\<close>.\<close>

definition DI_ARRAY_INIT :: di_value where
  "DI_ARRAY_INIT = VArray DI_TYPE_ANY None"

definition DI_TUPLE_INIT :: di_value where
  "DI_TUPLE_INIT = VTuple []"

definition DI_VARIANT_INIT :: di_value where
  "DI_VARIANT_INIT = VVariant VNil"

definition DI_STRING_INIT :: di_string where
  "DI_STRING_INIT = None"

definition array_elems :: "di_value list option \<Rightarrow> di_value list" where
  "array_elems a = (case a of None \<Rightarrow> [] | Some xs \<Rightarrow> xs)"

lemma array_elems_simps [simp]: "array_elems None = []" "array_elems (Some xs) = xs"
  by (simp_all add: array_elems_def)

lemma size_array_elems [termination_simp]:
  "x \<in> set (array_elems a) \<Longrightarrow> size x < Suc (size_option (size_list size) a)"
proof (cases a)
  case (Some xs)
  assume "x \<in> set (array_elems a)"
  then have "x \<in> set xs" using Some by simp
  then show ?thesis using Some size_list_estimation' [of x xs "size x" size] by simp
qed simp

text \<open>
  \<open>value_ok\<close>: array elements have the type the array declares, only an array with no elements is
  untyped, string literals are C strings, and the bottom value appears under a variant only.
\<close>

fun value_ok :: "di_value \<Rightarrow> bool" where
  "value_ok (VArray t a) =
     ((a = None \<or> \<not> no_value t) \<and> (\<forall>x \<in> set (array_elems a). di_typeof x = t \<and> value_ok x))"
| "value_ok (VTuple xs) = (\<forall>x \<in> set xs. value_ok x)"
| "value_ok (VVariant v) = (v = VLast \<or> value_ok v)"
| "value_ok (VLiteral s) = nul_free s"
| "value_ok VLast = False"
| "value_ok _ = True"

text \<open>
  Occurrences of an object in a value: strong references, weak references.  A value owns what it
  holds, so these counts are what copying and freeing the value add to and take from the object's
  two reference counters.
\<close>

fun strong_refs :: "di_value \<Rightarrow> oref \<Rightarrow> nat" where
  "strong_refs (VObject p) a = (if p = a then 1 else 0)"
| "strong_refs (VArray t xs) a = sum_list (map (\<lambda>v. strong_refs v a) (array_elems xs))"
| "strong_refs (VTuple xs) a = sum_list (map (\<lambda>v. strong_refs v a) xs)"
| "strong_refs (VVariant v) a = strong_refs v a"
| "strong_refs _ a = 0"

fun weak_refs :: "di_value \<Rightarrow> oref \<Rightarrow> nat" where
  "weak_refs (VWeak p) a = (if p = a then 1 else 0)"
| "weak_refs (VArray t xs) a = sum_list (map (\<lambda>v. weak_refs v a) (array_elems xs))"
| "weak_refs (VTuple xs) a = sum_list (map (\<lambda>v. weak_refs v a) xs)"
| "weak_refs (VVariant v) a = weak_refs v a"
| "weak_refs _ a = 0"

definition strong_refs_list :: "di_value list \<Rightarrow> oref \<Rightarrow> nat" where
  "strong_refs_list vs a = sum_list (map (\<lambda>v. strong_refs v a) vs)"

definition weak_refs_list :: "di_value list \<Rightarrow> oref \<Rightarrow> nat" where
  "weak_refs_list vs a = sum_list (map (\<lambda>v. weak_refs v a) vs)"

lemma refs_list_simps [simp]:
  "strong_refs_list [] a = 0"
  "strong_refs_list (v # vs) a = strong_refs v a + strong_refs_list vs a"
  "strong_refs_list (us @ vs) a = strong_refs_list us a + strong_refs_list vs a"
  "weak_refs_list [] a = 0"
  "weak_refs_list (v # vs) a = weak_refs v a + weak_refs_list vs a"
  "weak_refs_list (us @ vs) a = weak_refs_list us a + weak_refs_list vs a"
  by (simp_all add: strong_refs_list_def weak_refs_list_def)

lemma refs_array_tuple [simp]:
  "strong_refs (VArray t xs) a = strong_refs_list (array_elems xs) a"
  "strong_refs (VTuple ys) a = strong_refs_list ys a"
  "weak_refs (VArray t xs) a = weak_refs_list (array_elems xs) a"
  "weak_refs (VTuple ys) a = weak_refs_list ys a"
  by (simp_all add: strong_refs_list_def weak_refs_list_def)

declare strong_refs.simps(2,3) [simp del] weak_refs.simps(2,3) [simp del]

section \<open>Strings\<close>

text \<open>
  Strings are length-delimited.  Handing one to the C library copies it into a NUL-terminated buffer,
  of which the library reads the part before the first NUL.
\<close>

definition di_string_dup :: "string \<Rightarrow> di_string" where
  "di_string_dup str = Some (cstr str)"

definition di_string_ndup :: "string \<Rightarrow> nat \<Rightarrow> di_string" where
  "di_string_ndup str n = Some (take n str)"

definition di_string_length :: "di_string \<Rightarrow> nat" where
  "di_string_length s = (case s of None \<Rightarrow> 0 | Some cs \<Rightarrow> length cs)"

definition di_string_bytes :: "di_string \<Rightarrow> string" where
  "di_string_bytes s = (case s of None \<Rightarrow> [] | Some cs \<Rightarrow> cs)"

definition di_clone_string :: "di_string \<Rightarrow> di_string" where
  "di_clone_string other = di_string_ndup (di_string_bytes other) (di_string_length other)"

definition di_string_borrow :: "string \<Rightarrow> di_string" where
  "di_string_borrow str = Some (cstr str)"

definition di_string_to_chars :: "di_string \<Rightarrow> nat \<Rightarrow> string option" where
  "di_string_to_chars str capacity =
     (if capacity < di_string_length str + 1 then None else Some (di_string_bytes str @ [CHR 0x00]))"

definition di_string_to_chars_alloc :: "di_string \<Rightarrow> string" where
  "di_string_to_chars_alloc str = the (di_string_to_chars str (di_string_length str + 1))"

definition c_tolower :: "char \<Rightarrow> char" where
  "c_tolower c =
     (let n = of_char c :: nat in if 65 \<le> n \<and> n \<le> 90 then char_of (n + 32) else c)"

definition di_string_tolower :: "di_string \<Rightarrow> di_string" where
  "di_string_tolower str = Some (map c_tolower (di_string_bytes str))"

definition di_substring_start :: "di_string \<Rightarrow> nat \<Rightarrow> di_string" where
  "di_substring_start str start =
     (if di_string_length str \<le> start then DI_STRING_INIT
      else Some (drop start (di_string_bytes str)))"

lemma di_string_simps [simp]:
  "di_string_length None = 0" "di_string_length (Some s) = length s"
  "di_string_bytes None = []" "di_string_bytes (Some s) = s"
  by (simp_all add: di_string_length_def di_string_bytes_def)

lemma di_clone_string_bytes [simp]: "di_string_bytes (di_clone_string s) = di_string_bytes s"
  by (cases s) (simp_all add: di_clone_string_def di_string_ndup_def)

lemma di_clone_string_Some [simp]: "di_clone_string (Some s) = Some s"
  by (simp add: di_clone_string_def di_string_ndup_def)

lemma di_clone_string_None [simp]: "di_clone_string None = Some []"
  by (simp add: di_clone_string_def di_string_ndup_def)

lemma di_string_to_chars_alloc_eq: "di_string_to_chars_alloc s = di_string_bytes s @ [CHR 0x00]"
  by (simp add: di_string_to_chars_alloc_def di_string_to_chars_def)

lemma of_char_bound: "(of_char c :: nat) < 256"
  using nat_of_char_less_256 [of c] by simp

lemma c_tolower_idem [simp]: "c_tolower (c_tolower c) = c_tolower c"
proof -
  have "of_char (char_of (n + 32) :: char) = n + 32" if "n \<le> 90" for n :: nat
    using that by (simp add: of_char_of)
  then show ?thesis by (simp add: c_tolower_def Let_def)
qed

text \<open>
  A string survives the trip through a NUL-terminated buffer exactly when it holds no NUL byte
  and the buffer has room for it and its terminator; otherwise the C side sees the part before the
  first NUL, and a buffer that is too small is refused without being written.
\<close>

theorem di_string_to_chars_roundtrip:
  "(case di_string_to_chars str capacity of
      None \<Rightarrow> capacity \<le> di_string_length str
    | Some buf \<Rightarrow> length buf \<le> capacity \<and>
        (di_string_borrow buf = di_clone_string str) = nul_free (di_string_bytes str))"
proof (cases "capacity < di_string_length str + 1")
  case True
  then show ?thesis by (simp add: di_string_to_chars_def)
next
  case False
  let ?s = "di_string_bytes str"
  have len: "length ?s = di_string_length str" by (cases str) simp_all
  have clone: "di_clone_string str = Some ?s" by (cases str) simp_all
  have "(cstr (?s @ [CHR 0x00]) = ?s) = nul_free ?s"
  proof
    assume "cstr (?s @ [CHR 0x00]) = ?s"
    then show "nul_free ?s" by (metis nul_free_cstr)
  next
    assume "nul_free ?s"
    then show "cstr (?s @ [CHR 0x00]) = ?s"
      by (auto simp: cstr_def nul_free_def takeWhile_append)
  qed
  with False len clone show ?thesis
    by (simp add: di_string_to_chars_def di_string_borrow_def)
qed

end
