(* ===== verification/Conversion.thy ===== *)
theory Conversion
  imports DiTypes
begin

text \<open>
  The integer conversions of \<open>include/utils.h\<close>.  \<open>integer_conversion\<close> compares its input with the
  limits of the target type by C's \<open>>\<close> and \<open><\<close>, so the model has C's integer types and the usual
  arithmetic conversions; the limits have the types the C headers give them.
\<close>

datatype errno = EPERM | ENOENT | E2BIG | ENOMEM | EEXIST | EINVAL | ERANGE | ENOTSUP | Errno int

type_synonym 'a outcome = "errno + 'a"

section \<open>C integers\<close>

datatype c_int = CInt "32 word" | CUInt "32 word" | CLong "64 word" | CULong "64 word"

primrec c_value :: "c_int \<Rightarrow> int" where
  "c_value (CInt w) = sint w"
| "c_value (CUInt w) = uint w"
| "c_value (CLong w) = sint w"
| "c_value (CULong w) = uint w"

definition to_int :: "c_int \<Rightarrow> 32 word" where
  "to_int c = word_of_int (c_value c)"

definition to_long :: "c_int \<Rightarrow> 64 word" where
  "to_long c = word_of_int (c_value c)"

text \<open>
  The usual arithmetic conversions: an operand of type \<open>unsigned long\<close> converts the other one to
  \<open>unsigned long\<close>; else \<open>long\<close> wins; else \<open>unsigned int\<close> wins; else both are \<open>int\<close>.
\<close>

definition is_ulong :: "c_int \<Rightarrow> bool" where
  "is_ulong c = (case c of CULong _ \<Rightarrow> True | _ \<Rightarrow> False)"

definition is_long :: "c_int \<Rightarrow> bool" where
  "is_long c = (case c of CLong _ \<Rightarrow> True | _ \<Rightarrow> False)"

definition is_uint :: "c_int \<Rightarrow> bool" where
  "is_uint c = (case c of CUInt _ \<Rightarrow> True | _ \<Rightarrow> False)"

definition c_less :: "c_int \<Rightarrow> c_int \<Rightarrow> bool" where
  "c_less a b =
     (if is_ulong a \<or> is_ulong b then to_long a < to_long b
      else if is_long a \<or> is_long b then to_long a <s to_long b
      else if is_uint a \<or> is_uint b then to_int a < to_int b
      else to_int a <s to_int b)"

lemmas c_kind_defs = is_ulong_def is_long_def is_uint_def

definition INT64_MAX :: c_int where "INT64_MAX = CLong 0x7FFFFFFFFFFFFFFF"
definition INT64_MIN :: c_int where "INT64_MIN = CLong 0x8000000000000000"
definition INT_MAX :: c_int where "INT_MAX = CInt 0x7FFFFFFF"
definition INT_MIN :: c_int where "INT_MIN = CInt 0x80000000"
definition UINT64_MAX :: c_int where "UINT64_MAX = CULong 0xFFFFFFFFFFFFFFFF"
definition UINT_MAX :: c_int where "UINT_MAX = CUInt 0xFFFFFFFF"
definition C_ZERO :: c_int where "C_ZERO = CInt 0"

lemmas c_limits = INT64_MAX_def INT64_MIN_def INT_MAX_def INT_MIN_def UINT64_MAX_def UINT_MAX_def C_ZERO_def

section \<open>integer\_conversion\<close>

definition is_integer :: "di_type \<Rightarrow> bool" where
  "is_integer t \<longleftrightarrow> t = DI_TYPE_INT \<or> t = DI_TYPE_NINT \<or> t = DI_TYPE_UINT \<or> t = DI_TYPE_NUINT"

fun c_of_value :: "di_value \<Rightarrow> c_int option" where
  "c_of_value (VNint w) = Some (CInt w)"
| "c_of_value (VNuint w) = Some (CUInt w)"
| "c_of_value (VInt w) = Some (CLong w)"
| "c_of_value (VUint w) = Some (CULong w)"
| "c_of_value _ = None"

text \<open>\<open>convert_case\<close>: the two comparisons, then the cast to the target field.\<close>

definition convert_case :: "c_int \<Rightarrow> (c_int \<Rightarrow> di_value) \<Rightarrow> c_int \<Rightarrow> c_int \<Rightarrow> di_value outcome" where
  "convert_case tmp mk dstmax dstmin =
     (if c_less dstmax tmp \<or> c_less tmp dstmin then Inl ERANGE else Inr (mk tmp))"

definition convert_switch :: "di_value \<Rightarrow> (c_int \<Rightarrow> di_value) \<Rightarrow> c_int \<Rightarrow> c_int \<Rightarrow> di_value outcome" where
  "convert_switch inp mk dstmax dstmin =
     (case c_of_value inp of None \<Rightarrow> Inl EINVAL | Some tmp \<Rightarrow> convert_case tmp mk dstmax dstmin)"

definition integer_conversion :: "di_value \<Rightarrow> di_type \<Rightarrow> di_value outcome res" where
  "integer_conversion inp outty =
     (if di_typeof inp = outty then bind_res (di_sizeof_type outty) (\<lambda>_. Ret (Inr inp))
      else Ret (case outty of
          DI_TYPE_INT \<Rightarrow> convert_switch inp (\<lambda>c. VInt (to_long c)) INT64_MAX INT64_MIN
        | DI_TYPE_NINT \<Rightarrow> convert_switch inp (\<lambda>c. VNint (to_int c)) INT_MAX INT_MIN
        | DI_TYPE_UINT \<Rightarrow> convert_switch inp (\<lambda>c. VUint (to_long c)) UINT64_MAX C_ZERO
        | DI_TYPE_NUINT \<Rightarrow> convert_switch inp (\<lambda>c. VNuint (to_int c)) UINT_MAX C_ZERO
        | _ \<Rightarrow> Inl EINVAL))"

text \<open>What the conversion is for: the same number at another width, or a range error.\<close>

definition int_value :: "di_value \<Rightarrow> int" where
  "int_value v = (case c_of_value v of Some c \<Rightarrow> c_value c | None \<Rightarrow> 0)"

fun int_at :: "di_type \<Rightarrow> int \<Rightarrow> di_value" where
  "int_at DI_TYPE_INT n = VInt (word_of_int n)"
| "int_at DI_TYPE_UINT n = VUint (word_of_int n)"
| "int_at DI_TYPE_NINT n = VNint (word_of_int n)"
| "int_at DI_TYPE_NUINT n = VNuint (word_of_int n)"
| "int_at _ n = VNil"

fun in_range :: "di_type \<Rightarrow> int \<Rightarrow> bool" where
  "in_range DI_TYPE_INT n = (- (2 ^ 63) \<le> n \<and> n < 2 ^ 63)"
| "in_range DI_TYPE_UINT n = (0 \<le> n \<and> n < 2 ^ 64)"
| "in_range DI_TYPE_NINT n = (- (2 ^ 31) \<le> n \<and> n < 2 ^ 31)"
| "in_range DI_TYPE_NUINT n = (0 \<le> n \<and> n < 2 ^ 32)"
| "in_range _ n = False"

text \<open>
  The pairs where the lower limit is a negative constant and the input is unsigned of at least its
  width: the limit is converted to a large unsigned number and every input is below it.
\<close>

definition unsigned_to_signed :: "di_type \<Rightarrow> di_type \<Rightarrow> bool" where
  "unsigned_to_signed a b \<longleftrightarrow>
     (a = DI_TYPE_UINT \<and> (b = DI_TYPE_INT \<or> b = DI_TYPE_NINT)) \<or> (a = DI_TYPE_NUINT \<and> b = DI_TYPE_NINT)"

lemma int_at_int_value: "is_integer (di_typeof v) \<Longrightarrow> int_at (di_typeof v) (int_value v) = v"
  by (cases v) (auto simp: is_integer_def int_value_def)

lemma int_value_int_at: "in_range t n \<Longrightarrow> int_value (int_at t n) = n"
  by (cases t) (simp_all add: int_value_def sint_sbintrunc' uint_word_of_int signed_take_bit_int_eq_self)

section \<open>The comparisons as comparisons of integers\<close>

lemma uint_ge_neg [simp]: "- numeral n \<le> uint w"
  by (rule order_trans [of _ 0]) simp_all

lemma c_value_bounds:
  "c_value (CInt i) \<ge> - (2 ^ 31)" "c_value (CInt i) < 2 ^ 31"
  "c_value (CUInt u) \<ge> 0" "c_value (CUInt u) < 2 ^ 32"
  "c_value (CLong l) \<ge> - (2 ^ 63)" "c_value (CLong l) < 2 ^ 63"
  "c_value (CULong ul) \<ge> 0" "c_value (CULong ul) < 2 ^ 64"
  using sint_ge [of i] sint_lt [of i] sint_ge [of l] sint_lt [of l] uint_bounded [of u] uint_bounded [of ul]
  by simp_all

lemma uint_to_long: "uint (to_long c) = c_value c mod 2 ^ 64"
  by (simp add: to_long_def uint_word_of_int)

lemma uint_to_int: "uint (to_int c) = c_value c mod 2 ^ 32"
  by (simp add: to_int_def uint_word_of_int)

lemma sint_to_long: "- (2 ^ 63) \<le> c_value c \<Longrightarrow> c_value c < 2 ^ 63 \<Longrightarrow> sint (to_long c) = c_value c"
  by (simp add: to_long_def sint_sbintrunc' signed_take_bit_int_eq_self)

lemma sint_to_int: "- (2 ^ 31) \<le> c_value c \<Longrightarrow> c_value c < 2 ^ 31 \<Longrightarrow> sint (to_int c) = c_value c"
  by (simp add: to_int_def sint_sbintrunc' signed_take_bit_int_eq_self)

text \<open>
  Two operands of types whose values all fit the common type compare as integers; an operand that
  does not fit is reduced modulo the width first.
\<close>

lemma c_less_ulong: "is_ulong a \<or> is_ulong b \<Longrightarrow> c_less a b = (c_value a mod 2 ^ 64 < c_value b mod 2 ^ 64)"
  by (simp add: c_less_def word_less_def uint_to_long)

lemma c_less_long:
  assumes "\<not> is_ulong a" "\<not> is_ulong b" "is_long a \<or> is_long b"
  shows "c_less a b = (c_value a < c_value b)"
proof -
  have fits: "- (2 ^ 63) \<le> c_value c \<and> c_value c < 2 ^ 63" if "\<not> is_ulong c" for c
  proof (cases c)
    case (CInt x) then show ?thesis using c_value_bounds(1,2) [of x] by simp
  next
    case (CUInt x) then show ?thesis using c_value_bounds(3,4) [of x] by simp
  next
    case (CLong x) then show ?thesis using c_value_bounds(5,6) [of x] by simp
  next
    case (CULong x) then show ?thesis using that by (simp add: is_ulong_def)
  qed
  show ?thesis
    using assms fits [of a] fits [of b] by (simp add: c_less_def word_sless_alt sint_to_long)
qed

lemma c_less_uint:
  "\<not> is_ulong a \<Longrightarrow> \<not> is_ulong b \<Longrightarrow> \<not> is_long a \<Longrightarrow> \<not> is_long b \<Longrightarrow> is_uint a \<or> is_uint b \<Longrightarrow>
   c_less a b = (c_value a mod 2 ^ 32 < c_value b mod 2 ^ 32)"
  by (simp add: c_less_def word_less_def uint_to_int)

lemmas c_less_cases = c_less_ulong c_less_long c_less_uint

lemma c_limit_values [simp]:
  "c_value INT64_MAX = 2 ^ 63 - 1" "c_value INT64_MIN = - (2 ^ 63)"
  "c_value INT_MAX = 2 ^ 31 - 1" "c_value INT_MIN = - (2 ^ 31)"
  "c_value UINT64_MAX = 2 ^ 64 - 1" "c_value UINT_MAX = 2 ^ 32 - 1" "c_value C_ZERO = 0"
  by (simp_all add: c_limits)

lemma c_limit_kinds [simp]:
  "is_long INT64_MAX" "\<not> is_ulong INT64_MAX" "is_long INT64_MIN" "\<not> is_ulong INT64_MIN"
  "\<not> is_long INT_MAX" "\<not> is_ulong INT_MAX" "\<not> is_uint INT_MAX"
  "\<not> is_long INT_MIN" "\<not> is_ulong INT_MIN" "\<not> is_uint INT_MIN"
  "is_ulong UINT64_MAX" "\<not> is_long UINT_MAX" "\<not> is_ulong UINT_MAX" "is_uint UINT_MAX"
  "\<not> is_long C_ZERO" "\<not> is_ulong C_ZERO" "\<not> is_uint C_ZERO"
  by (simp_all add: c_limits c_kind_defs)

lemma c_kind_simps [simp]:
  "\<not> is_ulong (CInt i)" "\<not> is_long (CInt i)" "\<not> is_uint (CInt i)"
  "\<not> is_ulong (CUInt u)" "\<not> is_long (CUInt u)" "is_uint (CUInt u)"
  "\<not> is_ulong (CLong l)" "is_long (CLong l)" "is_ulong (CULong ul)"
  by (simp_all add: c_kind_defs)

lemma c_less_int: "c_less (CInt i) (CInt j) = (sint i < sint j)"
  by (simp add: c_less_def word_sless_alt sint_to_int to_int_def)

text \<open>\<open>guard_ok\<close>: the two comparisons of \<open>convert_case\<close> let the value through.\<close>

definition guard_ok :: "c_int \<Rightarrow> c_int \<Rightarrow> c_int \<Rightarrow> bool" where
  "guard_ok tmp dstmax dstmin \<longleftrightarrow> \<not> (c_less dstmax tmp \<or> c_less tmp dstmin)"

lemma guard_int:
  "guard_ok (CInt i) INT64_MAX INT64_MIN"
  "guard_ok (CInt i) UINT64_MAX C_ZERO = (0 \<le> sint i)"
  "guard_ok (CInt i) UINT_MAX C_ZERO = (0 \<le> sint i)"
  using c_value_bounds(1,2) [of i] by (auto simp: guard_ok_def c_less_cases C_ZERO_def c_less_int not_less)

lemma guard_long:
  "guard_ok (CLong l) INT_MAX INT_MIN = (- (2 ^ 31) \<le> sint l \<and> sint l < 2 ^ 31)"
  "guard_ok (CLong l) UINT64_MAX C_ZERO = (0 \<le> sint l)"
  "guard_ok (CLong l) UINT_MAX C_ZERO = (0 \<le> sint l \<and> sint l < 2 ^ 32)"
  by (auto simp: guard_ok_def c_less_cases not_less)

lemma guard_uint:
  "guard_ok (CUInt u) INT64_MAX INT64_MIN"
  "\<not> guard_ok (CUInt u) INT_MAX INT_MIN"
  "guard_ok (CUInt u) UINT64_MAX C_ZERO"
  using c_value_bounds(3,4) [of u] uint_ge_0 [of u] by (auto simp: guard_ok_def c_less_cases not_less)

lemma guard_ulong:
  "\<not> guard_ok (CULong ul) INT64_MAX INT64_MIN"
  "\<not> guard_ok (CULong ul) INT_MAX INT_MIN"
  "guard_ok (CULong ul) UINT_MAX C_ZERO = (uint ul < 2 ^ 32)"
  using c_value_bounds(7,8) [of ul] by (auto simp: guard_ok_def c_less_cases not_less)

lemmas guard_simps = guard_int guard_long guard_uint guard_ulong

lemma convert_case_guard:
  "convert_case tmp mk dstmax dstmin = (if guard_ok tmp dstmax dstmin then Inr (mk tmp) else Inl ERANGE)"
  by (simp add: convert_case_def guard_ok_def)

text \<open>
  C15. The exact behaviour of \<open>integer_conversion\<close> on the four integer types.  It gives the same
  number at the target width when the number is in the target's range and \<open>-ERANGE\<close> when it is not,
  except that a \<open>UINT\<close> is never converted to \<open>INT\<close> or \<open>NINT\<close> and a \<open>NUINT\<close> never to \<open>NINT\<close>: the lower
  limit of the target is compared as an unsigned number, so every input is refused.
\<close>

theorem integer_conversion_exact:
  assumes "is_integer (di_typeof v)" and "is_integer t"
  shows "integer_conversion v t =
    Ret (if in_range t (int_value v) \<and> \<not> unsigned_to_signed (di_typeof v) t
         then Inr (int_at t (int_value v)) else Inl ERANGE)"
proof (cases "di_typeof v = t")
  case True
  have "in_range t (int_value v)"
    using assms True c_value_bounds by (cases v) (auto simp: is_integer_def int_value_def)
  moreover have "\<not> unsigned_to_signed t t" by (auto simp: unsigned_to_signed_def)
  moreover have "\<exists>n. di_sizeof_type t = Ret n"
    using assms(2) by (auto simp: is_integer_def)
  ultimately show ?thesis
    using True int_at_int_value [OF assms(1)] by (auto simp: integer_conversion_def)
next
  case False
  show ?thesis
  proof (cases v)
    case (VNint i)
    then show ?thesis using assms False c_value_bounds(1,2) [of i]
      by (auto simp: is_integer_def integer_conversion_def convert_switch_def convert_case_guard
          guard_simps int_value_def unsigned_to_signed_def to_int_def to_long_def)
  next
    case (VNuint u)
    then show ?thesis using assms False c_value_bounds(3,4) [of u]
      by (auto simp: is_integer_def integer_conversion_def convert_switch_def convert_case_guard
          guard_simps int_value_def unsigned_to_signed_def to_int_def to_long_def)
  next
    case (VInt l)
    then show ?thesis using assms False c_value_bounds(5,6) [of l]
      by (auto simp: is_integer_def integer_conversion_def convert_switch_def convert_case_guard
          guard_simps int_value_def unsigned_to_signed_def to_int_def to_long_def)
  next
    case (VUint u)
    then show ?thesis using assms False c_value_bounds(7,8) [of u]
      by (auto simp: is_integer_def integer_conversion_def convert_switch_def convert_case_guard
          guard_simps int_value_def unsigned_to_signed_def to_int_def to_long_def)
  qed (use assms in \<open>auto simp: is_integer_def\<close>)
qed

theorem integer_conversion_exact_witness:
  "integer_conversion (VInt 7) DI_TYPE_NUINT = Ret (Inr (VNuint 7)) \<and>
   integer_conversion (VUint 7) DI_TYPE_INT = Ret (Inl ERANGE)"
proof
  show "integer_conversion (VInt 7) DI_TYPE_NUINT = Ret (Inr (VNuint 7))"
    by (subst integer_conversion_exact)
      (simp_all add: is_integer_def int_value_def unsigned_to_signed_def)
  show "integer_conversion (VUint 7) DI_TYPE_INT = Ret (Inl ERANGE)"
    by (subst integer_conversion_exact)
      (simp_all add: is_integer_def int_value_def unsigned_to_signed_def)
qed

section \<open>Integers to doubles\<close>

text \<open>
  The cast \<open>(double)n\<close>: 53 significant bits, rounding to nearest with ties to even.
\<close>

function excess_bits :: "nat \<Rightarrow> nat" where
  "excess_bits n = (if n < 2 ^ 53 then 0 else Suc (excess_bits (n div 2)))"
  by pat_completeness auto
termination
  by (relation "measure id") auto

declare excess_bits.simps [simp del]

definition round_half_even :: "nat \<Rightarrow> nat \<Rightarrow> nat" where
  "round_half_even n k =
     (let q = n div 2 ^ k; r = n mod 2 ^ k in
      if 2 * r < 2 ^ k then q else if 2 ^ k < 2 * r then q + 1 else if even q then q else q + 1)"

definition int_to_double :: "int \<Rightarrow> double" where
  "int_to_double n =
     (let k = excess_bits (nat \<bar>n\<bar>); m = int (round_half_even (nat \<bar>n\<bar>) k)
      in Finite (if n < 0 then - m else m) (int k))"

lemma excess_bits_bound: "n < 2 ^ (53 + excess_bits n)"
proof (induction n rule: excess_bits.induct)
  case (1 n)
  show ?case
  proof (cases "n < 2 ^ 53")
    case True
    then show ?thesis by (simp add: excess_bits.simps [of n])
  next
    case False
    with "1.IH" have "n div 2 < 2 ^ (53 + excess_bits (n div 2))" by simp
    then have "n < 2 * 2 ^ (53 + excess_bits (n div 2))" by linarith
    with False show ?thesis by (simp add: excess_bits.simps [of n] power_add)
  qed
qed

lemma excess_bits_small [simp]: "n < 2 ^ 53 \<Longrightarrow> excess_bits n = 0"
  by (simp add: excess_bits.simps [of n])

lemma round_half_even_0 [simp]: "round_half_even n 0 = n"
  by (simp add: round_half_even_def Let_def)

lemma round_half_even_error: "\<bar>int (round_half_even n k * 2 ^ k) - int n\<bar> * 2 \<le> 2 ^ k"
proof -
  define q r where "q = n div 2 ^ k" and "r = n mod 2 ^ k"
  have "n = q * 2 ^ k + r" and r0: "r < 2 ^ k" unfolding q_def r_def by (simp_all only: div_mult_mod_eq) simp
  then have n: "int n = int q * 2 ^ k + int r" by simp
  have r: "int r < 2 ^ k" using r0 by (metis of_nat_less_iff of_nat_numeral of_nat_power)
  have "round_half_even n k = q \<and> 2 * r \<le> 2 ^ k \<or> round_half_even n k = q + 1 \<and> 2 ^ k \<le> 2 * r"
    unfolding round_half_even_def q_def [symmetric] r_def [symmetric] Let_def by auto
  then show ?thesis
  proof
    assume "round_half_even n k = q \<and> 2 * r \<le> 2 ^ k"
    then have "int (2 * r) \<le> int (2 ^ k)" by (simp only: of_nat_le_iff)
    moreover have "int (round_half_even n k * 2 ^ k) - int n = - int r"
      using n \<open>round_half_even n k = q \<and> 2 * r \<le> 2 ^ k\<close> by simp
    ultimately have "int (round_half_even n k * 2 ^ k) - int n = - int r" "2 * int r \<le> 2 ^ k" by simp_all
    then show ?thesis by simp
  next
    assume "round_half_even n k = q + 1 \<and> 2 ^ k \<le> 2 * r"
    then have "int (2 ^ k) \<le> int (2 * r)" by (simp only: of_nat_le_iff)
    moreover have "int (round_half_even n k * 2 ^ k) - int n = 2 ^ k - int r"
      using n \<open>round_half_even n k = q + 1 \<and> 2 ^ k \<le> 2 * r\<close> by (simp add: algebra_simps)
    ultimately have "int (round_half_even n k * 2 ^ k) - int n = 2 ^ k - int r" "2 ^ k \<le> 2 * int r"
      by simp_all
    then show ?thesis using r by simp
  qed
qed

lemma int_to_double_exact: "\<bar>n\<bar> < 2 ^ 53 \<Longrightarrow> int_to_double n = Finite n 0"
proof -
  assume "\<bar>n\<bar> < 2 ^ 53"
  then have "nat \<bar>n\<bar> < 2 ^ 53" by (simp add: nat_less_iff)
  then show ?thesis by (simp add: int_to_double_def Let_def)
qed


text \<open>
  Converting an integer to a double never moves it by more than half a unit in the last of 53
  significant bits, and is exact for every integer of magnitude below 2 to the 53.
\<close>

theorem int_to_double_error:
  "\<exists>m k. int_to_double n = Finite m (int k) \<and> \<bar>m * 2 ^ k - n\<bar> * 2 \<le> 2 ^ k \<and> \<bar>n\<bar> < 2 ^ (53 + k) \<and>
     (k = 0 \<longrightarrow> m = n)"
proof -
  let ?a = "nat \<bar>n\<bar>"
  define k where "k = excess_bits ?a"
  define m where "m = int (round_half_even ?a k)"
  have "int_to_double n = Finite (if n < 0 then - m else m) (int k)"
    by (simp add: int_to_double_def Let_def k_def m_def)
  moreover have err: "\<bar>m * 2 ^ k - \<bar>n\<bar>\<bar> * 2 \<le> 2 ^ k"
    using round_half_even_error [of ?a k] by (simp add: m_def)
  then have "\<bar>(if n < 0 then - m else m) * 2 ^ k - n\<bar> * 2 \<le> 2 ^ k"
    by (cases "n < 0") (simp_all add: abs_minus_commute add.commute)
  moreover have "\<bar>n\<bar> < 2 ^ (53 + k)"
  proof -
    have "?a < 2 ^ (53 + k)" unfolding k_def by (rule excess_bits_bound)
    then have "int ?a < int (2 ^ (53 + k))" by (simp only: of_nat_less_iff)
    then show ?thesis by (simp add: power_add)
  qed
  moreover have "k = 0 \<longrightarrow> (if n < 0 then - m else m) = n"
    by (simp add: m_def)
  ultimately show ?thesis by blast
qed

theorem int_to_double_error_witness:
  "int_to_double (2 ^ 53 + 1) = Finite (2 ^ 52) 1 \<and>
   (\<exists>m k. int_to_double (2 ^ 53 + 1) = Finite m (int k) \<and> \<bar>m * 2 ^ k - (2 ^ 53 + 1)\<bar> * 2 \<le> 2 ^ k \<and>
     \<bar>2 ^ 53 + 1 :: int\<bar> < 2 ^ (53 + k) \<and> (k = 0 \<longrightarrow> m = 2 ^ 53 + 1))"
proof
  show "int_to_double (2 ^ 53 + 1) = Finite (2 ^ 52) 1"
    by (simp add: int_to_double_def Let_def round_half_even_def excess_bits.simps)
qed (rule int_to_double_error)

end
