(* ===== verification/LuaTypes.thy ===== *)
theory LuaTypes
  imports DiTypes
begin

text \<open>
  The part of a Lua state that \<open>plugins/lua/lua.c\<close> sees through the C API of Lua: the stack, tables,
  userdata, the registry.  It is the payload of the object \<open>struct di_lua_state\<close>.

  \<^item> A table lists its items in the order of \<open>lua_next\<close>; \<open>lt_meta\<close> says whether it has a metatable.
  \<^item> Userdata are the proxies of the plugin, or \<open>Foreign\<close> ones, with or without a metatable.
  \<^item> The registry holds values under integer references, strong ones or behind a weak table; \<open>ldead\<close>
    marks userdata that were collected, so that weak references to them read as nil.
  \<^item> \<open>lscript\<close> is the script object stored under \<open>DI_LUA_REGISTRY_SCRIPT_OBJECT_KEY\<close>, \<open>obj_refs\<close> the hash
    table \<open>object_to_lua_ref\<close>, \<open>lproxies\<close> the structs \<open>di_lua_listen_handle_proxy\<close>.
\<close>

datatype lua_cfun =
    CF_on
  | CF_once
  | CF_emit
  | CF_weakref
  | CF_upgrade
  | CF_stop
  | CF_errfunc
  | CF_method oref string

datatype lua_val =
    LNil
  | LBool bool
  | LInt "64 word"
  | LNum double
  | LStr string
  | LLight nat
  | LUser nat
  | LTable nat
  | LFun nat
  | LCFun lua_cfun

record lua_table =
  lt_items :: "(lua_val \<times> lua_val) list"
  lt_meta :: bool

datatype lua_user =
    Proxy_object oref "string option"
  | Proxy_weak oref
  | Proxy_listen nat
  | Foreign bool

datatype lua_reg = Reg_strong lua_val | Reg_weak nat

record di_lua_listen_handle_proxy =
  root_handle_for_listen_handle :: "64 word"
  root_handle_for_source :: "64 word"
  once_wrapper_alive :: bool
  lua_object_alive :: bool

record lua_state =
  lstack :: "lua_val list"
  ltables :: "nat \<Rightarrow> lua_table option"
  lusers :: "nat \<Rightarrow> lua_user option"
  ldead :: "nat \<Rightarrow> bool"
  lregistry :: "int \<Rightarrow> lua_reg option"
  lscript :: oref
  obj_refs :: "(oref, int) table"
  lproxies :: "nat \<Rightarrow> di_lua_listen_handle_proxy option"
  lua_next_id :: nat

end
