(* ===== verification/XorgTypes.thy ===== *)
theory XorgTypes
  imports DiTypes
begin

text \<open>
  The structs of the X11 plugin (\<open>plugins/xorg\<close>) that embed an object, and the requests sent to the X
  server, which a connection keeps in the order they were sent.  An item of a device property is a
  number of up to 32 bits or a float.
\<close>

datatype xi_item = Bits "32 word" | Float_item double

datatype xreq =
    Grab_key "8 word" "16 word"
  | Ungrab_key "8 word" "16 word"
  | Allow_replay
  | Allow_sync
  | Xi_select_events "8 word list"
  | Xi_change_property "32 word" "32 word" "32 word" nat "xi_item list"
  | Rr_select_input "16 word"
  | Change_resource string
  | Change_keyboard_mapping nat nat "32 word list"
  | Set_modifier_mapping nat "8 word list"
  | Set_crtc_config "32 word" int int "32 word" "16 word"
  | Change_output_property "32 word" "32 word" "32 word"
  | Xcb_disconnect

text \<open>
  \<open>struct di_xorg_connection\<close>: the module (none after the connection was closed), whether there is a
  connection, the extension objects by name, and the atoms known by both their hash tables.
\<close>

record di_atom_entry =
  ae_name :: string
  ae_atom :: "32 word"

record di_xorg_connection =
  xc_x :: "oref option"
  xc_c :: bool
  xc_xext :: "(string, oref) table"
  xc_atoms :: "di_atom_entry list"
  xc_reqs :: "xreq list"

text \<open>
  \<open>struct di_xorg_ext\<close> with what the structs \<open>di_xorg_xinput\<close> (event mask and listener counts),
  \<open>di_xorg_randr\<close> (first event and configuration time) and \<open>xorg_key\<close> (list of bindings) add to it.
\<close>

datatype xext_kind =
    Xinput "8 word list" "32 word list"
  | Randr int "32 word"
  | Key "oref list"

record di_xorg_ext =
  xe_dc :: "oref option"
  xe_extname :: string
  xe_opcode :: "8 word"
  xe_kind :: xext_kind

text \<open>A key binding has no keycodes (a null pointer) when its key is not on the keyboard.\<close>

record keybinding =
  kb_keysym :: "32 word"
  kb_keycodes :: "8 word list option"
  kb_modifiers :: "16 word"
  kb_k :: "oref option"
  kb_replay :: bool

end
