(* ===== verification/Heap.thy ===== *)
theory Heap
  imports Conversion LuaTypes XorgTypes
begin

text \<open>
  The object heap of \<open>object.c\<close> and \<open>di_internal.h\<close>: objects with their two reference counters, signal
  structs, and the operations that touch one object at a time.

  Every allocation takes a fresh address and addresses are never reused, so a read through a pointer
  to freed memory is visible as the fault \<open>Use_After_Free\<close>.  An operation that may drop the last
  reference to an object runs the destructor of that object, hence arbitrary code; such operations
  take the function that drops one strong reference as their argument \<open>U\<close>, and \<open>Runtime\<close> ties the
  knot.

  \<^item> \<open>di_object_internal\<close>, \<open>di_member\<close>, \<open>di_signal\<close>: the structs of the same names.  The payload holds
    what the structs that embed \<open>di_object_internal\<close> add to it.
  \<^item> \<open>world\<close>: the heap, the signal structs, the allocator, the list \<open>all_objects\<close> of the tracking
    build and the log.
\<close>

section \<open>Objects\<close>

type_synonym sigref = nat

record di_member =
  m_addr :: nat
  m_val :: di_value

record di_closure =
  cl_fn :: nat
  cl_cargs :: "di_value list"
  cl_nargs :: nat
  cl_rtype :: di_type
  cl_atypes :: "di_type list"

datatype dtor_fn =
    Dtor_listen_handle
  | Dtor_free_closure
  | Dtor_roots
  | Dtor_ext nat

datatype call_fn =
    Call_closure
  | Call_field_getter
  | Call_emit_proxied_signal
  | Call_ext nat

text \<open>
  The structs of \<open>event.c\<close> that embed an object, with the fields of the libev watcher inside that the
  code reads or writes; \<open>active\<close> is the flag libev keeps in a watcher that is part of a loop.
\<close>

record di_ioev =
  io_active :: bool
  io_fd :: "32 word"
  io_events :: "32 word"
  io_running :: bool

record di_timer =
  tm_active :: bool
  tm_repeat :: double

record di_periodic =
  pt_active :: bool
  pt_offset :: double
  pt_interval :: double

text \<open>
  The structs of the plugins \<open>dbus\<close> and \<open>file\<close>.  A connection is \<open>None\<close> after it was shut down; beside the
  known names it shows the match rules registered at the bus.  The two hash tables of a file watcher
  hold the same entries.
\<close>

record di_dbus_connection =
  dc_conn :: "nat option"
  known_names :: "(string \<times> string) list"
  dc_matches :: "string list"

record di_file_watch_entry =
  we_fname :: string
  we_wd :: int

record di_file_watch =
  fw_fd :: int
  fw_entries :: "nat \<Rightarrow> di_file_watch_entry option"
  fw_byname :: "(string, nat) table"
  fw_bywd :: "(int, nat) table"

datatype payload =
    PNone
  | PListenHandle "sigref option"
  | PClosure di_closure
  | PRoots "64 word" "(64 word, oref) table"
  | PFieldGetter di_type nat
  | PFields "(nat, di_value) table"
  | PIoev di_ioev
  | PTimer di_timer
  | PPeriodic di_periodic
  | PLuaState lua_state
  | PLuaRef int
  | PLuaScript string
  | PHandlerWrapper "nat option"
  | PDBusConnection di_dbus_connection
  | PDBusObject string string
  | PDBusMethod "string option" string
  | PDBusPending nat
  | PFileWatch di_file_watch
  | PXorgConnection di_xorg_connection
  | PXorgExt di_xorg_ext
  | PKeybinding keybinding
  | PXorgOutput oref "32 word"
  | PXorgView oref "32 word"
  | PXiDevice "32 word" oref

record di_object_internal =
  members :: "(string, di_member) table"
  signals :: "(string, sigref) table"
  dtor :: "dtor_fn option"
  call :: "call_fn option"
  ref_count :: "64 word"
  weak_ref_count :: "64 word"
  destroyed :: bool
  payload :: payload

record di_signal =
  sig_name :: string
  nlisteners :: int
  owner :: oref
  listeners :: "oref list"

record world =
  heap :: "oref \<Rightarrow> di_object_internal option"
  sigs :: "sigref \<Rightarrow> di_signal option"
  next_addr :: nat
  all_objects :: "oref list"
  log_lines :: "string list"

definition get_obj :: "oref \<Rightarrow> world \<Rightarrow> di_object_internal res" where
  "get_obj p w = (case heap w p of None \<Rightarrow> Fault (Use_After_Free p) | Some x \<Rightarrow> Ret x)"

definition put_obj :: "oref \<Rightarrow> di_object_internal \<Rightarrow> world \<Rightarrow> world" where
  "put_obj p x w = w\<lparr>heap := (heap w)(p \<mapsto> x)\<rparr>"

definition get_sig :: "sigref \<Rightarrow> world \<Rightarrow> di_signal res" where
  "get_sig s w = (case sigs w s of None \<Rightarrow> Fault (Use_After_Free s) | Some x \<Rightarrow> Ret x)"

definition put_sig :: "sigref \<Rightarrow> di_signal \<Rightarrow> world \<Rightarrow> world" where
  "put_sig s x w = w\<lparr>sigs := (sigs w)(s \<mapsto> x)\<rparr>"

definition log_line :: "string \<Rightarrow> world \<Rightarrow> world" where
  "log_line s w = w\<lparr>log_lines := s # log_lines w\<rparr>"

lemma get_obj_Ret [simp]: "(get_obj p w = Ret x) = (heap w p = Some x)"
  by (simp add: get_obj_def split: option.splits)

lemma get_sig_Ret [simp]: "(get_sig p w = Ret x) = (sigs w p = Some x)"
  by (simp add: get_sig_def split: option.splits)

lemma put_obj_simps [simp]:
  "heap (put_obj p x w) = (heap w)(p \<mapsto> x)"
  "sigs (put_obj p x w) = sigs w"
  "next_addr (put_obj p x w) = next_addr w"
  "all_objects (put_obj p x w) = all_objects w"
  "log_lines (put_obj p x w) = log_lines w"
  by (simp_all add: put_obj_def)

lemma put_sig_simps [simp]:
  "sigs (put_sig p y w) = (sigs w)(p \<mapsto> y)"
  "heap (put_sig p y w) = heap w"
  "next_addr (put_sig p y w) = next_addr w"
  "all_objects (put_sig p y w) = all_objects w"
  by (simp_all add: put_sig_def)

lemma log_line_simps [simp]:
  "heap (log_line s w) = heap w"
  "sigs (log_line s w) = sigs w"
  "next_addr (log_line s w) = next_addr w"
  "all_objects (log_line s w) = all_objects w"
  by (simp_all add: log_line_def)

subsection \<open>Creation\<close>

text \<open>
  \<open>sizeof(struct di_object)\<close> is 128 and its alignment 8.  \<open>posix_memalign\<close> accepts a power of two that
  is a multiple of the pointer size; any other alignment fails the \<open>DI_CHECK_OK\<close>.
\<close>

definition empty_object :: di_object_internal where
  "empty_object = \<lparr>members = [], signals = [], dtor = None, call = None, ref_count = 1,
     weak_ref_count = 1, destroyed = False, payload = PNone\<rparr>"

text \<open>
  \<open>dead_weak_ref\<close> points to a static object that no strong reference ever had; it sits at address 0
  of the initial heap.
\<close>

definition dead_weakly_referenced_object :: di_object_internal where
  "dead_weakly_referenced_object = empty_object\<lparr>ref_count := 0\<rparr>"

definition dead_weak_ref :: oref where
  "dead_weak_ref = 0"

definition initial_world :: world where
  "initial_world = \<lparr>heap = [dead_weak_ref \<mapsto> dead_weakly_referenced_object], sigs = Map.empty,
     next_addr = 1, all_objects = [], log_lines = []\<rparr>"

fun is_pow2 :: "nat \<Rightarrow> bool" where
  "is_pow2 n = (if n \<le> 1 then n = 1 else even n \<and> is_pow2 (n div 2))"

declare is_pow2.simps [simp del]

definition alloc_object :: "world \<Rightarrow> oref \<times> world" where
  "alloc_object w =
     (let p = next_addr w in
      (p, w\<lparr>heap := (heap w)(p \<mapsto> empty_object), next_addr := Suc p, all_objects := p # all_objects w\<rparr>))"

definition di_new_object :: "nat \<Rightarrow> nat \<Rightarrow> world \<Rightarrow> (oref option \<times> world) res" where
  "di_new_object sz alignment w =
     (if sz < 128 then Ret (None, w)
      else if alignment < 8 then Ret (None, w)
      else assert_res (is_pow2 alignment) ''posix_memalign''
        (let (p, w') = alloc_object w in Ret (Some p, w')))"

subsection \<open>Reference counts\<close>

definition di_ref_object :: "oref \<Rightarrow> world \<Rightarrow> world res" where
  "di_ref_object p w = bind_res (get_obj p w) (\<lambda>x. Ret (put_obj p (x\<lparr>ref_count := ref_count x + 1\<rparr>) w))"

definition di_weakly_ref_object :: "oref \<Rightarrow> world \<Rightarrow> world res" where
  "di_weakly_ref_object p w =
     bind_res (get_obj p w) (\<lambda>x. Ret (put_obj p (x\<lparr>weak_ref_count := weak_ref_count x + 1\<rparr>) w))"

definition di_upgrade_weak_ref :: "oref \<Rightarrow> world \<Rightarrow> (oref option \<times> world) res" where
  "di_upgrade_weak_ref p w = bind_res (get_obj p w) (\<lambda>x.
     if 0 < ref_count x then bind_res (di_ref_object p w) (\<lambda>w'. Ret (Some p, w')) else Ret (None, w))"

definition free_object :: "oref \<Rightarrow> world \<Rightarrow> world" where
  "free_object p w = w\<lparr>heap := (heap w)(p := None), all_objects := remove1 p (all_objects w)\<rparr>"

lemma free_object_simps [simp]:
  "heap (free_object p w) = (heap w)(p := None)"
  "sigs (free_object p w) = sigs w"
  "next_addr (free_object p w) = next_addr w"
  "all_objects (free_object p w) = remove1 p (all_objects w)"
  "log_lines (free_object p w) = log_lines w"
  by (simp_all add: free_object_def)

definition di_decrement_weak_ref_count :: "oref \<Rightarrow> world \<Rightarrow> world res" where
  "di_decrement_weak_ref_count p w = bind_res (get_obj p w) (\<lambda>x.
     let c = weak_ref_count x - 1 in
     Ret (if c = 0 then free_object p w else put_obj p (x\<lparr>weak_ref_count := c\<rparr>) w))"

definition di_drop_weak_ref :: "oref \<Rightarrow> world \<Rightarrow> world res" where
  "di_drop_weak_ref p w = di_decrement_weak_ref_count p w"

subsection \<open>Copying and freeing values\<close>

text \<open>
  \<open>di_copy_value\<close>.  The storage of a copied array comes from \<open>calloc\<close>, which is not \<open>NULL\<close> even when
  the array is empty.  A variant (and each element of a tuple, which is one) allocates
  \<open>di_sizeof_type\<close> bytes for its content first, which aborts for the bottom type.
\<close>

fun di_copy_value :: "di_value \<Rightarrow> world \<Rightarrow> (di_value \<times> world) res"
  and di_copy_elems :: "di_value list \<Rightarrow> world \<Rightarrow> (di_value list \<times> world) res" where
  "di_copy_value (VArray t a) w =
     bind_res (di_sizeof_type t) (\<lambda>n. assert_res (n \<noteq> 0) ''di_copy_value''
       (case a of None \<Rightarrow> Ret (VArray t (Some []), w)
        | Some xs \<Rightarrow> bind_res (di_copy_elems xs w) (\<lambda>(ys, w'). Ret (VArray t (Some ys), w'))))"
| "di_copy_value (VTuple xs) w = bind_res (di_copy_elems xs w) (\<lambda>(ys, w'). Ret (VTuple ys, w'))"
| "di_copy_value (VVariant v) w =
     bind_res (di_sizeof_type (di_typeof v)) (\<lambda>_.
       bind_res (di_copy_value v w) (\<lambda>(v', w'). Ret (VVariant v', w')))"
| "di_copy_value (VString s) w = Ret (VString (di_clone_string s), w)"
| "di_copy_value (VObject p) w = bind_res (di_ref_object p w) (\<lambda>w'. Ret (VObject p, w'))"
| "di_copy_value (VWeak p) w = bind_res (di_weakly_ref_object p w) (\<lambda>w'. Ret (VWeak p, w'))"
| "di_copy_value VLast w = Fault (Aborted ''di_copy_value'')"
| "di_copy_value v w = Ret (v, w)"
| "di_copy_elems [] w = Ret ([], w)"
| "di_copy_elems (x # xs) w =
     bind_res (di_sizeof_type (di_typeof x)) (\<lambda>_.
       bind_res (di_copy_value x w) (\<lambda>(y, w1).
         bind_res (di_copy_elems xs w1) (\<lambda>(ys, w2). Ret (y # ys, w2))))"

text \<open>
  \<open>di_free_value\<close>, with \<open>di_free_array\<close> and \<open>di_free_tuple\<close>.  An array of length zero must have a null
  storage pointer.  \<open>DI_ASSERT\<close> is on, as in a debug build.
\<close>

type_synonym drop_fn = "oref \<Rightarrow> world \<Rightarrow> world res"

fun di_free_value :: "drop_fn \<Rightarrow> di_value \<Rightarrow> world \<Rightarrow> world res"
  and di_free_elems :: "drop_fn \<Rightarrow> di_value list \<Rightarrow> world \<Rightarrow> world res" where
  "di_free_value U (VArray t None) w = Ret w"
| "di_free_value U (VArray t (Some xs)) w =
     (if xs = [] then Fault (Aborted ''di_free_array'')
      else bind_res (di_sizeof_type t) (\<lambda>_. di_free_elems U xs w))"
| "di_free_value U (VTuple xs) w = di_free_elems U xs w"
| "di_free_value U (VVariant v) w = di_free_value U v w"
| "di_free_value U (VObject p) w = U p w"
| "di_free_value U (VWeak p) w = di_drop_weak_ref p w"
| "di_free_value U VLast w = Fault (Aborted ''di_free_value'')"
| "di_free_value U v w = Ret w"
| "di_free_elems U [] w = Ret w"
| "di_free_elems U (x # xs) w = bind_res (di_free_value U x w) (di_free_elems U xs)"

section \<open>Members\<close>

definition di_is_internal :: "string \<Rightarrow> bool" where
  "di_is_internal s = starts_with ''__'' s"

definition di_lookup :: "oref \<Rightarrow> di_string \<Rightarrow> world \<Rightarrow> di_member option res" where
  "di_lookup p name w =
     (case name of None \<Rightarrow> Ret None
      | Some n \<Rightarrow> bind_res (get_obj p w) (\<lambda>x. Ret (hash_find n (members x))))"

text \<open>
  \<open>check_new_member\<close>.  \<open>deleter_prefix_len\<close> is the length of the \<^emph>\<open>setter\<close> prefix, so a deleter is
  recognised by, and its real name starts after, the first six characters of its name.
\<close>

definition check_new_member :: "di_object_internal \<Rightarrow> string \<Rightarrow> errno option" where
  "check_new_member x name =
     (if hash_find name (members x) \<noteq> None then Some EEXIST
      else
        let getter_prefix = ''__get_''; setter_prefix = ''__set_'';
            deleter_prefix = take (length setter_prefix) ''__delete_'';
            real_name =
              (if starts_with getter_prefix name then drop (length getter_prefix) name
               else if starts_with setter_prefix name then drop (length setter_prefix) name
               else if starts_with deleter_prefix name then drop (length deleter_prefix) name
               else [])
        in if 2 \<le> length real_name \<and> starts_with ''__'' real_name then Some EINVAL else None)"

definition di_insert_member :: "oref \<Rightarrow> string \<Rightarrow> di_value \<Rightarrow> world \<Rightarrow> (unit outcome \<times> world) res" where
  "di_insert_member p name v w =
     bind_res (get_obj p w) (\<lambda>x.
       case check_new_member x name of
         Some e \<Rightarrow> Ret (Inl e, w)
       | None \<Rightarrow>
          Ret (Inr (), (put_obj p (x\<lparr>members := hash_add name \<lparr>m_addr = next_addr w, m_val = v\<rparr> (members x)\<rparr>) w)
             \<lparr>next_addr := Suc (next_addr w)\<rparr>))"

text \<open>\<open>di_add_member\<close> takes the value over: it frees it when the member is refused.\<close>

definition di_add_member :: "drop_fn \<Rightarrow> oref \<Rightarrow> di_string \<Rightarrow> di_value \<Rightarrow> world \<Rightarrow> (unit outcome \<times> world) res" where
  "di_add_member U p name v w =
     (case name of
        None \<Rightarrow> Ret (Inl EINVAL, w)
      | Some n \<Rightarrow> bind_res (di_insert_member p n v w) (\<lambda>(r, w1).
          case r of
            Inr u \<Rightarrow> Ret (Inr u, w1)
          | Inl e \<Rightarrow> bind_res (di_free_value U v w1) (\<lambda>w2. Ret (Inl e, w2))))"

definition di_add_member_clone :: "drop_fn \<Rightarrow> oref \<Rightarrow> di_string \<Rightarrow> di_value \<Rightarrow> world \<Rightarrow> (unit outcome \<times> world) res" where
  "di_add_member_clone U p name v w =
     bind_res (di_sizeof_type (di_typeof v)) (\<lambda>n.
       if n = 0 then Ret (Inl EINVAL, w)
       else bind_res (di_copy_value v w) (\<lambda>(v', w1). di_add_member U p name v' w1))"

definition di_add_member_move :: "drop_fn \<Rightarrow> oref \<Rightarrow> di_string \<Rightarrow> di_value \<Rightarrow> world \<Rightarrow> (unit outcome \<times> world) res" where
  "di_add_member_move U p name v w =
     bind_res (di_sizeof_type (di_typeof v)) (\<lambda>n.
       if n = 0 then Ret (Inl EINVAL, w) else di_add_member U p name v w)"

text \<open>
  \<open>di_add_member_clonev\<close> fetches the value with \<open>va_arg_with_di_type\<close>, which reads a \<open>struct di_string\<close>
  argument as a single pointer and leaves its length indeterminate.
\<close>

definition va_arg_with_di_type :: "di_value \<Rightarrow> di_value res" where
  "va_arg_with_di_type v =
     (if di_typeof v = DI_TYPE_NIL \<or> no_value (di_typeof v) then Fault (Aborted ''va_arg_with_di_type'')
      else if di_typeof v = DI_TYPE_STRING then Fault Type_Confusion else Ret v)"

definition di_add_member_clonev :: "drop_fn \<Rightarrow> oref \<Rightarrow> di_string \<Rightarrow> di_value \<Rightarrow> world \<Rightarrow> (unit outcome \<times> world) res" where
  "di_add_member_clonev U p name v w =
     bind_res (di_sizeof_type (di_typeof v)) (\<lambda>n.
       if n = 0 then Ret (Inl EINVAL, w)
       else bind_res (va_arg_with_di_type v) (\<lambda>nv. di_add_member_clone U p name nv w))"

definition di_remove_member_raw_impl :: "drop_fn \<Rightarrow> oref \<Rightarrow> string \<Rightarrow> di_member \<Rightarrow> world \<Rightarrow> world res" where
  "di_remove_member_raw_impl U p name m w =
     bind_res (get_obj p w) (\<lambda>x.
       di_free_value U (m_val m) (put_obj p (x\<lparr>members := hash_del name (members x)\<rparr>) w))"

definition di_remove_member_raw :: "drop_fn \<Rightarrow> oref \<Rightarrow> di_string \<Rightarrow> world \<Rightarrow> (unit outcome \<times> world) res" where
  "di_remove_member_raw U p name w =
     bind_res (di_lookup p name w) (\<lambda>m.
       case m of
         None \<Rightarrow> Ret (Inl ENOENT, w)
       | Some mem \<Rightarrow> bind_res (di_remove_member_raw_impl U p (the name) mem w) (\<lambda>w'. Ret (Inr (), w')))"

definition di_rawgetx :: "oref \<Rightarrow> di_string \<Rightarrow> world \<Rightarrow> (di_value outcome \<times> world) res" where
  "di_rawgetx p prop w =
     bind_res (di_lookup p prop w) (\<lambda>m.
       case m of
         None \<Rightarrow> Ret (Inl ENOENT, w)
       | Some mem \<Rightarrow>
          bind_res (di_sizeof_type (di_typeof (m_val mem))) (\<lambda>n. assert_res (n \<noteq> 0) ''di_rawgetx''
            (bind_res (di_copy_value (m_val mem) w) (\<lambda>(v, w'). Ret (Inr v, w')))))"

definition di_set_object_dtor :: "oref \<Rightarrow> dtor_fn option \<Rightarrow> world \<Rightarrow> world res" where
  "di_set_object_dtor p d w = bind_res (get_obj p w) (\<lambda>x. Ret (put_obj p (x\<lparr>dtor := d\<rparr>) w))"

definition di_set_object_call :: "oref \<Rightarrow> call_fn option \<Rightarrow> world \<Rightarrow> world res" where
  "di_set_object_call p c w = bind_res (get_obj p w) (\<lambda>x. Ret (put_obj p (x\<lparr>call := c\<rparr>) w))"

definition di_is_object_callable :: "oref \<Rightarrow> world \<Rightarrow> bool res" where
  "di_is_object_callable p w = bind_res (get_obj p w) (\<lambda>x. Ret (call x \<noteq> None))"

definition put_payload :: "oref \<Rightarrow> payload \<Rightarrow> world \<Rightarrow> world res" where
  "put_payload p pl w = bind_res (get_obj p w) (\<lambda>x. Ret (put_obj p (x\<lparr>payload := pl\<rparr>) w))"

lemma put_payload_Ret: "heap w p = Some x \<Longrightarrow> put_payload p pl w = Ret (put_obj p (x\<lparr>payload := pl\<rparr>) w)"
  by (simp add: put_payload_def get_obj_def)

section \<open>Typed reads\<close>

text \<open>
  \<open>di_type_conversion\<close> of \<open>include/utils.h\<close>: the result, whether it was cloned, and the heap.  A
  conversion to a variant copies the value into it; a variant is unpacked; a borrowed string literal
  becomes a borrowed string, an owned one is duplicated; integers convert by \<open>integer_conversion\<close> and
  to doubles.
\<close>

fun di_type_conversion :: "di_value \<Rightarrow> di_type \<Rightarrow> bool \<Rightarrow> world \<Rightarrow> (di_value outcome \<times> bool \<times> world) res" where
  "di_type_conversion inp outty borrowing w =
     (if di_typeof inp = outty then bind_res (di_sizeof_type outty) (\<lambda>_. Ret (Inr inp, False, w))
      else if outty = DI_TYPE_VARIANT then
        bind_res (di_sizeof_type (di_typeof inp)) (\<lambda>_.
          bind_res (di_copy_value inp w) (\<lambda>(v, w'). Ret (Inr (VVariant v), True, w')))
      else if di_typeof inp = DI_TYPE_STRING_LITERAL \<and> outty = DI_TYPE_STRING then
        (case inp of VLiteral s \<Rightarrow> Ret (Inr (VString (Some (cstr s))), \<not> borrowing, w)
         | _ \<Rightarrow> Fault Type_Confusion)
      else if outty = DI_TYPE_NIL then Ret (Inr VNil, False, w)
      else (case inp of
          VVariant v \<Rightarrow> di_type_conversion v outty borrowing w
        | _ \<Rightarrow>
           if is_integer (di_typeof inp) \<and> is_integer outty then
             bind_res (integer_conversion inp outty) (\<lambda>r. Ret (r, False, w))
           else if is_integer (di_typeof inp) \<and> outty = DI_TYPE_FLOAT then
             Ret (Inr (VFloat (int_to_double (int_value inp))), False, w)
           else Ret (Inl EINVAL, False, w)))"

declare di_type_conversion.simps [simp del]

text \<open>The macro \<open>gen_tfunc\<close>: read with a getter, convert, free the original when it is not handed on.\<close>

definition gen_tfunc ::
  "drop_fn \<Rightarrow> (oref \<Rightarrow> di_string \<Rightarrow> world \<Rightarrow> (di_value outcome \<times> world) res) \<Rightarrow>
   oref \<Rightarrow> di_string \<Rightarrow> di_type \<Rightarrow> world \<Rightarrow> (di_value outcome \<times> world) res" where
  "gen_tfunc U getter p prop rtype w =
     bind_res (getter p prop w) (\<lambda>(r, w1).
       case r of
         Inl e \<Rightarrow> Ret (Inl e, w1)
       | Inr v \<Rightarrow>
          bind_res (di_type_conversion v rtype False w1) (\<lambda>(r', cloned, w2).
            if cloned \<or> isl r' then bind_res (di_free_value U v w2) (\<lambda>w3. Ret (r', w3))
            else Ret (r', w2)))"

definition di_rawgetxt :: "drop_fn \<Rightarrow> oref \<Rightarrow> di_string \<Rightarrow> di_type \<Rightarrow> world \<Rightarrow> (di_value outcome \<times> world) res" where
  "di_rawgetxt U = gen_tfunc U di_rawgetx"

text \<open>\<open>di_set_type\<close>, \<open>di_get_type\<close>, \<open>di_check_type\<close>: the member \<open>__type\<close>.\<close>

definition di_set_type :: "drop_fn \<Rightarrow> oref \<Rightarrow> string \<Rightarrow> world \<Rightarrow> (unit outcome \<times> world) res" where
  "di_set_type U p ty w =
     bind_res (di_remove_member_raw U p (Some ''__type'') w) (\<lambda>(_, w1).
       di_add_member_clonev U p (Some ''__type'') (VLiteral ty) w1)"

definition di_get_type :: "drop_fn \<Rightarrow> oref \<Rightarrow> world \<Rightarrow> (string outcome \<times> world) res" where
  "di_get_type U p w =
     bind_res (di_rawgetxt U p (Some ''__type'') DI_TYPE_STRING_LITERAL w) (\<lambda>(r, w1).
       case r of
         Inl e \<Rightarrow> Ret (if e = ENOENT then Inr ''deai:object'' else Inl e, w1)
       | Inr v \<Rightarrow> (case v of VLiteral s \<Rightarrow> Ret (Inr s, w1) | _ \<Rightarrow> Fault Type_Confusion))"

definition di_check_type :: "drop_fn \<Rightarrow> oref \<Rightarrow> string \<Rightarrow> world \<Rightarrow> (bool \<times> world) res" where
  "di_check_type U p tyname w =
     bind_res (di_get_type U p w) (\<lambda>(r, w1). Ret (r = Inr tyname, w1))"

end
