(* ===== verification/Object.thy ===== *)
theory Object
  imports Heap
begin

text \<open>
  The operations of \<open>object.c\<close> that call back: property access through handlers, destruction,
  listeners and signal emission.

  They take two functions: \<open>U\<close> drops one strong reference (\<open>di_unref_object\<close>), \<open>C\<close> calls the object's
  \<open>call\<close> pointer with a list of arguments.  \<open>Runtime\<close> passes itself with less fuel for both.  A
  call gives the return code (\<open>Inl\<close>) or the returned value, which the caller owns.
\<close>

type_synonym call_obj = "oref \<Rightarrow> di_value list \<Rightarrow> world \<Rightarrow> (di_value outcome \<times> world) res"

definition MAX_NARGS :: nat where
  "MAX_NARGS = 128"

section \<open>Calling members\<close>

text \<open>
  \<open>di_call_internal\<close>: the object itself is pushed as the first argument.  The third component of the
  result is \<open>*called\<close>.  An object that is not callable is refused before its reference is dropped.
\<close>

definition di_call_internal ::
  "drop_fn \<Rightarrow> call_obj \<Rightarrow> oref \<Rightarrow> oref \<Rightarrow> di_value list \<Rightarrow> world \<Rightarrow> (di_value outcome \<times> bool \<times> world) res" where
  "di_call_internal U C self method args w =
     bind_res (get_obj method w) (\<lambda>m.
       if call m = None then Ret (Inl EINVAL, False, w)
       else assert_res (length args + 1 \<le> MAX_NARGS) ''di_call_internal''
         (bind_res (C method (VObject self # args) w) (\<lambda>(rc, w1).
            bind_res (U method w1) (\<lambda>w2. Ret (rc, True, w2)))))"

definition gen_callx ::
  "drop_fn \<Rightarrow> call_obj \<Rightarrow> (oref \<Rightarrow> di_string \<Rightarrow> di_type \<Rightarrow> world \<Rightarrow> (di_value outcome \<times> world) res) \<Rightarrow>
   oref \<Rightarrow> di_string \<Rightarrow> di_value list \<Rightarrow> world \<Rightarrow> (di_value outcome \<times> bool \<times> world) res" where
  "gen_callx U C getter self name args w =
     bind_res (getter self name DI_TYPE_OBJECT w) (\<lambda>(r, w1).
       case r of
         Inl e \<Rightarrow> Ret (Inl e, False, w1)
       | Inr v \<Rightarrow> (case v of
           VObject val \<Rightarrow> di_call_internal U C self val args w1
         | _ \<Rightarrow> Fault Type_Confusion))"

definition di_rawcallxn ::
  "drop_fn \<Rightarrow> call_obj \<Rightarrow> oref \<Rightarrow> di_string \<Rightarrow> di_value list \<Rightarrow> world \<Rightarrow> (di_value outcome \<times> bool \<times> world) res" where
  "di_rawcallxn U C = gen_callx U C (di_rawgetxt U)"

text \<open>
  \<open>call_handler_with_fallback\<close>: call \<open><prefix>_<name>\<close> with the argument, or \<open><prefix>\<close> with the name and
  the argument.  \<open>want\<close> says whether the caller passed a place for the returned value; otherwise the
  value is freed.  The bool of the result is \<open>*found\<close>.
\<close>

definition handler_name :: "string \<Rightarrow> string \<Rightarrow> string" where
  "handler_name prefix name = prefix @ ''_'' @ cstr name"

definition handler_return ::
  "drop_fn \<Rightarrow> bool \<Rightarrow> di_value outcome \<Rightarrow> bool \<Rightarrow> world \<Rightarrow> (di_value outcome \<times> bool \<times> world) res" where
  "handler_return U want r found w =
     (case r of
        Inl e \<Rightarrow> Ret (Inl e, found, w)
      | Inr v \<Rightarrow> if want then Ret (Inr v, found, w)
                else bind_res (di_free_value U v w) (\<lambda>w'. Ret (Inr VNil, found, w')))"

definition call_handler_with_fallback ::
  "drop_fn \<Rightarrow> call_obj \<Rightarrow> oref \<Rightarrow> string \<Rightarrow> string \<Rightarrow> di_value option \<Rightarrow> bool \<Rightarrow> world \<Rightarrow>
   (di_value outcome \<times> bool \<times> world) res" where
  "call_handler_with_fallback U C p prefix name arg want w =
     (if di_is_internal name then Ret (Inl ENOENT, False, w)
      else
        let args = (case arg of None \<Rightarrow> [] | Some v \<Rightarrow> [v]) in
        bind_res (di_rawcallxn U C p (Some (handler_name prefix name)) args w) (\<lambda>(r, found, w1).
          if found then handler_return U want r found w1
          else bind_res (di_rawcallxn U C p (Some prefix) (VString (Some name) # args) w1) (\<lambda>(r', found', w2).
            handler_return U want r' found' w2)))"

section \<open>Property access\<close>

text \<open>\<open>di_flatten_variant\<close>: a variant returned by a getter is unpacked down to its innermost value.\<close>

fun di_flatten_variant :: "di_value \<Rightarrow> di_value" where
  "di_flatten_variant (VVariant v) = di_flatten_variant v"
| "di_flatten_variant v = v"

definition di_getx :: "drop_fn \<Rightarrow> call_obj \<Rightarrow> oref \<Rightarrow> di_string \<Rightarrow> world \<Rightarrow> (di_value outcome \<times> world) res" where
  "di_getx U C p prop w =
     bind_res (di_rawgetx p prop w) (\<lambda>(r, w1).
       case r of
         Inr v \<Rightarrow> Ret (Inr v, w1)
       | Inl _ \<Rightarrow>
          bind_res (call_handler_with_fallback U C p ''__get'' (di_string_bytes prop) None True w1)
            (\<lambda>(r', _, w2).
              case r' of
                Inl e \<Rightarrow> Ret (Inl e, w2)
              | Inr v \<Rightarrow>
                 (let v' = di_flatten_variant v in
                  if v' = VLast then Ret (Inl ENOENT, w2) else Ret (Inr v', w2))))"

definition di_getxt :: "drop_fn \<Rightarrow> call_obj \<Rightarrow> oref \<Rightarrow> di_string \<Rightarrow> di_type \<Rightarrow> world \<Rightarrow> (di_value outcome \<times> world) res" where
  "di_getxt U C = gen_tfunc U (di_getx U C)"

definition di_callx ::
  "drop_fn \<Rightarrow> call_obj \<Rightarrow> oref \<Rightarrow> di_string \<Rightarrow> di_value list \<Rightarrow> world \<Rightarrow> (di_value outcome \<times> bool \<times> world) res" where
  "di_callx U C = gen_callx U C (di_getxt U C)"

text \<open>
  Replacing the value of an existing member in \<open>di_setx\<close>.  The storage is resized for the new type, but
  the new value is copied \<^emph>\<open>as a value of the old type\<close>, which the member keeps.  \<open>reinterpret\<close> gives
  the bytes of a value at another type where the representation is determined: integers of the same
  width, and the low half of a wider integer.  All other pairs read bytes of one representation as
  another, a double as an integer or an integer as a pointer; the C code goes on with such a value, and the
  model stops there with \<open>Type_Confusion\<close>.
\<close>

definition reinterpret :: "di_type \<Rightarrow> di_value \<Rightarrow> di_value option" where
  "reinterpret t v =
     (if di_typeof v = t then Some v
      else case v of
        VInt w \<Rightarrow> if t = DI_TYPE_UINT then Some (VUint w)
                  else if t = DI_TYPE_NINT then Some (VNint (ucast w))
                  else if t = DI_TYPE_NUINT then Some (VNuint (ucast w)) else None
      | VUint w \<Rightarrow> if t = DI_TYPE_INT then Some (VInt w)
                  else if t = DI_TYPE_NINT then Some (VNint (ucast w))
                  else if t = DI_TYPE_NUINT then Some (VNuint (ucast w)) else None
      | VNint w \<Rightarrow> if t = DI_TYPE_NUINT then Some (VNuint w) else None
      | VNuint w \<Rightarrow> if t = DI_TYPE_NINT then Some (VNint w) else None
      | _ \<Rightarrow> None)"

definition set_member_val :: "oref \<Rightarrow> string \<Rightarrow> di_member \<Rightarrow> di_value \<Rightarrow> world \<Rightarrow> world res" where
  "set_member_val p name mem v w =
     bind_res (get_obj p w) (\<lambda>x.
       if map_option m_addr (hash_find name (members x)) = Some (m_addr mem)
       then Ret (put_obj p (x\<lparr>members := hash_set name (mem\<lparr>m_val := v\<rparr>) (members x)\<rparr>) w)
       else Fault (Use_After_Free (m_addr mem)))"

text \<open>
  While the old value is being freed the member's storage still holds the freed bytes; \<open>VLast\<close> stands
  for them, a value that no read accepts.
\<close>

definition replace_member :: "drop_fn \<Rightarrow> oref \<Rightarrow> string \<Rightarrow> di_member \<Rightarrow> di_value \<Rightarrow> world \<Rightarrow> (unit outcome \<times> world) res" where
  "replace_member U p name mem v w =
     bind_res (set_member_val p name mem VLast w) (\<lambda>w1.
       bind_res (di_free_value U (m_val mem) w1) (\<lambda>w2.
         bind_res (di_sizeof_type (di_typeof v)) (\<lambda>_.
           case reinterpret (di_typeof (m_val mem)) v of
             None \<Rightarrow> Fault Type_Confusion
           | Some v' \<Rightarrow>
              bind_res (di_copy_value v' w2) (\<lambda>(v'', w3).
                bind_res (set_member_val p name mem v'' w3) (\<lambda>w4. Ret (Inr (), w4))))))"

definition di_setx :: "drop_fn \<Rightarrow> call_obj \<Rightarrow> oref \<Rightarrow> di_string \<Rightarrow> di_value \<Rightarrow> world \<Rightarrow> (unit outcome \<times> world) res" where
  "di_setx U C p prop v w =
     bind_res (call_handler_with_fallback U C p ''__set'' (di_string_bytes prop) (Some v) False w)
       (\<lambda>(r, found, w1).
         if found then Ret (map_sum id (\<lambda>_. ()) r, w1)
         else bind_res (call_handler_with_fallback U C p ''__delete'' (di_string_bytes prop) None False w1)
           (\<lambda>(r', found', w2).
             if found' \<and> isl r' then Ret (map_sum id (\<lambda>_. ()) r', w2)
             else bind_res (di_lookup p prop w2) (\<lambda>m.
               case m of
                 Some mem \<Rightarrow> replace_member U p (the prop) mem v w2
               | None \<Rightarrow> di_add_member_clone U p prop v w2)))"

definition di_remove_member :: "drop_fn \<Rightarrow> call_obj \<Rightarrow> oref \<Rightarrow> di_string \<Rightarrow> world \<Rightarrow> (unit outcome \<times> world) res" where
  "di_remove_member U C p name w =
     bind_res (call_handler_with_fallback U C p ''__delete'' (di_string_bytes name) None False w)
       (\<lambda>(r, found, w1).
         if found then Ret (map_sum id (\<lambda>_. ()) r, w1) else di_remove_member_raw U p name w1)"

section \<open>Destruction\<close>

text \<open>
  The loop of \<open>_di_finalize_object\<close> reads the address of the next member before it removes the current
  one, and follows that address afterwards.
\<close>

fun find_member_at :: "nat \<Rightarrow> (string, di_member) table \<Rightarrow> (string \<times> di_member) option" where
  "find_member_at a [] = None"
| "find_member_at a (m # ms) = (if m_addr (snd m) = a then Some m else find_member_at a ms)"

fun next_member_addr :: "nat \<Rightarrow> (string, di_member) table \<Rightarrow> nat option" where
  "next_member_addr a [] = None"
| "next_member_addr a (m # ms) =
     (if m_addr (snd m) = a then (case ms of [] \<Rightarrow> None | m' # _ \<Rightarrow> Some (m_addr (snd m')))
      else next_member_addr a ms)"

definition first_member_addr :: "(string, di_member) table \<Rightarrow> nat option" where
  "first_member_addr ms = (case ms of [] \<Rightarrow> None | m # _ \<Rightarrow> Some (m_addr (snd m)))"

fun finalize_members :: "drop_fn \<Rightarrow> nat \<Rightarrow> oref \<Rightarrow> nat option \<Rightarrow> world \<Rightarrow> world res" where
  "finalize_members U k p None w = Ret w"
| "finalize_members U 0 p (Some a) w = Fault OutOfFuel"
| "finalize_members U (Suc k) p (Some a) w =
     bind_res (get_obj p w) (\<lambda>x.
       case find_member_at a (members x) of
         None \<Rightarrow> Fault (Use_After_Free a)
       | Some (name, m) \<Rightarrow>
          bind_res (di_remove_member_raw_impl U p name m w) (\<lambda>w1.
            finalize_members U k p (next_member_addr a (members x)) w1))"

definition finalize_object_impl ::
  "(dtor_fn \<Rightarrow> oref \<Rightarrow> world \<Rightarrow> world res) \<Rightarrow> drop_fn \<Rightarrow> nat \<Rightarrow> oref \<Rightarrow> world \<Rightarrow> world res" where
  "finalize_object_impl D U k p w =
     bind_res (get_obj p w) (\<lambda>x.
       bind_res (case dtor x of
                   None \<Rightarrow> Ret w
                 | Some d \<Rightarrow> D d p (put_obj p (x\<lparr>dtor := None\<rparr>) w)) (\<lambda>w1.
         bind_res (get_obj p w1) (\<lambda>y.
           finalize_members U k p (first_member_addr (members y)) w1)))"

definition di_finalize_object ::
  "(dtor_fn \<Rightarrow> oref \<Rightarrow> world \<Rightarrow> world res) \<Rightarrow> drop_fn \<Rightarrow> nat \<Rightarrow> oref \<Rightarrow> world \<Rightarrow> world res" where
  "di_finalize_object D U k p w =
     bind_res (di_ref_object p w) (\<lambda>w1. bind_res (finalize_object_impl D U k p w1) (U p))"

definition di_destroy_object ::
  "(dtor_fn \<Rightarrow> oref \<Rightarrow> world \<Rightarrow> world res) \<Rightarrow> drop_fn \<Rightarrow> nat \<Rightarrow> oref \<Rightarrow> world \<Rightarrow> world res" where
  "di_destroy_object D U k p w =
     bind_res (di_ref_object p w) (\<lambda>w1.
       bind_res (get_obj p w1) (\<lambda>x.
         let w2 = (if destroyed x then log_line ''warning: destroy object multiple times'' w1 else w1) in
         bind_res (finalize_object_impl D U k p (put_obj p (x\<lparr>destroyed := True\<rparr>) w2)) (\<lambda>w3.
           bind_res (get_obj p w3) (\<lambda>y.
             U p (put_obj p (y\<lparr>signals := []\<rparr>) w3)))))"

text \<open>One step of \<open>di_unref_object\<close>; \<open>U\<close> is the same function with less fuel.\<close>

definition unref_step ::
  "(dtor_fn \<Rightarrow> oref \<Rightarrow> world \<Rightarrow> world res) \<Rightarrow> drop_fn \<Rightarrow> nat \<Rightarrow> oref \<Rightarrow> world \<Rightarrow> world res" where
  "unref_step D U k p w =
     bind_res (get_obj p w) (\<lambda>x.
       assert_res (0 < ref_count x) ''di_unref_object''
         (let y = x\<lparr>ref_count := ref_count x - 1\<rparr>; w1 = put_obj p y w in
          if ref_count y = 0 then
            if destroyed y then di_decrement_weak_ref_count p w1
            else di_destroy_object D U k p w1
          else Ret w1))"

section \<open>Listeners\<close>

text \<open>
  \<open>di_listen_handle_dtor\<close>.  The listener struct belongs to its handle, so a signal's list holds the
  handles themselves.  When the last handle goes, the signal is taken out of its owner's table (if
  the owner is still alive), the owner's \<open>__del_signal\<close> handler runs, and the struct is freed.
\<close>

definition detach_signal :: "oref \<Rightarrow> sigref \<Rightarrow> string \<Rightarrow> world \<Rightarrow> world res" where
  "detach_signal p s name w =
     bind_res (get_obj p w) (\<lambda>x.
       if hash_find name (signals x) = Some s then Ret (put_obj p (x\<lparr>signals := hash_del name (signals x)\<rparr>) w)
       else Fault (Use_After_Free s))"

definition drop_signal :: "drop_fn \<Rightarrow> call_obj \<Rightarrow> sigref \<Rightarrow> di_signal \<Rightarrow> world \<Rightarrow> world res" where
  "drop_signal U C s sg w =
     bind_res (di_upgrade_weak_ref (owner sg) w) (\<lambda>(o', w1).
       bind_res (case o' of
           None \<Rightarrow> Ret w1
         | Some p \<Rightarrow> bind_res (detach_signal p s (sig_name sg) w1) (\<lambda>w2.
             if di_is_internal (sig_name sg) then Ret w2
             else bind_res (call_handler_with_fallback U C p ''__del_signal'' (sig_name sg) None False w2)
               (\<lambda>(_, _, w3). Ret w3))) (\<lambda>w4.
         bind_res (di_drop_weak_ref (owner sg) w4) (\<lambda>w5.
           let w6 = w5\<lparr>sigs := (sigs w5)(s := None)\<rparr> in
           case o' of None \<Rightarrow> Ret w6 | Some p \<Rightarrow> U p w6)))"

definition di_listen_handle_dtor :: "drop_fn \<Rightarrow> call_obj \<Rightarrow> oref \<Rightarrow> world \<Rightarrow> world res" where
  "di_listen_handle_dtor U C h w =
     bind_res (get_obj h w) (\<lambda>x.
       case payload x of
         PListenHandle (Some s) \<Rightarrow>
           bind_res (get_sig s w) (\<lambda>sg.
             let sg' = sg\<lparr>nlisteners := nlisteners sg - 1, listeners := remove1 h (listeners sg)\<rparr>;
                 w1 = put_sig s sg' w in
             bind_res (if listeners sg' = [] then drop_signal U C s sg' w1 else Ret w1) (\<lambda>w2.
               bind_res (get_obj h w2) (\<lambda>y.
                 di_drop_weak_ref h (put_obj h (y\<lparr>payload := PListenHandle None\<rparr>) w2))))
       | _ \<Rightarrow> Fault (Aborted ''di_listen_handle_dtor''))"

text \<open>
  \<open>di_listen_to\<close>: find or create the signal (running the \<open>__new_signal\<close> handler of the object), then
  create a handle that owns a reference to the handler and put it at the head of the list.
\<close>

definition find_or_new_signal :: "drop_fn \<Rightarrow> call_obj \<Rightarrow> oref \<Rightarrow> string \<Rightarrow> world \<Rightarrow> (sigref \<times> world) res" where
  "find_or_new_signal U C p name w =
     bind_res (get_obj p w) (\<lambda>x.
       case hash_find name (signals x) of
         Some s \<Rightarrow> Ret (s, w)
       | None \<Rightarrow>
          let s = next_addr w in
          bind_res (di_weakly_ref_object p (w\<lparr>next_addr := Suc s\<rparr>)) (\<lambda>w1.
            bind_res (get_obj p w1) (\<lambda>y.
              let w2 = put_obj p (y\<lparr>signals := hash_add name s (signals y)\<rparr>)
                         (put_sig s \<lparr>sig_name = name, nlisteners = 0, owner = p, listeners = []\<rparr> w1) in
              if di_is_internal name then Ret (s, w2)
              else bind_res (call_handler_with_fallback U C p ''__new_signal'' name None False w2)
                (\<lambda>(_, _, w3). Ret (s, w3)))))"

definition new_listen_handle :: "drop_fn \<Rightarrow> sigref \<Rightarrow> oref \<Rightarrow> world \<Rightarrow> (oref \<times> world) res" where
  "new_listen_handle U s h w =
     (let (lh, w1) = alloc_object w in
      bind_res (di_set_type U lh ''deai:ListenHandle'' w1) (\<lambda>(r, w2).
        assert_res (r = Inr ()) ''di_listen_to''
          (bind_res (di_weakly_ref_object lh w2) (\<lambda>w3.
             bind_res (get_obj lh w3) (\<lambda>y.
               let w4 = put_obj lh (y\<lparr>dtor := Some Dtor_listen_handle, payload := PListenHandle (Some s)\<rparr>) w3 in
               bind_res (di_add_member_clonev U lh (Some ''__handler'') (VObject h) w4) (\<lambda>(_, w5).
                 Ret (lh, w5)))))))"

definition di_listen_to :: "drop_fn \<Rightarrow> call_obj \<Rightarrow> oref \<Rightarrow> string \<Rightarrow> oref \<Rightarrow> world \<Rightarrow> (oref \<times> world) res" where
  "di_listen_to U C p name h w =
     bind_res (get_obj p w) (\<lambda>x. assert_res (\<not> destroyed x) ''di_listen_to''
       (bind_res (find_or_new_signal U C p name w) (\<lambda>(s, w1).
          bind_res (new_listen_handle U s h w1) (\<lambda>(lh, w2).
            bind_res (get_sig s w2) (\<lambda>sg.
              Ret (lh, put_sig s (sg\<lparr>listeners := lh # listeners sg, nlisteners := nlisteners sg + 1\<rparr>) w2))))))"

section \<open>Emission\<close>

text \<open>
  \<open>di_emitn\<close> copies the list of listen handles as weak references, then visits the copies: a handle
  that has died is skipped, a live one gives its handler, the handle is released, the handler is
  called and the weak reference dropped.  The reference of a skipped handle is not dropped.
\<close>

definition di_call_objectt :: "call_obj \<Rightarrow> call_obj" where
  "di_call_objectt C p args w =
     bind_res (get_obj p w) (\<lambda>x. if call x = None then Fault Null_Deref else C p args w)"

definition emit_one :: "drop_fn \<Rightarrow> call_obj \<Rightarrow> di_value list \<Rightarrow> oref \<Rightarrow> world \<Rightarrow> world res" where
  "emit_one U C args lh w =
     bind_res (di_upgrade_weak_ref lh w) (\<lambda>(o', w1).
       case o' of
         None \<Rightarrow> Ret w1
       | Some h \<Rightarrow>
          bind_res (di_getxt U C h (Some ''__handler'') DI_TYPE_OBJECT w1) (\<lambda>(r, w2).
            case r of
              Inl e \<Rightarrow> Fault (Aborted ''di_emitn'')
            | Inr v \<Rightarrow> (case v of
                VObject handler \<Rightarrow>
                  bind_res (U h w2) (\<lambda>w3.
                    bind_res (di_call_objectt C handler args w3) (\<lambda>(rc, w4).
                      bind_res (U handler w4) (\<lambda>w5.
                        bind_res (di_drop_weak_ref lh w5) (\<lambda>w6.
                          case rc of
                            Inl e \<Rightarrow> Ret (log_line ''Failed to call a listener callback'' w6)
                          | Inr ret \<Rightarrow>
                             bind_res (case ret of
                                 VObject ro \<Rightarrow>
                                   bind_res (di_getxt U C ro (Some ''errmsg'') DI_TYPE_STRING w6) (\<lambda>(re, w7).
                                     Ret (case re of Inl _ \<Rightarrow> w7
                                          | Inr _ \<Rightarrow> log_line ''Error arose when calling signal handler'' w7))
                               | _ \<Rightarrow> Ret w6) (\<lambda>w8. di_free_value U ret w8)))))
              | _ \<Rightarrow> Fault Type_Confusion)))"

definition di_emitn :: "drop_fn \<Rightarrow> call_obj \<Rightarrow> oref \<Rightarrow> string \<Rightarrow> di_value list \<Rightarrow> world \<Rightarrow> (unit outcome \<times> world) res" where
  "di_emitn U C p name args w =
     (if MAX_NARGS < length args then Ret (Inl E2BIG, w)
      else bind_res (get_obj p w) (\<lambda>x.
        case hash_find name (signals x) of
          None \<Rightarrow> Ret (Inr (), w)
        | Some s \<Rightarrow> bind_res (get_sig s w) (\<lambda>sg.
            bind_res (fold_res di_weakly_ref_object (listeners sg) w) (\<lambda>w1.
              assert_res (int (length (listeners sg)) = nlisteners sg) ''di_emitn''
                (bind_res (fold_res (emit_one U C args) (listeners sg) w1) (\<lambda>w2. Ret (Inr (), w2)))))))"

end
