(* ===== verification/Callable.thy ===== *)
theory Callable
  imports Object
begin

text \<open>
  Callable objects: \<open>callable.c\<close> and the parts of \<open>helper.c\<close> and \<open>helper.h\<close> built on them.

  The C function behind a closure is not part of the object system.  It is the argument \<open>F\<close>: the
  function with number \<open>n\<close> receives the captured and the converted arguments and may call back
  through \<open>U\<close> and \<open>C\<close>.  It returns a value (\<open>Inr\<close>) or throws an error object (\<open>Inl\<close>), which
  \<open>di_try\<close> catches.  \<open>P\<close> says whether libffi accepts a signature.
\<close>

type_synonym native_fn =
  "drop_fn \<Rightarrow> call_obj \<Rightarrow> nat \<Rightarrow> di_value list \<Rightarrow> world \<Rightarrow> ((oref + di_value) \<times> world) res"

section \<open>The typed trampoline\<close>

text \<open>One argument: conversion, with defaults for a nil argument of a pointer-like parameter.\<close>

definition nil_argument :: "di_type \<Rightarrow> errno \<Rightarrow> world \<Rightarrow> (di_value outcome \<times> bool \<times> world) res" where
  "nil_argument t e w =
     (case t of
        DI_TYPE_OBJECT \<Rightarrow> (let (p, w') = alloc_object w in Ret (Inr (VObject p), True, w'))
      | DI_TYPE_WEAK_OBJECT \<Rightarrow> Ret (Inr (VWeak dead_weak_ref), False, w)
      | DI_TYPE_POINTER \<Rightarrow> Ret (Inr (VPointer 0), False, w)
      | DI_TYPE_ARRAY \<Rightarrow> Ret (Inr DI_ARRAY_INIT, False, w)
      | DI_TYPE_TUPLE \<Rightarrow> Ret (Inr DI_TUPLE_INIT, False, w)
      | DI_TYPE_ANY \<Rightarrow> Fault (Aborted ''Impossible types appeared in arguments'')
      | DI_LAST_TYPE \<Rightarrow> Fault (Aborted ''Impossible types appeared in arguments'')
      | _ \<Rightarrow> Ret (Inl e, False, w))"

definition convert_arg :: "di_value \<Rightarrow> di_type \<Rightarrow> world \<Rightarrow> (di_value outcome \<times> bool \<times> world) res" where
  "convert_arg v t w =
     bind_res (di_sizeof_type t) (\<lambda>_.
       bind_res (di_type_conversion v t True w) (\<lambda>(r, cloned, w1).
         case r of
           Inr x \<Rightarrow> Ret (Inr x, cloned, w1)
         | Inl e \<Rightarrow> if di_typeof v = DI_TYPE_NIL then nil_argument t e w1 else Ret (Inl e, False, w1)))"

text \<open>
  The loop over the arguments: the converted prefix, each with its \<open>args_cloned\<close> flag, and the error
  that stopped it, if any.
\<close>

fun convert_args ::
  "(di_value \<times> di_type) list \<Rightarrow> world \<Rightarrow> (errno option \<times> (di_value \<times> bool) list \<times> world) res" where
  "convert_args [] w = Ret (None, [], w)"
| "convert_args ((v, t) # ps) w =
     bind_res (convert_arg v t w) (\<lambda>(r, cloned, w1).
       case r of
         Inl e \<Rightarrow> Ret (Some e, [], w1)
       | Inr x \<Rightarrow> bind_res (convert_args ps w1) (\<lambda>(e, xs, w2). Ret (e, (x, cloned) # xs, w2)))"

definition free_cloned :: "drop_fn \<Rightarrow> (di_value \<times> bool) list \<Rightarrow> world \<Rightarrow> world res" where
  "free_cloned U xs = fold_res (\<lambda>(x, cloned) w. if cloned then di_free_value U x w else Ret w) xs"

text \<open>
  What the trampoline does with an error object thrown by the function: it prints the message and
  drops the object.  The return code stays 0 and the place for the result is never written, which is
  harmless only when the function returns nothing.
\<close>

definition report_error :: "drop_fn \<Rightarrow> call_obj \<Rightarrow> oref \<Rightarrow> di_type \<Rightarrow> world \<Rightarrow> (di_value \<times> world) res" where
  "report_error U C errobj rtype w =
     bind_res (di_getxt U C errobj (Some ''errmsg'') DI_TYPE_STRING w) (\<lambda>(r, w1).
       case r of
         Inl _ \<Rightarrow> Fault Uninitialised
       | Inr v \<Rightarrow> bind_res (di_free_value U v (log_line ''Caught error from di closure'' w1)) (\<lambda>w2.
           bind_res (U errobj w2) (\<lambda>w3.
             if rtype = DI_TYPE_NIL then Ret (VNil, w3) else Fault Uninitialised)))"

definition typed_trampoline ::
  "native_fn \<Rightarrow> drop_fn \<Rightarrow> call_obj \<Rightarrow> nat \<Rightarrow> di_type \<Rightarrow> di_type list \<Rightarrow> di_value list \<Rightarrow> di_value list \<Rightarrow>
   world \<Rightarrow> (di_value outcome \<times> world) res" where
  "typed_trampoline F U C fn rtype fnats args0 args w =
     assert_res (length args + length args0 \<le> MAX_NARGS) ''_di_typed_trampoline''
       (bind_res (convert_args (zip args fnats) w) (\<lambda>(err, xs, w1).
          case err of
            Some e \<Rightarrow> bind_res (free_cloned U xs w1) (\<lambda>w2. Ret (Inl e, w2))
          | None \<Rightarrow>
             bind_res (F U C fn (args0 @ map fst xs) w1) (\<lambda>(r, w2).
               bind_res (case r of
                   Inr v \<Rightarrow> Ret (v, w2)
                 | Inl errobj \<Rightarrow> report_error U C errobj rtype w2) (\<lambda>(v, w3).
                 bind_res (free_cloned U xs w3) (\<lambda>w4. Ret (Inr v, w4))))))"

section \<open>Closures\<close>

definition closure_trampoline ::
  "native_fn \<Rightarrow> drop_fn \<Rightarrow> call_obj \<Rightarrow> oref \<Rightarrow> di_value list \<Rightarrow> world \<Rightarrow> (di_value outcome \<times> world) res" where
  "closure_trampoline F U C p t w =
     bind_res (di_check_type U p ''deai:closure'' w) (\<lambda>(ok, w1).
       if \<not> ok then Ret (Inl EINVAL, w1)
       else bind_res (get_obj p w1) (\<lambda>x.
         case payload x of
           PClosure cl \<Rightarrow>
             if length t \<noteq> cl_nargs cl then Ret (Inl EINVAL, w1)
             else typed_trampoline F U C (cl_fn cl) (cl_rtype cl)
               (drop (length (cl_cargs cl)) (cl_atypes cl)) (cl_cargs cl) t w1
         | _ \<Rightarrow> Fault Type_Confusion))"

text \<open>
  \<open>free_closure\<close>.  While the captured values are freed one by one the closure cannot be called any
  more: its payload is gone.
\<close>

definition free_closure :: "drop_fn \<Rightarrow> oref \<Rightarrow> world \<Rightarrow> world res" where
  "free_closure U p w =
     bind_res (di_check_type U p ''deai:closure'' w) (\<lambda>(ok, w1).
       assert_res ok ''free_closure''
         (bind_res (get_obj p w1) (\<lambda>x.
            case payload x of
              PClosure cl \<Rightarrow> di_free_elems U (cl_cargs cl) (put_obj p (x\<lparr>payload := PNone\<rparr>) w1)
            | _ \<Rightarrow> Fault Type_Confusion)))"

text \<open>\<open>di_type_to_ffi\<close> asserts that the type has a libffi counterpart; the bottom and the any type do not.\<close>

definition di_ffi_prep_cif :: "(di_type \<Rightarrow> di_type list \<Rightarrow> bool) \<Rightarrow> di_type \<Rightarrow> di_type list \<Rightarrow> bool res" where
  "di_ffi_prep_cif P rtype atypes =
     assert_res (\<forall>t \<in> set (rtype # atypes). \<not> no_value t) ''di_type_to_ffi'' (Ret (P rtype atypes))"

text \<open>The scans over the capture and argument types; \<open>di_sizeof_type\<close> itself may abort.\<close>

fun any_size_zero :: "di_type list \<Rightarrow> bool res" where
  "any_size_zero [] = Ret False"
| "any_size_zero (t # ts) = bind_res (di_sizeof_type t) (\<lambda>n. if n = 0 then Ret True else any_size_zero ts)"

definition di_create_closure ::
  "(di_type \<Rightarrow> di_type list \<Rightarrow> bool) \<Rightarrow> drop_fn \<Rightarrow> nat \<Rightarrow> di_type \<Rightarrow> di_value list \<Rightarrow> di_type list \<Rightarrow> world \<Rightarrow>
   (oref outcome \<times> world) res" where
  "di_create_closure P U fn rtype captures arg_types w =
     (if MAX_NARGS < length captures + length arg_types then Ret (Inl E2BIG, w)
      else
        let atypes = map di_typeof captures @ arg_types in
        bind_res (any_size_zero atypes) (\<lambda>bad.
          if bad then Ret (Inl EINVAL, w)
          else
            let (p, w1) = alloc_object w in
            bind_res (di_ffi_prep_cif P rtype atypes) (\<lambda>ok.
              if \<not> ok then Ret (Inl EINVAL, w1\<lparr>heap := (heap w1)(p := None)\<rparr>)
              else bind_res (di_copy_elems captures w1) (\<lambda>(cargs, w2).
                bind_res (get_obj p w2) (\<lambda>x.
                  let cl = \<lparr>cl_fn = fn, cl_cargs = cargs, cl_nargs = length arg_types,
                            cl_rtype = rtype, cl_atypes = atypes\<rparr>;
                      w3 = put_obj p (x\<lparr>call := Some Call_closure, dtor := Some Dtor_free_closure,
                                        payload := PClosure cl\<rparr>) w2 in
                  bind_res (di_set_type U p ''deai:closure'' w3) (\<lambda>(r, w4).
                    case r of Inl e \<Rightarrow> Ret (Inl e, w4) | Inr _ \<Rightarrow> Ret (Inr p, w4)))))))"

text \<open>\<open>di_add_method\<close> does not look at the error pointer \<open>di_create_closure\<close> may give it.\<close>

definition di_add_method ::
  "(di_type \<Rightarrow> di_type list \<Rightarrow> bool) \<Rightarrow> drop_fn \<Rightarrow> oref \<Rightarrow> di_string \<Rightarrow> nat \<Rightarrow> di_type \<Rightarrow> di_type list \<Rightarrow> world \<Rightarrow>
   (unit outcome \<times> world) res" where
  "di_add_method P U p name fn rtype ats w =
     (if MAX_NARGS < length ats + 1 then Ret (Inl EINVAL, w)
      else if DI_TYPE_NIL \<in> set ats then Ret (Inl EINVAL, w)
      else bind_res (di_create_closure P U fn rtype [] (DI_TYPE_OBJECT # ats) w) (\<lambda>(r, w1).
        case r of
          Inl e \<Rightarrow> Fault Type_Confusion
        | Inr f \<Rightarrow> di_add_member_move U p name (VObject f) w1))"

text \<open>\<open>di_call_objectv\<close>, the variadic call: every argument passes \<open>va_arg_with_di_type\<close>.\<close>

fun va_args :: "di_value list \<Rightarrow> di_value list res" where
  "va_args [] = Ret []"
| "va_args (v # vs) = bind_res (va_arg_with_di_type v) (\<lambda>x. bind_res (va_args vs) (\<lambda>xs. Ret (x # xs)))"

definition di_call_objectv :: "call_obj \<Rightarrow> oref \<Rightarrow> di_value list \<Rightarrow> world \<Rightarrow> (di_value outcome \<times> world) res" where
  "di_call_objectv C p args w =
     bind_res (get_obj p w) (\<lambda>x.
       if call x = None then Ret (Inl EINVAL, w)
       else
         let args' = takeWhile (\<lambda>v. di_typeof v < DI_LAST_TYPE) args in
         bind_res (any_size_zero (map di_typeof args')) (\<lambda>bad.
           if bad then Ret (Inl EINVAL, w)
           else bind_res (va_args args') (\<lambda>tu. C p tu w)))"

section \<open>Field getters\<close>

text \<open>
  A field getter copies the bytes at an offset of its argument.  The fields of a struct that embeds an
  object are its payload \<open>PFields\<close>, by offset.  The bytes are copied as they are: no reference is
  taken.
\<close>

definition di_field_getter_call :: "drop_fn \<Rightarrow> oref \<Rightarrow> di_value list \<Rightarrow> world \<Rightarrow> (di_value outcome \<times> world) res" where
  "di_field_getter_call U p args w =
     bind_res (di_check_type U p ''deai:FieldGetter'' w) (\<lambda>(ok, w1).
       assert_res ok ''di_field_getter_call''
         (case args of
            VObject q # _ \<Rightarrow>
              bind_res (get_obj p w1) (\<lambda>g. bind_res (get_obj q w1) (\<lambda>x.
                case (payload g, payload x) of
                  (PFieldGetter t ofs, PFields fs) \<Rightarrow>
                    (case hash_find ofs fs of
                       Some v \<Rightarrow> if di_typeof v = t then Ret (Inr v, w1) else Fault Type_Confusion
                     | None \<Rightarrow> Fault Type_Confusion)
                | _ \<Rightarrow> Fault Type_Confusion))
          | _ \<Rightarrow> Fault (Aborted ''first argument to getter is not an object'')))"

definition di_new_field_getter :: "drop_fn \<Rightarrow> di_type \<Rightarrow> nat \<Rightarrow> world \<Rightarrow> (oref \<times> world) res" where
  "di_new_field_getter U t ofs w =
     (let (p, w1) = alloc_object w in
      bind_res (get_obj p w1) (\<lambda>x.
        bind_res (di_set_type U p ''deai:FieldGetter''
            (put_obj p (x\<lparr>payload := PFieldGetter t ofs, call := Some Call_field_getter\<rparr>) w1))
          (\<lambda>(_, w2). Ret (p, w2))))"

definition di_field :: "drop_fn \<Rightarrow> oref \<Rightarrow> string \<Rightarrow> di_type \<Rightarrow> nat \<Rightarrow> world \<Rightarrow> (unit outcome \<times> world) res" where
  "di_field U p name t ofs w =
     bind_res (di_new_field_getter U t ofs w) (\<lambda>(g, w1).
       di_add_member_move U p (Some (''__get_'' @ name)) (VObject g) w1)"

end
