(* ===== verification/Helper.thy ===== *)
theory Helper
  imports Callable
begin

text \<open>
  \<open>helper.c\<close> and the object helpers of \<open>include/deai/helper.h\<close>: error objects, modules, the \<open>__deai\<close>
  back reference and proxied signals.
\<close>

section \<open>Errors and modules\<close>

text \<open>\<open>di_new_error\<close>, for an already formatted message.\<close>

definition di_new_error :: "drop_fn \<Rightarrow> string \<Rightarrow> world \<Rightarrow> (oref \<times> world) res" where
  "di_new_error U msg w =
     (let (p, w1) = alloc_object w in
      bind_res (di_set_type U p ''deai:Error'' w1) (\<lambda>(_, w2).
        bind_res (di_add_member_move U p (Some ''errmsg'') (VString (Some (cstr msg))) w2) (\<lambda>(_, w3).
          Ret (p, w3))))"

text \<open>The 16-byte alignment of \<open>max_align_t\<close>; a module struct has 184 bytes.\<close>

definition di_new_module_with_size :: "drop_fn \<Rightarrow> oref \<Rightarrow> nat \<Rightarrow> world \<Rightarrow> (oref option \<times> world) res" where
  "di_new_module_with_size U di sz w =
     (if sz < 184 then Ret (None, w)
      else bind_res (di_new_object sz 16 w) (\<lambda>(pm, w1).
        case pm of
          None \<Rightarrow> Fault Null_Deref
        | Some p \<Rightarrow>
           bind_res (di_set_type U p ''deai:module'' w1) (\<lambda>(_, w2).
             bind_res (di_weakly_ref_object di w2) (\<lambda>w3.
               bind_res (di_add_member_move U p (Some ''__deai'') (VWeak di) w3) (\<lambda>(_, w4).
                 Ret (Some p, w4))))))"

definition di_new_module :: "drop_fn \<Rightarrow> oref \<Rightarrow> world \<Rightarrow> (oref option \<times> world) res" where
  "di_new_module U di w = di_new_module_with_size U di 184 w"

section \<open>The back reference to the core\<close>

text \<open>The cleanup of a weak variable drops it unless it is still \<open>NULL\<close>.\<close>

definition get_weak_deai :: "drop_fn \<Rightarrow> call_obj \<Rightarrow> oref \<Rightarrow> world \<Rightarrow> (oref option \<times> world) res" where
  "get_weak_deai U C p w =
     bind_res (di_getxt U C p (Some ''__deai'') DI_TYPE_WEAK_OBJECT w) (\<lambda>(r, w1).
       case r of
         Inr (VWeak q) \<Rightarrow> Ret (Some q, w1)
       | _ \<Rightarrow> Ret (None, w1))"

definition get_strong_deai :: "drop_fn \<Rightarrow> call_obj \<Rightarrow> oref \<Rightarrow> world \<Rightarrow> (oref option \<times> world) res" where
  "get_strong_deai U C p w =
     bind_res (di_getxt U C p (Some ''__deai'') DI_TYPE_OBJECT w) (\<lambda>(r, w1).
       case r of
         Inr (VObject q) \<Rightarrow> Ret (Some q, w1)
       | _ \<Rightarrow> Ret (None, w1))"

definition di_object_get_deai_weak :: "drop_fn \<Rightarrow> call_obj \<Rightarrow> oref \<Rightarrow> world \<Rightarrow> (oref option \<times> world) res" where
  "di_object_get_deai_weak U C p w =
     bind_res (get_weak_deai U C p w) (\<lambda>(weak, w1).
       case weak of
         None \<Rightarrow> Ret (None, w1)
       | Some q \<Rightarrow> bind_res (di_upgrade_weak_ref q w1) (\<lambda>(r, w2).
           bind_res (di_drop_weak_ref q w2) (\<lambda>w3. Ret (r, w3))))"

definition di_object_get_deai_strong :: "drop_fn \<Rightarrow> call_obj \<Rightarrow> oref \<Rightarrow> world \<Rightarrow> (oref option \<times> world) res" where
  "di_object_get_deai_strong U C p w = get_strong_deai U C p w"

definition di_object_downgrade_deai :: "drop_fn \<Rightarrow> call_obj \<Rightarrow> oref \<Rightarrow> world \<Rightarrow> world res" where
  "di_object_downgrade_deai U C p w =
     bind_res (get_strong_deai U C p w) (\<lambda>(strong, w1).
       case strong of
         None \<Rightarrow> Ret w1
       | Some q \<Rightarrow>
          bind_res (di_weakly_ref_object q w1) (\<lambda>w2.
            bind_res (di_remove_member_raw U p (Some ''__deai'') w2) (\<lambda>(_, w3).
              bind_res (di_add_member_move U p (Some ''__deai'') (VWeak q) w3) (\<lambda>(_, w4). U q w4))))"

definition di_object_upgrade_deai :: "drop_fn \<Rightarrow> call_obj \<Rightarrow> oref \<Rightarrow> world \<Rightarrow> world res" where
  "di_object_upgrade_deai U C p w =
     bind_res (get_weak_deai U C p w) (\<lambda>(weak, w1).
       case weak of
         None \<Rightarrow> Ret w1
       | Some q \<Rightarrow>
          bind_res (di_upgrade_weak_ref q w1) (\<lambda>(strong, w2).
            bind_res (di_remove_member_raw U p (Some ''__deai'') w2) (\<lambda>(_, w3).
              bind_res (case strong of
                  None \<Rightarrow> Ret w3
                | Some s \<Rightarrow> bind_res (di_add_member_move U p (Some ''__deai'') (VObject s) w3) (\<lambda>(_, w4). Ret w4))
                (di_drop_weak_ref q))))"

definition di_module_get_deai :: "drop_fn \<Rightarrow> call_obj \<Rightarrow> oref \<Rightarrow> world \<Rightarrow> (oref option \<times> world) res" where
  "di_module_get_deai U C p w = di_object_get_deai_weak U C p w"

section \<open>Proxied signals\<close>

definition listen_handle_name :: "string \<Rightarrow> string" where
  "listen_handle_name s = ''__proxy_'' @ cstr s @ ''_listen_handle''"

definition event_source_name :: "string \<Rightarrow> string" where
  "event_source_name s = ''__proxy_'' @ cstr s @ ''_event_source''"

definition del_signal_name :: "string \<Rightarrow> string" where
  "del_signal_name s = ''__del_signal_'' @ cstr s"

text \<open>
  \<open>emit_proxied_signal\<close>, the call pointer of the object that listens to the source signal.  It reads
  the name of the new signal as a string literal, passes a null pointer to \<open>strlen\<close> when that read
  fails, and never writes the place of its result although it returns 0.
\<close>

definition emit_proxied_signal ::
  "drop_fn \<Rightarrow> call_obj \<Rightarrow> oref \<Rightarrow> di_value list \<Rightarrow> world \<Rightarrow> (di_value outcome \<times> world) res" where
  "emit_proxied_signal U C p t w =
     bind_res (di_getxt U C p (Some ''___new_signal_name'') DI_TYPE_STRING_LITERAL w) (\<lambda>(sig, w1).
       bind_res (di_getxt U C p (Some ''__proxy_object'') DI_TYPE_WEAK_OBJECT w1) (\<lambda>(wk, w2).
         case wk of
           Inr (VWeak q) \<Rightarrow>
             bind_res (di_upgrade_weak_ref q w2) (\<lambda>(proxy, w3).
               case proxy of
                 None \<Rightarrow> Fault Uninitialised
               | Some o' \<Rightarrow> (case sig of
                   Inr (VLiteral s) \<Rightarrow>
                     bind_res (di_emitn U C o' s t w3) (\<lambda>(_, w4).
                       bind_res (U o' w4) (\<lambda>_. Fault Uninitialised))
                 | _ \<Rightarrow> Fault Null_Deref))
         | _ \<Rightarrow> Fault Null_Deref))"

definition del_proxied_signal :: "drop_fn \<Rightarrow> string \<Rightarrow> oref \<Rightarrow> world \<Rightarrow> world res" where
  "del_proxied_signal U proxysig proxy w =
     bind_res (di_remove_member_raw U proxy (Some (listen_handle_name proxysig)) w) (\<lambda>(_, w1).
       bind_res (di_remove_member_raw U proxy (Some (event_source_name proxysig)) w1) (\<lambda>(_, w2).
         bind_res (di_remove_member_raw U proxy (Some (del_signal_name proxysig)) w2) (\<lambda>(_, w3). Ret w3)))"

definition di_has_member :: "oref \<Rightarrow> string \<Rightarrow> world \<Rightarrow> bool res" where
  "di_has_member p name w = bind_res (di_lookup p (Some name) w) (\<lambda>m. Ret (m \<noteq> None))"

definition new_proxy_callback :: "drop_fn \<Rightarrow> oref \<Rightarrow> string \<Rightarrow> world \<Rightarrow> (oref \<times> world) res" where
  "new_proxy_callback U proxy proxysig w =
     (let (c, w1) = alloc_object w in
      bind_res (di_add_member_clonev U c (Some ''___new_signal_name'') (VString (Some proxysig)) w1) (\<lambda>(_, w2).
        bind_res (di_weakly_ref_object proxy w2) (\<lambda>w3.
          bind_res (di_add_member_clonev U c (Some ''__proxy_object'') (VWeak proxy) w3) (\<lambda>(_, w4).
            bind_res (di_set_object_call c (Some Call_emit_proxied_signal) w4) (\<lambda>w5. Ret (c, w5))))))"

text \<open>\<open>del\<close> is the function number of \<open>del_proxied_signal\<close>.\<close>

definition di_proxy_signal ::
  "(di_type \<Rightarrow> di_type list \<Rightarrow> bool) \<Rightarrow> nat \<Rightarrow> drop_fn \<Rightarrow> call_obj \<Rightarrow> oref \<Rightarrow> string \<Rightarrow> oref \<Rightarrow> string \<Rightarrow> world \<Rightarrow>
   (unit outcome \<times> world) res" where
  "di_proxy_signal P del U C src srcsig proxy proxysig w =
     (if starts_with ''__'' srcsig then Ret (Inl EPERM, w)
      else bind_res (di_has_member proxy (listen_handle_name proxysig) w) (\<lambda>h1.
        bind_res (di_has_member proxy (event_source_name proxysig) w) (\<lambda>h2.
          bind_res (di_has_member proxy (del_signal_name proxysig) w) (\<lambda>h3.
            if h1 \<or> h2 \<or> h3 then Ret (Inl EEXIST, w)
            else bind_res (new_proxy_callback U proxy proxysig w) (\<lambda>(c, w1).
              bind_res (di_listen_to U C src srcsig c w1) (\<lambda>(lh, w2).
                bind_res (di_add_member_move U proxy (Some (listen_handle_name proxysig)) (VObject lh) w2) (\<lambda>(_, w3).
                  bind_res (di_add_member_clonev U proxy (Some (event_source_name proxysig)) (VObject src) w3) (\<lambda>(_, w4).
                    bind_res (di_create_closure P U del DI_TYPE_NIL [VString (Some proxysig)] [DI_TYPE_OBJECT] w4) (\<lambda>(cl, w5).
                      case cl of
                        Inl e \<Rightarrow> Fault Type_Confusion
                      | Inr f \<Rightarrow>
                         bind_res (di_add_member_move U proxy (Some (del_signal_name proxysig)) (VObject f) w5) (\<lambda>(ret, w6).
                           bind_res (U c w6) (\<lambda>w7. Ret (ret, w7))))))))))))"

end
