(* ===== verification/Roots.thy ===== *)
theory Roots
  imports Helper
begin

text \<open>
  The root set of \<open>main.c\<close>: named roots are members \<open>__root_<name>\<close> of the roots object, anonymous roots
  are entries of a table from handles to objects.  Both hold a strong reference.
\<close>

definition root_prefix :: string where
  "root_prefix = ''__root_''"

definition di_add_root :: "drop_fn \<Rightarrow> oref \<Rightarrow> string \<Rightarrow> oref \<Rightarrow> world \<Rightarrow> (bool \<times> world) res" where
  "di_add_root U di key obj w =
     bind_res (di_add_member_clonev U di (Some (root_prefix @ cstr key)) (VObject obj) w) (\<lambda>(r, w1).
       Ret (r = Inr (), w1))"

definition di_remove_root :: "drop_fn \<Rightarrow> oref \<Rightarrow> string \<Rightarrow> world \<Rightarrow> (bool \<times> world) res" where
  "di_remove_root U di key w =
     bind_res (di_remove_member_raw U di (Some (root_prefix @ cstr key)) w) (\<lambda>(r, w1). Ret (r = Inr (), w1))"

text \<open>\<open>di_clear_roots\<close>: \<open>HASH_ITER\<close> reads the address of the next member before the body runs.\<close>

fun clear_roots_from :: "drop_fn \<Rightarrow> nat \<Rightarrow> oref \<Rightarrow> nat option \<Rightarrow> world \<Rightarrow> world res" where
  "clear_roots_from U k p None w = Ret w"
| "clear_roots_from U 0 p (Some a) w = Fault OutOfFuel"
| "clear_roots_from U (Suc k) p (Some a) w =
     bind_res (get_obj p w) (\<lambda>x.
       case find_member_at a (members x) of
         None \<Rightarrow> Fault (Use_After_Free a)
       | Some (name, m) \<Rightarrow>
          bind_res (if starts_with root_prefix name
                    then bind_res (di_remove_member_raw U p (Some name) w) (\<lambda>(_, w1). Ret w1)
                    else Ret w)
            (clear_roots_from U k p (next_member_addr a (members x))))"

definition di_clear_roots :: "drop_fn \<Rightarrow> nat \<Rightarrow> oref \<Rightarrow> world \<Rightarrow> world res" where
  "di_clear_roots U k p w = bind_res (get_obj p w) (\<lambda>x. clear_roots_from U k p (first_member_addr (members x)) w)"

definition di_add_anonymous_root :: "oref \<Rightarrow> oref \<Rightarrow> world \<Rightarrow> (64 word \<times> world) res" where
  "di_add_anonymous_root p root w =
     bind_res (get_obj p w) (\<lambda>x.
       case payload x of
         PRoots next tbl \<Rightarrow>
           assert_res (next \<noteq> 0) ''anonymous root id overflown''
             (bind_res (di_ref_object root w) (\<lambda>w1.
                bind_res (get_obj p w1) (\<lambda>y.
                  Ret (next, put_obj p (y\<lparr>payload := PRoots (next + 1) (hash_add next root tbl)\<rparr>) w1))))
       | _ \<Rightarrow> Fault Type_Confusion)"

definition di_remove_anonymous_root :: "drop_fn \<Rightarrow> oref \<Rightarrow> 64 word \<Rightarrow> world \<Rightarrow> world res" where
  "di_remove_anonymous_root U p root_handle w =
     bind_res (get_obj p w) (\<lambda>x.
       case payload x of
         PRoots next tbl \<Rightarrow>
           (case hash_find root_handle tbl of
              None \<Rightarrow> Ret w
            | Some obj \<Rightarrow> U obj (put_obj p (x\<lparr>payload := PRoots next (hash_del root_handle tbl)\<rparr>) w))
       | _ \<Rightarrow> Fault Type_Confusion)"

definition di_roots_dtor :: "drop_fn \<Rightarrow> oref \<Rightarrow> world \<Rightarrow> world res" where
  "di_roots_dtor U p w =
     bind_res (get_obj p w) (\<lambda>x.
       case payload x of
         PRoots next tbl \<Rightarrow> fold_res U (map snd tbl) (put_obj p (x\<lparr>payload := PRoots next []\<rparr>) w)
       | _ \<Rightarrow> Fault Type_Confusion)"

definition di_roots_getter :: "oref \<Rightarrow> world \<Rightarrow> (di_value \<times> world) res" where
  "di_roots_getter roots w = bind_res (di_ref_object roots w) (\<lambda>w1. Ret (VObject roots, w1))"

end
