(* ===== verification/Runtime.thy ===== *)
theory Runtime
  imports Roots
begin

text \<open>
  The knot: \<open>di_unref_object\<close> runs destructors, destructors free values and call handlers, calls drop
  references.  One unit of fuel is one nested activation of \<open>di_unref_object\<close> or of a call pointer.

  \<open>ext\<close> holds the code that is not part of the object system: destructors and call pointers that
  modules and plugins set, the C functions behind closures, and libffi's opinion on signatures.
\<close>

record ext =
  ext_dtor :: "drop_fn \<Rightarrow> call_obj \<Rightarrow> nat \<Rightarrow> oref \<Rightarrow> world \<Rightarrow> world res"
  ext_call :: "drop_fn \<Rightarrow> call_obj \<Rightarrow> nat \<Rightarrow> call_obj"
  ext_fn :: native_fn
  ext_prep_cif :: "di_type \<Rightarrow> di_type list \<Rightarrow> bool"

text \<open>A runtime with no modules: destructors and functions of modules do nothing, libffi accepts all.\<close>

definition plain_ext :: ext where
  "plain_ext = \<lparr>ext_dtor = \<lambda>U C n p w. Ret w, ext_call = \<lambda>U C n p args w. Ret (Inr VNil, w),
     ext_fn = \<lambda>U C n args w. Ret (Inr VNil, w), ext_prep_cif = \<lambda>r as. True\<rparr>"

definition run_dtor :: "ext \<Rightarrow> drop_fn \<Rightarrow> call_obj \<Rightarrow> dtor_fn \<Rightarrow> oref \<Rightarrow> world \<Rightarrow> world res" where
  "run_dtor E U C d p w =
     (case d of
        Dtor_listen_handle \<Rightarrow> di_listen_handle_dtor U C p w
      | Dtor_free_closure \<Rightarrow> free_closure U p w
      | Dtor_roots \<Rightarrow> di_roots_dtor U p w
      | Dtor_ext n \<Rightarrow> ext_dtor E U C n p w)"

definition run_call :: "ext \<Rightarrow> drop_fn \<Rightarrow> call_obj \<Rightarrow> oref \<Rightarrow> di_value list \<Rightarrow> world \<Rightarrow> (di_value outcome \<times> world) res" where
  "run_call E U C p args w =
     bind_res (get_obj p w) (\<lambda>x.
       case call x of
         None \<Rightarrow> Fault Null_Deref
       | Some Call_closure \<Rightarrow> closure_trampoline (ext_fn E) U C p args w
       | Some Call_field_getter \<Rightarrow> di_field_getter_call U p args w
       | Some Call_emit_proxied_signal \<Rightarrow> emit_proxied_signal U C p args w
       | Some (Call_ext n) \<Rightarrow> ext_call E U C n p args w)"

fun di_unref_object :: "ext \<Rightarrow> nat \<Rightarrow> drop_fn"
  and obj_call :: "ext \<Rightarrow> nat \<Rightarrow> call_obj" where
  "di_unref_object E 0 = (\<lambda>p w. Fault OutOfFuel)"
| "di_unref_object E (Suc n) =
     unref_step (run_dtor E (di_unref_object E n) (obj_call E n)) (di_unref_object E n) n"
| "obj_call E 0 = (\<lambda>p args w. Fault OutOfFuel)"
| "obj_call E (Suc n) = run_call E (di_unref_object E n) (obj_call E n)"

end
