(* ===== verification/RefCount.thy ===== *)
theory RefCount
  imports Runtime
begin

text \<open>
  Reference counting.  The two counters of an object are compared with the references that exist:
  those stored in values of the heap and in signal structs, and those held outside the heap (C
  variables, arguments, return values), which the functions \<open>S\<close> (strong) and \<open>W\<close> (weak) count.

  \<^item> \<open>counts_ok S W w\<close>: the strong counter is the number of strong references, the weak counter the
    number of weak references plus one while the strong counter is not zero, and a freed address is
    not referenced.
  \<^item> \<open>rc_inv F S W w\<close> adds what destruction relies on.  \<open>F\<close> is the set of objects whose destruction is
    under way; whoever destroys an object holds a reference to it.
  \<^item> The locale \<open>drop_contract\<close> is what a function that drops a strong reference promises to the code
    that frees values and removes members; \<open>di_unref_object\<close> with fuel \<open>n\<close> fulfils it for heaps whose
    \<open>weight\<close> is less than \<open>n\<close>.
\<close>

section \<open>Counting references\<close>

fun payload_values :: "payload \<Rightarrow> di_value list" where
  "payload_values (PClosure cl) = cl_cargs cl"
| "payload_values (PRoots k t) = map (\<lambda>e. VObject (snd e)) t"
| "payload_values _ = []"

definition member_values :: "(string, di_member) table \<Rightarrow> di_value list" where
  "member_values ms = map (\<lambda>e. m_val (snd e)) ms"

definition obj_values :: "di_object_internal \<Rightarrow> di_value list" where
  "obj_values x = member_values (members x) @ payload_values (payload x)"

definition sig_refs :: "oref \<Rightarrow> di_signal \<Rightarrow> nat" where
  "sig_refs p s = (if owner s = p then 1 else 0) + count_list (listeners s) p"

definition strong_cnt :: "world \<Rightarrow> oref \<Rightarrow> nat" where
  "strong_cnt w p = sum_entries (\<lambda>x. strong_refs_list (obj_values x) p) (heap w)"

definition weak_cnt :: "world \<Rightarrow> oref \<Rightarrow> nat" where
  "weak_cnt w p = sum_entries (\<lambda>x. weak_refs_list (obj_values x) p) (heap w) + sum_entries (sig_refs p) (sigs w)"

definition object_counts_ok :: "(oref \<Rightarrow> nat) \<Rightarrow> (oref \<Rightarrow> nat) \<Rightarrow> world \<Rightarrow> oref \<Rightarrow> di_object_internal \<Rightarrow> bool" where
  "object_counts_ok S W w p x \<longleftrightarrow>
     unat (ref_count x) = strong_cnt w p + S p \<and>
     unat (weak_ref_count x) = weak_cnt w p + W p + (if ref_count x \<noteq> 0 then 1 else 0) \<and>
     weak_ref_count x \<noteq> 0"

definition counts_ok :: "(oref \<Rightarrow> nat) \<Rightarrow> (oref \<Rightarrow> nat) \<Rightarrow> world \<Rightarrow> bool" where
  "counts_ok S W w \<longleftrightarrow>
     finite (dom (heap w)) \<and> finite (dom (sigs w)) \<and>
     (\<forall>p. case heap w p of
        Some x \<Rightarrow> object_counts_ok S W w p x
      | None \<Rightarrow> strong_cnt w p + S p = 0 \<and> weak_cnt w p + W p = 0)"

abbreviation one_at :: "oref \<Rightarrow> oref \<Rightarrow> nat" where
  "one_at p \<equiv> (\<lambda>a. if p = a then 1 else 0)"

lemma member_values_simps [simp]:
  "member_values [] = []"
  "member_values (e # ms) = m_val (snd e) # member_values ms"
  "member_values (ms @ ns) = member_values ms @ member_values ns"
  by (simp_all add: member_values_def)

lemma counts_okD:
  assumes "counts_ok S W w"
  shows "finite (dom (heap w))" "finite (dom (sigs w))"
    "heap w p = Some x \<Longrightarrow> object_counts_ok S W w p x"
    "heap w p = None \<Longrightarrow> strong_cnt w p + S p = 0 \<and> weak_cnt w p + W p = 0"
  using assms by (auto simp: counts_ok_def split: option.splits dest!: spec [of _ p])

lemma counts_ok_live: "counts_ok S W w \<Longrightarrow> 0 < S p \<or> 0 < W p \<Longrightarrow> \<exists>x. heap w p = Some x"
  using counts_okD(4) [of S W w p] by (cases "heap w p") auto

lemma counts_okI:
  assumes "finite (dom (heap w))" "finite (dom (sigs w))"
    and "\<And>p x. heap w p = Some x \<Longrightarrow> object_counts_ok S W w p x"
    and "\<And>p. heap w p = None \<Longrightarrow> strong_cnt w p + S p = 0 \<and> weak_cnt w p + W p = 0"
  shows "counts_ok S W w"
  using assms by (auto simp: counts_ok_def split: option.splits)

text \<open>What the four basic heap updates do to the sums.\<close>

lemma strong_cnt_put:
  assumes "finite (dom (heap w))" "heap w p = Some x"
  shows "strong_cnt (put_obj p y w) a + strong_refs_list (obj_values x) a =
         strong_cnt w a + strong_refs_list (obj_values y) a"
  using sum_entries_update [OF assms, of "\<lambda>x. strong_refs_list (obj_values x) a" y]
  by (simp add: strong_cnt_def)

lemma weak_cnt_put:
  assumes "finite (dom (heap w))" "heap w p = Some x"
  shows "weak_cnt (put_obj p y w) a + weak_refs_list (obj_values x) a =
         weak_cnt w a + weak_refs_list (obj_values y) a"
  using sum_entries_update [OF assms, of "\<lambda>x. weak_refs_list (obj_values x) a" y]
  by (simp add: weak_cnt_def)

lemma cnt_free_object:
  assumes "finite (dom (heap w))" "heap w p = Some x" "obj_values x = []"
  shows "strong_cnt (free_object p w) a = strong_cnt w a" "weak_cnt (free_object p w) a = weak_cnt w a"
  using sum_entries_remove [OF assms(1,2), of "\<lambda>x. strong_refs_list (obj_values x) a"]
    sum_entries_remove [OF assms(1,2), of "\<lambda>x. weak_refs_list (obj_values x) a"] assms(3)
  by (simp_all add: strong_cnt_def weak_cnt_def)

lemma cnt_put_same:
  assumes "finite (dom (heap w))" "heap w p = Some x" "obj_values y = obj_values x"
  shows "strong_cnt (put_obj p y w) = strong_cnt w" "weak_cnt (put_obj p y w) = weak_cnt w"
  using strong_cnt_put [OF assms(1,2), of y] weak_cnt_put [OF assms(1,2), of y] assms(3)
  by (auto simp: fun_eq_iff)

lemma cnt_log_line [simp]:
  "strong_cnt (log_line s w) = strong_cnt w" "weak_cnt (log_line s w) = weak_cnt w"
  by (simp_all add: strong_cnt_def weak_cnt_def fun_eq_iff)

text \<open>
  References move between the heap and the outside: when the values an object holds change by what the
  outside gains or loses, the counters still agree.
\<close>

lemma counts_ok_put:
  assumes ok: "counts_ok S W w" and x: "heap w p = Some x"
    and rc: "ref_count y = ref_count x" "weak_ref_count y = weak_ref_count x"
    and S: "\<And>a. S' a + strong_refs_list (obj_values y) a = S a + strong_refs_list (obj_values x) a"
    and W: "\<And>a. W' a + weak_refs_list (obj_values y) a = W a + weak_refs_list (obj_values x) a"
  shows "counts_ok S' W' (put_obj p y w)"
proof -
  note fin = counts_okD(1,2) [OF ok]
  have eqs: "strong_cnt (put_obj p y w) a + S' a = strong_cnt w a + S a" for a
    using strong_cnt_put [OF fin(1) x, of y a] S [of a] by linarith
  have eqw: "weak_cnt (put_obj p y w) a + W' a = weak_cnt w a + W a" for a
    using weak_cnt_put [OF fin(1) x, of y a] W [of a] by linarith
  show ?thesis
  proof (rule counts_okI)
    fix q z assume "heap (put_obj p y w) q = Some z"
    then show "object_counts_ok S' W' (put_obj p y w) q z"
      using counts_okD(3) [OF ok, of q] x rc eqs [of q] eqw [of q]
      by (auto simp: object_counts_ok_def split: if_splits)
  next
    fix q assume "heap (put_obj p y w) q = None"
    then show "strong_cnt (put_obj p y w) q + S' q = 0 \<and> weak_cnt (put_obj p y w) q + W' q = 0"
      using counts_okD(4) [OF ok, of q] eqs [of q] eqw [of q] by (auto split: if_splits)
  qed (use fin in auto)
qed

lemma counts_ok_put_same:
  assumes "counts_ok S W w" "heap w p = Some x" "obj_values y = obj_values x"
    "ref_count y = ref_count x" "weak_ref_count y = weak_ref_count x"
  shows "counts_ok S W (put_obj p y w)"
  by (rule counts_ok_put [OF assms(1,2)]) (simp_all add: assms)

lemma counts_ok_log [simp]: "counts_ok S W (log_line s w) = counts_ok S W w"
  by (simp add: counts_ok_def object_counts_ok_def split: option.splits)

text \<open>Changing the two counters of one object, with the outside references that account for it.\<close>

lemma counts_ok_recount:
  assumes ok: "counts_ok S W w" and x: "heap w p = Some x" and v: "obj_values y = obj_values x"
    and others: "\<And>a. a \<noteq> p \<Longrightarrow> S' a = S a" "\<And>a. a \<noteq> p \<Longrightarrow> W' a = W a"
    and p: "object_counts_ok S' W' w p y"
  shows "counts_ok S' W' (put_obj p y w)"
proof (rule counts_okI)
  note fin = counts_okD(1,2) [OF ok]
  note same = cnt_put_same [OF fin(1) x v]
  fix q
  show "object_counts_ok S' W' (put_obj p y w) q z" if "heap (put_obj p y w) q = Some z" for z
    using that counts_okD(3) [OF ok, of q z] others [of q] p
    by (auto simp: object_counts_ok_def same split: if_splits)
  show "strong_cnt (put_obj p y w) q + S' q = 0 \<and> weak_cnt (put_obj p y w) q + W' q = 0"
    if "heap (put_obj p y w) q = None"
    using that counts_okD(4) [OF ok, of q] others [of q] by (auto simp: same split: if_splits)
qed (use counts_okD(1,2) [OF ok] in auto)

subsection \<open>The counter operations\<close>

lemma di_ref_object_counts:
  assumes "counts_ok S W w" "heap w p = Some x" "ref_count x \<noteq> 0" "unat (ref_count x) + 1 < 2 ^ 64"
  shows "di_ref_object p w = Ret (put_obj p (x\<lparr>ref_count := ref_count x + 1\<rparr>) w)"
    "counts_ok (\<lambda>a. S a + one_at p a) W (put_obj p (x\<lparr>ref_count := ref_count x + 1\<rparr>) w)"
proof -
  show "di_ref_object p w = Ret (put_obj p (x\<lparr>ref_count := ref_count x + 1\<rparr>) w)"
    using assms by (simp add: di_ref_object_def get_obj_def)
  have u: "unat (ref_count x + 1) = unat (ref_count x) + 1" using assms(4) by (rule unat_inc)
  then have "ref_count x + 1 \<noteq> 0" by (metis add_is_0 unat_0 zero_neq_one)
  with u counts_okD(3) [OF assms(1,2)] assms(3)
  show "counts_ok (\<lambda>a. S a + one_at p a) W (put_obj p (x\<lparr>ref_count := ref_count x + 1\<rparr>) w)"
    by (intro counts_ok_recount [OF assms(1,2)]) (simp_all add: object_counts_ok_def obj_values_def)
qed

lemma di_weakly_ref_object_counts:
  assumes "counts_ok S W w" "heap w p = Some x" "unat (weak_ref_count x) + 1 < 2 ^ 64"
  shows "di_weakly_ref_object p w = Ret (put_obj p (x\<lparr>weak_ref_count := weak_ref_count x + 1\<rparr>) w)"
    "counts_ok S (\<lambda>a. W a + one_at p a) (put_obj p (x\<lparr>weak_ref_count := weak_ref_count x + 1\<rparr>) w)"
proof -
  show "di_weakly_ref_object p w = Ret (put_obj p (x\<lparr>weak_ref_count := weak_ref_count x + 1\<rparr>) w)"
    using assms by (simp add: di_weakly_ref_object_def get_obj_def)
  have u: "unat (weak_ref_count x + 1) = unat (weak_ref_count x) + 1" using assms(3) by (rule unat_inc)
  then have "weak_ref_count x + 1 \<noteq> 0" by (metis add_is_0 unat_0 zero_neq_one)
  with u counts_okD(3) [OF assms(1,2)]
  show "counts_ok S (\<lambda>a. W a + one_at p a) (put_obj p (x\<lparr>weak_ref_count := weak_ref_count x + 1\<rparr>) w)"
    by (intro counts_ok_recount [OF assms(1,2)]) (simp_all add: object_counts_ok_def obj_values_def)
qed

lemma dec_strong_counts:
  assumes "counts_ok (\<lambda>a. S a + one_at p a) W w" "heap w p = Some x" "ref_count x \<noteq> 1"
  shows "ref_count x \<noteq> 0" "counts_ok S W (put_obj p (x\<lparr>ref_count := ref_count x - 1\<rparr>) w)"
proof -
  note x = counts_okD(3) [OF assms(1,2)]
  then show nz: "ref_count x \<noteq> 0" by (auto simp: object_counts_ok_def)
  have "ref_count x - 1 \<noteq> 0" using assms(3) by simp
  with x nz show "counts_ok S W (put_obj p (x\<lparr>ref_count := ref_count x - 1\<rparr>) w)"
    by (intro counts_ok_recount [OF assms(1,2)]) (simp_all add: object_counts_ok_def unat_dec obj_values_def)
qed

text \<open>The last strong reference goes: the implicit weak reference becomes one the caller must drop.\<close>

lemma last_strong_counts:
  assumes "counts_ok (\<lambda>a. S a + one_at p a) W w" "heap w p = Some x" "ref_count x = 1"
  shows "counts_ok S (\<lambda>a. W a + one_at p a) (put_obj p (x\<lparr>ref_count := 0\<rparr>) w)"
  using counts_okD(3) [OF assms(1,2)] assms(3)
  by (intro counts_ok_recount [OF assms(1,2)]) (simp_all add: object_counts_ok_def obj_values_def)

lemma free_object_counts:
  assumes ok: "counts_ok S (\<lambda>a. W a + one_at p a) w" and x: "heap w p = Some x"
    and one: "weak_ref_count x = 1" and v: "obj_values x = []"
  shows "counts_ok S W (free_object p w)"
proof (rule counts_okI)
  note fin = counts_okD(1,2) [OF ok]
  note same = cnt_free_object [OF fin(1) x v]
  show "finite (dom (heap (free_object p w)))" "finite (dom (sigs (free_object p w)))"
    using fin by auto
  fix q
  show "object_counts_ok S W (free_object p w) q z" if "heap (free_object p w) q = Some z" for z
    using that counts_okD(3) [OF ok, of q z]
    by (auto simp: object_counts_ok_def same split: if_splits)
  show "strong_cnt (free_object p w) q + S q = 0 \<and> weak_cnt (free_object p w) q + W q = 0"
    if "heap (free_object p w) q = None"
    using that counts_okD(4) [OF ok, of q] counts_okD(3) [OF ok x] one
    by (auto simp: object_counts_ok_def same split: if_splits)
qed

lemma drop_weak_counts:
  assumes ok: "counts_ok S (\<lambda>a. W a + one_at p a) w" and x: "heap w p = Some x"
    and v: "ref_count x = 0 \<Longrightarrow> obj_values x = []"
  shows "\<exists>w'. di_decrement_weak_ref_count p w = Ret w' \<and> counts_ok S W w' \<and>
    (w' = put_obj p (x\<lparr>weak_ref_count := weak_ref_count x - 1\<rparr>) w \<or> w' = free_object p w \<and> ref_count x = 0)"
proof -
  note c = counts_okD(3) [OF ok x]
  show ?thesis
  proof (cases "weak_ref_count x - 1 = 0")
    case True
    then have one: "weak_ref_count x = 1" by simp
    with c have rc: "ref_count x = 0" by (auto simp: object_counts_ok_def split: if_splits)
    have "di_decrement_weak_ref_count p w = Ret (free_object p w)"
      using x True by (simp add: di_decrement_weak_ref_count_def get_obj_def)
    with free_object_counts [OF ok x one v [OF rc]] rc show ?thesis by blast
  next
    case False
    have "di_decrement_weak_ref_count p w = Ret (put_obj p (x\<lparr>weak_ref_count := weak_ref_count x - 1\<rparr>) w)"
      using x False by (simp add: di_decrement_weak_ref_count_def get_obj_def Let_def)
    moreover have "counts_ok S W (put_obj p (x\<lparr>weak_ref_count := weak_ref_count x - 1\<rparr>) w)"
      using c False
      by (intro counts_ok_recount [OF ok x]) (simp_all add: object_counts_ok_def unat_dec obj_values_def)
    ultimately show ?thesis by blast
  qed
qed

end
