(* ===== verification/Destruction.thy ===== *)
theory Destruction
  imports RefCount
begin

text \<open>
  Dropping references and destroying objects.  The heaps considered here are those whose destructors
  are the ones of the core itself (none, \<open>free_closure\<close>, \<open>di_roots_dtor\<close>): a destructor of a module may
  do anything.  On such heaps dropping a reference always returns, whatever the shape of the object
  graph, it keeps the counters right, and it never touches freed memory.
\<close>

section \<open>The invariant\<close>

text \<open>
  \<open>free_ok\<close>: the values \<open>di_free_value\<close> can free.  It refuses the bottom value anywhere and an array
  that has storage but no elements.
\<close>

fun free_ok :: "di_value \<Rightarrow> bool" where
  "free_ok (VArray t a) =
     (a \<noteq> Some [] \<and> (a \<noteq> None \<longrightarrow> \<not> no_value t) \<and> (\<forall>x \<in> set (array_elems a). free_ok x))"
| "free_ok (VTuple xs) = (\<forall>x \<in> set xs. free_ok x)"
| "free_ok (VVariant v) = free_ok v"
| "free_ok VLast = False"
| "free_ok _ = True"

definition object_ok :: "di_object_internal \<Rightarrow> bool" where
  "object_ok x \<longleftrightarrow> table_ok (members x) \<and> distinct (map (\<lambda>e. m_addr (snd e)) (members x)) \<and>
     (\<forall>v \<in> set (obj_values x). free_ok v)"

definition dtor_ok :: "di_object_internal \<Rightarrow> bool" where
  "dtor_ok x \<longleftrightarrow>
     (case dtor x of
        None \<Rightarrow> payload_values (payload x) = []
      | Some Dtor_free_closure \<Rightarrow>
          (case payload x of PClosure cl \<Rightarrow> True | _ \<Rightarrow> False) \<and>
          map_option m_val (hash_find ''__type'' (members x)) = Some (VLiteral ''deai:closure'')
      | Some Dtor_roots \<Rightarrow> (case payload x of PRoots k t \<Rightarrow> True | _ \<Rightarrow> False)
      | Some d \<Rightarrow> False)"

lemma dtor_ok_destroyed [simp]: "dtor_ok (x\<lparr>destroyed := b\<rparr>) = dtor_ok x"
  by (simp add: dtor_ok_def split: option.splits dtor_fn.splits)

definition obj_inv :: "oref set \<Rightarrow> oref \<Rightarrow> di_object_internal \<Rightarrow> bool" where
  "obj_inv F p x \<longleftrightarrow> object_ok x \<and> (\<not> destroyed x \<longrightarrow> dtor_ok x) \<and>
     (p \<notin> F \<and> (destroyed x \<or> ref_count x = 0) \<longrightarrow> obj_values x = [])"

definition rc_inv :: "oref set \<Rightarrow> (oref \<Rightarrow> nat) \<Rightarrow> (oref \<Rightarrow> nat) \<Rightarrow> world \<Rightarrow> bool" where
  "rc_inv F S W w \<longleftrightarrow> counts_ok S W w \<and> (\<forall>p \<in> F. 0 < S p \<and> (\<exists>x. heap w p = Some x \<and> destroyed x)) \<and>
     (\<forall>p x. heap w p = Some x \<longrightarrow> obj_inv F p x)"

text \<open>
  \<open>keeps F w w'\<close>: the objects being destroyed are still there with the same members and payload, and
  only their counters may have changed; no object gains references; an object that is not destroyed
  afterwards has not been touched but for its counters.  \<open>weight\<close> bounds the work of destroying
  everything.
\<close>

definition same_body :: "di_object_internal \<Rightarrow> di_object_internal \<Rightarrow> bool" where
  "same_body x y \<longleftrightarrow> members y = members x \<and> payload y = payload x \<and> dtor y = dtor x \<and>
     signals y = signals x \<and> call y = call x \<and> destroyed y = destroyed x"

definition reduced :: "di_object_internal \<Rightarrow> di_object_internal \<Rightarrow> bool" where
  "reduced x y \<longleftrightarrow> (\<forall>a. strong_refs_list (obj_values y) a \<le> strong_refs_list (obj_values x) a) \<and>
     set (members y) \<subseteq> set (members x) \<and> unat (ref_count y) \<le> unat (ref_count x) \<and>
     (if destroyed y then destroyed x \<or> ref_count y = 0 else same_body x y)"

definition shrinks :: "world \<Rightarrow> world \<Rightarrow> bool" where
  "shrinks w w' \<longleftrightarrow> sigs w' = sigs w \<and> next_addr w' = next_addr w \<and> (\<forall>q y. heap w' q = Some y \<longrightarrow> (\<exists>x. heap w q = Some x \<and> reduced x y))"

definition keeps :: "oref set \<Rightarrow> world \<Rightarrow> world \<Rightarrow> bool" where
  "keeps F w w' \<longleftrightarrow> shrinks w w' \<and> (\<forall>p \<in> F. \<forall>x. heap w p = Some x \<longrightarrow> (\<exists>y. heap w' p = Some y \<and> same_body x y))"

definition weight :: "world \<Rightarrow> nat" where
  "weight w = sum_entries (\<lambda>x. if destroyed x then 0 else Suc (length (members x))) (heap w)"

definition settled :: "oref set \<Rightarrow> (oref \<Rightarrow> nat) \<Rightarrow> (oref \<Rightarrow> nat) \<Rightarrow> world \<Rightarrow> world \<Rightarrow> bool" where
  "settled F S W w w' \<longleftrightarrow> rc_inv F S W w' \<and> keeps F w w' \<and> weight w' \<le> weight w"

lemma rc_invD:
  assumes "rc_inv F S W w"
  shows "counts_ok S W w" "p \<in> F \<Longrightarrow> 0 < S p" "p \<in> F \<Longrightarrow> \<exists>x. heap w p = Some x \<and> destroyed x"
    "heap w p = Some x \<Longrightarrow> obj_inv F p x" "finite (dom (heap w))"
  using assms counts_okD(1) [of S W w] by (auto simp: rc_inv_def)

lemma same_body_refl [simp]: "same_body x x"
  by (simp add: same_body_def)

lemma same_body_counts [simp]:
  "same_body x (x\<lparr>ref_count := r\<rparr>)" "same_body x (x\<lparr>weak_ref_count := r\<rparr>)"
  by (simp_all add: same_body_def)

lemma same_body_trans: "same_body x y \<Longrightarrow> same_body y z \<Longrightarrow> same_body x z"
  by (simp add: same_body_def)

lemma same_body_values: "same_body x y \<Longrightarrow> obj_values y = obj_values x"
  by (simp add: same_body_def obj_values_def)

lemma same_body_reduced: "same_body x y \<Longrightarrow> unat (ref_count y) \<le> unat (ref_count x) \<Longrightarrow> reduced x y"
  by (simp add: reduced_def same_body_values) (simp add: same_body_def)

lemma reduced_refl [simp]: "reduced x x"
  by (simp add: same_body_reduced)

lemma reducedD: "reduced x y \<Longrightarrow> \<not> destroyed y \<Longrightarrow> same_body x y"
  "reduced x y \<Longrightarrow> destroyed y \<Longrightarrow> destroyed x \<or> ref_count y = 0"
  "reduced x y \<Longrightarrow> set (members y) \<subseteq> set (members x)"
  "reduced x y \<Longrightarrow> unat (ref_count y) \<le> unat (ref_count x)"
  "reduced x y \<Longrightarrow> strong_refs_list (obj_values y) a \<le> strong_refs_list (obj_values x) a"
  by (simp_all add: reduced_def)

lemma reduced_trans:
  assumes "reduced x y" "reduced y z"
  shows "reduced x z"
proof -
  note r = reducedD [OF assms(1)] reducedD [OF assms(2)]
  have "same_body x z" if "\<not> destroyed z"
    using that r(1,6) same_body_trans by (metis same_body_def)
  moreover have "destroyed x \<or> ref_count z = 0" if "destroyed z"
    using that r(2,7,9) by (metis le_zero_eq unat_eq_zero unat_0)
  moreover have "strong_refs_list (obj_values z) a \<le> strong_refs_list (obj_values x) a" for a
    using r(5,10) le_trans by blast
  ultimately show ?thesis using r(3,4,8,9) by (auto simp: reduced_def)
qed

lemma shrinks_trans: "shrinks w w' \<Longrightarrow> shrinks w' w'' \<Longrightarrow> shrinks w w''"
  unfolding shrinks_def using reduced_trans by (elim conjE, intro conjI) (simp, simp, meson)

lemma shrinksD: "shrinks w w' \<Longrightarrow> heap w' q = Some y \<Longrightarrow> \<exists>x. heap w q = Some x \<and> reduced x y"
  by (simp add: shrinks_def)

lemma keeps_refl [simp]: "keeps F w w"
  by (auto simp: keeps_def shrinks_def)

lemma keeps_trans: "keeps F w w' \<Longrightarrow> keeps F w' w'' \<Longrightarrow> keeps F w w''"
  unfolding keeps_def by (meson same_body_trans shrinks_trans)

lemma keeps_put: "heap w p = Some x \<Longrightarrow> reduced x y \<Longrightarrow> p \<notin> F \<or> same_body x y \<Longrightarrow> keeps F w (put_obj p y w)"
  by (auto simp: keeps_def shrinks_def)

lemma keeps_mono: "keeps F w w' \<Longrightarrow> G \<subseteq> F \<Longrightarrow> keeps G w w'"
  by (auto simp: keeps_def)

lemma keepsD: "keeps F w w' \<Longrightarrow> p \<in> F \<Longrightarrow> heap w p = Some x \<Longrightarrow> \<exists>y. heap w' p = Some y \<and> same_body x y"
  by (simp add: keeps_def)

lemma settled_refl: "rc_inv F S W w \<Longrightarrow> settled F S W w w"
  by (simp add: settled_def)

lemma settled_trans: "settled F S W w w' \<Longrightarrow> settled F S' W' w' w'' \<Longrightarrow> settled F S' W' w w''"
  unfolding settled_def by (meson keeps_trans le_trans)

lemma settledD:
  assumes "settled F S W w w'"
  shows "rc_inv F S W w'" "keeps F w w'" "weight w' \<le> weight w"
  using assms by (simp_all add: settled_def)

lemma weight_put:
  assumes "finite (dom (heap w))" "heap w p = Some x"
  shows "weight (put_obj p y w) + (if destroyed x then 0 else Suc (length (members x))) =
         weight w + (if destroyed y then 0 else Suc (length (members y)))"
  using sum_entries_update [OF assms, of "\<lambda>x. if destroyed x then 0 else Suc (length (members x))" y]
  by (simp add: weight_def)

lemma weight_put_same:
  assumes "finite (dom (heap w))" "heap w p = Some x" "same_body x y"
  shows "weight (put_obj p y w) = weight w"
  using weight_put [OF assms(1,2), of y] assms(3) by (simp add: same_body_def split: if_splits)

lemma weight_free_object:
  assumes "finite (dom (heap w))" "heap w p = Some x"
  shows "weight (free_object p w) \<le> weight w"
  using sum_entries_remove [OF assms, of "\<lambda>x. if destroyed x then 0 else Suc (length (members x))"]
  by (simp add: weight_def)

lemma weight_member: "finite (dom (heap w)) \<Longrightarrow> heap w p = Some x \<Longrightarrow> \<not> destroyed x \<Longrightarrow> length (members x) < weight w"
  using sum_entries_member_le [of "heap w" p x "\<lambda>x. if destroyed x then 0 else Suc (length (members x))"]
  by (simp add: weight_def)

lemma weight_log [simp]: "weight (log_line s w) = weight w"
  by (simp add: weight_def)

lemma same_body_ok:
  assumes "same_body x y"
  shows "object_ok y = object_ok x" "dtor_ok y = dtor_ok x" "destroyed y = destroyed x"
proof -
  have eq: "members y = members x" "payload y = payload x" "dtor y = dtor x" "destroyed y = destroyed x"
    using assms by (simp_all add: same_body_def)
  show "object_ok y = object_ok x" by (simp add: object_ok_def eq same_body_values [OF assms])
  show "dtor_ok y = dtor_ok x" unfolding dtor_ok_def eq ..
  show "destroyed y = destroyed x" by (rule eq)
qed

lemma obj_inv_same_body:
  assumes "obj_inv F p x" "same_body x y" "ref_count y = 0 \<Longrightarrow> p \<notin> F \<Longrightarrow> obj_values x = []"
  shows "obj_inv F p y"
  using assms by (auto simp: obj_inv_def same_body_ok [OF assms(2)] same_body_values [OF assms(2)])

text \<open>Rebuilding the invariant after an update of one object.\<close>

lemma rc_inv_put:
  assumes "rc_inv F S W w" "counts_ok S' W' (put_obj p y w)" "\<And>q. q \<in> F \<Longrightarrow> 0 < S' q"
    and "obj_inv F p y" "p \<in> F \<Longrightarrow> destroyed y"
  shows "rc_inv F S' W' (put_obj p y w)"
  using assms rc_invD(3,4) [OF assms(1)] by (auto simp: rc_inv_def)

lemma rc_inv_free_object:
  assumes "rc_inv F S W w" "counts_ok S' W' (free_object p w)" "p \<notin> F" "\<And>q. q \<in> F \<Longrightarrow> 0 < S' q"
  shows "rc_inv F S' W' (free_object p w)"
proof -
  have "\<exists>x. heap (free_object p w) q = Some x \<and> destroyed x" if "q \<in> F" for q
    using rc_invD(3) [OF assms(1) that] assms(3) that by (metis free_object_simps(1) fun_upd_other)
  then show ?thesis using assms rc_invD(4) [OF assms(1)] by (auto simp: rc_inv_def split: if_splits)
qed

text \<open>
  Marking an object as destroyed is no reduction by itself, but it is one when the object ends up dead,
  which the counters tell: nobody else refers to it.
\<close>

lemma strong_cnt_shrinks: "finite (dom (heap w)) \<Longrightarrow> shrinks w w' \<Longrightarrow> strong_cnt w' a \<le> strong_cnt w a"
  unfolding strong_cnt_def by (intro sum_entries_mono) (auto dest!: shrinksD reducedD(5))

lemma keeps_mark_destroyed:
  assumes inv: "rc_inv F (\<lambda>a. S a + one_at p a) W w" and x: "heap w p = Some x" "\<not> destroyed x" and pF: "p \<notin> F"
    and k: "keeps F (put_obj p (x\<lparr>destroyed := True\<rparr>) w) w'" and one: "ref_count x = 1" and inv': "rc_inv F S W w'"
  shows "keeps F w w'"
proof -
  note I = rc_invD [OF inv]
  let ?y = "x\<lparr>destroyed := True\<rparr>" and ?w = "put_obj p (x\<lparr>destroyed := True\<rparr>) w"
  have sh: "shrinks ?w w'" using k by (simp add: keeps_def)
  have "strong_cnt ?w = strong_cnt w" using cnt_put_same [OF I(5) x(1), of ?y] by (simp add: obj_values_def)
  then have "strong_cnt w' p = 0 \<and> S p = 0"
    using strong_cnt_shrinks [OF _ sh, of p] I(5) counts_okD(3) [OF I(1) x(1)] one by (auto simp: object_counts_ok_def)
  then have dead: "ref_count z = 0" if "heap w' p = Some z" for z
    using counts_okD(3) [OF rc_invD(1) [OF inv'] that] by (simp add: object_counts_ok_def unat_eq_zero)
  have "reduced x z" if z: "heap w' p = Some z" for z
  proof -
    have r: "reduced ?y z" using shrinksD [OF sh z] by auto
    then have "destroyed z" using reducedD(1) by (fastforce simp: same_body_def)
    with r dead [OF z] show ?thesis by (simp add: reduced_def obj_values_def)
  qed
  then have "shrinks w w'" using sh x(1) unfolding shrinks_def by (metis fun_upd_apply put_obj_simps(1-3))
  then show ?thesis using k pF by (auto simp: keeps_def split: if_splits)
qed

section \<open>Dropping a weak reference\<close>

lemma drop_weak_settled:
  assumes inv: "rc_inv F S (\<lambda>a. W a + one_at p a) w" and x: "heap w p = Some x"
  shows "\<exists>w'. di_decrement_weak_ref_count p w = Ret w' \<and> settled F S W w w'"
proof -
  note I = rc_invD [OF inv]
  have rc0: "p \<notin> F" if "ref_count x = 0"
    using that counts_okD(3) [OF I(1) x] I(2) [of p] by (auto simp: object_counts_ok_def)
  then have vals: "ref_count x = 0 \<Longrightarrow> obj_values x = []" using I(4) [OF x] by (simp add: obj_inv_def)
  obtain w' where w': "di_decrement_weak_ref_count p w = Ret w'" "counts_ok S W w'"
    and alt: "w' = put_obj p (x\<lparr>weak_ref_count := weak_ref_count x - 1\<rparr>) w \<or> w' = free_object p w \<and> ref_count x = 0"
    using drop_weak_counts [OF I(1) x vals] by blast
  from alt have "settled F S W w w'"
  proof
    assume eq: "w' = put_obj p (x\<lparr>weak_ref_count := weak_ref_count x - 1\<rparr>) w"
    have "obj_inv F p (x\<lparr>weak_ref_count := weak_ref_count x - 1\<rparr>)"
      by (rule obj_inv_same_body [OF I(4) [OF x]]) (use vals in auto)
    moreover have "p \<in> F \<Longrightarrow> destroyed x" using I(3) [of p] x by auto
    ultimately have "rc_inv F S W w'" using rc_inv_put [OF inv] w'(2) I(2) eq by auto
    then show ?thesis using keeps_put [OF x same_body_reduced] weight_put_same [OF I(5) x] by (simp add: settled_def eq)
  next
    assume eq: "w' = free_object p w \<and> ref_count x = 0"
    then have "rc_inv F S W w'" using rc_inv_free_object [OF inv] w'(2) rc0 I(2) by auto
    moreover have "keeps F w w'" using eq rc0 by (auto simp: keeps_def shrinks_def)
    ultimately show ?thesis using weight_free_object [OF I(5) x] eq by (simp add: settled_def)
  qed
  with w'(1) show ?thesis by blast
qed

section \<open>The contract of a reference drop\<close>

lemma one_at_refs: "strong_refs (VObject p) = one_at p" "weak_refs (VWeak p) = one_at p"
  by (simp_all add: fun_eq_iff)

lemma sizeof_value: "\<not> no_value t \<Longrightarrow> \<exists>n. di_sizeof_type t = Ret n"
  by (simp add: di_sizeof_type_Ret)

lemma hash_del_first:
  "table_ok ((n, m) # ms) \<Longrightarrow> hash_del n ((n, m) # ms) = ms"
  by (auto intro!: hash_del_absent simp: hash_find_None_iff)

lemma free_objects_fold: "di_free_elems U (map (\<lambda>e. VObject (snd e)) t) w = fold_res U (map snd t) w"
proof (induction t arbitrary: w)
  case (Cons e t)
  then have "di_free_elems U (map (\<lambda>e. VObject (snd e)) t) = fold_res U (map snd t)" by (intro ext)
  then show ?case by simp
qed simp

text \<open>The type member of an object, when it is a string literal.\<close>

lemma di_get_type_literal:
  assumes "heap w p = Some x" "map_option m_val (hash_find ''__type'' (members x)) = Some (VLiteral ty)"
  shows "di_get_type U p w = Ret (Inr ty, w)"
  using assms
  by (auto simp: di_get_type_def di_rawgetxt_def gen_tfunc_def di_rawgetx_def di_lookup_def get_obj_def
      di_type_conversion.simps)

lemma di_check_type_literal:
  assumes "heap w p = Some x" "map_option m_val (hash_find ''__type'' (members x)) = Some (VLiteral ty)"
  shows "di_check_type U p ty' w = Ret (ty = ty', w)"
  by (simp add: di_check_type_def di_get_type_literal [OF assms])

locale drop_contract =
  fixes U :: drop_fn and n :: nat
  assumes drop: "rc_inv F (\<lambda>a. S a + one_at p a) W w \<Longrightarrow> \<forall>q \<in> F. 0 < S q \<Longrightarrow> weight w < n \<Longrightarrow>
    \<exists>w'. U p w = Ret w' \<and> settled F S W w w'"
begin

lemma free_value_aux:
  "U' = U \<Longrightarrow> rc_inv F (\<lambda>a. S a + strong_refs v a) (\<lambda>a. W a + weak_refs v a) w \<Longrightarrow> \<forall>q \<in> F. 0 < S q \<Longrightarrow>
     free_ok v \<Longrightarrow> weight w < n \<Longrightarrow> \<exists>w'. di_free_value U' v w = Ret w' \<and> settled F S W w w'"
  and free_elems_aux:
  "U' = U \<Longrightarrow> rc_inv F (\<lambda>a. S a + strong_refs_list vs a) (\<lambda>a. W a + weak_refs_list vs a) w \<Longrightarrow> \<forall>q \<in> F. 0 < S q \<Longrightarrow>
     (\<forall>v \<in> set vs. free_ok v) \<Longrightarrow> weight w < n \<Longrightarrow> \<exists>w'. di_free_elems U' vs w = Ret w' \<and> settled F S W w w'"
proof (induction U' v w and U' vs w arbitrary: S W and S W rule: di_free_value_di_free_elems.induct)
  case (2 U' t xs w)
  then obtain k where "di_sizeof_type t = Ret k" using sizeof_value by fastforce
  with 2 show ?case by auto
next
  case (5 U' p w)
  then show ?case using drop [of F S p W w] by (simp add: one_at_refs)
next
  case (6 U' p w)
  then have inv: "rc_inv F S (\<lambda>a. W a + one_at p a) w" by (simp add: one_at_refs)
  obtain x where "heap w p = Some x" using counts_ok_live [OF rc_invD(1) [OF inv], of p] by auto
  then show ?case using drop_weak_settled [OF inv] by (simp add: di_drop_weak_ref_def)
next
  case (10 U' x xs w)
  have inv: "rc_inv F (\<lambda>a. S a + strong_refs_list xs a + strong_refs x a)
      (\<lambda>a. W a + weak_refs_list xs a + weak_refs x a) w"
    using 10(4) by (simp add: add.commute add.left_commute)
  obtain w1 where w1: "di_free_value U' x w = Ret w1"
    "settled F (\<lambda>a. S a + strong_refs_list xs a) (\<lambda>a. W a + weak_refs_list xs a) w w1"
    using 10(1) [OF 10(3) inv] 10(5-7) by auto
  obtain w2 where "di_free_elems U' xs w1 = Ret w2" "settled F S W w1 w2"
    using 10(2) [OF w1(1) 10(3) settledD(1) [OF w1(2)]] 10(5-7) settledD(3) [OF w1(2)] by auto
  with w1 show ?case using settled_trans by auto
qed (auto intro: settled_refl)

lemmas free_value = free_value_aux [OF refl] and free_elems = free_elems_aux [OF refl]

text \<open>Taking values out of an object under destruction and freeing them.\<close>

lemma shrink_frozen:
  assumes inv: "rc_inv F S W w" and x: "heap w p = Some x" and F: "p \<in> F"
    and y: "ref_count y = ref_count x" "weak_ref_count y = weak_ref_count x" "destroyed y" "object_ok y"
    and S: "\<And>a. strong_refs_list vs a + strong_refs_list (obj_values y) a = strong_refs_list (obj_values x) a"
    and W: "\<And>a. weak_refs_list vs a + weak_refs_list (obj_values y) a = weak_refs_list (obj_values x) a"
  shows "rc_inv F (\<lambda>a. S a + strong_refs_list vs a) (\<lambda>a. W a + weak_refs_list vs a) (put_obj p y w)"
    "weight (put_obj p y w) = weight w"
proof -
  note I = rc_invD [OF inv]
  have "counts_ok (\<lambda>a. S a + strong_refs_list vs a) (\<lambda>a. W a + weak_refs_list vs a) (put_obj p y w)"
    by (rule counts_ok_put [OF I(1) x y(1,2)]) (simp_all add: add.assoc S W)
  then show "rc_inv F (\<lambda>a. S a + strong_refs_list vs a) (\<lambda>a. W a + weak_refs_list vs a) (put_obj p y w)"
    using rc_inv_put [OF inv] I(2) F y by (simp add: obj_inv_def)
  have "destroyed x" using I(3) [OF F] x by auto
  then show "weight (put_obj p y w) = weight w" using weight_put [OF I(5) x, of y] y(3) by simp
qed

lemma remove_member_frozen:
  assumes inv: "rc_inv F S W w" and F: "p \<in> F" and x: "heap w p = Some x" "members x = (nm, m) # ms"
    and n: "weight w < n"
  shows "\<exists>w' y. di_remove_member_raw_impl U p nm m w = Ret w' \<and> rc_inv F S W w' \<and> keeps (F - {p}) w w' \<and>
    weight w' \<le> weight w \<and> heap w' p = Some y \<and> same_body (x\<lparr>members := ms\<rparr>) y"
proof -
  note I = rc_invD [OF inv]
  have ok: "object_ok x" using I(4) [OF x(1)] by (simp add: obj_inv_def)
  have "table_ok ((nm, m) # ms)" using ok by (simp add: object_ok_def x(2))
  then have del: "hash_del nm (members x) = ms" unfolding x(2) by (rule hash_del_first)
  let ?y = "x\<lparr>members := ms\<rparr>" and ?w = "put_obj p (x\<lparr>members := ms\<rparr>) w"
  have dx: "destroyed x" using I(3) [OF F] x(1) by auto
  then have red: "reduced x ?y" by (auto simp: reduced_def obj_values_def x(2))
  note dx
  moreover have "object_ok ?y" using ok by (simp add: object_ok_def obj_values_def x(2))
  ultimately have "rc_inv F (\<lambda>a. S a + strong_refs_list [m_val m] a) (\<lambda>a. W a + weak_refs_list [m_val m] a) ?w"
    and wt: "weight ?w = weight w"
    using shrink_frozen [OF inv x(1) F, of ?y "[m_val m]"] by (simp_all add: obj_values_def x(2))
  moreover have "free_ok (m_val m)" using ok by (simp add: object_ok_def obj_values_def x(2))
  ultimately obtain w' where w': "di_free_value U (m_val m) ?w = Ret w'" "settled F S W ?w w'"
    using free_value [of F S "m_val m" W ?w] I(2) n by auto
  obtain y where y: "heap w' p = Some y" "same_body ?y y"
    using keepsD [OF settledD(2) [OF w'(2)] F] by auto
  have "keeps (F - {p}) w w'"
    using keeps_trans [OF keeps_put [OF x(1)] keeps_mono [OF settledD(2) [OF w'(2)]], of "F - {p}"] red by auto
  then show ?thesis
    using w' y settledD(1,3) [OF w'(2)] x(1) del wt by (simp add: di_remove_member_raw_impl_def get_obj_def)
qed

lemma finalize_members_frozen:
  "rc_inv F S W w \<Longrightarrow> p \<in> F \<Longrightarrow> heap w p = Some x \<Longrightarrow> members x = ms \<Longrightarrow> length ms \<le> k \<Longrightarrow> weight w < n \<Longrightarrow>
   \<exists>w' y. finalize_members U k p (first_member_addr ms) w = Ret w' \<and> rc_inv F S W w' \<and> keeps (F - {p}) w w' \<and>
     weight w' \<le> weight w \<and> heap w' p = Some y \<and> same_body (x\<lparr>members := []\<rparr>) y"
proof (induction ms arbitrary: w x k)
  case Nil
  then show ?case by (auto simp: first_member_addr_def same_body_def)
next
  case (Cons e ms)
  obtain nm m where e: "e = (nm, m)" by (cases e)
  obtain k' where k: "k = Suc k'" using Cons.prems(5) by (cases k) auto
  obtain w1 y1 where w1: "di_remove_member_raw_impl U p nm m w = Ret w1" "rc_inv F S W w1" "keeps (F - {p}) w w1"
    "weight w1 \<le> weight w" "heap w1 p = Some y1" "same_body (x\<lparr>members := ms\<rparr>) y1"
    using remove_member_frozen [OF Cons.prems(1-3)] Cons.prems(4,6) e by blast
  have "members y1 = ms" using w1(6) by (simp add: same_body_def)
  then obtain w2 y2 where w2: "finalize_members U k' p (first_member_addr ms) w1 = Ret w2" "rc_inv F S W w2"
    "keeps (F - {p}) w1 w2" "weight w2 \<le> weight w1" "heap w2 p = Some y2" "same_body (y1\<lparr>members := []\<rparr>) y2"
    using Cons.IH [OF w1(2) Cons.prems(2) w1(5), of k'] Cons.prems(5,6) k w1(4) by auto
  have next_m: "next_member_addr (m_addr m) (members x) = first_member_addr ms"
    "find_member_at (m_addr m) (members x) = Some (nm, m)"
    by (simp_all add: Cons.prems(4) e first_member_addr_def)
  have "same_body (x\<lparr>members := []\<rparr>) y2" using w1(6) w2(6) by (simp add: same_body_def)
  moreover have "finalize_members U k p (first_member_addr (e # ms)) w = Ret w2"
    using Cons.prems(3) next_m w1(1) w2(1) by (simp add: k e first_member_addr_def get_obj_def)
  ultimately show ?case using w2 w1(3,4) keeps_trans by (meson le_trans)
qed

text \<open>The destructors of the core leave an object under destruction with an empty payload.\<close>

lemma free_payload_frozen:
  assumes inv: "rc_inv F S W w" and F: "p \<in> F" and x: "heap w p = Some x"
    and pl: "payload_values pl = []" and n: "weight w < n"
  shows "\<exists>w' y. di_free_elems U (payload_values (payload x)) (put_obj p (x\<lparr>payload := pl\<rparr>) w) = Ret w' \<and>
    rc_inv F S W w' \<and> keeps (F - {p}) w w' \<and> weight w' \<le> weight w \<and> heap w' p = Some y \<and>
    same_body (x\<lparr>payload := pl\<rparr>) y"
proof -
  note I = rc_invD [OF inv]
  let ?y = "x\<lparr>payload := pl\<rparr>" and ?vs = "payload_values (payload x)" and ?w = "put_obj p (x\<lparr>payload := pl\<rparr>) w"
  have ok: "object_ok x" "destroyed x" using I(3) [OF F] I(4) [OF x] x by (auto simp: obj_inv_def)
  then have red: "reduced x ?y" by (simp add: reduced_def obj_values_def pl)
  from ok have "rc_inv F (\<lambda>a. S a + strong_refs_list ?vs a) (\<lambda>a. W a + weak_refs_list ?vs a) ?w"
    and wt: "weight ?w = weight w"
    using shrink_frozen [OF inv x F, of ?y ?vs] by (simp_all add: obj_values_def object_ok_def pl add.commute)
  moreover have "\<forall>v \<in> set ?vs. free_ok v" using ok(1) by (simp add: object_ok_def obj_values_def)
  ultimately obtain w' where w': "di_free_elems U ?vs ?w = Ret w'" "settled F S W ?w w'"
    using free_elems [of F S ?vs W ?w] I(2) n by auto
  obtain y where y: "heap w' p = Some y" "same_body ?y y"
    using keepsD [OF settledD(2) [OF w'(2)] F] by auto
  have "keeps (F - {p}) w w'"
    using keeps_trans [OF keeps_put [OF x] keeps_mono [OF settledD(2) [OF w'(2)]], of "F - {p}"] red by auto
  then show ?thesis using w' y settledD(1,3) [OF w'(2)] wt by auto
qed

lemma run_dtor_frozen:
  assumes inv: "rc_inv F S W w" and F: "p \<in> F" and x: "heap w p = Some x"
    and d: "dtor_ok (x\<lparr>dtor := Some d\<rparr>)" and n: "weight w < n"
  shows "\<exists>w' y. run_dtor E U C d p w = Ret w' \<and> rc_inv F S W w' \<and> keeps (F - {p}) w w' \<and> weight w' \<le> weight w \<and>
    heap w' p = Some y \<and> members y = members x \<and> payload_values (payload y) = [] \<and> destroyed y"
proof -
  have dx: "destroyed x" using rc_invD(3) [OF inv F] x by auto
  have "\<exists>pl. payload_values pl = [] \<and>
      run_dtor E U C d p w = di_free_elems U (payload_values (payload x)) (put_obj p (x\<lparr>payload := pl\<rparr>) w)"
  proof (cases d)
    case Dtor_free_closure
    then obtain cl where cl: "payload x = PClosure cl"
      and ty: "map_option m_val (hash_find ''__type'' (members x)) = Some (VLiteral ''deai:closure'')"
      using d by (auto simp: dtor_ok_def split: payload.splits)
    show ?thesis
      by (rule exI [of _ PNone])
        (simp add: run_dtor_def Dtor_free_closure free_closure_def di_check_type_literal [OF x ty] get_obj_def x cl)
  next
    case Dtor_roots
    then obtain k t where pl: "payload x = PRoots k t" using d by (auto simp: dtor_ok_def split: payload.splits)
    show ?thesis
      by (rule exI [of _ "PRoots k []"])
        (simp add: run_dtor_def Dtor_roots di_roots_dtor_def get_obj_def x pl free_objects_fold)
  qed (use d in \<open>auto simp: dtor_ok_def\<close>)
  then obtain pl where pl: "payload_values pl = []"
    "run_dtor E U C d p w = di_free_elems U (payload_values (payload x)) (put_obj p (x\<lparr>payload := pl\<rparr>) w)" by blast
  obtain w' y where w': "run_dtor E U C d p w = Ret w'" "rc_inv F S W w'" "keeps (F - {p}) w w'"
    "weight w' \<le> weight w" "heap w' p = Some y" "same_body (x\<lparr>payload := pl\<rparr>) y"
    using free_payload_frozen [OF inv F x pl(1) n] pl(2) by auto
  then have "members y = members x" "payload_values (payload y) = []" "destroyed y"
    using pl(1) dx by (simp_all add: same_body_def)
  with w' show ?thesis by blast
qed

lemma finalize_frozen:
  assumes inv: "rc_inv F S W w" and F: "p \<in> F" and x: "heap w p = Some x" and d: "dtor_ok x"
    and k: "length (members x) \<le> k" and n: "weight w < n"
  shows "\<exists>w' y. finalize_object_impl (run_dtor E U C) U k p w = Ret w' \<and> rc_inv F S W w' \<and> keeps (F - {p}) w w' \<and>
    weight w' \<le> weight w \<and> heap w' p = Some y \<and> obj_values y = [] \<and> destroyed y"
proof -
  note I = rc_invD [OF inv]
  have dx: "destroyed x" "object_ok x" using I(3) [OF F] I(4) [OF x] x by (auto simp: obj_inv_def)
  have "\<exists>w1 y. (case dtor x of None \<Rightarrow> Ret w | Some d \<Rightarrow> run_dtor E U C d p (put_obj p (x\<lparr>dtor := None\<rparr>) w)) = Ret w1 \<and>
      rc_inv F S W w1 \<and> keeps (F - {p}) w w1 \<and> weight w1 \<le> weight w \<and> heap w1 p = Some y \<and>
      members y = members x \<and> payload_values (payload y) = [] \<and> destroyed y"
  proof (cases "dtor x")
    case None
    then show ?thesis using inv x d dx by (auto simp: dtor_ok_def)
  next
    case (Some d')
    let ?y = "x\<lparr>dtor := None\<rparr>" and ?w = "put_obj p (x\<lparr>dtor := None\<rparr>) w"
    have "rc_inv F S W ?w"
      using rc_inv_put [OF inv counts_ok_put_same [OF I(1) x, of ?y]] I(2) dx F
      by (simp add: obj_inv_def object_ok_def obj_values_def)
    moreover have "weight ?w = weight w" using weight_put [OF I(5) x, of ?y] dx by simp
    moreover have "dtor_ok (?y\<lparr>dtor := Some d'\<rparr>)" using d Some by (simp add: dtor_ok_def split: dtor_fn.splits)
    moreover have "keeps (F - {p}) w ?w" using keeps_put [OF x] dx by (auto simp: reduced_def obj_values_def)
    ultimately show ?thesis
      using run_dtor_frozen [of F S W ?w p ?y d' E C] F n keeps_trans Some by fastforce
  qed
  then obtain w1 y where w1: "(case dtor x of None \<Rightarrow> Ret w | Some d \<Rightarrow> run_dtor E U C d p (put_obj p (x\<lparr>dtor := None\<rparr>) w)) = Ret w1"
    "rc_inv F S W w1" "keeps (F - {p}) w w1" "weight w1 \<le> weight w" "heap w1 p = Some y"
    "members y = members x" "payload_values (payload y) = []" "destroyed y" by blast
  obtain w2 z where w2: "finalize_members U k p (first_member_addr (members y)) w1 = Ret w2" "rc_inv F S W w2"
    "keeps (F - {p}) w1 w2" "weight w2 \<le> weight w1" "heap w2 p = Some z" "same_body (y\<lparr>members := []\<rparr>) z"
    using finalize_members_frozen [OF w1(2) F w1(5) refl, of k] k n w1(4,6) by auto
  then have "obj_values z = []" "destroyed z" using w1(7,8) by (simp_all add: same_body_def obj_values_def)
  moreover have "finalize_object_impl (run_dtor E U C) U k p w = Ret w2"
    using x w1(1,5) w2(1) by (simp add: finalize_object_impl_def get_obj_def)
  ultimately show ?thesis using w2 w1(3,4) keeps_trans by (meson le_trans)
qed

lemma destroy_settled:
  assumes inv: "rc_inv F (\<lambda>a. S a + one_at p a) W w" and F: "\<forall>q \<in> F. 0 < S q"
    and x: "heap w p = Some x" "\<not> destroyed x" and one: "ref_count x = 1" and n: "weight w \<le> n"
  shows "\<exists>w'. di_destroy_object (run_dtor E U C) U n p (put_obj p (x\<lparr>ref_count := 0\<rparr>) w) = Ret w' \<and> settled F S W w w'"
proof -
  note I = rc_invD [OF inv]
  let ?S = "\<lambda>a. S a + one_at p a" and ?y = "x\<lparr>destroyed := True\<rparr>" and ?w = "put_obj p (x\<lparr>destroyed := True\<rparr>) w"
  have pF: "p \<notin> F" using I(3) [of p] x by auto
  have same: "x\<lparr>ref_count := 1, destroyed := True\<rparr> = x\<lparr>destroyed := True\<rparr>" using one by (cases x) simp
  have px: "object_ok x" "dtor_ok x" using I(4) [OF x(1)] x(2) by (simp_all add: obj_inv_def)
  have cy: "counts_ok ?S W ?w" using counts_ok_put_same [OF I(1) x(1), of ?y] by (simp add: obj_values_def)
  have "obj_inv (insert p F) q z" if "heap ?w q = Some z" for q z
    using that I(4) [of q z] px(1) by (auto simp: obj_inv_def object_ok_def obj_values_def split: if_splits)
  then have inv1: "rc_inv (insert p F) ?S W ?w" using cy I(2,3) F by (auto simp: rc_inv_def)
  have wt: "weight ?w < n" "length (members x) \<le> n"
    using weight_put [OF I(5) x(1), of ?y] weight_member [OF I(5) x] x(2) n by auto
  obtain w1 y where w1: "finalize_object_impl (run_dtor E U C) U n p ?w = Ret w1" "rc_inv (insert p F) ?S W w1"
    "keeps (insert p F - {p}) ?w w1" "weight w1 \<le> weight ?w" "heap w1 p = Some y" "obj_values y = []" "destroyed y"
    using finalize_frozen [OF inv1, of p ?y n E C] px(2) wt by auto
  let ?w2 = "put_obj p (y\<lparr>signals := []\<rparr>) w1"
  note J = rc_invD [OF w1(2)]
  have cz: "counts_ok ?S W ?w2" using counts_ok_put_same [OF J(1) w1(5)] by (simp add: obj_values_def)
  have "obj_inv F q z" if "heap ?w2 q = Some z" for q z
    using that J(4) [of q z] J(4) [OF w1(5)] w1(6,7)
    by (auto simp: obj_inv_def object_ok_def obj_values_def split: if_splits)
  then have inv2: "rc_inv F ?S W ?w2" using cz J(2,3) pF by (auto simp: rc_inv_def)
  have wt2: "weight ?w2 = weight w1" using weight_put [OF J(5) w1(5)] w1(7) by simp
  obtain w' where w': "U p ?w2 = Ret w'" "settled F S W ?w2 w'"
    using drop [OF inv2 F] wt2 w1(4) wt(1) by auto
  have "reduced y (y\<lparr>signals := []\<rparr>)" using w1(7) by (simp add: reduced_def obj_values_def)
  then have "keeps F ?w w'"
    using keeps_trans [OF _ keeps_trans [OF keeps_put [OF w1(5)] settledD(2) [OF w'(2)]]] pF w1(3) by simp
  then have "keeps F w w'"
    by (rule keeps_mark_destroyed [OF inv x pF _ one settledD(1) [OF w'(2)]])
  moreover have "weight w' \<le> weight w"
    using settledD(3) [OF w'(2)] wt2 w1(4) weight_put [OF I(5) x(1), of ?y] x(2) by simp
  moreover have "di_destroy_object (run_dtor E U C) U n p (put_obj p (x\<lparr>ref_count := 0\<rparr>) w) = Ret w'"
    using x same w1(1,5) w'(1) by (simp add: di_destroy_object_def di_ref_object_def get_obj_def put_obj_def)
  ultimately show ?thesis using settledD(1) [OF w'(2)] by (auto simp: settled_def)
qed

lemma unref_step_settled:
  assumes inv: "rc_inv F (\<lambda>a. S a + one_at p a) W w" and F: "\<forall>q \<in> F. 0 < S q" and n: "weight w < Suc n"
  shows "\<exists>w'. unref_step (run_dtor E U C) U n p w = Ret w' \<and> settled F S W w w'"
proof -
  note I = rc_invD [OF inv]
  obtain x where x: "heap w p = Some x" using counts_ok_live [OF I(1), of p] by auto
  note c = counts_okD(3) [OF I(1) x]
  have nz: "ref_count x \<noteq> 0" using c by (auto simp: object_counts_ok_def)
  have dF: "p \<in> F \<Longrightarrow> destroyed x" using I(3) [of p] x by auto
  consider (dec) "ref_count x \<noteq> 1" | (free) "ref_count x = 1" "destroyed x" | (destroy) "ref_count x = 1" "\<not> destroyed x"
    by blast
  then show ?thesis
  proof cases
    case dec
    let ?y = "x\<lparr>ref_count := ref_count x - 1\<rparr>"
    have y0: "ref_count ?y \<noteq> 0" using dec by simp
    have "obj_inv F p ?y" by (rule obj_inv_same_body [OF I(4) [OF x]]) (use dec in auto)
    then have "rc_inv F S W (put_obj p ?y w)"
      using rc_inv_put [OF inv dec_strong_counts(2) [OF I(1) x dec]] F dF by simp
    then have "settled F S W w (put_obj p ?y w)"
      using keeps_put [OF x same_body_reduced, of ?y] weight_put_same [OF I(5) x] unat_dec [OF nz] by (simp add: settled_def)
    then show ?thesis using x nz dec by (simp add: unref_step_def get_obj_def Let_def word_gt_0)
  next
    case free
    let ?y = "x\<lparr>ref_count := 0\<rparr>"
    have pF: "p \<notin> F" using c free(1) F by (auto simp: object_counts_ok_def)
    have "obj_values x = []" using I(4) [OF x] free(2) pF by (simp add: obj_inv_def)
    then have "obj_inv F p ?y" by (intro obj_inv_same_body [OF I(4) [OF x]]) auto
    then have inv1: "rc_inv F S (\<lambda>a. W a + one_at p a) (put_obj p ?y w)"
      using rc_inv_put [OF inv last_strong_counts [OF I(1) x free(1)]] F dF by simp
    obtain w' where w': "di_decrement_weak_ref_count p (put_obj p ?y w) = Ret w'" "settled F S W (put_obj p ?y w) w'"
      using drop_weak_settled [OF inv1] by auto
    then have "settled F S W w w'"
      using keeps_trans [OF keeps_put [OF x same_body_reduced], of ?y F] weight_put_same [OF I(5) x] by (auto simp: settled_def)
    then show ?thesis using x free w' by (simp add: unref_step_def get_obj_def Let_def)
  next
    case destroy
    then show ?thesis
      using destroy_settled [OF inv F x] x n by (simp add: unref_step_def get_obj_def Let_def)
  qed
qed

end

text \<open>
  The knot fulfils the contract: fuel \<open>n\<close> is enough for every heap of weight less than \<open>n\<close>.
\<close>

lemma di_unref_object_settled:
  "rc_inv F (\<lambda>a. S a + one_at p a) W w \<Longrightarrow> \<forall>q \<in> F. 0 < S q \<Longrightarrow> weight w < n \<Longrightarrow>
   \<exists>w'. di_unref_object E n p w = Ret w' \<and> settled F S W w w'"
proof (induction n arbitrary: F S p W w)
  case (Suc n)
  then have "drop_contract (di_unref_object E n) n" by unfold_locales blast
  from drop_contract.unref_step_settled [OF this Suc.prems] show ?case by simp
qed simp

interpretation unref: drop_contract "di_unref_object E n" n for E n
  by unfold_locales (rule di_unref_object_settled)

section \<open>Consequences\<close>

text \<open>
  C2. Dropping a strong reference is safe and total.  Take a heap whose counters are right, whose values can
  be freed (no array has storage but no elements), and whose objects are plain objects, closures or the roots:
  listen handles and objects with the destructor of a module are not covered.  There, dropping a reference that
  somebody holds always returns when the fuel exceeds the weight of the heap: no assertion fails, no
  freed memory is touched, and destruction ends whatever the references between the objects are, cycles
  included.  Afterwards every counter is right again, and an object that has not been destroyed has kept its
  members, its payload and its signals.
\<close>

theorem di_unref_object_safe:
  assumes "rc_inv {} (\<lambda>a. S a + one_at p a) W w" and "weight w < n"
  shows "\<exists>w'. di_unref_object E n p w = Ret w' \<and> rc_inv {} S W w' \<and>
    (\<forall>q y. heap w' q = Some y \<longrightarrow> \<not> destroyed y \<longrightarrow> (\<exists>x. heap w q = Some x \<and> same_body x y))"
proof -
  obtain w' where w': "di_unref_object E n p w = Ret w'" "settled {} S W w w'"
    using di_unref_object_settled [OF assms(1) _ assms(2), of E] by auto
  then have "shrinks w w'" by (simp add: settled_def keeps_def)
  then have "\<exists>x. heap w q = Some x \<and> same_body x y" if "heap w' q = Some y" "\<not> destroyed y" for q y
    using that shrinksD reducedD(1) by metis
  with w' show ?thesis by (auto simp: settled_def)
qed

text \<open>The object graph: who holds a strong reference to whom.\<close>

definition points_to :: "world \<Rightarrow> (oref \<times> oref) set" where
  "points_to w = {(q, p). case heap w q of None \<Rightarrow> False | Some x \<Rightarrow> 0 < strong_refs_list (obj_values x) p}"

lemma points_to_iff: "(q, p) \<in> points_to w \<longleftrightarrow> (\<exists>x. heap w q = Some x \<and> 0 < strong_refs_list (obj_values x) p)"
  by (simp add: points_to_def split: option.splits)

lemma points_to_shrinks:
  assumes "shrinks w w'"
  shows "points_to w' \<subseteq> points_to w"
proof clarify
  fix q p assume "(q, p) \<in> points_to w'"
  then obtain y where y: "heap w' q = Some y" "0 < strong_refs_list (obj_values y) p" by (auto simp: points_to_iff)
  then obtain x where "heap w q = Some x" "reduced x y" using shrinksD [OF assms] by blast
  with y(2) show "(q, p) \<in> points_to w" unfolding points_to_iff by (meson less_le_trans reducedD(5))
qed

lemma finite_points_to:
  assumes "counts_ok S W w"
  shows "finite (points_to w)"
proof -
  note fin = counts_okD(1) [OF assms]
  have "q \<in> dom (heap w) \<and> p \<in> dom (heap w)" if qp: "(q, p) \<in> points_to w" for q p
  proof -
    obtain x where x: "heap w q = Some x" "0 < strong_refs_list (obj_values x) p"
      using qp by (auto simp: points_to_iff)
    then have "0 < strong_cnt w p"
      using sum_entries_member_le [OF fin x(1), of "\<lambda>x. strong_refs_list (obj_values x) p"] by (simp add: strong_cnt_def)
    then show ?thesis using x(1) counts_okD(4) [OF assms, of p] by auto
  qed
  then have "points_to w \<subseteq> dom (heap w) \<times> dom (heap w)" by auto
  then show ?thesis using fin finite_subset by blast
qed

lemma unheld_dead:
  assumes inv: "rc_inv {} (\<lambda>_. 0) W w" and "acyclic (points_to w)"
  shows "heap w p = Some x \<Longrightarrow> ref_count x = 0 \<and> obj_values x = []"
proof (induction p arbitrary: x rule: wf_induct_rule [OF finite_acyclic_wf [OF finite_points_to [OF rc_invD(1) [OF inv]] assms(2)]])
  case (1 p)
  note I = rc_invD [OF inv]
  have "strong_cnt w p = 0"
  proof (rule ccontr)
    assume "strong_cnt w p \<noteq> 0"
    then obtain q y where y: "heap w q = Some y" "strong_refs_list (obj_values y) p \<noteq> 0"
      using sum_entries_zero_iff [OF I(5)] by (auto simp: strong_cnt_def)
    then have "(q, p) \<in> points_to w" by (simp add: points_to_def)
    with 1(1) y show False by fastforce
  qed
  then have "ref_count x = 0" using counts_okD(3) [OF I(1) 1(2)] by (simp add: object_counts_ok_def unat_eq_zero)
  then show ?case using I(4) [OF 1(2)] by (simp add: obj_inv_def)
qed

lemma drop_all:
  "rc_inv {} (count_list ps) W w \<Longrightarrow> weight w < n \<Longrightarrow>
   \<exists>w'. fold_res (di_unref_object E n) ps w = Ret w' \<and> rc_inv {} (\<lambda>_. 0) W w' \<and> shrinks w w'"
proof (induction ps arbitrary: w)
  case Nil
  then show ?case by (auto simp: shrinks_def)
next
  case (Cons p ps)
  have "count_list (p # ps) = (\<lambda>a. count_list ps a + one_at p a)" by auto
  with Cons.prems(1) have "rc_inv {} (\<lambda>a. count_list ps a + one_at p a) W w" by simp
  from di_unref_object_settled [OF this _ Cons.prems(2), of E]
  obtain w1 where w1: "di_unref_object E n p w = Ret w1" "settled {} (count_list ps) W w w1" by auto
  then obtain w' where "fold_res (di_unref_object E n) ps w1 = Ret w'" "rc_inv {} (\<lambda>_. 0) W w'" "shrinks w1 w'"
    using Cons.IH [OF settledD(1) [OF w1(2)]] settledD(3) [OF w1(2)] Cons.prems(2) by auto
  with w1 show ?case using shrinks_trans settledD(2) [OF w1(2)] by (auto simp: keeps_def)
qed

text \<open>
  C3. No leaks.  When every strong reference held outside the heap is dropped, in any order, and the
  object graph had no cycle, then every object is dead and holds nothing, and the only shells left are
  those of objects to which a weak reference still exists, outside the heap or in a signal.
\<close>

theorem drop_all_references:
  assumes "rc_inv {} (count_list ps) W w" and "acyclic (points_to w)" and "weight w < n"
  shows "\<exists>w'. fold_res (di_unref_object E n) ps w = Ret w' \<and>
    (\<forall>p x. heap w' p = Some x \<longrightarrow> ref_count x = 0 \<and> obj_values x = [] \<and>
       unat (weak_ref_count x) = W p + sum_entries (sig_refs p) (sigs w) \<and> 0 < W p + sum_entries (sig_refs p) (sigs w))"
proof -
  obtain w' where w': "fold_res (di_unref_object E n) ps w = Ret w'" "rc_inv {} (\<lambda>_. 0) W w'" "shrinks w w'"
    using drop_all [OF assms(1,3), of E] by auto
  note I = rc_invD [OF w'(2)]
  have dead: "ref_count x = 0 \<and> obj_values x = []" if "heap w' p = Some x" for p x
    using unheld_dead [OF w'(2) acyclic_subset [OF assms(2) points_to_shrinks [OF w'(3)]] that] .
  have "sum_entries (\<lambda>x. weak_refs_list (obj_values x) p) (heap w') = 0" for p
    using sum_entries_zero_iff [OF I(5)] dead by auto
  then have "weak_cnt w' p = sum_entries (sig_refs p) (sigs w)" for p
    using w'(3) by (simp add: weak_cnt_def shrinks_def)
  then have "unat (weak_ref_count x) = W p + sum_entries (sig_refs p) (sigs w) \<and> weak_ref_count x \<noteq> 0"
    if "heap w' p = Some x" for p x
    using counts_okD(3) [OF I(1) that] dead [OF that] by (simp add: object_counts_ok_def)
  with dead w'(1) show ?thesis by (metis unat_pos_iff)
qed

end
