(* ===== verification/ValueCopy.thy ===== *)
theory ValueCopy
  imports Destruction
begin

text \<open>
  What copying a value does to the heap, exactly: it raises the two counters of every object the value
  refers to by the number of references, and nothing else.  Freeing the copy undoes it.
\<close>

definition bump_object :: "nat \<Rightarrow> nat \<Rightarrow> di_object_internal \<Rightarrow> di_object_internal" where
  "bump_object s k x = x\<lparr>ref_count := ref_count x + of_nat s, weak_ref_count := weak_ref_count x + of_nat k\<rparr>"

definition bump :: "(oref \<Rightarrow> nat) \<Rightarrow> (oref \<Rightarrow> nat) \<Rightarrow> world \<Rightarrow> world" where
  "bump s k w = w\<lparr>heap := \<lambda>p. map_option (bump_object (s p) (k p)) (heap w p)\<rparr>"

definition refs_exist :: "(oref \<Rightarrow> nat) \<Rightarrow> world \<Rightarrow> bool" where
  "refs_exist s w \<longleftrightarrow> (\<forall>p. 0 < s p \<longrightarrow> heap w p \<noteq> None)"

text \<open>\<open>copied v\<close>: the copy of \<open>v\<close>.  An array without storage becomes one with storage for no elements.\<close>

fun copied :: "di_value \<Rightarrow> di_value" where
  "copied (VArray t a) = VArray t (Some (map copied (array_elems a)))"
| "copied (VTuple xs) = VTuple (map copied xs)"
| "copied (VVariant v) = VVariant (copied v)"
| "copied (VString s) = VString (di_clone_string s)"
| "copied v = v"

text \<open>\<open>copy_ok v\<close>: \<open>di_copy_value\<close> does not abort on \<open>v\<close>.\<close>

fun copy_ok :: "di_value \<Rightarrow> bool" where
  "copy_ok (VArray t a) = (\<not> no_value t \<and> t \<noteq> DI_TYPE_NIL \<and> (\<forall>x \<in> set (array_elems a). copy_ok x))"
| "copy_ok (VTuple xs) = (\<forall>x \<in> set xs. copy_ok x)"
| "copy_ok (VVariant v) = copy_ok v"
| "copy_ok VLast = False"
| "copy_ok v = True"

lemma copy_ok_value: "copy_ok v \<Longrightarrow> \<not> no_value (di_typeof v)"
  by (cases v) (auto simp: no_value_def)

lemma bump_object_0 [simp]: "bump_object 0 0 = (\<lambda>x. x)"
  by (simp add: bump_object_def fun_eq_iff)

lemma bump_0 [simp]: "bump (\<lambda>_. 0) (\<lambda>_. 0) w = w"
  by (simp add: bump_def option.map_ident)

lemma bump_object_bump [simp]: "bump_object s k (bump_object s' k' x) = bump_object (s + s') (k + k') x"
  by (simp add: bump_object_def add.commute add.left_commute)

lemma bump_bump: "bump s k (bump s' k' w) = bump (\<lambda>a. s a + s' a) (\<lambda>a. k a + k' a) w"
  by (simp add: bump_def option.map_comp comp_def)

lemma heap_bump: "heap (bump s k w) p = map_option (bump_object (s p) (k p)) (heap w p)"
  by (simp add: bump_def)

lemma bump_simps [simp]:
  "sigs (bump s k w) = sigs w" "next_addr (bump s k w) = next_addr w" "all_objects (bump s k w) = all_objects w"
  by (simp_all add: bump_def)

lemma refs_exist_bump [simp]: "refs_exist s (bump s' k w) = refs_exist s w"
  by (simp add: refs_exist_def heap_bump)

lemma refs_exist_add: "refs_exist (\<lambda>a. s a + t a) w = (refs_exist s w \<and> refs_exist t w)"
  by (auto simp: refs_exist_def)

lemma refs_exist_one: "refs_exist (one_at p) w = (\<exists>x. heap w p = Some x)"
  by (auto simp: refs_exist_def split: if_splits)

lemma bump_one:
  assumes "heap w p = Some x"
  shows "bump (one_at p) (\<lambda>_. 0) w = put_obj p (x\<lparr>ref_count := ref_count x + 1\<rparr>) w"
    "bump (\<lambda>_. 0) (one_at p) w = put_obj p (x\<lparr>weak_ref_count := weak_ref_count x + 1\<rparr>) w"
  using assms by (auto simp: bump_def put_obj_def bump_object_def fun_eq_iff option.map_ident intro!: arg_cong [of _ _ "\<lambda>h. w\<lparr>heap := h\<rparr>"])

lemma di_ref_object_bump: "heap w p = Some x \<Longrightarrow> di_ref_object p w = Ret (bump (one_at p) (\<lambda>_. 0) w)"
  by (simp add: di_ref_object_def get_obj_def bump_one)

lemma di_weakly_ref_object_bump: "heap w p = Some x \<Longrightarrow> di_weakly_ref_object p w = Ret (bump (\<lambda>_. 0) (one_at p) w)"
  by (simp add: di_weakly_ref_object_def get_obj_def bump_one)

lemma refs_array_fun:
  "strong_refs (VArray t a) = strong_refs_list (array_elems a)" "weak_refs (VArray t a) = weak_refs_list (array_elems a)"
  "strong_refs (VTuple xs) = strong_refs_list xs" "weak_refs (VTuple xs) = weak_refs_list xs"
  "strong_refs (VVariant v) = strong_refs v" "weak_refs (VVariant v) = weak_refs v"
  by (simp_all add: fun_eq_iff)

lemma refs_scalar_fun:
  "strong_refs VNil = (\<lambda>_. 0)" "weak_refs VNil = (\<lambda>_. 0)"
  "strong_refs (VBool b) = (\<lambda>_. 0)" "weak_refs (VBool b) = (\<lambda>_. 0)"
  "strong_refs (VNint i) = (\<lambda>_. 0)" "weak_refs (VNint i) = (\<lambda>_. 0)"
  "strong_refs (VNuint i) = (\<lambda>_. 0)" "weak_refs (VNuint i) = (\<lambda>_. 0)"
  "strong_refs (VInt j) = (\<lambda>_. 0)" "weak_refs (VInt j) = (\<lambda>_. 0)"
  "strong_refs (VUint j) = (\<lambda>_. 0)" "weak_refs (VUint j) = (\<lambda>_. 0)"
  "strong_refs (VFloat d) = (\<lambda>_. 0)" "weak_refs (VFloat d) = (\<lambda>_. 0)"
  "strong_refs (VPointer n) = (\<lambda>_. 0)" "weak_refs (VPointer n) = (\<lambda>_. 0)"
  "strong_refs (VString s) = (\<lambda>_. 0)" "weak_refs (VString s) = (\<lambda>_. 0)"
  "strong_refs (VLiteral l) = (\<lambda>_. 0)" "weak_refs (VLiteral l) = (\<lambda>_. 0)"
  "weak_refs (VObject p) = (\<lambda>_. 0)" "strong_refs (VWeak p) = (\<lambda>_. 0)"
  by (simp_all add: fun_eq_iff)

lemma refs_list_fun:
  "strong_refs_list [] = (\<lambda>_. 0)" "weak_refs_list [] = (\<lambda>_. 0)"
  "strong_refs_list (x # xs) = (\<lambda>a. strong_refs x a + strong_refs_list xs a)"
  "weak_refs_list (x # xs) = (\<lambda>a. weak_refs x a + weak_refs_list xs a)"
  by (simp_all add: fun_eq_iff)

lemma copy_value_bump:
  "copy_ok v \<Longrightarrow> refs_exist (strong_refs v) w \<Longrightarrow> refs_exist (weak_refs v) w \<Longrightarrow>
   di_copy_value v w = Ret (copied v, bump (strong_refs v) (weak_refs v) w)"
  and copy_elems_bump:
  "\<forall>v \<in> set vs. copy_ok v \<Longrightarrow> refs_exist (strong_refs_list vs) w \<Longrightarrow> refs_exist (weak_refs_list vs) w \<Longrightarrow>
   di_copy_elems vs w = Ret (map copied vs, bump (strong_refs_list vs) (weak_refs_list vs) w)"
proof (induction v w and vs w rule: di_copy_value_di_copy_elems.induct)
  case (1 t a w)
  then obtain k where k: "di_sizeof_type t = Ret k" "k \<noteq> 0"
    using sizeof_value [of t] di_sizeof_type_0 [of t] by auto
  show ?case
  proof (cases a)
    case None
    then show ?thesis using k by (simp add: fun_eq_iff refs_array_fun)
  next
    case (Some xs)
    then show ?thesis using k 1 by (simp add: refs_array_fun)
  qed
next
  case (2 xs w)
  then show ?case by (simp add: refs_array_fun)
next
  case (3 v w)
  then obtain k where "di_sizeof_type (di_typeof v) = Ret k" using sizeof_value copy_ok_value by fastforce
  with 3 show ?case by (simp add: refs_array_fun)
next
  case (5 p w)
  then show ?case by (auto simp: one_at_refs refs_scalar_fun refs_exist_one di_ref_object_bump)
next
  case (6 p w)
  then show ?case by (auto simp: one_at_refs refs_scalar_fun refs_exist_one di_weakly_ref_object_bump)
next
  case (10 x xs w)
  then obtain k where k: "di_sizeof_type (di_typeof x) = Ret k" using sizeof_value copy_ok_value by fastforce
  have ex: "refs_exist (strong_refs x) w" "refs_exist (weak_refs x) w"
    "refs_exist (strong_refs_list xs) w" "refs_exist (weak_refs_list xs) w"
    using 10(4,5) by (simp_all add: refs_list_fun refs_exist_add)
  note x = 10(1) [OF k _ ex(1,2)]
  with 10 k ex show ?case by (simp add: refs_list_fun bump_bump add.commute)
qed (auto simp: refs_scalar_fun refs_list_fun)

section \<open>Freeing a copy\<close>

text \<open>
  \<open>has_room s k w\<close>: objects that would gain strong references are alive, and no counter would
  overflow.
\<close>

definition has_room :: "(oref \<Rightarrow> nat) \<Rightarrow> (oref \<Rightarrow> nat) \<Rightarrow> world \<Rightarrow> bool" where
  "has_room s k w \<longleftrightarrow>
     (\<forall>p. 0 < s p \<longrightarrow> (\<exists>x. heap w p = Some x \<and> ref_count x \<noteq> 0 \<and> unat (ref_count x) + s p < 2 ^ 64)) \<and>
     (\<forall>p. 0 < k p \<longrightarrow> (\<exists>x. heap w p = Some x \<and> weak_ref_count x \<noteq> 0 \<and> unat (weak_ref_count x) + k p < 2 ^ 64))"

lemma has_roomD:
  assumes "has_room s k w"
  shows "0 < s p \<Longrightarrow> \<exists>x. heap w p = Some x \<and> ref_count x \<noteq> 0 \<and> unat (ref_count x) + s p < 2 ^ 64"
    "0 < k p \<Longrightarrow> \<exists>x. heap w p = Some x \<and> weak_ref_count x \<noteq> 0 \<and> unat (weak_ref_count x) + k p < 2 ^ 64"
  using assms unfolding has_room_def by blast+

lemma has_room_exist: "has_room s k w \<Longrightarrow> refs_exist s w \<and> refs_exist k w"
  by (auto simp: refs_exist_def dest: has_roomD)

lemma unat_plus_of_nat: "unat r + n < 2 ^ 64 \<Longrightarrow> unat (r + of_nat n :: 64 word) = unat r + n"
  by (simp add: unat_word_ariths unat_of_nat take_bit_eq_mod mod_add_right_eq)

lemma plus_of_nat_nz: "r \<noteq> 0 \<Longrightarrow> unat r + n < 2 ^ 64 \<Longrightarrow> r + of_nat n \<noteq> (0 :: 64 word)"
  by (metis add_eq_0_iff_both_eq_0 unat_0 unat_eq_zero unat_plus_of_nat)

lemma has_room_split:
  assumes "has_room (\<lambda>a. s a + t a) (\<lambda>a. k a + l a) w"
  shows "has_room s k w" "has_room s k (bump t l w)"
proof -
  have s: "\<exists>x. heap w p = Some x \<and> ref_count x \<noteq> 0 \<and> unat (ref_count x) + (s p + t p) < 2 ^ 64" if "0 < s p" for p
    using has_roomD(1) [OF assms, of p] that by simp
  have k: "\<exists>x. heap w p = Some x \<and> weak_ref_count x \<noteq> 0 \<and> unat (weak_ref_count x) + (k p + l p) < 2 ^ 64" if "0 < k p" for p
    using has_roomD(2) [OF assms, of p] that by simp
  show "has_room s k w" using s k unfolding has_room_def by (meson add_leD1 add_le_mono le_less_trans le_refl le_add1)
  have "\<exists>x. heap (bump t l w) p = Some x \<and> ref_count x \<noteq> 0 \<and> unat (ref_count x) + s p < 2 ^ 64" if "0 < s p" for p
    using s [OF that] by (auto simp: heap_bump bump_object_def unat_plus_of_nat plus_of_nat_nz)
  moreover have "\<exists>x. heap (bump t l w) p = Some x \<and> weak_ref_count x \<noteq> 0 \<and> unat (weak_ref_count x) + k p < 2 ^ 64" if "0 < k p" for p
    using k [OF that] by (auto simp: heap_bump bump_object_def unat_plus_of_nat plus_of_nat_nz)
  ultimately show "has_room s k (bump t l w)" unfolding has_room_def by blast
qed

lemma unref_bump:
  assumes "heap w p = Some x" "ref_count x \<noteq> 0" "unat (ref_count x) + 1 < 2 ^ 64"
  shows "di_unref_object E (Suc n) p (bump (one_at p) (\<lambda>_. 0) w) = Ret w"
proof -
  have "ref_count x + 1 \<noteq> 0" using plus_of_nat_nz [of "ref_count x" 1] assms by simp
  moreover have "put_obj p x w = w" using assms(1) by (simp add: put_obj_def fun_upd_idem)
  moreover have "x\<lparr>ref_count := ref_count x\<rparr> = x" by (cases x) simp
  ultimately show ?thesis using assms(1,2)
    by (simp add: unref_step_def get_obj_def bump_one Let_def word_gt_0) (simp add: put_obj_def)
qed

lemma drop_weak_bump:
  assumes "heap w p = Some x" "weak_ref_count x \<noteq> 0"
  shows "di_drop_weak_ref p (bump (\<lambda>_. 0) (one_at p) w) = Ret w"
proof -
  have "put_obj p x w = w" using assms(1) by (simp add: put_obj_def fun_upd_idem)
  moreover have "x\<lparr>weak_ref_count := weak_ref_count x\<rparr> = x" by (cases x) simp
  ultimately show ?thesis using assms
    by (simp add: di_drop_weak_ref_def di_decrement_weak_ref_count_def get_obj_def bump_one Let_def) (simp add: put_obj_def)
qed

lemma free_value_bump:
  "U = di_unref_object E (Suc n) \<Longrightarrow> free_ok v \<Longrightarrow> has_room (strong_refs v) (weak_refs v) w \<Longrightarrow>
   w' = bump (strong_refs v) (weak_refs v) w \<Longrightarrow> di_free_value U v w' = Ret w"
  and free_elems_bump:
  "U = di_unref_object E (Suc n) \<Longrightarrow> \<forall>v \<in> set vs. free_ok v \<Longrightarrow> has_room (strong_refs_list vs) (weak_refs_list vs) w \<Longrightarrow>
   w' = bump (strong_refs_list vs) (weak_refs_list vs) w \<Longrightarrow> di_free_elems U vs w' = Ret w"
proof (induction U v w' and U vs w' arbitrary: w and w rule: di_free_value_di_free_elems.induct)
  case (2 U t xs w)
  then obtain k where "di_sizeof_type t = Ret k" using sizeof_value by fastforce
  with 2 show ?case by (auto simp: refs_array_fun)
next
  case (5 U p w')
  then obtain x where "heap w p = Some x" "ref_count x \<noteq> 0" "unat (ref_count x) + 1 < 2 ^ 64"
    using has_roomD(1) [OF 5(3), of p] by auto
  then show ?case using unref_bump 5(1,4) by (simp add: one_at_refs refs_scalar_fun del: di_unref_object.simps)
next
  case (6 U p w')
  then obtain x where "heap w p = Some x" "weak_ref_count x \<noteq> 0"
    using has_roomD(2) [OF 6(3), of p] by auto
  then show ?case using drop_weak_bump 6(4) by (simp add: one_at_refs refs_scalar_fun)
next
  case (10 U x xs w')
  let ?w = "bump (strong_refs_list xs) (weak_refs_list xs) w"
  have room: "has_room (\<lambda>a. strong_refs x a + strong_refs_list xs a) (\<lambda>a. weak_refs x a + weak_refs_list xs a) w"
    using 10(5) by (simp add: refs_list_fun)
  have x: "di_free_value U x w' = Ret ?w"
    by (rule 10(1) [OF 10(3)]) (use 10(4,6) has_room_split(2) [OF room] in \<open>simp_all add: bump_bump refs_list_fun\<close>)
  have "has_room (strong_refs_list xs) (weak_refs_list xs) w"
    using has_room_split(1) [of "strong_refs_list xs" "strong_refs x" "weak_refs_list xs" "weak_refs x" w] room
    by (simp add: add.commute)
  then have "di_free_elems U xs ?w = Ret w" using 10(2) [OF x 10(3)] 10(4) by simp
  then show ?case using x by simp
qed (auto simp: refs_array_fun refs_scalar_fun refs_list_fun)

section \<open>The invariant\<close>

lemma bump_object_simps [simp]:
  "members (bump_object s k x) = members x" "payload (bump_object s k x) = payload x"
  "destroyed (bump_object s k x) = destroyed x" "dtor (bump_object s k x) = dtor x"
  "obj_values (bump_object s k x) = obj_values x"
  by (simp_all add: bump_object_def obj_values_def)

lemma same_body_bump: "same_body x (bump_object s k x)"
  by (simp add: same_body_def bump_object_def)

lemma dom_bump [simp]: "dom (heap (bump s k w)) = dom (heap w)"
  by (auto simp: heap_bump)

lemma sum_entries_bump: "(\<And>s k x. f (bump_object s k x) = f x) \<Longrightarrow> sum_entries f (heap (bump s k w)) = sum_entries f (heap w)"
  unfolding sum_entries_def by (intro sum.cong) (auto simp: heap_bump)

lemma cnt_bump [simp]: "strong_cnt (bump s k w) = strong_cnt w" "weak_cnt (bump s k w) = weak_cnt w"
  "weight (bump s k w) = weight w"
  by (simp_all add: strong_cnt_def weak_cnt_def weight_def fun_eq_iff sum_entries_bump)

lemma counts_ok_bump:
  assumes ok: "counts_ok S W w" and room: "has_room s k w"
  shows "counts_ok (\<lambda>a. S a + s a) (\<lambda>a. W a + k a) (bump s k w)"
proof (rule counts_okI)
  fix p y assume y: "heap (bump s k w) p = Some y"
  then obtain x where x: "heap w p = Some x" "y = bump_object (s p) (k p) x" by (auto simp: heap_bump)
  note c = counts_okD(3) [OF ok x(1)]
  have "unat (ref_count y) = unat (ref_count x) + s p \<and> (ref_count y = 0) = (ref_count x = 0)"
    using has_roomD(1) [OF room, of p] x
    by (cases "s p = 0") (auto simp: bump_object_def unat_plus_of_nat plus_of_nat_nz)
  moreover have "unat (weak_ref_count y) = unat (weak_ref_count x) + k p \<and> (weak_ref_count y = 0) = (weak_ref_count x = 0)"
    using has_roomD(2) [OF room, of p] x
    by (cases "k p = 0") (auto simp: bump_object_def unat_plus_of_nat plus_of_nat_nz)
  ultimately show "object_counts_ok (\<lambda>a. S a + s a) (\<lambda>a. W a + k a) (bump s k w) p y"
    using c by (auto simp: object_counts_ok_def)
next
  fix p assume "heap (bump s k w) p = None"
  then have n: "heap w p = None" by (simp add: heap_bump)
  then have "s p = 0" "k p = 0" using has_roomD [OF room, of p] by fastforce+
  then show "strong_cnt (bump s k w) p + (S p + s p) = 0 \<and> weak_cnt (bump s k w) p + (W p + k p) = 0"
    using counts_okD(4) [OF ok n] by simp
qed (use counts_okD(1,2) [OF ok] in simp_all)

lemma rc_inv_bump:
  assumes inv: "rc_inv F S W w" and room: "has_room s k w"
  shows "rc_inv F (\<lambda>a. S a + s a) (\<lambda>a. W a + k a) (bump s k w)"
proof -
  note I = rc_invD [OF inv]
  have "obj_inv F p y" if y: "heap (bump s k w) p = Some y" for p y
  proof -
    obtain x where x: "heap w p = Some x" "y = bump_object (s p) (k p) x" using y by (auto simp: heap_bump)
    have "ref_count x = 0" if "ref_count y = 0"
      using that has_roomD(1) [OF room, of p] x
      by (cases "s p = 0") (auto simp: bump_object_def plus_of_nat_nz)
    then have "ref_count y = 0 \<Longrightarrow> p \<notin> F \<Longrightarrow> obj_values x = []" using I(4) [OF x(1)] by (simp add: obj_inv_def)
    then show ?thesis using obj_inv_same_body [OF I(4) [OF x(1)] same_body_bump] x(2) by simp
  qed
  moreover have "\<exists>y. heap (bump s k w) p = Some y \<and> destroyed y" if "p \<in> F" for p
    using I(3) [OF that] by (auto simp: heap_bump)
  ultimately show ?thesis using counts_ok_bump [OF I(1) room] I(2) by (auto simp: rc_inv_def)
qed

lemma refs_copied [simp]:
  "strong_refs (copied v) = strong_refs v" "weak_refs (copied v) = weak_refs v"
proof -
  have "strong_refs (copied v) a = strong_refs v a \<and> weak_refs (copied v) a = weak_refs v a" for a
    by (induction v rule: copied.induct)
      (auto simp: strong_refs_list_def weak_refs_list_def comp_def intro!: arg_cong [of _ _ sum_list] map_cong)
  then show "strong_refs (copied v) = strong_refs v" "weak_refs (copied v) = weak_refs v" by (auto simp: fun_eq_iff)
qed

text \<open>A copy has storage for every array in it, also for one without elements, and that is what cannot be freed.\<close>

fun has_empty_array :: "di_value \<Rightarrow> bool" where
  "has_empty_array (VArray t a) = (array_elems a = [] \<or> (\<exists>x \<in> set (array_elems a). has_empty_array x))"
| "has_empty_array (VTuple xs) = (\<exists>x \<in> set xs. has_empty_array x)"
| "has_empty_array (VVariant v) = has_empty_array v"
| "has_empty_array v = False"

lemma free_ok_copied: "copy_ok v \<Longrightarrow> free_ok (copied v) = (\<not> has_empty_array v)"
  by (induction v rule: has_empty_array.induct) auto

lemma copy_ok_copied: "copy_ok v \<Longrightarrow> copy_ok (copied v)"
  by (induction v rule: copied.induct) auto

lemma free_value_aborts:
  "U = di_unref_object E (Suc n) \<Longrightarrow> copy_ok v \<Longrightarrow> \<not> free_ok v \<Longrightarrow> has_room (strong_refs v) (weak_refs v) w \<Longrightarrow>
   w' = bump (strong_refs v) (weak_refs v) w \<Longrightarrow> di_free_value U v w' = Fault (Aborted ''di_free_array'')"
  and free_elems_aborts:
  "U = di_unref_object E (Suc n) \<Longrightarrow> \<forall>v \<in> set vs. copy_ok v \<Longrightarrow> \<exists>v \<in> set vs. \<not> free_ok v \<Longrightarrow>
   has_room (strong_refs_list vs) (weak_refs_list vs) w \<Longrightarrow>
   w' = bump (strong_refs_list vs) (weak_refs_list vs) w \<Longrightarrow> di_free_elems U vs w' = Fault (Aborted ''di_free_array'')"
proof (induction U v w' and U vs w' arbitrary: w and w rule: di_free_value_di_free_elems.induct)
  case (2 U t xs w)
  then obtain k where "di_sizeof_type t = Ret k" using sizeof_value by fastforce
  with 2 show ?case by (auto simp: refs_array_fun)
next
  case (10 U x xs w')
  let ?w = "bump (strong_refs_list xs) (weak_refs_list xs) w"
  have room: "has_room (\<lambda>a. strong_refs x a + strong_refs_list xs a) (\<lambda>a. weak_refs x a + weak_refs_list xs a) w"
    using 10(6) by (simp add: refs_list_fun)
  have w': "w' = bump (strong_refs x) (weak_refs x) ?w" using 10(7) by (simp add: bump_bump refs_list_fun)
  show ?case
  proof (cases "free_ok x")
    case True
    have x: "di_free_value U x w' = Ret ?w" by (rule free_value_bump [OF 10(3) True has_room_split(2) [OF room] w'])
    have "has_room (strong_refs_list xs) (weak_refs_list xs) w"
      using has_room_split(1) [of "strong_refs_list xs" "strong_refs x" "weak_refs_list xs" "weak_refs x" w] room
      by (simp add: add.commute)
    then have "di_free_elems U xs ?w = Fault (Aborted ''di_free_array'')" using 10(2) [OF x 10(3)] 10(4,5) True by auto
    then show ?thesis using x by simp
  next
    case False
    then show ?thesis using 10(1) [OF 10(3) _ False has_room_split(2) [OF room] w'] 10(4) by simp
  qed
qed (auto simp: refs_array_fun refs_scalar_fun refs_list_fun)

text \<open>
  C4. Copying a value and freeing the copy leaves the heap exactly as it was, unless the value is or
  contains an array without elements.  The copy raises the counters of the objects the value refers to
  by the number of references and changes nothing else.  A copied array without elements has storage, on
  which \<open>di_free_array\<close> aborts: for values with such an array inside, and only for those, freeing the copy stops
  the process.  The value must be one that can be copied: the bottom type occurs nowhere in it, and its
  arrays have a definite element type.
\<close>

theorem di_copy_value_free_roundtrip:
  assumes "copy_ok v" and "has_room (strong_refs v) (weak_refs v) w"
  shows "di_copy_value v w = Ret (copied v, bump (strong_refs v) (weak_refs v) w) \<and>
    di_free_value (di_unref_object E (Suc n)) (copied v) (bump (strong_refs v) (weak_refs v) w) =
      (if has_empty_array v then Fault (Aborted ''di_free_array'') else Ret w)"
  using copy_value_bump [OF assms(1)] has_room_exist [OF assms(2)] free_value_bump [OF refl, of "copied v"]
    free_value_aborts [OF refl copy_ok_copied [OF assms(1)]] free_ok_copied [OF assms(1)] assms(2)
  by (simp del: di_unref_object.simps)

text \<open>
  Copying an array without elements gives one that cannot be freed, whatever its element type:
  the copy has storage, and \<open>di_free_array\<close> aborts on an empty array whose storage pointer is not
  null.  An untyped empty array cannot even be copied.
\<close>

theorem di_copy_empty_array_unfreeable:
  "(\<exists>v w'. di_copy_value (VArray t None) w = Ret (v, w') \<and> di_free_value U v w' = Fault (Aborted ''di_free_array'')) \<or>
   (t = DI_TYPE_NIL \<or> no_value t) \<and> (\<exists>m. di_copy_value (VArray t None) w = Fault (Aborted m))"
  by (cases t) (auto simp: no_value_def)

end
