(* ===== verification/Members.thy ===== *)
theory Members
  imports ValueCopy
begin

text \<open>
  Members of live objects: what adding, reading and removing a member does to the table of the object
  and to the references of the heap.  The abstract view of an object is the finite map from member
  names to values.
\<close>

section \<open>Fresh addresses\<close>

definition fresh_ok :: "world \<Rightarrow> bool" where
  "fresh_ok w \<longleftrightarrow> (\<forall>p x. heap w p = Some x \<longrightarrow> p < next_addr w \<and> (\<forall>e \<in> set (members x). m_addr (snd e) < next_addr w))"

definition world_ok :: "(oref \<Rightarrow> nat) \<Rightarrow> (oref \<Rightarrow> nat) \<Rightarrow> world \<Rightarrow> bool" where
  "world_ok S W w \<longleftrightarrow> rc_inv {} S W w \<and> fresh_ok w"

lemma world_okD: "world_ok S W w \<Longrightarrow> rc_inv {} S W w" "world_ok S W w \<Longrightarrow> fresh_ok w"
  by (simp_all add: world_ok_def)

lemma fresh_okD: "fresh_ok w \<Longrightarrow> heap w p = Some x \<Longrightarrow> p < next_addr w"
  "fresh_ok w \<Longrightarrow> heap w p = Some x \<Longrightarrow> e \<in> set (members x) \<Longrightarrow> m_addr (snd e) < next_addr w"
  by (auto simp: fresh_ok_def)

lemma fresh_ok_next: "fresh_ok w \<Longrightarrow> heap w (next_addr w) = None"
  using fresh_okD(1) [of w "next_addr w"] by (cases "heap w (next_addr w)") auto

lemma fresh_ok_shrinks:
  assumes "shrinks w w'" "fresh_ok w"
  shows "fresh_ok w'"
  unfolding fresh_ok_def
proof (intro allI impI conjI ballI)
  fix p y e assume y: "heap w' p = Some y"
  then obtain x where x: "heap w p = Some x" "set (members y) \<subseteq> set (members x)"
    using shrinksD [OF assms(1)] reducedD(3) by blast
  have eq: "next_addr w' = next_addr w" using assms(1) by (simp add: shrinks_def)
  show "p < next_addr w'" using fresh_okD(1) [OF assms(2) x(1)] eq by simp
  show "e \<in> set (members y) \<Longrightarrow> m_addr (snd e) < next_addr w'"
    using fresh_okD(2) [OF assms(2) x(1), of e] x(2) eq by auto
qed

lemma fresh_ok_bump [simp]: "fresh_ok (bump s k w) = fresh_ok w"
  by (fastforce simp: fresh_ok_def heap_bump)

lemma world_ok_bump: "world_ok S W w \<Longrightarrow> has_room s k w \<Longrightarrow> world_ok (\<lambda>a. S a + s a) (\<lambda>a. W a + k a) (bump s k w)"
  by (simp add: world_ok_def rc_inv_bump)

lemma world_ok_held:
  assumes "world_ok S W w" "0 < S p"
  shows "\<exists>x. heap w p = Some x \<and> ref_count x \<noteq> 0"
proof -
  note I = rc_invD [OF world_okD(1) [OF assms(1)]]
  obtain x where x: "heap w p = Some x" using counts_ok_live [OF I(1), of p] assms(2) by auto
  then show ?thesis using counts_okD(3) [OF I(1) x] assms(2) by (auto simp: object_counts_ok_def)
qed

text \<open>A new object: the caller holds the only reference.\<close>

lemma alloc_object_ok:
  assumes ok: "world_ok S W w"
  shows "world_ok (\<lambda>a. S a + one_at (next_addr w) a) W (snd (alloc_object w))"
proof -
  let ?p = "next_addr w" and ?w = "snd (alloc_object w)"
  note inv = world_okD(1) [OF ok] and fr = world_okD(2) [OF ok]
  note I = rc_invD [OF inv]
  have h: "heap ?w = (heap w)(?p \<mapsto> empty_object)" "sigs ?w = sigs w" "next_addr ?w = Suc ?p"
    by (simp_all add: alloc_object_def Let_def)
  have none: "heap w ?p = None" using fresh_ok_next [OF fr] .
  have e: "obj_values empty_object = []" "members empty_object = []" "dtor_ok empty_object" "object_ok empty_object"
    by (simp_all add: empty_object_def obj_values_def dtor_ok_def object_ok_def)
  have cnt: "strong_cnt ?w a = strong_cnt w a" "weak_cnt ?w a = weak_cnt w a" for a
    by (simp_all add: strong_cnt_def weak_cnt_def h sum_entries_insert [OF I(5) none] e)
  have "counts_ok (\<lambda>a. S a + one_at ?p a) W ?w"
  proof (rule counts_okI)
    show "finite (dom (heap ?w))" "finite (dom (sigs ?w))" using I(5) counts_okD(2) [OF I(1)] by (simp_all add: h)
    fix q
    show "object_counts_ok (\<lambda>a. S a + one_at ?p a) W ?w q z" if "heap ?w q = Some z" for z
      using that counts_okD(3) [OF I(1), of q z] counts_okD(4) [OF I(1) none]
      by (auto simp: object_counts_ok_def h cnt empty_object_def split: if_splits)
    show "strong_cnt ?w q + (S q + one_at ?p q) = 0 \<and> weak_cnt ?w q + W q = 0" if "heap ?w q = None"
      using that counts_okD(4) [OF I(1), of q] by (auto simp: h cnt split: if_splits)
  qed
  moreover have "obj_inv {} q z" if "heap ?w q = Some z" for q z
    using that I(4) [of q z] e by (auto simp: h obj_inv_def split: if_splits)
  moreover have "fresh_ok ?w" using fr by (auto simp: fresh_ok_def h e less_SucI)
  ultimately show ?thesis by (simp add: world_ok_def rc_inv_def)
qed

lemma cnt_next_addr [simp]:
  "strong_cnt (w\<lparr>next_addr := k\<rparr>) = strong_cnt w" "weak_cnt (w\<lparr>next_addr := k\<rparr>) = weak_cnt w"
  by (simp_all add: strong_cnt_def weak_cnt_def fun_eq_iff)

lemma rc_inv_next_addr [simp]: "rc_inv F S W (w\<lparr>next_addr := k\<rparr>) = rc_inv F S W w"
  by (simp add: rc_inv_def counts_ok_def object_counts_ok_def cong: option.case_cong)

section \<open>The member table\<close>

definition member_map :: "oref \<Rightarrow> world \<Rightarrow> string \<Rightarrow> di_value option" where
  "member_map p w n = (case heap w p of None \<Rightarrow> None | Some x \<Rightarrow> map_option m_val (hash_find n (members x)))"

lemma check_new_member_None: "check_new_member x n = None \<Longrightarrow> hash_find n (members x) = None"
  by (simp add: check_new_member_def split: if_splits)

lemma check_new_member_EEXIST: "hash_find n (members x) \<noteq> None \<Longrightarrow> check_new_member x n = Some EEXIST"
  by (simp add: check_new_member_def)

definition with_member :: "oref \<Rightarrow> di_object_internal \<Rightarrow> string \<Rightarrow> di_value \<Rightarrow> world \<Rightarrow> world" where
  "with_member p x n v w = (put_obj p (x\<lparr>members := hash_add n \<lparr>m_addr = next_addr w, m_val = v\<rparr> (members x)\<rparr>) w)
     \<lparr>next_addr := Suc (next_addr w)\<rparr>"

lemma di_insert_member_Ret:
  "heap w p = Some x \<Longrightarrow> di_insert_member p n v w =
     Ret (case check_new_member x n of Some e \<Rightarrow> (Inl e, w) | None \<Rightarrow> (Inr (), with_member p x n v w))"
  by (simp add: di_insert_member_def get_obj_def with_member_def split: option.splits)

lemma member_map_with_member:
  assumes "table_ok (members x)" "hash_find n (members x) = None" "heap w p = Some x"
  shows "member_map q (with_member p x n v w) = (if q = p then (member_map p w)(n \<mapsto> v) else member_map q w)"
  using alist.find_add [OF assms(1,2)] assms(3)
  by (auto simp: member_map_def with_member_def fun_eq_iff split: option.splits)

lemma with_member_values: "obj_values (x\<lparr>members := hash_add n m (members x)\<rparr>) =
    member_values (members x) @ [m_val m] @ payload_values (payload x)"
  by (simp add: obj_values_def hash_add_def)

text \<open>A value moved into a member table: the references leave the caller and enter the heap.\<close>

lemma with_member_ok:
  assumes ok: "world_ok (\<lambda>a. S a + strong_refs v a) (\<lambda>a. W a + weak_refs v a) w"
    and x: "heap w p = Some x" "ref_count x \<noteq> 0" "\<not> destroyed x" and n: "check_new_member x n = None" and v: "free_ok v"
  shows "world_ok S W (with_member p x n v w)"
proof -
  note inv = world_okD(1) [OF ok] and fr = world_okD(2) [OF ok]
  note I = rc_invD [OF inv]
  let ?m = "\<lparr>m_addr = next_addr w, m_val = v\<rparr>"
  let ?y = "x\<lparr>members := hash_add n ?m (members x)\<rparr>"
  have px: "object_ok x" "dtor_ok x" using I(4) [OF x(1)] x(3) by (simp_all add: obj_inv_def)
  have nf: "hash_find n (members x) = None" by (rule check_new_member_None [OF n])
  have cy: "counts_ok S W (put_obj p ?y w)"
    by (rule counts_ok_put [OF I(1) x(1)]) (simp_all add: with_member_values, simp_all add: obj_values_def)
  have "table_ok (hash_add n ?m (members x))" using alist.invar_add [OF _ nf] px(1) by (simp add: object_ok_def)
  moreover have "distinct (map (\<lambda>e. m_addr (snd e)) (hash_add n ?m (members x)))"
    using px(1) fresh_okD(2) [OF fr x(1)] by (fastforce simp: object_ok_def hash_add_def)
  ultimately have oy: "object_ok ?y" using px(1) v by (auto simp: object_ok_def with_member_values) (auto simp: obj_values_def)
  have "hash_find ''__type'' (hash_add n ?m (members x)) = hash_find ''__type'' (members x)"
    if "hash_find ''__type'' (members x) \<noteq> None"
    using that alist.find_add [of "members x" n "''__type''" ?m] px(1) nf by (auto simp: object_ok_def)
  then have dy: "dtor_ok ?y" using px(2) by (auto simp: dtor_ok_def split: option.splits dtor_fn.splits)
  have "rc_inv {} S W (put_obj p ?y w)"
    by (rule rc_inv_put [OF inv cy]) (use oy dy x in \<open>simp_all add: obj_inv_def\<close>)
  then have "rc_inv {} S W (with_member p x n v w)" by (simp add: with_member_def)
  moreover have "fresh_ok (with_member p x n v w)"
    using fr x(1) by (auto simp: fresh_ok_def with_member_def hash_add_def less_SucI)
  ultimately show ?thesis by (simp add: world_ok_def)
qed

section \<open>Operations\<close>

text \<open>An object to which somebody holds a reference is not destroyed by dropping others.\<close>

lemma live_body_kept:
  assumes ok: "world_ok S W w'" and sh: "shrinks w w'" and S: "0 < S p" and x: "heap w p = Some x" "\<not> destroyed x"
  shows "\<exists>y. heap w' p = Some y \<and> same_body x y"
proof -
  obtain y where y: "heap w' p = Some y" "ref_count y \<noteq> 0" using world_ok_held [OF ok S] by blast
  have "reduced x y" using shrinksD [OF sh y(1)] x(1) by auto
  then show ?thesis using y reducedD(1,2) x(2) by blast
qed

lemma live_members_kept:
  assumes "world_ok S W w'" "shrinks w w'" "0 < S p" "heap w p = Some x" "\<not> destroyed x"
  shows "member_map p w' = member_map p w"
  using live_body_kept [OF assms] assms(4) by (auto simp: member_map_def same_body_def fun_eq_iff)

lemma sizeof_copyable: "copy_ok v \<Longrightarrow> v \<noteq> VNil \<Longrightarrow> \<exists>k. di_sizeof_type (di_typeof v) = Ret k \<and> k \<noteq> 0"
  using sizeof_value [OF copy_ok_value, of v] di_sizeof_type_0 [of "di_typeof v"] by (cases v) auto

text \<open>\<open>di_add_member_move\<close>: the value goes into the table, or is freed when the name is refused.\<close>

lemma di_add_member_Ret:
  assumes "heap w p = Some x" "check_new_member x n = None"
  shows "di_add_member U p (Some n) v w = Ret (Inr (), with_member p x n v w)"
  using assms by (simp add: di_add_member_def di_insert_member_Ret)

lemma free_value_ok:
  assumes ok: "world_ok (\<lambda>a. S a + strong_refs v a) (\<lambda>a. W a + weak_refs v a) w" and "free_ok v" and "weight w < n"
  shows "\<exists>w'. di_free_value (di_unref_object E n) v w = Ret w' \<and> world_ok S W w' \<and> shrinks w w'"
proof -
  obtain w' where w': "di_free_value (di_unref_object E n) v w = Ret w'" "settled {} S W w w'"
    using unref.free_value [OF world_okD(1) [OF ok] _ assms(2,3), of E] by auto
  then have "shrinks w w'" by (simp add: settled_def keeps_def)
  with w' show ?thesis using fresh_ok_shrinks [OF _ world_okD(2) [OF ok]] by (auto simp: world_ok_def settled_def)
qed

lemma add_member_move_step:
  assumes ok: "world_ok (\<lambda>a. S a + strong_refs v a) (\<lambda>a. W a + weak_refs v a) w" and S: "0 < S p"
    and x: "heap w p = Some x" "\<not> destroyed x" and v: "copy_ok v" "free_ok v" "v \<noteq> VNil" and n: "weight w < n"
  shows "\<exists>w'. di_add_member_move (di_unref_object E n) p (Some name) v w =
      Ret (case check_new_member x name of None \<Rightarrow> Inr () | Some e \<Rightarrow> Inl e, w') \<and> world_ok S W w' \<and>
    (if check_new_member x name = None then w' = with_member p x name v w else shrinks w w')"
proof -
  obtain k where k: "di_sizeof_type (di_typeof v) = Ret k" "k \<noteq> 0" using sizeof_copyable v by blast
  have rc: "ref_count x \<noteq> 0" using world_ok_held [OF ok, of p] S x(1) by auto
  show ?thesis
  proof (cases "check_new_member x name")
    case None
    then show ?thesis using with_member_ok [OF ok x(1) rc x(2) None v(2)] k di_add_member_Ret [OF x(1) None]
      by (simp add: di_add_member_move_def)
  next
    case (Some e)
    then show ?thesis using free_value_ok [OF ok v(2) n, of E] k x(1)
      by (auto simp: di_add_member_move_def di_add_member_def di_insert_member_Ret)
  qed
qed

text \<open>
  C5. Adding a member by move.  The references of the value go from the caller into the object; when
  the name is already taken or not allowed, the value is freed.  In both cases the caller no longer
  owns them, every counter stays right, and the map of members is extended by exactly the new name
  or, on refusal, stays as it was.
\<close>

theorem di_add_member_move_ok:
  assumes ok: "world_ok (\<lambda>a. S a + strong_refs v a) (\<lambda>a. W a + weak_refs v a) w" and S: "0 < S p"
    and x: "heap w p = Some x" "\<not> destroyed x" and v: "copy_ok v" "free_ok v" "v \<noteq> VNil" and n: "weight w < n"
  shows "\<exists>r w'. di_add_member_move (di_unref_object E n) p (Some name) v w = Ret (r, w') \<and> world_ok S W w' \<and>
    (case check_new_member x name of
       None \<Rightarrow> r = Inr () \<and> member_map p w' = (member_map p w)(name \<mapsto> v)
     | Some e \<Rightarrow> r = Inl e \<and> member_map p w' = member_map p w)"
proof -
  obtain w' where w': "di_add_member_move (di_unref_object E n) p (Some name) v w =
      Ret (case check_new_member x name of None \<Rightarrow> Inr () | Some e \<Rightarrow> Inl e, w')" "world_ok S W w'"
    "if check_new_member x name = None then w' = with_member p x name v w else shrinks w w'"
    using add_member_move_step [OF assms] by blast
  have t: "table_ok (members x)" using rc_invD(4) [OF world_okD(1) [OF ok] x(1)] by (simp add: obj_inv_def object_ok_def)
  show ?thesis
  proof (cases "check_new_member x name")
    case None
    then show ?thesis using w' member_map_with_member [OF t check_new_member_None [OF None] x(1)] by simp
  next
    case (Some e)
    then show ?thesis using w' live_members_kept [OF w'(2) _ S x] by simp
  qed
qed

lemma rawgetx_step:
  assumes x: "heap w p = Some x"
    and v: "\<And>v. member_map p w name = Some v \<Longrightarrow> copy_ok v \<and> v \<noteq> VNil \<and> has_room (strong_refs v) (weak_refs v) w"
  shows "di_rawgetx p (Some name) w =
    Ret (case member_map p w name of
        None \<Rightarrow> (Inl ENOENT, w)
      | Some v \<Rightarrow> (Inr (copied v), bump (strong_refs v) (weak_refs v) w))"
proof (cases "hash_find name (members x)")
  case None
  then show ?thesis using x by (simp add: member_map_def di_rawgetx_def di_lookup_def get_obj_def)
next
  case (Some m)
  then have mm: "member_map p w name = Some (m_val m)" using x by (simp add: member_map_def)
  note v' = v [OF mm]
  obtain k where k: "di_sizeof_type (di_typeof (m_val m)) = Ret k" "k \<noteq> 0" using sizeof_copyable v' by blast
  have "di_copy_value (m_val m) w = Ret (copied (m_val m), bump (strong_refs (m_val m)) (weak_refs (m_val m)) w)"
    using copy_value_bump has_room_exist v' by blast
  then show ?thesis using Some x k mm by (simp add: di_rawgetx_def di_lookup_def get_obj_def)
qed

lemma member_map_bump [simp]: "member_map p (bump s k w) = member_map p w"
  by (auto simp: member_map_def heap_bump fun_eq_iff split: option.splits)

text \<open>
  C7. Reading a member hands out a copy: the counters of what the value refers to go up by the copy's
  references, the member stays, and every counter is right.  A missing member is \<open>-ENOENT\<close> and
  changes nothing.
\<close>

theorem di_rawgetx_ok:
  assumes ok: "world_ok S W w" and x: "heap w p = Some x"
    and v: "\<And>v. member_map p w name = Some v \<Longrightarrow> copy_ok v \<and> v \<noteq> VNil \<and> has_room (strong_refs v) (weak_refs v) w"
  shows "case member_map p w name of
      None \<Rightarrow> di_rawgetx p (Some name) w = Ret (Inl ENOENT, w)
    | Some v \<Rightarrow> \<exists>w'. di_rawgetx p (Some name) w = Ret (Inr (copied v), w') \<and> member_map p w' = member_map p w \<and>
        world_ok (\<lambda>a. S a + strong_refs v a) (\<lambda>a. W a + weak_refs v a) w'"
proof -
  have r: "di_rawgetx p (Some name) w =
    Ret (case member_map p w name of
        None \<Rightarrow> (Inl ENOENT, w)
      | Some v \<Rightarrow> (Inr (copied v), bump (strong_refs v) (weak_refs v) w))"
    by (rule rawgetx_step [OF x]) (rule v)
  show ?thesis
  proof (cases "member_map p w name")
    case (Some u)
    then show ?thesis using r world_ok_bump [OF ok, of "strong_refs u" "weak_refs u"] v [OF Some] by simp
  qed (use r in simp)
qed

lemma member_values_del:
  assumes "table_ok ms" "hash_find n ms = Some m"
  shows "strong_refs (m_val m) a + strong_refs_list (member_values (hash_del n ms)) a = strong_refs_list (member_values ms) a"
    "weak_refs (m_val m) a + weak_refs_list (member_values (hash_del n ms)) a = weak_refs_list (member_values ms) a"
  using assms by (induction ms) (auto simp: hash_find_None_iff hash_del_absent split: if_splits)

lemma unlink_member_ok:
  assumes ok: "world_ok S W w" and x: "heap w p = Some x" "ref_count x \<noteq> 0" "\<not> destroyed x"
    and m: "hash_find name (members x) = Some m" and ty: "name \<noteq> ''__type'' \<or> dtor x \<noteq> Some Dtor_free_closure"
  shows "world_ok (\<lambda>a. S a + strong_refs (m_val m) a) (\<lambda>a. W a + weak_refs (m_val m) a)
      (put_obj p (x\<lparr>members := hash_del name (members x)\<rparr>) w)"
proof -
  note inv = world_okD(1) [OF ok] and fr = world_okD(2) [OF ok]
  note I = rc_invD [OF inv]
  let ?y = "x\<lparr>members := hash_del name (members x)\<rparr>"
  have px: "object_ok x" "dtor_ok x" using I(4) [OF x(1)] x(3) by (simp_all add: obj_inv_def)
  then have t: "table_ok (members x)" by (simp add: object_ok_def)
  have cy: "counts_ok (\<lambda>a. S a + strong_refs (m_val m) a) (\<lambda>a. W a + weak_refs (m_val m) a) (put_obj p ?y w)"
    using member_values_del [OF t m] by (intro counts_ok_put [OF I(1) x(1)]) (simp_all add: obj_values_def)
  have sub: "set (hash_del name (members x)) \<subseteq> set (members x)" by (auto simp: set_hash_del)
  have oy: "object_ok ?y" using px(1) alist.invar_del [OF t] sub
    by (auto simp: object_ok_def obj_values_def member_values_def hash_del_def distinct_map_filter)
  have dy: "dtor_ok ?y" using px(2) ty alist.find_del [OF t, of "''__type''" name]
    by (auto simp: dtor_ok_def split: option.splits dtor_fn.splits)
  have "rc_inv {} (\<lambda>a. S a + strong_refs (m_val m) a) (\<lambda>a. W a + weak_refs (m_val m) a) (put_obj p ?y w)"
    by (rule rc_inv_put [OF inv cy]) (use oy dy x in \<open>simp_all add: obj_inv_def\<close>)
  moreover have "fresh_ok (put_obj p ?y w)" using fr x(1) sub by (fastforce simp: fresh_ok_def)
  ultimately show ?thesis by (simp add: world_ok_def)
qed

lemma remove_member_raw_step:
  assumes ok: "world_ok S W w" and S: "0 < S p" and x: "heap w p = Some x" "\<not> destroyed x"
    and ty: "name \<noteq> ''__type'' \<or> dtor x \<noteq> Some Dtor_free_closure" and n: "weight w < n"
    and m: "hash_find name (members x) = Some m"
  shows "\<exists>w'. di_remove_member_raw (di_unref_object E n) p (Some name) w = Ret (Inr (), w') \<and> world_ok S W w' \<and>
    shrinks (put_obj p (x\<lparr>members := hash_del name (members x)\<rparr>) w) w'"
proof -
  let ?y = "x\<lparr>members := hash_del name (members x)\<rparr>" and ?w = "put_obj p (x\<lparr>members := hash_del name (members x)\<rparr>) w"
  have rc: "ref_count x \<noteq> 0" using world_ok_held [OF ok S] x(1) by auto
  note ok1 = unlink_member_ok [OF ok x(1) rc x(2) m ty]
  have px: "object_ok x" using rc_invD(4) [OF world_okD(1) [OF ok] x(1)] by (simp add: obj_inv_def)
  have fr: "free_ok (m_val m)"
    using px hash_find_SomeD [OF m] by (force simp: object_ok_def obj_values_def member_values_def)
  have "length (hash_del name (members x)) \<le> length (members x)" by (simp add: hash_del_def)
  then have "weight ?w \<le> weight w"
    using weight_put [OF rc_invD(5) [OF world_okD(1) [OF ok]] x(1), of ?y] x(2) by simp
  then show ?thesis using free_value_ok [OF ok1 fr, of n E] n m x(1)
    by (auto simp: di_remove_member_raw_def di_remove_member_raw_impl_def di_lookup_def get_obj_def)
qed

text \<open>
  C6. Removing a member.  The name disappears from the object and nothing else does; the value's
  references are dropped, with everything that follows from it, and every counter is right.  A
  missing member is \<open>-ENOENT\<close> and changes nothing.
\<close>

theorem di_remove_member_raw_ok:
  assumes ok: "world_ok S W w" and S: "0 < S p" and x: "heap w p = Some x" "\<not> destroyed x"
    and ty: "name \<noteq> ''__type'' \<or> dtor x \<noteq> Some Dtor_free_closure" and n: "weight w < n"
  shows "\<exists>r w'. di_remove_member_raw (di_unref_object E n) p (Some name) w = Ret (r, w') \<and> world_ok S W w' \<and>
    member_map p w' = (member_map p w)(name := None) \<and> r = (if member_map p w name = None then Inl ENOENT else Inr ())"
proof (cases "hash_find name (members x)")
  case None
  then have "member_map p w name = None" using x by (simp add: member_map_def)
  then show ?thesis using None x ok by (simp add: di_remove_member_raw_def di_lookup_def get_obj_def fun_upd_idem)
next
  case (Some m)
  let ?y = "x\<lparr>members := hash_del name (members x)\<rparr>" and ?w = "put_obj p (x\<lparr>members := hash_del name (members x)\<rparr>) w"
  obtain w' where w': "di_remove_member_raw (di_unref_object E n) p (Some name) w = Ret (Inr (), w')" "world_ok S W w'"
    "shrinks ?w w'" using remove_member_raw_step [OF assms Some] by blast
  have t: "table_ok (members x)" using rc_invD(4) [OF world_okD(1) [OF ok] x(1)] by (simp add: obj_inv_def object_ok_def)
  have "member_map p w' = member_map p ?w" by (rule live_members_kept [OF w'(2,3) S, of ?y]) (use x in auto)
  also have "\<dots> = (member_map p w)(name := None)"
    using alist.find_del [OF t, of _ name] x(1) by (auto simp: member_map_def fun_eq_iff)
  finally show ?thesis using w' Some x(1) by (simp add: member_map_def)
qed

end
