(* ===== verification/Client.thy ===== *)
theory Client
  imports Members
begin

text \<open>
  The ownership protocol.  A client of the object system holds references: \<open>holds\<close> counts the strong
  ones, \<open>wholds\<close> the weak ones.  It may use an operation when it holds the references the operation
  consumes or relies on.  \<open>client_step\<close> is one operation by such a client, \<open>reachable\<close> the states such
  clients produce from the start of the program.  Every permitted operation returns, in every
  reachable state.
\<close>

section \<open>Operations\<close>

datatype client_op =
    Op_new
  | Op_ref oref
  | Op_unref oref
  | Op_weakly_ref oref
  | Op_drop_weak oref
  | Op_upgrade oref
  | Op_add_member oref string di_value
  | Op_remove_member oref string
  | Op_get oref string

datatype reply = Done | Owned di_value | Failed errno

record client =
  holds :: "oref \<Rightarrow> nat"
  wholds :: "oref \<Rightarrow> nat"
  cworld :: world

definition reply_of :: "unit outcome \<Rightarrow> reply" where
  "reply_of r = (case r of Inl e \<Rightarrow> Failed e | Inr _ \<Rightarrow> Done)"

fun exec_op :: "ext \<Rightarrow> client_op \<Rightarrow> world \<Rightarrow> (reply \<times> world) res" where
  "exec_op E Op_new w =
     bind_res (di_new_object 128 8 w) (\<lambda>(p, w'). case p of None \<Rightarrow> Ret (Done, w') | Some q \<Rightarrow> Ret (Owned (VObject q), w'))"
| "exec_op E (Op_ref p) w = bind_res (di_ref_object p w) (\<lambda>w'. Ret (Owned (VObject p), w'))"
| "exec_op E (Op_unref p) w = bind_res (di_unref_object E (Suc (weight w)) p w) (\<lambda>w'. Ret (Done, w'))"
| "exec_op E (Op_weakly_ref p) w = bind_res (di_weakly_ref_object p w) (\<lambda>w'. Ret (Owned (VWeak p), w'))"
| "exec_op E (Op_drop_weak p) w = bind_res (di_drop_weak_ref p w) (\<lambda>w'. Ret (Done, w'))"
| "exec_op E (Op_upgrade p) w =
     bind_res (di_upgrade_weak_ref p w) (\<lambda>(q, w'). Ret (case q of None \<Rightarrow> Done | Some o' \<Rightarrow> Owned (VObject o'), w'))"
| "exec_op E (Op_add_member p n v) w =
     bind_res (di_add_member_move (di_unref_object E (Suc (weight w))) p (Some n) v w) (\<lambda>(r, w'). Ret (reply_of r, w'))"
| "exec_op E (Op_remove_member p n) w =
     bind_res (di_remove_member_raw (di_unref_object E (Suc (weight w))) p (Some n) w) (\<lambda>(r, w'). Ret (reply_of r, w'))"
| "exec_op E (Op_get p n) w =
     bind_res (di_rawgetx p (Some n) w) (\<lambda>(r, w'). Ret (case r of Inl e \<Rightarrow> Failed e | Inr v \<Rightarrow> Owned v, w'))"

text \<open>The references an operation consumes, as a value, and the value it hands out.\<close>

fun spent :: "client_op \<Rightarrow> di_value" where
  "spent (Op_unref p) = VObject p"
| "spent (Op_drop_weak p) = VWeak p"
| "spent (Op_add_member p n v) = v"
| "spent _ = VNil"

fun gained :: "reply \<Rightarrow> di_value" where
  "gained (Owned v) = v"
| "gained _ = VNil"

definition account :: "client_op \<Rightarrow> reply \<Rightarrow> world \<Rightarrow> client \<Rightarrow> client" where
  "account op r w c =
     \<lparr>holds = \<lambda>a. holds c a - strong_refs (spent op) a + strong_refs (gained r) a,
      wholds = \<lambda>a. wholds c a - weak_refs (spent op) a + weak_refs (gained r) a, cworld = w\<rparr>"

definition owns :: "client \<Rightarrow> di_value \<Rightarrow> bool" where
  "owns c v \<longleftrightarrow> (\<forall>a. strong_refs v a \<le> holds c a \<and> weak_refs v a \<le> wholds c a)"

text \<open>
  What a client must hold.  The operations that raise a counter also need room in it.  The type of a
  closure is what its destructor checks, so its type member must not be removed.
\<close>

fun permitted :: "client_op \<Rightarrow> client \<Rightarrow> bool" where
  "permitted Op_new c = True"
| "permitted (Op_ref p) c = (0 < holds c p \<and> has_room (one_at p) (\<lambda>_. 0) (cworld c))"
| "permitted (Op_weakly_ref p) c = ((0 < holds c p \<or> 0 < wholds c p) \<and> has_room (\<lambda>_. 0) (one_at p) (cworld c))"
| "permitted (Op_upgrade p) c =
     (0 < wholds c p \<and> (\<forall>x. heap (cworld c) p = Some x \<longrightarrow> unat (ref_count x) + 1 < 2 ^ 64))"
| "permitted (Op_unref p) c = (0 < holds c p)"
| "permitted (Op_drop_weak p) c = (0 < wholds c p)"
| "permitted (Op_add_member p n v) c =
     (strong_refs v p < holds c p \<and> owns c v \<and> copy_ok v \<and> free_ok v \<and> v \<noteq> VNil)"
| "permitted (Op_remove_member p n) c = (0 < holds c p \<and> n \<noteq> ''__type'')"
| "permitted (Op_get p n) c =
     (0 < holds c p \<and>
      (\<forall>v. member_map p (cworld c) n = Some v \<longrightarrow> has_room (strong_refs v) (weak_refs v) (cworld c)))"

inductive client_step :: "ext \<Rightarrow> client \<Rightarrow> client_op \<Rightarrow> client \<Rightarrow> bool" for E where
  step: "permitted op c \<Longrightarrow> exec_op E op (cworld c) = Ret (r, w) \<Longrightarrow> client_step E c op (account op r w c)"

definition client_init :: client where
  "client_init = \<lparr>holds = \<lambda>_. 0, wholds = one_at dead_weak_ref, cworld = initial_world\<rparr>"

inductive reachable :: "ext \<Rightarrow> client \<Rightarrow> bool" for E where
  init: "reachable E client_init"
| more: "reachable E c \<Longrightarrow> client_step E c op c' \<Longrightarrow> reachable E c'"

inductive_cases client_stepE: "client_step E c op c'"

section \<open>The invariant of the protocol\<close>

definition members_ok :: "world \<Rightarrow> bool" where
  "members_ok w \<longleftrightarrow>
     (\<forall>p x. heap w p = Some x \<longrightarrow> (destroyed x \<longrightarrow> ref_count x = 0) \<and>
        (\<forall>e \<in> set (members x). copy_ok (m_val (snd e)) \<and> m_val (snd e) \<noteq> VNil))"

definition client_inv :: "client \<Rightarrow> bool" where
  "client_inv c \<longleftrightarrow> world_ok (holds c) (wholds c) (cworld c) \<and> members_ok (cworld c)"

lemma members_ok_shrinks:
  assumes "members_ok w" "shrinks w w'"
  shows "members_ok w'"
  unfolding members_ok_def
proof (intro allI impI conjI)
  fix p y assume y: "heap w' p = Some y"
  obtain x where x: "heap w p = Some x" "reduced x y" using shrinksD [OF assms(2) y] by blast
  have m: "destroyed x \<longrightarrow> ref_count x = 0" "\<forall>e \<in> set (members x). copy_ok (m_val (snd e)) \<and> m_val (snd e) \<noteq> VNil"
    using assms(1) x(1) by (simp_all add: members_ok_def)
  show "destroyed y \<Longrightarrow> ref_count y = 0"
    using reducedD(2,4) [OF x(2)] m(1) by (auto simp: unat_eq_zero)
  show "\<forall>e \<in> set (members y). copy_ok (m_val (snd e)) \<and> m_val (snd e) \<noteq> VNil"
    using reducedD(3) [OF x(2)] m(2) by auto
qed

lemma members_ok_bump:
  assumes room: "has_room s k w" and ok: "members_ok w"
  shows "members_ok (bump s k w)"
  unfolding members_ok_def
proof (intro allI impI)
  fix p y assume "heap (bump s k w) p = Some y"
  then obtain x where x: "heap w p = Some x" "y = bump_object (s p) (k p) x" by (auto simp: heap_bump)
  have m: "destroyed x \<longrightarrow> ref_count x = 0" "\<forall>e \<in> set (members x). copy_ok (m_val (snd e)) \<and> m_val (snd e) \<noteq> VNil"
    using ok x(1) by (simp_all add: members_ok_def)
  have "ref_count y = 0" if "destroyed y"
  proof -
    have "s p = 0" using has_roomD(1) [OF room, of p] m(1) that x by fastforce
    then show ?thesis using m(1) that x(2) by (simp add: bump_object_def)
  qed
  with m(2) show "(destroyed y \<longrightarrow> ref_count y = 0) \<and>
      (\<forall>e \<in> set (members y). copy_ok (m_val (snd e)) \<and> m_val (snd e) \<noteq> VNil)"
    using x(2) by simp
qed

lemma client_init_inv: "client_inv client_init"
proof -
  have cnt: "strong_cnt initial_world p = 0" "weak_cnt initial_world p = 0" for p
    by (simp_all add: strong_cnt_def weak_cnt_def initial_world_def sum_entries_def obj_values_def
        dead_weakly_referenced_object_def empty_object_def)
  have "counts_ok (\<lambda>_. 0) (one_at dead_weak_ref) initial_world"
    by (rule counts_okI)
      (auto simp: object_counts_ok_def cnt, auto simp: initial_world_def dead_weakly_referenced_object_def empty_object_def
        split: if_splits)
  then show ?thesis
    by (auto simp: client_inv_def client_init_def world_ok_def rc_inv_def members_ok_def fresh_ok_def obj_inv_def
        initial_world_def dead_weakly_referenced_object_def empty_object_def object_ok_def obj_values_def dtor_ok_def
        dead_weak_ref_def split: if_splits)
qed

section \<open>Every permitted operation is safe\<close>

lemma client_invD:
  assumes "client_inv c"
  shows "world_ok (holds c) (wholds c) (cworld c)" "members_ok (cworld c)"
    "0 < holds c p \<Longrightarrow> \<exists>x. heap (cworld c) p = Some x \<and> ref_count x \<noteq> 0 \<and> \<not> destroyed x"
proof -
  show ok: "world_ok (holds c) (wholds c) (cworld c)" "members_ok (cworld c)"
    using assms by (simp_all add: client_inv_def)
  show "\<exists>x. heap (cworld c) p = Some x \<and> ref_count x \<noteq> 0 \<and> \<not> destroyed x" if "0 < holds c p"
    using world_ok_held [OF ok(1) that] ok(2) unfolding members_ok_def by blast
qed

text \<open>Splitting what a client holds into what it spends and the rest.\<close>

lemma spend:
  assumes "owns c v" "world_ok (holds c) (wholds c) w"
  shows "world_ok (\<lambda>a. (holds c a - strong_refs v a) + strong_refs v a) (\<lambda>a. (wholds c a - weak_refs v a) + weak_refs v a) w"
proof -
  have "(\<lambda>a. (holds c a - strong_refs v a) + strong_refs v a) = holds c"
    "(\<lambda>a. (wholds c a - weak_refs v a) + weak_refs v a) = wholds c"
    using assms(1) by (simp_all add: owns_def fun_eq_iff)
  with assms(2) show ?thesis by simp
qed

lemma settled_world_ok:
  assumes "settled {} S W w w'" "fresh_ok w" "members_ok w"
  shows "world_ok S W w' \<and> members_ok w'"
  using assms fresh_ok_shrinks members_ok_shrinks by (auto simp: settled_def keeps_def world_ok_def)

lemma bump_client_inv:
  assumes "client_inv c" "has_room s k (cworld c)" "spent op = VNil"
    and "strong_refs (gained r) = s" "weak_refs (gained r) = k"
  shows "client_inv (account op r (bump s k (cworld c)) c)"
  using assms world_ok_bump [OF client_invD(1) [OF assms(1)] assms(2)] members_ok_bump [OF assms(2) client_invD(2) [OF assms(1)]]
  by (auto simp: client_inv_def account_def)

lemma idle_client_inv: "client_inv c \<Longrightarrow> spent op = VNil \<Longrightarrow> gained r = VNil \<Longrightarrow> client_inv (account op r (cworld c) c)"
  by (simp add: client_inv_def account_def)

lemma new_safe:
  assumes "client_inv c"
  shows "\<exists>r w. exec_op E Op_new (cworld c) = Ret (r, w) \<and> client_inv (account Op_new r w c)"
proof -
  let ?w = "cworld c"
  have pow: "is_pow2 8" by (simp add: is_pow2.simps)
  have "members_ok (snd (alloc_object ?w))"
    using client_invD(2) [OF assms] by (auto simp: members_ok_def alloc_object_def Let_def empty_object_def split: if_splits)
  moreover have "exec_op E Op_new ?w = Ret (Owned (VObject (next_addr ?w)), snd (alloc_object ?w))"
    using pow by (simp add: di_new_object_def alloc_object_def Let_def)
  moreover have "client_inv (account Op_new (Owned (VObject (next_addr ?w))) (snd (alloc_object ?w)) c)"
    using calculation(1) alloc_object_ok [OF client_invD(1) [OF assms]] by (simp add: client_inv_def account_def)
  ultimately show ?thesis by blast
qed

lemma unref_safe:
  assumes inv: "client_inv c" and p: "0 < holds c p"
  shows "\<exists>r w. exec_op E (Op_unref p) (cworld c) = Ret (r, w) \<and> client_inv (account (Op_unref p) r w c)"
proof -
  have "owns c (VObject p)" using p by (simp add: owns_def)
  from spend [OF this client_invD(1) [OF inv]]
  have ok: "world_ok (\<lambda>a. holds c a - one_at p a + one_at p a) (wholds c) (cworld c)" by simp
  obtain w where w: "di_unref_object E (Suc (weight (cworld c))) p (cworld c) = Ret w"
    "settled {} (\<lambda>a. holds c a - one_at p a) (wholds c) (cworld c) w"
    using di_unref_object_settled [OF world_okD(1) [OF ok], of "Suc (weight (cworld c))" E] by auto
  then show ?thesis using settled_world_ok [OF w(2) world_okD(2) [OF ok] client_invD(2) [OF inv]]
    by (simp add: client_inv_def account_def del: di_unref_object.simps)
qed

lemma drop_weak_safe:
  assumes inv: "client_inv c" and p: "0 < wholds c p"
  shows "\<exists>r w. exec_op E (Op_drop_weak p) (cworld c) = Ret (r, w) \<and> client_inv (account (Op_drop_weak p) r w c)"
proof -
  have "owns c (VWeak p)" using p by (simp add: owns_def)
  from spend [OF this client_invD(1) [OF inv]]
  have ok: "world_ok (holds c) (\<lambda>a. wholds c a - one_at p a + one_at p a) (cworld c)" by simp
  obtain x where x: "heap (cworld c) p = Some x"
    using counts_ok_live [OF rc_invD(1) [OF world_okD(1) [OF client_invD(1) [OF inv]]], of p] p by auto
  obtain w where w: "di_decrement_weak_ref_count p (cworld c) = Ret w"
    "settled {} (holds c) (\<lambda>a. wholds c a - one_at p a) (cworld c) w"
    using drop_weak_settled [OF world_okD(1) [OF ok] x] by auto
  then show ?thesis using settled_world_ok [OF w(2) world_okD(2) [OF ok] client_invD(2) [OF inv]]
    by (simp add: client_inv_def account_def di_drop_weak_ref_def)
qed

lemma upgrade_safe:
  assumes inv: "client_inv c" and p: "permitted (Op_upgrade p) c"
  shows "\<exists>r w. exec_op E (Op_upgrade p) (cworld c) = Ret (r, w) \<and> client_inv (account (Op_upgrade p) r w c)"
proof -
  obtain x where x: "heap (cworld c) p = Some x"
    using counts_ok_live [OF rc_invD(1) [OF world_okD(1) [OF client_invD(1) [OF inv]]], of p] p by auto
  show ?thesis
  proof (cases "ref_count x = 0")
    case True
    then show ?thesis using x idle_client_inv [OF inv] by (simp add: di_upgrade_weak_ref_def get_obj_def)
  next
    case False
    then have "has_room (one_at p) (\<lambda>_. 0) (cworld c)" using x p by (auto simp: has_room_def)
    from bump_client_inv [OF inv this, of "Op_upgrade p" "Owned (VObject p)"] False x
    show ?thesis by (simp add: di_upgrade_weak_ref_def get_obj_def word_gt_0 di_ref_object_bump one_at_refs refs_scalar_fun)
  qed
qed

lemma add_member_safe:
  assumes inv: "client_inv c" and p: "permitted (Op_add_member p n v) c"
  shows "\<exists>r w. exec_op E (Op_add_member p n v) (cworld c) = Ret (r, w) \<and> client_inv (account (Op_add_member p n v) r w c)"
proof -
  let ?S = "\<lambda>a. holds c a - strong_refs v a" and ?W = "\<lambda>a. wholds c a - weak_refs v a"
  let ?n = "Suc (weight (cworld c))"
  have v: "copy_ok v" "free_ok v" "v \<noteq> VNil" "owns c v" "0 < ?S p" "0 < holds c p" using p by auto
  obtain x where x: "heap (cworld c) p = Some x" "\<not> destroyed x" using client_invD(3) [OF inv v(6)] by blast
  obtain w where w: "di_add_member_move (di_unref_object E ?n) p (Some n) v (cworld c) =
      Ret (case check_new_member x n of None \<Rightarrow> Inr () | Some e \<Rightarrow> Inl e, w)" "world_ok ?S ?W w"
    "if check_new_member x n = None then w = with_member p x n v (cworld c) else shrinks (cworld c) w"
    using add_member_move_step [OF spend [OF v(4) client_invD(1) [OF inv]] v(5) x v(1-3), of ?n E n] by auto
  have "members_ok w"
  proof (cases "check_new_member x n = None")
    case True
    then have "w = with_member p x n v (cworld c)" using w(3) by simp
    then show ?thesis using client_invD(2) [OF inv] x v(1,3)
      by (auto simp: members_ok_def with_member_def hash_add_def)
  qed (use w(3) members_ok_shrinks [OF client_invD(2) [OF inv]] in simp)
  then have "client_inv (account (Op_add_member p n v) r w c)" if "gained r = VNil" for r
    using w(2) that by (simp add: client_inv_def account_def)
  moreover have "gained (reply_of r) = VNil" for r :: "unit outcome" by (simp add: reply_of_def split: sum.splits)
  ultimately show ?thesis using w(1) by (simp del: di_unref_object.simps)
qed

lemma remove_member_safe:
  assumes inv: "client_inv c" and p: "permitted (Op_remove_member p n) c"
  shows "\<exists>r w. exec_op E (Op_remove_member p n) (cworld c) = Ret (r, w) \<and> client_inv (account (Op_remove_member p n) r w c)"
proof -
  have h: "0 < holds c p" "n \<noteq> ''__type'' \<or> d" for d using p by auto
  obtain x where x: "heap (cworld c) p = Some x" "\<not> destroyed x" using client_invD(3) [OF inv h(1)] by blast
  show ?thesis
  proof (cases "hash_find n (members x)")
    case None
    then show ?thesis using x idle_client_inv [OF inv]
      by (simp add: di_remove_member_raw_def di_lookup_def get_obj_def reply_of_def del: di_unref_object.simps)
  next
    case (Some m)
    let ?y = "x\<lparr>members := hash_del n (members x)\<rparr>"
    obtain w where w: "di_remove_member_raw (di_unref_object E (Suc (weight (cworld c)))) p (Some n) (cworld c) = Ret (Inr (), w)"
      "world_ok (holds c) (wholds c) w" "shrinks (put_obj p ?y (cworld c)) w"
      using remove_member_raw_step [OF client_invD(1) [OF inv] h(1) x h(2) _ Some, of "Suc (weight (cworld c))" E] by auto
    have "members_ok (put_obj p ?y (cworld c))"
      using client_invD(2) [OF inv] x by (auto simp: members_ok_def set_hash_del)
    from members_ok_shrinks [OF this w(3)] w(1,2) show ?thesis
      by (simp add: client_inv_def account_def reply_of_def del: di_unref_object.simps)
  qed
qed

lemma get_safe:
  assumes inv: "client_inv c" and p: "permitted (Op_get p n) c"
  shows "\<exists>r w. exec_op E (Op_get p n) (cworld c) = Ret (r, w) \<and> client_inv (account (Op_get p n) r w c)"
proof -
  let ?w = "cworld c"
  have h: "0 < holds c p" using p by auto
  obtain x where x: "heap ?w p = Some x" using client_invD(3) [OF inv h] by blast
  have v: "copy_ok v \<and> v \<noteq> VNil \<and> has_room (strong_refs v) (weak_refs v) ?w" if mm: "member_map p ?w n = Some v" for v
  proof -
    obtain m where "hash_find n (members x) = Some m" "v = m_val m" using mm x by (auto simp: member_map_def)
    then have "copy_ok v \<and> v \<noteq> VNil" using client_invD(2) [OF inv] x hash_find_SomeD by (fastforce simp: members_ok_def)
    then show ?thesis using p mm by simp
  qed
  note g = rawgetx_step [OF x, of n, OF v]
  show ?thesis
  proof (cases "member_map p ?w n")
    case None
    then show ?thesis using g idle_client_inv [OF inv] by simp
  next
    case (Some u)
    then show ?thesis using g v [OF Some] bump_client_inv [OF inv, of "strong_refs u" "weak_refs u" "Op_get p n" "Owned (copied u)"]
      by simp
  qed
qed

lemma exec_op_safe:
  assumes inv: "client_inv c" and p: "permitted op c"
  shows "\<exists>r w. exec_op E op (cworld c) = Ret (r, w) \<and> client_inv (account op r w c)"
proof (cases op)
  case (Op_ref q)
  then obtain x where "heap (cworld c) q = Some x" "has_room (one_at q) (\<lambda>_. 0) (cworld c)"
    using client_invD(3) [OF inv, of q] p by auto
  then show ?thesis using bump_client_inv [OF inv, of "one_at q" "\<lambda>_. 0" op "Owned (VObject q)"] Op_ref
    by (simp add: di_ref_object_bump one_at_refs refs_scalar_fun)
next
  case (Op_weakly_ref q)
  then obtain x where "heap (cworld c) q = Some x" "has_room (\<lambda>_. 0) (one_at q) (cworld c)"
    using has_roomD(2) [of "\<lambda>_. 0" "one_at q" "cworld c" q] p by auto
  then show ?thesis using bump_client_inv [OF inv, of "\<lambda>_. 0" "one_at q" op "Owned (VWeak q)"] Op_weakly_ref
    by (simp add: di_weakly_ref_object_bump one_at_refs refs_scalar_fun)
qed (use p new_safe [OF inv] unref_safe [OF inv] drop_weak_safe [OF inv] upgrade_safe [OF inv]
      add_member_safe [OF inv] remove_member_safe [OF inv] get_safe [OF inv] in auto)

lemma reachable_inv: "reachable E c \<Longrightarrow> client_inv c"
proof (induction rule: reachable.induct)
  case (more c op c')
  from more.hyps(2) obtain r w where "permitted op c" "exec_op E op (cworld c) = Ret (r, w)" "c' = account op r w c"
    by (rule client_stepE) blast
  with exec_op_safe [OF more.IH, of op E] show ?case by auto
qed (rule client_init_inv)

text \<open>
  C1. Memory safety of the ownership protocol.  Start from the initial heap and let clients perform any
  sequence of permitted operations, in any order.  Then the next permitted operation returns
  normally: it does not abort, does not touch a freed object, and its destructors terminate.  And in
  every such state the two counters of every object equal the references that exist, so that an
  object somebody holds is alive.  An operation is permitted when four conditions hold.  The client holds the
  references the operation uses or consumes.  The counters it raises do not overflow.  A value that becomes
  a member is not nil and can be copied and freed: it has no bottom value, no array of an indefinite element
  type and no array that has storage but no elements, since \<open>di_free_array\<close> aborts on such an array.  And the
  member \<open>__type\<close> is not removed.
\<close>

theorem client_protocol_safe:
  assumes "reachable E c"
  shows "(\<forall>op. permitted op c \<longrightarrow> (\<exists>c'. client_step E c op c')) \<and> counts_ok (holds c) (wholds c) (cworld c) \<and>
    (\<forall>p. 0 < holds c p \<longrightarrow> (\<exists>x. heap (cworld c) p = Some x \<and> \<not> destroyed x))"
proof -
  note inv = reachable_inv [OF assms]
  have "\<exists>c'. client_step E c op c'" if "permitted op c" for op
    using exec_op_safe [OF inv that] client_step.step [OF that] by blast
  moreover have "counts_ok (holds c) (wholds c) (cworld c)" by (rule rc_invD(1) [OF world_okD(1) [OF client_invD(1) [OF inv]]])
  ultimately show ?thesis using client_invD(3) [OF inv] by blast
qed

end
