(* ===== verification/LeakCheck.thy ===== *)
theory LeakCheck
  imports Destruction
begin

text \<open>
  The leak detector of the tracking build (\<open>TRACK_OBJECTS\<close>): \<open>di_mark_and_sweep\<close> colours the objects
  that can be reached from the roots, \<open>di_dump_objects\<close> counts the references that no member explains.

  Both follow the members whose type is \<open>DI_TYPE_OBJECT\<close> only: an object kept in a tuple, an array, a
  variant or a closure is not seen.
\<close>

section \<open>Mark and sweep\<close>

text \<open>Marks: 0 is white, 1 is on the stack, 2 is done.\<close>

record sweep =
  mark :: "oref \<Rightarrow> nat"
  cycle_warnings :: nat

definition object_members :: "di_object_internal \<Rightarrow> oref list" where
  "object_members x = concat (map (\<lambda>e. case m_val (snd e) of VObject q \<Rightarrow> [q] | _ \<Rightarrow> []) (members x))"

fun di_mark_and_sweep_dfs :: "nat \<Rightarrow> world \<Rightarrow> oref \<Rightarrow> sweep \<Rightarrow> sweep res" where
  "di_mark_and_sweep_dfs 0 w p s = Fault OutOfFuel"
| "di_mark_and_sweep_dfs (Suc k) w p s =
     bind_res (get_obj p w) (\<lambda>x.
       if mark s p \<noteq> 0 then
         Ret (if mark s p = 1 then s\<lparr>cycle_warnings := Suc (cycle_warnings s)\<rparr> else s)
       else
         bind_res (fold_res (di_mark_and_sweep_dfs k w) (object_members x) (s\<lparr>mark := (mark s)(p := 1)\<rparr>)) (\<lambda>s'.
           Ret (s'\<lparr>mark := (mark s')(p := 2)\<rparr>)))"

definition anonymous_roots :: "di_object_internal \<Rightarrow> oref list" where
  "anonymous_roots x = (case payload x of PRoots k t \<Rightarrow> map snd t | _ \<Rightarrow> [])"

definition di_mark_and_sweep :: "nat \<Rightarrow> oref \<Rightarrow> world \<Rightarrow> (bool \<times> sweep) res" where
  "di_mark_and_sweep k roots w =
     bind_res (get_obj roots w) (\<lambda>x.
       bind_res (fold_res (di_mark_and_sweep_dfs k w) (roots # anonymous_roots x)
           \<lparr>mark = \<lambda>_. 0, cycle_warnings = 0\<rparr>) (\<lambda>s.
         Ret (list_ex (\<lambda>p. mark s p = 0) (all_objects w), s)))"

text \<open>The graph the detector walks.\<close>

definition member_edge :: "world \<Rightarrow> oref \<Rightarrow> oref \<Rightarrow> bool" where
  "member_edge w p q \<longleftrightarrow> (case heap w p of None \<Rightarrow> False | Some x \<Rightarrow> q \<in> set (object_members x))"

definition visited :: "sweep \<Rightarrow> oref set" where
  "visited s = {p. mark s p \<noteq> 0}"

text \<open>
  What one search (or a sequence of searches) from \<open>ps\<close> achieves: it only adds nodes, it visits \<open>ps\<close>,
  what it adds can be reached from \<open>ps\<close>, and all successors of what it adds are visited.
\<close>

definition explored :: "world \<Rightarrow> oref list \<Rightarrow> sweep \<Rightarrow> sweep \<Rightarrow> bool" where
  "explored w ps s s' \<longleftrightarrow>
     visited s \<subseteq> visited s' \<and> set ps \<subseteq> visited s' \<and> visited s' - visited s \<subseteq> dom (heap w) \<and>
     (\<forall>q \<in> visited s' - visited s. \<exists>p \<in> set ps. (member_edge w)\<^sup>*\<^sup>* p q) \<and>
     (\<forall>q \<in> visited s' - visited s. \<forall>r. member_edge w q r \<longrightarrow> r \<in> visited s')"

definition edges_ok :: "world \<Rightarrow> bool" where
  "edges_ok w \<longleftrightarrow> (\<forall>p q. member_edge w p q \<longrightarrow> heap w q \<noteq> None)"

lemma explored_refl: "set ps \<subseteq> visited s \<Longrightarrow> visited s' = visited s \<Longrightarrow> explored w ps s s'"
  by (simp add: explored_def)

lemma explored_step:
  assumes "explored w [p] s s1" "explored w ps s1 s2"
  shows "explored w (p # ps) s s2"
proof -
  note a = assms [unfolded explored_def]
  have sub: "visited s \<subseteq> visited s2" "set (p # ps) \<subseteq> visited s2" using a by auto
  have dom: "visited s2 - visited s \<subseteq> dom (heap w)" using a by blast
  have "\<exists>p \<in> set (p # ps). (member_edge w)\<^sup>*\<^sup>* p q" if q: "q \<in> visited s2 - visited s" for q
    using a q by (cases "q \<in> visited s1") fastforce+
  moreover have "r \<in> visited s2" if "q \<in> visited s2 - visited s" "member_edge w q r" for q r
    using a that by (cases "q \<in> visited s1") blast+
  ultimately show ?thesis using sub dom unfolding explored_def by blast
qed

text \<open>The number of white objects bounds the depth of the recursion.\<close>

definition white :: "world \<Rightarrow> sweep \<Rightarrow> nat" where
  "white w s = card (dom (heap w) - visited s)"

lemma white_mono: "finite (dom (heap w)) \<Longrightarrow> visited s \<subseteq> visited s' \<Longrightarrow> white w s' \<le> white w s"
  unfolding white_def by (intro card_mono) auto

lemma white_mark:
  assumes "finite (dom (heap w))" "heap w p \<noteq> None" "mark s p = 0"
  shows "white w (s\<lparr>mark := (mark s)(p := 1)\<rparr>) < white w s"
proof -
  have "visited (s\<lparr>mark := (mark s)(p := 1)\<rparr>) = insert p (visited s)" by (auto simp: visited_def)
  moreover have "p \<in> dom (heap w) - visited s" using assms by (auto simp: visited_def)
  ultimately show ?thesis unfolding white_def using assms(1) by (intro psubset_card_mono) blast+
qed

lemma fold_explored:
  assumes "finite (dom (heap w))" and "\<forall>p \<in> set ps. heap w p \<noteq> None" and "white w s < k"
    and "\<And>p s. heap w p \<noteq> None \<Longrightarrow> white w s < k \<Longrightarrow> \<exists>s'. f p s = Ret s' \<and> explored w [p] s s'"
  shows "\<exists>s'. fold_res f ps s = Ret s' \<and> explored w ps s s'"
  using assms(2,3)
proof (induction ps arbitrary: s)
  case Nil
  then show ?case by (simp add: explored_refl)
next
  case (Cons p ps)
  obtain s1 where s1: "f p s = Ret s1" "explored w [p] s s1"
    using assms(4) [of p s] Cons.prems by (metis list.set_intros(1))
  then have "white w s1 < k" using white_mono [OF assms(1), of s s1] Cons.prems(2) by (simp add: explored_def)
  then obtain s2 where "fold_res f ps s1 = Ret s2" "explored w ps s1 s2" using Cons by auto
  with s1 explored_step show ?case by auto
qed

lemma dfs_explored:
  assumes fin: "finite (dom (heap w))" and edges: "edges_ok w"
  shows "heap w p \<noteq> None \<Longrightarrow> white w s < k \<Longrightarrow>
    \<exists>s'. di_mark_and_sweep_dfs k w p s = Ret s' \<and> explored w [p] s s'"
proof (induction k arbitrary: p s)
  case (Suc k)
  then obtain x where x: "heap w p = Some x" by auto
  show ?case
  proof (cases "mark s p = 0")
    case False
    then show ?thesis using x by (auto simp: get_obj_def visited_def intro!: explored_refl)
  next
    case True
    let ?s = "s\<lparr>mark := (mark s)(p := 1)\<rparr>"
    have ex: "member_edge w p q \<longleftrightarrow> q \<in> set (object_members x)" for q using x by (simp add: member_edge_def)
    then have "\<forall>q \<in> set (object_members x). heap w q \<noteq> None" using edges unfolding edges_ok_def by blast
    moreover have "white w ?s < k" using white_mark [OF fin, of p s] x True Suc.prems(2) by auto
    ultimately obtain s1 where s1: "fold_res (di_mark_and_sweep_dfs k w) (object_members x) ?s = Ret s1"
      "explored w (object_members x) ?s s1"
      using fold_explored [OF fin, of "object_members x" ?s k "di_mark_and_sweep_dfs k w"] Suc.IH by blast
    let ?s2 = "s1\<lparr>mark := (mark s1)(p := 2)\<rparr>"
    have v: "visited ?s = insert p (visited s)" "visited ?s2 = insert p (visited s1)" by (auto simp: visited_def)
    note e = s1(2) [unfolded explored_def v(1)]
    have "explored w [p] s ?s2" unfolding explored_def v(2)
    proof (intro conjI ballI allI impI)
      show "visited s \<subseteq> insert p (visited s1)" "set [p] \<subseteq> insert p (visited s1)" using e by auto
      show "insert p (visited s1) - visited s \<subseteq> dom (heap w)" using e x by blast
      show "\<exists>p \<in> set [p]. (member_edge w)\<^sup>*\<^sup>* p q" if q: "q \<in> insert p (visited s1) - visited s" for q
      proof (cases "q = p")
        case False
        then obtain c where "c \<in> set (object_members x)" "(member_edge w)\<^sup>*\<^sup>* c q" using e q by blast
        with ex have "(member_edge w)\<^sup>*\<^sup>* p q" by (meson converse_rtranclp_into_rtranclp)
        then show ?thesis by simp
      qed simp
      show "r \<in> insert p (visited s1)" if "q \<in> insert p (visited s1) - visited s" "member_edge w q r" for q r
        using that e ex by (cases "q = p") blast+
    qed
    then show ?thesis using x True s1(1) by (auto simp: get_obj_def)
  qed
qed simp

text \<open>
  C10. The leak detector is exact for the graph it walks.  With fuel for every object of the heap it
  always ends, cycles or not, and reports a leak just when some tracked object cannot be reached
  from the roots object or an anonymous root by following object members.
\<close>

theorem di_mark_and_sweep_exact:
  assumes "finite (dom (heap w))" and "edges_ok w" and "heap w roots = Some x"
    and "\<forall>p \<in> set (anonymous_roots x). heap w p \<noteq> None" and "card (dom (heap w)) < k"
  shows "\<exists>s. di_mark_and_sweep k roots w =
    Ret (\<exists>p \<in> set (all_objects w). \<not> (\<exists>r \<in> set (roots # anonymous_roots x). (member_edge w)\<^sup>*\<^sup>* r p), s)"
proof -
  let ?rs = "roots # anonymous_roots x" and ?s = "\<lparr>mark = \<lambda>_. 0, cycle_warnings = 0\<rparr> :: sweep"
  have v: "visited ?s = {}" by (simp add: visited_def)
  have "white w ?s < k" using assms(5) by (simp add: white_def v)
  then obtain s where s: "fold_res (di_mark_and_sweep_dfs k w) ?rs ?s = Ret s" "explored w ?rs ?s s"
    using fold_explored [OF assms(1), of ?rs ?s k "di_mark_and_sweep_dfs k w"] dfs_explored [OF assms(1,2)] assms(3,4)
    by fastforce
  note e = s(2) [unfolded explored_def v]
  have closed: "p \<in> visited s" if "(member_edge w)\<^sup>*\<^sup>* r p" "r \<in> visited s" for r p
    using that by (induction rule: rtranclp_induct) (use e in blast)+
  have "visited s = {p. \<exists>r \<in> set ?rs. (member_edge w)\<^sup>*\<^sup>* r p}"
    using e closed by (intro set_eqI iffI) blast+
  then have "mark s p = 0 \<longleftrightarrow> \<not> (\<exists>r \<in> set ?rs. (member_edge w)\<^sup>*\<^sup>* r p)" for p
    unfolding visited_def by blast
  then show ?thesis using s(1) assms(3) by (auto simp: di_mark_and_sweep_def get_obj_def list_ex_iff simp del: fold_res.simps)
qed

section \<open>Unexplained references\<close>

text \<open>
  \<open>di_dump_objects\<close> starts from the strong counter of every tracked object and takes one off for every
  object member that refers to it, for the global variable that holds the roots object, and for every
  anonymous root.  What is left is printed as the excess.
\<close>

type_synonym excess = "oref \<Rightarrow> 64 word"

definition take_off :: "oref \<Rightarrow> excess \<Rightarrow> excess" where
  "take_off q e = e(q := e q - 1)"

definition di_dump_object :: "world \<Rightarrow> oref \<Rightarrow> excess \<Rightarrow> excess res" where
  "di_dump_object w p e = bind_res (get_obj p w) (\<lambda>x. Ret (fold take_off (object_members x) e))"

definition di_dump_objects :: "oref option \<Rightarrow> world \<Rightarrow> excess res" where
  "di_dump_objects roots w =
     bind_res (fold_res (di_dump_object w) (all_objects w)
         (\<lambda>p. case heap w p of None \<Rightarrow> 0 | Some x \<Rightarrow> ref_count x)) (\<lambda>e.
       case roots of
         None \<Rightarrow> Ret e
       | Some r \<Rightarrow> bind_res (get_obj r w) (\<lambda>x. Ret (fold take_off (anonymous_roots x) (take_off r e))))"

definition member_cnt :: "world \<Rightarrow> oref \<Rightarrow> nat" where
  "member_cnt w p = sum_entries (\<lambda>x. count_list (object_members x) p) (heap w)"

text \<open>The tracking list holds every object of the heap that has members, once.\<close>

definition tracked :: "world \<Rightarrow> bool" where
  "tracked w \<longleftrightarrow> distinct (all_objects w) \<and> set (all_objects w) \<subseteq> dom (heap w) \<and>
     (\<forall>p x. heap w p = Some x \<longrightarrow> p \<notin> set (all_objects w) \<longrightarrow> members x = [])"

lemma fold_take_off: "fold take_off qs e p = e p - of_nat (count_list qs p)"
  by (induction qs arbitrary: e) (auto simp: take_off_def)

lemma dump_list:
  "set ps \<subseteq> dom (heap w) \<Longrightarrow>
   \<exists>e'. fold_res (di_dump_object w) ps e = Ret e' \<and>
     (\<forall>p. e' p = e p - of_nat (\<Sum>q \<leftarrow> ps. count_list (object_members (the (heap w q))) p))"
proof (induction ps arbitrary: e)
  case (Cons q ps)
  then obtain x where x: "heap w q = Some x" by auto
  obtain e' where "fold_res (di_dump_object w) ps (fold take_off (object_members x) e) = Ret e'"
    "\<forall>p. e' p = fold take_off (object_members x) e p - of_nat (\<Sum>q \<leftarrow> ps. count_list (object_members (the (heap w q))) p)"
    using Cons by fastforce
  moreover have "di_dump_object w q e = Ret (fold take_off (object_members x) e)"
    using x by (simp add: di_dump_object_def get_obj_def)
  ultimately show ?case using x by (auto simp: fold_take_off)
qed simp

lemma member_cnt_tracked:
  assumes "finite (dom (heap w))" "tracked w"
  shows "(\<Sum>q \<leftarrow> all_objects w. count_list (object_members (the (heap w q))) p) = member_cnt w p"
proof -
  have t: "distinct (all_objects w)" "set (all_objects w) \<subseteq> dom (heap w)" using assms(2) by (simp_all add: tracked_def)
  have z: "count_list (object_members (the (heap w q))) p = 0" if q: "q \<in> dom (heap w) - set (all_objects w)" for q
  proof -
    obtain x where "heap w q = Some x" "members x = []" using assms(2) q unfolding tracked_def by blast
    then show ?thesis by (simp add: object_members_def)
  qed
  have "(\<Sum>q \<leftarrow> all_objects w. count_list (object_members (the (heap w q))) p) =
      (\<Sum>q \<in> set (all_objects w). count_list (object_members (the (heap w q))) p)"
    using t(1) by (simp add: sum_list_distinct_conv_sum_set)
  also have "\<dots> = member_cnt w p"
    unfolding member_cnt_def sum_entries_def by (rule sum.mono_neutral_left [OF assms(1) t(2)]) (use z in blast)
  finally show ?thesis .
qed

lemma object_members_le: "count_list (object_members x) p + strong_refs_list (payload_values (payload x)) p \<le> strong_refs_list (obj_values x) p"
proof -
  have "count_list (concat (map (\<lambda>e. case m_val (snd e) of VObject q \<Rightarrow> [q] | _ \<Rightarrow> []) ms)) p \<le> strong_refs_list (member_values ms) p" for ms
    by (induction ms) (auto split: di_value.splits)
  then show ?thesis by (simp add: object_members_def obj_values_def)
qed

lemma anonymous_roots_refs: "count_list (anonymous_roots x) p \<le> strong_refs_list (payload_values (payload x)) p"
proof (cases "payload x")
  case (PRoots k t)
  have "count_list (map snd t) p \<le> strong_refs_list (map (\<lambda>e. VObject (snd e)) t) p" by (induction t) auto
  then show ?thesis using PRoots by (simp add: anonymous_roots_def)
qed (simp_all add: anonymous_roots_def)

text \<open>
  The excess the tracking build prints for an object is the number of strong references to it that
  are neither object members, nor anonymous roots, nor the global variable of the roots object: those
  held by C code, and those kept in tuples, arrays, variants and closures.  The subtractions never
  wrap around.
\<close>

theorem di_dump_objects_excess:
  assumes "counts_ok S W w" and "tracked w" and "heap w r = Some x" and "0 < S r"
  shows "\<exists>e. di_dump_objects (Some r) w = Ret e \<and>
    (\<forall>p y. heap w p = Some y \<longrightarrow>
       member_cnt w p + count_list (anonymous_roots x) p + one_at r p \<le> strong_cnt w p + S p \<and>
       e p = of_nat (strong_cnt w p + S p - (member_cnt w p + count_list (anonymous_roots x) p + one_at r p)))"
proof -
  note fin = counts_okD(1) [OF assms(1)]
  let ?e0 = "\<lambda>p. case heap w p of None \<Rightarrow> 0 | Some x \<Rightarrow> ref_count x"
  have sub: "set (all_objects w) \<subseteq> dom (heap w)" using assms(2) by (simp add: tracked_def)
  obtain e where e: "fold_res (di_dump_object w) (all_objects w) ?e0 = Ret e"
    "\<And>p. e p = ?e0 p - of_nat (member_cnt w p)"
    using dump_list [OF sub, of ?e0] member_cnt_tracked [OF fin assms(2)] by auto
  let ?e = "fold take_off (anonymous_roots x) (take_off r e)"
  have "member_cnt w p + count_list (anonymous_roots x) p + one_at r p \<le> strong_cnt w p + S p \<and>
      ?e p = of_nat (strong_cnt w p + S p - (member_cnt w p + count_list (anonymous_roots x) p + one_at r p))"
    if y: "heap w p = Some y" for p y
  proof -
    let ?g = "\<lambda>x. count_list (object_members x) p + strong_refs_list (payload_values (payload x)) p"
    have "sum_entries ?g (heap w) \<le> strong_cnt w p"
      unfolding strong_cnt_def sum_entries_def by (rule sum_mono) (rule object_members_le)
    moreover have "sum_entries ?g (heap w) = member_cnt w p + sum_entries (\<lambda>x. strong_refs_list (payload_values (payload x)) p) (heap w)"
      by (simp add: member_cnt_def sum_entries_def sum.distrib)
    moreover have "count_list (anonymous_roots x) p \<le> sum_entries (\<lambda>x. strong_refs_list (payload_values (payload x)) p) (heap w)"
      using sum_entries_member_le [OF fin assms(3), of "\<lambda>x. strong_refs_list (payload_values (payload x)) p"] anonymous_roots_refs [of x p]
      by linarith
    ultimately have le: "member_cnt w p + count_list (anonymous_roots x) p + one_at r p \<le> strong_cnt w p + S p"
      using assms(4) by auto
    have "ref_count y = of_nat (unat (ref_count y))" by simp
    also have "\<dots> = of_nat (strong_cnt w p + S p)"
      using counts_okD(3) [OF assms(1) y] by (simp only: object_counts_ok_def)
    finally have "ref_count y = of_nat (strong_cnt w p + S p)" .
    then have "?e p = of_nat (strong_cnt w p + S p) - of_nat (member_cnt w p) - of_nat (one_at r p) - of_nat (count_list (anonymous_roots x) p)"
      using y by (auto simp: fold_take_off take_off_def e(2))
    with le show ?thesis by (simp add: of_nat_diff)
  qed
  moreover have "di_dump_objects (Some r) w = Ret ?e" using e(1) assms(3) by (simp add: di_dump_objects_def get_obj_def)
  ultimately show ?thesis by blast
qed

end
