(* ===== verification/Property.thy ===== *)
theory Property
  imports Members
begin

text \<open>
  Names and handlers: which member names are accepted, in which order a property access looks for a
  value and for handlers, and what setting an existing member does to its type.
\<close>

section \<open>Member names\<close>

lemma starts_with_append_iff: "starts_with (p @ q) s = (starts_with p s \<and> starts_with q (drop (length p) s))"
  by (auto simp: starts_with_iff)

lemma starts_with_same_length:
  "starts_with p s \<Longrightarrow> starts_with q s \<Longrightarrow> length p = length q \<Longrightarrow> p = q"
  by (auto simp: starts_with_def)

lemma starts_with_excl: "length p = length q \<Longrightarrow> p \<noteq> q \<Longrightarrow> \<not> (starts_with p s \<and> starts_with q s)"
  using starts_with_same_length by blast

text \<open>
  The rule for member names, exactly.  A name that is taken is \<open>-EEXIST\<close>.  Getters and setters of
  internal names are \<open>-EINVAL\<close>, as intended.  Of the deleters, the names refused are those that start
  with \<open>__dele__\<close>; a deleter of an internal name, \<open>__delete___x\<close>, is accepted.
\<close>

theorem check_new_member_rule:
  "check_new_member x name =
     (if hash_find name (members x) \<noteq> None then Some EEXIST
      else if starts_with ''__get___'' name \<or> starts_with ''__set___'' name \<or> starts_with ''__dele__'' name then Some EINVAL
      else None)"
proof -
  have internal: "(2 \<le> length r \<and> starts_with ''__'' r) = starts_with ''__'' r" for r
    using starts_with_length [of "''__''" r] by auto
  have split: "starts_with ''__get___'' name = (starts_with ''__get_'' name \<and> starts_with ''__'' (drop (length ''__get_'') name))"
    "starts_with ''__set___'' name = (starts_with ''__set_'' name \<and> starts_with ''__'' (drop (length ''__set_'') name))"
    "starts_with ''__dele__'' name = (starts_with ''__dele'' name \<and> starts_with ''__'' (drop (length ''__dele'') name))"
    using starts_with_append_iff [of "''__get_''" "''__''" name] starts_with_append_iff [of "''__set_''" "''__''" name]
      starts_with_append_iff [of "''__dele''" "''__''" name] by simp_all
  have excl: "\<not> (starts_with ''__get_'' name \<and> starts_with ''__set_'' name)"
    "\<not> (starts_with ''__get_'' name \<and> starts_with ''__dele'' name)"
    "\<not> (starts_with ''__set_'' name \<and> starts_with ''__dele'' name)"
    by (rule starts_with_excl, simp, simp)+
  have nil: "\<not> starts_with ''__'' []" by (simp add: starts_with_def)
  have pre: "take (length ''__set_'') ''__delete_'' = ''__dele''" by simp
  show ?thesis
    unfolding check_new_member_def Let_def internal pre split
    using excl nil by presburger
qed

section \<open>Handlers\<close>

text \<open>
  \<open>callee p n w\<close>: the callable object in member \<open>n\<close> of \<open>p\<close>, when the member holds one.  \<open>plain_slot\<close>
  excludes the two cases in which looking for a handler goes wrong: a member that is not an object (it
  is silently skipped) and an object that is not callable (its reference is leaked).
\<close>

definition callee :: "oref \<Rightarrow> string \<Rightarrow> world \<Rightarrow> oref option" where
  "callee p n w = (case member_map p w n of Some (VObject h) \<Rightarrow> Some h | _ \<Rightarrow> None)"

definition plain_slot :: "oref \<Rightarrow> string \<Rightarrow> world \<Rightarrow> bool" where
  "plain_slot p n w \<longleftrightarrow> (case member_map p w n of
      None \<Rightarrow> True
    | Some v \<Rightarrow> (case v of VObject h \<Rightarrow> (case heap w h of None \<Rightarrow> False | Some y \<Rightarrow> call y \<noteq> None) | _ \<Rightarrow> False))"

text \<open>Calling the handler in a slot: a reference to it is held during the call.\<close>

definition call_slot :: "drop_fn \<Rightarrow> call_obj \<Rightarrow> oref \<Rightarrow> oref \<Rightarrow> di_value list \<Rightarrow> world \<Rightarrow> (di_value outcome \<times> bool \<times> world) res" where
  "call_slot U C p h args w =
     bind_res (C h (VObject p # args) (bump (one_at h) (\<lambda>_. 0) w)) (\<lambda>(rc, w1).
       bind_res (U h w1) (\<lambda>w2. Ret (rc, True, w2)))"

lemma di_rawcallxn_slot:
  assumes x: "heap w p = Some x" and slot: "plain_slot p n w" and args: "length args + 1 \<le> MAX_NARGS"
  shows "di_rawcallxn U C p (Some n) args w =
    (case callee p n w of None \<Rightarrow> Ret (Inl ENOENT, False, w) | Some h \<Rightarrow> call_slot U C p h args w)"
proof (cases "hash_find n (members x)")
  case None
  then show ?thesis using x
    by (simp add: di_rawcallxn_def gen_callx_def di_rawgetxt_def gen_tfunc_def di_rawgetx_def di_lookup_def get_obj_def
        callee_def member_map_def)
next
  case (Some m)
  then have mm: "member_map p w n = Some (m_val m)" using x by (simp add: member_map_def)
  then obtain h y cf where h: "m_val m = VObject h" "heap w h = Some y" "call y = Some cf"
    using slot by (auto simp: plain_slot_def split: di_value.splits option.splits)
  have "di_ref_object h w = Ret (bump (one_at h) (\<lambda>_. 0) w)" using h(2) by (rule di_ref_object_bump)
  moreover have "call (bump_object 1 0 y) = call y" by (simp add: bump_object_def)
  ultimately show ?thesis using x Some h args mm
    by (simp add: di_rawcallxn_def gen_callx_def di_rawgetxt_def gen_tfunc_def di_rawgetx_def di_lookup_def get_obj_def
        di_type_conversion.simps callee_def call_slot_def di_call_internal_def heap_bump)
qed

text \<open>The value a handler returns is handed on, or freed when the caller has no use for it; an error is handed on.\<close>

definition answer_slot ::
  "drop_fn \<Rightarrow> call_obj \<Rightarrow> bool \<Rightarrow> oref \<Rightarrow> oref \<Rightarrow> di_value list \<Rightarrow> world \<Rightarrow> (di_value outcome \<times> bool \<times> world) res" where
  "answer_slot U C want p h args w =
     bind_res (call_slot U C p h args w) (\<lambda>(r, found, w1).
       if isl r \<or> want then Ret (r, True, w1)
       else bind_res (di_free_value U (projr r) w1) (\<lambda>w2. Ret (Inr VNil, True, w2)))"

lemma answer_slot_return:
  "bind_res (call_slot U C p h args w) (\<lambda>(r, f, w1). if f then handler_return U want r f w1 else k r w1) = answer_slot U C want p h args w"
  "bind_res (call_slot U C p h args w) (\<lambda>(r, f, w1). handler_return U want r f w1) = answer_slot U C want p h args w"
  unfolding answer_slot_def call_slot_def bind_res_assoc
  by (rule bind_res_cong, simp, auto simp: bind_res_assoc handler_return_def split: sum.splits intro!: bind_res_cong)+

text \<open>The argument of a setter, or none.\<close>

definition arg_values :: "di_value option \<Rightarrow> di_value list" where
  "arg_values arg = (case arg of None \<Rightarrow> [] | Some v \<Rightarrow> [v])"

text \<open>
  C9. How property handlers are found and called, for getters, setters and deleters alike.  For a name
  that is not internal, the handler \<open><prefix>_<name>\<close> is called with the object and the argument, when there is one;
  only when there is no such handler, \<open><prefix>\<close> is called with the object, the name and the argument; when there
  is neither, the answer is \<open>-ENOENT\<close> and nothing has happened.  An internal name never reaches a handler.
  A reference to the handler is held during the call.  Its error is handed on, and so is its value, or the
  value is freed when the caller did not ask for it.  Both members, where they exist, hold callable objects.
\<close>

theorem handler_dispatch:
  assumes x: "heap w p = Some x" and slots: "plain_slot p (handler_name prefix name) w" "plain_slot p prefix w"
  shows "call_handler_with_fallback U C p prefix name arg want w =
    (if di_is_internal name then Ret (Inl ENOENT, False, w)
     else case callee p (handler_name prefix name) w of
       Some h \<Rightarrow> answer_slot U C want p h (arg_values arg) w
     | None \<Rightarrow> (case callee p prefix w of
           Some h \<Rightarrow> answer_slot U C want p h (VString (Some name) # arg_values arg) w
         | None \<Rightarrow> Ret (Inl ENOENT, False, w)))"
proof -
  have a: "length (arg_values arg) + 1 \<le> MAX_NARGS" "length (VString (Some name) # arg_values arg) + 1 \<le> MAX_NARGS"
    by (simp_all add: MAX_NARGS_def arg_values_def split: option.splits)
  note run = di_rawcallxn_slot [OF x slots(1) a(1), of U C] di_rawcallxn_slot [OF x slots(2) a(2), of U C]
  have none: "handler_return U want (Inl ENOENT) False w = Ret (Inl ENOENT, False, w)" by (simp add: handler_return_def)
  show ?thesis
    unfolding call_handler_with_fallback_def arg_values_def [symmetric] Let_def run
    by (auto simp: answer_slot_return none run(2) split: option.splits)
qed
section \<open>Setting a member\<close>

definition no_handler :: "oref \<Rightarrow> string \<Rightarrow> string \<Rightarrow> world \<Rightarrow> bool" where
  "no_handler p prefix name w \<longleftrightarrow>
     di_is_internal name \<or> member_map p w (handler_name prefix name) = None \<and> member_map p w prefix = None"

lemma rawcallxn_absent:
  assumes "heap w p = Some x" "member_map p w n = None"
  shows "di_rawcallxn U C p (Some n) args w = Ret (Inl ENOENT, False, w)"
  using assms by (simp add: di_rawcallxn_def gen_callx_def di_rawgetxt_def gen_tfunc_def di_rawgetx_def di_lookup_def
      get_obj_def member_map_def)

lemma no_handler_call:
  assumes "heap w p = Some x" "no_handler p prefix name w"
  shows "call_handler_with_fallback U C p prefix name arg want w = Ret (Inl ENOENT, False, w)"
  using assms rawcallxn_absent [OF assms(1), of "handler_name prefix name"] rawcallxn_absent [OF assms(1), of prefix]
  by (auto simp: call_handler_with_fallback_def no_handler_def handler_return_def)

text \<open>Values without references and without storage of their own that can fail to be freed.\<close>

definition scalar :: "di_value \<Rightarrow> bool" where
  "scalar v \<longleftrightarrow> (case v of VNil \<Rightarrow> False | VBool b \<Rightarrow> True | VNint i \<Rightarrow> True | VNuint i \<Rightarrow> True | VInt i \<Rightarrow> True | VUint i \<Rightarrow> True
     | VFloat d \<Rightarrow> True | VPointer n \<Rightarrow> True | VString s \<Rightarrow> True | VLiteral l \<Rightarrow> True | _ \<Rightarrow> False)"

lemma scalar_simps:
  assumes "scalar v"
  shows "di_free_value U v w = Ret w" "di_copy_value v w = Ret (copied v, w)" "\<exists>n. di_sizeof_type (di_typeof v) = Ret n"
  using assms by (cases v; simp add: scalar_def)+

lemma scalar_reinterpret: "scalar v \<Longrightarrow> reinterpret t v = Some u \<Longrightarrow> scalar u \<and> di_typeof u = t"
  by (cases v) (auto simp: scalar_def reinterpret_def split: if_splits)

lemma copied_type [simp]: "di_typeof (copied v) = di_typeof v"
  by (cases v) simp_all

text \<open>
  C18. Setting an existing member keeps its old type.  With no setter and no deleter in the way, the
  bytes of the new value are stored, but the member still says it has the type of the old one: a
  value of the same type replaces it as intended, an integer of another type is read at the old width
  and sign, and any other value is a confusion of representations.
\<close>

theorem di_setx_keeps_type:
  assumes x: "heap w p = Some x" and m: "hash_find prop (members x) = Some m"
    and nh: "no_handler p ''__set'' prop w" "no_handler p ''__delete'' prop w" and sc: "scalar (m_val m)" "scalar v"
  shows "case reinterpret (di_typeof (m_val m)) v of
      None \<Rightarrow> di_setx U C p (Some prop) v w = Fault Type_Confusion
    | Some u \<Rightarrow> di_typeof u = di_typeof (m_val m) \<and> (di_typeof v = di_typeof (m_val m) \<longrightarrow> u = v) \<and>
        (\<exists>w'. di_setx U C p (Some prop) v w = Ret (Inr (), w') \<and> member_map p w' = (member_map p w)(prop \<mapsto> copied u))"
proof -
  let ?x1 = "x\<lparr>members := hash_set prop (m\<lparr>m_val := VLast\<rparr>) (members x)\<rparr>"
  let ?w1 = "put_obj p ?x1 w"
  have f1: "hash_find prop (members ?x1) = Some (m\<lparr>m_val := VLast\<rparr>)" using m by (simp add: hash_find_set)
  have set1: "set_member_val p prop m VLast w = Ret ?w1" using x m by (simp add: set_member_val_def get_obj_def)
  obtain n where n: "di_sizeof_type (di_typeof v) = Ret n" using scalar_simps(3) [OF sc(2)] by blast
  have setx: "di_setx U C p (Some prop) v w = replace_member U p prop m v w"
    using no_handler_call [OF x nh(1)] no_handler_call [OF x nh(2)] x m
    by (simp add: di_setx_def di_lookup_def get_obj_def)
  show ?thesis
  proof (cases "reinterpret (di_typeof (m_val m)) v")
    case None
    then show ?thesis using setx set1 n scalar_simps(1) [OF sc(1)] by (simp add: replace_member_def)
  next
    case (Some u)
    have u: "scalar u" "di_typeof u = di_typeof (m_val m)" using scalar_reinterpret [OF sc(2) Some] by blast+
    let ?w2 = "put_obj p (?x1\<lparr>members := hash_set prop (m\<lparr>m_val := copied u\<rparr>) (members ?x1)\<rparr>) ?w1"
    have "set_member_val p prop m (copied u) ?w1 = Ret ?w2"
      using f1 by (simp add: set_member_val_def get_obj_def)
    then have "di_setx U C p (Some prop) v w = Ret (Inr (), ?w2)"
      using setx set1 n Some scalar_simps(1) [OF sc(1)] scalar_simps(2) [OF u(1)] by (simp add: replace_member_def)
    moreover have "member_map p ?w2 = (member_map p w)(prop \<mapsto> copied u)"
      using x m by (auto simp: member_map_def hash_find_set fun_eq_iff)
    moreover have "di_typeof v = di_typeof (m_val m) \<longrightarrow> u = v" using Some by (auto simp: reinterpret_def)
    ultimately show ?thesis using Some u(2) by auto
  qed
qed

end
