(* ===== verification/Signals.thy ===== *)
theory Signals
  imports Property
begin

text \<open>
  Listening and emitting.  A listener is a handle object that owns a reference to its handler; the
  signal struct of the emitter lists the handles, latest first.
\<close>

section \<open>Emission\<close>

text \<open>
  \<open>listening w h lh\<close>: \<open>lh\<close> is a live handle whose handler is the callable object \<open>h\<close>.
\<close>

definition listening :: "world \<Rightarrow> oref \<Rightarrow> oref \<Rightarrow> bool" where
  "listening w h lh \<longleftrightarrow> member_map lh w ''__handler'' = Some (VObject h) \<and>
     (case heap w h of None \<Rightarrow> False | Some y \<Rightarrow> call y \<noteq> None)"

text \<open>A world in which the log is the only thing that differs.\<close>

definition with_log :: "string list \<Rightarrow> world \<Rightarrow> world" where
  "with_log ls w = w\<lparr>log_lines := ls @ log_lines w\<rparr>"

lemma with_log_simps [simp]:
  "heap (with_log ls w) = heap w" "sigs (with_log ls w) = sigs w" "with_log [] w = w"
  "with_log ls (with_log ms w) = with_log (ls @ ms) w" "log_line l w = with_log [l] w"
  "member_map p (with_log ls w) = member_map p w" "has_room s k (with_log ls w) = has_room s k w"
  "listening (with_log ls w) = listening w"
  by (simp_all add: with_log_def log_line_def member_map_def has_room_def listening_def fun_eq_iff)

lemma bump_with_log: "with_log ls (bump s k w) = bump s k (with_log ls w)"
  by (simp add: with_log_def bump_def)

lemma unref_bump':
  assumes "has_room (one_at p) (\<lambda>_. 0) w"
  shows "di_unref_object E (Suc n) p (bump (one_at p) (\<lambda>_. 0) w) = Ret w"
  using unref_bump has_roomD(1) [OF assms, of p] by (auto simp del: di_unref_object.simps)

lemma drop_weak_bump':
  assumes "has_room (\<lambda>_. 0) (one_at p) w"
  shows "di_drop_weak_ref p (bump (\<lambda>_. 0) (one_at p) w) = Ret w"
  using drop_weak_bump has_roomD(2) [OF assms, of p] by auto

lemma getxt_object_member:
  assumes "member_map p w n = Some (VObject h)" "heap w h = Some y"
  shows "di_getxt U C p (Some n) DI_TYPE_OBJECT w = Ret (Inr (VObject h), bump (one_at h) (\<lambda>_. 0) w)"
  using assms di_ref_object_bump [OF assms(2)]
  by (auto simp: di_getxt_def gen_tfunc_def di_getx_def di_rawgetx_def di_lookup_def get_obj_def member_map_def
      di_type_conversion.simps split: option.splits)

text \<open>
  \<open>answering C args w lines reply hs\<close>: called while references are held and lines are logged, the handlers \<open>hs\<close> write
  their lines to the log, change nothing else, and return nothing or the error \<open>reply\<close>.
\<close>

definition answering ::
  "call_obj \<Rightarrow> di_value list \<Rightarrow> world \<Rightarrow> (oref \<Rightarrow> string list) \<Rightarrow> (oref \<Rightarrow> errno option) \<Rightarrow> oref set \<Rightarrow> bool" where
  "answering C args w lines reply hs \<longleftrightarrow> (\<forall>h \<in> hs. \<forall>s k ls.
     C h args (bump s k (with_log ls w)) =
       Ret (case reply h of None \<Rightarrow> Inr VNil | Some e \<Rightarrow> Inl e, with_log (lines h) (bump s k (with_log ls w))))"

lemma answering_keeps:
  assumes "answering C args w lines reply hs"
  shows "answering C args (bump s k w) lines reply hs" "answering C args (with_log ls w) lines reply hs"
  using assms by (simp_all add: answering_def bump_with_log bump_bump)

text \<open>What a visit leaves in the log: a failure of the callback is reported there, newest line first.\<close>

definition visit_lines :: "(oref \<Rightarrow> string list) \<Rightarrow> (oref \<Rightarrow> errno option) \<Rightarrow> oref \<Rightarrow> string list" where
  "visit_lines lines reply h = (if reply h = None then [] else [''Failed to call a listener callback'']) @ lines h"

text \<open>One listener.  Afterwards every reference taken during the visit has been given back.\<close>

lemma emit_one_calls:
  assumes l: "listening w h lh" and r1: "has_room (\<lambda>a. one_at lh a + one_at h a) (one_at lh) w"
    and C: "answering C args w lines reply {h}"
  shows "emit_one (di_unref_object E (Suc n)) C args lh (bump (\<lambda>_. 0) (one_at lh) w) = Ret (with_log (visit_lines lines reply h) w)"
proof -
  let ?w0 = "bump (\<lambda>_. 0) (one_at lh) w" and ?U = "di_unref_object E (Suc n)"
  let ?r = "case reply h of None \<Rightarrow> Inr VNil | Some e \<Rightarrow> Inl e"
  obtain y where y: "member_map lh w ''__handler'' = Some (VObject h)" "heap w h = Some y" "call y \<noteq> None"
    using l by (auto simp: listening_def split: option.splits)
  obtain x where x: "heap w lh = Some x" "ref_count x \<noteq> 0" using has_roomD(1) [OF r1, of lh] by auto
  have up: "di_upgrade_weak_ref lh ?w0 = Ret (Some lh, bump (one_at lh) (\<lambda>_. 0) ?w0)"
    using x by (simp add: di_upgrade_weak_ref_def get_obj_def heap_bump bump_object_def word_gt_0 di_ref_object_bump)
  have get: "di_getxt ?U C lh (Some ''__handler'') DI_TYPE_OBJECT (bump (one_at lh) (\<lambda>_. 0) ?w0) =
      Ret (Inr (VObject h), bump (one_at h) (\<lambda>_. 0) (bump (one_at lh) (\<lambda>_. 0) ?w0))"
    by (rule getxt_object_member) (simp_all add: y(1) heap_bump y(2))
  have comm: "bump (one_at h) (\<lambda>_. 0) (bump (one_at lh) (\<lambda>_. 0) ?w0) = bump (one_at lh) (\<lambda>_. 0) (bump (one_at h) (one_at lh) w)"
    by (simp add: bump_bump add.commute)
  have "has_room (one_at lh) (\<lambda>_. 0) (bump (one_at h) (one_at lh) w)"
    using has_room_split(2) [of "one_at lh" "one_at h" "\<lambda>_. 0" "one_at lh" w] r1 by simp
  then have u1: "?U lh (bump (one_at lh) (\<lambda>_. 0) (bump (one_at h) (one_at lh) w)) = Ret (bump (one_at h) (one_at lh) w)"
    by (rule unref_bump')
  have "C h args (bump (one_at h) (one_at lh) (with_log [] w)) = Ret (?r, with_log (lines h) (bump (one_at h) (one_at lh) (with_log [] w)))"
    using C unfolding answering_def by blast
  then have call: "di_call_objectt C h args (bump (one_at h) (one_at lh) w) = Ret (?r, with_log (lines h) (bump (one_at h) (one_at lh) w))"
    using y by (simp add: di_call_objectt_def get_obj_def heap_bump bump_object_def)
  let ?w1 = "with_log (lines h) w"
  have "has_room (one_at h) (\<lambda>_. 0) (bump (\<lambda>_. 0) (one_at lh) ?w1)"
    using has_room_split(2) [of "one_at h" "\<lambda>_. 0" "\<lambda>_. 0" "one_at lh" ?w1]
      has_room_split(1) [of "one_at h" "one_at lh" "one_at lh" "\<lambda>_. 0" w] r1 by (simp add: add.commute)
  then have u2: "?U h (with_log (lines h) (bump (one_at h) (one_at lh) w)) = Ret (bump (\<lambda>_. 0) (one_at lh) ?w1)"
    using unref_bump' [of h "bump (\<lambda>_. 0) (one_at lh) ?w1" E n] by (simp add: bump_bump bump_with_log)
  have "has_room (\<lambda>_. 0) (one_at lh) ?w1"
    using has_room_split(1) [of "\<lambda>_. 0" "\<lambda>a. one_at lh a + one_at h a" "one_at lh" "\<lambda>_. 0" w] r1 by simp
  then have d: "di_drop_weak_ref lh (bump (\<lambda>_. 0) (one_at lh) ?w1) = Ret ?w1"
    by (rule drop_weak_bump')
  show ?thesis by (cases "reply h") (simp_all add: emit_one_def up get comm u1 call u2 d visit_lines_def del: di_unref_object.simps)
qed

text \<open>A listener whose handle is dead is passed over; the weak reference taken to it is not given back.\<close>

definition stopped :: "world \<Rightarrow> oref \<Rightarrow> bool" where
  "stopped w lh \<longleftrightarrow> (\<exists>x. heap w lh = Some x \<and> ref_count x = 0)"

lemma stopped_simps [simp]: "stopped (with_log ls w) = stopped w" "stopped (bump (\<lambda>_. 0) k w) = stopped w"
  by (auto simp: stopped_def heap_bump bump_object_def fun_eq_iff)

lemma emit_one_stopped: "stopped w lh \<Longrightarrow> emit_one U C args lh w = Ret w"
proof -
  assume "stopped w lh"
  then obtain x where "heap w lh = Some x" "ref_count x = 0" by (auto simp: stopped_def)
  then show ?thesis by (simp add: emit_one_def di_upgrade_weak_ref_def get_obj_def)
qed

lemma listening_bump [simp]: "listening (bump s k w) = listening w"
  by (auto simp: listening_def heap_bump bump_object_def fun_eq_iff split: option.splits)

lemma fold_weak_refs:
  "\<forall>p \<in> set ps. heap w p \<noteq> None \<Longrightarrow> fold_res di_weakly_ref_object ps w = Ret (bump (\<lambda>_. 0) (count_list ps) w)"
proof (induction ps arbitrary: w)
  case Nil
  have "count_list [] = (\<lambda>_. 0)" by (simp add: fun_eq_iff)
  then show ?case by simp
next
  case (Cons p ps)
  then obtain x where x: "heap w p = Some x" by auto
  have "fold_res di_weakly_ref_object ps (bump (\<lambda>_. 0) (one_at p) w) = Ret (bump (\<lambda>_. 0) (count_list ps) (bump (\<lambda>_. 0) (one_at p) w))"
    using Cons by (intro Cons.IH) (auto simp: heap_bump)
  moreover have "(\<lambda>a. count_list ps a + one_at p a) = count_list (p # ps)" by auto
  ultimately show ?case using x by (simp add: di_weakly_ref_object_bump bump_bump del: count_list.simps)
qed

lemma count_list_fun: "count_list (p # ps) = (\<lambda>a. one_at p a + count_list ps a)"
  by auto

text \<open>
  \<open>visitable w handler lhs lh\<close>: the listener \<open>lh\<close> is stopped, or it listens with \<open>handler lh\<close> and the counters have room for
  the references of an emission to \<open>lhs\<close>.
\<close>

definition visitable :: "world \<Rightarrow> (oref \<Rightarrow> oref) \<Rightarrow> oref list \<Rightarrow> oref \<Rightarrow> bool" where
  "visitable w handler lhs lh \<longleftrightarrow> stopped w lh \<or>
     listening w (handler lh) lh \<and> has_room (\<lambda>a. one_at lh a + one_at (handler lh) a) (count_list lhs) w"

lemma visitable_Cons:
  assumes "visitable w handler (lh # lhs) q"
  shows "visitable (with_log ls w) handler lhs q" "visitable (bump (\<lambda>_. 0) (one_at lh) w) handler lhs q"
  using assms has_room_split [of "\<lambda>a. one_at q a + one_at (handler q) a" "\<lambda>_. 0" "count_list lhs" "one_at lh" w]
  by (auto simp: visitable_def count_list_fun add.commute simp del: count_list.simps)

lemma emit_all:
  assumes "\<forall>lh \<in> set lhs. visitable w handler lhs lh" "answering C args w lines reply (handler ` set lhs)"
  shows "fold_res (emit_one (di_unref_object E (Suc n)) C args) lhs (bump (\<lambda>_. 0) (count_list lhs) w) =
    Ret (with_log (concat (map (visit_lines lines reply \<circ> handler) (rev (filter (\<lambda>lh. \<not> stopped w lh) lhs))))
      (bump (\<lambda>_. 0) (count_list (filter (stopped w) lhs)) w))"
  using assms
proof (induction lhs arbitrary: w)
  case Nil
  have "count_list [] = (\<lambda>_. 0)" by (simp add: fun_eq_iff)
  then show ?case by simp
next
  case (Cons lh lhs)
  let ?w = "bump (\<lambda>_. 0) (count_list lhs) w" and ?w1 = "bump (\<lambda>_. 0) (one_at lh) w"
  have split: "bump (\<lambda>_. 0) (count_list (lh # lhs)) w = bump (\<lambda>_. 0) (one_at lh) ?w"
    by (simp add: bump_bump count_list_fun del: count_list.simps)
  have comm: "bump (\<lambda>_. 0) (one_at lh) ?w = bump (\<lambda>_. 0) (count_list lhs) ?w1" by (simp add: bump_bump add.commute)
  have ans: "answering C args w lines reply (handler ` set lhs)" using Cons.prems(2) by (simp add: answering_def)
  show ?case
  proof (cases "stopped w lh")
    case True
    have "stopped (bump (\<lambda>_. 0) (count_list lhs) ?w1) lh" using True by simp
    note one = emit_one_stopped [OF this]
    have "\<forall>q \<in> set lhs. visitable ?w1 handler lhs q" using Cons.prems(1) visitable_Cons(2) by simp
    note IH = Cons.IH [OF this answering_keeps(1) [OF ans]]
    have "bump (\<lambda>_. 0) (count_list (filter (stopped w) lhs)) ?w1 = bump (\<lambda>_. 0) (count_list (lh # filter (stopped w) lhs)) w"
      by (simp add: bump_bump count_list_fun add.commute del: count_list.simps)
    then show ?thesis using True
      unfolding split comm by (simp add: one IH del: di_unref_object.simps count_list.simps)
  next
    case False
    let ?h = "handler lh" and ?ls = "visit_lines lines reply (handler lh)"
    have l: "listening w ?h lh" and room: "has_room (\<lambda>a. one_at lh a + one_at ?h a) (\<lambda>a. one_at lh a + count_list lhs a) w"
      using Cons.prems(1) False by (auto simp: visitable_def count_list_fun simp del: count_list.simps)
    have "has_room (\<lambda>a. one_at lh a + one_at ?h a) (one_at lh) ?w"
      using has_room_split(2) [of "\<lambda>a. one_at lh a + one_at ?h a" "\<lambda>_. 0" "one_at lh" "count_list lhs" w] room by simp
    moreover have "answering C args ?w lines reply {?h}" using answering_keeps(1) [OF Cons.prems(2)] by (simp add: answering_def)
    ultimately have one: "emit_one (di_unref_object E (Suc n)) C args lh (bump (\<lambda>_. 0) (one_at lh) ?w) =
        Ret (bump (\<lambda>_. 0) (count_list lhs) (with_log ?ls w))"
      unfolding bump_with_log [symmetric] using l by (intro emit_one_calls) simp_all
    have "\<forall>q \<in> set lhs. visitable (with_log ?ls w) handler lhs q"
      using Cons.prems(1) by (auto intro: visitable_Cons(1) [of w handler lh])
    note IH = Cons.IH [OF this answering_keeps(2) [OF ans, of ?ls]]
    show ?thesis using False
      unfolding split by (simp add: one IH del: di_unref_object.simps count_list.simps) (simp add: bump_with_log [symmetric])
  qed
qed

lemma emit_listeners:
  assumes x: "heap w p = Some x" and s: "hash_find name (signals x) = Some s" "sigs w s = Some sg"
    and cnt: "nlisteners sg = int (length (listeners sg))" and args: "length args \<le> MAX_NARGS"
    and l: "\<forall>lh \<in> set (listeners sg). visitable w handler (listeners sg) lh"
    and C: "answering C args w lines reply (handler ` set (listeners sg))"
  shows "di_emitn (di_unref_object E (Suc n)) C p name args w =
    Ret (Inr (), with_log (concat (map (visit_lines lines reply \<circ> handler) (rev (filter (\<lambda>lh. \<not> stopped w lh) (listeners sg)))))
      (bump (\<lambda>_. 0) (count_list (filter (stopped w) (listeners sg))) w))"
proof -
  have "heap w lh \<noteq> None" if "lh \<in> set (listeners sg)" for lh
  proof -
    have "visitable w handler (listeners sg) lh" using l that by blast
    then show ?thesis by (auto simp: visitable_def stopped_def dest: has_roomD(1) [of _ _ _ lh])
  qed
  then have "fold_res di_weakly_ref_object (listeners sg) w = Ret (bump (\<lambda>_. 0) (count_list (listeners sg)) w)"
    by (intro fold_weak_refs) blast
  then show ?thesis using x s cnt args emit_all [OF l C, of E n]
    by (simp add: di_emitn_def get_obj_def get_sig_def not_less del: di_unref_object.simps)
qed

text \<open>
  C8. Emission visits the listeners in the order of the listener list.  Every listener whose handle is alive is
  called, once, and the references taken for its visit are given back; a callback that fails is reported
  in the log and does not stop the emission.  A listener whose handle is dead is not called, and the weak
  reference taken to its handle is never given back.  The callbacks considered here may write lines to the
  log, and return nothing or an error, but leave the objects alone: the log then shows the calls, and
  apart from it and from the lost weak references nothing has changed.
\<close>

theorem di_emitn_calls_listeners:
  assumes "heap w p = Some x" "hash_find name (signals x) = Some s" "sigs w s = Some sg"
    and "nlisteners sg = int (length (listeners sg))" and "length args \<le> MAX_NARGS"
    and "\<forall>lh \<in> set (listeners sg). visitable w handler (listeners sg) lh"
    and "answering C args w lines reply (handler ` set (listeners sg))"
  shows "di_emitn (di_unref_object E (Suc n)) C p name args w =
    Ret (Inr (), with_log (concat (map (visit_lines lines reply \<circ> handler) (rev (filter (\<lambda>lh. \<not> stopped w lh) (listeners sg)))))
      (bump (\<lambda>_. 0) (count_list (filter (stopped w) (listeners sg))) w))"
  by (rule emit_listeners [OF assms])

end
