(* ===== verification/Examples.thy ===== *)
theory Examples
  imports Client LeakCheck Signals
begin

text \<open>
  Concrete heaps: the theorems on reference counting at work.  \<open>two_objects\<close> has two fresh objects at
  addresses 1 and 2, \<open>parent_child\<close> the same two with the second stored in a member of the first.
\<close>

definition two_objects :: world where
  "two_objects = snd (alloc_object (snd (alloc_object initial_world)))"

definition parent_child :: world where
  "parent_child = with_member 1 empty_object ''child'' (VObject 2) two_objects"

lemma two_objects_heap:
  "heap two_objects = [0 \<mapsto> dead_weakly_referenced_object, 1 \<mapsto> empty_object, 2 \<mapsto> empty_object]"
  "sigs two_objects = Map.empty" "next_addr two_objects = 3"
  by (simp_all add: two_objects_def alloc_object_def initial_world_def Let_def dead_weak_ref_def numeral_eq_Suc)

lemma parent_child_heap:
  "heap parent_child = [0 \<mapsto> dead_weakly_referenced_object,
     1 \<mapsto> empty_object\<lparr>members := [(''child'', \<lparr>m_addr = 3, m_val = VObject 2\<rparr>)]\<rparr>, 2 \<mapsto> empty_object]"
  "sigs parent_child = Map.empty"
  by (auto simp: parent_child_def with_member_def two_objects_heap hash_add_def empty_object_def fun_eq_iff)

lemma two_objects_ok: "world_ok (\<lambda>a. one_at 1 a + one_at 2 a) (one_at 0) two_objects"
proof -
  have ok: "world_ok (\<lambda>_. 0) (one_at 0) initial_world"
    using client_init_inv by (simp add: client_inv_def client_init_def dead_weak_ref_def)
  have n: "next_addr initial_world = 1" "next_addr (snd (alloc_object initial_world)) = 2"
    by (simp_all add: initial_world_def alloc_object_def Let_def)
  from alloc_object_ok [OF alloc_object_ok [OF ok]] n show ?thesis by (simp add: two_objects_def)
qed

lemma parent_child_ok: "world_ok (one_at 1) (one_at 0) parent_child"
  unfolding parent_child_def
  by (rule with_member_ok)
    (use two_objects_ok in \<open>simp_all add: two_objects_heap empty_object_def check_new_member_def starts_with_def\<close>)

lemma parent_child_weight: "weight parent_child = 4"
  by (simp add: weight_def parent_child_heap sum_entries_def empty_object_def dead_weakly_referenced_object_def)

lemma parent_child_acyclic: "acyclic (points_to parent_child)"
proof -
  have "points_to parent_child = {(1, 2)}"
    by (auto simp: points_to_def parent_child_heap obj_values_def empty_object_def dead_weakly_referenced_object_def
        split: if_splits)
  then show ?thesis by (auto intro: acyclicI)
qed

theorem di_unref_object_safe_witness:
  "\<exists>w'. di_unref_object plain_ext 5 1 parent_child = Ret w' \<and> rc_inv {} (\<lambda>_. 0) (one_at 0) w'"
  using di_unref_object_safe [of "\<lambda>_. 0" 1 "one_at 0" parent_child 5 plain_ext]
    world_okD(1) [OF parent_child_ok] parent_child_weight by auto

theorem drop_all_references_witness:
  "\<exists>w'. fold_res (di_unref_object plain_ext 5) [1] parent_child = Ret w' \<and> heap w' 1 = None \<and> heap w' 2 = None"
proof -
  have "count_list [1] = one_at (1 :: nat)" by (auto simp: fun_eq_iff)
  then have "rc_inv {} (count_list [1]) (one_at 0) parent_child" using world_okD(1) [OF parent_child_ok] by simp
  from drop_all_references [OF this parent_child_acyclic, of 5 plain_ext]
  obtain w' where w': "fold_res (di_unref_object plain_ext 5) [1] parent_child = Ret w'"
    "\<And>p x. heap w' p = Some x \<Longrightarrow> 0 < one_at 0 p + sum_entries (sig_refs p) (sigs parent_child)"
    using parent_child_weight by auto
  have "heap w' p = None" if "p \<noteq> 0" for p
    using w'(2) [of p] that by (cases "heap w' p") (auto simp: parent_child_heap)
  with w'(1) show ?thesis by auto
qed

theorem di_copy_value_free_roundtrip_witness:
  "\<exists>w'. di_copy_value (VTuple [VObject 1, VArray DI_TYPE_OBJECT (Some [VObject 1])]) parent_child =
      Ret (VTuple [VObject 1, VArray DI_TYPE_OBJECT (Some [VObject 1])], w') \<and>
    di_free_value (di_unref_object plain_ext 1) (VTuple [VObject 1, VArray DI_TYPE_OBJECT (Some [VObject 1])]) w' = Ret parent_child"
proof -
  let ?v = "VTuple [VObject 1, VArray DI_TYPE_OBJECT (Some [VObject 1])]"
  have "has_room (strong_refs ?v) (weak_refs ?v) parent_child"
    by (auto simp: has_room_def parent_child_heap empty_object_def split: if_splits)
  from di_copy_value_free_roundtrip [OF _ this, of plain_ext 0] show ?thesis
    by (simp add: no_value_def del: di_copy_value.simps di_free_value.simps di_unref_object.simps)
qed

theorem di_add_member_move_ok_witness:
  "\<exists>w'. di_add_member_move (di_unref_object plain_ext 4) 1 (Some ''child'') (VObject 2) two_objects = Ret (Inr (), w') \<and>
    world_ok (one_at 1) (one_at 0) w' \<and> member_map 1 w' ''child'' = Some (VObject 2)"
proof -
  have ok: "world_ok (\<lambda>a. one_at 1 a + strong_refs (VObject 2) a) (\<lambda>a. one_at 0 a + weak_refs (VObject 2) a) two_objects"
    using two_objects_ok by simp
  have wt: "weight two_objects < 4"
    by (simp add: weight_def two_objects_heap sum_entries_def empty_object_def dead_weakly_referenced_object_def)
  have x: "heap two_objects 1 = Some empty_object" by (simp add: two_objects_heap)
  have n: "check_new_member empty_object ''child'' = None"
    by (simp add: check_new_member_def empty_object_def starts_with_def)
  from di_add_member_move_ok [OF ok _ x _ _ _ _ wt, of plain_ext "''child''"] n show ?thesis
    by (auto simp: empty_object_def simp del: di_unref_object.simps)
qed

theorem di_rawgetx_ok_witness:
  "\<exists>w'. di_rawgetx 1 (Some ''child'') parent_child = Ret (Inr (VObject 2), w') \<and>
    world_ok (\<lambda>a. one_at 1 a + one_at 2 a) (one_at 0) w'"
proof -
  have mm: "member_map 1 parent_child ''child'' = Some (VObject 2)"
    by (simp add: member_map_def parent_child_heap empty_object_def)
  have v: "copy_ok v \<and> v \<noteq> VNil \<and> has_room (strong_refs v) (weak_refs v) parent_child"
    if "member_map 1 parent_child ''child'' = Some v" for v
    using that mm by (auto simp: has_room_def parent_child_heap empty_object_def split: if_splits)
  have "heap parent_child 1 = Some (empty_object\<lparr>members := [(''child'', \<lparr>m_addr = 3, m_val = VObject 2\<rparr>)]\<rparr>)"
    by (simp add: parent_child_heap)
  from di_rawgetx_ok [OF parent_child_ok this, of "''child''", OF v] mm show ?thesis by auto
qed

theorem di_remove_member_raw_ok_witness:
  "\<exists>w'. di_remove_member_raw (di_unref_object plain_ext 5) 1 (Some ''child'') parent_child = Ret (Inr (), w') \<and>
    world_ok (one_at 1) (one_at 0) w' \<and> member_map 1 w' ''child'' = None"
proof -
  have x: "heap parent_child 1 = Some (empty_object\<lparr>members := [(''child'', \<lparr>m_addr = 3, m_val = VObject 2\<rparr>)]\<rparr>)"
    by (simp add: parent_child_heap)
  have mm: "member_map 1 parent_child ''child'' = Some (VObject 2)"
    by (simp add: member_map_def parent_child_heap empty_object_def)
  have wt: "weight parent_child < 5" using parent_child_weight by simp
  from di_remove_member_raw_ok [OF parent_child_ok _ x _ _ wt, of "''child''" plain_ext] mm show ?thesis
    by (auto simp: empty_object_def simp del: di_unref_object.simps)
qed

definition one_object :: client where
  "one_object = account Op_new (Owned (VObject 1)) (snd (alloc_object initial_world)) client_init"

lemma one_object_reachable: "reachable E one_object"
proof -
  have "is_pow2 8" by (simp add: is_pow2.simps)
  then have "exec_op E Op_new (cworld client_init) = Ret (Owned (VObject 1), snd (alloc_object initial_world))"
    by (simp add: client_init_def di_new_object_def alloc_object_def initial_world_def Let_def)
  from client_step.step [OF _ this] have "client_step E client_init Op_new one_object" by (simp add: one_object_def)
  with reachable.init show ?thesis by (rule reachable.more)
qed

theorem client_protocol_safe_witness:
  "\<exists>c'. client_step plain_ext one_object (Op_add_member 1 ''answer'' (VInt 42)) c'"
proof -
  have "permitted (Op_add_member 1 ''answer'' (VInt 42)) one_object"
    by (simp add: one_object_def account_def client_init_def owns_def)
  with client_protocol_safe [OF one_object_reachable [of plain_ext]] show ?thesis by blast
qed

text \<open>
  A roots object at 1 with an object member (2) and an anonymous root (3), and an object (4) that
  nobody refers to.
\<close>

definition rooted :: world where
  "rooted = \<lparr>heap = [1 \<mapsto> empty_object\<lparr>members := [(''__root_a'', \<lparr>m_addr = 5, m_val = VObject 2\<rparr>)],
        payload := PRoots 2 [(1, 3)]\<rparr>, 2 \<mapsto> empty_object, 3 \<mapsto> empty_object, 4 \<mapsto> empty_object],
     sigs = Map.empty, next_addr = 6, all_objects = [4, 3, 2, 1], log_lines = []\<rparr>"

lemma rooted_edges: "member_edge rooted p q \<longleftrightarrow> p = 1 \<and> q = 2"
  by (auto simp: member_edge_def rooted_def object_members_def empty_object_def)

lemma rooted_reach: "(member_edge rooted)\<^sup>*\<^sup>* p q \<longleftrightarrow> p = q \<or> p = 1 \<and> q = 2"
proof
  show "(member_edge rooted)\<^sup>*\<^sup>* p q \<Longrightarrow> p = q \<or> p = 1 \<and> q = 2"
    by (induction rule: rtranclp_induct) (auto simp: rooted_edges)
qed (auto simp: rooted_edges)

theorem di_mark_and_sweep_exact_witness: "\<exists>s. di_mark_and_sweep 5 1 rooted = Ret (True, s)"
proof -
  have x: "heap rooted 1 = Some (empty_object\<lparr>members := [(''__root_a'', \<lparr>m_addr = 5, m_val = VObject 2\<rparr>)],
      payload := PRoots 2 [(1, 3)]\<rparr>)" by (simp add: rooted_def)
  have e: "edges_ok rooted" by (auto simp: edges_ok_def rooted_edges) (simp add: rooted_def)
  have l: "set (all_objects rooted) = {1, 2, 3, 4}" by (auto simp: rooted_def)
  from di_mark_and_sweep_exact [OF _ e x, of 5] show ?thesis
    by (simp add: anonymous_roots_def rooted_reach l) (simp add: rooted_def)
qed

theorem di_dump_objects_excess_witness: "\<exists>e. di_dump_objects (Some 1) rooted = Ret e \<and> e 1 = 0 \<and> e 4 = 1"
proof -
  have x: "heap rooted 1 = Some (empty_object\<lparr>members := [(''__root_a'', \<lparr>m_addr = 5, m_val = VObject 2\<rparr>)],
      payload := PRoots 2 [(1, 3)]\<rparr>)" by (simp add: rooted_def)
  have cnt: "strong_cnt rooted p = one_at 2 p + one_at 3 p" "weak_cnt rooted p = 0" "member_cnt rooted p = one_at 2 p" for p
    by (simp_all add: strong_cnt_def weak_cnt_def member_cnt_def rooted_def sum_entries_def obj_values_def empty_object_def
        object_members_def)
  have "counts_ok (\<lambda>a. one_at 1 a + one_at 4 a) (\<lambda>_. 0) rooted"
    by (rule counts_okI) (auto simp: object_counts_ok_def cnt, auto simp: rooted_def empty_object_def split: if_splits)
  moreover have "tracked rooted" by (auto simp: tracked_def rooted_def empty_object_def split: if_splits)
  ultimately obtain e where e: "di_dump_objects (Some 1) rooted = Ret e"
    "\<And>p y. heap rooted p = Some y \<Longrightarrow> e p = of_nat (strong_cnt rooted p + (one_at 1 p + one_at 4 p) -
       (member_cnt rooted p + count_list (anonymous_roots (the (heap rooted 1))) p + one_at 1 p))"
    using di_dump_objects_excess [OF _ _ x] x by fastforce
  have "heap rooted 4 = Some empty_object" by (simp add: rooted_def)
  with e x show ?thesis by (auto simp: cnt anonymous_roots_def)
qed

text \<open>
  An emitter at 9 with a getter for every name, an integer member and one listener; the handler object
  at 2 serves as getter and as callback, 3 is the listen handle and 4 the signal struct.
\<close>

definition emitter :: world where
  "emitter = \<lparr>heap =
      [9 \<mapsto> empty_object\<lparr>members := [(''__get'', \<lparr>m_addr = 5, m_val = VObject 2\<rparr>), (''level'', \<lparr>m_addr = 6, m_val = VInt 7\<rparr>)],
              signals := [(''changed'', 4)], weak_ref_count := 2\<rparr>,
       2 \<mapsto> empty_object\<lparr>call := Some (Call_ext 0), ref_count := 2\<rparr>,
       3 \<mapsto> empty_object\<lparr>members := [(''__handler'', \<lparr>m_addr = 7, m_val = VObject 2\<rparr>)], weak_ref_count := 2,
              dtor := Some Dtor_listen_handle, payload := PListenHandle (Some 4)\<rparr>],
     sigs = [4 \<mapsto> \<lparr>sig_name = ''changed'', nlisteners = 1, owner = 9, listeners = [3]\<rparr>],
     next_addr = 10, all_objects = [9, 3, 2], log_lines = []\<rparr>"

lemma emitter_heap:
  "heap emitter 9 = Some (empty_object\<lparr>members := [(''__get'', \<lparr>m_addr = 5, m_val = VObject 2\<rparr>), (''level'', \<lparr>m_addr = 6, m_val = VInt 7\<rparr>)],
     signals := [(''changed'', 4)], weak_ref_count := 2\<rparr>)"
  "heap emitter 2 = Some (empty_object\<lparr>call := Some (Call_ext 0), ref_count := 2\<rparr>)"
  "heap emitter 3 = Some (empty_object\<lparr>members := [(''__handler'', \<lparr>m_addr = 7, m_val = VObject 2\<rparr>)], weak_ref_count := 2,
     dtor := Some Dtor_listen_handle, payload := PListenHandle (Some 4)\<rparr>)"
  "sigs emitter 4 = Some \<lparr>sig_name = ''changed'', nlisteners = 1, owner = 9, listeners = [3]\<rparr>"
  by (simp_all add: emitter_def)

theorem handler_dispatch_witness:
  "call_handler_with_fallback (di_unref_object plain_ext 3) (obj_call plain_ext 3) 9 ''__get'' ''size'' None True emitter =
     answer_slot (di_unref_object plain_ext 3) (obj_call plain_ext 3) True 9 2 [VString (Some ''size'')] emitter \<and>
   call_handler_with_fallback (di_unref_object plain_ext 3) (obj_call plain_ext 3) 9 ''__get'' ''size'' (Some (VInt 1)) False emitter =
     answer_slot (di_unref_object plain_ext 3) (obj_call plain_ext 3) False 9 2 [VString (Some ''size''), VInt 1] emitter"
proof -
  have "plain_slot 9 (handler_name ''__get'' ''size'') emitter" "plain_slot 9 ''__get'' emitter"
    by (simp_all add: plain_slot_def member_map_def emitter_heap handler_name_def cstr_def empty_object_def)
  from handler_dispatch [OF emitter_heap(1) this, of "di_unref_object plain_ext 3" "obj_call plain_ext 3"] show ?thesis
    by (simp add: callee_def member_map_def emitter_heap handler_name_def cstr_def empty_object_def di_is_internal_def
        starts_with_def arg_values_def del: di_unref_object.simps obj_call.simps)
qed

theorem di_setx_keeps_type_witness:
  "\<exists>w'. di_setx (di_unref_object plain_ext 3) (obj_call plain_ext 3) 9 (Some ''level'') (VUint 5) emitter = Ret (Inr (), w') \<and>
     member_map 9 w' ''level'' = Some (VInt 5)"
proof -
  have nh: "no_handler 9 ''__set'' ''level'' emitter" "no_handler 9 ''__delete'' ''level'' emitter"
    by (simp_all add: no_handler_def member_map_def emitter_heap handler_name_def cstr_def empty_object_def)
  from di_setx_keeps_type [OF emitter_heap(1) _ nh, of "\<lparr>m_addr = 6, m_val = VInt 7\<rparr>" "VUint 5" "di_unref_object plain_ext 3" "obj_call plain_ext 3"]
  show ?thesis
    by (auto simp: empty_object_def scalar_def reinterpret_def simp del: di_unref_object.simps obj_call.simps)
qed

text \<open>A runtime whose callbacks write a line to the log.  Object 8 is a second listen handle, already dead.\<close>

definition logging_ext :: ext where
  "logging_ext = plain_ext\<lparr>ext_call := \<lambda>U C n p args w. Ret (Inr VNil, with_log [''called''] w)\<rparr>"

definition stopped_emitter :: world where
  "stopped_emitter = emitter\<lparr>heap := (heap emitter)(8 \<mapsto> empty_object\<lparr>ref_count := 0, destroyed := True\<rparr>),
     sigs := [4 \<mapsto> \<lparr>sig_name = ''changed'', nlisteners = 2, owner = 9, listeners = [3, 8]\<rparr>]\<rparr>"

lemma logging_answers:
  assumes "\<And>h. h \<in> hs \<Longrightarrow> \<exists>y. heap w h = Some y \<and> call y = Some (Call_ext 0)"
  shows "answering (obj_call logging_ext (Suc n)) args w (\<lambda>_. [''called'']) (\<lambda>_. None) hs"
  using assms by (fastforce simp: answering_def run_call_def get_obj_def heap_bump bump_object_def logging_ext_def)

lemma emit_unheard: "heap w p = Some x \<Longrightarrow> hash_find name (signals x) = None \<Longrightarrow> length args \<le> MAX_NARGS \<Longrightarrow> di_emitn U C p name args w = Ret (Inr (), w)"
  by (simp add: di_emitn_def get_obj_def not_less)

lemma emit_logged:
  assumes "heap w p = Some x" "hash_find name (signals x) = Some s" "sigs w s = Some \<lparr>sig_name = sn, nlisteners = 1, owner = ow, listeners = [lh]\<rparr>"
    and "length args \<le> MAX_NARGS" "listening w h lh" "has_room (\<lambda>a. one_at lh a + one_at h a) (one_at lh) w"
    and "heap w h = Some y" "call y = Some (Call_ext 0)"
  shows "di_emitn (di_unref_object logging_ext 1) (obj_call logging_ext 1) p name args w = Ret (Inr (), with_log [''called''] w)"
proof -
  let ?sg = "\<lparr>sig_name = sn, nlisteners = 1, owner = ow, listeners = [lh]\<rparr>"
  have c: "count_list [lh] = one_at lh" by auto
  have st: "\<not> stopped w lh" using has_roomD(1) [OF assms(6), of lh] by (auto simp: stopped_def)
  have v: "\<forall>q \<in> set (listeners ?sg). visitable w (\<lambda>_. h) (listeners ?sg) q"
    using assms(5,6) c by (simp add: visitable_def del: count_list.simps)
  have a: "answering (obj_call logging_ext 1) args w (\<lambda>_. [''called'']) (\<lambda>_. None) ((\<lambda>_. h) ` set (listeners ?sg))"
    unfolding One_nat_def by (rule logging_answers) (use assms(7,8) in auto)
  have "count_list [] = (\<lambda>_ :: oref. 0)" by (simp add: fun_eq_iff)
  then show ?thesis
    using emit_listeners [where E = logging_ext and n = 0, OF assms(1-3) _ assms(4) v a] st
    by (simp add: visit_lines_def del: di_unref_object.simps obj_call.simps count_list.simps)
qed

theorem di_emitn_calls_listeners_witness:
  "di_emitn (di_unref_object logging_ext 1) (obj_call logging_ext 1) 9 ''changed'' [VInt 3] stopped_emitter =
     Ret (Inr (), with_log [''called''] (bump (\<lambda>_. 0) (one_at 8) stopped_emitter))"
proof -
  let ?sg = "\<lparr>sig_name = ''changed'', nlisteners = 2, owner = 9, listeners = [3, 8]\<rparr>"
  have h: "heap stopped_emitter 9 = heap emitter 9" "heap stopped_emitter 3 = heap emitter 3" "heap stopped_emitter 2 = heap emitter 2"
    "heap stopped_emitter 8 = Some (empty_object\<lparr>ref_count := 0, destroyed := True\<rparr>)" "sigs stopped_emitter 4 = Some ?sg"
    by (simp_all add: stopped_emitter_def)
  have st: "stopped stopped_emitter 8" "\<not> stopped stopped_emitter 3" by (simp_all add: stopped_def h emitter_heap empty_object_def)
  have "listening stopped_emitter 2 3" by (simp add: listening_def member_map_def h emitter_heap empty_object_def)
  moreover have "has_room (\<lambda>a. one_at 3 a + one_at 2 a) (count_list [3, 8]) stopped_emitter"
    by (auto simp: has_room_def h emitter_heap empty_object_def split: if_splits)
  ultimately have v: "\<forall>lh \<in> set (listeners ?sg). visitable stopped_emitter (\<lambda>_. 2) (listeners ?sg) lh"
    using st by (simp add: visitable_def del: count_list.simps)
  have ans: "answering (obj_call logging_ext 1) [VInt 3] stopped_emitter (\<lambda>_. [''called'']) (\<lambda>_. None) ((\<lambda>_. 2) ` set (listeners ?sg))"
    unfolding One_nat_def by (rule logging_answers) (auto simp: h emitter_heap empty_object_def)
  have "heap stopped_emitter 9 = Some (empty_object\<lparr>members := [(''__get'', \<lparr>m_addr = 5, m_val = VObject 2\<rparr>), (''level'', \<lparr>m_addr = 6, m_val = VInt 7\<rparr>)],
     signals := [(''changed'', 4)], weak_ref_count := 2\<rparr>)" by (simp add: h emitter_heap)
  moreover have "count_list [8] = one_at (8 :: nat)" by auto
  ultimately show ?thesis
    using di_emitn_calls_listeners [where E = logging_ext and n = 0 and p = 9 and name = "''changed''", OF _ _ h(5) _ _ v ans] st
    by (simp add: empty_object_def MAX_NARGS_def visit_lines_def del: di_unref_object.simps obj_call.simps count_list.simps)
qed

end
