(* ===== verification/StringBuf.thy ===== *)
theory StringBuf
  imports Prelude
begin

text \<open>
  The append-only string buffer of \<open>string_buf.c\<close>: a list of nodes, each a NUL-terminated copy with a
  length beside it.  \<open>string_buf_push\<close> and \<open>string_buf_lpush\<close> append a node; \<open>string_buf_dump\<close> joins the
  nodes and empties the buffer.

  The length that \<open>string_buf_lpush\<close> records counts the bytes it was given, while the copy ends at the
  first NUL.  \<open>string_buf_dump\<close> sizes its result by the copies and fills it by the lengths, so a node
  whose length exceeds its copy makes it write past the end.
\<close>

record string_buf_node =
  sbn_str :: string
  sbn_len :: nat

type_synonym string_buf = "string_buf_node list"

definition string_buf_new :: string_buf where
  "string_buf_new = []"

definition string_buf_push :: "string \<Rightarrow> string_buf \<Rightarrow> string_buf" where
  "string_buf_push str buf = buf @ [\<lparr>sbn_str = cstr str, sbn_len = length (cstr str)\<rparr>]"

definition string_buf_lpush :: "string \<Rightarrow> nat \<Rightarrow> string_buf \<Rightarrow> string_buf" where
  "string_buf_lpush str len buf = buf @ [\<lparr>sbn_str = cstr (take len str), sbn_len = len\<rparr>]"

definition string_buf_is_empty :: "string_buf \<Rightarrow> bool" where
  "string_buf_is_empty buf = (buf = [])"

definition string_buf_clear :: "string_buf \<Rightarrow> string_buf" where
  "string_buf_clear buf = []"

text \<open>The second loop of \<open>string_buf_dump\<close>: \<open>room\<close> bytes are left before the terminator.\<close>

fun dump_nodes :: "nat \<Rightarrow> string_buf \<Rightarrow> string res" where
  "dump_nodes room [] = Ret []"
| "dump_nodes room (n # ns) =
     (if length (sbn_str n) < sbn_len n \<or> room < sbn_len n then Fault Out_Of_Bounds
      else bind_res (dump_nodes (room - sbn_len n) ns) (\<lambda>rest. Ret (take (sbn_len n) (sbn_str n) @ rest)))"

definition string_buf_dump :: "string_buf \<Rightarrow> (string \<times> string_buf) res" where
  "string_buf_dump buf =
     bind_res (dump_nodes (\<Sum>n \<leftarrow> buf. length (sbn_str n)) buf) (\<lambda>ret. Ret (ret, []))"

definition buf_ok :: "string_buf \<Rightarrow> bool" where
  "buf_ok buf \<longleftrightarrow> (\<forall>n \<in> set buf. sbn_len n = length (sbn_str n) \<and> nul_free (sbn_str n))"

definition buf_text :: "string_buf \<Rightarrow> string" where
  "buf_text buf = concat (map sbn_str buf)"

lemma buf_text_simps [simp]:
  "buf_text [] = []" "buf_text (n # ns) = sbn_str n @ buf_text ns" "buf_text (ms @ ns) = buf_text ms @ buf_text ns"
  by (simp_all add: buf_text_def)

lemma buf_ok_simps [simp]:
  "buf_ok []" "buf_ok (ms @ ns) = (buf_ok ms \<and> buf_ok ns)"
  "buf_ok (n # ns) = (sbn_len n = length (sbn_str n) \<and> nul_free (sbn_str n) \<and> buf_ok ns)"
  by (auto simp: buf_ok_def)

lemma dump_nodes_ok: "buf_ok buf \<Longrightarrow> dump_nodes (\<Sum>n \<leftarrow> buf. length (sbn_str n)) buf = Ret (buf_text buf)"
  by (induction buf) auto

lemma string_buf_dump_ok: "buf_ok buf \<Longrightarrow> string_buf_dump buf = Ret (buf_text buf, [])"
  by (simp add: string_buf_dump_def dump_nodes_ok)

lemma string_buf_push_ok [simp]: "buf_ok (string_buf_push s buf) = buf_ok buf"
  "buf_text (string_buf_push s buf) = buf_text buf @ cstr s"
  by (simp_all add: string_buf_push_def)

lemma string_buf_lpush_ok:
  assumes "nul_free s"
  shows "buf_ok (string_buf_lpush s (length s) buf) = buf_ok buf"
    "buf_text (string_buf_lpush s (length s) buf) = buf_text buf @ s"
  using assms by (simp_all add: string_buf_lpush_def)

text \<open>
  A fixed sequence of pushes: what the buffer holds is the concatenation of the pieces, and dumping it
  gives the text back and leaves the buffer empty.
\<close>

definition push_all :: "string list \<Rightarrow> string_buf \<Rightarrow> string_buf" where
  "push_all = fold (\<lambda>s. string_buf_lpush s (length s))"

lemma push_all_text:
  "\<forall>s \<in> set ss. nul_free s \<Longrightarrow> buf_ok buf \<Longrightarrow> buf_ok (push_all ss buf) \<and> buf_text (push_all ss buf) = buf_text buf @ concat ss"
proof (induction ss arbitrary: buf)
  case (Cons s ss)
  then show ?case using Cons.IH [of "string_buf_lpush s (length s) buf"] by (simp add: push_all_def string_buf_lpush_ok)
qed (simp add: push_all_def)

text \<open>
  Pushing pieces and dumping is concatenation, exactly when no piece has a NUL byte: one that does
  makes the dump write outside its allocation.
\<close>

theorem string_buf_dump_concat:
  "string_buf_dump (push_all ss string_buf_new) =
     (if \<forall>s \<in> set ss. nul_free s then Ret (concat ss, []) else Fault Out_Of_Bounds)"
proof (cases "\<forall>s \<in> set ss. nul_free s")
  case True
  then show ?thesis using push_all_text [of ss "[]"] by (simp add: string_buf_new_def string_buf_dump_ok)
next
  case False
  have nodes: "push_all ss buf = buf @ map (\<lambda>s. \<lparr>sbn_str = cstr s, sbn_len = length s\<rparr>) ss" for buf
    by (induction ss arbitrary: buf) (simp_all add: push_all_def string_buf_lpush_def)
  have "dump_nodes room (map (\<lambda>s. \<lparr>sbn_str = cstr s, sbn_len = length s\<rparr>) ss) = Fault Out_Of_Bounds" for room
    using False
  proof (induction ss arbitrary: room)
    case (Cons s ss)
    show ?case
    proof (cases "nul_free s")
      case True
      then show ?thesis using Cons by simp
    next
      case False
      then have "length (cstr s) < length s"
        using length_cstr [of s] by (metis cstr_def nat_less_le nul_free_cstr takeWhile_eq_all_conv take_all_iff takeWhile_eq_take)
      then show ?thesis by simp
    qed
  qed simp
  with False show ?thesis by (simp add: nodes string_buf_new_def string_buf_dump_def)
qed

theorem string_buf_dump_concat_witness:
  "string_buf_dump (push_all [''ab'', ''c''] string_buf_new) = Ret (''abc'', [])"
  using string_buf_dump_concat [of "[''ab'', ''c'']"] by (simp add: nul_free_def)

end
