(* ===== verification/Posix.thy ===== *)
theory Posix
  imports Prelude
begin

text \<open>
  The part of the operating system's interface the program manages resources with: the descriptor
  table of a process.  Which calls succeed is decided by the list \<open>answers\<close>, one entry per call that can
  fail.  A new descriptor is the lowest free number.  \<open>ofile\<close> is what a descriptor stands for.
\<close>

datatype ofile = Null_In | Null_Out | Pipe_In nat | Pipe_Out nat | Other_File nat

record posix =
  fdt :: "(int, ofile) table"
  next_pipe :: nat
  answers :: "bool list"

definition sys_ok :: "posix \<Rightarrow> bool \<times> posix" where
  "sys_ok s = (case answers s of [] \<Rightarrow> (False, s) | a # as \<Rightarrow> (a, s\<lparr>answers := as\<rparr>))"

definition lowest_fd :: "(int, ofile) table \<Rightarrow> int" where
  "lowest_fd t = int (length (takeWhile (\<lambda>i. hash_find (int i) t \<noteq> None) [0..<Suc (length t)]))"

definition sys_open :: "ofile \<Rightarrow> posix \<Rightarrow> int \<times> posix" where
  "sys_open f s =
     (let (ok, s1) = sys_ok s in
      if ok then let fd = lowest_fd (fdt s1) in (fd, s1\<lparr>fdt := hash_add fd f (fdt s1)\<rparr>) else (-1, s1))"

text \<open>The arguments are the array \<open>pipe\<close> fills; a failing call leaves it as it is.\<close>

definition sys_pipe :: "int \<times> int \<Rightarrow> posix \<Rightarrow> bool \<times> (int \<times> int) \<times> posix" where
  "sys_pipe a s =
     (let (ok, s1) = sys_ok s in
      if ok then
        let r = lowest_fd (fdt s1); t1 = hash_add r (Pipe_In (next_pipe s1)) (fdt s1);
            w = lowest_fd t1; t2 = hash_add w (Pipe_Out (next_pipe s1)) t1
        in (True, (r, w), s1\<lparr>fdt := t2, next_pipe := Suc (next_pipe s1)\<rparr>)
      else (False, a, s1))"

definition sys_close :: "int \<Rightarrow> posix \<Rightarrow> posix" where
  "sys_close fd s = s\<lparr>fdt := hash_del fd (fdt s)\<rparr>"

definition sys_dup2 :: "int \<Rightarrow> int \<Rightarrow> posix \<Rightarrow> bool \<times> posix" where
  "sys_dup2 old new s =
     (let (ok, s1) = sys_ok s in
      case hash_find old (fdt s1) of
        None \<Rightarrow> (False, s1)
      | Some f \<Rightarrow>
         if \<not> ok then (False, s1)
         else if old = new then (True, s1)
         else (True, s1\<lparr>fdt := hash_add new f (hash_del new (fdt s1))\<rparr>))"

subsection \<open>The table as a map\<close>

lemma sys_ok_simps [simp]: "fdt (snd (sys_ok s)) = fdt s" "next_pipe (snd (sys_ok s)) = next_pipe s"
  by (simp_all add: sys_ok_def split: list.splits)

lemma sys_ok_fdt: "sys_ok s = (b, s') \<Longrightarrow> fdt s' = fdt s \<and> next_pipe s' = next_pipe s"
  by (metis snd_conv sys_ok_simps)

lemma lowest_fd_free: "hash_find (lowest_fd t) t = None"
proof (rule ccontr)
  let ?P = "\<lambda>i. hash_find (int i) t \<noteq> None" and ?l = "[0..<Suc (length t)]"
  let ?n = "length (takeWhile ?P ?l)"
  assume *: "hash_find (lowest_fd t) t \<noteq> None"
  have "?n = length ?l"
  proof (rule ccontr)
    assume "?n \<noteq> length ?l"
    then have lt: "?n < length ?l" using length_takeWhile_le [of ?P ?l] by linarith
    then have "\<not> ?P (?l ! ?n)" by (rule nth_length_takeWhile)
    moreover have "?l ! ?n = ?n" using lt by (subst nth_upt) auto
    ultimately show False using * by (simp only: lowest_fd_def)
  qed
  then have "takeWhile ?P ?l = ?l" using takeWhile_eq_take [of ?P ?l] by (simp only: take_all order_refl)
  then have all: "\<forall>i \<in> set ?l. ?P i" by (simp only: takeWhile_eq_all_conv)
  have "int ` set ?l \<subseteq> fst ` set t"
  proof
    fix j assume "j \<in> int ` set ?l"
    then obtain i where "i \<in> set ?l" "j = int i" by blast
    then show "j \<in> fst ` set t" using all hash_find_None_iff by metis
  qed
  then have "card (int ` set ?l) \<le> card (fst ` set t)" by (rule card_mono [rotated]) simp
  also have "\<dots> \<le> length t" using card_image_le [of "set t" fst] card_length [of t] by simp
  finally show False by (subst (asm) card_image) (auto simp del: upt_Suc)
qed

lemma lowest_fd_nonneg: "0 \<le> lowest_fd t"
  by (simp add: lowest_fd_def)

text \<open>What an opened descriptor does to the table: it was free and not negative, and nothing else changes.\<close>

definition fd_opened :: "int \<Rightarrow> ofile \<Rightarrow> (int, ofile) table \<Rightarrow> (int, ofile) table \<Rightarrow> bool" where
  "fd_opened fd f t t' \<longleftrightarrow> 0 \<le> fd \<and> hash_find fd t = None \<and> table_ok t' \<and>
     hash_find fd t' = Some f \<and> (\<forall>j. j \<noteq> fd \<longrightarrow> hash_find j t' = hash_find j t)"

lemma fd_opened_lowest: "table_ok t \<Longrightarrow> fd_opened (lowest_fd t) f t (hash_add (lowest_fd t) f t)"
  by (simp add: fd_opened_def lowest_fd_free lowest_fd_nonneg alist.find_add alist.invar_add)

lemma sys_open_cases:
  assumes "table_ok (fdt s)" and "sys_open f s = (fd, s')"
  obtains "fd = -1" "fdt s' = fdt s" "next_pipe s' = next_pipe s"
  | "fd_opened fd f (fdt s) (fdt s')" "next_pipe s' = next_pipe s"
proof -
  obtain ok s1 where k: "sys_ok s = (ok, s1)" by (cases "sys_ok s")
  with sys_ok_fdt [OF k] assms fd_opened_lowest [OF assms(1), of f] that show thesis
    by (cases ok) (auto simp: sys_open_def Let_def)
qed

lemma sys_pipe_cases:
  assumes "table_ok (fdt s)" and "sys_pipe a s = (ok, (r, w), s')"
  obtains "\<not> ok" "(r, w) = a" "fdt s' = fdt s" "next_pipe s' = next_pipe s"
  | t where "ok" "fd_opened r (Pipe_In (next_pipe s)) (fdt s) t" "fd_opened w (Pipe_Out (next_pipe s)) t (fdt s')"
      "next_pipe s' = Suc (next_pipe s)"
proof -
  obtain b s1 where k: "sys_ok s = (b, s1)" by (cases "sys_ok s")
  let ?t = "hash_add (lowest_fd (fdt s)) (Pipe_In (next_pipe s)) (fdt s)"
  have o1: "fd_opened (lowest_fd (fdt s)) (Pipe_In (next_pipe s)) (fdt s) ?t" by (rule fd_opened_lowest [OF assms(1)])
  then have o2: "fd_opened (lowest_fd ?t) (Pipe_Out (next_pipe s)) ?t (hash_add (lowest_fd ?t) (Pipe_Out (next_pipe s)) ?t)"
    by (intro fd_opened_lowest) (simp add: fd_opened_def)
  show thesis using sys_ok_fdt [OF k] k assms(2) o1 o2 that
    by (cases b) (auto simp: sys_pipe_def Let_def)
qed

lemma fdt_close [simp]: "table_ok (fdt s) \<Longrightarrow> hash_find j (fdt (sys_close fd s)) = (if j = fd then None else hash_find j (fdt s))"
  by (simp add: sys_close_def alist.find_del)

lemma table_ok_close [simp]: "table_ok (fdt s) \<Longrightarrow> table_ok (fdt (sys_close fd s))"
  by (simp add: sys_close_def alist.invar_del)

lemma next_pipe_close [simp]: "next_pipe (sys_close fd s) = next_pipe s"
  by (simp add: sys_close_def)

lemma sys_dup2_True:
  assumes "table_ok (fdt s)" and "sys_dup2 old new s = (True, s')"
  shows "table_ok (fdt s') \<and> hash_find old (fdt s) \<noteq> None \<and>
    (\<forall>j. hash_find j (fdt s') = (if j = new then hash_find old (fdt s) else hash_find j (fdt s)))"
proof -
  obtain b s1 where k: "sys_ok s = (b, s1)" by (cases "sys_ok s")
  have f: "fdt s1 = fdt s" using sys_ok_fdt [OF k] by simp
  show ?thesis using assms k f
    by (auto simp: sys_dup2_def alist.find_add alist.find_del alist.invar_add alist.invar_del split: option.splits if_splits)
qed

subsection \<open>Descriptors that were opened\<close>

definition fds_ok :: "(int, ofile) table \<Rightarrow> bool" where
  "fds_ok t \<longleftrightarrow> table_ok t \<and> (\<forall>p \<in> set t. 0 \<le> fst p)"

text \<open>\<open>opened t ps t'\<close>: \<open>t'\<close> is \<open>t\<close> with the fresh descriptors of \<open>ps\<close> added.\<close>

definition opened :: "(int, ofile) table \<Rightarrow> (int \<times> ofile) list \<Rightarrow> (int, ofile) table \<Rightarrow> bool" where
  "opened t ps t' \<longleftrightarrow> table_ok t' \<and> distinct (map fst ps) \<and> (\<forall>p \<in> set ps. 0 \<le> fst p \<and> hash_find (fst p) t = None) \<and>
     (\<forall>j. hash_find j t' = (case map_of ps j of None \<Rightarrow> hash_find j t | Some f \<Rightarrow> Some f))"

lemma fds_ok_minus_one: "fds_ok t \<Longrightarrow> hash_find (-1) t = None"
  by (force simp: fds_ok_def hash_find_None_iff)

lemma opened_Nil: "fds_ok t \<Longrightarrow> opened t [] t"
  by (simp add: opened_def fds_ok_def)

lemma opened_Cons:
  assumes "opened t ps t1" and "fd_opened fd f t1 t2"
  shows "opened t ((fd, f) # ps) t2"
proof -
  have "map_of ps fd = None" "hash_find fd t = None"
    using assms by (auto simp: opened_def fd_opened_def split: option.splits)
  with assms show ?thesis by (auto simp: opened_def fd_opened_def map_of_eq_None_iff split: option.splits)
qed

lemma opened_table_ok: "opened t ps t' \<Longrightarrow> table_ok t'"
  by (simp add: opened_def)

lemma opened_free: "opened t ps t' \<Longrightarrow> j \<in> fst ` set ps \<Longrightarrow> hash_find j t = None \<and> 0 \<le> j"
  by (force simp: opened_def)

lemma fdt_closes:
  assumes "table_ok (fdt s)"
  shows "hash_find j (fdt (fold sys_close l s)) = (if j \<in> set l then None else hash_find j (fdt s))"
    and "table_ok (fdt (fold sys_close l s))"
  using assms by (induction l arbitrary: s) auto

text \<open>Closing all of them, and nothing else, gives the old table back.\<close>

lemma opened_closed:
  assumes "fds_ok t" "opened t ps t'" "fst ` set ps \<subseteq> A" "A \<subseteq> insert (-1) (fst ` set ps)"
  shows "(if j \<in> A then None else hash_find j t') = hash_find j t"
proof (cases "j \<in> A")
  case True
  then have "j = -1 \<or> j \<in> fst ` set ps" using assms(4) by blast
  then have "hash_find j t = None" using fds_ok_minus_one [OF assms(1)] opened_free [OF assms(2)] by metis
  then show ?thesis using True by simp
next
  case False
  then have "map_of ps j = None" using assms(3) by (auto simp: map_of_eq_None_iff)
  then show ?thesis using False assms(2) by (simp add: opened_def)
qed

end
