(* ===== verification/Spawn.thy ===== *)
theory Spawn
  imports StringBuf Posix Runtime
begin

text \<open>
  Child processes: \<open>spawn.c\<close>.  The output of a child arrives in chunks; every complete line is emitted
  as a signal, the rest waits in a string buffer.  When the child exits, what is left is read, the
  rest is emitted and the descriptors are closed.

  The answers of the operating system are arguments: the chunks the reads give, the results of
  \<open>pipe\<close>, \<open>fcntl\<close>, \<open>open\<close> and \<open>fork\<close>, the wait status.  The descriptor table records what is open.
\<close>

section \<open>Lines\<close>

text \<open>
  The inner loop of \<open>output_handler\<close> over one chunk.  \<open>emit\<close> sends one line; a line is handed on as a C
  string.  Note the push of an empty piece when the chunk ends with a newline.
\<close>

function handle_chunk :: "(string \<Rightarrow> 'w \<Rightarrow> 'w res) \<Rightarrow> string \<Rightarrow> string_buf \<Rightarrow> 'w \<Rightarrow> (string_buf \<times> 'w) res" where
  "handle_chunk emit pos b w =
     (if CHR 0x0A \<in> set pos then
        let line = takeWhile (\<lambda>c. c \<noteq> CHR 0x0A) pos; rest = drop (Suc (length line)) pos in
        if \<not> string_buf_is_empty b then
          bind_res (string_buf_dump (string_buf_push line b)) (\<lambda>(out, b').
            bind_res (emit (cstr out) w) (handle_chunk emit rest b'))
        else bind_res (emit (cstr line) w) (handle_chunk emit rest b)
      else Ret (string_buf_lpush pos (length pos) b, w))"
  by pat_completeness auto

termination
proof (relation "measure (\<lambda>(emit, pos, b, w). length pos)", goal_cases)
  case 1
  then show ?case by simp
next
  case (2 emit pos b w)
  then show ?case by (cases pos) auto
next
  case (3 emit pos b w)
  then show ?case by (cases pos) auto
qed

declare handle_chunk.simps [simp del]

text \<open>The results of \<open>read\<close>, in order; the loop ends at the first one that is empty or missing.\<close>

fun output_handler :: "(string \<Rightarrow> 'w \<Rightarrow> 'w res) \<Rightarrow> string list \<Rightarrow> string_buf \<Rightarrow> 'w \<Rightarrow> (string_buf \<times> 'w) res" where
  "output_handler emit [] b w = Ret (b, w)"
| "output_handler emit (buf # reads) b w =
     (if buf = [] then Ret (b, w)
      else bind_res (handle_chunk emit buf b w) (\<lambda>(b', w'). output_handler emit reads b' w'))"

section \<open>Child processes\<close>

text \<open>
  \<open>struct child\<close>: the fields it adds to an object.  They are kept in a table beside the heap, by the
  address of the object, and the active watchers of the event loop in a list.
\<close>

record child =
  pid :: "32 word"
  outw_fd :: int
  errw_fd :: int
  out :: "string_buf option"
  err :: "string_buf option"

datatype watcher = Watch_child oref | Watch_out oref | Watch_err oref

record spawn_state =
  sp_world :: world
  sp_os :: posix
  children :: "oref \<Rightarrow> child option"
  watchers :: "watcher list"
  kills :: "(32 word \<times> 32 word) list"

definition close_out :: "oref \<Rightarrow> child \<Rightarrow> spawn_state \<Rightarrow> spawn_state" where
  "close_out p c s =
     (if out c = None then s
      else s\<lparr>watchers := removeAll (Watch_out p) (watchers s), sp_os := sys_close (outw_fd c) (sp_os s)\<rparr>)"

definition close_err :: "oref \<Rightarrow> child \<Rightarrow> spawn_state \<Rightarrow> spawn_state" where
  "close_err p c s =
     (if err c = None then s
      else s\<lparr>watchers := removeAll (Watch_err p) (watchers s), sp_os := sys_close (errw_fd c) (sp_os s)\<rparr>)"

text \<open>\<open>child_cleanup\<close> does nothing when the object cannot reach the core any more.\<close>

definition child_cleanup :: "drop_fn \<Rightarrow> call_obj \<Rightarrow> oref \<Rightarrow> spawn_state \<Rightarrow> spawn_state res" where
  "child_cleanup U C p s =
     (case children s p of
        None \<Rightarrow> Fault (Use_After_Free p)
      | Some c \<Rightarrow>
         bind_res (di_object_get_deai_strong U C p (sp_world s)) (\<lambda>(di, w1).
           case di of
             None \<Rightarrow> Ret (s\<lparr>sp_world := w1\<rparr>)
           | Some d \<Rightarrow>
              let s1 = s\<lparr>watchers := removeAll (Watch_child p) (watchers s)\<rparr>;
                  s2 = close_err p c (close_out p c s1);
                  s3 = s2\<lparr>children := (children s2)(p \<mapsto> c\<lparr>out := None, err := None\<rparr>)\<rparr>
              in bind_res (U d w1) (\<lambda>w2. Ret (s3\<lparr>sp_world := w2\<rparr>))))"

text \<open>\<open>child_destroy\<close> empties the buffers first.\<close>

definition child_destroy :: "drop_fn \<Rightarrow> call_obj \<Rightarrow> oref \<Rightarrow> spawn_state \<Rightarrow> spawn_state res" where
  "child_destroy U C p s =
     (case children s p of
        None \<Rightarrow> Fault (Use_After_Free p)
      | Some c \<Rightarrow> child_cleanup U C p (s\<lparr>children := (children s)
          (p \<mapsto> c\<lparr>out := map_option string_buf_clear (out c), err := map_option string_buf_clear (err c)\<rparr>)\<rparr>))"

definition emit_line :: "drop_fn \<Rightarrow> call_obj \<Rightarrow> oref \<Rightarrow> string \<Rightarrow> string \<Rightarrow> world \<Rightarrow> world res" where
  "emit_line U C p ev line w = bind_res (di_emitn U C p ev [VLiteral line] w) (\<lambda>(_, w1). Ret w1)"

text \<open>The callbacks of the two output watchers; \<open>reads\<close> is what the descriptor gives.\<close>

definition stdout_cb :: "drop_fn \<Rightarrow> call_obj \<Rightarrow> string list \<Rightarrow> oref \<Rightarrow> spawn_state \<Rightarrow> spawn_state res" where
  "stdout_cb U C reads p s =
     (case children s p of
        None \<Rightarrow> Fault (Use_After_Free p)
      | Some c \<Rightarrow> (case out c of
          None \<Rightarrow> Fault (Aborted ''stdout_cb'')
        | Some b \<Rightarrow> bind_res (output_handler (emit_line U C p ''stdout_line'') reads b (sp_world s)) (\<lambda>(b', w1).
            Ret (s\<lparr>sp_world := w1, children := (children s)(p \<mapsto> c\<lparr>out := Some b'\<rparr>)\<rparr>))))"

definition stderr_cb :: "drop_fn \<Rightarrow> call_obj \<Rightarrow> string list \<Rightarrow> oref \<Rightarrow> spawn_state \<Rightarrow> spawn_state res" where
  "stderr_cb U C reads p s =
     (case children s p of
        None \<Rightarrow> Fault (Use_After_Free p)
      | Some c \<Rightarrow> (case err c of
          None \<Rightarrow> Fault (Aborted ''stderr_cb'')
        | Some b \<Rightarrow> bind_res (output_handler (emit_line U C p ''stderr_line'') reads b (sp_world s)) (\<lambda>(b', w1).
            Ret (s\<lparr>sp_world := w1, children := (children s)(p \<mapsto> c\<lparr>err := Some b'\<rparr>)\<rparr>))))"

text \<open>
  The end of one output stream in \<open>sigchld_handler\<close>: what is left is read, then the buffer is emitted
  as a last line whenever it is not empty.
\<close>

definition flush_output :: "(string \<Rightarrow> 'w \<Rightarrow> 'w res) \<Rightarrow> string list \<Rightarrow> string_buf option \<Rightarrow> 'w \<Rightarrow> (string_buf option \<times> 'w) res" where
  "flush_output emit reads buf w =
     (case buf of
        None \<Rightarrow> Ret (None, w)
      | Some b \<Rightarrow> bind_res (output_handler emit reads b w) (\<lambda>(b1, w1).
          if string_buf_is_empty b1 then Ret (Some b1, w1)
          else bind_res (string_buf_dump b1) (\<lambda>(o', b2).
            bind_res (emit (cstr o') w1) (\<lambda>w2. Ret (Some b2, w2)))))"

text \<open>The macros of \<open>sys/wait.h\<close>.\<close>

definition WTERMSIG :: "32 word \<Rightarrow> 32 word" where
  "WTERMSIG st = and st 0x7f"

definition WIFSIGNALED :: "32 word \<Rightarrow> bool" where
  "WIFSIGNALED st \<longleftrightarrow> 0 < sint (signed_drop_bit 1 (ucast (WTERMSIG st + 1) :: 8 word))"

definition WEXITSTATUS :: "32 word \<Rightarrow> 32 word" where
  "WEXITSTATUS st = drop_bit 8 (and st 0xff00)"

definition sigchld_handler ::
  "drop_fn \<Rightarrow> call_obj \<Rightarrow> string list \<Rightarrow> string list \<Rightarrow> 32 word \<Rightarrow> oref \<Rightarrow> spawn_state \<Rightarrow> spawn_state res" where
  "sigchld_handler U C out_reads err_reads rstatus p s =
     (case children s p of
        None \<Rightarrow> Fault (Use_After_Free p)
      | Some c \<Rightarrow>
         bind_res (di_ref_object p (sp_world s)) (\<lambda>w1.
           let sig = (if WIFSIGNALED rstatus then WTERMSIG rstatus else 0); ec = WEXITSTATUS rstatus in
           bind_res (flush_output (emit_line U C p ''stdout_line'') out_reads (out c) w1) (\<lambda>(out', w2).
             bind_res (flush_output (emit_line U C p ''stderr_line'') err_reads (err c) w2) (\<lambda>(err', w3).
               bind_res (di_emitn U C p ''exit'' [VNint ec, VNint sig] w3) (\<lambda>(_, w4).
                 bind_res (child_cleanup U C p
                     (s\<lparr>sp_world := w4, children := (children s)(p \<mapsto> c\<lparr>out := out', err := err'\<rparr>)\<rparr>)) (\<lambda>s5.
                   bind_res (di_remove_member_raw U p (Some ''__deai'') (sp_world s5)) (\<lambda>(_, w6).
                     bind_res (U p w6) (\<lambda>w7. Ret (s5\<lparr>sp_world := w7\<rparr>)))))))))"

definition get_child_pid :: "child \<Rightarrow> 64 word" where
  "get_child_pid c = scast (pid c)"

definition kill_child :: "child \<Rightarrow> 32 word \<Rightarrow> spawn_state \<Rightarrow> spawn_state" where
  "kill_child c sig s = s\<lparr>kills := (pid c, sig) # kills s\<rparr>"

subsection \<open>Starting a child\<close>

text \<open>
  The body of \<open>di_setup_fds\<close>: the error message, if any, the two pipes, the input descriptor.  Every
  descriptor starts at -1, and all five are closed when something failed.
\<close>

definition open_pipes :: "posix \<Rightarrow> string option \<times> (int \<times> int) \<times> (int \<times> int) \<times> posix" where
  "open_pipes s =
     (let (ok1, op, s1) = sys_pipe (-1, -1) s in
      if \<not> ok1 then (Some ''Failed to open pipe'', op, (-1, -1), s1)
      else let (ok2, ep, s2) = sys_pipe (-1, -1) s1 in
      if \<not> ok2 then (Some ''Failed to open pipe'', op, ep, s2)
      else let (c1, s3) = sys_ok s2 in
      if \<not> c1 then (Some ''Can't set cloexec'', op, ep, s3)
      else let (c2, s4) = sys_ok s3 in
      if \<not> c2 then (Some ''Can't set cloexec'', op, ep, s4)
      else let (n1, s5) = sys_ok s4 in
      if \<not> n1 then (Some ''Can't set non block'', op, ep, s5)
      else let (n2, s6) = sys_ok s5 in
      if \<not> n2 then (Some ''Can't set non block'', op, ep, s6) else (None, op, ep, s6))"

definition open_null_outputs :: "posix \<Rightarrow> string option \<times> (int \<times> int) \<times> (int \<times> int) \<times> posix" where
  "open_null_outputs s =
     (let (o1, s1) = sys_open Null_Out s; (e1, s2) = sys_open Null_Out s1 in
      (if o1 < 0 \<or> e1 < 0 then Some ''Can't open /dev/null'' else None, (-1, o1), (-1, e1), s2))"

definition di_setup_fds :: "bool \<Rightarrow> posix \<Rightarrow> string option \<times> (int \<times> int) \<times> (int \<times> int) \<times> int \<times> posix" where
  "di_setup_fds ignore_output s =
     (let (e1, op, ep, s1) = (if \<not> ignore_output then open_pipes s else open_null_outputs s);
          (e2, ifd, s2) =
            (if e1 \<noteq> None then (e1, -1, s1)
             else let (fd, s') = sys_open Null_In s1 in (if fd < 0 then Some ''Can't open /dev/null'' else None, fd, s'))
      in if e2 \<noteq> None
         then (e2, op, ep, ifd,
               sys_close ifd (sys_close (snd ep) (sys_close (fst ep) (sys_close (snd op) (sys_close (fst op) s2)))))
         else (None, op, ep, ifd, s2))"

text \<open>
  The code between \<open>fork\<close> and \<open>execvp\<close> in the child process: \<open>None\<close> when it exits because a stream could
  not be redirected.
\<close>

definition spawn_child_side :: "bool \<Rightarrow> int \<times> int \<Rightarrow> int \<times> int \<Rightarrow> int \<Rightarrow> posix \<Rightarrow> posix option" where
  "spawn_child_side ignore_output op ep ifd s =
     (let s0 = (if \<not> ignore_output then sys_close (fst ep) (sys_close (fst op) s) else s);
          (d0, s1) = sys_dup2 ifd 0 s0 in
      if \<not> d0 then None
      else let (d1, s2) = sys_dup2 (snd op) 1 s1 in
      if \<not> d1 then None
      else let (d2, s3) = sys_dup2 (snd ep) 2 s2 in
      if \<not> d2 then None
      else Some (sys_close ifd (sys_close (snd ep) (sys_close (snd op) s3))))"

text \<open>
  The new object: its type, destructor and methods.  The numbers name the C functions \<open>child_destroy\<close>,
  \<open>get_child_pid\<close> and \<open>kill_child\<close>.
\<close>

definition new_child_object ::
  "(di_type \<Rightarrow> di_type list \<Rightarrow> bool) \<Rightarrow> nat \<Rightarrow> nat \<Rightarrow> nat \<Rightarrow> drop_fn \<Rightarrow> world \<Rightarrow> (oref \<times> world) res" where
  "new_child_object P destroy get_pid kill U w =
     (let (cp, w1) = alloc_object w in
      bind_res (di_set_type U cp ''deai:ChildProcess'' w1) (\<lambda>(_, w2).
        bind_res (di_set_object_dtor cp (Some (Dtor_ext destroy)) w2) (\<lambda>w3.
          bind_res (di_add_method P U cp (Some ''__get_pid'') get_pid DI_TYPE_UINT [] w3) (\<lambda>(_, w4).
            bind_res (di_add_method P U cp (Some ''kill'') kill DI_TYPE_NIL [DI_TYPE_NINT] w4) (\<lambda>(_, w5).
              Ret (cp, w5))))))"

definition start_child ::
  "(di_type \<Rightarrow> di_type list \<Rightarrow> bool) \<Rightarrow> nat \<Rightarrow> nat \<Rightarrow> nat \<Rightarrow> drop_fn \<Rightarrow> bool \<Rightarrow> int \<Rightarrow> int \<Rightarrow> oref \<Rightarrow> 32 word \<Rightarrow>
   spawn_state \<Rightarrow> (oref \<times> spawn_state) res" where
  "start_child P destroy get_pid kill U ignore_output ofd efd di cpid s =
     bind_res (new_child_object P destroy get_pid kill U (sp_world s)) (\<lambda>(cp, w1).
       let c = (if \<not> ignore_output
                then \<lparr>pid = cpid, outw_fd = ofd, errw_fd = efd, out = Some string_buf_new, err = Some string_buf_new\<rparr>
                else \<lparr>pid = cpid, outw_fd = 0, errw_fd = 0, out = None, err = None\<rparr>);
           ws = (if \<not> ignore_output then [Watch_out cp, Watch_err cp] else []) in
       bind_res (di_add_member_move U cp (Some ''__deai'') (VObject di) w1) (\<lambda>(_, w2).
         Ret (cp, s\<lparr>sp_world := w2, children := (children s)(cp \<mapsto> c),
                    watchers := Watch_child cp # ws @ watchers s\<rparr>)))"

text \<open>
  \<open>di_spawn_run\<close> in the parent; \<open>fork_pid\<close> is the result of \<open>fork\<close> there, negative when it failed.  The process in
  which it is zero is the child, which follows \<open>spawn_child_side\<close>.  The error returns do not drop the
  reference to the core.
\<close>

definition spawn_error :: "drop_fn \<Rightarrow> string \<Rightarrow> spawn_state \<Rightarrow> (oref \<times> spawn_state) res" where
  "spawn_error U msg s = bind_res (di_new_error U msg (sp_world s)) (\<lambda>(e, w). Ret (e, s\<lparr>sp_world := w\<rparr>))"

definition di_spawn_run ::
  "(di_type \<Rightarrow> di_type list \<Rightarrow> bool) \<Rightarrow> nat \<Rightarrow> nat \<Rightarrow> nat \<Rightarrow> drop_fn \<Rightarrow> call_obj \<Rightarrow> 32 word \<Rightarrow> oref \<Rightarrow> di_type \<Rightarrow> bool \<Rightarrow>
   spawn_state \<Rightarrow> (oref \<times> spawn_state) res" where
  "di_spawn_run P destroy get_pid kill U C fork_pid p argv_elem_type ignore_output s =
     (if argv_elem_type \<noteq> DI_TYPE_STRING then spawn_error U ''Invalid argv type'' s
      else bind_res (di_module_get_deai U C p (sp_world s)) (\<lambda>(obj, w1).
        let s1 = s\<lparr>sp_world := w1\<rparr> in
        case obj of
          None \<Rightarrow> spawn_error U ''deai is shutting down...'' s1
        | Some di \<Rightarrow>
           let (e, op, ep, ifd, os1) = di_setup_fds ignore_output (sp_os s1) in
           case e of
             Some msg \<Rightarrow> spawn_error U msg (s1\<lparr>sp_os := os1\<rparr>)
           | None \<Rightarrow>
              let os2 = sys_close (snd ep) (sys_close (snd op) (sys_close ifd os1)) in
              if sint fork_pid < 0 then
                spawn_error U ''Failed to fork'' (s1\<lparr>sp_os := sys_close (fst ep) (sys_close (fst op) os2)\<rparr>)
              else start_child P destroy get_pid kill U ignore_output (fst op) (fst ep) di fork_pid (s1\<lparr>sp_os := os2\<rparr>)))"

section \<open>Line splitting\<close>

text \<open>What the lines of a text are: the pieces before each newline, and the rest.\<close>

function lines_of :: "string \<Rightarrow> string list \<times> string" where
  "lines_of s =
     (if CHR 0x0A \<in> set s then
        let line = takeWhile (\<lambda>c. c \<noteq> CHR 0x0A) s; (ls, r) = lines_of (drop (Suc (length line)) s) in (line # ls, r)
      else ([], s))"
  by pat_completeness auto

termination
proof (relation "measure length", goal_cases)
  case 1
  then show ?case by simp
next
  case (2 s)
  then show ?case by (cases s) auto
qed

declare lines_of.simps [simp del]

lemma takeWhile_line: "CHR 0x0A \<notin> set l \<Longrightarrow> takeWhile (\<lambda>c. c \<noteq> CHR 0x0A) (l @ CHR 0x0A # r) = l"
  by (induction l) auto

lemma lines_of_no_newline [simp]: "CHR 0x0A \<notin> set s \<Longrightarrow> lines_of s = ([], s)"
  by (simp add: lines_of.simps)

lemma lines_of_line:
  assumes "CHR 0x0A \<notin> set l"
  shows "lines_of (l @ CHR 0x0A # s) = (l # fst (lines_of s), snd (lines_of s))"
proof -
  show ?thesis using takeWhile_line [OF assms] by (subst lines_of.simps) (simp add: split_def Let_def)
qed

lemma newline_split: "CHR 0x0A \<in> set s \<Longrightarrow> \<exists>l r. s = l @ CHR 0x0A # r \<and> CHR 0x0A \<notin> set l \<and>
    takeWhile (\<lambda>c. c \<noteq> CHR 0x0A) s = l \<and> drop (Suc (length (takeWhile (\<lambda>c. c \<noteq> CHR 0x0A) s))) s = r"
proof -
  assume "CHR 0x0A \<in> set s"
  then obtain l r where s: "s = l @ CHR 0x0A # r" "CHR 0x0A \<notin> set l" by (metis split_list_first)
  then have "takeWhile (\<lambda>c. c \<noteq> CHR 0x0A) s = l" using takeWhile_line by blast
  with s show ?thesis by auto
qed

lemma lines_of_rest: "CHR 0x0A \<notin> set (snd (lines_of s))"
proof (induction s rule: lines_of.induct)
  case (1 s)
  then show ?case
    using newline_split [of s] lines_of_line by (cases "CHR 0x0A \<in> set s") fastforce+
qed

lemma lines_of_append:
  "lines_of (s @ t) = (fst (lines_of s) @ fst (lines_of (snd (lines_of s) @ t)), snd (lines_of (snd (lines_of s) @ t)))"
proof (induction s rule: lines_of.induct)
  case (1 s)
  show ?case
  proof (cases "CHR 0x0A \<in> set s")
    case True
    then obtain l r where s: "s = l @ CHR 0x0A # r" "CHR 0x0A \<notin> set l"
      "drop (Suc (length (takeWhile (\<lambda>c. c \<noteq> CHR 0x0A) s))) s = r" using newline_split by metis
    then show ?thesis using 1 [OF True refl] lines_of_line [OF s(2)] by simp
  qed simp
qed

text \<open>Lines without NUL bytes are emitted as they are; a buffer holds a piece of a line.\<close>

definition piece_ok :: "string_buf \<Rightarrow> bool" where
  "piece_ok b \<longleftrightarrow> buf_ok b \<and> nul_free (buf_text b) \<and> CHR 0x0A \<notin> set (buf_text b)"

lemma nul_free_simps [simp]: "nul_free (s @ t) = (nul_free s \<and> nul_free t)" "nul_free []"
  "nul_free (c # s) = (c \<noteq> CHR 0x00 \<and> nul_free s)"
  by (auto simp: nul_free_def)

lemma handle_chunk_line:
  assumes "piece_ok b" "nul_free l" "CHR 0x0A \<notin> set l"
  shows "\<exists>b'. piece_ok b' \<and> buf_text b' = [] \<and>
    (\<forall>w. handle_chunk emit (l @ CHR 0x0A # r) b w = bind_res (emit (buf_text b @ l) w) (handle_chunk emit r b'))"
proof -
  note tw = takeWhile_line [OF assms(3), of r]
  show ?thesis
  proof (cases "b = []")
    case True
    then show ?thesis using assms by (intro exI [of _ "[]"]) (simp add: handle_chunk.simps [of emit "l @ _"] tw string_buf_is_empty_def piece_ok_def)
  next
    case False
    have "string_buf_dump (string_buf_push l b) = Ret (buf_text b @ l, [])"
      using assms by (simp add: string_buf_dump_ok piece_ok_def)
    then show ?thesis using False assms
      by (intro exI [of _ "[]"]) (simp add: handle_chunk.simps [of emit "l @ _"] tw string_buf_is_empty_def piece_ok_def)
  qed
qed

lemma handle_chunk_lines:
  "piece_ok b \<Longrightarrow> nul_free s \<Longrightarrow> \<exists>b'. piece_ok b' \<and> b' \<noteq> [] \<and> buf_text b' = snd (lines_of (buf_text b @ s)) \<and>
    (\<forall>w. handle_chunk emit s b w = bind_res (fold_res emit (fst (lines_of (buf_text b @ s))) w) (\<lambda>w'. Ret (b', w')))"
proof (induction "length s" arbitrary: s b rule: less_induct)
  case less
  show ?case
  proof (cases "CHR 0x0A \<in> set s")
    case False
    then have "lines_of (buf_text b @ s) = ([], buf_text b @ s)" using less.prems by (simp add: piece_ok_def)
    then show ?thesis using False less.prems
      by (intro exI [of _ "string_buf_lpush s (length s) b"])
        (simp add: handle_chunk.simps [of emit s] piece_ok_def string_buf_lpush_ok, simp add: string_buf_lpush_def)
  next
    case True
    then obtain l r where s: "s = l @ CHR 0x0A # r" "CHR 0x0A \<notin> set l" using newline_split by metis
    then have nf: "nul_free l" "nul_free r" using less.prems(2) by auto
    obtain b1 where b1: "piece_ok b1" "buf_text b1 = []"
      "\<And>w. handle_chunk emit s b w = bind_res (emit (buf_text b @ l) w) (handle_chunk emit r b1)"
      using handle_chunk_line [OF less.prems(1) nf(1) s(2), of emit r] s(1) by blast
    obtain b' where b': "piece_ok b'" "b' \<noteq> []" "buf_text b' = snd (lines_of r)"
      "\<And>w. handle_chunk emit r b1 w = bind_res (fold_res emit (fst (lines_of r)) w) (\<lambda>w'. Ret (b', w'))"
      using less.hyps [of r b1] s(1) b1(1,2) nf(2) by auto
    have "CHR 0x0A \<notin> set (buf_text b @ l)" using less.prems(1) s(2) by (simp add: piece_ok_def)
    from lines_of_line [OF this, of r] s(1)
    have "lines_of (buf_text b @ s) = ((buf_text b @ l) # fst (lines_of r), snd (lines_of r))" by simp
    moreover have "handle_chunk emit r b1 = (\<lambda>w. bind_res (fold_res emit (fst (lines_of r)) w) (\<lambda>w'. Ret (b', w')))"
      using b'(4) by (rule ext)
    ultimately show ?thesis using b' b1(3) by (intro exI [of _ b']) (simp add: bind_res_assoc)
  qed
qed

lemma output_handler_lines:
  "piece_ok b \<Longrightarrow> \<forall>s \<in> set reads. s \<noteq> [] \<and> nul_free s \<Longrightarrow>
   \<exists>b'. piece_ok b' \<and> (b' \<noteq> [] \<longleftrightarrow> b \<noteq> [] \<or> reads \<noteq> []) \<and> buf_text b' = snd (lines_of (buf_text b @ concat reads)) \<and>
    (\<forall>w. output_handler emit reads b w = bind_res (fold_res emit (fst (lines_of (buf_text b @ concat reads))) w) (\<lambda>w'. Ret (b', w')))"
proof (induction reads arbitrary: b)
  case Nil
  then show ?case by (intro exI [of _ b]) (simp add: piece_ok_def)
next
  case (Cons s reads)
  obtain b1 where b1: "piece_ok b1" "b1 \<noteq> []" "buf_text b1 = snd (lines_of (buf_text b @ s))"
    "\<And>w. handle_chunk emit s b w = bind_res (fold_res emit (fst (lines_of (buf_text b @ s))) w) (\<lambda>w'. Ret (b1, w'))"
    using handle_chunk_lines [OF Cons.prems(1), of s emit] Cons.prems(2) by auto
  obtain b' where b': "piece_ok b'" "b' \<noteq> []" "buf_text b' = snd (lines_of (buf_text b1 @ concat reads))"
    "\<And>w. output_handler emit reads b1 w = bind_res (fold_res emit (fst (lines_of (buf_text b1 @ concat reads))) w) (\<lambda>w'. Ret (b', w'))"
    using Cons.IH [OF b1(1)] Cons.prems(2) b1(2) by auto
  have "lines_of (buf_text b @ concat (s # reads)) =
      (fst (lines_of (buf_text b @ s)) @ fst (lines_of (buf_text b1 @ concat reads)), snd (lines_of (buf_text b1 @ concat reads)))"
    using lines_of_append [of "buf_text b @ s" "concat reads"] b1(3) by simp
  moreover have "output_handler emit reads b1 = (\<lambda>w. bind_res (fold_res emit (fst (lines_of (buf_text b1 @ concat reads))) w) (\<lambda>w'. Ret (b', w')))"
    using b'(4) by (rule ext)
  moreover have "s \<noteq> []" using Cons.prems(2) by simp
  ultimately show ?case using b' b1(4)
    by (intro exI [of _ b']) (simp add: bind_res_assoc fold_res_append)
qed

text \<open>
  C16. Line splitting does not depend on how the output is cut into reads.  Whatever chunks the reads
  give, as long as there is no NUL byte, the handler emits exactly the lines of the whole output, in
  order, and keeps the piece after the last newline; it never fails by itself.
\<close>

theorem output_handler_chunking:
  assumes "\<forall>s \<in> set reads. s \<noteq> [] \<and> nul_free s"
  shows "\<exists>b'. buf_text b' = snd (lines_of (concat reads)) \<and>
    (\<forall>w. output_handler emit reads string_buf_new w =
       bind_res (fold_res emit (fst (lines_of (concat reads))) w) (\<lambda>w'. Ret (b', w')))"
  using output_handler_lines [of "[]" reads emit] assms by (auto simp: string_buf_new_def piece_ok_def)

theorem output_handler_chunking_witness:
  "\<exists>b'. output_handler (\<lambda>s w. Ret (w @ [s])) [''ab'', ''c'' @ [CHR 0x0A] @ ''d''] string_buf_new [] = Ret (b', [''abc''])"
proof -
  have "lines_of (concat [''ab'', ''c'' @ [CHR 0x0A] @ ''d'']) = ([''abc''], ''d'')"
    by (simp add: lines_of.simps)
  moreover have "\<forall>s \<in> set [''ab'', ''c'' @ [CHR 0x0A] @ ''d'']. s \<noteq> [] \<and> nul_free s" by simp
  ultimately show ?thesis
    using output_handler_chunking [of "[''ab'', ''c'' @ [CHR 0x0A] @ ''d'']" "\<lambda>s w. Ret (w @ [s])"]
    by (fastforce simp del: output_handler.simps)
qed

section \<open>Descriptors of a child\<close>

text \<open>The pairs \<open>opfds\<close> and \<open>epfds\<close> after the part of \<open>di_setup_fds\<close> that opens the outputs.\<close>

definition output_fds :: "bool \<Rightarrow> nat \<Rightarrow> int \<times> int \<Rightarrow> int \<times> int \<Rightarrow> (int \<times> ofile) list" where
  "output_fds ignore_output n op ep =
     (if ignore_output then [(snd ep, Null_Out), (snd op, Null_Out)]
      else [(snd ep, Pipe_Out (Suc n)), (fst ep, Pipe_In (Suc n)), (snd op, Pipe_Out n), (fst op, Pipe_In n)])"

definition four_fds :: "int \<times> int \<Rightarrow> int \<times> int \<Rightarrow> int set" where
  "four_fds op ep = {fst op, snd op, fst ep, snd ep}"

lemma open_pipes_spec:
  assumes ok: "fds_ok (fdt s)" and eq: "open_pipes s = (e, op, ep, s')"
  shows "\<exists>ps. opened (fdt s) ps (fdt s') \<and> fst ` set ps \<subseteq> four_fds op ep \<and>
    four_fds op ep \<subseteq> insert (-1) (fst ` set ps) \<and> (e = None \<longrightarrow> ps = output_fds False (next_pipe s) op ep)"
proof -
  have t0: "table_ok (fdt s)" using ok by (simp add: fds_ok_def)
  obtain ok1 r1 w1 s1 where p1: "sys_pipe (-1, -1) s = (ok1, (r1, w1), s1)" by (metis prod.collapse)
  from sys_pipe_cases [OF t0 p1] show ?thesis
  proof cases
    case 1
    then show ?thesis using eq p1 opened_Nil [OF ok]
      by (intro exI [of _ "[]"]) (auto simp: open_pipes_def four_fds_def)
  next
    case (2 t)
    have o2: "opened (fdt s) [(w1, Pipe_Out (next_pipe s)), (r1, Pipe_In (next_pipe s))] (fdt s1)"
      using 2 by (intro opened_Cons [OF opened_Cons [OF opened_Nil [OF ok]]])
    obtain ok2 r2 w2 s2 where p2: "sys_pipe (-1, -1) s1 = (ok2, (r2, w2), s2)" by (metis prod.collapse)
    from sys_pipe_cases [OF opened_table_ok [OF o2] p2] show ?thesis
    proof cases
      case 1
      then show ?thesis using eq p1 p2 2 o2
        by (intro exI [of _ "[(w1, Pipe_Out (next_pipe s)), (r1, Pipe_In (next_pipe s))]"])
          (auto simp: open_pipes_def four_fds_def)
    next
      case (2 t')
      have o4: "opened (fdt s) (output_fds False (next_pipe s) (r1, w1) (r2, w2)) (fdt s2)"
        using opened_Cons [OF opened_Cons [OF o2 2(2)] 2(3)] \<open>next_pipe s1 = _\<close> by (simp add: output_fds_def)
      have "op = (r1, w1)" "ep = (r2, w2)" "fdt s' = fdt s2"
        using eq p1 p2 2 \<open>ok1\<close> by (auto simp: open_pipes_def Let_def dest!: sys_ok_fdt split: prod.splits if_splits)
      then show ?thesis using o4
        by (intro exI [of _ "output_fds False (next_pipe s) (r1, w1) (r2, w2)"]) (auto simp: four_fds_def output_fds_def)
    qed
  qed
qed

lemma open_null_outputs_spec:
  assumes ok: "fds_ok (fdt s)" and eq: "open_null_outputs s = (e, op, ep, s')"
  shows "\<exists>ps. opened (fdt s) ps (fdt s') \<and> fst ` set ps \<subseteq> four_fds op ep \<and>
    four_fds op ep \<subseteq> insert (-1) (fst ` set ps) \<and> (e = None \<longrightarrow> ps = output_fds True (next_pipe s) op ep)"
proof -
  have t0: "table_ok (fdt s)" using ok by (simp add: fds_ok_def)
  obtain o1 s1 where p1: "sys_open Null_Out s = (o1, s1)" by (metis prod.collapse)
  obtain e1 s2 where p2: "sys_open Null_Out s1 = (e1, s2)" by (metis prod.collapse)
  have res: "op = (-1, o1)" "ep = (-1, e1)" "s' = s2" "e = None \<longleftrightarrow> 0 \<le> o1 \<and> 0 \<le> e1"
    using eq p1 p2 by (auto simp: open_null_outputs_def split: if_splits)
  have "\<exists>ps. opened (fdt s) ps (fdt s1) \<and> (if o1 = -1 then ps = [] else ps = [(o1, Null_Out)])"
    by (rule sys_open_cases [OF t0 p1]) (use opened_Nil [OF ok] opened_Cons [OF opened_Nil [OF ok]] in \<open>auto simp: fd_opened_def\<close>)
  then obtain ps where ps: "opened (fdt s) ps (fdt s1)" "if o1 = -1 then ps = [] else ps = [(o1, Null_Out)]" by blast
  have "\<exists>qs. opened (fdt s) qs (fdt s2) \<and> (if e1 = -1 then qs = ps else qs = (e1, Null_Out) # ps)"
    by (rule sys_open_cases [OF opened_table_ok [OF ps(1)] p2]) (use ps(1) opened_Cons [OF ps(1)] in \<open>auto simp: fd_opened_def\<close>)
  then obtain qs where qs: "opened (fdt s) qs (fdt s2)" "if e1 = -1 then qs = ps else qs = (e1, Null_Out) # ps" by blast
  then show ?thesis using ps(2) res
    by (intro exI [of _ qs]) (auto simp: four_fds_def output_fds_def split: if_splits)
qed

lemma di_setup_fds_spec:
  assumes ok: "fds_ok (fdt s)" and eq: "di_setup_fds ign s = (e, op, ep, ifd, s')"
  shows "e \<noteq> None \<Longrightarrow> table_ok (fdt s') \<and> (\<forall>j. hash_find j (fdt s') = hash_find j (fdt s))"
    and "e = None \<Longrightarrow> opened (fdt s) ((ifd, Null_In) # output_fds ign (next_pipe s) op ep) (fdt s')"
proof -
  obtain e1 op1 ep1 s1 where p1: "(if \<not> ign then open_pipes s else open_null_outputs s) = (e1, op1, ep1, s1)"
    by (metis prod.collapse)
  then obtain ps where ps: "opened (fdt s) ps (fdt s1)" "fst ` set ps \<subseteq> four_fds op1 ep1"
    "four_fds op1 ep1 \<subseteq> insert (-1) (fst ` set ps)" "e1 = None \<longrightarrow> ps = output_fds ign (next_pipe s) op1 ep1"
    using open_pipes_spec [OF ok] open_null_outputs_spec [OF ok] by (cases ign) (simp, blast)+
  obtain fd s2 where p2: "sys_open Null_In s1 = (fd, s2)" by (metis prod.collapse)
  have "\<exists>qs fi. opened (fdt s) qs (fdt (if e1 = None then s2 else s1)) \<and> fst ` set qs \<subseteq> insert fi (four_fds op1 ep1) \<and>
     insert fi (four_fds op1 ep1) \<subseteq> insert (-1) (fst ` set qs) \<and> fi = (if e1 = None then fd else -1) \<and>
     (e1 = None \<and> 0 \<le> fd \<longrightarrow> qs = (fd, Null_In) # ps)"
  proof (cases "e1 = None")
    case True
    show ?thesis
      by (rule sys_open_cases [OF opened_table_ok [OF ps(1)] p2])
        (use True ps(1-3) opened_Cons [OF ps(1)] in \<open>force simp: fd_opened_def\<close>)+
  next
    case False
    then show ?thesis using ps(1-3) by (intro exI [of _ ps]) auto
  qed
  then obtain qs fi where qs: "opened (fdt s) qs (fdt (if e1 = None then s2 else s1))"
    "fst ` set qs \<subseteq> insert fi (four_fds op1 ep1)" "insert fi (four_fds op1 ep1) \<subseteq> insert (-1) (fst ` set qs)"
    "fi = (if e1 = None then fd else -1)" "e1 = None \<and> 0 \<le> fd \<longrightarrow> qs = (fd, Null_In) # ps" by blast
  have res: "op = op1" "ep = ep1" "ifd = fi" "e = None \<longleftrightarrow> e1 = None \<and> 0 \<le> fd"
    "e = None \<Longrightarrow> s' = s2"
    "e \<noteq> None \<Longrightarrow> s' = sys_close fi (sys_close (snd ep) (sys_close (fst ep) (sys_close (snd op) (sys_close (fst op) (if e1 = None then s2 else s1)))))"
    using eq p1 p2 qs(4) by (auto simp: di_setup_fds_def Let_def split: if_splits)
  show "e = None \<Longrightarrow> opened (fdt s) ((ifd, Null_In) # output_fds ign (next_pipe s) op ep) (fdt s')"
    using res qs ps(4) by simp
  assume "e \<noteq> None"
  then show "table_ok (fdt s') \<and> (\<forall>j. hash_find j (fdt s') = hash_find j (fdt s))"
    using opened_closed [OF ok qs(1-3)] fdt_closes [OF opened_table_ok [OF qs(1)], where l = "[fst op, snd op, fst ep, snd ep, fi]"]
      res(1,2) res(6) by (simp add: four_fds_def insert_commute disj_commute disj_left_commute)
qed

text \<open>
  C13. Setting up the descriptors of a child is all or nothing: when any of the system calls fails
  every descriptor that was opened is closed again, and when all succeed exactly the two pipes (or
  the two null outputs) and the null input are new, with all other descriptors untouched.
\<close>

theorem di_setup_fds_all_or_nothing:
  assumes "fds_ok (fdt s)" and "di_setup_fds ign s = (e, op, ep, ifd, s')"
  shows "case e of
      Some msg \<Rightarrow> \<forall>j. hash_find j (fdt s') = hash_find j (fdt s)
    | None \<Rightarrow> opened (fdt s) ((ifd, Null_In) # output_fds ign (next_pipe s) op ep) (fdt s')"
  using di_setup_fds_spec [OF assms] by (cases e) auto

text \<open>What \<open>dup2\<close> on the three standard streams and the closing of the originals leave in the child.\<close>

lemma spawn_child_side_find:
  assumes t: "table_ok (fdt s)" and eq: "spawn_child_side ign op ep ifd s = Some s'"
    and big: "2 < ifd" "2 < snd op" "2 < snd ep" "ign \<or> (2 < fst op \<and> 2 < fst ep)"
    and ne: "ifd \<notin> {fst op, fst ep}" "snd op \<notin> {fst op, fst ep}" "snd ep \<notin> {fst op, fst ep}"
  shows "hash_find j (fdt s') =
    (if j = 0 then hash_find ifd (fdt s) else if j = 1 then hash_find (snd op) (fdt s)
     else if j = 2 then hash_find (snd ep) (fdt s)
     else if j \<in> {ifd, snd op, snd ep} \<or> \<not> ign \<and> j \<in> {fst op, fst ep} then None else hash_find j (fdt s))"
proof -
  define s0 where "s0 = (if \<not> ign then sys_close (fst ep) (sys_close (fst op) s) else s)"
  have f0: "table_ok (fdt s0)"
    "\<And>j. hash_find j (fdt s0) = (if \<not> ign \<and> j \<in> {fst op, fst ep} then None else hash_find j (fdt s))"
    using t by (auto simp: s0_def)
  obtain s1 s2 s3 where d: "sys_dup2 ifd 0 s0 = (True, s1)" "sys_dup2 (snd op) 1 s1 = (True, s2)"
    "sys_dup2 (snd ep) 2 s2 = (True, s3)" "s' = sys_close ifd (sys_close (snd ep) (sys_close (snd op) s3))"
    using eq unfolding spawn_child_side_def s0_def [symmetric] by (auto simp: Let_def split: prod.splits if_splits)
  note f1 = sys_dup2_True [OF f0(1) d(1)]
  note f2 = sys_dup2_True [OF conjunct1 [OF f1] d(2)]
  note f3 = sys_dup2_True [OF conjunct1 [OF f2] d(3)]
  have "hash_find j (fdt s') = (if j \<in> {ifd, snd op, snd ep} then None else hash_find j (fdt s3))"
    using f3 d(4) by simp
  also have "\<dots> = (if j \<in> {ifd, snd op, snd ep} then None else if j = 2 then hash_find (snd ep) (fdt s0)
     else if j = 1 then hash_find (snd op) (fdt s0) else if j = 0 then hash_find ifd (fdt s0) else hash_find j (fdt s0))"
    using f1 f2 f3 big by simp
  finally show ?thesis using f0(2) big ne by auto
qed

text \<open>
  A child process starts with the right streams.  When the three standard descriptors are open in
  the parent, the child reads from the null device, writes its output and errors to the pipes the
  parent listens on (or to the null device), and inherits nothing else of what was opened for it.
\<close>

theorem spawn_child_streams:
  assumes "fds_ok (fdt s)" and "\<forall>j \<in> {0, 1, 2}. hash_find j (fdt s) \<noteq> None"
    and "di_setup_fds ign s = (None, op, ep, ifd, s1)"
    and "spawn_child_side ign op ep ifd s1 = Some s2"
  shows "hash_find 0 (fdt s2) = Some Null_In \<and>
    hash_find 1 (fdt s2) = Some (if ign then Null_Out else Pipe_Out (next_pipe s)) \<and>
    hash_find 2 (fdt s2) = Some (if ign then Null_Out else Pipe_Out (Suc (next_pipe s))) \<and>
    (\<forall>j > 2. hash_find j (fdt s2) = hash_find j (fdt s))"
proof -
  let ?ps = "(ifd, Null_In) # output_fds ign (next_pipe s) op ep"
  have o: "opened (fdt s) ?ps (fdt s1)" using di_setup_fds_spec(2) [OF assms(1,3)] by simp
  have big: "2 < j" if "j \<in> fst ` set ?ps" for j
    using opened_free [OF o that] assms(2) by (cases "j = 0"; cases "j = 1"; cases "j = 2") auto
  have dist: "distinct (map fst ?ps)" using o by (simp add: opened_def)
  have m1: "ign \<Longrightarrow> fst op = -1 \<and> fst ep = -1"
    using assms(3) by (auto simp: di_setup_fds_def open_null_outputs_def Let_def split: prod.splits if_splits)
  have find1: "hash_find j (fdt s1) = (case map_of ?ps j of None \<Rightarrow> hash_find j (fdt s) | Some f \<Rightarrow> Some f)" for j
    using o by (simp add: opened_def)
  have free: "hash_find j (fdt s) = None" if "j \<in> fst ` set ?ps" for j using opened_free [OF o that] by simp
  have b: "2 < ifd" "2 < snd op" "2 < snd ep" "ign \<or> (2 < fst op \<and> 2 < fst ep)"
    using big by (auto simp: output_fds_def split: if_splits)
  have ne: "ifd \<notin> {fst op, fst ep}" "snd op \<notin> {fst op, fst ep}" "snd ep \<notin> {fst op, fst ep}" "ifd \<noteq> snd op" "ifd \<noteq> snd ep" "snd op \<noteq> snd ep"
    using dist b m1 by (cases ign; auto simp: output_fds_def)+
  note f = spawn_child_side_find [OF opened_table_ok [OF o] assms(4) b ne(1-3)]
  have "hash_find j (fdt s2) = hash_find j (fdt s)" if "2 < j" for j
    using that f [of j] find1 [of j] free [of j] by (cases ign) (auto simp: output_fds_def split: if_splits option.splits)
  moreover have "hash_find 0 (fdt s2) = Some Null_In" using f [of 0] find1 [of ifd] by simp
  moreover have "hash_find 1 (fdt s2) = Some (if ign then Null_Out else Pipe_Out (next_pipe s))"
    using f [of 1] find1 [of "snd op"] ne by (cases ign) (simp_all add: output_fds_def)
  moreover have "hash_find 2 (fdt s2) = Some (if ign then Null_Out else Pipe_Out (Suc (next_pipe s)))"
    using f [of 2] find1 [of "snd ep"] ne by (cases ign) (simp_all add: output_fds_def)
  ultimately show ?thesis by blast
qed

section \<open>The end of a child\<close>

text \<open>
  When a child exits, its whole output has been emitted line by line, and the piece after the last
  newline is emitted as one more line whenever anything was read at all.  For output that ends with a
  newline this last line is empty.
\<close>

theorem flush_output_emits_all:
  assumes "\<forall>s \<in> set reads. s \<noteq> [] \<and> nul_free s"
  shows "\<exists>b'. \<forall>w. flush_output emit reads (Some string_buf_new) w =
    bind_res (fold_res emit (fst (lines_of (concat reads)) @ (if reads = [] then [] else [snd (lines_of (concat reads))])) w)
      (\<lambda>w'. Ret (Some b', w'))"
proof -
  obtain b' where b': "piece_ok b'" "b' \<noteq> [] \<longleftrightarrow> reads \<noteq> []" "buf_text b' = snd (lines_of (concat reads))"
    "\<And>w. output_handler emit reads [] w = bind_res (fold_res emit (fst (lines_of (concat reads))) w) (\<lambda>w'. Ret (b', w'))"
    using output_handler_lines [of "[]" reads emit] assms by (auto simp: piece_ok_def)
  show ?thesis
  proof (cases "reads = []")
    case True
    then show ?thesis using b' by (intro exI [of _ b'])
      (simp add: flush_output_def string_buf_new_def string_buf_is_empty_def)
  next
    case False
    have "string_buf_dump b' = Ret (buf_text b', [])" "nul_free (buf_text b')"
      using b'(1) by (simp_all add: string_buf_dump_ok piece_ok_def)
    then show ?thesis using b' False
      by (intro exI [of _ "[]"]) (simp add: flush_output_def string_buf_new_def string_buf_is_empty_def
          bind_res_assoc fold_res_append)
  qed
qed

text \<open>The cleanup, as a function of the state.\<close>

lemma child_cleanup_cases:
  assumes "child_cleanup U C p s = Ret s'"
  obtains c w where "children s p = Some c" "s' = s\<lparr>sp_world := w\<rparr>"
  | c w where "children s p = Some c"
      "s' = (close_err p c (close_out p c (s\<lparr>watchers := removeAll (Watch_child p) (watchers s)\<rparr>)))
         \<lparr>children := (children s)(p \<mapsto> c\<lparr>out := None, err := None\<rparr>), sp_world := w\<rparr>"
  using assms that
  by (auto simp: child_cleanup_def Let_def close_out_def close_err_def split: option.splits if_splits)

lemma sigchld_handler_cleanup:
  assumes "sigchld_handler U C ors ers st p s = Ret s'" and "children s p = Some c"
  shows "\<exists>c1 s1 w. s1 = s\<lparr>sp_world := w, children := (children s)(p \<mapsto> c1)\<rparr> \<and>
    outw_fd c1 = outw_fd c \<and> errw_fd c1 = errw_fd c \<and> (out c1 = None \<longleftrightarrow> out c = None) \<and> (err c1 = None \<longleftrightarrow> err c = None) \<and>
    (\<exists>s2 w'. child_cleanup U C p s1 = Ret s2 \<and> s' = s2\<lparr>sp_world := w'\<rparr>)"
proof -
  have flush: "flush_output emit reads b w = Ret (b', w') \<Longrightarrow> (b' = None) = (b = None)" for emit :: "string \<Rightarrow> world \<Rightarrow> world res" and reads b w b' w'
    by (auto simp: flush_output_def split: option.splits if_splits)
  from assms obtain w1 w2 w3 w4 o' e' s5 w7 where
    "flush_output (emit_line U C p ''stdout_line'') ors (out c) w1 = Ret (o', w2)"
    "flush_output (emit_line U C p ''stderr_line'') ers (err c) w2 = Ret (e', w3)"
    "child_cleanup U C p (s\<lparr>sp_world := w4, children := (children s)(p \<mapsto> c\<lparr>out := o', err := e'\<rparr>)\<rparr>) = Ret s5"
    "s' = s5\<lparr>sp_world := w7\<rparr>"
    unfolding sigchld_handler_def Let_def by (auto split: prod.splits)
  then show ?thesis using flush
    by (intro exI [of _ "c\<lparr>out := o', err := e'\<rparr>"] exI [of _ "s\<lparr>sp_world := w4, children := (children s)(p \<mapsto> c\<lparr>out := o', err := e'\<rparr>)\<rparr>"]
        exI [of _ w4] conjI exI [of _ s5] exI [of _ w7]) simp_all
qed

lemma di_spawn_run_started:
  assumes "di_spawn_run P destroy get_pid kill U C fork_pid m DI_TYPE_STRING ign s = Ret (p, s1)"
    and "Watch_child p \<notin> set (watchers s)" and "Watch_child p \<in> set (watchers s1)"
  shows "\<exists>op ep ifd os1 c. di_setup_fds ign (sp_os s) = (None, op, ep, ifd, os1) \<and>
    sp_os s1 = sys_close (snd ep) (sys_close (snd op) (sys_close ifd os1)) \<and>
    watchers s1 = Watch_child p # (if \<not> ign then [Watch_out p, Watch_err p] else []) @ watchers s \<and>
    children s1 p = Some c \<and> out c = (if \<not> ign then Some string_buf_new else None) \<and>
    err c = (if \<not> ign then Some string_buf_new else None) \<and> (\<not> ign \<longrightarrow> outw_fd c = fst op \<and> errw_fd c = fst ep)"
proof -
  obtain e op ep ifd os1 where f: "di_setup_fds ign (sp_os s) = (e, op, ep, ifd, os1)" by (metis prod.collapse)
  have err: "spawn_error U msg t = Ret (p, s1) \<Longrightarrow> watchers s1 = watchers t" for msg t
    by (auto simp: spawn_error_def)
  from assms(1) obtain di w1 where m: "di_module_get_deai U C m (sp_world s) = Ret (Some di, w1)"
    using assms(2,3) by (auto simp: di_spawn_run_def Let_def dest!: err split: option.splits)
  have "e = None \<and> \<not> sint fork_pid < 0"
    using assms m f by (auto simp: di_spawn_run_def Let_def dest!: err split: option.splits if_splits)
  then show ?thesis using assms(1) m f
    by (auto simp: di_spawn_run_def Let_def start_child_def split: if_splits)
qed

text \<open>
  C12. A child gives back everything it was given.  If starting a child succeeds, and it later exits
  while nothing else changed the descriptor table, then once its exit watcher is stopped its two pipe
  ends are closed, the table is what it was before the child was started, and no watcher is left.
\<close>

theorem spawn_then_exit_restores_fds:
  assumes "fds_ok (fdt (sp_os s))" and "set (watchers s) \<inter> {Watch_child p, Watch_out p, Watch_err p} = {}"
    and "di_spawn_run P destroy get_pid kill U C fork_pid spawn_module DI_TYPE_STRING ign s = Ret (p, s1)"
    and "Watch_child p \<in> set (watchers s1)"
    and "sigchld_handler U C out_reads err_reads rstatus p s1 = Ret s2"
    and "Watch_child p \<notin> set (watchers s2)"
  shows "(\<forall>j. hash_find j (fdt (sp_os s2)) = hash_find j (fdt (sp_os s))) \<and>
    set (watchers s2) \<inter> {Watch_child p, Watch_out p, Watch_err p} = {} \<and>
    (\<exists>c. children s2 p = Some c \<and> out c = None \<and> err c = None)"
proof -
  obtain op ep ifd os1 c where r: "di_setup_fds ign (sp_os s) = (None, op, ep, ifd, os1)"
    "sp_os s1 = sys_close (snd ep) (sys_close (snd op) (sys_close ifd os1))"
    "watchers s1 = Watch_child p # (if \<not> ign then [Watch_out p, Watch_err p] else []) @ watchers s"
    "children s1 p = Some c" "out c = (if \<not> ign then Some string_buf_new else None)"
    "err c = (if \<not> ign then Some string_buf_new else None)" "\<not> ign \<longrightarrow> outw_fd c = fst op \<and> errw_fd c = fst ep"
    using di_spawn_run_started [OF assms(3) _ assms(4)] assms(2) by blast
  let ?ps = "(ifd, Null_In) # output_fds ign (next_pipe (sp_os s)) op ep"
  have o: "opened (fdt (sp_os s)) ?ps (fdt os1)" using di_setup_fds_spec(2) [OF assms(1) r(1)] by simp
  obtain c1 s1' w s2' w' where h: "s1' = s1\<lparr>sp_world := w, children := (children s1)(p \<mapsto> c1)\<rparr>"
    "outw_fd c1 = outw_fd c" "errw_fd c1 = errw_fd c" "(out c1 = None) = (out c = None)" "(err c1 = None) = (err c = None)"
    "child_cleanup U C p s1' = Ret s2'" "s2 = s2'\<lparr>sp_world := w'\<rparr>"
    using sigchld_handler_cleanup [OF assms(5) r(4)] by (elim exE conjE) (rule that; assumption)
  have "\<exists>w. s2' = (close_err p c1 (close_out p c1 (s1'\<lparr>watchers := removeAll (Watch_child p) (watchers s1')\<rparr>)))
      \<lparr>children := (children s1')(p \<mapsto> c1\<lparr>out := None, err := None\<rparr>), sp_world := w\<rparr>"
    by (rule child_cleanup_cases [OF h(6)]) (use assms(4,6) h(1,7) in auto)
  then have s2: "set (watchers s2) \<inter> {Watch_child p, Watch_out p, Watch_err p} = {}"
    "sp_os s2 = fold sys_close ([ifd, snd op, snd ep] @ (if ign then [] else [fst op, fst ep])) os1"
    "children s2 p = Some (c1\<lparr>out := None, err := None\<rparr>)"
    using h r assms(2) by (auto simp: close_err_def close_out_def)
  show ?thesis
  proof (intro conjI allI)
    fix j
    show "hash_find j (fdt (sp_os s2)) = hash_find j (fdt (sp_os s))"
      using opened_closed [OF assms(1) o, of "fst ` set ?ps" j] unfolding s2(2) fdt_closes(1) [OF opened_table_ok [OF o]]
      by (cases ign) (simp_all add: output_fds_def insert_commute disj_commute disj_left_commute)
  qed (use s2 in auto)
qed

end
