(* ===== verification/SpawnExamples.thy ===== *)
theory SpawnExamples
  imports Spawn
begin

text \<open>
  A child process on a concrete heap: the core at address 3, the module \<open>spawn\<close> at address 5 with a weak
  reference to the core, the three standard descriptors open.
\<close>

definition spawn_heap :: world where
  "spawn_heap = \<lparr>heap = [dead_weak_ref \<mapsto> dead_weakly_referenced_object,
       3 \<mapsto> empty_object\<lparr>weak_ref_count := 2\<rparr>,
       5 \<mapsto> empty_object\<lparr>members := [(''__deai'', \<lparr>m_addr = 7, m_val = VWeak 3\<rparr>)]\<rparr>],
     sigs = Map.empty, next_addr = 10, all_objects = [5, 3], log_lines = []\<rparr>"

definition stdio_os :: "bool list \<Rightarrow> posix" where
  "stdio_os as = \<lparr>fdt = [(0, Other_File 0), (1, Other_File 1), (2, Other_File 2)], next_pipe = 0, answers = as\<rparr>"

definition spawn_start :: spawn_state where
  "spawn_start = \<lparr>sp_world = spawn_heap, sp_os = stdio_os [True, True, True, True, True, True, True], children = Map.empty, watchers = [], kills = []\<rparr>"


definition drop_ref :: drop_fn where
  "drop_ref = di_unref_object plain_ext 1"

definition call_ref :: call_obj where
  "call_ref = obj_call plain_ext 0"

definition spawned :: "(oref \<times> spawn_state) res" where
  "spawned = di_spawn_run (\<lambda>r as. True) 6 7 8 drop_ref call_ref 42 5 DI_TYPE_STRING False spawn_start"

lemmas run_simps =
  di_module_get_deai_def di_object_get_deai_weak_def di_object_get_deai_strong_def get_weak_deai_def get_strong_deai_def
  di_getxt_def di_rawgetxt_def gen_tfunc_def di_getx_def call_handler_with_fallback_def di_is_internal_def starts_with_def
  di_rawgetx_def di_lookup_def get_obj_def empty_object_def di_weakly_ref_object_def put_obj_def
  di_upgrade_weak_ref_def di_ref_object_def di_drop_weak_ref_def di_decrement_weak_ref_count_def
  di_type_conversion.simps Let_def no_value_def alloc_object_def di_set_type_def di_remove_member_raw_def
  di_remove_member_raw_impl_def di_add_member_clonev_def di_add_member_clone_def di_add_member_move_def di_add_member_def
  di_insert_member_def check_new_member_def va_arg_with_di_type_def di_set_object_dtor_def di_add_method_def
  di_create_closure_def di_ffi_prep_cif_def MAX_NARGS_def hash_add_def

lemma di_module_get_deai_example:
  "di_module_get_deai drop_ref call_ref 5 spawn_heap =
     Ret (Some 3, spawn_heap\<lparr>heap := (heap spawn_heap)(3 \<mapsto> empty_object\<lparr>weak_ref_count := 2, ref_count := 2\<rparr>)\<rparr>)"
  by (simp add: run_simps spawn_heap_def fun_upd_twist)

lemma setup_example:
  "di_setup_fds False (stdio_os [True, True, True, True, True, True, True]) = (None, (3, 4), (5, 6), 7,
     \<lparr>fdt = [(0, Other_File 0), (1, Other_File 1), (2, Other_File 2), (3, Pipe_In 0), (4, Pipe_Out 0), (5, Pipe_In 1),
       (6, Pipe_Out 1), (7, Null_In)], next_pipe = 2, answers = []\<rparr>)"
  by (simp add: di_setup_fds_def open_pipes_def sys_pipe_def sys_ok_def sys_open_def stdio_os_def lowest_fd_def hash_add_def
     numeral_eq_Suc)

lemma spawned_exits:
  "\<exists>s1 s2. spawned = Ret (10, s1) \<and> Watch_child 10 \<in> set (watchers s1) \<and>
    sigchld_handler drop_ref call_ref [''ok'' @ [CHR 0x0A]] [] 0 10 s1 = Ret s2 \<and> Watch_child 10 \<notin> set (watchers s2)"
  by (simp add: spawned_def di_spawn_run_def setup_example spawn_start_def start_child_def
      new_child_object_def run_simps spawn_heap_def
      sigchld_handler_def flush_output_def handle_chunk.simps string_buf_new_def string_buf_is_empty_def string_buf_lpush_def
      string_buf_dump_def emit_line_def di_emitn_def dead_weak_ref_def sys_close_def child_cleanup_def close_out_def close_err_def drop_ref_def unref_step_def
      WIFSIGNALED_def WTERMSIG_def)

lemma stdio_ok: "fds_ok (fdt (stdio_os as)) \<and> (\<forall>j \<in> {0, 1, 2}. hash_find j (fdt (stdio_os as)) \<noteq> None) \<and> next_pipe (stdio_os as) = 0"
  by (simp add: stdio_os_def fds_ok_def)

theorem spawn_then_exit_restores_fds_witness:
  "\<exists>s1 s2. di_spawn_run (\<lambda>r as. True) 6 7 8 drop_ref call_ref 42 5 DI_TYPE_STRING False spawn_start = Ret (10, s1) \<and>
    sigchld_handler drop_ref call_ref [''ok'' @ [CHR 0x0A]] [] 0 10 s1 = Ret s2 \<and>
    (\<forall>j. hash_find j (fdt (sp_os s2)) = hash_find j (fdt (sp_os spawn_start)))"
proof -
  obtain s1 s2 where s: "spawned = Ret (10, s1)" "Watch_child 10 \<in> set (watchers s1)"
    "sigchld_handler drop_ref call_ref [''ok'' @ [CHR 0x0A]] [] 0 10 s1 = Ret s2" "Watch_child 10 \<notin> set (watchers s2)"
    using spawned_exits by blast
  have "fds_ok (fdt (sp_os spawn_start))" "set (watchers spawn_start) \<inter> {Watch_child 10, Watch_out 10, Watch_err 10} = {}"
    using stdio_ok by (simp_all add: spawn_start_def)
  from spawn_then_exit_restores_fds [OF this s(1) [unfolded spawned_def] s(2-4)] s(1,3) show ?thesis
    unfolding spawned_def by blast
qed

theorem di_setup_fds_all_or_nothing_witness:
  "\<exists>s'. di_setup_fds False (stdio_os [True, False]) = (Some ''Failed to open pipe'', (3, 4), (-1, -1), -1, s') \<and>
    (\<forall>j. hash_find j (fdt s') = hash_find j (fdt (stdio_os [True, False])))"
proof -
  have "\<exists>s'. di_setup_fds False (stdio_os [True, False]) = (Some ''Failed to open pipe'', (3, 4), (-1, -1), -1, s')"
    by (simp add: di_setup_fds_def open_pipes_def sys_pipe_def sys_ok_def sys_open_def stdio_os_def lowest_fd_def hash_add_def
     numeral_eq_Suc)
  then obtain s' where "di_setup_fds False (stdio_os [True, False]) = (Some ''Failed to open pipe'', (3, 4), (-1, -1), -1, s')" ..
  with di_setup_fds_all_or_nothing [OF _ this] stdio_ok show ?thesis by auto
qed

theorem spawn_child_streams_witness:
  "\<exists>s2. spawn_child_side False (3, 4) (5, 6) 7
      \<lparr>fdt = [(0, Other_File 0), (1, Other_File 1), (2, Other_File 2), (3, Pipe_In 0), (4, Pipe_Out 0), (5, Pipe_In 1),
        (6, Pipe_Out 1), (7, Null_In)], next_pipe = 2, answers = [True, True, True]\<rparr> = Some s2 \<and>
    hash_find 1 (fdt s2) = Some (Pipe_Out 0) \<and> hash_find 4 (fdt s2) = None"
proof -
  let ?os = "stdio_os (replicate 10 True)"
  let ?s1 = "\<lparr>fdt = [(0, Other_File 0), (1, Other_File 1), (2, Other_File 2), (3, Pipe_In 0), (4, Pipe_Out 0), (5, Pipe_In 1),
        (6, Pipe_Out 1), (7, Null_In)], next_pipe = 2, answers = [True, True, True]\<rparr>"
  have su: "di_setup_fds False ?os = (None, (3, 4), (5, 6), 7, ?s1)"
    by (simp add: di_setup_fds_def open_pipes_def sys_pipe_def sys_ok_def sys_open_def stdio_os_def lowest_fd_def hash_add_def
     numeral_eq_Suc)
  obtain s2 where s2: "spawn_child_side False (3, 4) (5, 6) 7 ?s1 = Some s2"
    by (simp add: spawn_child_side_def sys_close_def sys_dup2_def sys_ok_def hash_add_def)
  have "hash_find 4 (fdt ?os) = None" by (simp add: stdio_os_def)
  then show ?thesis using spawn_child_streams [OF _ _ su s2] s2 stdio_ok by auto
qed

theorem flush_output_emits_all_witness:
  "\<exists>b'. flush_output (\<lambda>s w. Ret (w @ [s])) [''ok'' @ [CHR 0x0A]] (Some string_buf_new) [] = Ret (Some b', [''ok'', []])"
proof -
  have l: "lines_of (concat [''ok'' @ [CHR 0x0A]]) = ([''ok''], [])" by (simp add: lines_of.simps)
  have "\<forall>s \<in> set [''ok'' @ [CHR 0x0A]]. s \<noteq> [] \<and> nul_free s" by simp
  from flush_output_emits_all [OF this, of "\<lambda>s w. Ret (w @ [s])"] l show ?thesis by auto
qed

end
