(* ===== verification/Sedes.thy ===== *)
theory Sedes
  imports Members
begin

text \<open>
  D-Bus messages: \<open>plugins/dbus/sedes.c\<close>.

  libdbus is seen through its message iterators.  Writing is a sequence of calls (\<open>dbus_call\<close>) on an
  iterator; opening a container fails when there is no memory, as \<open>mem\<close> says.  Reading walks the
  arguments of a message, a list of trees \<open>dbus_arg\<close>: the type of the current argument is the type of the
  head, \<open>next\<close> is the tail, \<open>recurse\<close> the list of the children.

  The type signature of a value is written into a buffer whose size is computed first.  The buffer is
  a list of bytes, \<open>None\<close> where nothing has been written; the signature tree points into it.  The
  serializer edits the buffer while it works, so it is part of its state.
\<close>

section \<open>Types\<close>

definition DBUS_INVALID :: char where
  "DBUS_INVALID = CHR 0x00"

definition dbus_type_is_fixed :: "char \<Rightarrow> bool" where
  "dbus_type_is_fixed c \<longleftrightarrow> c \<in> set ''ybnqiuxtdh''"

definition dbus_type_is_basic :: "char \<Rightarrow> bool" where
  "dbus_type_is_basic c \<longleftrightarrow> c \<in> set ''ybnqiuxtdhsog''"

definition dbus_type_to_di :: "char \<Rightarrow> di_type" where
  "dbus_type_to_di c =
     (if c = CHR ''b'' then DI_TYPE_BOOL
      else if c \<in> {CHR ''n'', CHR ''i'', CHR ''x''} then DI_TYPE_INT
      else if c \<in> {CHR ''q'', CHR ''u'', CHR ''t''} then DI_TYPE_UINT
      else if c = CHR ''d'' then DI_TYPE_FLOAT
      else if c = CHR ''s'' then DI_TYPE_STRING
      else if c = CHR ''h'' then DI_TYPE_INT
      else if c \<in> {CHR ''a'', CHR ''r''} then DI_TYPE_ARRAY
      else DI_LAST_TYPE)"

fun di_type_to_dbus_basic :: "di_type \<Rightarrow> char res" where
  "di_type_to_dbus_basic DI_TYPE_BOOL = Ret (CHR ''b'')"
| "di_type_to_dbus_basic DI_TYPE_INT = Ret (CHR ''x'')"
| "di_type_to_dbus_basic DI_TYPE_UINT = Ret (CHR ''t'')"
| "di_type_to_dbus_basic DI_TYPE_NINT = Ret (CHR ''i'')"
| "di_type_to_dbus_basic DI_TYPE_NUINT = Ret (CHR ''u'')"
| "di_type_to_dbus_basic DI_TYPE_FLOAT = Ret (CHR ''d'')"
| "di_type_to_dbus_basic DI_TYPE_STRING = Ret (CHR ''s'')"
| "di_type_to_dbus_basic DI_TYPE_STRING_LITERAL = Ret (CHR ''s'')"
| "di_type_to_dbus_basic DI_TYPE_ARRAY = Ret (CHR ''a'')"
| "di_type_to_dbus_basic DI_TYPE_TUPLE = Ret (CHR ''r'')"
| "di_type_to_dbus_basic DI_TYPE_ANY = Fault (Aborted ''Impossible types appeared in dbus serialization'')"
| "di_type_to_dbus_basic DI_LAST_TYPE = Fault (Aborted ''Impossible types appeared in dbus serialization'')"
| "di_type_to_dbus_basic _ = Ret DBUS_INVALID"

section \<open>Type signatures\<close>

text \<open>
  \<open>type_signature_length_of_di_value\<close>.  The loop over the elements of an array is bounded by the number
  of the element \<^emph>\<open>type\<close>: it visits that many elements, whether they exist or not.  An element that does
  not exist is harmless when its type is basic, and read out of bounds otherwise.
\<close>

definition sig_length_missing :: "di_type \<Rightarrow> int res" where
  "sig_length_missing t =
     bind_res (di_type_to_dbus_basic t) (\<lambda>dtype.
       if dbus_type_is_basic dtype then Ret 1
       else if t = DI_TYPE_ARRAY \<or> t = DI_TYPE_TUPLE then Fault Out_Of_Bounds else Ret (-1))"

fun type_signature_length_of_di_value :: "di_value \<Rightarrow> int res"
  and sig_length_rest :: "di_type \<Rightarrow> int \<Rightarrow> nat \<Rightarrow> di_value list \<Rightarrow> bool res"
  and sig_length_sum :: "di_value list \<Rightarrow> int \<Rightarrow> int res" where
  "type_signature_length_of_di_value (VArray et (Some (x # xs))) =
     bind_res (type_signature_length_of_di_value x) (\<lambda>v0.
       bind_res (di_sizeof_type et) (\<lambda>step.
         bind_res (sig_length_rest et v0 (di_type_ord et - 1) xs) (\<lambda>same.
           Ret (if same then 1 + v0 else -1))))"
| "type_signature_length_of_di_value (VArray et a) =
     bind_res (sig_length_missing et) (\<lambda>v0.
       bind_res (di_sizeof_type et) (\<lambda>step.
         bind_res (sig_length_rest et v0 (di_type_ord et - 1) []) (\<lambda>same.
           Ret (if same then 1 + v0 else -1))))"
| "type_signature_length_of_di_value (VTuple xs) = sig_length_sum xs 0"
| "type_signature_length_of_di_value v =
     bind_res (di_type_to_dbus_basic (di_typeof v)) (\<lambda>dtype. Ret (if dbus_type_is_basic dtype then 1 else -1))"
| "sig_length_rest et v0 0 xs = Ret True"
| "sig_length_rest et v0 (Suc n) [] =
     bind_res (sig_length_missing et) (\<lambda>v. if v \<noteq> v0 then Ret False else sig_length_rest et v0 n [])"
| "sig_length_rest et v0 (Suc n) (x # xs) =
     bind_res (type_signature_length_of_di_value x) (\<lambda>v. if v \<noteq> v0 then Ret False else sig_length_rest et v0 n xs)"
| "sig_length_sum [] ret = Ret (ret + 2)"
| "sig_length_sum (x # xs) ret =
     bind_res (type_signature_length_of_di_value x) (\<lambda>tmp. if tmp < 0 then Ret tmp else sig_length_sum xs (ret + tmp))"

type_synonym sig_buffer = "char option list"

definition buf_peek :: "sig_buffer \<Rightarrow> nat \<Rightarrow> char option res" where
  "buf_peek b i = (if i < length b then Ret (b ! i) else Fault Out_Of_Bounds)"

definition buf_read :: "sig_buffer \<Rightarrow> nat \<Rightarrow> char res" where
  "buf_read b i = bind_res (buf_peek b i) (\<lambda>c. case c of None \<Rightarrow> Fault Uninitialised | Some x \<Rightarrow> Ret x)"

definition buf_write :: "nat \<Rightarrow> char option \<Rightarrow> sig_buffer \<Rightarrow> sig_buffer res" where
  "buf_write i c b = (if i < length b then Ret (b[i := c]) else Fault Out_Of_Bounds)"

text \<open>
  \<open>verify_type_signature\<close>: the position after the signature, or \<open>None\<close>.  The parenthesis of an array of
  variants is checked but not skipped, and the branch always ends in \<open>NULL\<close>.
\<close>

definition verify_missing :: "sig_buffer \<Rightarrow> di_type \<Rightarrow> nat \<Rightarrow> nat option res" where
  "verify_missing b t pos =
     bind_res (di_type_to_dbus_basic t) (\<lambda>dtype.
       if dbus_type_is_basic dtype then bind_res (buf_read b pos) (\<lambda>c. Ret (if dtype = c then Some (Suc pos) else None))
       else if t = DI_TYPE_ARRAY then Fault Null_Deref else Ret None)"

fun verify_type_signature :: "sig_buffer \<Rightarrow> di_value \<Rightarrow> nat \<Rightarrow> nat option res"
  and verify_all :: "sig_buffer \<Rightarrow> di_value list \<Rightarrow> nat \<Rightarrow> bool res"
  and verify_vars :: "sig_buffer \<Rightarrow> di_value list \<Rightarrow> nat \<Rightarrow> nat option res" where
  "verify_type_signature b (VArray et a) pos =
     (if et \<noteq> DI_TYPE_VARIANT then
        bind_res (buf_read b pos) (\<lambda>c.
          if c \<noteq> CHR ''a'' then Ret None
          else bind_res (di_sizeof_type et) (\<lambda>step.
            case a of
              Some (x # xs) \<Rightarrow>
                bind_res (verify_type_signature b x (Suc pos)) (\<lambda>ret.
                  bind_res (verify_all b xs (Suc pos)) (\<lambda>ok. Ret (if ok then ret else None)))
            | _ \<Rightarrow> verify_missing b et (Suc pos)))
      else
        bind_res (buf_read b pos) (\<lambda>c.
          if c \<noteq> CHR ''('' then Ret None
          else bind_res (case a of None \<Rightarrow> Ret (Some pos) | Some vars \<Rightarrow> verify_vars b vars pos) (\<lambda>cur.
            case cur of None \<Rightarrow> Ret None | Some p \<Rightarrow> bind_res (buf_read b p) (\<lambda>_. Ret None))))"
| "verify_type_signature b v pos =
     bind_res (di_type_to_dbus_basic (di_typeof v)) (\<lambda>dtype.
       if dbus_type_is_basic dtype then bind_res (buf_read b pos) (\<lambda>c. Ret (if dtype = c then Some (Suc pos) else None))
       else Ret None)"
| "verify_all b [] pos = Ret True"
| "verify_all b (x # xs) pos =
     bind_res (verify_type_signature b x pos) (\<lambda>r. case r of None \<Rightarrow> Ret False | Some _ \<Rightarrow> verify_all b xs pos)"
| "verify_vars b [] cur = Ret (Some cur)"
| "verify_vars b (x # xs) cur =
     (case x of
        VVariant v \<Rightarrow>
          bind_res (verify_type_signature b v cur) (\<lambda>r. case r of None \<Rightarrow> Ret None | Some next \<Rightarrow> verify_vars b xs next)
      | _ \<Rightarrow> Fault Type_Confusion)"

datatype dbus_signature =
  Dbus_Signature (sig_current: "nat option") (sig_length: int) (sig_child: "dbus_signature list")

definition invalid_signature :: dbus_signature where
  "invalid_signature = Dbus_Signature None (-22) []"

definition sig_missing_to_buffer :: "di_type \<Rightarrow> sig_buffer \<Rightarrow> nat \<Rightarrow> (dbus_signature \<times> sig_buffer) res" where
  "sig_missing_to_buffer t b pos =
     bind_res (di_type_to_dbus_basic t) (\<lambda>dtype.
       if dbus_type_is_basic dtype then bind_res (buf_write pos (Some dtype) b) (\<lambda>b'. Ret (Dbus_Signature (Some pos) 1 [], b'))
       else if t = DI_TYPE_ARRAY \<or> t = DI_TYPE_TUPLE then Fault Null_Deref
       else Ret (invalid_signature, b))"

fun type_signature_of_di_value_to_buffer :: "di_value \<Rightarrow> sig_buffer \<Rightarrow> nat \<Rightarrow> (dbus_signature \<times> sig_buffer) res"
  and sig_elems_to_buffer ::
    "di_value list \<Rightarrow> sig_buffer \<Rightarrow> nat \<Rightarrow> (dbus_signature list \<times> nat \<times> dbus_signature option \<times> sig_buffer) res" where
  "type_signature_of_di_value_to_buffer (VArray et a) b pos =
     bind_res (buf_write pos (Some (CHR ''a'')) b) (\<lambda>b1.
       bind_res (case a of
           Some (x # xs) \<Rightarrow> type_signature_of_di_value_to_buffer x b1 (Suc pos)
         | _ \<Rightarrow> sig_missing_to_buffer et b1 (Suc pos)) (\<lambda>(res, b2).
         bind_res (verify_type_signature b2 (VArray et a) pos) (\<lambda>v.
           case v of
             None \<Rightarrow> Ret (invalid_signature, b2)
           | Some _ \<Rightarrow> Ret (Dbus_Signature (Some pos) (sig_length res + 1) [res], b2))))"
| "type_signature_of_di_value_to_buffer (VTuple xs) b pos =
     bind_res (buf_write pos (Some (CHR ''('')) b) (\<lambda>b1.
       bind_res (sig_elems_to_buffer xs b1 (Suc pos)) (\<lambda>(child, cur, err, b2).
         case err of
           Some e \<Rightarrow> Ret (e, b2)
         | None \<Rightarrow>
            bind_res (buf_write cur (Some (CHR '')'')) b2) (\<lambda>b3.
              Ret (Dbus_Signature (Some pos) (2 + sum_list (map sig_length child)) child, b3))))"
| "type_signature_of_di_value_to_buffer v b pos =
     bind_res (di_type_to_dbus_basic (di_typeof v)) (\<lambda>dtype.
       if dbus_type_is_basic dtype then bind_res (buf_write pos (Some dtype) b) (\<lambda>b'. Ret (Dbus_Signature (Some pos) 1 [], b'))
       else Ret (invalid_signature, b))"
| "sig_elems_to_buffer [] b cur = Ret ([], cur, None, b)"
| "sig_elems_to_buffer (x # xs) b cur =
     bind_res (type_signature_of_di_value_to_buffer x b cur) (\<lambda>(child, b1).
       if sig_current child = None then Ret ([], cur, Some child, b1)
       else bind_res (sig_elems_to_buffer xs b1 (cur + nat (sig_length child))) (\<lambda>(cs, cur', err, b2).
         Ret (child # cs, cur', err, b2)))"

definition type_signature_of_di_value :: "di_value \<Rightarrow> (dbus_signature \<times> sig_buffer) res" where
  "type_signature_of_di_value v =
     bind_res (type_signature_length_of_di_value v) (\<lambda>len.
       if len < 0 then Ret (invalid_signature, [])
       else type_signature_of_di_value_to_buffer v (replicate (nat len + 1) None) 0)"

section \<open>Serialization\<close>

datatype dbus_arg =
    D_byte "8 word"
  | D_bool bool
  | D_int16 "16 word"
  | D_uint16 "16 word"
  | D_int32 "32 word"
  | D_uint32 "32 word"
  | D_int64 "64 word"
  | D_uint64 "64 word"
  | D_double double
  | D_string string
  | D_objpath string
  | D_signature string
  | D_unix_fd "32 word"
  | D_array "dbus_arg list"
  | D_struct "dbus_arg list"
  | D_dict_entry "dbus_arg list"
  | D_variant dbus_arg

datatype dbus_call =
    Append_basic dbus_arg
  | Append_fixed_array char "dbus_arg list"
  | Open_container char string
  | Close_container

record ser_state =
  sbuf :: sig_buffer
  calls :: "dbus_call list"
  mem :: "bool list"

definition emit_call :: "dbus_call \<Rightarrow> ser_state \<Rightarrow> ser_state" where
  "emit_call c s = s\<lparr>calls := calls s @ [c]\<rparr>"

definition open_container :: "char \<Rightarrow> string \<Rightarrow> ser_state \<Rightarrow> bool \<times> ser_state" where
  "open_container c sg s =
     (case mem s of
        False # ms \<Rightarrow> (False, s\<lparr>mem := ms\<rparr>)
      | True # ms \<Rightarrow> (True, emit_call (Open_container c sg) (s\<lparr>mem := ms\<rparr>))
      | [] \<Rightarrow> (True, emit_call (Open_container c sg) s))"

text \<open>
  The bytes of a basic value as libdbus reads them.  libdbus reads four bytes for a boolean, where a
  \<open>bool\<close> has one.
\<close>

fun basic_arg :: "di_value \<Rightarrow> dbus_arg res" where
  "basic_arg (VInt i) = Ret (D_int64 i)"
| "basic_arg (VUint i) = Ret (D_uint64 i)"
| "basic_arg (VNint i) = Ret (D_int32 i)"
| "basic_arg (VNuint i) = Ret (D_uint32 i)"
| "basic_arg (VFloat d) = Ret (D_double d)"
| "basic_arg (VString s) = Ret (D_string (cstr (di_string_to_chars_alloc s)))"
| "basic_arg (VLiteral s) = Ret (D_string (cstr s))"
| "basic_arg _ = Fault Type_Confusion"

fun basic_args :: "di_value list \<Rightarrow> dbus_arg list res" where
  "basic_args [] = Ret []"
| "basic_args (v # vs) = bind_res (basic_arg v) (\<lambda>x. bind_res (basic_args vs) (\<lambda>xs. Ret (x # xs)))"

text \<open>The C string that starts at a place of the buffer.\<close>

fun read_chars :: "char option list \<Rightarrow> string res" where
  "read_chars [] = Fault Out_Of_Bounds"
| "read_chars (None # b) = Fault Uninitialised"
| "read_chars (Some c # b) = (if c = CHR 0x00 then Ret [] else bind_res (read_chars b) (\<lambda>s. Ret (c # s)))"

definition sig_at :: "dbus_signature \<Rightarrow> nat res" where
  "sig_at si = (case sig_current si of None \<Rightarrow> Fault Null_Deref | Some p \<Rightarrow> Ret p)"

text \<open>
  Opening the container of an array whose elements are not of a fixed type.  The element signature is
  cut with a NUL byte; the byte that is put back afterwards was read at the length of the \<^emph>\<open>array\<close>
  signature, one place too far.
\<close>

definition open_cut_container :: "char \<Rightarrow> dbus_signature \<Rightarrow> dbus_signature \<Rightarrow> ser_state \<Rightarrow> (bool \<times> ser_state) res" where
  "open_cut_container dtype si si2 s =
     bind_res (sig_at si2) (\<lambda>p.
       bind_res (buf_peek (sbuf s) (p + nat (sig_length si))) (\<lambda>tmp.
         bind_res (buf_write (p + nat (sig_length si2)) (Some (CHR 0x00)) (sbuf s)) (\<lambda>b1.
           bind_res (read_chars (drop p b1)) (\<lambda>sg.
             let (ok, s1) = open_container dtype sg s in
             bind_res (buf_write (p + nat (sig_length si2)) tmp b1) (\<lambda>b2. Ret (ok, s1\<lparr>sbuf := b2\<rparr>))))))"

fun dbus_serialize_with_signature :: "di_value \<Rightarrow> dbus_signature \<Rightarrow> ser_state \<Rightarrow> (int \<times> ser_state) res"
  and serialize_elems :: "di_value list \<Rightarrow> dbus_signature \<Rightarrow> ser_state \<Rightarrow> (int \<times> ser_state) res" where
  "dbus_serialize_with_signature (VArray et a) si s =
     (if et = DI_TYPE_VARIANT then Fault (Aborted ''dtype == DBUS_TYPE_STRUCT'')
      else bind_res (sig_at si) (\<lambda>p. bind_res (buf_read (sbuf s) p) (\<lambda>c.
        assert_res (c = CHR ''a'') ''dtype == *si.current''
          (bind_res (di_type_to_dbus_basic et) (\<lambda>atype.
            case sig_child si of
              [si2] \<Rightarrow>
                if dbus_type_is_basic atype \<and> atype \<noteq> CHR ''s'' then
                  bind_res (sig_at si2) (\<lambda>p2. bind_res (buf_read (sbuf s) p2) (\<lambda>c2.
                    assert_res (atype = c2) ''atype == *si2.current''
                      (let (ok, s1) = open_container (CHR ''a'') [atype] s in
                       if \<not> ok then Ret (-12, s1)
                       else bind_res (basic_args (array_elems a)) (\<lambda>xs.
                         Ret (0, emit_call Close_container (emit_call (Append_fixed_array atype xs) s1))))))
                else
                  bind_res (di_sizeof_type et) (\<lambda>step.
                    bind_res (open_cut_container (CHR ''a'') si si2 s) (\<lambda>(ok, s1).
                      if \<not> ok then Ret (-12, s1)
                      else bind_res (case a of None \<Rightarrow> Ret (0, s1) | Some xs \<Rightarrow> serialize_elems xs si2 s1) (\<lambda>(ret, s2).
                        if ret < 0 then Ret (ret, s2) else Ret (0, emit_call Close_container s2))))
            | _ \<Rightarrow> Fault (Aborted ''si.nchild == 1''))))))"
| "dbus_serialize_with_signature v si s =
     bind_res (di_type_to_dbus_basic (di_typeof v)) (\<lambda>dtype.
       if dbus_type_is_basic dtype then
         bind_res (sig_at si) (\<lambda>p. bind_res (buf_read (sbuf s) p) (\<lambda>c.
           assert_res (dtype = c) ''dtype == *si.current''
             (bind_res (basic_arg v) (\<lambda>x. Ret (0, emit_call (Append_basic x) s)))))
       else Ret (-22, s))"
| "serialize_elems [] si s = Ret (0, s)"
| "serialize_elems (x # xs) si s =
     bind_res (dbus_serialize_with_signature x si s) (\<lambda>(ret, s1). if ret < 0 then Ret (ret, s1) else serialize_elems xs si s1)"

fun serialize_fields :: "di_value list \<Rightarrow> dbus_signature list \<Rightarrow> ser_state \<Rightarrow> (int \<times> ser_state) res" where
  "serialize_fields [] sis s = Ret (0, s)"
| "serialize_fields (x # xs) [] s = Fault Out_Of_Bounds"
| "serialize_fields (x # xs) (si # sis) s =
     bind_res (dbus_serialize_with_signature x si s) (\<lambda>(ret, s1). if ret < 0 then Ret (ret, s1) else serialize_fields xs sis s1)"

definition dbus_serialize_struct :: "di_value list \<Rightarrow> bool list \<Rightarrow> (int \<times> dbus_call list) res" where
  "dbus_serialize_struct t ms =
     bind_res (type_signature_of_di_value (VTuple t)) (\<lambda>(sg, b).
       if sig_current sg = None then Ret (sig_length sg, [])
       else bind_res (serialize_fields t (sig_child sg) \<lparr>sbuf = b, calls = [], mem = ms\<rparr>) (\<lambda>(ret, s).
         Ret (if ret < 0 then ret else 0, calls s)))"

section \<open>Deserialization\<close>

fun arg_type :: "dbus_arg \<Rightarrow> char" where
  "arg_type (D_byte x) = CHR ''y''"
| "arg_type (D_bool x) = CHR ''b''"
| "arg_type (D_int16 x) = CHR ''n''"
| "arg_type (D_uint16 x) = CHR ''q''"
| "arg_type (D_int32 x) = CHR ''i''"
| "arg_type (D_uint32 x) = CHR ''u''"
| "arg_type (D_int64 x) = CHR ''x''"
| "arg_type (D_uint64 x) = CHR ''t''"
| "arg_type (D_double x) = CHR ''d''"
| "arg_type (D_string x) = CHR ''s''"
| "arg_type (D_objpath x) = CHR ''o''"
| "arg_type (D_signature x) = CHR ''g''"
| "arg_type (D_unix_fd x) = CHR ''h''"
| "arg_type (D_array xs) = CHR ''a''"
| "arg_type (D_struct xs) = CHR ''r''"
| "arg_type (D_dict_entry xs) = CHR ''e''"
| "arg_type (D_variant x) = CHR ''v''"

definition iter_type :: "dbus_arg list \<Rightarrow> char" where
  "iter_type i = (case i of [] \<Rightarrow> DBUS_INVALID | x # _ \<Rightarrow> arg_type x)"

fun recurse :: "dbus_arg \<Rightarrow> dbus_arg list" where
  "recurse (D_array xs) = xs"
| "recurse (D_struct xs) = xs"
| "recurse (D_dict_entry xs) = xs"
| "recurse (D_variant x) = [x]"
| "recurse _ = []"

fun dbus_deserialize_basic :: "dbus_arg \<Rightarrow> di_value res" where
  "dbus_deserialize_basic (D_bool b) = Ret (VBool b)"
| "dbus_deserialize_basic (D_int16 i) = Ret (VInt (scast i))"
| "dbus_deserialize_basic (D_int32 i) = Ret (VInt (scast i))"
| "dbus_deserialize_basic (D_unix_fd i) = Ret (VInt (scast i))"
| "dbus_deserialize_basic (D_int64 i) = Ret (VInt i)"
| "dbus_deserialize_basic (D_uint16 i) = Ret (VUint (ucast i))"
| "dbus_deserialize_basic (D_uint32 i) = Ret (VUint (ucast i))"
| "dbus_deserialize_basic (D_uint64 i) = Ret (VUint i)"
| "dbus_deserialize_basic (D_double d) = Ret (VFloat d)"
| "dbus_deserialize_basic (D_string s) = Ret (VString (di_string_dup s))"
| "dbus_deserialize_basic _ = Fault (Aborted ''dbus_deserialize_basic'')"

definition is_string_dict :: "dbus_arg list \<Rightarrow> bool" where
  "is_string_dict i2 \<longleftrightarrow> iter_type i2 = CHR ''e'' \<and> iter_type (recurse (hd i2)) = CHR ''s''"

text \<open>
  An array of a fixed type is handed out as the message's own memory with its element type never set.
  The elements of other arrays are written at the stride of the element type that the outer type code
  suggests, whatever type they turn out to have.  A variant is skipped without writing a result.
\<close>

fun dbus_deserialize_one :: "drop_fn \<Rightarrow> dbus_arg \<Rightarrow> world \<Rightarrow> (di_value \<times> world) res"
  and deserialize_elems :: "drop_fn \<Rightarrow> di_type \<Rightarrow> dbus_arg list \<Rightarrow> world \<Rightarrow> (di_value list \<times> world) res"
  and deserialize_fields :: "drop_fn \<Rightarrow> dbus_arg list \<Rightarrow> world \<Rightarrow> (di_value list \<times> world) res"
  and deserialize_entries :: "drop_fn \<Rightarrow> oref \<Rightarrow> dbus_arg list \<Rightarrow> world \<Rightarrow> world res" where
  "dbus_deserialize_one U (D_array i2) w =
     (if is_string_dict i2 then
        let (o', w1) = alloc_object w in
        bind_res (deserialize_entries U o' i2 w1) (\<lambda>w2. Ret (VObject o', w2))
      else if i2 = [] then Ret (DI_ARRAY_INIT, w)
      else if dbus_type_is_fixed (iter_type i2) then Fault Uninitialised
      else
        let et = dbus_type_to_di (iter_type i2) in
        bind_res (di_sizeof_type et) (\<lambda>esize.
          bind_res (deserialize_elems U et i2 w) (\<lambda>(xs, w1). Ret (VArray et (Some xs), w1))))"
| "dbus_deserialize_one U (D_struct i2) w = bind_res (deserialize_fields U i2 w) (\<lambda>(xs, w1). Ret (VTuple xs, w1))"
| "dbus_deserialize_one U (D_dict_entry i2) w = bind_res (deserialize_fields U i2 w) (\<lambda>(xs, w1). Ret (VTuple xs, w1))"
| "dbus_deserialize_one U (D_variant x) w = Fault Uninitialised"
| "dbus_deserialize_one U x w = bind_res (dbus_deserialize_basic x) (\<lambda>v. Ret (v, w))"
| "deserialize_elems U et [] w = Ret ([], w)"
| "deserialize_elems U et (i # is) w =
     bind_res (dbus_deserialize_one U i w) (\<lambda>(x, w1).
       if di_typeof x \<noteq> et then Fault Type_Confusion
       else bind_res (deserialize_elems U et is w1) (\<lambda>(xs, w2). Ret (x # xs, w2)))"
| "deserialize_fields U [] w = Ret ([], w)"
| "deserialize_fields U (i # is) w =
     bind_res (di_sizeof_type (dbus_type_to_di (arg_type i))) (\<lambda>n.
       bind_res (dbus_deserialize_one U i w) (\<lambda>(x, w1).
         let t = dbus_type_to_di (arg_type i);
             t' = (if di_typeof x = DI_TYPE_OBJECT \<and> t = DI_TYPE_ARRAY then di_typeof x else t) in
         assert_res (di_typeof x = t') ''_dbus_deserialize_struct''
           (bind_res (deserialize_fields U is w1) (\<lambda>(xs, w2). Ret (x # xs, w2)))))"
| "deserialize_entries U o' [] w = Ret w"
| "deserialize_entries U o' (i # is) w =
     bind_res (case i of D_dict_entry i2 \<Rightarrow> deserialize_fields U i2 w | _ \<Rightarrow> Fault Type_Confusion) (\<lambda>(t, w1).
       case t of
         [VString key, v] \<Rightarrow> bind_res (di_add_member_move U o' key v w1) (\<lambda>(_, w2). deserialize_entries U o' is w2)
       | _ \<Rightarrow> Fault (Aborted ''dbus_deserialize_dict''))"

definition dbus_deserialize_struct :: "drop_fn \<Rightarrow> dbus_arg list \<Rightarrow> world \<Rightarrow> (di_value \<times> world) res" where
  "dbus_deserialize_struct U i w = bind_res (deserialize_fields U i w) (\<lambda>(xs, w1). Ret (VTuple xs, w1))"

end
