(* ===== verification/SedesProps.thy ===== *)
theory SedesProps
  imports Sedes
begin

text \<open>
  What serialization does on the values it supports: the signature that is written, the calls that
  build the message, and reading the message back.  Then the values on which it goes wrong.
\<close>

section \<open>Supported values\<close>

fun basic_char :: "di_type \<Rightarrow> char option" where
  "basic_char DI_TYPE_BOOL = Some (CHR ''b'')"
| "basic_char DI_TYPE_INT = Some (CHR ''x'')"
| "basic_char DI_TYPE_UINT = Some (CHR ''t'')"
| "basic_char DI_TYPE_NINT = Some (CHR ''i'')"
| "basic_char DI_TYPE_NUINT = Some (CHR ''u'')"
| "basic_char DI_TYPE_FLOAT = Some (CHR ''d'')"
| "basic_char DI_TYPE_STRING = Some (CHR ''s'')"
| "basic_char DI_TYPE_STRING_LITERAL = Some (CHR ''s'')"
| "basic_char _ = None"

text \<open>\<open>sig_ok\<close>: basic values, arrays of basic values, and tuples of these.  \<open>dbus_sig\<close> is their signature.\<close>

fun sig_ok :: "di_value \<Rightarrow> bool" where
  "sig_ok (VArray et a) = (basic_char et \<noteq> None \<and> (\<forall>x \<in> set (array_elems a). di_typeof x = et))"
| "sig_ok (VTuple xs) = (\<forall>x \<in> set xs. sig_ok x)"
| "sig_ok v = (basic_char (di_typeof v) \<noteq> None)"

fun dbus_sig :: "di_value \<Rightarrow> string" where
  "dbus_sig (VArray et a) = [CHR ''a'', the (basic_char et)]"
| "dbus_sig (VTuple xs) = CHR ''('' # concat (map dbus_sig xs) @ '')''"
| "dbus_sig v = [the (basic_char (di_typeof v))]"

fun sig_tree :: "di_value \<Rightarrow> nat \<Rightarrow> dbus_signature"
  and sig_trees :: "di_value list \<Rightarrow> nat \<Rightarrow> dbus_signature list" where
  "sig_tree (VArray et a) pos = Dbus_Signature (Some pos) 2 [Dbus_Signature (Some (Suc pos)) 1 []]"
| "sig_tree (VTuple xs) pos = Dbus_Signature (Some pos) (int (length (dbus_sig (VTuple xs)))) (sig_trees xs (Suc pos))"
| "sig_tree v pos = Dbus_Signature (Some pos) 1 []"
| "sig_trees [] pos = []"
| "sig_trees (x # xs) pos = sig_tree x pos # sig_trees xs (pos + length (dbus_sig x))"

lemma basic_charD:
  "basic_char t = Some c \<Longrightarrow> di_type_to_dbus_basic t = Ret c \<and> dbus_type_is_basic c \<and> (\<exists>n. di_sizeof_type t = Ret n) \<and>
     t \<noteq> DI_TYPE_VARIANT \<and> t \<noteq> DI_TYPE_ARRAY \<and> t \<noteq> DI_TYPE_TUPLE"
  by (cases t) (auto simp: dbus_type_is_basic_def)

text \<open>A basic value takes the last equation of each function on values.\<close>

lemma basic_value:
  assumes "basic_char (di_typeof v) = Some c"
  shows "type_signature_length_of_di_value v = Ret 1"
    and "verify_type_signature b v pos = bind_res (buf_read b pos) (\<lambda>d. Ret (if c = d then Some (Suc pos) else None))"
    and "type_signature_of_di_value_to_buffer v b pos =
      bind_res (buf_write pos (Some c) b) (\<lambda>b'. Ret (Dbus_Signature (Some pos) 1 [], b'))"
    and "dbus_serialize_with_signature v si s =
      bind_res (sig_at si) (\<lambda>p. bind_res (buf_read (sbuf s) p) (\<lambda>d. assert_res (c = d) ''dtype == *si.current''
        (bind_res (basic_arg v) (\<lambda>x. Ret (0, emit_call (Append_basic x) s)))))"
    and "sig_ok v" and "dbus_sig v = [c]" and "sig_tree v pos = Dbus_Signature (Some pos) 1 []"
  using assms basic_charD [OF assms] by (cases v; simp)+

section \<open>Signatures\<close>

lemma sig_length_rest_basic:
  assumes "basic_char et = Some c" and "\<forall>x \<in> set xs. di_typeof x = et"
  shows "sig_length_rest et 1 n xs = Ret True"
  using assms(2)
proof (induction n arbitrary: xs)
  case (Suc n)
  then show ?case using assms(1) basic_charD [OF assms(1)] basic_value(1)
    by (cases xs) (simp_all add: sig_length_missing_def)
qed simp

lemma sig_length_sum_eq:
  "(\<And>x. x \<in> set xs \<Longrightarrow> type_signature_length_of_di_value x = Ret (int (length (dbus_sig x)))) \<Longrightarrow>
   sig_length_sum xs r = Ret (r + int (length (concat (map dbus_sig xs))) + 2)"
  by (induction xs arbitrary: r) simp_all

lemma signature_length: "sig_ok v \<Longrightarrow> type_signature_length_of_di_value v = Ret (int (length (dbus_sig v)))"
proof (induction v rule: sig_ok.induct)
  case (1 et a)
  then obtain c where c: "basic_char et = Some c" by auto
  note d = basic_charD [OF c]
  show ?case
  proof (cases "array_elems a")
    case Nil
    then have "type_signature_length_of_di_value (VArray et a) = Ret 2"
      using d sig_length_rest_basic [OF c, of "[]"]
      by (cases a) (auto simp: sig_length_missing_def simp del: sig_length_rest.simps)
    then show ?thesis by simp
  next
    case (Cons x xs)
    then have a: "a = Some (x # xs)" by (cases a) simp_all
    have "type_signature_length_of_di_value x = Ret 1" using 1 a c by (intro basic_value(1)) auto
    moreover have "sig_length_rest et 1 n xs = Ret True" for n using 1 a by (intro sig_length_rest_basic [OF c]) auto
    ultimately show ?thesis using a d by (auto simp del: sig_length_rest.simps)
  qed
next
  case (2 xs)
  then show ?case by (simp add: sig_length_sum_eq)
qed (simp_all add: dbus_type_is_basic_def)

definition write_at :: "nat \<Rightarrow> string \<Rightarrow> sig_buffer \<Rightarrow> sig_buffer" where
  "write_at pos s b = take pos b @ map Some s @ drop (pos + length s) b"

lemma write_at_length [simp]: "pos + length s \<le> length b \<Longrightarrow> length (write_at pos s b) = length b"
  by (simp add: write_at_def)

lemma write_at_Nil [simp]: "write_at pos [] b = b"
  by (simp add: write_at_def)

lemma write_at_append:
  "pos + length s + length t \<le> length b \<Longrightarrow> write_at (pos + length s) t (write_at pos s b) = write_at pos (s @ t) b"
  by (subgoal_tac "min (length b) pos = pos") (simp_all add: write_at_def ac_simps)

lemma buf_write_at: "pos < length b \<Longrightarrow> buf_write pos (Some c) b = Ret (write_at pos [c] b)"
  by (simp add: buf_write_def write_at_def upd_conv_take_nth_drop)

lemma buf_read_at:
  "pos + length s \<le> length b \<Longrightarrow> i < length s \<Longrightarrow> buf_read (write_at pos s b) (pos + i) = Ret (s ! i)"
  by (simp add: buf_read_def buf_peek_def write_at_def nth_append)

lemma verify_all_basic:
  assumes "basic_char et = Some c" and "\<forall>x \<in> set xs. di_typeof x = et" and "buf_read b pos = Ret c"
  shows "verify_all b xs pos = Ret True"
  using assms(2) by (induction xs) (simp_all add: basic_value(2) assms(1,3) del: verify_type_signature.simps)

lemma verify_array_basic:
  assumes c: "basic_char et = Some c" and t: "\<forall>x \<in> set (array_elems a). di_typeof x = et"
    and b: "buf_read b pos = Ret (CHR ''a'')" "buf_read b (Suc pos) = Ret c"
  shows "verify_type_signature b (VArray et a) pos = Ret (Some (Suc (Suc pos)))"
proof (cases "array_elems a")
  case Nil
  then show ?thesis using basic_charD [OF c] b by (cases a) (auto simp: verify_missing_def)
next
  case (Cons x xs)
  then have a: "a = Some (x # xs)" by (cases a) simp_all
  have "verify_type_signature b x (Suc pos) = Ret (Some (Suc (Suc pos)))"
    using basic_value(2) [of x c] t a c b by simp
  moreover have "verify_all b xs (Suc pos) = Ret True" using t a b by (intro verify_all_basic [OF c]) auto
  ultimately show ?thesis using basic_charD [OF c] b a by auto
qed

lemma array_to_buffer:
  assumes ok: "sig_ok (VArray et a)" and room: "pos + 2 \<le> length b"
  shows "type_signature_of_di_value_to_buffer (VArray et a) b pos =
    Ret (sig_tree (VArray et a) pos, write_at pos (dbus_sig (VArray et a)) b)"
proof -
  obtain c where c: "basic_char et = Some c" using ok by auto
  let ?b = "write_at pos [CHR ''a'', c] b"
  have w: "buf_write (Suc pos) (Some c) (write_at pos [CHR ''a''] b) = Ret ?b"
    using room write_at_append [of pos "[CHR ''a'']" "[c]" b] by (simp add: buf_write_at)
  have "(case a of Some (x # xs) \<Rightarrow> type_signature_of_di_value_to_buffer x (write_at pos [CHR ''a''] b) (Suc pos)
      | _ \<Rightarrow> sig_missing_to_buffer et (write_at pos [CHR ''a''] b) (Suc pos)) = Ret (Dbus_Signature (Some (Suc pos)) 1 [], ?b)"
  proof (cases "array_elems a")
    case Nil
    then show ?thesis using basic_charD [OF c] w by (cases a) (auto simp: sig_missing_to_buffer_def)
  next
    case (Cons x xs)
    then have a: "a = Some (x # xs)" by (cases a) simp_all
    then show ?thesis using basic_value(3) [of x c] ok c w by simp
  qed
  moreover have "verify_type_signature ?b (VArray et a) pos = Ret (Some (Suc (Suc pos)))"
    using ok buf_read_at [of pos "[CHR ''a'', c]" b 0] buf_read_at [of pos "[CHR ''a'', c]" b 1] room
    by (intro verify_array_basic [OF c]) auto
  ultimately show ?thesis using room c by (simp add: buf_write_at del: verify_type_signature.simps)
qed

lemma elems_to_buffer:
  assumes "\<And>x b pos. x \<in> set xs \<Longrightarrow> pos + length (dbus_sig x) \<le> length b \<Longrightarrow>
      type_signature_of_di_value_to_buffer x b pos = Ret (sig_tree x pos, write_at pos (dbus_sig x) b)"
    and "pos + length (concat (map dbus_sig xs)) \<le> length b"
  shows "sig_elems_to_buffer xs b pos =
    Ret (sig_trees xs pos, pos + length (concat (map dbus_sig xs)), None, write_at pos (concat (map dbus_sig xs)) b)"
  using assms
proof (induction xs arbitrary: b pos)
  case (Cons x xs)
  let ?n = "length (dbus_sig x)" and ?b = "write_at pos (dbus_sig x) b"
  have x: "type_signature_of_di_value_to_buffer x b pos = Ret (sig_tree x pos, ?b)" using Cons.prems by simp
  have t: "sig_current (sig_tree x pos) = Some pos" "nat (sig_length (sig_tree x pos)) = ?n" by (cases x; simp)+
  have "sig_elems_to_buffer xs ?b (pos + ?n) = Ret (sig_trees xs (pos + ?n), pos + ?n + length (concat (map dbus_sig xs)),
      None, write_at (pos + ?n) (concat (map dbus_sig xs)) ?b)"
    using Cons.prems by (intro Cons.IH) (simp_all add: add.assoc)
  moreover have "write_at (pos + ?n) (concat (map dbus_sig xs)) ?b = write_at pos (concat (map dbus_sig (x # xs))) b"
    using Cons.prems(2) by (simp add: write_at_append)
  ultimately show ?case using x t by (simp add: add.assoc del: type_signature_of_di_value_to_buffer.simps)
qed simp

lemma sig_tree_length [simp]: "sig_length (sig_tree v pos) = int (length (dbus_sig v))"
  by (cases v) simp_all

lemma sig_trees_length: "sum_list (map sig_length (sig_trees xs pos)) = int (length (concat (map dbus_sig xs)))"
  by (induction xs arbitrary: pos) simp_all

lemma signature_to_buffer:
  "sig_ok v \<Longrightarrow> pos + length (dbus_sig v) \<le> length b \<Longrightarrow>
   type_signature_of_di_value_to_buffer v b pos = Ret (sig_tree v pos, write_at pos (dbus_sig v) b)"
proof (induction v arbitrary: b pos rule: sig_ok.induct)
  case (1 et a)
  then show ?case using array_to_buffer by simp
next
  case (2 xs)
  let ?s = "concat (map dbus_sig xs)"
  let ?b1 = "write_at pos [CHR ''('' ] b"
  have "sig_elems_to_buffer xs ?b1 (Suc pos) = Ret (sig_trees xs (Suc pos), Suc pos + length ?s, None, write_at (Suc pos) ?s ?b1)"
    using 2 by (intro elems_to_buffer) simp_all
  moreover have "write_at (Suc pos) ?s ?b1 = write_at pos (CHR ''('' # ?s) b"
    using 2 write_at_append [of pos "[CHR ''('']" ?s b] by simp
  moreover have "write_at (Suc pos + length ?s) '')'' (write_at pos (CHR ''('' # ?s) b) = write_at pos (dbus_sig (VTuple xs)) b"
    using 2 write_at_append [of pos "CHR ''('' # ?s" "'')''" b] by simp
  moreover have "Suc pos + length ?s < length b" "pos < length b" using 2(3) by simp_all
  ultimately show ?case using sig_trees_length [of xs "Suc pos"]
    by (simp add: buf_write_at del: sig_elems_to_buffer.simps)
qed (simp_all add: dbus_type_is_basic_def buf_write_at)

lemma signature_eq:
  assumes "sig_ok v"
  shows "type_signature_of_di_value v = Ret (sig_tree v 0, map Some (dbus_sig v) @ [None])"
proof -
  have "drop n (replicate (n + 1) None) = [None]" for n :: nat by (subst drop_replicate) simp
  then have "write_at 0 (dbus_sig v) (replicate (length (dbus_sig v) + 1) None) = map Some (dbus_sig v) @ [None]"
    by (simp only: write_at_def) simp
  then show ?thesis using signature_to_buffer [OF assms, of 0 "replicate (length (dbus_sig v) + 1) None"]
    by (simp add: type_signature_of_di_value_def signature_length [OF assms])
qed

text \<open>
  C17. Signatures are right and fit.  For a basic value, an array of basic values or a tuple of such values and
  tuples, but no array of arrays or of tuples, the length computed beforehand is the length of the signature, the buffer receives exactly
  the signature and keeps one byte free, and the tree points at the signature of each part.
\<close>

theorem signature_of_supported_value:
  assumes "sig_ok v"
  shows "type_signature_of_di_value v = Ret (sig_tree v 0, map Some (dbus_sig v) @ [None])"
  using assms by (rule signature_eq)

theorem signature_of_supported_value_witness:
  "type_signature_of_di_value (VTuple [VInt 5, VArray DI_TYPE_STRING (Some [VString (Some ''a'')])]) =
     Ret (Dbus_Signature (Some 0) 5 [Dbus_Signature (Some 1) 1 [], Dbus_Signature (Some 2) 2 [Dbus_Signature (Some 3) 1 []]],
       [Some CHR ''('', Some CHR ''x'', Some CHR ''a'', Some CHR ''s'', Some CHR '')'', None])"
proof -
  have "sig_ok (VTuple [VInt 5, VArray DI_TYPE_STRING (Some [VString (Some ''a'')])])" by simp
  from signature_of_supported_value [OF this] show ?thesis by (simp add: eval_nat_numeral)
qed

section \<open>Messages\<close>

text \<open>
  \<open>wire\<close> is the argument a value stands for, \<open>arg_calls\<close> the calls that append an argument with a given
  signature.  \<open>field_ok\<close> leaves out booleans; \<open>str_array\<close> are the arrays of strings.
\<close>

fun wire :: "di_value \<Rightarrow> dbus_arg" where
  "wire (VArray et a) = D_array (map wire (array_elems a))"
| "wire (VInt i) = D_int64 i"
| "wire (VUint i) = D_uint64 i"
| "wire (VNint i) = D_int32 i"
| "wire (VNuint i) = D_uint32 i"
| "wire (VFloat d) = D_double d"
| "wire (VString s) = D_string (cstr (di_string_bytes s))"
| "wire (VLiteral s) = D_string (cstr s)"
| "wire (VBool b) = D_bool b"
| "wire _ = D_array []"

definition arg_calls :: "string \<Rightarrow> dbus_arg \<Rightarrow> dbus_call list" where
  "arg_calls sg x =
     (case sg of
        [a, c] \<Rightarrow> Open_container a [c] #
          (if c = CHR ''s'' then map Append_basic (recurse x) else [Append_fixed_array c (recurse x)]) @ [Close_container]
      | _ \<Rightarrow> [Append_basic x])"

definition plain_type :: "di_type \<Rightarrow> bool" where
  "plain_type t \<longleftrightarrow> basic_char t \<noteq> None \<and> t \<noteq> DI_TYPE_BOOL"

fun field_ok :: "di_value \<Rightarrow> bool" where
  "field_ok (VArray et a) = (plain_type et \<and> (\<forall>x \<in> set (array_elems a). di_typeof x = et))"
| "field_ok v = plain_type (di_typeof v)"

fun str_array :: "di_value \<Rightarrow> bool" where
  "str_array (VArray et a) = (et = DI_TYPE_STRING \<or> et = DI_TYPE_STRING_LITERAL)"
| "str_array v = False"

lemma field_ok_sig_ok: "field_ok v \<Longrightarrow> sig_ok v"
  by (cases v) (auto simp: plain_type_def)

lemma cstr_chars_alloc [simp]: "cstr (di_string_to_chars_alloc s) = cstr (di_string_bytes s)"
  by (auto simp: di_string_to_chars_alloc_eq cstr_def takeWhile_append intro: sym [OF takeWhile_eq_all_conv [THEN iffD2]])

lemma basic_arg_wire: "plain_type (di_typeof v) \<Longrightarrow> basic_arg v = Ret (wire v)"
  by (cases v) (auto simp: plain_type_def)

lemma basic_args_wire: "\<forall>x \<in> set xs. plain_type (di_typeof x) \<Longrightarrow> basic_args xs = Ret (map wire xs)"
  by (induction xs) (simp_all add: basic_arg_wire)

lemma buf_read_here [simp]: "buf_read (pre @ Some c # r) (length pre) = Ret c"
  "buf_read (pre @ d # Some c # r) (Suc (length pre)) = Ret c"
  by (simp_all add: buf_read_def buf_peek_def nth_append)

lemma serialize_basic:
  assumes "plain_type (di_typeof v)" and "buf_read (sbuf s) p = Ret (the (basic_char (di_typeof v)))"
  shows "dbus_serialize_with_signature v (Dbus_Signature (Some p) 1 []) s = Ret (0, emit_call (Append_basic (wire v)) s)"
proof -
  obtain c where c: "basic_char (di_typeof v) = Some c" using assms(1) by (auto simp: plain_type_def)
  show ?thesis using assms c basic_arg_wire by (simp add: basic_value(4) [OF c] sig_at_def del: dbus_serialize_with_signature.simps)
qed

lemma serialize_field:
  assumes "field_ok v" "\<not> str_array v" "mem s = []" "sbuf s = pre @ map Some (dbus_sig v) @ r"
  shows "dbus_serialize_with_signature v (sig_tree v (length pre)) s = Ret (0, s\<lparr>calls := calls s @ arg_calls (dbus_sig v) (wire v)\<rparr>)"
proof (cases "\<exists>et a. v = VArray et a")
  case True
  then obtain et a where v: "v = VArray et a" by blast
  obtain c where c: "basic_char et = Some c" using assms(1) v by (auto simp: plain_type_def)
  have "c \<noteq> CHR ''s''" using c assms(2) v by (cases et) auto
  moreover have "basic_args (array_elems a) = Ret (map wire (array_elems a))"
    using assms(1) v by (intro basic_args_wire) auto
  ultimately show ?thesis using assms c v basic_charD [OF c]
    by (simp add: sig_at_def open_container_def emit_call_def arg_calls_def)
next
  case False
  then have p: "plain_type (di_typeof v)" using assms(1) by (cases v) auto
  then obtain c where c: "basic_char (di_typeof v) = Some c" by (auto simp: plain_type_def)
  note b = basic_value(6,7) [OF c]
  have "buf_read (sbuf s) (length pre) = Ret (the (basic_char (di_typeof v)))" using assms(4) b c by simp
  from serialize_basic [OF p this] show ?thesis by (simp add: b emit_call_def arg_calls_def)
qed

text \<open>An array of strings leaves the byte behind its signature overwritten with the one after that.\<close>

lemma serialize_strings:
  assumes "\<forall>x \<in> set xs. di_typeof x = et" "plain_type et" "buf_read (sbuf s) p = Ret (the (basic_char et))"
  shows "serialize_elems xs (Dbus_Signature (Some p) 1 []) s = Ret (0, s\<lparr>calls := calls s @ map (Append_basic \<circ> wire) xs\<rparr>)"
  using assms(1,3)
proof (induction xs arbitrary: s)
  case (Cons x xs)
  then show ?case using serialize_basic [of x s p] assms(2)
    by (simp add: emit_call_def del: dbus_serialize_with_signature.simps)
qed simp

lemma serialize_str_array:
  assumes ok: "field_ok v" "str_array v" and "mem s = []" and b: "sbuf s = pre @ Some CHR ''a'' # Some CHR ''s'' # y # z # r"
  shows "dbus_serialize_with_signature v (sig_tree v (length pre)) s =
    Ret (0, s\<lparr>calls := calls s @ arg_calls (dbus_sig v) (wire v), sbuf := pre @ Some CHR ''a'' # Some CHR ''s'' # z # z # r\<rparr>)"
proof -
  obtain et a where v: "v = VArray et a" and t: "plain_type et" "\<forall>x \<in> set (array_elems a). di_typeof x = et"
    and et: "et = DI_TYPE_STRING \<or> et = DI_TYPE_STRING_LITERAL"
    using ok by (cases v) auto
  have c: "basic_char et = Some (CHR ''s'')" using et by auto
  let ?s = "s\<lparr>calls := calls s @ [Open_container (CHR ''a'') ''s''], sbuf := pre @ Some CHR ''a'' # Some CHR ''s'' # z # z # r\<rparr>"
  let ?si2 = "Dbus_Signature (Some (Suc (length pre))) 1 []"
  have "open_cut_container (CHR ''a'') (sig_tree v (length pre)) ?si2 s = Ret (True, ?s)"
    using assms(3) b v by (simp add: open_cut_container_def sig_at_def buf_peek_def buf_write_def nth_append list_update_append
        open_container_def emit_call_def eval_nat_numeral)
  moreover have "(case a of None \<Rightarrow> Ret (0, ?s) | Some xs \<Rightarrow> serialize_elems xs ?si2 ?s) =
      Ret (0, ?s\<lparr>calls := calls ?s @ map (Append_basic \<circ> wire) (array_elems a)\<rparr>)"
    using serialize_strings [of "array_elems a" et ?s "Suc (length pre)"] t c by (cases a) simp_all
  ultimately show ?thesis using b v et c basic_charD [OF c]
    by (cases "et = DI_TYPE_STRING"; cases a) (simp_all add: sig_at_def arg_calls_def emit_call_def del: serialize_elems.simps)
qed

definition message_calls :: "di_value list \<Rightarrow> dbus_call list" where
  "message_calls xs = concat (map (\<lambda>x. arg_calls (dbus_sig x) (wire x)) xs)"

lemma serialize_plain_fields:
  assumes "\<forall>x \<in> set xs. field_ok x \<and> \<not> str_array x" "mem s = []" "sbuf s = pre @ map Some (concat (map dbus_sig xs)) @ r"
  shows "serialize_fields (xs @ ys) (sig_trees xs (length pre) @ ts) s =
    serialize_fields ys ts (s\<lparr>calls := calls s @ message_calls xs\<rparr>)"
  using assms
proof (induction xs arbitrary: s pre)
  case (Cons x xs)
  have "dbus_serialize_with_signature x (sig_tree x (length pre)) s = Ret (0, s\<lparr>calls := calls s @ arg_calls (dbus_sig x) (wire x)\<rparr>)"
    using Cons.prems by (intro serialize_field) auto
  moreover have "length pre + length (dbus_sig x) = length (pre @ map Some (dbus_sig x))" by simp
  ultimately show ?case
    using Cons.IH [of "s\<lparr>calls := calls s @ arg_calls (dbus_sig x) (wire x)\<rparr>" "pre @ map Some (dbus_sig x)"] Cons.prems
    by (simp add: message_calls_def del: dbus_serialize_with_signature.simps)
qed (simp add: message_calls_def)

lemma sig_trees_append: "sig_trees (xs @ ys) pos = sig_trees xs pos @ sig_trees ys (pos + length (concat (map dbus_sig xs)))"
  by (induction xs arbitrary: pos) (simp_all add: add.assoc)

lemma message_calls_append: "message_calls (xs @ ys) = message_calls xs @ message_calls ys"
  by (simp add: message_calls_def)

definition fields_ok :: "di_value list \<Rightarrow> bool" where
  "fields_ok xs \<longleftrightarrow> (\<forall>x \<in> set xs. field_ok x) \<and> (\<forall>x \<in> set (butlast xs). \<not> str_array x)"

text \<open>The serializer up to the last field, for a tuple whose other fields are not arrays of strings.\<close>

lemma serialize_struct_split:
  assumes "\<forall>x \<in> set xs. field_ok x \<and> \<not> str_array x" and "\<forall>y \<in> set ys. sig_ok y"
  shows "dbus_serialize_struct (xs @ ys) [] =
    bind_res (serialize_fields ys (sig_trees ys (Suc (length (concat (map dbus_sig xs)))))
        \<lparr>sbuf = Some CHR ''('' # map Some (concat (map dbus_sig xs)) @ map Some (concat (map dbus_sig ys)) @ [Some CHR '')'', None],
          calls = message_calls xs, mem = []\<rparr>)
      (\<lambda>(ret, s). Ret (if ret < 0 then ret else 0, calls s))"
proof -
  let ?b = "map Some (dbus_sig (VTuple (xs @ ys))) @ [None]"
  let ?s = "\<lparr>sbuf = ?b, calls = [], mem = []\<rparr>"
  have "sig_ok (VTuple (xs @ ys))" using assms field_ok_sig_ok by auto
  then have sg: "type_signature_of_di_value (VTuple (xs @ ys)) = Ret (sig_tree (VTuple (xs @ ys)) 0, ?b)"
    by (rule signature_eq)
  have "serialize_fields (xs @ ys) (sig_trees xs (length [Some CHR ''('']) @ sig_trees ys (Suc (length (concat (map dbus_sig xs))))) ?s =
      serialize_fields ys (sig_trees ys (Suc (length (concat (map dbus_sig xs))))) (?s\<lparr>calls := calls ?s @ message_calls xs\<rparr>)"
    using assms(1) by (intro serialize_plain_fields) auto
  then show ?thesis using sg by (simp add: dbus_serialize_struct_def sig_trees_append)
qed

lemma serialize_fields_ok:
  assumes "fields_ok xs"
  shows "dbus_serialize_struct xs [] = Ret (0, message_calls xs)"
proof (cases xs rule: rev_cases)
  case Nil
  then show ?thesis using serialize_struct_split [of "[]" "[]"] by simp
next
  case (snoc ys y)
  then have ys: "\<forall>x \<in> set ys. field_ok x \<and> \<not> str_array x" and y: "field_ok y" using assms by (auto simp: fields_ok_def)
  let ?pre = "Some CHR ''('' # map Some (concat (map dbus_sig ys))"
  let ?s = "\<lparr>sbuf = ?pre @ map Some (dbus_sig y) @ [Some CHR '')'', None], calls = message_calls ys, mem = []\<rparr>"
  have "\<exists>s'. dbus_serialize_with_signature y (sig_tree y (length ?pre)) ?s = Ret (0, s') \<and>
      calls s' = message_calls ys @ arg_calls (dbus_sig y) (wire y)"
  proof (cases "str_array y")
    case True
    then have "dbus_sig y = ''as''" by (cases y) auto
    then show ?thesis using serialize_str_array [OF y True, of ?s ?pre "Some CHR '')''" None "[]"] by simp
  next
    case False
    then show ?thesis using serialize_field [OF y False, of ?s ?pre] by simp
  qed
  then show ?thesis using serialize_struct_split [OF ys, of "[y]"] field_ok_sig_ok [OF y] snoc
    by (auto simp: message_calls_def simp del: dbus_serialize_with_signature.simps)
qed

text \<open>
  Serialization emits the message of the value.  For a tuple of basic values other than booleans
  and of arrays of such values, in which only the last field may be an array of strings, the result is
  0 and the calls build exactly the arguments the values stand for, in order.
\<close>

theorem serialize_supported_tuple:
  assumes "fields_ok xs"
  shows "dbus_serialize_struct xs [] = Ret (0, message_calls xs)"
  using assms by (rule serialize_fields_ok)

text \<open>
  C19. An array of strings breaks the field behind it.  When the last field of a tuple is a basic value
  and the one before it an array of strings, the signature byte of the last field has been overwritten
  and its assertion stops the process.
\<close>

theorem serialize_after_string_array_aborts:
  assumes "\<forall>x \<in> set xs. field_ok x \<and> \<not> str_array x" and "field_ok a" and "str_array a"
    and "basic_char (di_typeof y) \<noteq> None"
  shows "dbus_serialize_struct (xs @ [a, y]) [] = Fault (Aborted ''dtype == *si.current'')"
proof -
  obtain c where c: "basic_char (di_typeof y) = Some c" using assms(4) by auto
  let ?pre = "Some CHR ''('' # map Some (concat (map dbus_sig xs))"
  let ?s = "\<lparr>sbuf = ?pre @ Some CHR ''a'' # Some CHR ''s'' # Some c # Some CHR '')'' # [None], calls = message_calls xs, mem = []\<rparr>"
  have a: "dbus_sig a = ''as''" using assms(3) by (cases a) auto
  have "c \<noteq> CHR '')''" using c by (cases "di_typeof y") auto
  moreover note serialize_str_array [OF assms(2,3), of ?s ?pre "Some c" "Some CHR '')''" "[None]"]
  moreover have "\<forall>z \<in> set [a, y]. sig_ok z" using field_ok_sig_ok [OF assms(2)] basic_value(5) [OF c] by simp
  moreover have "buf_read (?pre @ Some CHR ''a'' # Some CHR ''s'' # Some CHR '')'' # r) (length ?pre + 2) = Ret (CHR '')'')" for r
    by (simp add: buf_read_def buf_peek_def nth_append)
  ultimately show ?thesis using serialize_struct_split [OF assms(1), of "[a, y]"] a basic_value(6,7) [OF c]
    by (simp add: basic_value(4) [OF c] sig_at_def del: dbus_serialize_with_signature.simps)
qed

text \<open>
  Arrays of arrays are read out of bounds.  The length of the signature is computed over as many
  elements as the number of the type \<open>DI_TYPE_ARRAY\<close>, 13, so any shorter array of alike arrays makes
  it read behind the last element; and an untyped empty array stops the process.
\<close>

theorem signature_of_nested_array:
  assumes "sig_ok (VArray et a)" and "\<forall>x \<in> set xs. \<exists>b. x = VArray et b \<and> sig_ok x"
    and "length xs < 12"
  shows "type_signature_of_di_value (VArray DI_TYPE_ARRAY (Some (VArray et a # xs))) = Fault Out_Of_Bounds \<and>
    (\<exists>m. type_signature_of_di_value DI_ARRAY_INIT = Fault (Aborted m))"
proof -
  have len: "type_signature_length_of_di_value x = Ret 2" if "x \<in> set (VArray et a # xs)" for x
    using that assms signature_length by fastforce
  have rest: "sig_length_rest DI_TYPE_ARRAY 2 n ys = Fault Out_Of_Bounds"
    if "\<forall>y \<in> set ys. type_signature_length_of_di_value y = Ret 2" "length ys < n" for n ys
    using that
  proof (induction n arbitrary: ys)
    case (Suc n)
    then show ?case
      by (cases ys) (simp_all add: sig_length_missing_def dbus_type_is_basic_def)
  qed simp
  have "sig_length_rest DI_TYPE_ARRAY 2 12 xs = Fault Out_Of_Bounds" using assms(3) len by (intro rest) auto
  then show ?thesis using len [of "VArray et a"]
    by (simp add: type_signature_of_di_value_def DI_ARRAY_INIT_def sig_length_missing_def)
qed

theorem signature_of_nested_array_witness:
  "type_signature_of_di_value (VArray DI_TYPE_ARRAY (Some [VArray DI_TYPE_INT (Some [VInt 5])])) = Fault Out_Of_Bounds"
  using signature_of_nested_array [of DI_TYPE_INT "Some [VInt 5]" "[]"] by simp

section \<open>Reading back\<close>

text \<open>
  What comes back of a value: 32-bit integers are widened, literals become strings, strings end at their
  first NUL, an empty array loses its element type.
\<close>

fun widen :: "di_value \<Rightarrow> di_value" where
  "widen (VNint i) = VInt (scast i)"
| "widen (VNuint i) = VUint (ucast i)"
| "widen (VString s) = VString (Some (cstr (di_string_bytes s)))"
| "widen (VLiteral s) = VString (Some (cstr s))"
| "widen (VArray et a) = (if array_elems a = [] then DI_ARRAY_INIT else VArray DI_TYPE_STRING (Some (map widen (array_elems a))))"
| "widen v = v"

lemma deserialize_basic:
  assumes "plain_type (di_typeof v)"
  shows "dbus_deserialize_one U (wire v) w = Ret (widen v, w)" and "di_typeof (widen v) = dbus_type_to_di (arg_type (wire v))"
  using assms by (cases v; simp add: plain_type_def di_string_dup_def dbus_type_to_di_def)+

lemma deserialize_strings:
  assumes "\<forall>x \<in> set xs. di_typeof x = et" "et = DI_TYPE_STRING \<or> et = DI_TYPE_STRING_LITERAL"
  shows "deserialize_elems U DI_TYPE_STRING (map wire xs) w = Ret (map widen xs, w)"
  using assms(1)
proof (induction xs)
  case (Cons x xs)
  then have "x = VString s \<or> x = VLiteral t" if "\<And>s. x \<noteq> VString s" "\<And>t. x \<noteq> VLiteral t" for s t
    using that assms(2) by (cases x) auto
  then have "(\<exists>s. x = VString s) \<or> (\<exists>t. x = VLiteral t)" by blast
  then have "dbus_deserialize_one U (wire x) w = Ret (widen x, w)" "di_typeof (widen x) = DI_TYPE_STRING"
    by (auto simp: di_string_dup_def)
  with Cons show ?case by (simp del: dbus_deserialize_one.simps)
qed simp

lemma deserialize_str_array:
  assumes "field_ok v" "str_array v"
  shows "dbus_deserialize_one U (wire v) w = Ret (widen v, w)"
proof -
  obtain et a where v: "v = VArray et a" "\<forall>x \<in> set (array_elems a). di_typeof x = et" "et = DI_TYPE_STRING \<or> et = DI_TYPE_STRING_LITERAL"
    using assms by (cases v) auto
  show ?thesis
  proof (cases "array_elems a")
    case Nil
    then show ?thesis by (simp add: v(1) is_string_dict_def iter_type_def DBUS_INVALID_def)
  next
    case (Cons x xs)
    then have "arg_type (wire x) = CHR ''s''" using v(2,3) by (cases x) auto
    then have "iter_type (map wire (array_elems a)) = CHR ''s''" using Cons by (simp add: iter_type_def)
    then show ?thesis using deserialize_strings [OF v(2,3), of U w] Cons v(1)
      by (simp add: is_string_dict_def dbus_type_is_fixed_def dbus_type_to_di_def del: list.map deserialize_elems.simps)
  qed
qed

lemma deserialize_fields_wire:
  assumes "\<forall>x \<in> set xs. field_ok x \<and> (plain_type (di_typeof x) \<or> str_array x)"
  shows "deserialize_fields U (map wire xs) w = Ret (map widen xs, w)"
  using assms
proof (induction xs)
  case (Cons x xs)
  have "dbus_deserialize_one U (wire x) w = Ret (widen x, w) \<and> di_typeof (widen x) = dbus_type_to_di (arg_type (wire x)) \<and>
      (\<exists>n. di_sizeof_type (di_typeof (widen x)) = Ret n)"
  proof (cases "plain_type (di_typeof x)")
    case True
    then have "\<exists>n. di_sizeof_type (di_typeof (widen x)) = Ret n" by (cases x) (auto simp: plain_type_def)
    then show ?thesis using deserialize_basic [OF True] by simp
  next
    case False
    then have x: "field_ok x" "str_array x" using Cons.prems by auto
    then have "di_typeof (widen x) = DI_TYPE_ARRAY" "dbus_type_to_di (arg_type (wire x)) = DI_TYPE_ARRAY"
      by (cases x; simp add: DI_ARRAY_INIT_def dbus_type_to_di_def)+
    then show ?thesis using deserialize_str_array [OF x] by simp
  qed
  then show ?case using Cons by (auto simp: Let_def simp del: dbus_deserialize_one.simps)
qed simp

text \<open>
  C11. A tuple survives the trip over the bus.  For supported tuples whose arrays are arrays of strings,
  serialization builds the message \<open>map wire xs\<close>, and deserializing that message gives the values back,
  integers widened, without touching the heap.
\<close>

theorem dbus_roundtrip:
  assumes "fields_ok xs" and "\<forall>x \<in> set xs. plain_type (di_typeof x) \<or> str_array x"
  shows "dbus_serialize_struct xs [] = Ret (0, concat (map2 arg_calls (map dbus_sig xs) (map wire xs))) \<and>
    dbus_deserialize_struct U (map wire xs) w = Ret (VTuple (map widen xs), w)"
proof -
  have "message_calls xs = concat (map2 arg_calls (map dbus_sig xs) (map wire xs))"
    unfolding message_calls_def by (induction xs) simp_all
  moreover have "deserialize_fields U (map wire xs) w = Ret (map widen xs, w)"
    using assms by (intro deserialize_fields_wire) (auto simp: fields_ok_def)
  ultimately show ?thesis using serialize_fields_ok [OF assms(1)] by (simp add: dbus_deserialize_struct_def)
qed

theorem serialize_supported_tuple_witness:
  "dbus_serialize_struct [VNint 7, VArray DI_TYPE_INT (Some [VInt 5, VInt 6])] [] =
     Ret (0, [Append_basic (D_int32 7), Open_container (CHR ''a'') ''x'', Append_fixed_array (CHR ''x'') [D_int64 5, D_int64 6],
       Close_container])"
proof -
  have "fields_ok [VNint 7, VArray DI_TYPE_INT (Some [VInt 5, VInt 6])]" by (simp add: fields_ok_def plain_type_def)
  from serialize_supported_tuple [OF this] show ?thesis by (simp add: message_calls_def arg_calls_def)
qed

theorem serialize_after_string_array_aborts_witness:
  "dbus_serialize_struct [VArray DI_TYPE_STRING (Some [VString (Some ''a'')]), VInt 5] [] = Fault (Aborted ''dtype == *si.current'')"
  using serialize_after_string_array_aborts [of "[]" "VArray DI_TYPE_STRING (Some [VString (Some ''a'')])" "VInt 5"]
  by (simp add: plain_type_def)

theorem dbus_roundtrip_witness:
  "dbus_serialize_struct [VNint 7, VArray DI_TYPE_STRING (Some [VString (Some ''a'')])] [] =
     Ret (0, [Append_basic (D_int32 7), Open_container (CHR ''a'') ''s'', Append_basic (D_string ''a''), Close_container]) \<and>
   dbus_deserialize_struct (\<lambda>p w. Ret w) [D_int32 7, D_array [D_string ''a'']] initial_world =
     Ret (VTuple [VInt 7, VArray DI_TYPE_STRING (Some [VString (Some ''a'')])], initial_world)"
proof -
  let ?xs = "[VNint 7, VArray DI_TYPE_STRING (Some [VString (Some ''a'')])]"
  have "fields_ok ?xs" "\<forall>x \<in> set ?xs. plain_type (di_typeof x) \<or> str_array x" by (simp_all add: fields_ok_def plain_type_def)
  from dbus_roundtrip [OF this, of "\<lambda>p w. Ret w" initial_world] show ?thesis
    by (simp add: arg_calls_def nul_free_def del: dbus_deserialize_one.simps)
qed

section \<open>Dictionaries\<close>

lemma add_member_to_table:
  assumes "heap w p = Some x" "check_new_member x k = None" "\<exists>n. di_sizeof_type (di_typeof v) = Ret (Suc n)"
  shows "\<exists>w'. di_add_member_move U p (Some k) v w = Ret (Inr (), w') \<and>
    heap w' = (heap w)(p \<mapsto> x\<lparr>members := members x @ [(k, \<lparr>m_addr = next_addr w, m_val = v\<rparr>)]\<rparr>)"
  using assms by (auto simp: di_add_member_move_def di_add_member_def di_insert_member_def get_obj_def hash_add_def)

definition dict_entry :: "string \<times> di_value \<Rightarrow> dbus_arg" where
  "dict_entry kv = D_dict_entry [D_string (fst kv), wire (snd kv)]"

lemma check_new_member_cong:
  "hash_find k (members x) = None \<Longrightarrow> check_new_member x k = check_new_member empty_object k"
  by (simp add: check_new_member_def empty_object_def)

lemma deserialize_entries_table:
  assumes "heap w p = Some x" "distinct (map fst (members x) @ map fst kvs)"
    "\<forall>kv \<in> set kvs. nul_free (fst kv) \<and> check_new_member empty_object (fst kv) = None \<and> plain_type (di_typeof (snd kv))"
  shows "\<exists>w' ms. deserialize_entries U p (map dict_entry kvs) w = Ret w' \<and>
    heap w' = (heap w)(p \<mapsto> x\<lparr>members := members x @ ms\<rparr>) \<and> map (\<lambda>m. (fst m, m_val (snd m))) ms = map (\<lambda>kv. (fst kv, widen (snd kv))) kvs"
  using assms
proof (induction kvs arbitrary: w x)
  case Nil
  then show ?case by (intro exI [of _ w] exI [of _ "[]"]) (auto simp: fun_eq_iff)
next
  case (Cons kv kvs)
  let ?k = "fst kv" and ?v = "widen (snd kv)"
  have pt: "plain_type (di_typeof (snd kv))" "nul_free ?k" using Cons.prems(3) by auto
  then have "plain_type (di_typeof (VString (Some ?k)))" by (simp add: plain_type_def)
  then have f: "deserialize_fields U [D_string ?k, wire (snd kv)] w = Ret ([VString (Some ?k), ?v], w)"
    using deserialize_fields_wire [of "[VString (Some ?k), snd kv]" U w] pt
    by (cases "snd kv") (simp_all add: plain_type_def del: deserialize_fields.simps)
  have "hash_find ?k (members x) = None" using Cons.prems(2) by (auto simp: hash_find_None_iff)
  then have "check_new_member x ?k = None" using check_new_member_cong [of ?k x] Cons.prems(3) by simp
  moreover have "\<exists>n. di_sizeof_type (di_typeof ?v) = Ret (Suc n)" using pt by (cases "snd kv") (auto simp: plain_type_def)
  ultimately obtain w1 where w1: "di_add_member_move U p (Some ?k) ?v w = Ret (Inr (), w1)"
    "heap w1 = (heap w)(p \<mapsto> x\<lparr>members := members x @ [(?k, \<lparr>m_addr = next_addr w, m_val = ?v\<rparr>)]\<rparr>)"
    using add_member_to_table [OF Cons.prems(1)] by blast
  let ?x = "x\<lparr>members := members x @ [(?k, \<lparr>m_addr = next_addr w, m_val = ?v\<rparr>)]\<rparr>"
  have h1: "heap w1 p = Some ?x" using w1(2) by simp
  have h2: "distinct (map fst (members ?x) @ map fst kvs)" using Cons.prems(2) by simp
  have h3: "\<forall>kv \<in> set kvs. nul_free (fst kv) \<and> check_new_member empty_object (fst kv) = None \<and> plain_type (di_typeof (snd kv))"
    using Cons.prems(3) by simp
  obtain w' ms where "deserialize_entries U p (map dict_entry kvs) w1 = Ret w' \<and>
    heap w' = (heap w1)(p \<mapsto> ?x\<lparr>members := members ?x @ ms\<rparr>) \<and>
    map (\<lambda>m. (fst m, m_val (snd m))) ms = map (\<lambda>kv. (fst kv, widen (snd kv))) kvs"
    using Cons.IH [OF h1 h2 h3] by (elim exE) (rule that)
  then show ?case using f w1
    by (intro exI [of _ w'] exI [of _ "(?k, \<lparr>m_addr = next_addr w, m_val = ?v\<rparr>) # ms"])
      (simp add: dict_entry_def [of kv] del: deserialize_fields.simps)
qed

text \<open>
  A dictionary with string keys becomes a new object.  Its members are the entries of the
  dictionary, in order and with the deserialized values; no other object changes.
\<close>

theorem deserialize_string_dict:
  assumes "kvs \<noteq> []" "distinct (map fst kvs)"
    "\<forall>kv \<in> set kvs. nul_free (fst kv) \<and> check_new_member empty_object (fst kv) = None \<and> plain_type (di_typeof (snd kv))"
  shows "\<exists>w' ms. dbus_deserialize_one U (D_array (map dict_entry kvs)) w = Ret (VObject (next_addr w), w') \<and>
    heap w' = (heap w)(next_addr w \<mapsto> empty_object\<lparr>members := ms\<rparr>) \<and>
    map (\<lambda>m. (fst m, m_val (snd m))) ms = map (\<lambda>kv. (fst kv, widen (snd kv))) kvs"
proof -
  let ?p = "next_addr w" and ?w1 = "snd (alloc_object w)"
  have al: "alloc_object w = (?p, ?w1)" "heap ?w1 = (heap w)(?p \<mapsto> empty_object)" by (simp_all add: alloc_object_def Let_def)
  have "is_string_dict (map dict_entry kvs)" using assms(1)
    by (cases kvs) (simp_all add: is_string_dict_def iter_type_def dict_entry_def)
  moreover have "\<exists>w' ms. deserialize_entries U ?p (map dict_entry kvs) ?w1 = Ret w' \<and>
      heap w' = (heap ?w1)(?p \<mapsto> empty_object\<lparr>members := members empty_object @ ms\<rparr>) \<and>
      map (\<lambda>m. (fst m, m_val (snd m))) ms = map (\<lambda>kv. (fst kv, widen (snd kv))) kvs"
    using al assms by (intro deserialize_entries_table) (auto simp: empty_object_def)
  ultimately show ?thesis using al(2) unfolding dbus_deserialize_one.simps Let_def
    by (subst al(1)) (auto simp: empty_object_def)
qed

theorem deserialize_string_dict_witness:
  "\<exists>w' ms. dbus_deserialize_one (\<lambda>p w. Ret w) (D_array [D_dict_entry [D_string ''k'', D_int32 7]]) initial_world =
     Ret (VObject (next_addr initial_world), w') \<and> heap w' (next_addr initial_world) = Some (empty_object\<lparr>members := ms\<rparr>) \<and>
     map (\<lambda>m. (fst m, m_val (snd m))) ms = [(''k'', VInt 7)]"
proof -
  have "\<forall>kv \<in> set [(''k'', VNint 7)]. nul_free (fst kv) \<and> check_new_member empty_object (fst kv) = None \<and> plain_type (di_typeof (snd kv))"
    by (simp add: nul_free_def check_new_member_def empty_object_def starts_with_def plain_type_def)
  from deserialize_string_dict [OF _ _ this, of "\<lambda>p w. Ret w" initial_world] show ?thesis
    by (fastforce simp: dict_entry_def simp del: dbus_deserialize_one.simps)
qed

end
