(* ===== verification/Log.thy ===== *)
theory Log
  imports Posix Runtime
begin

text \<open>
  The logging module \<open>log.c\<close> and the environment of \<open>os.c\<close>.

  A log target is an object with a method \<open>write\<close>; a file target appends to a file, here the list of
  bytes it holds, and ends every entry with a newline.  The environment is a table of C strings.
\<close>

section \<open>Log levels\<close>

datatype di_log_level = DI_LOG_ERROR | DI_LOG_WARN | DI_LOG_INFO | DI_LOG_DEBUG

primrec log_level_num :: "di_log_level \<Rightarrow> int" where
  "log_level_num DI_LOG_ERROR = 0"
| "log_level_num DI_LOG_WARN = 1"
| "log_level_num DI_LOG_INFO = 2"
| "log_level_num DI_LOG_DEBUG = 3"

text \<open>\<open>strncasecmp(data, lit, n) == 0\<close> for the \<open>n\<close> bytes \<open>data\<close> and a C string \<open>lit\<close>.\<close>

fun strncasecmp_eq :: "string \<Rightarrow> string \<Rightarrow> bool" where
  "strncasecmp_eq [] lit = True"
| "strncasecmp_eq (c # cs) [] = (c = CHR 0x00)"
| "strncasecmp_eq (c # cs) (d # ds) = (c_tolower c = c_tolower d \<and> (c = CHR 0x00 \<or> strncasecmp_eq cs ds))"

definition level_lookup :: "di_string \<Rightarrow> int" where
  "level_lookup l =
     (if strncasecmp_eq (di_string_bytes l) ''error'' then 0
      else if strncasecmp_eq (di_string_bytes l) ''warn'' then 1
      else if strncasecmp_eq (di_string_bytes l) ''info'' then 2
      else if strncasecmp_eq (di_string_bytes l) ''debug'' then 3
      else 4)"

definition level_tostring :: "int \<Rightarrow> string option" where
  "level_tostring l =
     (if l = 3 then Some ''debug'' else if l = 2 then Some ''info'' else if l = 1 then Some ''warn''
      else if l = 0 then Some ''error'' else None)"

text \<open>\<open>get_log_level\<close> hands \<open>NULL\<close> to \<open>strdup\<close> when the level has no name.\<close>

definition get_log_level :: "int \<Rightarrow> string res" where
  "get_log_level l = (case level_tostring l of None \<Rightarrow> Fault Null_Deref | Some s \<Rightarrow> Ret s)"

definition set_log_level :: "int \<Rightarrow> di_string \<Rightarrow> int \<times> int" where
  "set_log_level l ll = (let nll = level_lookup ll in if nll \<le> 3 then (0, nll) else (-1, l))"

definition di_set_log_level :: "int \<Rightarrow> int \<Rightarrow> int \<times> int" where
  "di_set_log_level l log_level = (if 3 < log_level then (-1, l) else (0, log_level))"

definition di_log_va :: "int \<Rightarrow> int \<Rightarrow> string \<Rightarrow> world \<Rightarrow> int \<times> world" where
  "di_log_va l log_level text w = (if l < log_level then (0, w) else (int (length text), log_line text w))"

section \<open>Log entries\<close>

fun errno_code :: "errno \<Rightarrow> int" where
  "errno_code EPERM = 1"
| "errno_code ENOENT = 2"
| "errno_code E2BIG = 7"
| "errno_code ENOMEM = 12"
| "errno_code EEXIST = 17"
| "errno_code EINVAL = 22"
| "errno_code ERANGE = 34"
| "errno_code ENOTSUP = 95"
| "errno_code (Errno n) = n"

fun string_arg :: "di_value \<Rightarrow> di_string option" where
  "string_arg (VString s) = Some s"
| "string_arg (VLiteral s) = Some (di_string_borrow s)"
| "string_arg _ = None"

text \<open>The macro \<open>di_callr\<close> with a result of type \<open>int\<close>.\<close>

definition callr_nint ::
  "drop_fn \<Rightarrow> call_obj \<Rightarrow> oref \<Rightarrow> string \<Rightarrow> di_value list \<Rightarrow> world \<Rightarrow> (32 word outcome \<times> world) res" where
  "callr_nint U C p name args w =
     bind_res (di_callx U C p (Some name) args w) (\<lambda>(r, called, w1).
       case r of
         Inl e \<Rightarrow> Ret (Inl e, w1)
       | Inr v \<Rightarrow> (case v of
           VNint i \<Rightarrow> Ret (Inr i, w1)
         | _ \<Rightarrow> bind_res (di_free_value U v w1) (\<lambda>w2. Ret (Inl EINVAL, w2))))"

text \<open>
  \<open>di_log\<close>, the call pointer of the module: \<open>l\<close> is its level, \<open>t\<close> the arguments, the module itself first.
  An entry that is not logged leaves the place of the result as it was, \<open>ret0\<close>.
\<close>

definition di_log ::
  "drop_fn \<Rightarrow> call_obj \<Rightarrow> int \<Rightarrow> 32 word \<Rightarrow> oref \<Rightarrow> di_value list \<Rightarrow> world \<Rightarrow> (32 word outcome \<times> world) res" where
  "di_log U C l ret0 p t w =
     (case t of
        [_, a, b] \<Rightarrow>
          (case (string_arg a, string_arg b) of
             (Some log_level, Some str) \<Rightarrow>
               if l < level_lookup log_level then Ret (Inr ret0, w)
               else bind_res (di_getxt U C p (Some ''log_target'') DI_TYPE_OBJECT w) (\<lambda>(r, w1).
                 case r of
                   Inr (VObject ltgt) \<Rightarrow>
                     bind_res (callr_nint U C ltgt ''write'' [VString str] w1) (\<lambda>(rc, w2).
                       bind_res (U ltgt w2) (\<lambda>w3.
                         Ret (Inr (case rc of Inl e \<Rightarrow> word_of_int (- errno_code e) | Inr i \<Rightarrow> i), w3)))
                 | _ \<Rightarrow> Ret (Inr 0, w1))
           | _ \<Rightarrow> Ret (Inl EINVAL, w))
      | _ \<Rightarrow> Ret (Inl EINVAL, w))"

section \<open>Targets\<close>

text \<open>
  \<open>file_target_write\<close> on the bytes of a file.  It looks at the last byte of the entry without checking
  that there is one.
\<close>

definition file_target_write :: "di_string \<Rightarrow> string \<Rightarrow> (nat \<times> string) res" where
  "file_target_write log f =
     (if di_string_bytes log = [] then Fault Out_Of_Bounds
      else
        let f1 = f @ di_string_bytes log;
            f2 = (if last (di_string_bytes log) \<noteq> CHR 0x0A then f1 @ [CHR 0x0A] else f1)
        in Ret (length (di_string_bytes log), f2))"

definition PATH_MAX :: nat where
  "PATH_MAX = 4096"

text \<open>
  Opening a file target: the descriptor of the stream, or the message of the error.  \<open>fopen\<close> and the two
  calls of \<open>fcntl\<close> may fail.
\<close>

definition file_target_open :: "di_string \<Rightarrow> nat \<Rightarrow> posix \<Rightarrow> (string + int) \<times> posix" where
  "file_target_open filename n s =
     (case di_string_to_chars filename PATH_MAX of
        None \<Rightarrow> (Inl ''Filename too long for file target'', s)
      | Some _ \<Rightarrow>
         let (fd, s1) = sys_open (Other_File n) s in
         if fd < 0 then (Inl ''Can't open file for writing'', s1)
         else let (ok, s2) = sys_ok s1 in
           if \<not> ok then (Inl ''Can't set cloexec'', sys_close fd s2) else (Inr fd, s2))"

text \<open>The objects of the two targets; the numbers name \<open>file_target_dtor\<close> and \<open>file_target_write\<close>.\<close>

definition new_target ::
  "(di_type \<Rightarrow> di_type list \<Rightarrow> bool) \<Rightarrow> drop_fn \<Rightarrow> string \<Rightarrow> dtor_fn option \<Rightarrow> nat \<Rightarrow> world \<Rightarrow> (oref \<times> world) res" where
  "new_target P U ty d write w =
     (let (lf, w1) = alloc_object w in
      bind_res (di_set_type U lf ty w1) (\<lambda>(_, w2).
        bind_res (di_set_object_dtor lf d w2) (\<lambda>w3.
          bind_res (di_add_method P U lf (Some ''write'') write DI_TYPE_NINT [DI_TYPE_STRING] w3) (\<lambda>(_, w4). Ret (lf, w4)))))"

definition file_target ::
  "(di_type \<Rightarrow> di_type list \<Rightarrow> bool) \<Rightarrow> drop_fn \<Rightarrow> nat \<Rightarrow> nat \<Rightarrow> di_string \<Rightarrow> nat \<Rightarrow> posix \<Rightarrow> world \<Rightarrow>
   (oref \<times> posix \<times> world) res" where
  "file_target P U dtor_fn_no write filename n s w =
     (case file_target_open filename n s of
        (Inl msg, s1) \<Rightarrow> bind_res (di_new_error U msg w) (\<lambda>(e, w1). Ret (e, s1, w1))
      | (Inr fd, s1) \<Rightarrow>
         bind_res (new_target P U ''deai.builtin.log:FileTarget'' (Some (Dtor_ext dtor_fn_no)) write w) (\<lambda>(lf, w1).
           Ret (lf, s1, w1)))"

definition stderr_target :: "(di_type \<Rightarrow> di_type list \<Rightarrow> bool) \<Rightarrow> drop_fn \<Rightarrow> nat \<Rightarrow> world \<Rightarrow> (oref \<times> world) res" where
  "stderr_target P U write w = new_target P U ''deai.builtin.log:StderrTarget'' None write w"

section \<open>The environment\<close>

type_synonym environ = "(string, string) table"

definition valid_name :: "string \<Rightarrow> bool" where
  "valid_name key \<longleftrightarrow> key \<noteq> [] \<and> CHR ''='' \<notin> set key"

definition setenv :: "string \<Rightarrow> string \<Rightarrow> environ \<Rightarrow> environ" where
  "setenv key val env =
     (if \<not> valid_name key then env
      else if hash_find key env = None then hash_add key val env else hash_set key val env)"

definition unsetenv :: "string \<Rightarrow> environ \<Rightarrow> environ" where
  "unsetenv key env = (if \<not> valid_name key then env else hash_del key env)"

text \<open>A missing variable is the bottom value, which a getter reports as \<open>-ENOENT\<close>.\<close>

definition di_env_get :: "di_string \<Rightarrow> environ \<Rightarrow> di_value" where
  "di_env_get name env =
     (case name of
        None \<Rightarrow> VVariant VLast
      | Some _ \<Rightarrow> (case hash_find (cstr (di_string_to_chars_alloc name)) env of
          None \<Rightarrow> VVariant VLast
        | Some str \<Rightarrow> VVariant (VLiteral str)))"

definition di_env_set :: "di_string \<Rightarrow> di_string \<Rightarrow> environ \<Rightarrow> environ" where
  "di_env_set key val env =
     (if key = None \<or> val = None then env
      else setenv (cstr (di_string_to_chars_alloc key)) (cstr (di_string_to_chars_alloc val)) env)"

definition di_env_unset :: "di_string \<Rightarrow> environ \<Rightarrow> environ" where
  "di_env_unset key env = (if key = None then env else unsetenv (cstr (di_string_to_chars_alloc key)) env)"

section \<open>Properties\<close>

text \<open>The name of a level, cut anywhere and in any case.\<close>

definition abbreviates :: "string \<Rightarrow> string \<Rightarrow> bool" where
  "abbreviates s name \<longleftrightarrow> length s \<le> length name \<and> map c_tolower s = map c_tolower (take (length s) name)"

lemma strncasecmp_eq_abbreviates: "nul_free s \<Longrightarrow> strncasecmp_eq s lit = abbreviates s lit"
  by (induction s lit rule: strncasecmp_eq.induct) (auto simp: abbreviates_def nul_free_def)

text \<open>
  Setting a log level.  A name without NUL bytes is accepted exactly when it is a prefix, in any case, of one of the four
  level names; the most severe level it abbreviates is chosen, so the empty string means \<open>error\<close>.  Any
  other name is refused and the level stays.  Reading the level back never fails and setting what was
  read changes nothing.
\<close>

theorem set_log_level_spec:
  assumes "0 \<le> l \<and> l \<le> 3" and "nul_free s"
  shows "set_log_level l (Some s) =
      (case filter (\<lambda>p. abbreviates s (snd p)) [(0, ''error''), (1, ''warn''), (2, ''info''), (3, ''debug'')] of
         [] \<Rightarrow> (-1, l) | p # _ \<Rightarrow> (0, fst p)) \<and>
    (\<exists>name. get_log_level l = Ret name \<and> set_log_level k (Some name) = (0, l))"
proof -
  have "l = 0 \<or> l = 1 \<or> l = 2 \<or> l = 3" using assms(1) by auto
  then have "\<exists>name. get_log_level l = Ret name \<and> set_log_level k (Some name) = (0, l)"
    by (elim disjE) (simp_all add: get_log_level_def level_tostring_def set_log_level_def level_lookup_def c_tolower_def)
  then show ?thesis using strncasecmp_eq_abbreviates [OF assms(2)]
    by (simp add: set_log_level_def level_lookup_def Let_def)
qed

theorem set_log_level_spec_witness:
  "set_log_level 1 (Some ''w'') = (0, 1) \<and> set_log_level 1 (Some []) = (0, 0) \<and> set_log_level 1 (Some ''all'') = (-1, 1)"
  using set_log_level_spec [of 1 "''w''"] set_log_level_spec [of 1 "[]"] set_log_level_spec [of 1 "''all''"]
  by (simp add: nul_free_def abbreviates_def c_tolower_def)

definition log_entry :: "string \<Rightarrow> string" where
  "log_entry s = (if last s = CHR 0x0A then s else s @ [CHR 0x0A])"

text \<open>
  A log file is a sequence of lines.  Writing any entries that are not empty appends each of them,
  ended by exactly one newline if it had none, and nothing else.
\<close>

theorem file_target_write_lines:
  assumes "\<forall>s \<in> set entries. s \<noteq> []"
  shows "fold_res (\<lambda>s f. bind_res (file_target_write (Some s) f) (\<lambda>(n, f'). Ret f')) entries f =
    Ret (f @ concat (map log_entry entries))"
  using assms by (induction entries arbitrary: f) (simp_all add: file_target_write_def log_entry_def Let_def)

theorem file_target_write_lines_witness:
  "fold_res (\<lambda>s f. bind_res (file_target_write (Some s) f) (\<lambda>(n, f'). Ret f')) [''a'', ''b'' @ [CHR 0x0A]] [] =
     Ret (''a'' @ [CHR 0x0A] @ ''b'' @ [CHR 0x0A])"
  using file_target_write_lines [of "[''a'', ''b'' @ [CHR 0x0A]]" "[]"] by (simp add: log_entry_def)

text \<open>
  The environment object is a map.  After a variable with a proper name is set it reads as the
  value, up to a NUL byte; after it is removed it is missing; all other variables keep their values.
\<close>

theorem env_set_get:
  assumes "table_ok env" and "valid_name key" and "nul_free key" and "nul_free name"
  shows "di_env_get (Some name) (di_env_set (Some key) (Some val) env) =
      (if name = key then VVariant (VLiteral (cstr val)) else di_env_get (Some name) env) \<and>
    di_env_get (Some name) (di_env_unset (Some key) env) =
      (if name = key then VVariant VLast else di_env_get (Some name) env)"
proof -
  have c: "cstr (s @ [CHR 0x00]) = cstr s" for s by (induction s) (simp_all add: cstr_def)
  have "hash_find name (setenv key (cstr val) env) = (if name = key then Some (cstr val) else hash_find name env)"
    using assms(1,2) alist.find_add [OF assms(1)] alist.find_upd [OF assms(1)] by (simp add: setenv_def)
  then show ?thesis using assms
    by (simp add: di_env_get_def di_env_set_def di_env_unset_def unsetenv_def di_string_to_chars_alloc_eq c alist.find_del)
qed

theorem env_set_get_witness:
  "di_env_get (Some ''A'') (di_env_set (Some ''A'') (Some ''x'') [(''B'', ''y'')]) = VVariant (VLiteral ''x'') \<and>
   di_env_get (Some ''B'') (di_env_unset (Some ''A'') [(''B'', ''y'')]) = VVariant (VLiteral ''y'')"
proof -
  have ok: "table_ok [(''B'', ''y'')]" "valid_name ''A''" "nul_free ''A''" "nul_free ''B''" "nul_free ''y''" "nul_free ''x''"
    by (simp_all add: valid_name_def nul_free_def)
  have "di_env_get (Some ''B'') [(''B'', ''y'')] = VVariant (VLiteral ''y'')"
    by (simp add: di_env_get_def di_string_to_chars_alloc_eq cstr_def)
  then show ?thesis using env_set_get [OF ok(1-3) ok(3), of "''x''"] env_set_get [OF ok(1-4)] ok by simp
qed

end
