(* ===== verification/ProcTree.thy ===== *)
theory ProcTree
  imports Prelude
begin

text \<open>
  \<open>kill_all_descendants\<close> of \<open>main.c\<close>: the processes found under \<open>/proc\<close> are linked into one list, a
  pre-order traversal of the process forest, and everything below the process itself is killed by
  walking that list.

  The list is the circular doubly linked list of \<open>list.h\<close>.  Its links are two functions on nodes, and
  \<open>splice_links\<close> sets them as \<open>__list_splice\<close> does.  The sentinel has no initialised parent pointer.
\<close>

section \<open>Reading a process entry\<close>

text \<open>\<open>atoi\<close> on a text of digits, with the digits after it ignored.\<close>

definition is_digit :: "char \<Rightarrow> bool" where
  "is_digit c \<longleftrightarrow> 48 \<le> (of_char c :: nat) \<and> (of_char c :: nat) \<le> 57"

fun digits_value :: "nat \<Rightarrow> string \<Rightarrow> nat" where
  "digits_value acc [] = acc"
| "digits_value acc (c # cs) = (if is_digit c then digits_value (10 * acc + (of_char c - 48)) cs else acc)"

definition atoi :: "string \<Rightarrow> nat" where
  "atoi s = digits_value 0 s"

definition is_pid_name :: "string \<Rightarrow> bool" where
  "is_pid_name name \<longleftrightarrow> (\<forall>c \<in> set name. is_digit c)"

text \<open>
  The parent's pid in the text of \<open>/proc/<pid>/stat\<close>: four bytes after the last closing parenthesis,
  up to the next space.  A text without either makes the code follow a null pointer.
\<close>

definition stat_ppid :: "string \<Rightarrow> nat res" where
  "stat_ppid text =
     (if CHR '')'' \<notin> set text then Fault Null_Deref
      else
        let tail = rev (takeWhile (\<lambda>c. c \<noteq> CHR '')'') (rev text)); field = drop 3 tail in
        if length tail < 3 then Fault Out_Of_Bounds
        else if CHR '' '' \<notin> set field then Fault Null_Deref
        else Ret (atoi (takeWhile (\<lambda>c. c \<noteq> CHR '' '') field)))"

section \<open>The list of processes\<close>

datatype node = Sentinel | Proc nat

record links =
  nxt :: "node \<Rightarrow> node"
  prv :: "node \<Rightarrow> node"

definition init_links :: links where
  "init_links = \<lparr>nxt = \<lambda>n. n, prv = \<lambda>n. n\<rparr>"

text \<open>\<open>__list_splice(list, prev, next)\<close>.\<close>

definition splice_links :: "node \<Rightarrow> node \<Rightarrow> node \<Rightarrow> links \<Rightarrow> links" where
  "splice_links l p n s =
     (let first = nxt s l; last = prv s l;
          s1 = s\<lparr>prv := (prv s)(first := p)\<rparr>;
          s2 = s1\<lparr>nxt := (nxt s1)(p := first)\<rparr>;
          s3 = s2\<lparr>nxt := (nxt s2)(last := n)\<rparr>
      in s3\<lparr>prv := (prv s3)(n := last)\<rparr>)"

type_synonym process = "nat \<times> nat"

definition parent_node :: "process list \<Rightarrow> nat \<Rightarrow> node" where
  "parent_node ps ppid = (if ppid \<in> set (map fst ps) then Proc ppid else Sentinel)"

definition link_process :: "process list \<Rightarrow> process \<Rightarrow> links \<Rightarrow> links" where
  "link_process ps p s = (let pp = parent_node ps (snd p) in splice_links (Proc (fst p)) pp (nxt s pp) s)"

definition link_processes :: "process list \<Rightarrow> links" where
  "link_processes ps = fold (link_process ps) ps init_links"

text \<open>The walk: \<open>visited\<close> are the marked nodes, the result the pids that are sent a signal.\<close>

fun walk :: "nat \<Rightarrow> process list \<Rightarrow> links \<Rightarrow> node list \<Rightarrow> node \<Rightarrow> nat list res" where
  "walk 0 ps s visited c = Fault OutOfFuel"
| "walk (Suc n) ps s visited c =
     (case nxt s c of
        Sentinel \<Rightarrow> Fault Uninitialised
      | Proc pid \<Rightarrow>
         (case map_of ps pid of
            None \<Rightarrow> Fault Null_Deref
          | Some ppid \<Rightarrow>
             if parent_node ps ppid \<notin> set visited then Ret []
             else bind_res (walk n ps s (Proc pid # visited) (Proc pid)) (\<lambda>ks. Ret (pid # ks))))"

definition kill_all_descendants :: "nat \<Rightarrow> nat \<Rightarrow> process list \<Rightarrow> nat list res" where
  "kill_all_descendants fuel self ps =
     (if self \<notin> set (map fst ps) then Fault Null_Deref
      else walk fuel ps (link_processes ps) [Proc self] (Proc self))"

text \<open>
  The entries of \<open>/proc\<close>: name, whether it is a directory, and the text of its \<open>stat\<close> file, \<open>None\<close> when it
  cannot be opened or is empty.  \<open>None\<close> for the whole directory is a failing \<open>opendir\<close>.
\<close>

fun read_processes :: "(string \<times> bool \<times> string option) list \<Rightarrow> process list res" where
  "read_processes [] = Ret []"
| "read_processes ((name, is_dir, text) # es) =
     (if \<not> is_dir \<or> \<not> is_pid_name name then read_processes es
      else case text of
        None \<Rightarrow> read_processes es
      | Some t \<Rightarrow> bind_res (stat_ppid t) (\<lambda>ppid. bind_res (read_processes es) (\<lambda>ps. Ret ((atoi name, ppid) # ps))))"

definition kill_from_proc :: "nat \<Rightarrow> nat \<Rightarrow> (string \<times> bool \<times> string option) list option \<Rightarrow> nat list res" where
  "kill_from_proc fuel self dir =
     (case dir of
        None \<Rightarrow> Ret []
      | Some es \<Rightarrow> bind_res (read_processes es) (kill_all_descendants fuel self))"

section \<open>The parent's pid\<close>

lemma last_paren:
  assumes "CHR '')'' \<notin> set b"
  shows "rev (takeWhile (\<lambda>c. c \<noteq> CHR '')'') (rev (a @ CHR '')'' # b))) = b"
proof -
  have "takeWhile (\<lambda>c. c \<noteq> CHR '')'') (rev b @ CHR '')'' # rev a) = rev b"
    using assms by (induction "rev b" arbitrary: b) (auto simp: takeWhile_append takeWhile_tail)
  then show ?thesis by simp
qed

text \<open>
  The name of a process cannot mislead the parser: whatever bytes the command name has, closing
  parentheses and spaces included, the field that is read is the one after the state letter.
\<close>

theorem stat_ppid_correct:
  assumes "CHR '' '' \<notin> set ppid" and "CHR '')'' \<notin> set ppid" and "CHR '')'' \<notin> set rest" and "state \<noteq> CHR '')''"
  shows "stat_ppid (pid @ '' ('' @ comm @ '') '' @ [state] @ '' '' @ ppid @ '' '' @ rest) = Ret (atoi ppid)"
proof -
  let ?tail = "CHR '' '' # state # CHR '' '' # ppid @ CHR '' '' # rest"
  have tail: "rev (takeWhile (\<lambda>c. c \<noteq> CHR '')'') (rev ((pid @ '' ('' @ comm) @ CHR '')'' # ?tail))) = ?tail"
    using assms by (intro last_paren) auto
  have "takeWhile (\<lambda>c. c \<noteq> CHR '' '') (ppid @ CHR '' '' # rest) = ppid" using assms(1) by (induction ppid) auto
  then show ?thesis using tail by (simp add: stat_ppid_def Let_def)
qed

theorem stat_ppid_correct_witness: "stat_ppid ''7 (a) b) S 42 0 0'' = Ret 42"
proof -
  have "stat_ppid (''7'' @ '' ('' @ ''a) b'' @ '') '' @ [CHR ''S''] @ '' '' @ ''42'' @ '' '' @ ''0 0'') = Ret (atoi ''42'')"
    by (rule stat_ppid_correct) simp_all
  then show ?thesis by (simp add: atoi_def is_digit_def)
qed

section \<open>The list is a pre-order traversal\<close>

text \<open>\<open>linked s L\<close>: following \<open>nxt\<close> from the sentinel visits \<open>L\<close> and comes back; all other nodes are alone.\<close>

fun chain :: "(node \<Rightarrow> node) \<Rightarrow> node \<Rightarrow> node list \<Rightarrow> node \<Rightarrow> bool" where
  "chain f a [] z \<longleftrightarrow> f a = z"
| "chain f a (x # xs) z \<longleftrightarrow> f a = x \<and> chain f x xs z"

definition linked :: "links \<Rightarrow> node list \<Rightarrow> bool" where
  "linked s L \<longleftrightarrow> distinct (Sentinel # L) \<and> chain (nxt s) Sentinel L Sentinel \<and>
     (\<forall>n. n \<notin> set (Sentinel # L) \<longrightarrow> nxt s n = n \<and> prv s n = n)"

fun insert_after :: "node \<Rightarrow> node \<Rightarrow> node list \<Rightarrow> node list" where
  "insert_after p i [] = [i]"
| "insert_after p i (x # xs) = (if x = p then x # i # xs else x # insert_after p i xs)"

definition add_node :: "node \<Rightarrow> node \<Rightarrow> node list \<Rightarrow> node list" where
  "add_node p i L = tl (insert_after p i (Sentinel # L))"

lemma set_insert_after [simp]: "set (insert_after p i L) = insert i (set L)"
  by (induction L) auto

lemma distinct_insert_after: "distinct L \<Longrightarrow> i \<notin> set L \<Longrightarrow> distinct (insert_after p i L)"
  by (induction L) auto

lemma insert_after_split: "p \<notin> set a \<Longrightarrow> insert_after p i (a @ p # b) = a @ p # i # b"
  by (induction a) auto

lemma chain_cong: "(\<And>x. x \<in> set (a # L) \<Longrightarrow> f x = g x) \<Longrightarrow> chain f a L z = chain g a L z"
  by (induction L arbitrary: a) auto

lemma chain_append: "chain f a (xs @ y # ys) z \<longleftrightarrow> chain f a xs y \<and> chain f y ys z"
  by (induction xs arbitrary: a) auto

lemma chain_update:
  "distinct (a # L) \<Longrightarrow> p \<in> set (a # L) \<Longrightarrow> i \<notin> set (a # L) \<Longrightarrow> chain f a L z \<Longrightarrow>
   chain (f(p := i, i := f p)) a (tl (insert_after p i (a # L))) z"
proof (induction L arbitrary: a)
  case (Cons x L)
  show ?case
  proof (cases "a = p")
    case True
    have "chain (f(p := i, i := f p)) x L z = chain f x L z" using Cons.prems True by (intro chain_cong) auto
    then show ?thesis using Cons.prems True by (auto simp: fun_upd_def)
  next
    case False
    let ?g = "f(p := i, i := f p)"
    have "chain ?g x (tl (insert_after p i (x # L))) z" using Cons.prems False by (intro Cons.IH) auto
    moreover have "tl (insert_after p i (a # x # L)) = x # tl (insert_after p i (x # L))" using False by simp
    moreover have "?g a = x" using Cons.prems False by auto
    ultimately show ?thesis by (simp only: chain.simps)
  qed
qed auto

lemma linked_splice:
  assumes l: "linked s L" and p: "p \<in> set (Sentinel # L)" and i: "i \<notin> set (Sentinel # L)"
  shows "linked (splice_links i p (nxt s p) s) (add_node p i L)"
proof -
  let ?s = "splice_links i p (nxt s p) s"
  have s: "nxt s i = i" "prv s i = i" using l i by (auto simp: linked_def)
  have n: "nxt ?s = (nxt s)(p := i, i := nxt s p)" using s by (auto simp: splice_links_def Let_def)
  have pr: "prv ?s = (prv s)(i := p, nxt s p := i)" using s by (auto simp: splice_links_def Let_def)
  have set': "set (Sentinel # add_node p i L) = insert i (set (Sentinel # L))"
    using set_insert_after [of p i "Sentinel # L"] by (simp add: add_node_def split: if_splits)
  have "distinct (insert_after p i (Sentinel # L))" using l i by (intro distinct_insert_after) (auto simp: linked_def)
  then have d: "distinct (Sentinel # add_node p i L)" by (simp add: add_node_def split: if_splits)
  have c: "chain (nxt ?s) Sentinel (add_node p i L) Sentinel"
    unfolding n add_node_def using l p i by (intro chain_update) (auto simp: linked_def)
  have np: "nxt s p \<in> set (Sentinel # L)"
  proof -
    have "\<And>a. chain (nxt s) a L Sentinel \<Longrightarrow> p \<in> set (a # L) \<Longrightarrow> nxt s p \<in> set (Sentinel # L)"
      by (induction L) auto
    then show ?thesis using l p by (auto simp: linked_def)
  qed
  show ?thesis unfolding linked_def using d c set' n pr np p l by (auto simp: linked_def)
qed

section \<open>Descendants\<close>

text \<open>The forest over the first processes \<open>qs\<close> of \<open>ps\<close>, and the nodes strictly below a node.\<close>

definition child_of :: "process list \<Rightarrow> process list \<Rightarrow> (node \<times> node) set" where
  "child_of ps qs = {(Proc i, parent_node ps pp) | i pp. (i, pp) \<in> set qs}"

definition below :: "process list \<Rightarrow> process list \<Rightarrow> node \<Rightarrow> node set" where
  "below ps qs y = {x. (x, y) \<in> (child_of ps qs)\<^sup>+}"

text \<open>Pids are distinct and every parent that is listed comes before its children.\<close>

fun parents_first :: "process list \<Rightarrow> bool" where
  "parents_first [] = True"
| "parents_first ((i, pp) # ps) \<longleftrightarrow> i \<notin> fst ` set ps \<and> pp \<notin> insert i (fst ` set ps) \<and> parents_first ps"

lemma parents_first_append:
  "parents_first (qs @ (i, pp) # rs) \<Longrightarrow>
   i \<notin> fst ` set qs \<and> i \<noteq> pp \<and> pp \<notin> fst ` set rs \<and> (\<forall>(j, pj) \<in> set qs. pj \<noteq> i)"
  by (induction qs) force+

lemma below_snoc:
  assumes "parents_first (qs @ (i, pp) # rs)" and ps: "ps = qs @ (i, pp) # rs" and p: "p = parent_node ps pp"
  shows "below ps (qs @ [(i, pp)]) y = below ps qs y \<union> (if y = p \<or> p \<in> below ps qs y then {Proc i} else {})"
    and "below ps (qs @ [(i, pp)]) (Proc i) = {}"
proof -
  let ?r = "child_of ps qs"
  have ins: "child_of ps (qs @ [(i, pp)]) = insert (Proc i, p) ?r" by (auto simp: child_of_def p)
  have fresh: "(x, Proc i) \<notin> ?r" for x
    using parents_first_append [OF assms(1)] by (auto simp: child_of_def parent_node_def split: if_splits)
  then have noin: "(x, Proc i) \<notin> ?r\<^sup>+" for x by (meson tranclE)
  have pne: "p \<noteq> Proc i" using parents_first_append [OF assms(1)] p by (auto simp: parent_node_def)
  have *: "((x, z) \<in> (insert (Proc i, p) ?r)\<^sup>+) = ((x, z) \<in> ?r\<^sup>+ \<or> x = Proc i \<and> (p, z) \<in> ?r\<^sup>*)" for x z
    unfolding trancl_insert using noin by (auto simp: rtrancl_eq_or_trancl)
  show "below ps (qs @ [(i, pp)]) y = below ps qs y \<union> (if y = p \<or> p \<in> below ps qs y then {Proc i} else {})"
    unfolding below_def ins by (auto simp: * rtrancl_eq_or_trancl)
  show "below ps (qs @ [(i, pp)]) (Proc i) = {}"
    unfolding below_def ins using noin pne by (auto simp: * rtrancl_eq_or_trancl)
qed

definition blocks :: "process list \<Rightarrow> process list \<Rightarrow> node list \<Rightarrow> bool" where
  "blocks ps qs L \<longleftrightarrow> (\<forall>y \<in> set L. \<exists>a b1 b2. L = a @ y # b1 @ b2 \<and> set b1 = below ps qs y)"

lemma insert_after_append:
  "insert_after p i (xs @ ys) = (if p \<in> set xs then insert_after p i xs @ ys else xs @ insert_after p i ys)"
  by (induction xs) auto

lemma blocks_insert:
  assumes b: "blocks ps qs L" and d: "distinct L" and p: "p \<in> set L" "i \<notin> set L"
    and below: "\<And>y. y \<in> set L \<Longrightarrow> below ps qs' y = below ps qs y \<union> (if y = p \<or> p \<in> below ps qs y then {i} else {})"
    and leaf: "below ps qs' i = {}"
  shows "blocks ps qs' (insert_after p i L)"
  unfolding blocks_def
proof
  fix y assume "y \<in> set (insert_after p i L)"
  then consider "y = i" | "y \<in> set L" by auto
  then show "\<exists>a b1 b2. insert_after p i L = a @ y # b1 @ b2 \<and> set b1 = below ps qs' y"
  proof cases
    case 1
    obtain a b where "L = a @ p # b" "p \<notin> set a" using p(1) by (metis split_list_first)
    then show ?thesis using 1 leaf
      by (intro exI [of _ "a @ [p]"] exI [of _ "[]"] exI [of _ b]) (simp add: insert_after_split)
  next
    case 2
    then obtain a b1 b2 where L: "L = a @ y # b1 @ b2" "set b1 = below ps qs y" using b by (auto simp: blocks_def)
    have dd: "distinct (a @ y # b1 @ b2)" using d L(1) by simp
    consider "p \<in> set a" | "p = y" | "p \<in> set b1" | "p \<in> set b2" using p(1) L(1) by auto
    then show ?thesis
    proof cases
      case 1
      then have "below ps qs' y = set b1" using below [OF 2] L(2) dd by auto
      then show ?thesis using 1 L(1)
        by (intro exI [of _ "insert_after p i a"] exI [of _ b1] exI [of _ b2]) (simp add: insert_after_append)
    next
      case eq: 2
      then have "below ps qs' y = insert i (set b1)" using below [OF 2] L(2) by auto
      moreover have "insert_after p i L = a @ y # (i # b1) @ b2" using L(1) eq dd insert_after_split [of y a i "b1 @ b2"] by simp
      ultimately show ?thesis by (intro exI [of _ a] exI [of _ "i # b1"] exI [of _ b2]) simp
    next
      case 3
      then have "below ps qs' y = insert i (set b1)" using below [OF 2] L(2) by auto
      moreover have "insert_after p i L = a @ y # insert_after p i b1 @ b2"
        using L(1) 3 dd by (auto simp: insert_after_append)
      ultimately show ?thesis by (intro exI [of _ a] exI [of _ "insert_after p i b1"] exI [of _ b2]) simp
    next
      case 4
      then have "below ps qs' y = set b1" using below [OF 2] L(2) dd by auto
      moreover have "insert_after p i L = a @ y # b1 @ insert_after p i b2"
        using L(1) 4 dd by (auto simp: insert_after_append)
      ultimately show ?thesis by blast
    qed
  qed
qed

text \<open>
  Linking keeps the list a pre-order traversal of what has been linked so far.  Its last node is the
  end of the line of first children: the first root, its first child, and so on.
\<close>

definition oldest :: "process list \<Rightarrow> process list \<Rightarrow> node" where
  "oldest ps qs = fold (\<lambda>(i, pp) l. if parent_node ps pp = l then Proc i else l) qs Sentinel"

definition forest_ok :: "process list \<Rightarrow> process list \<Rightarrow> links \<Rightarrow> node list \<Rightarrow> bool" where
  "forest_ok ps qs s L \<longleftrightarrow> linked s L \<and> set L = Proc ` fst ` set qs \<and> blocks ps qs (Sentinel # L) \<and>
     last (Sentinel # L) = oldest ps qs"

lemma last_insert_after:
  "distinct L \<Longrightarrow> p \<in> set L \<Longrightarrow> last (insert_after p i L) = (if last L = p then i else last L)"
proof (induction L)
  case (Cons x L)
  have "insert_after p i L \<noteq> []" using set_insert_after [of p i L] by (metis empty_iff insert_iff list.set(1))
  with Cons show ?case by (cases "L = []") auto
qed simp

lemma forest_ok_step:
  assumes ok: "forest_ok ps qs s L" and ps: "ps = qs @ (i, pp) # rs" and pf: "parents_first ps"
  shows "\<exists>L'. forest_ok ps (qs @ [(i, pp)]) (link_process ps (i, pp) s) L'"
proof -
  let ?p = "parent_node ps pp"
  note fresh = parents_first_append [OF pf [unfolded ps]]
  have lk0: "linked s L" and sL: "set L = Proc ` fst ` set qs" and bl: "blocks ps qs (Sentinel # L)"
    and la: "last (Sentinel # L) = oldest ps qs" using ok by (simp_all only: forest_ok_def)
  have d: "distinct (Sentinel # L)" by (rule conjunct1 [OF lk0 [unfolded linked_def]])
  have p: "?p \<in> set (Sentinel # L)" using sL ps fresh by (auto simp: parent_node_def)
  have i: "Proc i \<notin> set (Sentinel # L)" using sL fresh by auto
  have lk: "linked (link_process ps (i, pp) s) (add_node ?p (Proc i) L)"
    using linked_splice [OF lk0 p i] by (simp add: link_process_def Let_def)
  have e: "insert_after ?p (Proc i) (Sentinel # L) = Sentinel # add_node ?p (Proc i) L" by (simp add: add_node_def)
  have "blocks ps (qs @ [(i, pp)]) (insert_after ?p (Proc i) (Sentinel # L))"
  proof (rule blocks_insert [where qs = qs])
    show "blocks ps qs (Sentinel # L)" by (rule bl)
    show "distinct (Sentinel # L)" by (rule d)
    show "?p \<in> set (Sentinel # L)" by (rule p)
    show "Proc i \<notin> set (Sentinel # L)" by (rule i)
  qed (use below_snoc [OF pf [unfolded ps] ps refl] in blast)+
  moreover have "set (add_node ?p (Proc i) L) = Proc ` fst ` set (qs @ [(i, pp)])"
  proof -
    have "insert Sentinel (set (add_node ?p (Proc i) L)) = insert Sentinel (insert (Proc i) (set L))"
      using set_insert_after [of ?p "Proc i" "Sentinel # L"] unfolding e by auto
    moreover have "Sentinel \<notin> set (add_node ?p (Proc i) L)" using lk by (simp add: linked_def)
    ultimately have "set (add_node ?p (Proc i) L) = insert (Proc i) (set L)"
      using d insert_ident [of Sentinel "set (add_node ?p (Proc i) L)" "insert (Proc i) (set L)"] by auto
    then show ?thesis using sL by simp
  qed
  moreover have "last (Sentinel # add_node ?p (Proc i) L) = oldest ps (qs @ [(i, pp)])"
    using last_insert_after [OF d p, of "Proc i"] la unfolding e by (simp add: oldest_def)
  ultimately show ?thesis using lk unfolding forest_ok_def e by blast
qed

lemma link_processes_forest:
  assumes pf: "parents_first ps"
  shows "\<exists>L. forest_ok ps ps (link_processes ps) L"
proof -
  have "\<exists>L. forest_ok ps (qs @ rs) (fold (link_process ps) rs s) L"
    if "forest_ok ps qs s L" "ps = qs @ rs" for qs rs s L
    using that
  proof (induction rs arbitrary: qs s L)
    case (Cons r rs)
    obtain i pp where r: "r = (i, pp)" by (cases r)
    obtain L' where "forest_ok ps (qs @ [r]) (link_process ps r s) L'"
      using forest_ok_step [OF Cons.prems(1), of i pp rs] Cons.prems(2) pf r by auto
    from Cons.IH [OF this] Cons.prems(2) show ?case by simp
  qed auto
  moreover have "forest_ok ps [] init_links []"
    by (auto simp: forest_ok_def linked_def init_links_def blocks_def below_def child_of_def oldest_def)
  ultimately show ?thesis unfolding link_processes_def by (metis append_Nil)
qed

lemma map_of_process: "parents_first ps \<Longrightarrow> (i, pp) \<in> set ps \<Longrightarrow> map_of ps i = Some pp"
  by (induction ps) force+

text \<open>A walk through a block whose parents are all visited when they are needed, up to a stranger.\<close>

lemma walk_block:
  assumes "chain (nxt s) c (b1 @ b2) Sentinel" "length b1 < fuel"
    and "\<And>u x v. b1 = u @ x # v \<Longrightarrow> \<exists>i pp. x = Proc i \<and> map_of ps i = Some pp \<and> parent_node ps pp \<in> set vis \<union> set u"
    and "\<And>z b. b2 = z # b \<Longrightarrow> \<exists>i pp. z = Proc i \<and> map_of ps i = Some pp \<and> parent_node ps pp \<notin> set vis \<union> set b1"
  shows "walk fuel ps s vis c = (if b2 = [] then Fault Uninitialised else Ret (map (\<lambda>x. case x of Proc i \<Rightarrow> i) b1))"
  using assms
proof (induction b1 arbitrary: c vis fuel)
  case Nil
  obtain n where "fuel = Suc n" using Nil.prems(2) by (cases fuel) auto
  then show ?case using Nil.prems(1,4) by (cases b2) fastforce+
next
  case (Cons x b1)
  obtain n where n: "fuel = Suc n" using Cons.prems(2) by (cases fuel) auto
  obtain i pp where x: "x = Proc i" "map_of ps i = Some pp" "parent_node ps pp \<in> set vis"
    using Cons.prems(3) [of "[]" x b1] by auto
  have "walk n ps s (x # vis) x = (if b2 = [] then Fault Uninitialised else Ret (map (\<lambda>x. case x of Proc i \<Rightarrow> i) b1))"
  proof (rule Cons.IH)
    fix u y v assume "b1 = u @ y # v"
    then show "\<exists>i pp. y = Proc i \<and> map_of ps i = Some pp \<and> parent_node ps pp \<in> set (x # vis) \<union> set u"
      using Cons.prems(3) [of "x # u" y v] by auto
  qed (use Cons.prems n in auto)
  then show ?case using x n Cons.prems(1) by auto
qed

lemma parents_first_distinct: "parents_first ps \<Longrightarrow> distinct (map fst ps)"
  by (induction ps) force+

lemma below_child: "(i, pp) \<in> set ps \<Longrightarrow> parent_node ps pp = y \<Longrightarrow> Proc i \<in> below ps ps y"
  unfolding below_def child_of_def by blast

lemma below_grandchild: "(i, pp) \<in> set ps \<Longrightarrow> parent_node ps pp \<in> below ps ps y \<Longrightarrow> Proc i \<in> below ps ps y"
  unfolding below_def mem_Collect_eq
  by (rule trancl_into_trancl2 [of _ "parent_node ps pp"]) (auto simp: child_of_def)

lemma below_parent:
  assumes "x \<in> below ps ps y"
  shows "\<exists>i pp. x = Proc i \<and> (i, pp) \<in> set ps \<and> (parent_node ps pp = y \<or> parent_node ps pp \<in> below ps ps y)"
  using assms unfolding below_def mem_Collect_eq
  by (induction rule: converse_trancl_induct) (auto simp: child_of_def below_def)

lemma walk_descendants:
  assumes ok: "forest_ok ps ps s L" and pf: "parents_first ps" and self: "self \<in> fst ` set ps" and fuel: "length ps < fuel"
  shows "\<exists>b1 (b2 :: node list). set b1 = below ps ps (Proc self) \<and> distinct b1 \<and>
    (b2 = [] \<longleftrightarrow> oldest ps ps \<in> insert (Proc self) (below ps ps (Proc self))) \<and>
    walk fuel ps s [Proc self] (Proc self) = (if b2 = [] then Fault Uninitialised else Ret (map (\<lambda>x. case x of Proc i \<Rightarrow> i) b1))"
proof -
  have lk: "linked s L" and sL: "set L = Proc ` fst ` set ps" and bl: "blocks ps ps (Sentinel # L)"
    and la: "last (Sentinel # L) = oldest ps ps" using ok by (simp_all only: forest_ok_def)
  have d: "distinct (Sentinel # L)" and ch: "chain (nxt s) Sentinel L Sentinel" using lk by (auto simp: linked_def)
  have "Proc self \<in> set (Sentinel # L)" using self sL by simp
  then obtain a0 b1 b2 where L0: "Sentinel # L = a0 @ Proc self # b1 @ b2" "set b1 = below ps ps (Proc self)"
    using bl unfolding blocks_def by blast
  then obtain a where L: "L = a @ Proc self # b1 @ b2" by (cases a0) auto
  have node: "\<exists>i pp. x = Proc i \<and> (i, pp) \<in> set ps \<and> map_of ps i = Some pp" if "x \<in> set L" for x
    using that sL map_of_process [OF pf] by force
  have "walk fuel ps s [Proc self] (Proc self) = (if b2 = [] then Fault Uninitialised else Ret (map (\<lambda>x. case x of Proc i \<Rightarrow> i) b1))"
  proof (rule walk_block)
    show "chain (nxt s) (Proc self) (b1 @ b2) Sentinel" using ch L by (simp add: chain_append)
    have "length L = length ps"
      using sL d parents_first_distinct [OF pf] distinct_card [of L] distinct_card [of "map fst ps"]
      by (simp add: card_image inj_on_def)
    then show "length b1 < fuel" using L fuel by simp
  next
    fix u x v assume b: "b1 = u @ x # v"
    then have "x \<in> below ps ps (Proc self)" using L0(2) by auto
    then obtain i pp where x: "x = Proc i" "(i, pp) \<in> set ps" "parent_node ps pp = Proc self \<or> parent_node ps pp \<in> set b1"
      using below_parent L0(2) by metis
    have "parent_node ps pp \<notin> set (x # v)"
    proof
      assume "parent_node ps pp \<in> set (x # v)"
      then obtain u' v' where uv: "x # v = u' @ parent_node ps pp # v'" by (metis split_list)
      have "parent_node ps pp \<in> set (Sentinel # L)" using uv b L by (auto simp: in_set_conv_decomp)
      then obtain a' c1 c2 where c: "Sentinel # L = a' @ parent_node ps pp # c1 @ c2" "set c1 = below ps ps (parent_node ps pp)"
        using bl unfolding blocks_def by blast
      have "Sentinel # L = (a0 @ Proc self # u @ u') @ parent_node ps pp # v' @ b2" using L0(1) b uv by simp
      with c(1) d have "c1 @ c2 = v' @ b2" by (metis append_Cons_eq_iff distinct_append not_distinct_conv_prefix distinct.simps(2) disjoint_iff list.set_intros(1))
      moreover have "x \<in> set c1" using below_child [OF x(2) refl] x(1) c(2) by simp
      ultimately have "x \<in> set (v' @ b2)" by (metis Un_iff set_append)
      moreover have "x \<in> set (u' @ [parent_node ps pp])" using uv by (cases u') auto
      ultimately show False using d L0(1) b uv by auto
    qed
    then show "\<exists>i pp. x = Proc i \<and> map_of ps i = Some pp \<and> parent_node ps pp \<in> set [Proc self] \<union> set u"
      using x b map_of_process [OF pf x(2)] by auto
  next
    fix z b assume b: "b2 = z # b"
    then obtain i pp where z: "z = Proc i" "(i, pp) \<in> set ps" "map_of ps i = Some pp" using node [of z] L by auto
    have "z \<notin> set b1" using d L b by auto
    then have "parent_node ps pp \<noteq> Proc self \<and> parent_node ps pp \<notin> set b1"
      using below_child [OF z(2)] below_grandchild [OF z(2)] z(1) L0(2) by blast
    then show "\<exists>i pp. z = Proc i \<and> map_of ps i = Some pp \<and> parent_node ps pp \<notin> set [Proc self] \<union> set b1"
      using z by auto
  qed
  moreover have "distinct b1" using d L by auto
  moreover have "b2 = [] \<longleftrightarrow> oldest ps ps \<in> insert (Proc self) (set b1)"
  proof (cases "b2 = []")
    case True
    then have "oldest ps ps = last (Proc self # b1)" using la L by simp
    then show ?thesis using True by (cases "b1 = []") (simp_all add: last_in_set)
  next
    case False
    then have "oldest ps ps \<in> set b2" using la L last_in_set [OF False] by simp
    then show ?thesis using False d L by auto
  qed
  ultimately have "set b1 = below ps ps (Proc self) \<and> distinct b1 \<and>
    (b2 = [] \<longleftrightarrow> oldest ps ps \<in> insert (Proc self) (below ps ps (Proc self))) \<and>
    walk fuel ps s [Proc self] (Proc self) = (if b2 = [] then Fault Uninitialised else Ret (map (\<lambda>x. case x of Proc i \<Rightarrow> i) b1))"
    unfolding L0(2) by (intro conjI refl)
  then show ?thesis by (intro exI)
qed

text \<open>
  C14. Exactly the descendants are killed.  When the process table lists parents before their children
  (and so has no cycle), the walk ends, and every process below the calling one is sent a signal
  exactly once and no other.  The exception is a subtree at the very end of the list, one that
  contains the end of the line of first children: there the walk runs into the sentinel, whose parent
  pointer is not initialised.
\<close>

theorem kill_all_descendants_exact:
  assumes "parents_first ps" and "self \<in> fst ` set ps" and "length ps < fuel"
  shows "\<exists>ks. distinct ks \<and> Proc ` set ks = below ps ps (Proc self) \<and>
    kill_all_descendants fuel self ps =
      (if oldest ps ps \<in> insert (Proc self) (below ps ps (Proc self)) then Fault Uninitialised else Ret ks)"
proof -
  obtain L where "forest_ok ps ps (link_processes ps) L" using link_processes_forest [OF assms(1)] by blast
  from walk_descendants [OF this assms] obtain b1 and b2 :: "node list" where b: "set b1 = below ps ps (Proc self)" "distinct b1"
    "b2 = [] \<longleftrightarrow> oldest ps ps \<in> insert (Proc self) (below ps ps (Proc self))"
    "walk fuel ps (link_processes ps) [Proc self] (Proc self) =
       (if b2 = [] then Fault Uninitialised else Ret (map (\<lambda>x. case x of Proc i \<Rightarrow> i) b1))"
    by (elim exE conjE) (rule that; assumption)
  let ?f = "\<lambda>x. case x of Proc i \<Rightarrow> i"
  have procs: "\<exists>i. x = Proc i" if "x \<in> set b1" for x using that b(1) below_parent by blast
  then have "Proc ` ?f ` set b1 = set b1" "inj_on ?f (set b1)"
    by (force simp: image_iff, auto simp: inj_on_def dest!: procs)
  then show ?thesis using b assms(2)
    by (intro exI [of _ "map ?f b1"]) (auto simp: kill_all_descendants_def distinct_map)
qed

theorem kill_all_descendants_exact_witness:
  "\<exists>ks. kill_all_descendants 9 5 [(2, 0), (4, 2), (5, 2), (7, 5), (8, 7)] = Ret ks \<and>
     Proc ` set ks = below [(2, 0), (4, 2), (5, 2), (7, 5), (8, 7)] [(2, 0), (4, 2), (5, 2), (7, 5), (8, 7)] (Proc 5)"
proof -
  let ?ps = "[(2, 0), (4, 2), (5, 2), (7, 5), (8, 7)] :: process list"
  have "oldest ?ps ?ps = Proc 4" by (simp add: oldest_def parent_node_def)
  moreover have "Proc 4 \<notin> below ?ps ?ps (Proc 5)"
  proof
    assume "Proc 4 \<in> below ?ps ?ps (Proc 5)"
    then have "parent_node ?ps 2 = Proc 5 \<or> parent_node ?ps 2 \<in> below ?ps ?ps (Proc 5)" by (auto dest: below_parent)
    then have "Proc 2 \<in> below ?ps ?ps (Proc 5)" by (simp add: parent_node_def)
    then have "Sentinel \<in> below ?ps ?ps (Proc 5)" using below_parent [of "Proc 2" ?ps "Proc 5"] by (auto simp: parent_node_def)
    then show False using below_parent [of Sentinel ?ps "Proc 5"] by auto
  qed
  ultimately show ?thesis using kill_all_descendants_exact [of ?ps 5 9] by auto
qed

text \<open>
  A child with a smaller number than its parent hides the whole subtree.  Process 9 has parent 5 and
  child 6, and the table lists 6 before 9: linking 9 leaves it out of the list, the walk stops at 6,
  and nothing is killed although two processes should be.
\<close>

theorem kill_all_descendants_misses:
  "kill_all_descendants 9 5 [(2, 0), (4, 2), (5, 2), (6, 9), (9, 5)] = Ret [] \<and>
   {Proc 6, Proc 9} \<subseteq> below [(2, 0), (4, 2), (5, 2), (6, 9), (9, 5)] [(2, 0), (4, 2), (5, 2), (6, 9), (9, 5)] (Proc 5)"
proof
  show "kill_all_descendants 9 5 [(2, 0), (4, 2), (5, 2), (6, 9), (9, 5)] = Ret []"
    by code_simp
  let ?ps = "[(2, 0), (4, 2), (5, 2), (6, 9), (9, 5)] :: process list"
  have "Proc 9 \<in> below ?ps ?ps (Proc 5)" by (rule below_child [of _ 5]) (simp_all add: parent_node_def)
  moreover from this have "Proc 6 \<in> below ?ps ?ps (Proc 5)"
    by (intro below_grandchild [of _ 9]) (simp_all add: parent_node_def)
  ultimately show "{Proc 6, Proc 9} \<subseteq> below ?ps ?ps (Proc 5)" by simp
qed

end
