(* ===== verification/Core.thy ===== *)
theory Core
  imports Spawn Log ProcTree
begin

text \<open>
  The program itself: the rest of \<open>main.c\<close>.  Plugins are found in a directory and loaded, the command
  line names a method and its arguments, the method is called, and the process title is kept in the
  memory of the original arguments.

  What a plugin does when it is initialised, the answers of the file system and \<open>atof\<close> are arguments.
\<close>

section \<open>Plugins\<close>

datatype d_type = DT_REG | DT_DIR | DT_LNK | DT_UNKNOWN | DT_OTHER

record dirent =
  d_name :: string
  dent_type :: d_type

text \<open>\<open>plugin path\<close> is what the shared object at \<open>path\<close> does, \<open>None\<close> when it cannot be loaded.\<close>

type_synonym plugins = "string \<Rightarrow> (world \<Rightarrow> world res) option"

definition load_plugin_impl :: "plugins \<Rightarrow> string \<Rightarrow> world \<Rightarrow> world res" where
  "load_plugin_impl plugin sopath w =
     (case plugin sopath of None \<Rightarrow> Ret (log_line (''Failed to load '' @ sopath) w) | Some init \<Rightarrow> init w)"

definition load_plugin :: "plugins \<Rightarrow> di_string \<Rightarrow> world \<Rightarrow> world res" where
  "load_plugin plugin sopath w =
     (case sopath of None \<Rightarrow> Ret w | Some _ \<Rightarrow> load_plugin_impl plugin (cstr (di_string_to_chars_alloc sopath)) w)"

definition is_plugin_name :: "string \<Rightarrow> bool" where
  "is_plugin_name name \<longleftrightarrow> 3 \<le> length name \<and> drop (length name - 3) name = ''.so''"

text \<open>
  The loop over the directory: \<open>stat\<close> says of a name whether it is a regular file, and is only asked when
  the directory entry does not.  When it fails the function returns with the directory still open.
\<close>

fun load_entries :: "plugins \<Rightarrow> (string \<Rightarrow> bool option) \<Rightarrow> string \<Rightarrow> dirent list \<Rightarrow> world \<Rightarrow> (bool \<times> world) res" where
  "load_entries plugin stat rpath [] w = Ret (True, w)"
| "load_entries plugin stat rpath (dent # ds) w =
     (let is_reg = (if dent_type dent = DT_UNKNOWN \<or> dent_type dent = DT_LNK then stat (d_name dent)
                    else Some (dent_type dent = DT_REG)) in
      case is_reg of
        None \<Rightarrow> Ret (False, w)
      | Some reg \<Rightarrow>
         if \<not> reg then load_entries plugin stat rpath ds w
         else bind_res (if is_plugin_name (d_name dent) then load_plugin_impl plugin (rpath @ ''/'' @ d_name dent) w else Ret w)
           (load_entries plugin stat rpath ds))"

definition load_plugin_from_dir_impl ::
  "plugins \<Rightarrow> (string \<Rightarrow> bool option) \<Rightarrow> string \<Rightarrow> dirent list \<Rightarrow> posix \<Rightarrow> world \<Rightarrow> (int \<times> posix \<times> world) res" where
  "load_plugin_from_dir_impl plugin stat rpath ds s w =
     (let (fd, s1) = sys_open (Other_File 0) s in
      if fd < 0 then Ret (-1, s1, w)
      else let (ok, s2) = sys_ok s1 in
        if \<not> ok then Ret (-1, sys_close fd s2, w)
        else bind_res (load_entries plugin stat rpath ds w) (\<lambda>(done, w1).
          if done then Ret (0, sys_close fd s2, w1) else Ret (-1, s2, w1)))"

text \<open>\<open>load_plugin_from_dir\<close> with a path; \<open>dir\<close> gives the resolved path and the entries of a directory.\<close>

definition load_plugin_from_dir ::
  "plugins \<Rightarrow> (string \<Rightarrow> bool option) \<Rightarrow> (string \<Rightarrow> string \<times> dirent list) \<Rightarrow> di_string \<Rightarrow> posix \<Rightarrow> world \<Rightarrow> (int \<times> posix \<times> world) res" where
  "load_plugin_from_dir plugin stat dir path s w =
     (if path = None then Ret (-1, s, w)
      else case di_string_to_chars path PATH_MAX of
        None \<Rightarrow> Ret (-1, s, w)
      | Some p \<Rightarrow> (let (rpath, ds) = dir (cstr p) in load_plugin_from_dir_impl plugin stat rpath ds s w))"

text \<open>\<open>di_chdir\<close>: \<open>answer\<close> is the error of the system call, if any.\<close>

definition di_chdir :: "(string \<Rightarrow> int option) \<Rightarrow> di_string \<Rightarrow> int" where
  "di_chdir answer dir =
     (case dir of
        None \<Rightarrow> - 22
      | Some _ \<Rightarrow> (case answer (cstr (di_string_to_chars_alloc dir)) of None \<Rightarrow> 0 | Some e \<Rightarrow> - e))"

section \<open>The command line\<close>

text \<open>\<open>atoll\<close>: blanks, a sign, digits; a value out of range is clamped, as \<open>strtoll\<close> does.\<close>

definition is_blank :: "char \<Rightarrow> bool" where
  "is_blank c \<longleftrightarrow> of_char c \<in> {9, 10, 11, 12, 13, 32 :: nat}"

definition atoll :: "string \<Rightarrow> 64 word" where
  "atoll s =
     (let t = dropWhile is_blank s;
          v = (case t of
                 c # cs \<Rightarrow> if c = CHR ''-'' then - int (digits_value 0 cs)
                          else if c = CHR ''+'' then int (digits_value 0 cs) else int (digits_value 0 t)
               | [] \<Rightarrow> 0)
      in word_of_int (max (- (2 ^ 63)) (min (2 ^ 63 - 1) v)))"

definition parse_target :: "string \<Rightarrow> string option \<times> string" where
  "parse_target arg =
     (if CHR ''.'' \<in> set arg
      then let m = takeWhile (\<lambda>c. c \<noteq> CHR ''.'') arg in (Some m, drop (Suc (length m)) arg)
      else (None, arg))"

text \<open>
  One argument: \<open>Inl\<close> is the message before the exit.  The byte after the first is read even when the
  argument is empty.
\<close>

definition parse_arg :: "(string \<Rightarrow> double) \<Rightarrow> string \<Rightarrow> (string + di_value) res" where
  "parse_arg atof arg =
     (case arg of
        [] \<Rightarrow> Fault Out_Of_Bounds
      | c # rest \<Rightarrow>
         if rest = [] \<or> hd rest \<noteq> CHR '':'' then Ret (Inl (''Invalid argument: '' @ arg))
         else if c = CHR ''i'' then Ret (Inr (VInt (atoll (tl rest))))
         else if c = CHR ''s'' then Ret (Inr (VLiteral (tl rest)))
         else if c = CHR ''f'' then Ret (Inr (VFloat (atof (tl rest))))
         else Ret (Inl (''Invalid argument type: '' @ arg)))"

fun parse_args :: "(string \<Rightarrow> double) \<Rightarrow> string list \<Rightarrow> (string + di_value list) res" where
  "parse_args atof [] = Ret (Inr [])"
| "parse_args atof (a # as) =
     (if a = ''--'' then Ret (Inr [])
      else bind_res (parse_arg atof a) (\<lambda>r.
        case r of
          Inl e \<Rightarrow> Ret (Inl e)
        | Inr v \<Rightarrow> bind_res (parse_args atof as) (\<lambda>rs. Ret (map_sum id (\<lambda>vs. v # vs) rs))))"

section \<open>The call and the exit\<close>

text \<open>
  The call of the method that the command line names: the exit code, whether to quit, the heap; \<open>None\<close>
  when the module is missing.  The argument \<open>exit_code\<close> is what the method has stored there by way of
  \<open>di_prepare_exit\<close>, 0 when it has not.  When the call fails its result is read although it was never written;
  when there is an exit code the result is taken for an object, whatever it is.
\<close>

definition main_module :: "drop_fn \<Rightarrow> call_obj \<Rightarrow> oref \<Rightarrow> string option \<Rightarrow> world \<Rightarrow> (oref option \<times> world) res" where
  "main_module U C p modname w =
     (case modname of
        Some m \<Rightarrow> bind_res (di_getxt U C p (di_string_borrow m) DI_TYPE_OBJECT w) (\<lambda>(r, w1).
          Ret (case r of Inr (VObject q) \<Rightarrow> Some q | _ \<Rightarrow> None, w1))
      | None \<Rightarrow> bind_res (di_ref_object p w) (\<lambda>w1. Ret (Some p, w1)))"

definition check_errmsg :: "drop_fn \<Rightarrow> call_obj \<Rightarrow> int \<Rightarrow> di_value \<Rightarrow> world \<Rightarrow> (bool \<times> world) res" where
  "check_errmsg U C exit_code v w =
     (case v of
        VObject q \<Rightarrow> bind_res (di_getxt U C q (Some ''errmsg'') DI_TYPE_STRING w) (\<lambda>(r, w1).
          Ret (case r of Inl _ \<Rightarrow> (False, w1) | Inr _ \<Rightarrow> (True, log_line ''The function you called returned an error message'' w1)))
      | _ \<Rightarrow> if exit_code = 0 then Ret (False, w) else Fault (if v = VNil then Uninitialised else Type_Confusion))"

definition main_call ::
  "drop_fn \<Rightarrow> call_obj \<Rightarrow> oref \<Rightarrow> string option \<Rightarrow> string \<Rightarrow> di_value list \<Rightarrow> int \<Rightarrow> world \<Rightarrow> ((int \<times> bool) option \<times> world) res" where
  "main_call U C p modname meth di_args exit_code w =
     bind_res (main_module U C p modname w) (\<lambda>(m, w1).
       case m of
         None \<Rightarrow> Ret (None, w1)
       | Some md \<Rightarrow>
          bind_res (di_rawcallxn U C md (di_string_borrow meth) di_args w1) (\<lambda>(r, called, w2).
            case r of
              Inl e \<Rightarrow> Fault Uninitialised
            | Inr retd \<Rightarrow>
               bind_res (check_errmsg U C exit_code retd w2) (\<lambda>(failed, w3).
                 bind_res (di_free_value U retd w3) (\<lambda>w4.
                   bind_res (fold_res (\<lambda>a. di_free_value U (VVariant a)) di_args w4) (\<lambda>w5.
                     bind_res (U md w5) (\<lambda>w6.
                       bind_res (U p w6) (\<lambda>w7.
                         Ret (Some (if failed then 1 else exit_code, failed), w7))))))))"

definition di_prepare_exit ::
  "(dtor_fn \<Rightarrow> oref \<Rightarrow> world \<Rightarrow> world res) \<Rightarrow> drop_fn \<Rightarrow> nat \<Rightarrow> oref \<Rightarrow> int \<Rightarrow> world \<Rightarrow> (int \<times> world) res" where
  "di_prepare_exit D U k roots ec w = bind_res (di_finalize_object D U k roots w) (\<lambda>w1. Ret (ec, w1))"

definition di_prepare_quit ::
  "(dtor_fn \<Rightarrow> oref \<Rightarrow> world \<Rightarrow> world res) \<Rightarrow> drop_fn \<Rightarrow> nat \<Rightarrow> oref \<Rightarrow> world \<Rightarrow> (int \<times> world) res" where
  "di_prepare_quit D U k roots w = di_prepare_exit D U k roots 0 w"

definition di_get_argv :: "string list \<Rightarrow> di_value" where
  "di_get_argv argv = VArray DI_TYPE_STRING_LITERAL (Some (map VLiteral argv))"

definition di_register_module :: "drop_fn \<Rightarrow> oref \<Rightarrow> di_string \<Rightarrow> oref \<Rightarrow> world \<Rightarrow> (unit outcome \<times> world) res" where
  "di_register_module U p name m w = di_add_member_move U p name (VObject m) w"

definition di_register_module_method :: "drop_fn \<Rightarrow> oref \<Rightarrow> di_string \<Rightarrow> oref \<Rightarrow> world \<Rightarrow> (unit outcome \<times> world) res" where
  "di_register_module_method U p name m w = di_add_member_clonev U p name (VObject m) w"

section \<open>The process title\<close>

text \<open>
  The title lives where the arguments were: the bytes from \<open>argv[0]\<close> to the end of its page.  They are
  copied to the heap, and all pointers of \<open>argv\<close> and \<open>environ\<close> are moved by the distance of the two
  places.  Pointers are integers here; \<open>copy\<close> is where the copy is.
\<close>

record title =
  proctitle :: int
  proctitle_end :: int
  orig_proctitle :: int
  title_argv :: "int list"
  title_environ :: "int list"

definition setproctitle_init :: "int \<Rightarrow> int \<Rightarrow> int list \<Rightarrow> int list \<Rightarrow> title" where
  "setproctitle_init pgsz copy argv env =
     (let t = hd argv; off = copy - t in
      \<lparr>proctitle = t, proctitle_end = (t div pgsz + 1) * pgsz, orig_proctitle = copy,
       title_argv = map (\<lambda>a. a + off) argv, title_environ = map (\<lambda>e. e + off) env\<rparr>)"

text \<open>The part of \<open>di_dtor\<close> that moves the pointers back, those of \<open>environ\<close> only when they point into the copy.\<close>

definition title_restore :: "title \<Rightarrow> int list \<times> int list" where
  "title_restore p =
     (let off = proctitle p - orig_proctitle p; size = proctitle_end p - proctitle p in
      (map (\<lambda>a. a + off) (title_argv p),
       map (\<lambda>e. if orig_proctitle p \<le> e \<and> e < orig_proctitle p + size then e + off else e) (title_environ p)))"

text \<open>\<open>di_dtor\<close>: the quit flag, the pointers, the processes that are killed.\<close>

definition di_dtor :: "nat \<Rightarrow> nat \<Rightarrow> (string \<times> bool \<times> string option) list option \<Rightarrow> title \<Rightarrow> (bool \<times> (int list \<times> int list) \<times> nat list) res" where
  "di_dtor fuel self dir p = bind_res (kill_from_proc fuel self dir) (\<lambda>ks. Ret (True, title_restore p, ks))"

text \<open>\<open>strncpy\<close> of \<open>n\<close> bytes: the string up to its NUL, then zeros.\<close>

definition strncpy_bytes :: "nat \<Rightarrow> string \<Rightarrow> string" where
  "strncpy_bytes n src = (let s = take n (cstr src) in s @ replicate (n - length s) (CHR 0x00))"

text \<open>\<open>di_set_pr_name\<close> on the bytes of the title.\<close>

definition di_set_pr_name :: "di_string \<Rightarrow> string \<Rightarrow> string" where
  "di_set_pr_name name mem =
     (case name of
        None \<Rightarrow> mem
      | Some s \<Rightarrow>
         let size = length mem; nlen = (if size \<le> length s + 1 then size - 1 else length s) in
         strncpy_bytes nlen s @ replicate (size - nlen) (CHR 0x00))"

section \<open>Modules that come with the program\<close>

text \<open>
  The numbers are those of the C functions behind the methods.  A size is that of the module's struct.
\<close>

definition add_methods ::
  "(di_type \<Rightarrow> di_type list \<Rightarrow> bool) \<Rightarrow> drop_fn \<Rightarrow> oref \<Rightarrow> (string \<times> nat \<times> di_type \<times> di_type list) list \<Rightarrow> world \<Rightarrow> world res" where
  "add_methods P U p =
     fold_res (\<lambda>(name, fn, rt, ats) w. bind_res (di_add_method P U p (Some name) fn rt ats w) (\<lambda>(_, w1). Ret w1))"

definition di_init_os :: "(di_type \<Rightarrow> di_type list \<Rightarrow> bool) \<Rightarrow> (string \<Rightarrow> nat) \<Rightarrow> drop_fn \<Rightarrow> oref \<Rightarrow> world \<Rightarrow> world res" where
  "di_init_os P fn U di w =
     bind_res (di_new_module U di w) (\<lambda>(pm, w1).
       case pm of
         None \<Rightarrow> Fault Null_Deref
       | Some m \<Rightarrow>
          let (o', w2) = alloc_object w1 in
          bind_res (di_set_type U o' ''deai.builtin.os:Env'' w2) (\<lambda>(_, w3).
            bind_res (add_methods P U o'
                [(''__get'', fn ''di_env_get'', DI_TYPE_VARIANT, [DI_TYPE_STRING]),
                 (''__set'', fn ''di_env_set'', DI_TYPE_NIL, [DI_TYPE_STRING, DI_TYPE_STRING]),
                 (''__delete'', fn ''di_env_unset'', DI_TYPE_NIL, [DI_TYPE_STRING])] w3) (\<lambda>w4.
              bind_res (di_add_member_move U m (Some ''env'') (VObject o') w4) (\<lambda>(_, w5).
                bind_res (add_methods P U m [(''__get_hostname'', fn ''di_get_hostname'', DI_TYPE_STRING_LITERAL, [])] w5) (\<lambda>w6.
                  bind_res (di_register_module U di (Some ''os'') m w6) (\<lambda>(_, w7). Ret w7))))))"

definition di_init_log :: "(di_type \<Rightarrow> di_type list \<Rightarrow> bool) \<Rightarrow> (string \<Rightarrow> nat) \<Rightarrow> drop_fn \<Rightarrow> oref \<Rightarrow> world \<Rightarrow> (int \<times> world) res" where
  "di_init_log P fn U di w =
     bind_res (di_new_module_with_size U di 192 w) (\<lambda>(pm, w1).
       case pm of
         None \<Rightarrow> Ret (1, w1)
       | Some l \<Rightarrow>
          bind_res (di_set_type U l ''deai.builtin:LogModule'' w1) (\<lambda>(_, w2).
            bind_res (stderr_target P U (fn ''file_target_write'') w2) (\<lambda>(dtgt, w3).
              bind_res (di_add_member_move U l (Some ''log_target'') (VObject dtgt) w3) (\<lambda>(_, w4).
                bind_res (di_set_object_call l (Some (Call_ext (fn ''di_log''))) w4) (\<lambda>w5.
                  bind_res (add_methods P U l
                      [(''file_target'', fn ''file_target'', DI_TYPE_OBJECT, [DI_TYPE_STRING, DI_TYPE_BOOL]),
                       (''stderr_target'', fn ''stderr_target'', DI_TYPE_OBJECT, []),
                       (''__get_log_level'', fn ''get_log_level'', DI_TYPE_STRING_LITERAL, []),
                       (''__set_log_level'', fn ''set_log_level'', DI_TYPE_NINT, [DI_TYPE_STRING])] w5) (\<lambda>w6.
                    bind_res (di_register_module U di (Some ''log'') l w6) (\<lambda>(_, w7). Ret (1, w7))))))))"

text \<open>\<open>reaper\<close>: whether the process could become the reaper of its descendants.\<close>

definition di_init_spawn :: "(di_type \<Rightarrow> di_type list \<Rightarrow> bool) \<Rightarrow> (string \<Rightarrow> nat) \<Rightarrow> drop_fn \<Rightarrow> bool \<Rightarrow> oref \<Rightarrow> world \<Rightarrow> world res" where
  "di_init_spawn P fn U reaper di w =
     (if \<not> reaper then Ret w
      else bind_res (di_new_module_with_size U di 192 w) (\<lambda>(pm, w1).
        case pm of
          None \<Rightarrow> Fault Null_Deref
        | Some m \<Rightarrow>
           bind_res (add_methods P U m [(''run'', fn ''di_spawn_run'', DI_TYPE_OBJECT, [DI_TYPE_ARRAY, DI_TYPE_BOOL])] w1) (\<lambda>w2.
             bind_res (di_register_module U di (Some ''spawn'') m w2) (\<lambda>(_, w3). Ret w3))))"

section \<open>Properties\<close>

definition regular :: "(string \<Rightarrow> bool option) \<Rightarrow> dirent \<Rightarrow> bool option" where
  "regular stat d = (if dent_type d \<in> {DT_UNKNOWN, DT_LNK} then stat (d_name d) else Some (dent_type d = DT_REG))"

lemma load_entries_all:
  "\<forall>d \<in> set ds. regular stat d \<noteq> None \<Longrightarrow>
   load_entries plugin stat rpath ds w =
     bind_res (fold_res (load_plugin_impl plugin)
         (map (\<lambda>d. rpath @ ''/'' @ d_name d) (filter (\<lambda>d. regular stat d = Some True \<and> is_plugin_name (d_name d)) ds)) w)
       (\<lambda>w'. Ret (True, w'))"
proof (induction ds arbitrary: w)
  case (Cons d ds)
  let ?rest = "load_entries plugin stat rpath ds"
  obtain reg where r: "regular stat d = Some reg" using Cons.prems by (cases "regular stat d") auto
  then have "load_entries plugin stat rpath (d # ds) w =
      (if \<not> reg then ?rest w
       else bind_res (if is_plugin_name (d_name d) then load_plugin_impl plugin (rpath @ ''/'' @ d_name d) w else Ret w) ?rest)"
    by (auto simp: regular_def Let_def split: if_splits)
  moreover have "?rest = (\<lambda>w. bind_res (fold_res (load_plugin_impl plugin)
      (map (\<lambda>d. rpath @ ''/'' @ d_name d) (filter (\<lambda>d. regular stat d = Some True \<and> is_plugin_name (d_name d)) ds)) w)
      (\<lambda>w'. Ret (True, w')))" using Cons by (intro ext) simp
  ultimately show ?case using r by (simp add: bind_res_assoc)
qed simp

text \<open>
  Loading a directory loads its plugins.  If every entry can be examined, exactly the regular files
  (and links to such) whose names end in \<open>.so\<close> are loaded, in directory order and by their full path,
  the result is 0 and the descriptor of the directory is closed again.
\<close>

theorem load_plugin_from_dir_loads:
  assumes "table_ok (fdt s)" and "answers s = True # True # as" and "\<forall>d \<in> set ds. regular stat d \<noteq> None"
  shows "\<exists>s'. load_plugin_from_dir_impl plugin stat rpath ds s w =
      bind_res (fold_res (load_plugin_impl plugin)
          (map (\<lambda>d. rpath @ ''/'' @ d_name d) (filter (\<lambda>d. regular stat d = Some True \<and> is_plugin_name (d_name d)) ds)) w)
        (\<lambda>w'. Ret (0, s', w')) \<and>
    (\<forall>j. hash_find j (fdt s') = hash_find j (fdt s))"
proof -
  let ?fd = "lowest_fd (fdt s)"
  let ?s2 = "s\<lparr>fdt := hash_add ?fd (Other_File 0) (fdt s), answers := as\<rparr>"
  have o: "fd_opened ?fd (Other_File 0) (fdt s) (fdt ?s2)" using fd_opened_lowest [OF assms(1)] by simp
  have op: "sys_open (Other_File 0) s = (?fd, s\<lparr>answers := True # as, fdt := hash_add ?fd (Other_File 0) (fdt s)\<rparr>)"
    using assms(2) by (simp add: sys_open_def sys_ok_def Let_def)
  have "hash_find j (fdt (sys_close ?fd ?s2)) = hash_find j (fdt s)" for j
    using o by (auto simp: fd_opened_def)
  moreover have "load_plugin_from_dir_impl plugin stat rpath ds s w =
      bind_res (load_entries plugin stat rpath ds w) (\<lambda>(done, w1). if done then Ret (0, sys_close ?fd ?s2, w1) else Ret (-1, ?s2, w1))"
    using op lowest_fd_nonneg [of "fdt s"] by (simp add: load_plugin_from_dir_impl_def sys_ok_def)
  ultimately show ?thesis unfolding load_entries_all [OF assms(3)]
    by (intro exI [of _ "sys_close ?fd ?s2"]) (simp add: bind_res_assoc)
qed

text \<open>What the command line looks like for a list of values.\<close>

fun show_nat :: "nat \<Rightarrow> string" where
  "show_nat n = (if n < 10 then [char_of (48 + n)] else show_nat (n div 10) @ [char_of (48 + n mod 10)])"

declare show_nat.simps [simp del]

definition show_int :: "int \<Rightarrow> string" where
  "show_int i = (if i < 0 then CHR ''-'' # show_nat (nat (- i)) else show_nat (nat i))"

fun show_arg :: "di_value \<Rightarrow> string" where
  "show_arg (VInt i) = ''i:'' @ show_int (sint i)"
| "show_arg (VLiteral s) = ''s:'' @ s"
| "show_arg v = ''--''"

definition arg_value :: "di_value \<Rightarrow> bool" where
  "arg_value v \<longleftrightarrow> di_typeof v = DI_TYPE_INT \<or> di_typeof v = DI_TYPE_STRING_LITERAL"

lemma digit_char: "(d :: nat) < 10 \<Longrightarrow> is_digit (char_of (48 + d)) \<and> of_char (char_of (48 + d) :: char) = 48 + d"
  by (simp add: is_digit_def of_char_of)

lemma show_nat_digits: "\<forall>c \<in> set (show_nat n). is_digit c"
proof (induction n rule: show_nat.induct)
  case (1 n)
  then show ?case using digit_char [of n] digit_char [of "n mod 10"] by (subst show_nat.simps) auto
qed

lemma digits_value_append:
  "\<forall>c \<in> set s. is_digit c \<Longrightarrow> digits_value a (s @ t) = digits_value (digits_value a s) t"
  by (induction s arbitrary: a) auto

lemma digits_value_show_nat: "digits_value 0 (show_nat n) = n"
proof (induction n rule: show_nat.induct)
  case (1 n)
  show ?case
  proof (cases "n < 10")
    case True
    then show ?thesis using digit_char [of n] by (simp add: show_nat.simps [of n])
  next
    case False
    then show ?thesis using 1 digit_char [of "n mod 10"] show_nat_digits [of "n div 10"]
      by (simp add: show_nat.simps [of n] digits_value_append)
  qed
qed

lemma show_nat_Cons: "\<exists>c cs. show_nat n = c # cs \<and> is_digit c"
  using show_nat_digits [of n] by (cases "show_nat n") (simp add: show_nat.simps split: if_splits, simp)

lemma atoll_show_int: "atoll (show_int (sint i)) = i"
proof -
  have b: "- (2 ^ 63) \<le> sint i" "sint i \<le> 2 ^ 63 - 1" using sint_ge [of i] sint_lt [of i] by simp_all
  obtain c cs where c: "show_nat (nat (sint i)) = c # cs" "is_digit c" using show_nat_Cons by blast
  have nd: "\<not> is_blank c" "c \<noteq> CHR ''-''" "c \<noteq> CHR ''+''" using c(2) by (auto simp: is_digit_def is_blank_def)
  have "\<not> is_blank (CHR ''-'')" by (simp add: is_blank_def)
  then show ?thesis using b c nd digits_value_show_nat [of "nat (sint i)"] digits_value_show_nat [of "nat (- sint i)"]
    by (cases "sint i < 0") (simp_all add: atoll_def show_int_def Let_def)
qed

text \<open>
  The command line carries values.  Integers and strings written in the documented form are read
  back as they were, whatever the strings contain, and nothing after a \<open>--\<close> is looked at; the part of the
  first argument before its first dot is the module, the rest the method.
\<close>

theorem parse_args_roundtrip:
  assumes "\<forall>v \<in> set vs. arg_value v"
  shows "parse_args atof (map show_arg vs) = Ret (Inr vs) \<and> parse_args atof (map show_arg vs @ ''--'' # rest) = Ret (Inr vs) \<and>
    (CHR ''.'' \<notin> set m \<longrightarrow> parse_target (m @ ''.'' @ meth) = (Some m, meth))"
proof -
  have one: "parse_arg atof (show_arg v) = Ret (Inr v) \<and> show_arg v \<noteq> ''--''" if "v \<in> set vs" for v
    using assms that by (cases v) (auto simp: arg_value_def parse_arg_def atoll_show_int)
  have "parse_args atof (map show_arg vs @ end) = Ret (Inr vs)" if "end = [] \<or> (\<exists>r. end = ''--'' # r)" for "end"
    using one that by (induction vs) auto
  then have "parse_args atof (map show_arg vs @ []) = Ret (Inr vs)" "parse_args atof (map show_arg vs @ ''--'' # rest) = Ret (Inr vs)"
    by blast+
  moreover have "parse_target (m @ ''.'' @ meth) = (Some m, meth)" if "CHR ''.'' \<notin> set m"
  proof -
    have "takeWhile (\<lambda>c. c \<noteq> CHR ''.'') (m @ ''.'' @ meth) = m" using that by (induction m) auto
    then show ?thesis by (simp add: parse_target_def)
  qed
  ultimately show ?thesis by simp
qed

text \<open>
  What moving the argument and environment pointers and moving them back does: the arguments are
  restored, and so is every environment pointer between the title and the end of its page.  An
  environment pointer beyond that page stays displaced, and points outside the copy in the meantime.
\<close>

theorem title_init_restore:
  "title_restore (setproctitle_init pgsz copy argv env) =
     (argv, map (\<lambda>e. if hd argv \<le> e \<and> e < (hd argv div pgsz + 1) * pgsz then e else e + (copy - hd argv)) env)"
  by (auto simp: title_restore_def setproctitle_init_def Let_def o_def)

lemma cstr_padded: "nul_free s \<Longrightarrow> cstr (s @ replicate n (CHR 0x00)) = s"
proof (induction s)
  case Nil
  then show ?case by (cases n) (simp_all add: cstr_def)
qed (auto simp: cstr_def nul_free_def)

text \<open>
  Setting the title stays inside its memory.  The title keeps its size and, read as a C string, is the
  new name cut to what fits before the terminator.
\<close>

theorem di_set_pr_name_bounded:
  assumes "mem \<noteq> []"
  shows "length (di_set_pr_name (Some name) mem) = length mem \<and>
    cstr (di_set_pr_name (Some name) mem) = take (length mem - 1) (cstr name)"
proof -
  define n where "n = (if length mem \<le> length name + 1 then length mem - 1 else length name)"
  have n: "n \<le> length mem" "take n (cstr name) = take (length mem - 1) (cstr name)"
    using length_cstr [of name] by (auto simp: n_def)
  have eq: "di_set_pr_name (Some name) mem = strncpy_bytes n name @ replicate (length mem - n) (CHR 0x00)"
    by (simp add: di_set_pr_name_def n_def Let_def)
  have "nul_free (take n (cstr name))" using nul_free_cstr [of name] by (auto simp: nul_free_def dest: in_set_takeD)
  from cstr_padded [OF this, of "n - length (take n (cstr name)) + (length mem - n)"]
  have "cstr (di_set_pr_name (Some name) mem) = take n (cstr name)"
    unfolding eq strncpy_bytes_def Let_def replicate_add by simp
  moreover have "length (di_set_pr_name (Some name) mem) = length mem"
    using n(1) by (simp add: eq strncpy_bytes_def Let_def)
  ultimately show ?thesis using n(2) by simp
qed

theorem di_set_pr_name_bounded_witness:
  "cstr (di_set_pr_name (Some ''deai'') ''abc'') = ''de'' \<and> length (di_set_pr_name (Some ''deai'') ''abc'') = 3"
  using di_set_pr_name_bounded [of "''abc''" "''deai''"] by (simp add: cstr_def)

theorem parse_args_roundtrip_witness:
  "parse_args (\<lambda>s. NotANumber) [''i:'' @ show_int (- 42), ''s:--'', ''--'', ''x''] = Ret (Inr [VInt (- 42), VLiteral ''--'']) \<and>
   parse_target ''log.write'' = (Some ''log'', ''write'')"
proof -
  have "sint (- 42 :: 64 word) = - 42" by simp
  then show ?thesis
    using parse_args_roundtrip [of "[VInt (- 42), VLiteral ''--'']" "\<lambda>s. NotANumber" "[''x'']" "''log''" "''write''"]
    by (simp add: arg_value_def del: parse_args.simps)
qed

theorem load_plugin_from_dir_loads_witness:
  "\<exists>s'. load_plugin_from_dir_impl (\<lambda>p. None) (\<lambda>n. Some True) ''/p'' [\<lparr>d_name = ''a.so'', dent_type = DT_LNK\<rparr>, \<lparr>d_name = ''b'', dent_type = DT_REG\<rparr>]
     \<lparr>fdt = [], next_pipe = 0, answers = [True, True]\<rparr> initial_world = Ret (0, s', log_line ''Failed to load /p/a.so'' initial_world)"
proof -
  let ?ds = "[\<lparr>d_name = ''a.so'', dent_type = DT_LNK\<rparr>, \<lparr>d_name = ''b'', dent_type = DT_REG\<rparr>]"
  let ?s = "\<lparr>fdt = [], next_pipe = 0, answers = [True, True]\<rparr> :: posix"
  have ok: "table_ok (fdt ?s)" "answers ?s = True # True # []" "\<forall>d \<in> set ?ds. regular (\<lambda>n. Some True) d \<noteq> None"
    by (simp_all add: regular_def del: not_None_eq)
  have f: "filter (\<lambda>d. regular (\<lambda>n. Some True) d = Some True \<and> is_plugin_name (d_name d)) ?ds = [\<lparr>d_name = ''a.so'', dent_type = DT_LNK\<rparr>]"
    by (simp add: regular_def is_plugin_name_def)
  from load_plugin_from_dir_loads [OF ok, of "\<lambda>p. None" "''/p''" initial_world, unfolded f]
  show ?thesis by (elim exE conjE) (rule exI, simp add: load_plugin_impl_def)
qed

text \<open>A call that fails leaves the result unwritten, and the code that looks for an error message reads it.\<close>

lemma main_call_failure:
  assumes "main_module U C p modname w = Ret (Some md, w1)"
    and "di_rawcallxn U C md (di_string_borrow meth) args w1 = Ret (Inl e, called, w2)"
  shows "main_call U C p modname meth args ec w = Fault Uninitialised"
  using assms by (simp add: main_call_def)

text \<open>
  So does a call that works, when it asks for an exit code: \<open>exit\<close> returns nothing, and with a code other
  than 0 its result is looked at as an object that may hold an error message.
\<close>

lemma main_call_exit_code:
  assumes "main_module U C p modname w = Ret (Some md, w1)"
    and "di_rawcallxn U C md (di_string_borrow meth) args w1 = Ret (Inr VNil, called, w2)" and "ec \<noteq> 0"
  shows "main_call U C p modname meth args ec w = Fault Uninitialised"
  using assms by (simp add: main_call_def check_errmsg_def)

end
