(* ===== verification/Simulation.thy ===== *)
theory Simulation
  imports Prelude
begin

text \<open>
  Refinement of an abstract machine by operations that may fail.  The client of the interface below is
  a component that shows, operation by operation, that the code returns and that its result is related
  to the abstract one; it gets the same for every sequence of operations.
\<close>

primrec all_enabled :: "('op \<Rightarrow> 'a \<Rightarrow> 'a) \<Rightarrow> ('op \<Rightarrow> 'a \<Rightarrow> bool) \<Rightarrow> 'op list \<Rightarrow> 'a \<Rightarrow> bool" where
  "all_enabled aop en [] a = True"
| "all_enabled aop en (op # ops) a = (en op a \<and> all_enabled aop en ops (aop op a))"

locale step_refinement =
  fixes aop :: "'op \<Rightarrow> 'a \<Rightarrow> 'a" and cop :: "'op \<Rightarrow> 'c \<Rightarrow> 'c res" and en :: "'op \<Rightarrow> 'a \<Rightarrow> bool"
    and R :: "'a \<Rightarrow> 'c \<Rightarrow> bool"
  assumes step: "R a c \<Longrightarrow> en op a \<Longrightarrow> \<exists>c'. cop op c = Ret c' \<and> R (aop op a) c'"
begin

lemma run: "R a c \<Longrightarrow> all_enabled aop en ops a \<Longrightarrow> \<exists>c'. fold_res cop ops c = Ret c' \<and> R (fold aop ops a) c'"
proof (induction ops arbitrary: a c)
  case (Cons op ops)
  then obtain c' where "cop op c = Ret c'" "R (aop op a) c'" using step [of a c op] by auto
  with Cons.IH [of "aop op a" c'] Cons.prems show ?case by auto
qed auto

lemma run_invariant:
  assumes "R a c" "all_enabled aop en ops a" "\<And>b d. R b d \<Longrightarrow> I d"
  shows "\<exists>c'. fold_res cop ops c = Ret c' \<and> I c'"
  using run [OF assms(1,2)] assms(3) by blast

end

end
