(* ===== verification/Event.thy ===== *)
theory Event
  imports Core Signals LeakCheck Simulation
begin

text \<open>
  The event module \<open>event.c\<close>: descriptor watchers, timers and periodic timers are objects that embed a
  libev watcher.  While a watcher is part of the loop its object owns a strong reference to the core
  in its member \<open>__deai\<close>, otherwise a weak one.

  libev is seen through the watchers: \<open>active\<close> says whether the loop has the watcher, starting an
  active watcher and stopping an inactive one do nothing, and \<open>ev_timer_again\<close> makes a timer active
  exactly when it repeats.  The time is an argument of the callbacks.
\<close>

section \<open>Watchers\<close>

text \<open>The structs behind an object; another struct under the same pointer is a type confusion.\<close>

definition get_ioev :: "oref \<Rightarrow> world \<Rightarrow> di_ioev res" where
  "get_ioev p w = bind_res (get_obj p w) (\<lambda>x. case payload x of PIoev v \<Rightarrow> Ret v | _ \<Rightarrow> Fault Type_Confusion)"

definition get_timer :: "oref \<Rightarrow> world \<Rightarrow> di_timer res" where
  "get_timer p w = bind_res (get_obj p w) (\<lambda>x. case payload x of PTimer v \<Rightarrow> Ret v | _ \<Rightarrow> Fault Type_Confusion)"

definition get_periodic :: "oref \<Rightarrow> world \<Rightarrow> di_periodic res" where
  "get_periodic p w = bind_res (get_obj p w) (\<lambda>x. case payload x of PPeriodic v \<Rightarrow> Ret v | _ \<Rightarrow> Fault Type_Confusion)"

definition EV_READ :: "32 word" where "EV_READ = 1"
definition EV_WRITE :: "32 word" where "EV_WRITE = 2"
definition IOEV_READ :: "32 word" where "IOEV_READ = 1"
definition IOEV_WRITE :: "32 word" where "IOEV_WRITE = 2"

definition double_zero :: "double \<Rightarrow> bool" where
  "double_zero d = (case d of Finite m e \<Rightarrow> m = 0 | _ \<Rightarrow> False)"

text \<open>
  The documented effect of \<open>ev_timer_again\<close> on the watcher: it runs afterwards exactly when its repeat value is not
  zero.  The assertion libev has against negative values, in builds with assertions, is left out.
\<close>

definition timer_again_watcher :: "di_timer \<Rightarrow> di_timer" where
  "timer_again_watcher t = t\<lparr>tm_active := \<not> double_zero (tm_repeat t)\<rparr>"

section \<open>Callbacks\<close>

text \<open>The macro \<open>di_emit\<close> ignores the result of the emission.\<close>

definition di_emit :: "drop_fn \<Rightarrow> call_obj \<Rightarrow> oref \<Rightarrow> string \<Rightarrow> di_value list \<Rightarrow> world \<Rightarrow> world res" where
  "di_emit U C p name args w = bind_res (di_emitn U C p name args w) (\<lambda>(_, w1). Ret w1)"

definition di_ioev_callback :: "drop_fn \<Rightarrow> call_obj \<Rightarrow> oref \<Rightarrow> 32 word \<Rightarrow> world \<Rightarrow> world res" where
  "di_ioev_callback U C p revents w =
     bind_res (di_ref_object p w) (\<lambda>w1.
       bind_res (if and revents EV_READ \<noteq> 0 then di_emit U C p ''read'' [] w1 else Ret w1) (\<lambda>w2.
         bind_res (if and revents EV_WRITE \<noteq> 0 then di_emit U C p ''write'' [] w2 else Ret w2) (\<lambda>w3.
           let dt = or (if and revents EV_READ \<noteq> 0 then IOEV_READ else 0)
                       (if and revents EV_WRITE \<noteq> 0 then IOEV_WRITE else 0) in
           bind_res (di_emit U C p ''io'' [VNint dt] w3) (U p))))"

definition di_timer_callback :: "drop_fn \<Rightarrow> call_obj \<Rightarrow> double \<Rightarrow> oref \<Rightarrow> world \<Rightarrow> world res" where
  "di_timer_callback U C now p w =
     bind_res (di_ref_object p w) (\<lambda>w1.
       bind_res (di_object_get_deai_strong U C p w1) (\<lambda>(di_obj, w2).
         case di_obj of
           None \<Rightarrow> Fault (Aborted ''di_timer_callback'')
         | Some di \<Rightarrow>
            bind_res (get_timer p w2) (\<lambda>t.
              bind_res (put_payload p (PTimer (t\<lparr>tm_active := False\<rparr>)) w2) (\<lambda>w3.
                bind_res (di_emit U C p ''elapsed'' [VFloat now] w3) (\<lambda>w4.
                  bind_res (di_object_downgrade_deai U C p w4) (\<lambda>w5.
                    bind_res (U di w5) (U p)))))))"

definition di_periodic_callback :: "drop_fn \<Rightarrow> call_obj \<Rightarrow> double \<Rightarrow> oref \<Rightarrow> world \<Rightarrow> world res" where
  "di_periodic_callback U C now p w =
     bind_res (di_ref_object p w) (\<lambda>w1. bind_res (di_emit U C p ''triggered'' [VFloat now] w1) (U p))"

section \<open>Descriptor watchers\<close>

text \<open>\<open>di_start_ioev\<close> keeps the reference to the core it got: nothing drops it.\<close>

definition di_start_ioev :: "drop_fn \<Rightarrow> call_obj \<Rightarrow> oref \<Rightarrow> world \<Rightarrow> world res" where
  "di_start_ioev U C p w =
     bind_res (get_ioev p w) (\<lambda>ev.
       if io_running ev then Ret w
       else bind_res (di_object_get_deai_weak U C p w) (\<lambda>(di_obj, w1).
         case di_obj of
           None \<Rightarrow> Ret w1
         | Some di \<Rightarrow>
            bind_res (get_ioev p w1) (\<lambda>ev1.
              bind_res (put_payload p (PIoev (ev1\<lparr>io_active := True, io_running := True\<rparr>)) w1)
                (di_object_upgrade_deai U C p))))"

definition di_stop_ioev :: "drop_fn \<Rightarrow> call_obj \<Rightarrow> oref \<Rightarrow> world \<Rightarrow> world res" where
  "di_stop_ioev U C p w =
     bind_res (get_ioev p w) (\<lambda>ev.
       if \<not> io_running ev then Ret w
       else bind_res (di_object_get_deai_strong U C p w) (\<lambda>(di_obj, w1).
         case di_obj of
           None \<Rightarrow> Ret w1
         | Some di \<Rightarrow>
            bind_res (get_ioev p w1) (\<lambda>ev1.
              bind_res (put_payload p (PIoev (ev1\<lparr>io_active := False, io_running := False\<rparr>)) w1) (\<lambda>w2.
                bind_res (di_object_downgrade_deai U C p w2) (U di)))))"

definition di_toggle_ioev :: "drop_fn \<Rightarrow> call_obj \<Rightarrow> oref \<Rightarrow> world \<Rightarrow> world res" where
  "di_toggle_ioev U C p w =
     bind_res (get_ioev p w) (\<lambda>ev. if io_running ev then di_stop_ioev U C p w else di_start_ioev U C p w)"

definition ioev_flags :: "32 word \<Rightarrow> 32 word" where
  "ioev_flags t = or (if and t IOEV_READ \<noteq> 0 then EV_READ else 0) (if and t IOEV_WRITE \<noteq> 0 then EV_WRITE else 0)"

definition di_modify_ioev :: "drop_fn \<Rightarrow> call_obj \<Rightarrow> oref \<Rightarrow> 32 word \<Rightarrow> world \<Rightarrow> world res" where
  "di_modify_ioev U C p events w =
     (if events = 0 then di_stop_ioev U C p w
      else bind_res (get_ioev p w) (\<lambda>ev. put_payload p (PIoev (ev\<lparr>io_events := ioev_flags events\<rparr>)) w))"

text \<open>A struct bigger than a plain object; \<open>fn\<close> numbers the C functions.\<close>

definition new_event_object :: "drop_fn \<Rightarrow> nat \<Rightarrow> payload \<Rightarrow> string \<Rightarrow> world \<Rightarrow> (oref \<times> world) res" where
  "new_event_object U sz pl ty w =
     bind_res (di_new_object sz 8 w) (\<lambda>(r, w1).
       case r of
         None \<Rightarrow> Fault Null_Deref
       | Some p \<Rightarrow> bind_res (put_payload p pl w1) (\<lambda>w2.
           bind_res (di_set_type U p ty w2) (\<lambda>(_, w3). Ret (p, w3))))"

text \<open>When the core is gone the new object is not freed.\<close>

definition di_create_ioev ::
  "(di_type \<Rightarrow> di_type list \<Rightarrow> bool) \<Rightarrow> (string \<Rightarrow> nat) \<Rightarrow> drop_fn \<Rightarrow> call_obj \<Rightarrow> oref \<Rightarrow> 32 word \<Rightarrow> 32 word \<Rightarrow> world \<Rightarrow> (oref \<times> world) res" where
  "di_create_ioev P fn U C em fd t w =
     bind_res (new_event_object U 224 (PIoev \<lparr>io_active = False, io_fd = 0, io_events = 0, io_running = False\<rparr>)
         ''deai.builtin.event:IoEv'' w) (\<lambda>(p, w1).
       bind_res (di_module_get_deai U C em w1) (\<lambda>(di_obj, w2).
         case di_obj of
           None \<Rightarrow> di_new_error U ''deai is shutting down...'' w2
         | Some di \<Rightarrow>
            bind_res (put_payload p (PIoev \<lparr>io_active = True, io_fd = fd, io_events = ioev_flags t, io_running = False\<rparr>) w2) (\<lambda>w3.
              bind_res (di_add_member_move U p (Some ''__deai'') (VObject di) w3) (\<lambda>(_, w4).
                bind_res (add_methods P U p
                    [(''start'', fn ''di_start_ioev'', DI_TYPE_NIL, []), (''stop'', fn ''di_stop_ioev'', DI_TYPE_NIL, []),
                     (''toggle'', fn ''di_toggle_ioev'', DI_TYPE_NIL, []),
                     (''modify'', fn ''di_modify_ioev'', DI_TYPE_NIL, [DI_TYPE_NINT]),
                     (''close'', fn ''di_finalize_object'', DI_TYPE_NIL, [])] w4) (\<lambda>w5.
                  bind_res (di_set_object_dtor p (Some (Dtor_ext (fn ''di_stop_ioev''))) w5) (\<lambda>w6.
                    bind_res (get_ioev p w6) (\<lambda>ev.
                      bind_res (put_payload p (PIoev (ev\<lparr>io_running := True\<rparr>)) w6) (\<lambda>w7. Ret (p, w7)))))))))"

section \<open>Timers\<close>

definition di_timer_stop :: "drop_fn \<Rightarrow> call_obj \<Rightarrow> oref \<Rightarrow> world \<Rightarrow> world res" where
  "di_timer_stop U C p w =
     bind_res (di_object_get_deai_strong U C p w) (\<lambda>(di_obj, w1).
       bind_res (get_timer p w1) (\<lambda>t.
         case di_obj of
           None \<Rightarrow> assert_res (\<not> tm_active t) ''di_timer_stop'' (Ret w1)
         | Some di \<Rightarrow>
            bind_res (put_payload p (PTimer (t\<lparr>tm_active := False\<rparr>)) w1) (\<lambda>w2.
              bind_res (di_object_downgrade_deai U C p w2) (U di))))"

text \<open>\<open>di_timer_again\<close> keeps the reference to the core, too.\<close>

definition di_timer_again :: "drop_fn \<Rightarrow> call_obj \<Rightarrow> oref \<Rightarrow> world \<Rightarrow> world res" where
  "di_timer_again U C p w =
     bind_res (di_object_get_deai_weak U C p w) (\<lambda>(di_obj, w1).
       case di_obj of
         None \<Rightarrow> Ret w1
       | Some di \<Rightarrow>
          bind_res (get_timer p w1) (\<lambda>t.
            bind_res (put_payload p (PTimer (timer_again_watcher t)) w1) (di_object_upgrade_deai U C p)))"

definition di_timer_set :: "drop_fn \<Rightarrow> call_obj \<Rightarrow> oref \<Rightarrow> double \<Rightarrow> world \<Rightarrow> world res" where
  "di_timer_set U C p t w =
     bind_res (di_timer_stop U C p w) (\<lambda>w1.
       bind_res (get_timer p w1) (\<lambda>tm.
         bind_res (put_payload p (PTimer (tm\<lparr>tm_repeat := t\<rparr>)) w1) (di_timer_again U C p)))"

definition di_create_timer ::
  "(di_type \<Rightarrow> di_type list \<Rightarrow> bool) \<Rightarrow> (string \<Rightarrow> nat) \<Rightarrow> drop_fn \<Rightarrow> call_obj \<Rightarrow> oref \<Rightarrow> double \<Rightarrow> world \<Rightarrow> (oref \<times> world) res" where
  "di_create_timer P fn U C em timeout w =
     bind_res (new_event_object U 208 (PTimer \<lparr>tm_active = False, tm_repeat = Finite 0 0\<rparr>) ''deai.builtin.event:Timer'' w) (\<lambda>(p, w1).
       bind_res (di_module_get_deai U C em w1) (\<lambda>(di_obj, w2).
         case di_obj of
           None \<Rightarrow> di_new_error U ''deai is shutting down...'' w2
         | Some di \<Rightarrow>
            bind_res (di_set_object_dtor p (Some (Dtor_ext (fn ''di_timer_stop''))) w2) (\<lambda>w3.
              bind_res (add_methods P U p
                  [(''again'', fn ''di_timer_again'', DI_TYPE_NIL, []), (''stop'', fn ''di_timer_stop'', DI_TYPE_NIL, []),
                   (''__set_timeout'', fn ''di_timer_set'', DI_TYPE_NIL, [DI_TYPE_FLOAT])] w3) (\<lambda>w4.
                bind_res (put_payload p (PTimer (timer_again_watcher \<lparr>tm_active = False, tm_repeat = timeout\<rparr>)) w4) (\<lambda>w5.
                  bind_res (di_add_member_move U p (Some ''__deai'') (VObject di) w5) (\<lambda>(_, w6). Ret (p, w6)))))))"

section \<open>Periodic timers\<close>

text \<open>Both functions below use the core without a check when it is gone.\<close>

definition periodic_dtor :: "drop_fn \<Rightarrow> call_obj \<Rightarrow> oref \<Rightarrow> world \<Rightarrow> world res" where
  "periodic_dtor U C p w =
     bind_res (di_object_get_deai_strong U C p w) (\<lambda>(di_obj, w1).
       case di_obj of
         None \<Rightarrow> Fault Null_Deref
       | Some di \<Rightarrow>
          bind_res (get_periodic p w1) (\<lambda>t.
            bind_res (put_payload p (PPeriodic (t\<lparr>pt_active := False\<rparr>)) w1) (U di)))"

definition periodic_set :: "drop_fn \<Rightarrow> call_obj \<Rightarrow> oref \<Rightarrow> double \<Rightarrow> double \<Rightarrow> world \<Rightarrow> world res" where
  "periodic_set U C p interval offset w =
     bind_res (di_object_get_deai_strong U C p w) (\<lambda>(di_obj, w1).
       case di_obj of
         None \<Rightarrow> Fault (Aborted ''periodic_set'')
       | Some di \<Rightarrow>
          bind_res (put_payload p (PPeriodic \<lparr>pt_active = True, pt_offset = offset, pt_interval = interval\<rparr>) w1) (U di))"

definition di_create_periodic ::
  "(di_type \<Rightarrow> di_type list \<Rightarrow> bool) \<Rightarrow> (string \<Rightarrow> nat) \<Rightarrow> drop_fn \<Rightarrow> call_obj \<Rightarrow> oref \<Rightarrow> double \<Rightarrow> double \<Rightarrow> world \<Rightarrow> (oref \<times> world) res" where
  "di_create_periodic P fn U C evm interval offset w =
     bind_res (new_event_object U 224 (PPeriodic \<lparr>pt_active = False, pt_offset = offset, pt_interval = interval\<rparr>)
         ''deai.builtin.event:Periodic'' w) (\<lambda>(p, w1).
       bind_res (di_module_get_deai U C evm w1) (\<lambda>(di_obj, w2).
         bind_res (di_set_object_dtor p (Some (Dtor_ext (fn ''periodic_dtor''))) w2) (\<lambda>w3.
           bind_res (add_methods P U p [(''set'', fn ''periodic_set'', DI_TYPE_NIL, [DI_TYPE_FLOAT, DI_TYPE_FLOAT])] w3) (\<lambda>w4.
             case di_obj of
               None \<Rightarrow> Fault Null_Deref
             | Some di \<Rightarrow>
                bind_res (put_payload p (PPeriodic \<lparr>pt_active = True, pt_offset = offset, pt_interval = interval\<rparr>) w4) (\<lambda>w5.
                  bind_res (di_add_member_move U p (Some ''__deai'') (VObject di) w5) (\<lambda>(_, w6). Ret (p, w6)))))))"

section \<open>The module\<close>

text \<open>
  \<open>di_prepare\<close> runs before every wait of the loop; the leak detector works in the tracking build, \<open>k\<close> is
  its fuel.
\<close>

definition di_prepare :: "nat \<Rightarrow> oref \<Rightarrow> int \<Rightarrow> drop_fn \<Rightarrow> call_obj \<Rightarrow> oref \<Rightarrow> world \<Rightarrow> world res" where
  "di_prepare k roots lvl U C evm w =
     bind_res (di_mark_and_sweep k roots w) (\<lambda>(leak, _).
       bind_res (if leak then bind_res (di_dump_objects (Some roots) w) (\<lambda>_. Ret (snd (di_log_va 1 lvl ''Leak detected'' w)))
                 else Ret w) (\<lambda>w1.
         bind_res (di_ref_object evm w1) (\<lambda>w2. bind_res (di_emit U C evm ''prepare'' [] w2) (U evm))))"

text \<open>When the core is gone, \<open>di_member\<close> stores a null pointer as an object.\<close>

definition di_new_signal_prepare :: "drop_fn \<Rightarrow> call_obj \<Rightarrow> oref \<Rightarrow> world \<Rightarrow> world res" where
  "di_new_signal_prepare U C em w =
     bind_res (di_object_get_deai_weak U C em w) (\<lambda>(di, w1).
       case di of
         None \<Rightarrow> Fault Null_Deref
       | Some d \<Rightarrow> bind_res (di_add_member_move U em (Some ''___prepare_event_source'') (VObject d) w1) (\<lambda>(_, w2). Ret w2))"

definition di_del_signal_prepare :: "drop_fn \<Rightarrow> oref \<Rightarrow> world \<Rightarrow> world res" where
  "di_del_signal_prepare U em w =
     bind_res (di_remove_member_raw U em (Some ''___prepare_event_source'') w) (\<lambda>(_, w1). Ret w1)"

definition di_init_event :: "(di_type \<Rightarrow> di_type list \<Rightarrow> bool) \<Rightarrow> (string \<Rightarrow> nat) \<Rightarrow> drop_fn \<Rightarrow> oref \<Rightarrow> world \<Rightarrow> (oref \<times> world) res" where
  "di_init_event P fn U di w =
     bind_res (di_new_module U di w) (\<lambda>(pm, w1).
       case pm of
         None \<Rightarrow> Fault Null_Deref
       | Some em \<Rightarrow>
          bind_res (add_methods P U em
              [(''fdevent'', fn ''di_create_ioev'', DI_TYPE_OBJECT, [DI_TYPE_NINT, DI_TYPE_NINT]),
               (''timer'', fn ''di_create_timer'', DI_TYPE_OBJECT, [DI_TYPE_FLOAT]),
               (''periodic'', fn ''di_create_periodic'', DI_TYPE_OBJECT, [DI_TYPE_FLOAT, DI_TYPE_FLOAT]),
               (''__new_signal_prepare'', fn ''di_new_signal_prepare'', DI_TYPE_NIL, []),
               (''__del_signal_prepare'', fn ''di_del_signal_prepare'', DI_TYPE_NIL, [])] w1) (\<lambda>w2.
            bind_res (di_register_module U di (Some ''event'') em w2) (\<lambda>(_, w3). Ret (em, w3))))"

section \<open>The reference to the core\<close>

text \<open>
  An object \<open>p\<close> with the value \<open>v\<close> in its member \<open>__deai\<close> and the core \<open>d\<close>, both alive, with room in the
  counters of the core for the references taken below.
\<close>

definition core_of :: "oref \<Rightarrow> oref \<Rightarrow> di_value \<Rightarrow> di_object_internal \<Rightarrow> di_object_internal \<Rightarrow> world \<Rightarrow> bool" where
  "core_of p d v x y w \<longleftrightarrow> p \<noteq> d \<and> heap w p = Some x \<and> heap w d = Some y \<and> table_ok (members x) \<and>
     member_map p w ''__deai'' = Some v \<and> ref_count y \<noteq> 0 \<and> weak_ref_count y \<noteq> 0 \<and>
     unat (ref_count y) + 3 < 2 ^ 64 \<and> unat (weak_ref_count y) + 3 < 2 ^ 64"

definition with_deai :: "di_value \<Rightarrow> world \<Rightarrow> di_object_internal \<Rightarrow> di_object_internal" where
  "with_deai v w x = x\<lparr>members := hash_add ''__deai'' \<lparr>m_addr = next_addr w, m_val = v\<rparr> (hash_del ''__deai'' (members x))\<rparr>"

lemma core_ofD:
  assumes "core_of p d v x y w"
  shows "p \<noteq> d" "heap w p = Some x" "heap w d = Some y" "table_ok (members x)" "member_map p w ''__deai'' = Some v"
    "ref_count y \<noteq> 0" "weak_ref_count y \<noteq> 0" "unat (ref_count y) + 3 < 2 ^ 64" "unat (weak_ref_count y) + 3 < 2 ^ 64"
  using assms by (simp_all add: core_of_def)

lemma put_obj_twice [simp]: "put_obj p x (put_obj p y w) = put_obj p x w"
  by (simp add: put_obj_def)

lemma put_obj_same: "heap w p = Some x \<Longrightarrow> put_obj p x w = w"
  by (simp add: put_obj_def fun_upd_idem)

lemma word_room: "unat (x :: 64 word) + 3 < 2 ^ 64 \<Longrightarrow> x + 1 \<noteq> 0 \<and> x + 2 \<noteq> 0"
proof -
  assume a: "unat x + 3 < 2 ^ 64"
  have "unat (x + 1) = unat x + 1" "unat (x + 2) = unat x + 2"
    using a unat_plus_of_nat [of x 1] unat_plus_of_nat [of x 2] by simp_all
  then show ?thesis by (metis add_is_0 unat_0 zero_neq_one zero_neq_numeral)
qed

lemma counter_order: "(y :: di_object_internal)\<lparr>weak_ref_count := b, ref_count := a\<rparr> = y\<lparr>ref_count := a, weak_ref_count := b\<rparr>"
  by (cases y) simp

lemma unref_shared:
  assumes "heap w d = Some y" "ref_count y \<noteq> 0" "ref_count y \<noteq> 1"
  shows "di_unref_object E (Suc n) d w = Ret (put_obj d (y\<lparr>ref_count := ref_count y - 1\<rparr>) w)"
  using assms by (simp add: unref_step_def get_obj_def Let_def word_gt_0)

lemma drop_weak_shared:
  assumes "heap w d = Some y" "weak_ref_count y \<noteq> 1"
  shows "di_drop_weak_ref d w = Ret (put_obj d (y\<lparr>weak_ref_count := weak_ref_count y - 1\<rparr>) w)"
  using assms by (simp add: di_drop_weak_ref_def di_decrement_weak_ref_count_def get_obj_def Let_def)

text \<open>Reading the member at the type it has takes one reference, at the other type nothing.\<close>

lemma get_deai:
  assumes c: "core_of p d v x y w" and U: "U = di_unref_object E (Suc n)"
  shows "v = VObject d \<Longrightarrow> get_strong_deai U C p w = Ret (Some d, bump (one_at d) (\<lambda>_. 0) w)"
    "v = VWeak d \<Longrightarrow> get_weak_deai U C p w = Ret (Some d, bump (\<lambda>_. 0) (one_at d) w)"
    "v = VWeak d \<Longrightarrow> get_strong_deai U C p w = Ret (None, w)"
    "v = VObject d \<Longrightarrow> get_weak_deai U C p w = Ret (None, w)"
proof -
  note D = core_ofD [OF c]
  obtain m where m: "hash_find ''__deai'' (members x) = Some m" "m_val m = v" using D(2,5) by (auto simp: member_map_def)
  have u: "U d (bump (one_at d) (\<lambda>_. 0) w) = Ret w" unfolding U by (rule unref_bump [OF D(3,6)]) (use D(8) in simp)
  have k: "di_drop_weak_ref d (bump (\<lambda>_. 0) (one_at d) w) = Ret w" by (rule drop_weak_bump [OF D(3,7)])
  note s = get_strong_deai_def get_weak_deai_def di_getxt_def gen_tfunc_def di_getx_def di_rawgetx_def di_lookup_def
    get_obj_def di_type_conversion.simps is_integer_def
  show "v = VObject d \<Longrightarrow> get_strong_deai U C p w = Ret (Some d, bump (one_at d) (\<lambda>_. 0) w)"
    using m D(2) by (simp add: s di_ref_object_bump [OF D(3)])
  show "v = VWeak d \<Longrightarrow> get_weak_deai U C p w = Ret (Some d, bump (\<lambda>_. 0) (one_at d) w)"
    using m D(2) by (simp add: s di_weakly_ref_object_bump [OF D(3)])
  show "v = VWeak d \<Longrightarrow> get_strong_deai U C p w = Ret (None, w)"
    using m D(2) k by (simp add: s di_weakly_ref_object_bump [OF D(3)])
  show "v = VObject d \<Longrightarrow> get_weak_deai U C p w = Ret (None, w)"
    using m D(2) u by (simp add: s di_ref_object_bump [OF D(3)])
qed

text \<open>The world in which \<open>p\<close>'s member has the value \<open>v\<close> and the core's counters have changed.\<close>

definition rebind :: "oref \<Rightarrow> oref \<Rightarrow> di_value \<Rightarrow> di_object_internal \<Rightarrow> di_object_internal \<Rightarrow> world \<Rightarrow> world" where
  "rebind p d v x y w = (put_obj p (with_deai v w x) (put_obj d y w))\<lparr>next_addr := Suc (next_addr w)\<rparr>"

lemma check_deai_member: "table_ok (members x) \<Longrightarrow> check_new_member (x\<lparr>members := hash_del ''__deai'' (members x)\<rparr>) ''__deai'' = None"
  using alist.find_del [of "members x" "''__deai''" "''__deai''"] by (simp add: check_new_member_def Let_def starts_with_def)

lemma remove_deai:
  assumes "heap w p = Some x" "hash_find ''__deai'' (members x) = Some m"
  shows "di_remove_member_raw U p (Some ''__deai'') w =
    bind_res (di_free_value U (m_val m) (put_obj p (x\<lparr>members := hash_del ''__deai'' (members x)\<rparr>) w)) (\<lambda>w'. Ret (Inr (), w'))"
  using assms by (simp add: di_remove_member_raw_def di_lookup_def get_obj_def di_remove_member_raw_impl_def)

lemma add_deai:
  assumes "heap w p = Some (x\<lparr>members := hash_del ''__deai'' (members x)\<rparr>)" "table_ok (members x)" "v = VObject d \<or> v = VWeak d"
  shows "di_add_member_move U p (Some ''__deai'') v w =
    Ret (Inr (), (put_obj p (with_deai v w x) w)\<lparr>next_addr := Suc (next_addr w)\<rparr>)"
proof -
  have "di_add_member U p (Some ''__deai'') v w = Ret (Inr (), with_member p (x\<lparr>members := hash_del ''__deai'' (members x)\<rparr>) ''__deai'' v w)"
    by (rule di_add_member_Ret [OF assms(1) check_deai_member [OF assms(2)]])
  moreover have "with_member p (x\<lparr>members := hash_del ''__deai'' (members x)\<rparr>) ''__deai'' v w =
      (put_obj p (with_deai v w x) w)\<lparr>next_addr := Suc (next_addr w)\<rparr>"
    by (simp add: with_member_def with_deai_def)
  moreover have "\<exists>k. di_sizeof_type (di_typeof v) = Ret k \<and> k \<noteq> 0" using assms(3) by auto
  ultimately show ?thesis by (auto simp: di_add_member_move_def)
qed

lemma put_obj_commute: "p \<noteq> q \<Longrightarrow> put_obj p x (put_obj q y w) = put_obj q y (put_obj p x w)"
  by (simp add: put_obj_def fun_upd_twist)

text \<open>The three ways to use the reference.\<close>

lemma get_deai_weak:
  assumes c: "core_of p d (VWeak d) x y w" and U: "U = di_unref_object E (Suc n)"
  shows "di_object_get_deai_weak U C p w = Ret (Some d, put_obj d (y\<lparr>ref_count := ref_count y + 1\<rparr>) w)"
proof -
  note D = core_ofD [OF c] and r = word_room [OF core_ofD(9) [OF c]]
  have e: "y\<lparr>ref_count := ref_count y + 1, weak_ref_count := weak_ref_count y\<rparr> = y\<lparr>ref_count := ref_count y + 1\<rparr>"
    by (cases y) simp
  show ?thesis using D r get_deai(2) [OF c U]
    by (simp add: di_object_get_deai_weak_def di_upgrade_weak_ref_def di_ref_object_def get_obj_def bump_one word_gt_0
        drop_weak_shared e)
qed

lemma downgrade_deai:
  assumes c: "core_of p d (VObject d) x y w" and U: "U = di_unref_object E (Suc n)" and r: "ref_count y \<noteq> 1"
  shows "di_object_downgrade_deai U C p w =
    Ret (rebind p d (VWeak d) x (y\<lparr>ref_count := ref_count y - 1, weak_ref_count := weak_ref_count y + 1\<rparr>) w)"
proof -
  note D = core_ofD [OF c] and rm = word_room [OF core_ofD(8) [OF c]]
  obtain m where m: "hash_find ''__deai'' (members x) = Some m" "m_val m = VObject d" using D(2,5) by (auto simp: member_map_def)
  let ?x = "x\<lparr>members := hash_del ''__deai'' (members x)\<rparr>" and ?y = "\<lambda>r. y\<lparr>ref_count := ref_count y + r, weak_ref_count := weak_ref_count y + 1\<rparr>"
  let ?w2 = "put_obj d (?y 1) w"
  have wk: "di_weakly_ref_object d (bump (one_at d) (\<lambda>_. 0) w) = Ret ?w2"
    by (simp add: di_weakly_ref_object_def get_obj_def bump_one [OF D(3)])
  have "U d (put_obj p ?x ?w2) = Ret (put_obj d (?y 0) (put_obj p ?x w))"
    unfolding U using unref_shared [of "put_obj p ?x ?w2" d "?y 1" E n] D(1) rm by (simp add: put_obj_commute [OF D(1)] D(6))
  then have rem: "di_remove_member_raw U p (Some ''__deai'') ?w2 = Ret (Inr (), put_obj d (?y 0) (put_obj p ?x w))"
    using remove_deai [of ?w2 p x m U] m D(1,2) by simp
  let ?w3 = "put_obj d (?y 0) (put_obj p ?x w)"
  have add: "di_add_member_move U p (Some ''__deai'') (VWeak d) ?w3 =
      Ret (Inr (), (put_obj p (with_deai (VWeak d) w x) ?w3)\<lparr>next_addr := Suc (next_addr w)\<rparr>)"
    using add_deai [of ?w3 p x "VWeak d" d U] D(1,4) by (simp add: with_deai_def)
  let ?w4 = "(put_obj p (with_deai (VWeak d) w x) ?w3)\<lparr>next_addr := Suc (next_addr w)\<rparr>"
  have "U d ?w4 = Ret (put_obj d (?y (-1)) ?w4)"
    unfolding U using unref_shared [of ?w4 d "?y 0" E n] D(1,6) r by (simp add: counter_order)
  moreover have "put_obj d (?y (-1)) ?w4 = rebind p d (VWeak d) x (?y (-1)) w"
    using D(1) by (simp add: rebind_def put_obj_def fun_upd_twist)
  ultimately show ?thesis using get_deai(1) [OF c U, of C] wk rem add by (simp add: di_object_downgrade_deai_def)
qed

lemma upgrade_deai:
  assumes c: "core_of p d (VWeak d) x y w" and U: "U = di_unref_object E (Suc n)" and rm2: "weak_ref_count y \<noteq> 1"
  shows "di_object_upgrade_deai U C p w =
    Ret (rebind p d (VObject d) x (y\<lparr>ref_count := ref_count y + 1, weak_ref_count := weak_ref_count y - 1\<rparr>) w)"
proof -
  note D = core_ofD [OF c] and rm = word_room [OF core_ofD(9) [OF c]]
  obtain m where m: "hash_find ''__deai'' (members x) = Some m" "m_val m = VWeak d" using D(2,5) by (auto simp: member_map_def)
  let ?x = "x\<lparr>members := hash_del ''__deai'' (members x)\<rparr>" and ?y = "\<lambda>k. y\<lparr>ref_count := ref_count y + 1, weak_ref_count := weak_ref_count y + k\<rparr>"
  let ?w2 = "put_obj d (?y 1) w"
  have up: "di_upgrade_weak_ref d (bump (\<lambda>_. 0) (one_at d) w) = Ret (Some d, ?w2)"
    using D(6) by (simp add: di_upgrade_weak_ref_def di_ref_object_def get_obj_def bump_one [OF D(3)] word_gt_0 counter_order)
  have "di_drop_weak_ref d (put_obj p ?x ?w2) = Ret (put_obj d (?y 0) (put_obj p ?x w))"
    using drop_weak_shared [of "put_obj p ?x ?w2" d "?y 1"] D(1,7) by (simp add: put_obj_commute [OF D(1)])
  then have rem: "di_remove_member_raw U p (Some ''__deai'') ?w2 = Ret (Inr (), put_obj d (?y 0) (put_obj p ?x w))"
    using remove_deai [of ?w2 p x m U] m D(1,2) by simp
  let ?w3 = "put_obj d (?y 0) (put_obj p ?x w)"
  have add: "di_add_member_move U p (Some ''__deai'') (VObject d) ?w3 =
      Ret (Inr (), (put_obj p (with_deai (VObject d) w x) ?w3)\<lparr>next_addr := Suc (next_addr w)\<rparr>)"
    using add_deai [of ?w3 p x "VObject d" d U] D(1,4) by (simp add: with_deai_def)
  let ?w4 = "(put_obj p (with_deai (VObject d) w x) ?w3)\<lparr>next_addr := Suc (next_addr w)\<rparr>"
  have "di_drop_weak_ref d ?w4 = Ret (put_obj d (?y (-1)) ?w4)"
    using drop_weak_shared [of ?w4 d "?y 0"] D(1) rm2 by simp
  moreover have "put_obj d (?y (-1)) ?w4 = rebind p d (VObject d) x (?y (-1)) w"
    using D(1) by (simp add: rebind_def put_obj_def fun_upd_twist)
  ultimately show ?thesis using get_deai(2) [OF c U, of C] up rem add by (simp add: di_object_upgrade_deai_def)
qed

text \<open>
  Leaving and entering the loop.  Both functions change the struct between reading the reference to the
  core and exchanging it; leaving gives everything back, entering keeps a reference.
\<close>

lemma strong_read:
  assumes "core_of p d (VObject d) x y w" "U = di_unref_object E (Suc n)"
  shows "di_object_get_deai_strong U C p w = Ret (Some d, put_obj d (y\<lparr>ref_count := ref_count y + 1\<rparr>) w)"
  using get_deai(1) [OF assms, of C] by (simp add: di_object_get_deai_strong_def bump_one [OF core_ofD(3) [OF assms(1)]])

lemma core_of_held:
  assumes c: "core_of p d v x y w" and r: "unat (ref_count y) + 4 < 2 ^ 64"
  shows "core_of p d v (x\<lparr>payload := pl\<rparr>) (y\<lparr>ref_count := ref_count y + 1\<rparr>)
    (put_obj p (x\<lparr>payload := pl\<rparr>) (put_obj d (y\<lparr>ref_count := ref_count y + 1\<rparr>) w))"
proof -
  note D = core_ofD [OF c]
  have "unat (ref_count y + 1) = unat (ref_count y) + 1" using unat_plus_of_nat [of "ref_count y" 1] r by simp
  then show ?thesis using D r word_room [OF D(8)] by (auto simp: core_of_def member_map_def)
qed

lemma leave_loop:
  assumes c: "core_of p d (VObject d) x y w" and U: "U = di_unref_object E (Suc n)" and r: "ref_count y \<noteq> 1" "unat (ref_count y) + 4 < 2 ^ 64"
  shows "bind_res (put_payload p pl (put_obj d (y\<lparr>ref_count := ref_count y + 1\<rparr>) w)) (\<lambda>w2. bind_res (di_object_downgrade_deai U C p w2) (U d)) =
    Ret (rebind p d (VWeak d) (x\<lparr>payload := pl\<rparr>) (y\<lparr>ref_count := ref_count y - 1, weak_ref_count := weak_ref_count y + 1\<rparr>) w)"
proof -
  note D = core_ofD [OF c]
  let ?x = "x\<lparr>payload := pl\<rparr>" and ?y1 = "y\<lparr>ref_count := ref_count y + 1\<rparr>"
  let ?w2 = "put_obj p ?x (put_obj d ?y1 w)" and ?y2 = "y\<lparr>ref_count := ref_count y, weak_ref_count := weak_ref_count y + 1\<rparr>"
  have "di_object_downgrade_deai U C p ?w2 = Ret (rebind p d (VWeak d) ?x ?y2 ?w2)"
    using downgrade_deai [OF core_of_held [OF c r(2), of pl] U, of C] D(6) by simp
  moreover have "U d (rebind p d (VWeak d) ?x ?y2 ?w2) =
      Ret (rebind p d (VWeak d) ?x (y\<lparr>ref_count := ref_count y - 1, weak_ref_count := weak_ref_count y + 1\<rparr>) w)"
    unfolding U using unref_shared [of "rebind p d (VWeak d) ?x ?y2 ?w2" d ?y2 E n] D(1,6) r
    by (simp add: rebind_def put_obj_def fun_upd_twist with_deai_def counter_order)
  ultimately show ?thesis using put_payload_Ret [of "put_obj d ?y1 w" p x pl] D(1,2) by simp
qed

lemma enter_loop:
  assumes c: "core_of p d (VWeak d) x y w" and U: "U = di_unref_object E (Suc n)" and r: "weak_ref_count y \<noteq> 1" "unat (ref_count y) + 4 < 2 ^ 64"
  shows "bind_res (put_payload p pl (put_obj d (y\<lparr>ref_count := ref_count y + 1\<rparr>) w)) (di_object_upgrade_deai U C p) =
    Ret (rebind p d (VObject d) (x\<lparr>payload := pl\<rparr>) (y\<lparr>ref_count := ref_count y + 2, weak_ref_count := weak_ref_count y - 1\<rparr>) w)"
proof -
  note D = core_ofD [OF c]
  let ?x = "x\<lparr>payload := pl\<rparr>" and ?y1 = "y\<lparr>ref_count := ref_count y + 1\<rparr>"
  let ?w2 = "put_obj p ?x (put_obj d ?y1 w)"
  have "ref_count y + 1 + 1 = ref_count y + 2" by simp
  then have "di_object_upgrade_deai U C p ?w2 =
      Ret (rebind p d (VObject d) ?x (y\<lparr>ref_count := ref_count y + 2, weak_ref_count := weak_ref_count y - 1\<rparr>) ?w2)"
    using upgrade_deai [OF core_of_held [OF c r(2), of pl] U, of C] r(1) by (simp add: add.commute)
  moreover have "rebind p d v ?x z ?w2 = rebind p d v ?x z w" for v z
    using D(1) by (simp add: rebind_def put_obj_def fun_upd_twist with_deai_def)
  ultimately show ?thesis using put_payload_Ret [of "put_obj d ?y1 w" p x pl] D(1,2) by simp
qed

lemma rebind_heap:
  assumes "p \<noteq> d"
  shows "heap (rebind p d v x y w) = (heap w)(p \<mapsto> with_deai v w x, d \<mapsto> y)"
  using assms by (simp add: rebind_def fun_upd_twist)

lemma with_deai_fields [simp]:
  "payload (with_deai v w x) = payload x" "destroyed (with_deai v w x) = destroyed x" "dtor (with_deai v w x) = dtor x"
  "ref_count (with_deai v w x) = ref_count x" "weak_ref_count (with_deai v w x) = weak_ref_count x"
  by (simp_all add: with_deai_def)

lemma with_deai_member:
  assumes "table_ok (members x)"
  shows "table_ok (members (with_deai v w x))"
    "hash_find n (members (with_deai v w x)) = (if n = ''__deai'' then Some \<lparr>m_addr = next_addr w, m_val = v\<rparr> else hash_find n (members x))"
  using alist.invar_del [OF assms, of "''__deai''"] alist.find_del [OF assms, of _ "''__deai''"]
    alist.invar_add [of "hash_del ''__deai'' (members x)" "''__deai''"] alist.find_add [of "hash_del ''__deai'' (members x)" "''__deai''"]
  by (auto simp: with_deai_def)

section \<open>Descriptor watchers as a machine with two states\<close>

text \<open>
  What a descriptor watcher promises: it is on or off, has a mask of events, and counts how often it
  was really started, since every such start keeps one reference to the core.
\<close>

record ioev_spec =
  sp_on :: bool
  sp_mask :: "32 word"
  sp_starts :: nat

datatype ioev_op = Op_start | Op_stop | Op_toggle | Op_modify "32 word"

definition spec_start :: "ioev_spec \<Rightarrow> ioev_spec" where
  "spec_start a = (if sp_on a then a else a\<lparr>sp_on := True, sp_starts := Suc (sp_starts a)\<rparr>)"

fun spec_op :: "ioev_op \<Rightarrow> ioev_spec \<Rightarrow> ioev_spec" where
  "spec_op Op_start a = spec_start a"
| "spec_op Op_stop a = a\<lparr>sp_on := False\<rparr>"
| "spec_op Op_toggle a = (if sp_on a then a\<lparr>sp_on := False\<rparr> else spec_start a)"
| "spec_op (Op_modify e) a = (if e = 0 then a\<lparr>sp_on := False\<rparr> else a\<lparr>sp_mask := and e 3\<rparr>)"

fun ioev_run :: "drop_fn \<Rightarrow> call_obj \<Rightarrow> oref \<Rightarrow> ioev_op \<Rightarrow> world \<Rightarrow> world res" where
  "ioev_run U C p Op_start w = di_start_ioev U C p w"
| "ioev_run U C p Op_stop w = di_stop_ioev U C p w"
| "ioev_run U C p Op_toggle w = di_toggle_ioev U C p w"
| "ioev_run U C p (Op_modify e) w = di_modify_ioev U C p e w"

text \<open>
  The relation.  \<open>b\<close> and \<open>k\<close> count the references to the core that do not come from the watcher; the
  flag of the struct, the flag of libev and the kind of the reference always agree.
\<close>

definition core_counts :: "oref \<Rightarrow> nat \<Rightarrow> nat \<Rightarrow> bool \<Rightarrow> nat \<Rightarrow> world \<Rightarrow> bool" where
  "core_counts d b k on starts w \<longleftrightarrow> (\<exists>y. heap w d = Some y \<and> 0 < b \<and> 0 < k \<and>
     unat (ref_count y) = b + starts + (if on then 1 else 0) \<and> unat (weak_ref_count y) = k + (if on then 0 else 1))"

definition ioev_rel :: "oref \<Rightarrow> oref \<Rightarrow> nat \<Rightarrow> nat \<Rightarrow> 32 word \<Rightarrow> ioev_spec \<Rightarrow> world \<Rightarrow> bool" where
  "ioev_rel p d b k fd a w \<longleftrightarrow> p \<noteq> d \<and> core_counts d b k (sp_on a) (sp_starts a) w \<and>
     (\<exists>x. heap w p = Some x \<and> table_ok (members x) \<and>
        payload x = PIoev \<lparr>io_active = sp_on a, io_fd = fd, io_events = sp_mask a, io_running = sp_on a\<rparr>) \<and>
     member_map p w ''__deai'' = Some (if sp_on a then VObject d else VWeak d)"

definition ioev_enabled :: "nat \<Rightarrow> nat \<Rightarrow> ioev_op \<Rightarrow> ioev_spec \<Rightarrow> bool" where
  "ioev_enabled b k op a \<longleftrightarrow> b + sp_starts a + 6 < 2 ^ 64 \<and> k + 6 < 2 ^ 64"

lemma and_power_of_2: "and (e :: 32 word) (2 ^ n) = (if bit e n then 2 ^ n else 0)"
  by (rule bit_word_eqI) (auto simp: bit_simps)

lemma ioev_flags_mask: "ioev_flags e = and e 3"
proof -
  have "and e 1 = (if bit e 0 then 1 else 0)" "and e 2 = (if bit e 1 then 2 else 0)"
    using and_power_of_2 [of e 0] and_power_of_2 [of e 1] by simp_all
  moreover have "and e 3 = or (and e 1) (and e 2)"
    using bit.conj_disj_distrib [of e 1 2] by simp
  ultimately show ?thesis
    by (simp add: ioev_flags_def IOEV_READ_def IOEV_WRITE_def EV_READ_def EV_WRITE_def)
qed

lemma ioev_relD:
  assumes "ioev_rel p d b k fd a w" "b + sp_starts a + 6 < 2 ^ 64" "k + 6 < 2 ^ 64"
  shows "\<exists>x y. core_of p d (if sp_on a then VObject d else VWeak d) x y w \<and>
    payload x = PIoev \<lparr>io_active = sp_on a, io_fd = fd, io_events = sp_mask a, io_running = sp_on a\<rparr> \<and>
    unat (ref_count y) = b + sp_starts a + (if sp_on a then 1 else 0) \<and> unat (weak_ref_count y) = k + (if sp_on a then 0 else 1) \<and>
    0 < b \<and> 0 < k"
  using assms by (auto simp: ioev_rel_def core_counts_def core_of_def)

lemma stop_ioev_step:
  assumes r: "ioev_rel p d b k fd a w" and en: "b + sp_starts a + 6 < 2 ^ 64" "k + 6 < 2 ^ 64" and U: "U = di_unref_object E (Suc n)"
  shows "\<exists>w'. di_stop_ioev U C p w = Ret w' \<and> ioev_rel p d b k fd (a\<lparr>sp_on := False\<rparr>) w'"
proof (cases "sp_on a")
  case False
  obtain x y where x: "core_of p d (VWeak d) x y w" "payload x = PIoev \<lparr>io_active = False, io_fd = fd, io_events = sp_mask a, io_running = False\<rparr>"
    using ioev_relD [OF r en] False by auto
  have "a\<lparr>sp_on := False\<rparr> = a" using False by (cases a) simp
  then show ?thesis using r x(2) core_ofD(2) [OF x(1)] by (simp add: di_stop_ioev_def get_ioev_def get_obj_def)
next
  case True
  obtain x y where x: "core_of p d (VObject d) x y w" and pl: "payload x = PIoev \<lparr>io_active = True, io_fd = fd, io_events = sp_mask a, io_running = True\<rparr>"
    and y: "unat (ref_count y) = b + sp_starts a + 1" "unat (weak_ref_count y) = k" "0 < b" "0 < k"
    using ioev_relD [OF r en] True by auto
  note D = core_ofD [OF x]
  let ?pl = "PIoev \<lparr>io_active = False, io_fd = fd, io_events = sp_mask a, io_running = False\<rparr>"
  let ?y = "y\<lparr>ref_count := ref_count y - 1, weak_ref_count := weak_ref_count y + 1\<rparr>"
  let ?w = "rebind p d (VWeak d) (x\<lparr>payload := ?pl\<rparr>) ?y w"
  have n1: "ref_count y \<noteq> 1" using y(1,3) by auto
  have "di_stop_ioev U C p w = Ret ?w"
    using leave_loop [OF x U n1, of ?pl C] y(1) en D(1,2) pl
    by (simp add: di_stop_ioev_def get_ioev_def get_obj_def strong_read [OF x U])
  moreover have "unat (ref_count y - 1) = b + sp_starts a" "unat (weak_ref_count y + 1) = k + 1"
    using y D(6) unat_plus_of_nat [of "weak_ref_count y" 1] en by (simp_all add: unat_minus_one)
  then have "ioev_rel p d b k fd (a\<lparr>sp_on := False\<rparr>) ?w"
    using D y(3,4) by (auto simp: ioev_rel_def core_counts_def rebind_heap with_deai_member member_map_def)
  ultimately show ?thesis by blast
qed

lemma start_ioev_step:
  assumes r: "ioev_rel p d b k fd a w" and en: "b + sp_starts a + 6 < 2 ^ 64" "k + 6 < 2 ^ 64" and U: "U = di_unref_object E (Suc n)"
  shows "\<exists>w'. di_start_ioev U C p w = Ret w' \<and> ioev_rel p d b k fd (spec_start a) w'"
proof (cases "sp_on a")
  case True
  obtain x y where x: "core_of p d (VObject d) x y w" "payload x = PIoev \<lparr>io_active = True, io_fd = fd, io_events = sp_mask a, io_running = True\<rparr>"
    using ioev_relD [OF r en] True by auto
  then show ?thesis using r True core_ofD(2) [OF x(1)] by (simp add: di_start_ioev_def get_ioev_def get_obj_def spec_start_def)
next
  case False
  obtain x y where x: "core_of p d (VWeak d) x y w" and pl: "payload x = PIoev \<lparr>io_active = False, io_fd = fd, io_events = sp_mask a, io_running = False\<rparr>"
    and y: "unat (ref_count y) = b + sp_starts a" "unat (weak_ref_count y) = k + 1" "0 < b" "0 < k"
    using ioev_relD [OF r en] False by auto
  note D = core_ofD [OF x]
  let ?pl = "PIoev \<lparr>io_active = True, io_fd = fd, io_events = sp_mask a, io_running = True\<rparr>"
  let ?y = "y\<lparr>ref_count := ref_count y + 2, weak_ref_count := weak_ref_count y - 1\<rparr>"
  let ?w = "rebind p d (VObject d) (x\<lparr>payload := ?pl\<rparr>) ?y w"
  have n1: "weak_ref_count y \<noteq> 1" using y(2,4) by auto
  have "di_start_ioev U C p w = Ret ?w"
    using enter_loop [OF x U n1, of ?pl C] y(1) en D(1,2) pl
    by (simp add: di_start_ioev_def get_ioev_def get_obj_def get_deai_weak [OF x U])
  moreover have "unat (ref_count y + 2) = b + Suc (sp_starts a) + 1" "unat (weak_ref_count y - 1) = k"
    using y D(7) unat_plus_of_nat [of "ref_count y" 2] en by (simp_all add: unat_minus_one)
  then have "ioev_rel p d b k fd (spec_start a) ?w"
    using D y(3,4) False by (auto simp: ioev_rel_def core_counts_def rebind_heap with_deai_member member_map_def spec_start_def)
  ultimately show ?thesis by blast
qed

lemma ioev_step:
  assumes r: "ioev_rel p d b k fd a w" and en: "ioev_enabled b k op a"
  shows "\<exists>w'. ioev_run (di_unref_object E (Suc n)) C p op w = Ret w' \<and> ioev_rel p d b k fd (spec_op op a) w'"
proof -
  have room: "b + sp_starts a + 6 < 2 ^ 64" "k + 6 < 2 ^ 64" using en by (simp_all add: ioev_enabled_def)
  note st = stop_ioev_step [OF r room refl] and go = start_ioev_step [OF r room refl]
  obtain x where x: "heap w p = Some x" "payload x = PIoev \<lparr>io_active = sp_on a, io_fd = fd, io_events = sp_mask a, io_running = sp_on a\<rparr>"
    using r by (auto simp: ioev_rel_def)
  show ?thesis
  proof (cases op)
    case Op_toggle
    then show ?thesis using st go x by (simp add: di_toggle_ioev_def get_ioev_def get_obj_def del: di_unref_object.simps)
  next
    case (Op_modify e)
    then show ?thesis using st x r
      by (auto simp: di_modify_ioev_def get_ioev_def get_obj_def put_payload_def ioev_rel_def core_counts_def ioev_flags_mask
          member_map_def simp del: di_unref_object.simps)
  qed (use st go in \<open>auto simp del: di_unref_object.simps\<close>)
qed

interpretation ioev: step_refinement spec_op "ioev_run (di_unref_object E (Suc n)) C p" "ioev_enabled b k" "ioev_rel p d b k fd"
  for E n C p d b k fd
  by unfold_locales (rule ioev_step)

text \<open>
  C20. A descriptor watcher is a machine with two states.  Whatever sequence of \<open>start\<close>, \<open>stop\<close>, \<open>toggle\<close>
  and \<open>modify\<close> is called on it, every call returns, the watcher is part of the loop exactly when the
  machine is on, its mask is the last one set, and its reference to the core is strong exactly while
  it is on.  The counters of the core show the one flaw: every start that takes effect adds a
  reference that is never given back.
\<close>

theorem ioev_refines_machine:
  assumes "ioev_rel p d b k fd a w" and "all_enabled spec_op (ioev_enabled b k) ops a"
  shows "\<exists>w'. fold_res (ioev_run (di_unref_object E (Suc n)) C p) ops w = Ret w' \<and> ioev_rel p d b k fd (fold spec_op ops a) w'"
  by (rule ioev.run [OF assms])

section \<open>Timers\<close>

text \<open>
  A timer needs two flags: whether libev has it, and whether its reference to the core is strong.  They
  differ while \<open>elapsed\<close> is emitted.
\<close>

record timer_spec =
  ts_active :: bool
  ts_strong :: bool
  ts_repeat :: double
  ts_starts :: nat

datatype timer_op = Op_again | Op_timer_stop | Op_set double

definition spec_again :: "timer_spec \<Rightarrow> timer_spec" where
  "spec_again a = (if ts_strong a then a
     else a\<lparr>ts_active := \<not> double_zero (ts_repeat a), ts_strong := True, ts_starts := Suc (ts_starts a)\<rparr>)"

definition spec_off :: "timer_spec \<Rightarrow> timer_spec" where
  "spec_off a = a\<lparr>ts_active := False, ts_strong := False\<rparr>"

fun spec_timer :: "timer_op \<Rightarrow> timer_spec \<Rightarrow> timer_spec" where
  "spec_timer Op_again a = spec_again a"
| "spec_timer Op_timer_stop a = spec_off a"
| "spec_timer (Op_set t) a = spec_again (spec_off a\<lparr>ts_repeat := t\<rparr>)"

fun timer_run :: "drop_fn \<Rightarrow> call_obj \<Rightarrow> oref \<Rightarrow> timer_op \<Rightarrow> world \<Rightarrow> world res" where
  "timer_run U C p Op_again w = di_timer_again U C p w"
| "timer_run U C p Op_timer_stop w = di_timer_stop U C p w"
| "timer_run U C p (Op_set t) w = di_timer_set U C p t w"

definition timer_rel :: "oref \<Rightarrow> oref \<Rightarrow> nat \<Rightarrow> nat \<Rightarrow> nat \<Rightarrow> timer_spec \<Rightarrow> world \<Rightarrow> bool" where
  "timer_rel p d b k c a w \<longleftrightarrow> p \<noteq> d \<and> core_counts d b k (ts_strong a) (ts_starts a) w \<and>
     (\<exists>x. heap w p = Some x \<and> table_ok (members x) \<and> unat (ref_count x) = c \<and>
        payload x = PTimer \<lparr>tm_active = ts_active a, tm_repeat = ts_repeat a\<rparr>) \<and>
     member_map p w ''__deai'' = Some (if ts_strong a then VObject d else VWeak d)"

text \<open>An operation is in order when the flags are not inverted and the counters have room.\<close>

definition timer_enabled :: "nat \<Rightarrow> nat \<Rightarrow> timer_op \<Rightarrow> timer_spec \<Rightarrow> bool" where
  "timer_enabled b k op a \<longleftrightarrow> (ts_active a \<longrightarrow> ts_strong a) \<and> b + ts_starts a + 6 < 2 ^ 64 \<and> k + 6 < 2 ^ 64"

lemma timer_relD:
  assumes "timer_rel p d b k c a w" "b + ts_starts a + 6 < 2 ^ 64" "k + 6 < 2 ^ 64"
  shows "\<exists>x y. core_of p d (if ts_strong a then VObject d else VWeak d) x y w \<and>
    payload x = PTimer \<lparr>tm_active = ts_active a, tm_repeat = ts_repeat a\<rparr> \<and> unat (ref_count x) = c \<and>
    unat (ref_count y) = b + ts_starts a + (if ts_strong a then 1 else 0) \<and> unat (weak_ref_count y) = k + (if ts_strong a then 0 else 1) \<and>
    0 < b \<and> 0 < k"
  using assms by (auto simp: timer_rel_def core_counts_def core_of_def)

lemma timer_again_step:
  assumes r: "timer_rel p d b k c a w" and en: "b + ts_starts a + 6 < 2 ^ 64" "k + 6 < 2 ^ 64" and U: "U = di_unref_object E (Suc n)"
  shows "\<exists>w'. di_timer_again U C p w = Ret w' \<and> timer_rel p d b k c (spec_again a) w'"
proof (cases "ts_strong a")
  case True
  then obtain x y where x: "core_of p d (VObject d) x y w" using timer_relD [OF r en] by auto
  show ?thesis using r True get_deai(4) [OF x U, of C] by (simp add: di_timer_again_def di_object_get_deai_weak_def spec_again_def)
next
  case False
  then obtain x y where x: "core_of p d (VWeak d) x y w" and pl: "payload x = PTimer \<lparr>tm_active = ts_active a, tm_repeat = ts_repeat a\<rparr>"
    and y: "unat (ref_count x) = c" "unat (ref_count y) = b + ts_starts a" "unat (weak_ref_count y) = k + 1" "0 < b" "0 < k"
    using timer_relD [OF r en] by auto
  note D = core_ofD [OF x]
  let ?pl = "PTimer \<lparr>tm_active = \<not> double_zero (ts_repeat a), tm_repeat = ts_repeat a\<rparr>"
  let ?w = "rebind p d (VObject d) (x\<lparr>payload := ?pl\<rparr>) (y\<lparr>ref_count := ref_count y + 2, weak_ref_count := weak_ref_count y - 1\<rparr>) w"
  have n1: "weak_ref_count y \<noteq> 1" using y(3,5) by auto
  have "di_timer_again U C p w = Ret ?w"
    using enter_loop [OF x U n1, of ?pl C] y(2) en D(1,2) pl
    by (simp add: di_timer_again_def get_timer_def get_obj_def get_deai_weak [OF x U] timer_again_watcher_def)
  moreover have "unat (ref_count y + 2) = b + Suc (ts_starts a) + 1" "unat (weak_ref_count y - 1) = k"
    using y D(7) unat_plus_of_nat [of "ref_count y" 2] en by (simp_all add: unat_minus_one)
  then have "timer_rel p d b k c (spec_again a) ?w"
    using D y False by (auto simp: timer_rel_def core_counts_def rebind_heap with_deai_member member_map_def spec_again_def)
  ultimately show ?thesis by blast
qed

lemma timer_stop_step:
  assumes r: "timer_rel p d b k c a w" and en: "b + ts_starts a + 6 < 2 ^ 64" "k + 6 < 2 ^ 64" and U: "U = di_unref_object E (Suc n)"
  shows "if ts_active a \<and> \<not> ts_strong a then di_timer_stop U C p w = Fault (Aborted ''di_timer_stop'')
    else \<exists>w'. di_timer_stop U C p w = Ret w' \<and> timer_rel p d b k c (spec_off a) w'"
proof (cases "ts_strong a")
  case False
  then obtain x y where x: "core_of p d (VWeak d) x y w" "payload x = PTimer \<lparr>tm_active = ts_active a, tm_repeat = ts_repeat a\<rparr>"
    using timer_relD [OF r en] by auto
  have "spec_off a = a" if "\<not> ts_active a" using False that by (cases a) (simp add: spec_off_def)
  then show ?thesis using r x(2) False get_deai(3) [OF x(1) U, of C] core_ofD(2) [OF x(1)]
    by (simp add: di_timer_stop_def di_object_get_deai_strong_def get_timer_def get_obj_def)
next
  case True
  then obtain x y where x: "core_of p d (VObject d) x y w" and pl: "payload x = PTimer \<lparr>tm_active = ts_active a, tm_repeat = ts_repeat a\<rparr>"
    and y: "unat (ref_count x) = c" "unat (ref_count y) = b + ts_starts a + 1" "unat (weak_ref_count y) = k" "0 < b" "0 < k"
    using timer_relD [OF r en] by auto
  note D = core_ofD [OF x]
  let ?pl = "PTimer \<lparr>tm_active = False, tm_repeat = ts_repeat a\<rparr>"
  let ?w = "rebind p d (VWeak d) (x\<lparr>payload := ?pl\<rparr>) (y\<lparr>ref_count := ref_count y - 1, weak_ref_count := weak_ref_count y + 1\<rparr>) w"
  have n1: "ref_count y \<noteq> 1" using y(2,4) by auto
  have "di_timer_stop U C p w = Ret ?w"
    using leave_loop [OF x U n1, of ?pl C] y(2) en D(1,2) pl
    by (simp add: di_timer_stop_def get_timer_def get_obj_def strong_read [OF x U])
  moreover have "unat (ref_count y - 1) = b + ts_starts a" "unat (weak_ref_count y + 1) = k + 1"
    using y D(6) unat_plus_of_nat [of "weak_ref_count y" 1] en by (simp_all add: unat_minus_one)
  then have "timer_rel p d b k c (spec_off a) ?w"
    using D y by (auto simp: timer_rel_def core_counts_def rebind_heap with_deai_member member_map_def spec_off_def)
  ultimately show ?thesis using True by auto
qed

lemma timer_repeat_step:
  assumes "timer_rel p d b k c a w"
  shows "\<exists>tm w'. get_timer p w = Ret tm \<and> put_payload p (PTimer (tm\<lparr>tm_repeat := t\<rparr>)) w = Ret w' \<and> timer_rel p d b k c (a\<lparr>ts_repeat := t\<rparr>) w'"
  using assms by (auto simp: timer_rel_def get_timer_def get_obj_def put_payload_def core_counts_def member_map_def)

lemma timer_step:
  assumes r: "timer_rel p d b k c a w" and en: "timer_enabled b k op a"
  shows "\<exists>w'. timer_run (di_unref_object E (Suc n)) C p op w = Ret w' \<and> timer_rel p d b k c (spec_timer op a) w'"
proof -
  have room: "b + ts_starts a + 6 < 2 ^ 64" "k + 6 < 2 ^ 64" and act: "\<not> (ts_active a \<and> \<not> ts_strong a)"
    using en by (auto simp: timer_enabled_def)
  obtain w1 where w1: "di_timer_stop (di_unref_object E (Suc n)) C p w = Ret w1" "timer_rel p d b k c (spec_off a) w1"
    using timer_stop_step [OF r room refl, of E n C] act by auto
  show ?thesis
  proof (cases op)
    case (Op_set t)
    obtain tm w2 where w2: "get_timer p w1 = Ret tm" "put_payload p (PTimer (tm\<lparr>tm_repeat := t\<rparr>)) w1 = Ret w2"
      "timer_rel p d b k c (spec_off a\<lparr>ts_repeat := t\<rparr>) w2" using timer_repeat_step [OF w1(2), of t] by blast
    have "b + ts_starts (spec_off a\<lparr>ts_repeat := t\<rparr>) + 6 < 2 ^ 64" using room(1) by (simp add: spec_off_def)
    then show ?thesis using timer_again_step [OF w2(3) _ room(2) refl, of E n C] w1 w2 Op_set
      by (simp add: di_timer_set_def del: di_unref_object.simps)
  qed (use timer_again_step [OF r room refl] w1 in \<open>auto simp del: di_unref_object.simps\<close>)
qed

interpretation timer: step_refinement spec_timer "timer_run (di_unref_object E (Suc n)) C p" "timer_enabled b k" "timer_rel p d b k c"
  for E n C p d b k c
  by unfold_locales (rule timer_step)

text \<open>
  C21. Timers.  Any sequence of \<open>again\<close>, \<open>stop\<close> and settings of the timeout, called from outside the
  timer's own signal, returns, and leaves the timer as the machine says: part of the loop only while
  its reference to the core is strong.  \<open>again\<close> on a timer that has such a reference does nothing, so a
  running timer is not restarted.
\<close>

theorem timer_refines_machine:
  assumes "timer_rel p d b k c a w" and "all_enabled spec_timer (timer_enabled b k) ops a"
  shows "\<exists>w'. fold_res (timer_run (di_unref_object E (Suc n)) C p) ops w = Ret w' \<and> timer_rel p d b k c (fold spec_timer ops a) w'"
  by (rule timer.run [OF assms])

text \<open>The world in which \<open>elapsed\<close> is emitted.\<close>

definition expire_world :: "oref \<Rightarrow> oref \<Rightarrow> world \<Rightarrow> world" where
  "expire_world p d w = w\<lparr>heap := (heap w)
     (p := map_option (\<lambda>x. x\<lparr>ref_count := ref_count x + 1,
             payload := (case payload x of PTimer t \<Rightarrow> PTimer (t\<lparr>tm_active := False\<rparr>) | pl \<Rightarrow> pl)\<rparr>) (heap w p),
      d := map_option (\<lambda>y. y\<lparr>ref_count := ref_count y + 1\<rparr>) (heap w d))\<rparr>"

lemma timer_callback_emits:
  assumes r: "timer_rel p d b k c a w" "ts_strong a" and en: "b + ts_starts a + 6 < 2 ^ 64" "k + 6 < 2 ^ 64"
    and c: "0 < c" "c + 1 < 2 ^ 64" and U: "U = di_unref_object E (Suc n)"
  shows "di_timer_callback U C now p w = bind_res (di_emit U C p ''elapsed'' [VFloat now] (expire_world p d w))
      (\<lambda>w4. bind_res (di_object_downgrade_deai U C p w4) (\<lambda>w5. bind_res (U d w5) (U p)))"
    "timer_rel p d (Suc b) k (Suc c) (a\<lparr>ts_active := False\<rparr>) (expire_world p d w)"
proof -
  obtain x y where x: "core_of p d (VObject d) x y w" and pl: "payload x = PTimer \<lparr>tm_active = ts_active a, tm_repeat = ts_repeat a\<rparr>"
    and y: "unat (ref_count x) = c" "unat (ref_count y) = b + ts_starts a + 1" "unat (weak_ref_count y) = k" "0 < b" "0 < k"
    using timer_relD [OF r(1) en] r(2) by auto
  note D = core_ofD [OF x]
  let ?x = "x\<lparr>ref_count := ref_count x + 1\<rparr>" and ?pl = "PTimer \<lparr>tm_active = False, tm_repeat = ts_repeat a\<rparr>"
  have x1: "core_of p d (VObject d) ?x y (put_obj p ?x w)" using D by (auto simp: core_of_def member_map_def)
  have e: "put_obj p (?x\<lparr>payload := ?pl\<rparr>) (put_obj d (y\<lparr>ref_count := ref_count y + 1\<rparr>) (put_obj p ?x w)) = expire_world p d w"
    using D(1-3) pl by (simp add: put_obj_def expire_world_def fun_upd_twist)
  show "di_timer_callback U C now p w = bind_res (di_emit U C p ''elapsed'' [VFloat now] (expire_world p d w))
      (\<lambda>w4. bind_res (di_object_downgrade_deai U C p w4) (\<lambda>w5. bind_res (U d w5) (U p)))"
    using D(1-3) pl e by (simp add: di_timer_callback_def di_ref_object_def get_obj_def strong_read [OF x1 U] get_timer_def put_payload_def)
  have "unat (ref_count x + 1) = Suc c" "unat (ref_count y + 1) = Suc b + ts_starts a + 1"
    using y unat_plus_of_nat [of "ref_count x" 1] unat_plus_of_nat [of "ref_count y" 1] en c by simp_all
  then show "timer_rel p d (Suc b) k (Suc c) (a\<lparr>ts_active := False\<rparr>) (expire_world p d w)"
    using D y r(2) pl by (auto simp: timer_rel_def core_counts_def expire_world_def member_map_def)
qed

lemma timer_downgrade_step:
  assumes r: "timer_rel p d b k c a w" and en: "b + ts_starts a + 6 < 2 ^ 64" "k + 6 < 2 ^ 64" and U: "U = di_unref_object E (Suc n)"
  shows "\<exists>w'. di_object_downgrade_deai U C p w = Ret w' \<and> timer_rel p d b k c (a\<lparr>ts_strong := False\<rparr>) w'"
proof (cases "ts_strong a")
  case False
  then obtain x y where x: "core_of p d (VWeak d) x y w" using timer_relD [OF r en] by auto
  have "a\<lparr>ts_strong := False\<rparr> = a" using False by (cases a) simp
  then show ?thesis using r get_deai(3) [OF x U, of C] by (simp add: di_object_downgrade_deai_def)
next
  case True
  then obtain x y where x: "core_of p d (VObject d) x y w" and pl: "payload x = PTimer \<lparr>tm_active = ts_active a, tm_repeat = ts_repeat a\<rparr>"
    and y: "unat (ref_count x) = c" "unat (ref_count y) = b + ts_starts a + 1" "unat (weak_ref_count y) = k" "0 < b" "0 < k"
    using timer_relD [OF r en] by auto
  note D = core_ofD [OF x]
  have "ref_count y \<noteq> 1" using y(2,4) by auto
  moreover have "unat (ref_count y - 1) = b + ts_starts a" "unat (weak_ref_count y + 1) = k + 1"
    using y D(6) unat_plus_of_nat [of "weak_ref_count y" 1] en by (simp_all add: unat_minus_one)
  ultimately show ?thesis using downgrade_deai [OF x U, of C] D y pl
    by (auto simp: timer_rel_def core_counts_def rebind_heap with_deai_member member_map_def)
qed

lemma timer_release_step:
  assumes r: "timer_rel p d (Suc b) k (Suc c) a w" and b: "0 < b" "0 < c" and U: "U = di_unref_object E (Suc n)"
  shows "\<exists>w'. bind_res (U d w) (U p) = Ret w' \<and> timer_rel p d b k c a w'"
proof -
  obtain x y where x: "heap w p = Some x" "heap w d = Some y" "p \<noteq> d" "unat (ref_count x) = Suc c"
    "unat (ref_count y) = Suc b + ts_starts a + (if ts_strong a then 1 else 0)"
    using r by (auto simp: timer_rel_def core_counts_def)
  have y: "ref_count y \<noteq> 0" "ref_count y \<noteq> 1" "ref_count x \<noteq> 0" "ref_count x \<noteq> 1" using x(4,5) b by auto
  let ?w1 = "put_obj d (y\<lparr>ref_count := ref_count y - 1\<rparr>) w" and ?x = "x\<lparr>ref_count := ref_count x - 1\<rparr>"
  have "U d w = Ret ?w1" "U p ?w1 = Ret (put_obj p ?x ?w1)"
    unfolding U using unref_shared [OF x(2) y(1,2), of E n] unref_shared [of ?w1 p x E n] x(1,3) y(3,4) by simp_all
  moreover have "unat (ref_count y - 1) = b + ts_starts a + (if ts_strong a then 1 else 0)" "unat (ref_count x - 1) = c"
    using x(4,5) y by (simp_all add: unat_minus_one)
  then have "timer_rel p d b k c a (put_obj p ?x ?w1)"
    using r b x by (auto simp: timer_rel_def core_counts_def member_map_def)
  ultimately show ?thesis by simp
qed

lemma timer_inverted:
  assumes r: "timer_rel p d b k c a w" "ts_active a" "\<not> ts_strong a" and en: "b + ts_starts a + 6 < 2 ^ 64" "k + 6 < 2 ^ 64"
    and U: "U = di_unref_object E (Suc n)"
  shows "di_timer_callback U C now p w = Fault (Aborted ''di_timer_callback'')" "di_timer_stop U C p w = Fault (Aborted ''di_timer_stop'')"
proof -
  obtain x y where x: "core_of p d (VWeak d) x y w" using timer_relD [OF r(1) en] r(3) by auto
  note D = core_ofD [OF x]
  let ?x = "x\<lparr>ref_count := ref_count x + 1\<rparr>"
  have x1: "core_of p d (VWeak d) ?x y (put_obj p ?x w)" using D by (auto simp: core_of_def member_map_def)
  show "di_timer_callback U C now p w = Fault (Aborted ''di_timer_callback'')"
    using D(2) get_deai(3) [OF x1 U, of C] by (simp add: di_timer_callback_def di_ref_object_def get_obj_def di_object_get_deai_strong_def)
  show "di_timer_stop U C p w = Fault (Aborted ''di_timer_stop'')"
    using timer_stop_step [OF r(1) en U, of C] r(2,3) by simp
qed

text \<open>
  C22. A timer expires.  The listeners run operations \<open>ops\<close> on the timer while \<open>elapsed\<close> is emitted.  The
  callback returns and leaves the timer with a weak reference to the core; \<open>again\<close> in a listener has no
  effect.  But when the listeners set a new timeout the timer is part of the loop at that point, and
  the next expiry, or a stop, aborts the program.
\<close>

theorem timer_expires:
  assumes r: "timer_rel p d b k c a w" "ts_strong a" and c: "0 < c" "c + 1 < 2 ^ 64" and U: "U = di_unref_object E (Suc n)"
    and a': "a' = fold spec_timer ops (a\<lparr>ts_active := False\<rparr>)"
    and emit: "di_emit U C p ''elapsed'' [VFloat now] (expire_world p d w) = Ret w4" "timer_rel p d (Suc b) k (Suc c) a' w4"
    and en: "b + ts_starts a + 7 < 2 ^ 64" "b + ts_starts a' + 7 < 2 ^ 64" "k + 6 < 2 ^ 64"
  shows "\<exists>w'. di_timer_callback U C now p w = Ret w' \<and> timer_rel p d b k c (a'\<lparr>ts_strong := False\<rparr>) w' \<and>
    (ts_active a' \<longrightarrow> di_timer_callback U C later p w' = Fault (Aborted ''di_timer_callback'') \<and>
       di_timer_stop U C p w' = Fault (Aborted ''di_timer_stop''))"
proof -
  have b: "0 < b" using r(1) by (auto simp: timer_rel_def core_counts_def)
  obtain w5 where w5: "di_object_downgrade_deai U C p w4 = Ret w5" "timer_rel p d (Suc b) k (Suc c) (a'\<lparr>ts_strong := False\<rparr>) w5"
    using timer_downgrade_step [OF emit(2) _ _ U, of C] en by auto
  obtain w' where w': "bind_res (U d w5) (U p) = Ret w'" "timer_rel p d b k c (a'\<lparr>ts_strong := False\<rparr>) w'"
    using timer_release_step [OF w5(2) b c(1) U] by blast
  have "di_timer_callback U C now p w = Ret w'"
    using timer_callback_emits(1) [OF r _ en(3) c U, of C now] en(1) emit(1) w5(1) w'(1) by simp
  moreover have "ts_active a' \<longrightarrow> di_timer_callback U C later p w' = Fault (Aborted ''di_timer_callback'') \<and>
      di_timer_stop U C p w' = Fault (Aborted ''di_timer_stop'')"
    using timer_inverted(1) [OF w'(2) _ _ _ en(3) U, of C later] timer_inverted(2) [OF w'(2) _ _ _ en(3) U, of C] en(2) by simp
  ultimately show ?thesis using w'(2) by blast
qed

end
