(* ===== verification/EventExamples.thy ===== *)
theory EventExamples
  imports Event SpawnExamples
begin

text \<open>
  The properties of the event module at concrete heaps: a watcher or a timer at address 1, the core at
  address 2, and a listener of the timer, a handle at address 3 with its handler at address 4, that sets
  a new timeout.
\<close>

definition core_object :: di_object_internal where
  "core_object = empty_object\<lparr>weak_ref_count := 2\<rparr>"

definition stopped_ioev :: di_object_internal where
  "stopped_ioev = empty_object\<lparr>members := [(''__deai'', \<lparr>m_addr = 5, m_val = VWeak 2\<rparr>)],
     payload := PIoev \<lparr>io_active = False, io_fd = 7, io_events = 1, io_running = False\<rparr>\<rparr>"

definition ioev_world :: world where
  "ioev_world = \<lparr>heap = [1 \<mapsto> stopped_ioev, 2 \<mapsto> core_object], sigs = Map.empty, next_addr = 6, all_objects = [1, 2], log_lines = []\<rparr>"

lemma ioev_world_rel: "ioev_rel 1 2 1 1 7 \<lparr>sp_on = False, sp_mask = 1, sp_starts = 0\<rparr> ioev_world"
  by (simp add: ioev_rel_def core_counts_def ioev_world_def stopped_ioev_def core_object_def empty_object_def member_map_def)

theorem ioev_refines_machine_witness:
  "\<exists>w'. fold_res (ioev_run (di_unref_object plain_ext 1) (obj_call plain_ext 1) 1)
      [Op_start, Op_modify 6, Op_toggle, Op_start] ioev_world = Ret w' \<and>
    ioev_rel 1 2 1 1 7 \<lparr>sp_on = True, sp_mask = 2, sp_starts = Suc (Suc 0)\<rparr> w'"
proof -
  have "all_enabled spec_op (ioev_enabled 1 1) [Op_start, Op_modify 6, Op_toggle, Op_start] \<lparr>sp_on = False, sp_mask = 1, sp_starts = 0\<rparr>"
    by (simp add: ioev_enabled_def spec_start_def)
  from ioev_refines_machine [OF ioev_world_rel this, of plain_ext 0 "obj_call plain_ext 1"] show ?thesis
    by (simp add: spec_start_def del: di_unref_object.simps fold_res.simps)
qed

definition stopped_timer :: di_object_internal where
  "stopped_timer = empty_object\<lparr>members := [(''__deai'', \<lparr>m_addr = 5, m_val = VWeak 2\<rparr>)],
     payload := PTimer \<lparr>tm_active = False, tm_repeat = Finite 3 0\<rparr>\<rparr>"

definition timer_world :: world where
  "timer_world = ioev_world\<lparr>heap := (heap ioev_world)(1 \<mapsto> stopped_timer)\<rparr>"

lemma timer_world_rel: "timer_rel 1 2 1 1 1 \<lparr>ts_active = False, ts_strong = False, ts_repeat = Finite 3 0, ts_starts = 0\<rparr> timer_world"
  by (simp add: timer_rel_def core_counts_def timer_world_def ioev_world_def stopped_timer_def core_object_def empty_object_def member_map_def)

theorem timer_refines_machine_witness:
  "\<exists>w'. fold_res (timer_run (di_unref_object plain_ext 1) (obj_call plain_ext 1) 1)
      [Op_again, Op_again, Op_timer_stop, Op_set (Finite 5 0)] timer_world = Ret w' \<and>
    timer_rel 1 2 1 1 1 \<lparr>ts_active = True, ts_strong = True, ts_repeat = Finite 5 0, ts_starts = Suc (Suc 0)\<rparr> w'"
proof -
  have "all_enabled spec_timer (timer_enabled 1 1) [Op_again, Op_again, Op_timer_stop, Op_set (Finite 5 0)]
      \<lparr>ts_active = False, ts_strong = False, ts_repeat = Finite 3 0, ts_starts = 0\<rparr>"
    by (simp add: timer_enabled_def spec_again_def spec_off_def double_zero_def)
  from timer_refines_machine [OF timer_world_rel this, of plain_ext 0 "obj_call plain_ext 1"] show ?thesis
    by (simp add: spec_again_def spec_off_def double_zero_def del: di_unref_object.simps fold_res.simps)
qed

definition running_timer :: di_object_internal where
  "running_timer = empty_object\<lparr>members := [(''__deai'', \<lparr>m_addr = 5, m_val = VObject 2\<rparr>)], signals := [(''elapsed'', 10)],
     weak_ref_count := 2, payload := PTimer \<lparr>tm_active = True, tm_repeat = Finite 3 0\<rparr>\<rparr>"

definition expiring_world :: world where
  "expiring_world = \<lparr>heap = [1 \<mapsto> running_timer, 2 \<mapsto> empty_object\<lparr>ref_count := 2\<rparr>,
       3 \<mapsto> empty_object\<lparr>members := [(''__handler'', \<lparr>m_addr = 6, m_val = VObject 4\<rparr>)], weak_ref_count := 2\<rparr>,
       4 \<mapsto> empty_object\<lparr>call := Some (Call_ext 0)\<rparr>],
     sigs = [10 \<mapsto> \<lparr>sig_name = ''elapsed'', nlisteners = 1, owner = 1, listeners = [3]\<rparr>],
     next_addr = 11, all_objects = [1, 2, 3, 4], log_lines = []\<rparr>"

text \<open>The only callable object is the handler; it sets the timeout to five seconds.\<close>

definition set_listener :: call_obj where
  "set_listener h args w = bind_res (di_timer_set drop_ref call_ref 1 (Finite 5 0) w) (\<lambda>w'. Ret (Inr VNil, w'))"

lemma expiring_world_rel:
  "timer_rel 1 2 1 1 1 \<lparr>ts_active = True, ts_strong = True, ts_repeat = Finite 3 0, ts_starts = 0\<rparr> expiring_world"
  by (simp add: timer_rel_def core_counts_def expiring_world_def running_timer_def empty_object_def member_map_def)

lemma set_in_listener:
  "\<exists>w4. di_emit drop_ref set_listener 1 ''elapsed'' [VFloat (Finite 9 0)] (expire_world 1 2 expiring_world) = Ret w4 \<and>
    timer_rel 1 2 (Suc 1) 1 (Suc 1) \<lparr>ts_active = True, ts_strong = True, ts_repeat = Finite 5 0, ts_starts = 1\<rparr> w4"
  by (simp add: di_emit_def di_emitn_def run_simps expire_world_def expiring_world_def running_timer_def get_sig_def
      emit_one_def drop_ref_def unref_step_def di_call_objectt_def set_listener_def di_timer_set_def di_timer_stop_def
      get_timer_def put_payload_def di_object_downgrade_deai_def di_timer_again_def di_object_upgrade_deai_def
      timer_again_watcher_def double_zero_def timer_rel_def core_counts_def member_map_def)

theorem timer_expires_witness:
  "\<exists>w'. di_timer_callback drop_ref set_listener (Finite 9 0) 1 expiring_world = Ret w' \<and>
    timer_rel 1 2 1 1 1 \<lparr>ts_active = True, ts_strong = False, ts_repeat = Finite 5 0, ts_starts = 1\<rparr> w' \<and>
    di_timer_callback drop_ref set_listener (Finite 14 0) 1 w' = Fault (Aborted ''di_timer_callback'') \<and>
    di_timer_stop drop_ref set_listener 1 w' = Fault (Aborted ''di_timer_stop'')"
proof -
  obtain w4 where w4: "di_emit drop_ref set_listener 1 ''elapsed'' [VFloat (Finite 9 0)] (expire_world 1 2 expiring_world) = Ret w4"
    "timer_rel 1 2 (Suc 1) 1 (Suc 1) \<lparr>ts_active = True, ts_strong = True, ts_repeat = Finite 5 0, ts_starts = 1\<rparr> w4"
    using set_in_listener by blast
  have "drop_ref = di_unref_object plain_ext (Suc 0)" by (simp add: drop_ref_def)
  from timer_expires [OF expiring_world_rel _ _ _ this, of "\<lparr>ts_active = True, ts_strong = True, ts_repeat = Finite 5 0, ts_starts = 1\<rparr>"
      "[Op_set (Finite 5 0)]" set_listener "Finite 9 0" w4 "Finite 14 0"] w4
  show ?thesis by (simp add: spec_again_def spec_off_def double_zero_def)
qed

end
