(* ===== verification/Lua.thy ===== *)
theory Lua
  imports Core Signals
begin

text \<open>
  The Lua plugin \<open>plugins/lua/lua.c\<close>.  Values cross between Lua and the object system in both directions,
  objects are handed to scripts as proxies of which there is one per object, and scripts listen to
  signals through listen handles kept alive as roots.

  The Lua state is the payload of the object \<open>s\<close> (\<open>struct di_lua_state\<close>).  An index of the stack counts
  from the bottom when positive and from the top when negative.  \<open>lua_host\<close> holds what the plugin
  relies on: the numbers of the C functions, the choice of a free reference in the registry by
  \<open>luaL_ref\<close>, \<open>lua_pcall\<close>, which runs Lua code, and what the interpreter makes of a number that is pushed.
  A number on the stack is \<open>LInt\<close> when \<open>lua_isinteger\<close> says so.  On Lua 5.3 that is its type: \<open>lh_integer\<close> and \<open>lh_number\<close> are
  \<open>LInt\<close> and \<open>LNum\<close>.  Older interpreters have floating point numbers only, and \<open>compat.c\<close> decides by the value.
\<close>

record lua_host =
  lh_fn :: "string \<Rightarrow> nat"
  lh_ref :: "(int \<Rightarrow> lua_reg option) \<Rightarrow> int"
  lh_integer :: "64 word \<Rightarrow> lua_val"
  lh_number :: "double \<Rightarrow> lua_val"
  lh_pcall :: "oref \<Rightarrow> lua_val \<Rightarrow> lua_val list \<Rightarrow> world \<Rightarrow> ((lua_val + lua_val) \<times> world) res"

datatype lua_result = LReturn nat | LError string

section \<open>The Lua state\<close>

definition get_lua :: "oref \<Rightarrow> world \<Rightarrow> lua_state res" where
  "get_lua s w = bind_res (get_obj s w) (\<lambda>x. case payload x of PLuaState l \<Rightarrow> Ret l | _ \<Rightarrow> Fault Type_Confusion)"

definition put_lua :: "oref \<Rightarrow> lua_state \<Rightarrow> world \<Rightarrow> world res" where
  "put_lua s l w = put_payload s (PLuaState l) w"

definition lpush :: "lua_val \<Rightarrow> lua_state \<Rightarrow> lua_state" where
  "lpush v l = l\<lparr>lstack := v # lstack l\<rparr>"

definition lpop :: "nat \<Rightarrow> lua_state \<Rightarrow> lua_state" where
  "lpop n l = l\<lparr>lstack := drop n (lstack l)\<rparr>"

definition lindex :: "int \<Rightarrow> lua_state \<Rightarrow> lua_val" where
  "lindex i l =
     (let st = lstack l in
      if 0 < i \<and> nat i \<le> length st then st ! (length st - nat i)
      else if i < 0 \<and> nat (- i) \<le> length st then st ! (nat (- i) - 1) else LNil)"

text \<open>An index with no value on the stack; \<open>lindex\<close> reads a nil there.\<close>

definition lua_isnone :: "int \<Rightarrow> lua_state \<Rightarrow> bool" where
  "lua_isnone i l \<longleftrightarrow> i = 0 \<or> int (length (lstack l)) < \<bar>i\<bar>"

definition upd_lua :: "(lua_state \<Rightarrow> lua_state) \<Rightarrow> oref \<Rightarrow> world \<Rightarrow> world res" where
  "upd_lua f s w = bind_res (get_lua s w) (\<lambda>l. put_lua s (f l) w)"

text \<open>The items of the table at an index; the API does not check that there is a table.\<close>

definition table_at :: "int \<Rightarrow> lua_state \<Rightarrow> lua_table res" where
  "table_at i l =
     (case lindex i l of
        LTable t \<Rightarrow> (case ltables l t of Some tb \<Rightarrow> Ret tb | None \<Rightarrow> Fault (Use_After_Free t))
      | _ \<Rightarrow> Fault Type_Confusion)"

definition rawgeti :: "nat \<Rightarrow> lua_table \<Rightarrow> lua_val" where
  "rawgeti i tb = (case hash_find (LInt (of_nat i)) (lt_items tb) of Some v \<Rightarrow> v | None \<Rightarrow> LNil)"

text \<open>\<open>lua_rawseti(L, -2, i)\<close>: the value on top goes into the table below it.\<close>

definition rawseti :: "nat \<Rightarrow> lua_state \<Rightarrow> lua_state res" where
  "rawseti i l =
     (case lstack l of
        v # LTable t # st \<Rightarrow> (case ltables l t of
          Some tb \<Rightarrow>
            let key = LInt (of_nat i); items = lt_items tb;
                items' = (if v = LNil then hash_del key items
                          else if hash_find key items = None then hash_add key v items else hash_set key v items)
            in Ret (l\<lparr>lstack := LTable t # st, ltables := (ltables l)(t \<mapsto> tb\<lparr>lt_items := items'\<rparr>)\<rparr>)
        | None \<Rightarrow> Fault (Use_After_Free t))
      | _ \<Rightarrow> Fault Type_Confusion)"

text \<open>
  \<open>di_lua_isproxy\<close> always pops two values, also when it has not pushed any: for a value that is not a
  userdata and for one without a metatable.
\<close>

definition di_lua_isproxy :: "int \<Rightarrow> lua_state \<Rightarrow> bool \<times> lua_state" where
  "di_lua_isproxy i l =
     (case lindex i l of
        LUser u \<Rightarrow> (case lusers l u of
            None \<Rightarrow> (False, lpop 2 l)
          | Some (Foreign False) \<Rightarrow> (False, lpop 2 l)
          | Some (Foreign True) \<Rightarrow> (False, l)
          | Some _ \<Rightarrow> (True, l))
      | _ \<Rightarrow> (False, lpop 2 l))"

text \<open>\<open>di_lua_checkproxy\<close>: the pointer inside a proxy, or the error of \<open>luaL_argerror\<close>.\<close>

definition di_lua_checkproxy :: "int \<Rightarrow> lua_state \<Rightarrow> lua_user option" where
  "di_lua_checkproxy i l =
     (if fst (di_lua_isproxy i l) then (case lindex i l of LUser u \<Rightarrow> lusers l u | _ \<Rightarrow> None) else None)"

text \<open>\<open>luaL_ref\<close> pops the value; nil has the reference -1.\<close>

definition luaL_ref :: "lua_host \<Rightarrow> lua_state \<Rightarrow> int \<times> lua_state" where
  "luaL_ref H l =
     (let v = lindex (-1) l; l1 = lpop 1 l in
      if v = LNil then (-1, l1)
      else let r = lh_ref H (lregistry l) in (r, l1\<lparr>lregistry := (lregistry l)(r \<mapsto> Reg_strong v)\<rparr>))"

definition luaL_unref :: "int \<Rightarrow> lua_state \<Rightarrow> lua_state" where
  "luaL_unref r l = (if r < 0 then l else l\<lparr>lregistry := (lregistry l)(r := None)\<rparr>)"

definition registry_value :: "int \<Rightarrow> lua_state \<Rightarrow> lua_val" where
  "registry_value r l = (case lregistry l r of Some (Reg_strong v) \<Rightarrow> v | _ \<Rightarrow> LNil)"

section \<open>From Lua to values\<close>

text \<open>
  \<open>lua_type_to_di_object\<close>: an object that stands for a Lua value.  The value is not looked up at the index
  the caller converts: \<open>luaL_ref\<close> takes the one on top of the stack.
\<close>

definition lua_type_to_di_object :: "lua_host \<Rightarrow> drop_fn \<Rightarrow> oref \<Rightarrow> call_fn option \<Rightarrow> world \<Rightarrow> (oref \<times> world) res" where
  "lua_type_to_di_object H U s cl w =
     bind_res (get_lua s w) (\<lambda>l.
       let script = lscript l; (p, w1) = alloc_object w in
       bind_res (di_set_type U p ''deai.plugin.lua:LuaRef'' w1) (\<lambda>(_, w2).
         let (r, l1) = luaL_ref H l in
         bind_res (put_lua s l1 w2) (\<lambda>w3.
           bind_res (put_payload p (PLuaRef r) w3) (\<lambda>w4.
             bind_res (di_add_member_clonev U p (Some ''___di_lua_script'') (VObject script) w4) (\<lambda>(_, w5).
               bind_res (put_lua s (lpush (registry_value r l1) l1) w5) (\<lambda>w6.
                 let (g, w7) = alloc_object w6 in
                 bind_res (di_set_object_call g (Some (Call_ext (lh_fn H ''di_lua_di_getter''))) w7) (\<lambda>w8.
                   bind_res (di_add_member_move U p (Some ''__get'') (VObject g) w8) (\<lambda>(_, w9).
                     bind_res (di_set_object_dtor p (Some (Dtor_ext (lh_fn H ''lua_ref_dtor''))) w9) (\<lambda>w10.
                       bind_res (di_set_object_call p cl w10) (\<lambda>w11. Ret (p, w11)))))))))))"

text \<open>
  The conversion of one value.  \<open>conv s i want\<close> gives the return code, the type and, when \<open>want\<close> says
  that there is a place for it, the value.
\<close>

type_synonym lua_conv = "oref \<Rightarrow> int \<Rightarrow> bool \<Rightarrow> world \<Rightarrow> ((errno option \<times> di_type \<times> di_value) \<times> world) res"

text \<open>One element of a table: pushed, converted with its value, freed.\<close>

definition element_type :: "lua_conv \<Rightarrow> drop_fn \<Rightarrow> oref \<Rightarrow> int \<Rightarrow> nat \<Rightarrow> world \<Rightarrow> (di_type \<times> world) res" where
  "element_type conv U s i k w =
     bind_res (get_lua s w) (\<lambda>l. bind_res (table_at i l) (\<lambda>tb.
       bind_res (put_lua s (lpush (rawgeti k tb) l) w) (\<lambda>w1.
         bind_res (conv s (-1) True w1) (\<lambda>((_, t, v), w2).
           bind_res (di_free_value U v w2) (\<lambda>w3. Ret (t, w3))))))"

definition join_type :: "di_type \<Rightarrow> di_type \<Rightarrow> di_type option" where
  "join_type elemt t =
     (if t = elemt then Some elemt
      else if t = DI_TYPE_FLOAT \<and> elemt = DI_TYPE_INT then Some DI_TYPE_FLOAT
      else if t \<noteq> DI_TYPE_INT \<or> elemt \<noteq> DI_TYPE_FLOAT then None else Some elemt)"

text \<open>
  The loop of \<open>di_lua_checkarray\<close>.  On top of the stack is the key of \<open>lua_next\<close>; \<open>items\<close> are those that
  \<open>lua_next\<close> has not visited.
\<close>

fun checkarray_loop ::
  "lua_conv \<Rightarrow> drop_fn \<Rightarrow> oref \<Rightarrow> int \<Rightarrow> nat \<Rightarrow> di_type \<Rightarrow> (lua_val \<times> lua_val) list \<Rightarrow> world \<Rightarrow>
   ((bool \<times> nat \<times> di_type) \<times> world) res" where
  "checkarray_loop conv U s i k elemt [] w =
     bind_res (upd_lua (lpop 1) s w) (\<lambda>w1. Ret ((True, k - 1, elemt), w1))"
| "checkarray_loop conv U s i k elemt ((key, v) # items) w =
     bind_res (upd_lua (\<lambda>l. lpush v (lpush key (lpop 1 l))) s w) (\<lambda>w1.
       bind_res (element_type conv U s i k w1) (\<lambda>(t, w2).
         bind_res (upd_lua (lpop 2) s w2) (\<lambda>w3.
           case join_type elemt t of
             None \<Rightarrow> bind_res (upd_lua (lpop 1) s w3) (\<lambda>w4. Ret ((False, k, elemt), w4))
           | Some elemt' \<Rightarrow>
              if Suc k = 2147483647
              then bind_res (upd_lua (lpop 1) s w3) (\<lambda>w4. Ret ((True, k, elemt'), w4))
              else checkarray_loop conv U s i (Suc k) elemt' items w3)))"

text \<open>
  \<open>di_lua_checkarray\<close>: whether the table is an array, its length, its element type.  The nil that starts
  \<open>lua_next\<close> is pushed before the index is used, so an index relative to the top misses the table.
\<close>

definition di_lua_checkarray :: "lua_conv \<Rightarrow> drop_fn \<Rightarrow> oref \<Rightarrow> int \<Rightarrow> world \<Rightarrow> ((bool \<times> nat \<times> di_type) \<times> world) res" where
  "di_lua_checkarray conv U s i w =
     bind_res (get_lua s w) (\<lambda>l.
       bind_res (table_at i (lpush LNil l)) (\<lambda>tb.
         case lt_items tb of
           [] \<Rightarrow> Ret ((True, 0, DI_TYPE_ANY), w)
         | (key, v) # items \<Rightarrow>
             bind_res (put_lua s (lpush v (lpush key l)) w) (\<lambda>w1.
               bind_res (element_type conv U s i 1 w1) (\<lambda>(elemt, w2).
                 bind_res (upd_lua (lpop 2) s w2) (\<lambda>w3.
                   if elemt = DI_TYPE_NIL
                   then bind_res (upd_lua (lpop 1) s w3) (\<lambda>w4. Ret ((False, 0, elemt), w4))
                   else checkarray_loop conv U s i 2 elemt items w3)))))"

text \<open>\<open>di_lua_table_to_array\<close>, with the conversion of integers among floats.\<close>

definition array_element :: "di_type \<Rightarrow> di_type \<Rightarrow> di_value \<Rightarrow> di_value res" where
  "array_element elemt t v =
     (if t \<noteq> elemt
      then assert_res (t = DI_TYPE_INT \<and> elemt = DI_TYPE_FLOAT) ''di_lua_table_to_array''
        (case v of VInt n \<Rightarrow> Ret (VFloat (int_to_double (sint n))) | _ \<Rightarrow> Fault Type_Confusion)
      else Ret v)"

fun table_elements :: "lua_conv \<Rightarrow> oref \<Rightarrow> int \<Rightarrow> di_type \<Rightarrow> nat list \<Rightarrow> world \<Rightarrow> (di_value list \<times> world) res" where
  "table_elements conv s i elemt [] w = Ret ([], w)"
| "table_elements conv s i elemt (k # ks) w =
     bind_res (get_lua s w) (\<lambda>l. bind_res (table_at i l) (\<lambda>tb.
       bind_res (put_lua s (lpush (rawgeti k tb) l) w) (\<lambda>w1.
         bind_res (conv s (-1) True w1) (\<lambda>((_, t, v), w2).
           bind_res (upd_lua (lpop 1) s w2) (\<lambda>w3.
             bind_res (array_element elemt t v) (\<lambda>v'.
               bind_res (table_elements conv s i elemt ks w3) (\<lambda>(vs, w4). Ret (v' # vs, w4))))))))"

definition di_lua_table_to_array :: "lua_conv \<Rightarrow> oref \<Rightarrow> int \<Rightarrow> nat \<Rightarrow> di_type \<Rightarrow> world \<Rightarrow> (di_value \<times> world) res" where
  "di_lua_table_to_array conv s i nelem elemt w =
     bind_res (di_sizeof_type elemt) (\<lambda>sz.
       assert_res (sz \<noteq> 0 \<or> nelem = 0) ''di_lua_table_to_array''
         (bind_res (table_elements conv s i elemt [1..<Suc nelem] w) (\<lambda>(vs, w1). Ret (VArray elemt (Some vs), w1))))"

text \<open>The pointer inside a proxy, taken as an object whatever the proxy is.\<close>

definition proxy_ref :: "lua_user \<Rightarrow> world \<Rightarrow> (di_value \<times> world) res" where
  "proxy_ref u w =
     (case u of
        Proxy_object p n \<Rightarrow> bind_res (di_ref_object p w) (\<lambda>w1. Ret (VObject p, w1))
      | Proxy_weak p \<Rightarrow> bind_res (di_ref_object p w) (\<lambda>w1. Ret (VObject p, w1))
      | _ \<Rightarrow> Fault Type_Confusion)"

text \<open>\<open>di_lua_type_to_di\<close>; the fuel bounds the nesting of tables.\<close>

fun di_lua_type_to_di :: "lua_host \<Rightarrow> nat \<Rightarrow> drop_fn \<Rightarrow> lua_conv" where
  "di_lua_type_to_di H 0 U s i want w = Fault OutOfFuel"
| "di_lua_type_to_di H (Suc n) U s i want w =
     bind_res (get_lua s w) (\<lambda>l.
       let ret = (\<lambda>t v. Ret ((None, t, if want then v else VNil), w)) in
       case lindex i l of
         LBool b \<Rightarrow> ret DI_TYPE_BOOL (VBool b)
       | LInt k \<Rightarrow> ret DI_TYPE_INT (VInt k)
       | LNum d \<Rightarrow> ret DI_TYPE_FLOAT (VFloat d)
       | LStr str \<Rightarrow> ret DI_TYPE_STRING (VString (di_string_ndup str (length str)))
       | LUser u \<Rightarrow>
           (case di_lua_isproxy i l of
              (False, l1) \<Rightarrow> bind_res (put_lua s l1 w) (\<lambda>w1. Ret ((Some ENOTSUP, DI_TYPE_NIL, VNil), w1))
            | (True, l1) \<Rightarrow>
                if want then (case lusers l u of
                    None \<Rightarrow> Fault (Use_After_Free u)
                  | Some us \<Rightarrow> bind_res (proxy_ref us w) (\<lambda>(v, w1). Ret ((None, DI_TYPE_OBJECT, v), w1)))
                else Ret ((None, DI_TYPE_OBJECT, VNil), w))
       | LTable t \<Rightarrow>
           bind_res (table_at i l) (\<lambda>tb.
             bind_res (di_lua_checkarray (di_lua_type_to_di H n U) U s i w) (\<lambda>((ok, nelem, elemt), w1).
               if \<not> ok \<or> lt_meta tb then
                 if want then bind_res (lua_type_to_di_object H U s None w1) (\<lambda>(p, w2). Ret ((None, DI_TYPE_OBJECT, VObject p), w2))
                 else Ret ((None, DI_TYPE_OBJECT, VNil), w1)
               else if nelem = 0 then
                 assert_res (elemt = DI_TYPE_ANY) ''di_lua_type_to_di'' (Ret ((None, DI_TYPE_NIL, VNil), w1))
               else if want then
                 bind_res (di_lua_table_to_array (di_lua_type_to_di H n U) s i nelem elemt w1) (\<lambda>(v, w2).
                   Ret ((None, DI_TYPE_ARRAY, v), w2))
               else Ret ((None, DI_TYPE_ARRAY, VNil), w1)))
       | LNil \<Rightarrow> if lua_isnone i l then Ret ((Some ENOTSUP, DI_TYPE_NIL, VNil), w) else ret DI_TYPE_NIL VNil
       | LLight _ \<Rightarrow> Ret ((Some ENOTSUP, DI_TYPE_NIL, VNil), w)
       | _ \<Rightarrow>
           if want then bind_res (lua_type_to_di_object H U s (Some (Call_ext (lh_fn H ''call_lua_function''))) w) (\<lambda>(p, w1).
             Ret ((None, DI_TYPE_OBJECT, VObject p), w1))
           else Ret ((None, DI_TYPE_OBJECT, VNil), w))"

text \<open>\<open>di_lua_type_to_di_variant\<close> converts twice: for the size, then for the value.\<close>

definition di_lua_type_to_di_variant :: "lua_conv \<Rightarrow> oref \<Rightarrow> int \<Rightarrow> world \<Rightarrow> (di_value outcome \<times> world) res" where
  "di_lua_type_to_di_variant conv s i w =
     bind_res (conv s i False w) (\<lambda>((rc, t, _), w1).
       case rc of
         Some e \<Rightarrow> Ret (Inl e, w1)
       | None \<Rightarrow> bind_res (di_sizeof_type t) (\<lambda>_. bind_res (conv s i True w1) (\<lambda>((_, _, v), w2). Ret (Inr v, w2))))"

section \<open>From values to Lua\<close>

text \<open>\<open>di_lua_pushproxy\<close>: a new userdata with the pointer and a metatable.\<close>

definition push_user :: "lua_user \<Rightarrow> lua_state \<Rightarrow> lua_state" where
  "push_user u l =
     (let k = lua_next_id l in lpush (LUser k) (l\<lparr>lusers := (lusers l)(k \<mapsto> u), lua_next_id := Suc k\<rparr>))"

definition di_lua_pushproxy :: "oref \<Rightarrow> lua_user \<Rightarrow> world \<Rightarrow> world res" where
  "di_lua_pushproxy s u w = upd_lua (push_user u) s w"

text \<open>\<open>luaL_weakref\<close> takes the userdata on top; \<open>luaL_weakref_get\<close> pushes it, or nil when it is dead.\<close>

definition luaL_weakref :: "lua_host \<Rightarrow> lua_state \<Rightarrow> (int \<times> lua_state) res" where
  "luaL_weakref H l =
     (case lindex (-1) l of
        LUser u \<Rightarrow> let r = lh_ref H (lregistry l) in Ret (r, (lpop 1 l)\<lparr>lregistry := (lregistry l)(r \<mapsto> Reg_weak u)\<rparr>)
      | _ \<Rightarrow> Fault Type_Confusion)"

definition luaL_weakref_get :: "int \<Rightarrow> lua_state \<Rightarrow> (bool \<times> lua_state) res" where
  "luaL_weakref_get r l =
     (case lregistry l r of
        Some (Reg_weak u) \<Rightarrow> Ret (if ldead l u then (False, lpush LNil l) else (True, lpush (LUser u) l))
      | _ \<Rightarrow> Fault (Aborted ''luaL_weakref_get''))"

definition object_member_name :: "int \<Rightarrow> string" where
  "object_member_name r = ''___di_object_'' @ show_int r"

definition di_lua_forget_object :: "drop_fn \<Rightarrow> oref \<Rightarrow> oref \<Rightarrow> int \<Rightarrow> world \<Rightarrow> world res" where
  "di_lua_forget_object U s p r w =
     bind_res (upd_lua (\<lambda>l. l\<lparr>obj_refs := hash_del p (obj_refs l)\<rparr>) s w) (\<lambda>w1.
       bind_res (di_remove_member_raw U s (Some (object_member_name r)) w1) (\<lambda>(rc, w2).
         assert_res (rc = Inr ()) ''di_lua_forget_object'' (upd_lua (luaL_unref r) s w2)))"

text \<open>\<open>di_lua_pushobject\<close> consumes the reference to the object.\<close>

definition new_object_proxy :: "lua_host \<Rightarrow> drop_fn \<Rightarrow> oref \<Rightarrow> string option \<Rightarrow> oref \<Rightarrow> world \<Rightarrow> world res" where
  "new_object_proxy H U s name p w =
     bind_res (di_lua_pushproxy s (Proxy_object p name) w) (\<lambda>w1.
       bind_res (get_lua s w1) (\<lambda>l.
         bind_res (luaL_weakref H (lpush (lindex (-1) l) l)) (\<lambda>(r, l1).
           bind_res (put_lua s l1 w1) (\<lambda>w2.
             bind_res (di_add_member_move U s (Some (object_member_name r)) (VObject p) w2) (\<lambda>(rc, w3).
               assert_res (rc = Inr ()) ''di_lua_pushobject''
                 (upd_lua (\<lambda>l2. l2\<lparr>obj_refs := hash_add p r (obj_refs l2)\<rparr>) s w3))))))"

definition di_lua_pushobject :: "lua_host \<Rightarrow> drop_fn \<Rightarrow> oref \<Rightarrow> string option \<Rightarrow> oref \<Rightarrow> world \<Rightarrow> world res" where
  "di_lua_pushobject H U s name p w =
     bind_res (get_lua s w) (\<lambda>l.
       case hash_find p (obj_refs l) of
         None \<Rightarrow> new_object_proxy H U s name p w
       | Some r \<Rightarrow>
          bind_res (luaL_weakref_get r l) (\<lambda>(alive, l1).
            bind_res (put_lua s l1 w) (\<lambda>w1.
              if alive then U p w1
              else bind_res (di_lua_forget_object U s p r w1) (new_object_proxy H U s name p))))"

text \<open>
  \<open>di_lua_pushvariant\<close>: the number of results.  A null string or pointer and an array without element
  type are pushed as nil; a nil value is pushed, too, but counts as no result.
\<close>

definition ret1 :: "world res \<Rightarrow> (nat \<times> world) res" where
  "ret1 r = bind_res r (\<lambda>w. Ret (1, w))"

definition push_table :: "lua_state \<Rightarrow> lua_state" where
  "push_table l =
     (let t = lua_next_id l in
      lpush (LTable t) (l\<lparr>ltables := (ltables l)(t \<mapsto> \<lparr>lt_items = [], lt_meta = False\<rparr>), lua_next_id := Suc t\<rparr>))"

definition store_element :: "nat \<Rightarrow> oref \<Rightarrow> world \<Rightarrow> world res" where
  "store_element k s w = bind_res (get_lua s w) (\<lambda>l. bind_res (rawseti k l) (\<lambda>l1. put_lua s l1 w))"

fun di_lua_pushvariant :: "lua_host \<Rightarrow> drop_fn \<Rightarrow> oref \<Rightarrow> string option \<Rightarrow> di_value \<Rightarrow> world \<Rightarrow> (nat \<times> world) res"
  and push_elements :: "lua_host \<Rightarrow> drop_fn \<Rightarrow> oref \<Rightarrow> nat \<Rightarrow> di_value list \<Rightarrow> world \<Rightarrow> world res" where
  "di_lua_pushvariant H U s name (VBool b) w = ret1 (upd_lua (lpush (LBool b)) s w)"
| "di_lua_pushvariant H U s name (VNint i) w = ret1 (upd_lua (lpush (lh_integer H (scast i))) s w)"
| "di_lua_pushvariant H U s name (VNuint i) w = ret1 (upd_lua (lpush (lh_integer H (ucast i))) s w)"
| "di_lua_pushvariant H U s name (VInt i) w = ret1 (upd_lua (lpush (lh_integer H i)) s w)"
| "di_lua_pushvariant H U s name (VUint i) w = ret1 (upd_lua (lpush (lh_integer H i)) s w)"
| "di_lua_pushvariant H U s name (VFloat d) w = ret1 (upd_lua (lpush (lh_number H d)) s w)"
| "di_lua_pushvariant H U s name (VPointer a) w = ret1 (upd_lua (lpush (if a = 0 then LNil else LLight a)) s w)"
| "di_lua_pushvariant H U s name (VObject p) w = ret1 (bind_res (di_ref_object p w) (di_lua_pushobject H U s name p))"
| "di_lua_pushvariant H U s name (VWeak p) w = ret1 (bind_res (di_weakly_ref_object p w) (di_lua_pushproxy s (Proxy_weak p)))"
| "di_lua_pushvariant H U s name (VString str) w =
     ret1 (upd_lua (lpush (case str of None \<Rightarrow> LNil | Some cs \<Rightarrow> LStr cs)) s w)"
| "di_lua_pushvariant H U s name (VLiteral str) w = ret1 (upd_lua (lpush (LStr (cstr str))) s w)"
| "di_lua_pushvariant H U s name (VArray t a) w =
     (if t = DI_TYPE_ANY then ret1 (upd_lua (lpush LNil) s w)
      else bind_res (di_sizeof_type t) (\<lambda>_.
        bind_res (upd_lua push_table s w) (\<lambda>w1.
          case a of
            None \<Rightarrow> Ret (1, w1)
          | Some vs \<Rightarrow> ret1 (push_elements H U s 1 vs w1))))"
| "di_lua_pushvariant H U s name (VTuple vs) w =
     bind_res (upd_lua push_table s w) (\<lambda>w1. ret1 (push_elements H U s 1 vs w1))"
| "di_lua_pushvariant H U s name (VVariant v) w = di_lua_pushvariant H U s None v w"
| "di_lua_pushvariant H U s name VNil w = bind_res (upd_lua (lpush LNil) s w) (\<lambda>w1. Ret (0, w1))"
| "di_lua_pushvariant H U s name VLast w = Fault (Aborted ''Value with invalid type'')"
| "push_elements H U s k [] w = Ret w"
| "push_elements H U s k (v # vs) w =
     bind_res (di_lua_pushvariant H U s None v w) (\<lambda>(_, w1).
       bind_res (store_element k s w1) (push_elements H U s (Suc k) vs))"

section \<open>Collected proxies\<close>

text \<open>The finalizers of the three kinds of proxies; the pointer is not checked to be of the right kind.\<close>

definition di_lua_gc :: "drop_fn \<Rightarrow> oref \<Rightarrow> world \<Rightarrow> (lua_result \<times> world) res" where
  "di_lua_gc U s w =
     bind_res (get_lua s w) (\<lambda>l.
       case di_lua_checkproxy 1 l of
         Some (Proxy_object p n) \<Rightarrow>
           (case hash_find p (obj_refs l) of
              None \<Rightarrow> Ret (LReturn 0, w)
            | Some r \<Rightarrow> bind_res (di_lua_forget_object U s p r w) (\<lambda>w1. Ret (LReturn 0, w1)))
       | None \<Rightarrow> Ret (LError ''not a di_object'', w)
       | _ \<Rightarrow> Fault Type_Confusion)"

definition di_lua_gc_for_weak_object :: "oref \<Rightarrow> world \<Rightarrow> (lua_result \<times> world) res" where
  "di_lua_gc_for_weak_object s w =
     bind_res (get_lua s w) (\<lambda>l.
       case di_lua_checkproxy 1 l of
         Some (Proxy_weak p) \<Rightarrow> bind_res (di_drop_weak_ref p w) (\<lambda>w1. Ret (LReturn 0, w1))
       | None \<Rightarrow> Ret (LError ''not a di_object'', w)
       | _ \<Rightarrow> Fault Type_Confusion)"

definition get_proxy :: "nat \<Rightarrow> lua_state \<Rightarrow> di_lua_listen_handle_proxy res" where
  "get_proxy k l = (case lproxies l k of Some x \<Rightarrow> Ret x | None \<Rightarrow> Fault (Use_After_Free k))"

definition put_proxy :: "nat \<Rightarrow> di_lua_listen_handle_proxy \<Rightarrow> lua_state \<Rightarrow> lua_state" where
  "put_proxy k x l = l\<lparr>lproxies := (lproxies l)(k \<mapsto> x)\<rparr>"

definition di_lua_free_listen_handle :: "nat \<Rightarrow> lua_state \<Rightarrow> lua_state res" where
  "di_lua_free_listen_handle k l =
     bind_res (get_proxy k l) (\<lambda>x.
       if lua_object_alive x \<or> once_wrapper_alive x then Ret l else Ret (l\<lparr>lproxies := (lproxies l)(k := None)\<rparr>))"

definition di_lua_gc_for_listen_handle :: "oref \<Rightarrow> world \<Rightarrow> (lua_result \<times> world) res" where
  "di_lua_gc_for_listen_handle s w =
     bind_res (get_lua s w) (\<lambda>l.
       case di_lua_checkproxy 1 l of
         Some (Proxy_listen k) \<Rightarrow>
           bind_res (get_proxy k l) (\<lambda>x.
             bind_res (di_lua_free_listen_handle k (put_proxy k (x\<lparr>lua_object_alive := False\<rparr>) l)) (\<lambda>l1.
               bind_res (put_lua s l1 w) (\<lambda>w1. Ret (LReturn 0, w1))))
       | None \<Rightarrow> Ret (LError ''not a di_object'', w)
       | _ \<Rightarrow> Fault Type_Confusion)"

definition di_lua_signal_handler_wrapper_dtor :: "oref \<Rightarrow> oref \<Rightarrow> world \<Rightarrow> world res" where
  "di_lua_signal_handler_wrapper_dtor s p w =
     bind_res (get_obj p w) (\<lambda>x.
       case payload x of
         PHandlerWrapper (Some k) \<Rightarrow>
           bind_res (get_lua s w) (\<lambda>l.
             bind_res (get_proxy k l) (\<lambda>px.
               bind_res (di_lua_free_listen_handle k (put_proxy k (px\<lparr>once_wrapper_alive := False\<rparr>) l)) (\<lambda>l1.
                 bind_res (put_lua s l1 w) (put_payload p (PHandlerWrapper None)))))
       | PHandlerWrapper None \<Rightarrow> Fault Null_Deref
       | _ \<Rightarrow> Fault Type_Confusion)"

section \<open>Calls from Lua\<close>

text \<open>
  The arguments of a call, from index \<open>i\<close> on.  An error of \<open>luaL_argerror\<close> or \<open>luaL_error\<close> leaves the C
  function without its cleanups, so the values converted before it are not freed.
\<close>

fun lua_args :: "lua_conv \<Rightarrow> oref \<Rightarrow> int list \<Rightarrow> world \<Rightarrow> ((errno + di_value list) \<times> world) res" where
  "lua_args conv s [] w = Ret (Inr [], w)"
| "lua_args conv s (i # is) w =
     bind_res (di_lua_type_to_di_variant conv s i w) (\<lambda>(r, w1).
       case r of
         Inl e \<Rightarrow> Ret (Inl e, w1)
       | Inr v \<Rightarrow> bind_res (lua_args conv s is w1) (\<lambda>(rs, w2). Ret (map_sum id (Cons v) rs, w2)))"

definition di_lua_method_handler_impl ::
  "lua_host \<Rightarrow> lua_conv \<Rightarrow> drop_fn \<Rightarrow> call_obj \<Rightarrow> oref \<Rightarrow> string \<Rightarrow> oref \<Rightarrow> world \<Rightarrow> (lua_result \<times> world) res" where
  "di_lua_method_handler_impl H conv U C s name m w =
     bind_res (di_is_object_callable m w) (\<lambda>ok.
       if \<not> ok then Ret (LError (''Object '' @ name @ '' is not callable''), w)
       else bind_res (get_lua s w) (\<lambda>l.
         let nargs = int (length (lstack l)) in
         bind_res (lua_args conv s [2..nargs] w) (\<lambda>(r, w1).
           case r of
             Inl e \<Rightarrow> Ret (LError ''Unhandled lua type'', w1)
           | Inr t \<Rightarrow>
              bind_res (di_call_objectt C m t w1) (\<lambda>(rc, w2).
                case rc of
                  Inl e \<Rightarrow> Ret (LError (''Failed to call function '' @ name), w2)
                | Inr v \<Rightarrow>
                   bind_res (di_lua_pushvariant H U s None v w2) (\<lambda>(nret, w3).
                     bind_res (di_free_value U v w3) (\<lambda>w4.
                       bind_res (di_free_elems U t w4) (\<lambda>w5. Ret (LReturn nret, w5))))))))"

text \<open>\<open>di_lua_emit_signal\<close>: here the arguments converted so far are freed before the error.\<close>

fun emit_args :: "lua_conv \<Rightarrow> oref \<Rightarrow> int list \<Rightarrow> world \<Rightarrow> ((errno option \<times> di_value list) \<times> world) res" where
  "emit_args conv s [] w = Ret ((None, []), w)"
| "emit_args conv s (i # is) w =
     bind_res (di_lua_type_to_di_variant conv s i w) (\<lambda>(r, w1).
       case r of
         Inl e \<Rightarrow> Ret ((Some e, []), w1)
       | Inr v \<Rightarrow> bind_res (emit_args conv s is w1) (\<lambda>((e, vs), w2). Ret ((e, v # vs), w2)))"

definition di_lua_emit_signal :: "lua_conv \<Rightarrow> drop_fn \<Rightarrow> call_obj \<Rightarrow> oref \<Rightarrow> world \<Rightarrow> (lua_result \<times> world) res" where
  "di_lua_emit_signal conv U C s w =
     bind_res (get_lua s w) (\<lambda>l.
       case (di_lua_checkproxy 1 l, lindex 2 l) of
         (Some (Proxy_object p n), LStr signame) \<Rightarrow>
           bind_res (emit_args conv s [3..int (length (lstack l))] w) (\<lambda>((e, t), w1).
             bind_res (case e of
                 Some e' \<Rightarrow> Ret (Inl e', w1)
               | None \<Rightarrow> bind_res (di_ref_object p w1) (\<lambda>w2.
                   bind_res (di_emitn U C p (cstr signame) t w2) (\<lambda>(rc, w3).
                     bind_res (U p w3) (\<lambda>w4. Ret (rc, w4))))) (\<lambda>(rc, w5).
               bind_res (di_free_elems U t w5) (\<lambda>w6.
                 Ret (case rc of Inl _ \<Rightarrow> LError (''Failed to emit signal '' @ signame) | Inr _ \<Rightarrow> LReturn 0, w6))))
       | (Some (Proxy_object p n), _) \<Rightarrow> Ret (LError ''string expected'', w)
       | (Some _, _) \<Rightarrow> Fault Type_Confusion
       | (None, _) \<Rightarrow> Ret (LError ''not a di_object'', w))"

section \<open>Weak references\<close>

definition di_lua_upgrade_weak_ref :: "lua_host \<Rightarrow> drop_fn \<Rightarrow> oref \<Rightarrow> world \<Rightarrow> (lua_result \<times> world) res" where
  "di_lua_upgrade_weak_ref H U s w =
     bind_res (get_lua s w) (\<lambda>l.
       case di_lua_checkproxy 1 l of
         Some (Proxy_weak p) \<Rightarrow>
           bind_res (di_upgrade_weak_ref p w) (\<lambda>(r, w1).
             case r of
               None \<Rightarrow> Ret (LReturn 0, w1)
             | Some q \<Rightarrow> bind_res (di_lua_pushobject H U s None q w1) (\<lambda>w2. Ret (LReturn 1, w2)))
       | None \<Rightarrow> Ret (LError ''not a di_object'', w)
       | _ \<Rightarrow> Fault Type_Confusion)"

definition di_lua_weak_ref :: "lua_host \<Rightarrow> drop_fn \<Rightarrow> oref \<Rightarrow> world \<Rightarrow> (lua_result \<times> world) res" where
  "di_lua_weak_ref H U s w =
     bind_res (get_lua s w) (\<lambda>l.
       case di_lua_checkproxy 1 l of
         Some (Proxy_object p n) \<Rightarrow>
           bind_res (di_weakly_ref_object p w) (\<lambda>w1.
             bind_res (di_lua_pushvariant H U s None (VWeak p) w1) (\<lambda>(nret, w2).
               bind_res (di_drop_weak_ref p w2) (\<lambda>w3. Ret (LReturn nret, w3))))
       | None \<Rightarrow> Ret (LError ''not a di_object'', w)
       | _ \<Rightarrow> Fault Type_Confusion)"

section \<open>Indexing proxies\<close>

definition key_index :: "(lua_state \<Rightarrow> string \<Rightarrow> world \<Rightarrow> (lua_result \<times> world) res) \<Rightarrow> oref \<Rightarrow> world \<Rightarrow> (lua_result \<times> world) res" where
  "key_index f s w =
     bind_res (get_lua s w) (\<lambda>l.
       if length (lstack l) \<noteq> 2 then Ret (LError ''wrong number of arguments to __index'', w)
       else case lindex 2 l of
           LStr key \<Rightarrow> f l (cstr key) w
         | _ \<Rightarrow> Ret (LError ''string expected'', w))"

definition push_cfun :: "lua_cfun \<Rightarrow> oref \<Rightarrow> world \<Rightarrow> (lua_result \<times> world) res" where
  "push_cfun f s w = bind_res (upd_lua (lpush (LCFun f)) s w) (\<lambda>w1. Ret (LReturn 1, w1))"

definition di_lua_meta_index_for_weak_object :: "oref \<Rightarrow> world \<Rightarrow> (lua_result \<times> world) res" where
  "di_lua_meta_index_for_weak_object s =
     key_index (\<lambda>l key w. if key = ''upgrade'' then push_cfun CF_upgrade s w else Ret (LReturn 0, w)) s"

definition di_lua_meta_index_for_listen_handle :: "oref \<Rightarrow> world \<Rightarrow> (lua_result \<times> world) res" where
  "di_lua_meta_index_for_listen_handle s =
     key_index (\<lambda>l key w. if key = ''stop'' then push_cfun CF_stop s w else Ret (LReturn 0, w)) s"

definition di_lua_meta_index :: "lua_host \<Rightarrow> drop_fn \<Rightarrow> call_obj \<Rightarrow> oref \<Rightarrow> world \<Rightarrow> (lua_result \<times> world) res" where
  "di_lua_meta_index H U C s =
     key_index (\<lambda>l key w.
       case di_lua_checkproxy 1 l of
         None \<Rightarrow> Ret (LError ''not a di_object'', w)
       | Some (Proxy_object p n) \<Rightarrow>
           if key = ''on'' then push_cfun CF_on s w
           else if key = ''once'' then push_cfun CF_once s w
           else if key = ''emit'' then push_cfun CF_emit s w
           else if key = ''weakref'' then push_cfun CF_weakref s w
           else bind_res (di_getx U C p (di_string_borrow key) w) (\<lambda>(r, w1).
             case r of
               Inl e \<Rightarrow> bind_res (upd_lua (lpush LNil) s w1) (\<lambda>w2. Ret (LReturn 1, w2))
             | Inr v \<Rightarrow>
                bind_res (di_lua_pushvariant H U s (Some key) v w1) (\<lambda>(nret, w2).
                  bind_res (di_free_value U v w2) (\<lambda>w3. Ret (LReturn nret, w3))))
       | Some _ \<Rightarrow> Fault Type_Confusion) s"

text \<open>\<open>di_lua_meta_newindex\<close>: nil removes the member; other failures than the two named ones are ignored.\<close>

definition di_lua_meta_newindex :: "lua_conv \<Rightarrow> drop_fn \<Rightarrow> call_obj \<Rightarrow> oref \<Rightarrow> world \<Rightarrow> (lua_result \<times> world) res" where
  "di_lua_meta_newindex conv U C s w =
     bind_res (get_lua s w) (\<lambda>l.
       if length (lstack l) \<noteq> 3 then Ret (LError ''wrong number of arguments to __newindex'', w)
       else case (di_lua_checkproxy 1 l, lindex 2 l) of
         (Some (Proxy_object p n), LStr key) \<Rightarrow>
           bind_res (conv s 3 True w) (\<lambda>((rc, vt, v), w1).
             case rc of
               Some e \<Rightarrow> Ret (LError ''unhandled lua type'', w1)
             | None \<Rightarrow>
                bind_res (if vt = DI_TYPE_NIL then di_remove_member U C p (Some key) w1
                          else bind_res (di_setx U C p (Some key) v w1) (\<lambda>(r, w2).
                            bind_res (di_free_value U v w2) (\<lambda>w3. Ret (r, w3)))) (\<lambda>(r, w4).
                  Ret (if r = Inl EINVAL then LError ''property type mismatch''
                       else if r = Inl ENOENT then LError ''property doesn't exist'' else LReturn 0, w4)))
       | (Some (Proxy_object p n), _) \<Rightarrow> Ret (LError ''string expected'', w)
       | (Some _, _) \<Rightarrow> Fault Type_Confusion
       | (None, _) \<Rightarrow> Ret (LError ''not a di_object'', w))"

section \<open>Listeners\<close>

text \<open>
  \<open>di_lua_stop_listener_impl\<close> on the struct at \<open>k\<close>: both roots are removed, through the methods of the
  roots object \<open>roots\<close>, then the handles are cleared.
\<close>

definition di_lua_stop_listener_impl :: "drop_fn \<Rightarrow> oref \<Rightarrow> oref \<Rightarrow> nat \<Rightarrow> world \<Rightarrow> world res" where
  "di_lua_stop_listener_impl U roots s k w =
     bind_res (get_lua s w) (\<lambda>l.
       bind_res (get_proxy k l) (\<lambda>x.
         if root_handle_for_listen_handle x = 0 then Ret w
         else assert_res (root_handle_for_source x \<noteq> 0) ''di_lua_stop_listener_impl''
           (bind_res (di_remove_anonymous_root U roots (root_handle_for_listen_handle x) w) (\<lambda>w1.
              bind_res (get_lua s w1) (\<lambda>l1. bind_res (get_proxy k l1) (\<lambda>x1.
                bind_res (di_remove_anonymous_root U roots (root_handle_for_source x1) w1) (\<lambda>w2.
                  bind_res (get_lua s w2) (\<lambda>l2. bind_res (get_proxy k l2) (\<lambda>x2.
                    put_lua s (put_proxy k (x2\<lparr>root_handle_for_listen_handle := 0, root_handle_for_source := 0\<rparr>) l2) w2)))))))))"

definition di_lua_stop_listener :: "drop_fn \<Rightarrow> oref \<Rightarrow> oref \<Rightarrow> world \<Rightarrow> (lua_result \<times> world) res" where
  "di_lua_stop_listener U roots s w =
     bind_res (get_lua s w) (\<lambda>l.
       case di_lua_checkproxy 1 l of
         Some (Proxy_listen k) \<Rightarrow> bind_res (di_lua_stop_listener_impl U roots s k w) (\<lambda>w1. Ret (LReturn 0, w1))
       | None \<Rightarrow> Ret (LError ''not a di_object'', w)
       | _ \<Rightarrow> Fault Type_Confusion)"

text \<open>The wrapper of a handler that is called once.\<close>

definition new_once_wrapper :: "lua_host \<Rightarrow> drop_fn \<Rightarrow> oref \<Rightarrow> nat \<Rightarrow> oref \<Rightarrow> world \<Rightarrow> (oref \<times> world) res" where
  "new_once_wrapper H U s k handler w =
     (let (p, w1) = alloc_object w in
      bind_res (di_set_type U p ''deai.plugin.lua:OnceSignalHandler'' w1) (\<lambda>(_, w2).
        bind_res (put_payload p (PHandlerWrapper (Some k)) w2) (\<lambda>w3.
          bind_res (di_set_object_call p (Some (Call_ext (lh_fn H ''call_lua_signal_handler_once''))) w3) (\<lambda>w4.
            bind_res (di_set_object_dtor p (Some (Dtor_ext (lh_fn H ''di_lua_signal_handler_wrapper_dtor''))) w4) (\<lambda>w5.
              bind_res (di_add_member_move U p (Some ''___handler'') (VObject handler) w5) (\<lambda>(_, w6).
                bind_res (get_lua s w6) (\<lambda>l. bind_res (get_proxy k l) (\<lambda>x.
                  bind_res (put_lua s (put_proxy k (x\<lparr>once_wrapper_alive := True\<rparr>) l) w6) (\<lambda>w7. Ret (p, w7))))))))))"

definition di_lua_add_listener ::
  "lua_host \<Rightarrow> drop_fn \<Rightarrow> call_obj \<Rightarrow> oref \<Rightarrow> oref \<Rightarrow> bool \<Rightarrow> world \<Rightarrow> (lua_result \<times> world) res" where
  "di_lua_add_listener H U C roots s once w =
     bind_res (get_lua s w) (\<lambda>l.
       case di_lua_checkproxy 1 l of
         None \<Rightarrow> Ret (LError ''not a di_object'', w)
       | Some (Proxy_object p n) \<Rightarrow>
           if length (lstack l) \<noteq> 3 then Ret (LError ''on takes 3 arguments'', w)
           else (case (lindex 2 l, lindex (-1) l) of
             (LStr signame, fv) \<Rightarrow>
               if (case fv of LFun _ \<Rightarrow> False | LCFun _ \<Rightarrow> False | _ \<Rightarrow> True) then Ret (LError ''not a function'', w)
               else bind_res (lua_type_to_di_object H U s (Some (Call_ext (lh_fn H ''call_lua_function''))) w) (\<lambda>(h0, w1).
                 bind_res (get_lua s w1) (\<lambda>l1.
                   let k = lua_next_id l1;
                       px = \<lparr>root_handle_for_listen_handle = 0, root_handle_for_source = 0, once_wrapper_alive = False, lua_object_alive = False\<rparr>
                   in bind_res (put_lua s (put_proxy k px (l1\<lparr>lua_next_id := Suc k\<rparr>)) w1) (\<lambda>w2.
                     bind_res (if once then new_once_wrapper H U s k h0 w2 else Ret (h0, w2)) (\<lambda>(h, w3).
                       bind_res (di_listen_to U C p signame h w3) (\<lambda>(lh, w4).
                         bind_res (U h w4) (\<lambda>w5.
                           bind_res (get_lua s w5) (\<lambda>l5.
                             bind_res (di_getxt U C (lscript l5) (Some ''___di_lua_state'') DI_TYPE_OBJECT w5) (\<lambda>(so, w6).
                               assert_res (\<not> isl so) ''di_lua_add_listener''
                                 (bind_res (di_add_anonymous_root roots lh w6) (\<lambda>(r1, w7).
                                    bind_res (di_add_anonymous_root roots p w7) (\<lambda>(r2, w8).
                                      bind_res (get_lua s w8) (\<lambda>l8. bind_res (get_proxy k l8) (\<lambda>x8.
                                        bind_res (put_lua s (push_user (Proxy_listen k) (put_proxy k
                                            (x8\<lparr>root_handle_for_listen_handle := r1, root_handle_for_source := r2, lua_object_alive := True\<rparr>) l8)) w8) (\<lambda>w9.
                                          bind_res (case so of Inr v \<Rightarrow> di_free_value U v w9 | Inl _ \<Rightarrow> Ret w9) (\<lambda>w10.
                                            bind_res (U lh w10) (\<lambda>w11. Ret (LReturn 1, w11)))))))))))))))))
           | _ \<Rightarrow> Ret (LError ''string expected'', w))
       | Some _ \<Rightarrow> Fault Type_Confusion)"

text \<open>
  The call pointer of the wrapper.  \<open>fin\<close> is \<open>di_finalize_object\<close> of the runtime.
\<close>

definition call_lua_signal_handler_once ::
  "drop_fn \<Rightarrow> call_obj \<Rightarrow> (oref \<Rightarrow> world \<Rightarrow> world res) \<Rightarrow> oref \<Rightarrow> oref \<Rightarrow> oref \<Rightarrow> di_value list \<Rightarrow> world \<Rightarrow>
   (di_value outcome \<times> world) res" where
  "call_lua_signal_handler_once U C fin roots s p t w =
     bind_res (di_getxt U C p (Some ''___handler'') DI_TYPE_OBJECT w) (\<lambda>(r, w1).
       case r of
         Inr (VObject handler) \<Rightarrow>
           bind_res (get_obj p w1) (\<lambda>x.
             case payload x of
               PHandlerWrapper (Some k) \<Rightarrow>
                 bind_res (di_lua_stop_listener_impl U roots s k w1) (\<lambda>w2.
                   bind_res (fin p w2) (\<lambda>w3.
                     bind_res (di_call_objectt C handler t w3) (\<lambda>(rc, w4).
                       bind_res (U handler w4) (\<lambda>w5. Ret (rc, w5)))))
             | PHandlerWrapper None \<Rightarrow> Fault Null_Deref
             | _ \<Rightarrow> Fault Type_Confusion)
       | _ \<Rightarrow> Fault (Aborted ''call_lua_signal_handler_once''))"

section \<open>Calls into Lua\<close>

text \<open>
  From a \<open>LuaRef\<close> to the Lua state: two members are read as objects, and every failure is a
  \<open>DI_CHECK_OK\<close>.
\<close>

definition get_object_checked :: "drop_fn \<Rightarrow> call_obj \<Rightarrow> oref \<Rightarrow> string \<Rightarrow> world \<Rightarrow> (oref \<times> world) res" where
  "get_object_checked U C p name w =
     bind_res (di_getxt U C p (Some name) DI_TYPE_OBJECT w) (\<lambda>(r, w1).
       case r of Inr (VObject q) \<Rightarrow> Ret (q, w1) | _ \<Rightarrow> Fault (Aborted ''DI_CHECK_OK''))"

definition script_and_state :: "drop_fn \<Rightarrow> call_obj \<Rightarrow> oref \<Rightarrow> world \<Rightarrow> (oref \<times> oref \<times> world) res" where
  "script_and_state U C p w =
     bind_res (get_object_checked U C p ''___di_lua_script'' w) (\<lambda>(script, w1).
       bind_res (get_object_checked U C script ''___di_lua_state'' w1) (\<lambda>(s, w2). Ret (script, s, w2)))"

definition get_lua_ref :: "oref \<Rightarrow> world \<Rightarrow> int res" where
  "get_lua_ref p w = bind_res (get_obj p w) (\<lambda>x. case payload x of PLuaRef r \<Rightarrow> Ret r | _ \<Rightarrow> Fault Type_Confusion)"

text \<open>\<open>lua_ref_dtor\<close>; the cleanup drops the state, then the script.\<close>

definition lua_ref_dtor :: "drop_fn \<Rightarrow> call_obj \<Rightarrow> oref \<Rightarrow> world \<Rightarrow> world res" where
  "lua_ref_dtor U C p w =
     bind_res (script_and_state U C p w) (\<lambda>(script, s, w1).
       bind_res (get_lua_ref p w1) (\<lambda>r.
         bind_res (upd_lua (luaL_unref r) s w1) (\<lambda>w2.
           bind_res (U s w2) (U script))))"

definition di_lua_free_script :: "oref \<Rightarrow> world \<Rightarrow> world res" where
  "di_lua_free_script p w =
     bind_res (get_obj p w) (\<lambda>x. case payload x of PLuaScript path \<Rightarrow> put_payload p PNone w | _ \<Rightarrow> Fault Type_Confusion)"

text \<open>\<open>di_lua_xchg_env\<close> stores the script and gives the one stored before.\<close>

definition di_lua_xchg_env :: "oref \<Rightarrow> oref \<Rightarrow> world \<Rightarrow> (oref \<times> world) res" where
  "di_lua_xchg_env s script w =
     bind_res (get_lua s w) (\<lambda>l. bind_res (put_lua s (l\<lparr>lscript := script\<rparr>) w) (\<lambda>w1. Ret (lscript l, w1)))"

text \<open>\<open>lua_gettable\<close> on a table without metatable; other values run a metamethod, through \<open>lua_pcall\<close>'s code.\<close>

definition gettable :: "lua_host \<Rightarrow> oref \<Rightarrow> lua_val \<Rightarrow> lua_val \<Rightarrow> world \<Rightarrow> (lua_val \<times> world) res" where
  "gettable H s tv key w =
     bind_res (get_lua s w) (\<lambda>l.
       case tv of
         LTable t \<Rightarrow>
           (case ltables l t of
              None \<Rightarrow> Fault (Use_After_Free t)
            | Some tb \<Rightarrow>
                (case hash_find key (lt_items tb) of
                   Some v \<Rightarrow> Ret (v, w)
                 | None \<Rightarrow> if lt_meta tb then bind_res (lh_pcall H s tv [key] w) (\<lambda>(r, w1).
                       case r of Inr v \<Rightarrow> Ret (v, w1) | Inl _ \<Rightarrow> Fault (Aborted ''unprotected error in call to Lua API''))
                     else Ret (LNil, w)))
       | _ \<Rightarrow> bind_res (lh_pcall H s tv [key] w) (\<lambda>(r, w1).
           case r of Inr v \<Rightarrow> Ret (v, w1) | Inl _ \<Rightarrow> Fault (Aborted ''unprotected error in call to Lua API'')))"

text \<open>
  \<open>di_lua_di_getter\<close>, the getter of a \<open>LuaRef\<close>.  The value and the result stay on the stack.  A
  conversion that fails returns before the script is restored.
\<close>

definition di_lua_di_getter ::
  "lua_host \<Rightarrow> lua_conv \<Rightarrow> drop_fn \<Rightarrow> call_obj \<Rightarrow> di_value list \<Rightarrow> world \<Rightarrow> (di_value outcome \<times> world) res" where
  "di_lua_di_getter H conv U C tu w =
     (case tu of
        [self, key] \<Rightarrow>
          (case self of
             VObject p \<Rightarrow>
               (case string_arg key of
                  None \<Rightarrow> Ret (Inl EINVAL, w)
                | Some ks \<Rightarrow>
                   bind_res (script_and_state U C p w) (\<lambda>(script, s, w1).
                     bind_res (di_lua_xchg_env s script w1) (\<lambda>(old, w2).
                       bind_res (get_lua_ref p w2) (\<lambda>r.
                         bind_res (get_lua s w2) (\<lambda>l.
                           let tv = registry_value r l in
                           bind_res (put_lua s (lpush tv l) w2) (\<lambda>w3.
                             bind_res (gettable H s tv (LStr (di_string_bytes ks)) w3) (\<lambda>(v, w4).
                               bind_res (upd_lua (lpush v) s w4) (\<lambda>w5.
                                 bind_res (conv s (-1) True w5) (\<lambda>((rc, t, dv), w6).
                                   bind_res (case rc of
                                       Some e \<Rightarrow> Ret (Inl e, w6)
                                     | None \<Rightarrow> bind_res (di_lua_xchg_env s old w6) (\<lambda>(_, w7).
                                         Ret (Inr (if t = DI_TYPE_NIL then VLast else dv), w7))) (\<lambda>(res, w8).
                                     bind_res (U s w8) (\<lambda>w9. bind_res (U script w9) (\<lambda>w10. Ret (res, w10)))))))))))))
           | _ \<Rightarrow> Fault (Aborted ''first argument to getter is not an object''))
      | _ \<Rightarrow> Ret (Inl EINVAL, w))"

text \<open>\<open>call_lua_function\<close>, the call pointer of a \<open>LuaRef\<close> of a function.  Errors become error objects.\<close>

definition pcall_result :: "lua_conv \<Rightarrow> drop_fn \<Rightarrow> oref \<Rightarrow> lua_val + lua_val \<Rightarrow> world \<Rightarrow> (di_value \<times> world) res" where
  "pcall_result conv U s r w =
     (case r of
        Inl err_val \<Rightarrow>
          bind_res (upd_lua (lpush err_val) s w) (\<lambda>w1.
            bind_res (di_new_error U (case err_val of LStr m \<Rightarrow> m | _ \<Rightarrow> ''error'') w1) (\<lambda>(e, w2). Ret (VObject e, w2)))
      | Inr v \<Rightarrow>
          bind_res (upd_lua (lpush v) s w) (\<lambda>w1.
            bind_res (conv s (-1) True w1) (\<lambda>((_, _, dv), w2). Ret (dv, w2))))"

fun push_args :: "lua_host \<Rightarrow> drop_fn \<Rightarrow> oref \<Rightarrow> di_value list \<Rightarrow> world \<Rightarrow> world res" where
  "push_args H U s [] w = Ret w"
| "push_args H U s (v # vs) w = bind_res (di_lua_pushvariant H U s None v w) (\<lambda>(_, w1). push_args H U s vs w1)"

definition call_lua_function ::
  "lua_host \<Rightarrow> lua_conv \<Rightarrow> drop_fn \<Rightarrow> call_obj \<Rightarrow> oref \<Rightarrow> di_value list \<Rightarrow> world \<Rightarrow> (di_value outcome \<times> world) res" where
  "call_lua_function H conv U C p t w =
     bind_res (script_and_state U C p w) (\<lambda>(script, s, w1).
       bind_res (upd_lua (lpush (LCFun CF_errfunc)) s w1) (\<lambda>w2.
         bind_res (di_lua_xchg_env s script w2) (\<lambda>(old, w3).
           bind_res (get_lua_ref p w3) (\<lambda>r.
             bind_res (get_lua s w3) (\<lambda>l.
               bind_res (put_lua s (lpush (registry_value r l) l) w3) (\<lambda>w4.
                 bind_res (push_args H U s t w4) (\<lambda>w5.
                   bind_res (get_lua s w5) (\<lambda>l5.
                     let args = rev (take (length t) (lstack l5)) in
                     bind_res (put_lua s (lpop (length t + 1) l5) w5) (\<lambda>w6.
                       bind_res (lh_pcall H s (registry_value r l) args w6) (\<lambda>(res, w7).
                         bind_res (pcall_result conv U s res w7) (\<lambda>(dv, w8).
                           bind_res (upd_lua (lpop 2) s w8) (\<lambda>w9.
                             bind_res (di_lua_xchg_env s old w9) (\<lambda>(_, w10).
                               bind_res (U s w10) (\<lambda>w11. bind_res (U script w11) (\<lambda>w12. Ret (Inr dv, w12))))))))))))))))"

section \<open>Scripts\<close>

definition new_lua_state :: lua_state where
  "new_lua_state = \<lparr>lstack = [], ltables = Map.empty, lusers = Map.empty, ldead = (\<lambda>_. False), lregistry = Map.empty,
     lscript = 0, obj_refs = [], lproxies = Map.empty, lua_next_id = 1\<rparr>"

text \<open>
  \<open>lua_new_state\<close>, without the libraries that \<open>luaL_openlibs\<close> puts into the state and the table \<open>os\<close> cut
  down to five functions.  A core that is gone is stored as a null pointer.
\<close>

definition lua_new_state :: "lua_host \<Rightarrow> drop_fn \<Rightarrow> call_obj \<Rightarrow> oref \<Rightarrow> world \<Rightarrow> (oref \<times> world) res" where
  "lua_new_state H U C m w =
     (let (s, w1) = alloc_object w in
      bind_res (di_set_type U s ''deai.plugin.lua:LuaState'' w1) (\<lambda>(_, w2).
        bind_res (put_payload s (PLuaState new_lua_state) w2) (\<lambda>w3.
          bind_res (di_set_object_dtor s (Some (Dtor_ext (lh_fn H ''lua_state_dtor''))) w3) (\<lambda>w4.
            bind_res (di_module_get_deai U C m w4) (\<lambda>(di, w5).
              case di of
                None \<Rightarrow> Fault Null_Deref
              | Some d \<Rightarrow>
                 bind_res (upd_lua (\<lambda>l. lpop 1 (push_user (Proxy_object d (Some ''di'')) l)) s w5) (\<lambda>w6.
                   bind_res (di_add_member_move U s (Some ''__deai'') (VObject d) w6) (\<lambda>(_, w7).
                     bind_res (di_weakly_ref_object s w7) (\<lambda>w8.
                       bind_res (di_add_member_move U m (Some ''__lua_state'') (VWeak s) w8) (\<lambda>(_, w9). Ret (s, w9))))))))))"

text \<open>The Lua state of a module: the one it refers to weakly, or a new one.\<close>

definition current_state :: "lua_host \<Rightarrow> drop_fn \<Rightarrow> call_obj \<Rightarrow> oref \<Rightarrow> world \<Rightarrow> (oref \<times> world) res" where
  "current_state H U C m w =
     bind_res (di_getxt U C m (Some ''__lua_state'') DI_TYPE_WEAK_OBJECT w) (\<lambda>(r, w1).
       bind_res (case r of
           Inr (VWeak q) \<Rightarrow>
             bind_res (di_upgrade_weak_ref q w1) (\<lambda>(p, w2). Ret (p, Some q, w2))
         | Inr _ \<Rightarrow> Fault Type_Confusion
         | Inl e \<Rightarrow> assert_res (e = ENOENT) ''di_lua_load_script'' (Ret (None, None, w1))) (\<lambda>(p, weak, w3).
         bind_res (case p of
             Some s \<Rightarrow> Ret (s, w3)
           | None \<Rightarrow> bind_res (di_remove_member_raw U m (Some ''__lua_state'') w3) (\<lambda>(_, w4). lua_new_state H U C m w4)) (\<lambda>(s, w5).
           bind_res (case weak of None \<Rightarrow> Ret w5 | Some q \<Rightarrow> di_drop_weak_ref q w5) (\<lambda>w6. Ret (s, w6)))))"

text \<open>
  \<open>di_lua_load_script\<close>.  \<open>chunk path\<close> is the compiled script or the error of \<open>luaL_loadfile\<close>; \<open>logm\<close> says
  whether the log module was found.  The path of a script is empty until it is loaded.  After the call the error function is removed from index 1, the
  bottom of the stack, although it was pushed on top.
\<close>

definition remove_bottom :: "lua_state \<Rightarrow> lua_state" where
  "remove_bottom l = l\<lparr>lstack := butlast (lstack l)\<rparr>"

definition di_lua_load_script ::
  "lua_host \<Rightarrow> (string \<Rightarrow> string + lua_val) \<Rightarrow> bool \<Rightarrow> drop_fn \<Rightarrow> call_obj \<Rightarrow> oref \<Rightarrow> di_string \<Rightarrow> world \<Rightarrow> (oref \<times> world) res" where
  "di_lua_load_script H chunk logm U C m path0 w =
     (case path0 of
        None \<Rightarrow> di_new_error U ''Path is null'' w
      | Some pb \<Rightarrow>
         let path = cstr pb; (p, w1) = alloc_object w in
         bind_res (di_set_type U p ''deai.plugin.lua:LuaScript'' w1) (\<lambda>(_, w2).
           bind_res (put_payload p (PLuaScript []) w2) (\<lambda>w3.
             bind_res (di_set_object_dtor p (Some (Dtor_ext (lh_fn H ''di_lua_free_script''))) w3) (\<lambda>w4.
               bind_res (current_state H U C m w4) (\<lambda>(s, w5).
                 bind_res (if \<not> logm then di_new_error U ''Can't find log module'' w5
                   else bind_res (upd_lua (lpush (LCFun CF_errfunc)) s w5) (\<lambda>w6.
                     case chunk path of
                       Inl msg \<Rightarrow>
                         bind_res (upd_lua (lpop 1) s w6) (\<lambda>w7. di_new_error U (''Failed to load lua script '' @ path @ '': '' @ msg) w7)
                     | Inr f \<Rightarrow>
                         bind_res (bind_res (put_payload p (PLuaScript path) w6) (di_add_member_clonev U p (Some ''___di_lua_state'') (VObject s))) (\<lambda>(_, w7).
                           bind_res (di_lua_xchg_env s p w7) (\<lambda>(old, w8).
                             bind_res (lh_pcall H s f [] w8) (\<lambda>(res, w9).
                               bind_res (di_lua_xchg_env s old w9) (\<lambda>(_, w10).
                                 case res of
                                   Inl ev \<Rightarrow>
                                     bind_res (upd_lua (\<lambda>l. remove_bottom (lpush ev l)) s w10) (\<lambda>w11.
                                       bind_res (upd_lua (lpop 1) s w11) (\<lambda>w12.
                                         di_new_error U (case ev of LStr msg \<Rightarrow> msg | _ \<Rightarrow> ''error'') w12))
                                 | Inr _ \<Rightarrow>
                                     bind_res (upd_lua remove_bottom s w10) (\<lambda>w11.
                                       bind_res (di_ref_object p w11) (\<lambda>w12. Ret (p, w12))))))))) (\<lambda>(ret, w13).
                   bind_res (U s w13) (\<lambda>w14. bind_res (U p w14) (\<lambda>w15. Ret (ret, w15)))))))))"

definition lua_plugin_init :: "(di_type \<Rightarrow> di_type list \<Rightarrow> bool) \<Rightarrow> lua_host \<Rightarrow> drop_fn \<Rightarrow> oref \<Rightarrow> world \<Rightarrow> world res" where
  "lua_plugin_init P H U di w =
     bind_res (di_new_module U di w) (\<lambda>(pm, w1).
       case pm of
         None \<Rightarrow> Fault Null_Deref
       | Some m \<Rightarrow>
          bind_res (add_methods P U m [(''load_script'', lh_fn H ''di_lua_load_script'', DI_TYPE_OBJECT, [DI_TYPE_STRING])] w1) (\<lambda>w2.
            bind_res (di_register_module U di (Some ''lua'') m w2) (\<lambda>(_, w3). Ret w3)))"

end
