(* ===== verification/LuaProps.thy ===== *)
theory LuaProps
  imports Lua Event SpawnExamples
begin

text \<open>
  Properties of the Lua plugin: flat values survive the way into Lua and back, nested tables and values
  that are not on top of the stack do not, every object has one proxy while it is in use.
\<close>

section \<open>The Lua state in a heap\<close>

text \<open>A world with another Lua state; the object \<open>s\<close> is there in all worlds below.\<close>

definition set_lua :: "oref \<Rightarrow> lua_state \<Rightarrow> world \<Rightarrow> world" where
  "set_lua s l w = (case heap w s of None \<Rightarrow> w | Some x \<Rightarrow> put_obj s (x\<lparr>payload := PLuaState l\<rparr>) w)"

definition lua_of :: "oref \<Rightarrow> lua_state \<Rightarrow> world \<Rightarrow> bool" where
  "lua_of s l w \<longleftrightarrow> (\<exists>x. heap w s = Some x \<and> payload x = PLuaState l)"

lemma lua_of_set [simp]: "lua_of s l w \<Longrightarrow> lua_of s l' (set_lua s l' w)"
  by (auto simp: lua_of_def set_lua_def)

lemma set_lua_set [simp]: "set_lua s l (set_lua s l' w) = set_lua s l w"
  by (cases "heap w s") (simp_all add: set_lua_def put_obj_def)

lemma set_lua_id: "lua_of s l w \<Longrightarrow> set_lua s l w = w"
proof -
  assume "lua_of s l w"
  then obtain x where x: "heap w s = Some x" "payload x = PLuaState l" by (auto simp: lua_of_def)
  then have "x\<lparr>payload := PLuaState l\<rparr> = x" by (cases x) simp
  then show ?thesis using x by (simp add: set_lua_def put_obj_def fun_upd_idem)
qed

lemma member_map_set_lua [simp]: "member_map q (set_lua s l w) = member_map q w"
  by (auto simp: set_lua_def member_map_def fun_eq_iff split: option.splits)

lemma get_lua_of: "lua_of s l w \<Longrightarrow> get_lua s w = Ret l"
  by (auto simp: lua_of_def get_lua_def get_obj_def)

lemma put_lua_of: "lua_of s l w \<Longrightarrow> put_lua s l' w = Ret (set_lua s l' w)"
  by (auto simp: lua_of_def put_lua_def put_payload_def get_obj_def set_lua_def)

lemma get_set_lua [simp]: "lua_of s l w \<Longrightarrow> get_lua s (set_lua s l' w) = Ret l'"
  by (simp add: get_lua_of [OF lua_of_set])

lemma put_set_lua [simp]: "lua_of s l w \<Longrightarrow> put_lua s l2 (set_lua s l1 w) = Ret (set_lua s l2 w)"
  by (simp add: put_lua_of [OF lua_of_set])

lemma upd_set_lua [simp]: "lua_of s l w \<Longrightarrow> upd_lua f s (set_lua s l1 w) = Ret (set_lua s (f l1) w)"
  by (simp add: upd_lua_def)

lemma upd_lua_of: "lua_of s l w \<Longrightarrow> upd_lua f s w = Ret (set_lua s (f l) w)"
  by (simp add: upd_lua_def get_lua_of put_lua_of)

lemma lindex_push [simp]: "lindex (-1) (lpush v l) = v"
  by (simp add: lindex_def lpush_def)

lemma lindex_below [simp]: "0 < i \<Longrightarrow> nat i \<le> length (lstack l) \<Longrightarrow> lindex i (lpush v l) = lindex i l"
  by (auto simp: lindex_def lpush_def Let_def Suc_diff_le)

lemma lindex_top: "lstack l = v # st \<Longrightarrow> lindex (int (length (lstack l))) l = v"
  by (simp add: lindex_def Let_def nat_add_distrib)

lemma lpush_simps [simp]:
  "lstack (lpush v l) = v # lstack l" "ltables (lpush v l) = ltables l" "lusers (lpush v l) = lusers l"
  "lregistry (lpush v l) = lregistry l" "lscript (lpush v l) = lscript l" "obj_refs (lpush v l) = obj_refs l"
  "lpop 1 (lpush v l) = l" "lpop (Suc 0) (lpush v l) = l" "lpop 2 (lpush u (lpush v l)) = l"
  by (simp_all add: lpush_def lpop_def)

lemma table_at_below [simp]: "0 < i \<Longrightarrow> nat i \<le> length (lstack l) \<Longrightarrow> table_at i (lpush v l) = table_at i l"
  by (simp add: table_at_def split: lua_val.split)

section \<open>Flat values\<close>

fun lua_scalar :: "di_value \<Rightarrow> lua_val option" where
  "lua_scalar (VBool b) = Some (LBool b)"
| "lua_scalar (VNint i) = Some (LInt (scast i))"
| "lua_scalar (VNuint i) = Some (LInt (ucast i))"
| "lua_scalar (VInt i) = Some (LInt i)"
| "lua_scalar (VUint i) = Some (LInt i)"
| "lua_scalar (VFloat d) = Some (LNum d)"
| "lua_scalar (VString (Some s)) = Some (LStr s)"
| "lua_scalar (VLiteral s) = Some (LStr (cstr s))"
| "lua_scalar _ = None"

fun scalar_value :: "lua_val \<Rightarrow> di_value" where
  "scalar_value (LBool b) = VBool b"
| "scalar_value (LInt i) = VInt i"
| "scalar_value (LNum d) = VFloat d"
| "scalar_value (LStr s) = VString (Some s)"
| "scalar_value _ = VNil"

definition lua_type :: "di_type \<Rightarrow> di_type" where
  "lua_type t = (if is_integer t then DI_TYPE_INT else if t = DI_TYPE_STRING_LITERAL then DI_TYPE_STRING else t)"

text \<open>Values without objects, nesting, null strings and empty arrays; arrays of one element type.\<close>

fun flat :: "di_value \<Rightarrow> bool" where
  "flat (VArray t (Some vs)) = (vs \<noteq> [] \<and> length vs < 2147483646 \<and> (\<forall>v \<in> set vs. di_typeof v = t \<and> lua_scalar v \<noteq> None))"
| "flat (VVariant v) = flat v"
| "flat v = (lua_scalar v \<noteq> None)"

fun lua_image :: "di_value \<Rightarrow> di_value" where
  "lua_image (VArray t (Some vs)) = VArray (lua_type t) (Some (map (\<lambda>v. scalar_value (the (lua_scalar v))) vs))"
| "lua_image (VVariant v) = lua_image v"
| "lua_image v = scalar_value (the (lua_scalar v))"

lemma lua_scalar_type: "lua_scalar v = Some u \<Longrightarrow> di_typeof (scalar_value u) = lua_type (di_typeof v) \<and> u \<noteq> LNil"
  by (induction v rule: lua_scalar.induct) (auto simp: lua_type_def is_integer_def)

lemma read_scalar:
  assumes l: "lua_of s l w" and i: "lindex i l = the (lua_scalar v)" and v: "lua_scalar v \<noteq> None"
  shows "di_lua_type_to_di H (Suc n) U s i True w = Ret ((None, lua_type (di_typeof v), scalar_value (the (lua_scalar v))), w)"
  using i v by (cases v rule: lua_scalar.cases)
    (simp_all add: get_lua_of [OF l] Let_def di_string_ndup_def lua_type_def is_integer_def)

lemma free_scalar: "lua_scalar v = Some u \<Longrightarrow> di_free_value U (scalar_value u) w = Ret w"
  by (cases v rule: lua_scalar.cases) auto

text \<open>An interpreter with integers: numbers stay what they were pushed as.\<close>

definition lua53 :: "lua_host \<Rightarrow> bool" where
  "lua53 H \<longleftrightarrow> (\<forall>i. lh_integer H i = LInt i) \<and> (\<forall>d. lh_number H d = LNum d)"

lemma push_scalar:
  assumes "lua53 H" "lua_of s l w" "lua_scalar v = Some u"
  shows "di_lua_pushvariant H U s name v w = Ret (1, set_lua s (lpush u l) w)"
  using assms(1,3) by (cases v rule: lua_scalar.cases) (auto simp: ret1_def upd_lua_of [OF assms(2)] lua53_def)

section \<open>Arrays\<close>

definition array_items :: "di_value list \<Rightarrow> nat \<Rightarrow> (lua_val \<times> lua_val) list" where
  "array_items vs k = map (\<lambda>j. (LInt (of_nat (k + j)), the (lua_scalar (vs ! j)))) [0..<length vs]"

lemma array_items_Cons: "array_items (v # vs) k = (LInt (of_nat k), the (lua_scalar v)) # array_items vs (Suc k)"
  by (simp add: array_items_def upt_conv_Cons map_Suc_upt [symmetric] del: upt_Suc)

lemma array_items_snoc: "array_items (vs @ [v]) k = array_items vs k @ [(LInt (of_nat (k + length vs)), the (lua_scalar v))]"
  by (simp add: array_items_def nth_append)

lemma word_index_inject: "j < 2 ^ 64 \<Longrightarrow> k < 2 ^ 64 \<Longrightarrow> ((of_nat j :: 64 word) = of_nat k) = (j = k)"
proof -
  assume "j < 2 ^ 64" "k < 2 ^ 64"
  then have "unat (of_nat j :: 64 word) = j" "unat (of_nat k :: 64 word) = k" by (simp_all add: unat_of_nat)
  then show ?thesis by metis
qed

lemma array_items_find:
  assumes "k + length vs < 2 ^ 64" "j < 2 ^ 64"
  shows "hash_find (LInt (of_nat j)) (array_items vs k) =
    (if k \<le> j \<and> j < k + length vs then Some (the (lua_scalar (vs ! (j - k)))) else None)"
  using assms(1)
proof (induction vs arbitrary: k)
  case Nil
  then show ?case by (simp add: array_items_def)
next
  case (Cons v vs)
  then show ?case using word_index_inject [of k j] assms(2)
    by (auto simp: array_items_Cons nth_Cons' Suc_le_eq)
qed

text \<open>The table on top of the stack is filled from the left.\<close>

definition with_table :: "nat \<Rightarrow> (lua_val \<times> lua_val) list \<Rightarrow> lua_state \<Rightarrow> lua_state" where
  "with_table t items l = l\<lparr>ltables := (ltables l)(t \<mapsto> \<lparr>lt_items = items, lt_meta = False\<rparr>)\<rparr>"

lemma push_elements_fill:
  assumes h: "lua53 H" and l: "lua_of s l0 w" and vs: "\<forall>v \<in> set vs. lua_scalar v \<noteq> None" and k: "Suc (length us + length vs) < 2 ^ 64"
    and top: "lstack l = LTable t # st"
  shows "push_elements H U s (Suc (length us)) vs (set_lua s (with_table t (array_items us 1) l) w) =
    Ret (set_lua s (with_table t (array_items (us @ vs) 1) l) w)"
  using vs k
proof (induction vs arbitrary: us)
  case (Cons v vs)
  let ?l = "with_table t (array_items us 1) l"
  obtain u where u: "lua_scalar v = Some u" "u \<noteq> LNil" using Cons.prems(1) lua_scalar_type by force
  have push: "di_lua_pushvariant H U s None v (set_lua s ?l w) = Ret (1, set_lua s (lpush u ?l) w)"
    using push_scalar [OF h lua_of_set [OF l] u(1)] by simp
  have "hash_find (LInt (of_nat (Suc (length us)))) (array_items us 1) = None"
    using array_items_find [of 1 us "Suc (length us)"] Cons.prems(2) by simp
  then have "rawseti (Suc (length us)) (lpush u ?l) = Ret (with_table t (array_items (us @ [v]) 1) l)"
    using top u by (simp add: rawseti_def with_table_def lpush_def hash_add_def array_items_snoc)
  then have "store_element (Suc (length us)) s (set_lua s (lpush u ?l) w) = Ret (set_lua s (with_table t (array_items (us @ [v]) 1) l) w)"
    using l by (simp add: store_element_def)
  with push show ?case using Cons.IH [of "us @ [v]"] Cons.prems by simp
qed simp

text \<open>Reading it: every element has the type of the first, so the table is an array.\<close>

definition array_at :: "int \<Rightarrow> lua_state \<Rightarrow> di_value list \<Rightarrow> di_type \<Rightarrow> bool" where
  "array_at i l vs t \<longleftrightarrow> 0 < i \<and> nat i \<le> length (lstack l) \<and> table_at i l = Ret \<lparr>lt_items = array_items vs 1, lt_meta = False\<rparr> \<and>
     length vs < 2147483646 \<and> (\<forall>v \<in> set vs. di_typeof v = t \<and> lua_scalar v \<noteq> None)"

lemma rawgeti_array:
  assumes "array_at i l vs t" "m < length vs"
  shows "rawgeti (Suc m) \<lparr>lt_items = array_items vs 1, lt_meta = False\<rparr> = the (lua_scalar (vs ! m))"
    "lua_scalar (vs ! m) \<noteq> None" "di_typeof (vs ! m) = t"
proof -
  show v: "lua_scalar (vs ! m) \<noteq> None" "di_typeof (vs ! m) = t" using assms nth_mem [OF assms(2)] unfolding array_at_def by blast+
  have "hash_find (LInt (of_nat (Suc m))) (array_items vs 1) = Some (the (lua_scalar (vs ! m)))"
    using assms array_items_find [of 1 vs "Suc m"] by (simp add: array_at_def)
  then show "rawgeti (Suc m) \<lparr>lt_items = array_items vs 1, lt_meta = False\<rparr> = the (lua_scalar (vs ! m))"
    unfolding rawgeti_def by simp
qed

lemma array_at_push: "array_at i l vs t \<Longrightarrow> array_at i (lpush v l) vs t"
  by (simp add: array_at_def)

lemma element_type_array:
  assumes lua: "lua_of s l0 w" and a: "array_at i l vs t" and m: "m < length vs"
  shows "element_type (di_lua_type_to_di H (Suc n) U) U s i (Suc m) (set_lua s l w) =
    Ret (lua_type t, set_lua s (lpush (the (lua_scalar (vs ! m))) l) w)"
proof -
  note g = rawgeti_array [OF a m]
  have "table_at i l = Ret \<lparr>lt_items = array_items vs 1, lt_meta = False\<rparr>" using a by (simp add: array_at_def)
  then show ?thesis using g lua read_scalar [OF lua_of_set [OF lua], where v = "vs ! m" and i = "-1" and H = H and n = n and U = U]
      free_scalar [of "vs ! m" "the (lua_scalar (vs ! m))" U]
    by (auto simp: element_type_def simp del: di_lua_type_to_di.simps)
qed

lemma checkarray_loop_array:
  assumes lua: "lua_of s l0 w" and a: "array_at i l vs t"
  shows "m \<le> length vs \<Longrightarrow>
    checkarray_loop (di_lua_type_to_di H (Suc n) U) U s i (Suc m) (lua_type t) (array_items (drop m vs) (Suc m)) (set_lua s (lpush key l) w) =
      Ret ((True, length vs, lua_type t), set_lua s l w)"
proof (induction "length vs - m" arbitrary: m key)
  case 0
  then show ?case using lua by (simp add: array_items_def del: di_lua_type_to_di.simps)
next
  case (Suc d)
  then have m: "m < length vs" by simp
  then have "drop m vs = vs ! m # drop (Suc m) vs" by (simp add: Cons_nth_drop_Suc)
  then have items: "array_items (drop m vs) (Suc m) = (LInt (of_nat (Suc m)), the (lua_scalar (vs ! m))) # array_items (drop (Suc m) vs) (Suc (Suc m))"
    by (simp add: array_items_Cons)
  have "Suc (Suc m) \<noteq> 2147483647" using a m by (auto simp: array_at_def)
  then show ?case using lua Suc.hyps(1) [of "Suc m"] Suc.hyps(2) m
      element_type_array [OF lua array_at_push [OF array_at_push [OF a]] m, of H n U]
    by (simp add: items join_type_def del: di_lua_type_to_di.simps)
qed

lemma checkarray_array:
  assumes lua: "lua_of s l0 w" and a: "array_at i l vs t" and vs: "vs \<noteq> []"
  shows "di_lua_checkarray (di_lua_type_to_di H (Suc n) U) U s i (set_lua s l w) = Ret ((True, length vs, lua_type t), set_lua s l w)"
proof -
  obtain v us where v: "vs = v # us" using vs by (cases vs) auto
  have ty: "lua_type t \<noteq> DI_TYPE_NIL" using a v
    by (cases v rule: lua_scalar.cases) (auto simp: array_at_def lua_type_def is_integer_def)
  have tb: "table_at i l = Ret \<lparr>lt_items = array_items vs 1, lt_meta = False\<rparr>" "0 < i" "nat i \<le> length (lstack l)" using a by (simp_all add: array_at_def)
  have items: "array_items vs 1 = (LInt 1, the (lua_scalar v)) # array_items us 2" using array_items_Cons [of v us 1] v by (simp add: numeral_2_eq_2)
  have "checkarray_loop (di_lua_type_to_di H (Suc n) U) U s i 2 (lua_type t) (array_items us 2) (set_lua s (lpush (LInt 1) l) w) =
      Ret ((True, length vs, lua_type t), set_lua s l w)"
    using checkarray_loop_array [OF lua a, of 1 H n U "LInt 1"] v by (simp add: numeral_2_eq_2 del: di_lua_type_to_di.simps)
  then show ?thesis using lua tb items ty element_type_array [OF lua array_at_push [OF array_at_push [OF a]], of 0 H n U "the (lua_scalar v)" "LInt 1"] vs
    by (simp add: di_lua_checkarray_def del: di_lua_type_to_di.simps)
qed

lemma table_elements_array:
  assumes lua: "lua_of s l0 w" and a: "array_at i l vs t"
  shows "m \<le> length vs \<Longrightarrow> table_elements (di_lua_type_to_di H (Suc n) U) s i (lua_type t) [Suc m..<Suc (length vs)] (set_lua s l w) =
      Ret (map (\<lambda>v. scalar_value (the (lua_scalar v))) (drop m vs), set_lua s l w)"
proof (induction "length vs - m" arbitrary: m)
  case (Suc d)
  then have m: "m < length vs" by simp
  note g = rawgeti_array [OF a m]
  have tb: "table_at i l = Ret \<lparr>lt_items = array_items vs 1, lt_meta = False\<rparr>" using a by (simp add: array_at_def)
  have read: "di_lua_type_to_di H (Suc n) U s (-1) True (set_lua s (lpush (the (lua_scalar (vs ! m))) l) w) =
      Ret ((None, lua_type t, scalar_value (the (lua_scalar (vs ! m)))), set_lua s (lpush (the (lua_scalar (vs ! m))) l) w)"
    using read_scalar [OF lua_of_set [OF lua], where v = "vs ! m"] g by (simp del: di_lua_type_to_di.simps)
  have "[Suc m..<Suc (length vs)] = Suc m # [Suc (Suc m)..<Suc (length vs)]" using m by (simp add: upt_conv_Cons)
  moreover have "drop m vs = vs ! m # drop (Suc m) vs" using m by (simp add: Cons_nth_drop_Suc)
  ultimately show ?case using lua tb read g(1) Suc.hyps(1) [of "Suc m"] Suc.hyps(2) m
    by (simp add: array_element_def del: di_lua_type_to_di.simps upt_Suc)
qed simp

lemma push_array:
  assumes h: "lua53 H" and lua: "lua_of s l w" and v: "flat (VArray t (Some vs))"
  defines "k \<equiv> lua_next_id l"
  defines "l' \<equiv> with_table k (array_items vs 1) (lpush (LTable k) (l\<lparr>lua_next_id := Suc k\<rparr>))"
  shows "di_lua_pushvariant H U s name (VArray t (Some vs)) w = Ret (1, set_lua s l' w)"
proof -
  obtain v us where vs: "vs = v # us" "di_typeof v = t" "lua_scalar v \<noteq> None" using v by (cases vs) auto
  then have "t \<noteq> DI_TYPE_ANY \<and> (\<exists>sz. di_sizeof_type t = Ret sz)"
    by (cases v rule: lua_scalar.cases) auto
  then obtain sz where t: "t \<noteq> DI_TYPE_ANY" "di_sizeof_type t = Ret sz" by blast
  have "push_table l = with_table k (array_items [] 1) (lpush (LTable k) (l\<lparr>lua_next_id := Suc k\<rparr>))"
    by (simp add: push_table_def with_table_def k_def lpush_def array_items_def Let_def)
  moreover have "push_elements H U s (Suc (length [])) vs (set_lua s (with_table k (array_items [] 1) (lpush (LTable k) (l\<lparr>lua_next_id := Suc k\<rparr>))) w) =
      Ret (set_lua s l' w)"
    using v push_elements_fill [OF h lua, of vs "[]" "lpush (LTable k) (l\<lparr>lua_next_id := Suc k\<rparr>)" k "lstack l" U] by (auto simp: l'_def)
  ultimately show ?thesis using t by (simp add: upd_lua_of [OF lua] ret1_def)
qed

lemma read_array:
  assumes lua: "lua_of s l0 w" and a: "array_at i l vs t" and vs: "vs \<noteq> []" and i: "lindex i l = LTable k"
  shows "di_lua_type_to_di H (Suc (Suc n)) U s i True (set_lua s l w) =
    Ret ((None, DI_TYPE_ARRAY, lua_image (VArray t (Some vs))), set_lua s l w)"
proof -
  have tb: "table_at i l = Ret \<lparr>lt_items = array_items vs 1, lt_meta = False\<rparr>" using a by (simp add: array_at_def)
  obtain v us where v: "vs = v # us" "di_typeof v = t" "lua_scalar v \<noteq> None" using a vs by (cases vs) (auto simp: array_at_def)
  then have "\<exists>sz. di_sizeof_type (lua_type t) = Ret sz \<and> sz \<noteq> 0"
    by (cases v rule: lua_scalar.cases) (auto simp: lua_type_def is_integer_def)
  then obtain sz where "di_sizeof_type (lua_type t) = Ret sz" "sz \<noteq> 0" by blast
  then have "di_lua_table_to_array (di_lua_type_to_di H (Suc n) U) s i (length vs) (lua_type t) (set_lua s l w) =
      Ret (lua_image (VArray t (Some vs)), set_lua s l w)"
    using table_elements_array [OF lua a, of 0 H n U] by (simp add: di_lua_table_to_array_def del: di_lua_type_to_di.simps upt_Suc)
  then show ?thesis using lua i tb checkarray_array [OF lua a vs, of H n U] vs
    by (subst di_lua_type_to_di.simps) (simp add: Let_def del: di_lua_type_to_di.simps)
qed

lemma scalar_roundtrip:
  assumes h: "lua53 H" and lua: "lua_of s l w" and v: "lua_scalar v \<noteq> None" "lua_image v = scalar_value (the (lua_scalar v))"
  shows "\<exists>u l1. di_lua_pushvariant H U s name v w = Ret (1, set_lua s l1 w) \<and> lstack l1 = u # lstack l \<and>
    di_lua_type_to_di H (Suc (Suc n)) U s (int (length (lstack l1))) True (set_lua s l1 w) =
      Ret ((None, di_typeof (lua_image v), lua_image v), set_lua s l1 w)"
proof -
  obtain u where u: "lua_scalar v = Some u" using v(1) by blast
  have "lindex (int (length (lstack (lpush u l)))) (lpush u l) = u" by (rule lindex_top) simp
  then have "di_lua_type_to_di H (Suc (Suc n)) U s (int (length (lstack (lpush u l)))) True (set_lua s (lpush u l) w) =
      Ret ((None, di_typeof (lua_image v), lua_image v), set_lua s (lpush u l) w)"
    using read_scalar [OF lua_of_set [OF lua], of _ "lpush u l" v H "Suc n" U] u v(2) lua_scalar_type [OF u] by (simp del: di_lua_type_to_di.simps)
  then show ?thesis using push_scalar [OF h lua u] by (intro exI [of _ u] exI [of _ "lpush u l"]) (simp del: di_lua_type_to_di.simps)
qed

text \<open>
  C23. Flat values cross into Lua 5.3 and back.  A flat value is a boolean, number or string, or an array of one
  or more of these of one type; it has no objects, no nested arrays, no tuples, no null strings and no empty
  arrays.  Such a value is pushed as one Lua value, and reading that value at its index gives it back,
  integers as 64-bit integers and literals as strings; nothing else changes and the stack is as before
  the reading.  An unsigned integer of two to the 63 or more comes back negative.  The interpreter is one with
  integers of its own.
\<close>

theorem lua_push_read_roundtrip:
  assumes "lua53 H" and "lua_of s l w" and "flat v"
  shows "\<exists>u l1. di_lua_pushvariant H U s name v w = Ret (1, set_lua s l1 w) \<and> lstack l1 = u # lstack l \<and>
    di_lua_type_to_di H (Suc (Suc n)) U s (int (length (lstack l1))) True (set_lua s l1 w) =
      Ret ((None, di_typeof (lua_image v), lua_image v), set_lua s l1 w)"
  using assms(3)
proof (induction v arbitrary: name rule: flat.induct)
  case (1 t vs)
  let ?k = "lua_next_id l"
  let ?l = "with_table ?k (array_items vs 1) (lpush (LTable ?k) (l\<lparr>lua_next_id := Suc ?k\<rparr>))"
  have st: "lstack ?l = LTable ?k # lstack l" by (simp add: with_table_def lpush_def)
  have top: "lindex (int (length (lstack ?l))) ?l = LTable ?k" by (rule lindex_top [OF st])
  have "array_at (int (length (lstack ?l))) ?l vs t"
    using 1 top by (simp add: array_at_def table_at_def st) (simp add: with_table_def)
  then show ?case using push_array [OF assms(1,2) 1] read_array [OF assms(2) _ _ top] 1 st
    by (intro exI [of _ "LTable ?k"] exI [of _ ?l]) (simp del: di_lua_type_to_di.simps di_lua_pushvariant.simps)
next
  case (2 v)
  then show ?case by (simp del: di_lua_type_to_di.simps)
qed (rule scalar_roundtrip [OF assms(1,2)]; simp)+

section \<open>Indices\<close>

lemma relative_table_faults:
  assumes "lua_of s l w" "lindex (-1) l = LTable t" "ltables l t = Some tb"
  shows "di_lua_type_to_di H (Suc n) U s (-1) want w = Fault Type_Confusion"
  using assms by (simp add: get_lua_of Let_def di_lua_checkarray_def table_at_def)

text \<open>
  Nested tables.  The code that decides whether a table is an array pushes a nil before it uses the
  index of the table, and converts every element at the index -1.  Hence a table whose first element is
  a table makes \<open>lua_next\<close> run on that nil: the conversion of such a table, at any index, is undefined
  behaviour.
\<close>

theorem lua_nested_table_faults:
  assumes lua: "lua_of s l w" and i: "0 < i" "nat i \<le> length (lstack l)"
    and tb: "lindex i l = LTable t" "ltables l t = Some tb" and el: "rawgeti 1 tb = LTable t'" "ltables l t' = Some tb'"
  shows "di_lua_type_to_di H (Suc (Suc n)) U s i want w = Fault Type_Confusion"
proof -
  have at: "table_at i l = Ret tb" using tb by (simp add: table_at_def)
  obtain key v items where items: "lt_items tb = (key, v) # items"
    using el(1) by (cases "lt_items tb") (auto simp: rawgeti_def)
  let ?l = "lpush v (lpush key l)"
  have "element_type (di_lua_type_to_di H (Suc n) U) U s i 1 (set_lua s ?l w) = Fault Type_Confusion"
    using lua i at el relative_table_faults [OF lua_of_set [OF lua], of "lpush (LTable t') ?l" t' tb' H n U True]
    by (simp add: element_type_def del: di_lua_type_to_di.simps)
  then have "di_lua_checkarray (di_lua_type_to_di H (Suc n) U) U s i w = Fault Type_Confusion"
    using i at items by (simp add: di_lua_checkarray_def get_lua_of [OF lua] put_lua_of [OF lua] del: di_lua_type_to_di.simps)
  then show ?thesis using tb(1) at by (subst di_lua_type_to_di.simps) (simp add: Let_def get_lua_of [OF lua] del: di_lua_type_to_di.simps)
qed

lemma lua_object_of_top:
  assumes lua: "lua_of s l w" and top: "lstack l = v # st" "v \<noteq> LNil"
    and script: "heap w (lscript l) = Some y" "lscript l \<noteq> s" and fresh: "s < next_addr w" "lscript l < next_addr w"
  shows "\<exists>w1 l1 r. lua_type_to_di_object H U s cl w = Ret (next_addr w, w1) \<and> lua_of s l1 w1 \<and>
    get_lua_ref (next_addr w) w1 = Ret r \<and> registry_value r l1 = v \<and> lstack l1 = lstack l"
proof -
  obtain x where x: "heap w s = Some x" "payload x = PLuaState l" using lua by (auto simp: lua_of_def)
  have ix: "lindex (-1) l = v" "lpop (Suc 0) l = l\<lparr>lstack := st\<rparr>" using top(1) by (simp_all add: lindex_def lpop_def)
  have ne: "s \<noteq> next_addr w" "lscript l \<noteq> next_addr w" "next_addr w \<noteq> s" "next_addr w \<noteq> lscript l" using fresh by auto
  show ?thesis using x ix top script ne fresh
    by (simp add: get_lua_of [OF lua] Let_def lua_type_to_di_object_def run_simps luaL_ref_def
        put_lua_def put_payload_def lua_of_def get_lua_ref_def registry_value_def di_set_object_call_def)
qed

text \<open>
  Functions and tables as arguments.  An object made for a function refers to whatever is on top of
  the stack at that moment, not to the value being converted.  So an argument that is a function and
  not the last one becomes an object for the last argument.
\<close>

theorem lua_reference_takes_top:
  assumes lua: "lua_of s l w" and f: "lindex i l = LFun f" and top: "lstack l = v # st" "v \<noteq> LNil"
    and script: "heap w (lscript l) = Some y" "lscript l \<noteq> s" and fresh: "s < next_addr w" "lscript l < next_addr w"
  shows "\<exists>p w1 l1 r. di_lua_type_to_di H (Suc n) U s i True w = Ret ((None, DI_TYPE_OBJECT, VObject p), w1) \<and>
    lua_of s l1 w1 \<and> get_lua_ref p w1 = Ret r \<and> registry_value r l1 = v \<and> lstack l1 = lstack l"
  using lua_object_of_top [OF lua top script fresh, of H U "Some (Call_ext (lh_fn H ''call_lua_function''))"] f
  by (auto simp: get_lua_of [OF lua] Let_def)

section \<open>One proxy per object\<close>

text \<open>
  The three records of an object that Lua has a proxy of: the entry of the hash table, the weak reference
  in the registry, the member of the state that owns the object.
\<close>

definition tracks :: "oref \<Rightarrow> lua_state \<Rightarrow> world \<Rightarrow> bool" where
  "tracks s l w \<longleftrightarrow> lua_of s l w \<and> table_ok (obj_refs l) \<and> finite (dom (lregistry l)) \<and>
     (\<forall>x. heap w s = Some x \<longrightarrow> table_ok (members x)) \<and> (\<forall>u. lua_next_id l \<le> u \<longrightarrow> lusers l u = None) \<and>
     (\<forall>p r. hash_find p (obj_refs l) = Some r \<longrightarrow> 0 \<le> r \<and> member_map s w (object_member_name r) = Some (VObject p) \<and>
        (\<exists>u n. lregistry l r = Some (Reg_weak u) \<and> lusers l u = Some (Proxy_object p n))) \<and>
     (\<forall>r. 0 \<le> r \<longrightarrow> member_map s w (object_member_name r) \<noteq> None \<longrightarrow> lregistry l r \<noteq> None)"

definition ref_ok :: "lua_host \<Rightarrow> bool" where
  "ref_ok H \<longleftrightarrow> (\<forall>reg. finite (dom reg) \<longrightarrow> 0 \<le> lh_ref H reg \<and> reg (lh_ref H reg) = None)"

lemma object_member_name_inject: "0 \<le> r \<Longrightarrow> 0 \<le> q \<Longrightarrow> (object_member_name r = object_member_name q) = (r = q)"
proof -
  assume nn: "0 \<le> r" "0 \<le> q"
  have "show_nat (nat r) = show_nat (nat q) \<Longrightarrow> nat r = nat q"
    using digits_value_show_nat [of "nat r"] digits_value_show_nat [of "nat q"] by metis
  then show ?thesis using nn unfolding object_member_name_def show_int_def by (cases "r = q") auto
qed

lemma check_object_member: "hash_find (object_member_name r) (members x) = None \<Longrightarrow> check_new_member x (object_member_name r) = None"
proof -
  assume a: "hash_find (object_member_name r) (members x) = None"
  have "\<not> starts_with ''__get_'' (object_member_name r)" "\<not> starts_with ''__set_'' (object_member_name r)"
    "\<not> starts_with (take (length ''__set_'') ''__delete_'') (object_member_name r)"
    by (simp_all add: object_member_name_def starts_with_def)
  with a show ?thesis by (simp add: check_new_member_def Let_def)
qed

lemma tracksD:
  assumes "tracks s l w"
  shows "lua_of s l w" "table_ok (obj_refs l)" "finite (dom (lregistry l))" "heap w s = Some x \<Longrightarrow> table_ok (members x)"
    "lua_next_id l \<le> u \<Longrightarrow> lusers l u = None"
    "hash_find p (obj_refs l) = Some r \<Longrightarrow> 0 \<le> r \<and> member_map s w (object_member_name r) = Some (VObject p) \<and>
       (\<exists>u n. lregistry l r = Some (Reg_weak u) \<and> lusers l u = Some (Proxy_object p n))"
    "0 \<le> r \<Longrightarrow> lregistry l r = None \<Longrightarrow> member_map s w (object_member_name r) = None"
  using assms unfolding tracks_def by blast+

text \<open>The state with one more record.\<close>

definition with_proxy :: "oref \<Rightarrow> string option \<Rightarrow> int \<Rightarrow> lua_state \<Rightarrow> lua_state" where
  "with_proxy p name r l = (push_user (Proxy_object p name) l)\<lparr>lregistry := (lregistry l)(r \<mapsto> Reg_weak (lua_next_id l)),
     obj_refs := hash_add p r (obj_refs l)\<rparr>"

lemma push_user_simps [simp]:
  "lstack (push_user u l) = LUser (lua_next_id l) # lstack l" "lregistry (push_user u l) = lregistry l"
  "obj_refs (push_user u l) = obj_refs l" "lusers (push_user u l) = (lusers l)(lua_next_id l \<mapsto> u)"
  "lua_next_id (push_user u l) = Suc (lua_next_id l)"
  by (simp_all add: push_user_def lpush_def Let_def)

lemma with_proxy_simps [simp]:
  "lstack (with_proxy p name r l) = LUser (lua_next_id l) # lstack l"
  "lregistry (with_proxy p name r l) = (lregistry l)(r \<mapsto> Reg_weak (lua_next_id l))"
  "obj_refs (with_proxy p name r l) = hash_add p r (obj_refs l)"
  "lusers (with_proxy p name r l) = (lusers l)(lua_next_id l \<mapsto> Proxy_object p name)"
  "lua_next_id (with_proxy p name r l) = Suc (lua_next_id l)"
  by (simp_all add: with_proxy_def)

lemma new_proxy_Ret:
  assumes x: "heap w s = Some x" "payload x = PLuaState l" and m: "hash_find (object_member_name r) (members x) = None"
    and r: "r = lh_ref H (lregistry l)"
  shows "new_object_proxy H U s name p w = Ret (set_lua s (with_proxy p name r l) (with_member s x (object_member_name r) (VObject p) w))"
proof -
  have lua: "lua_of s l w" using x by (auto simp: lua_of_def)
  let ?l1 = "push_user (Proxy_object p name) l"
  let ?l2 = "?l1\<lparr>lregistry := (lregistry l)(r \<mapsto> Reg_weak (lua_next_id l))\<rparr>"
  let ?x = "x\<lparr>payload := PLuaState ?l2\<rparr>" and ?nm = "object_member_name r"
  have weak: "luaL_weakref H (lpush (lindex (-1) ?l1) ?l1) = Ret (r, ?l2)"
    by (simp add: luaL_weakref_def r push_user_def Let_def lpush_def lpop_def lindex_def)
  have h: "heap (set_lua s ?l2 w) s = Some ?x" using x by (simp add: set_lua_def)
  have "check_new_member ?x ?nm = None" by (rule check_object_member) (simp add: m)
  then have add: "di_add_member_move U s (Some ?nm) (VObject p) (set_lua s ?l2 w) = Ret (Inr (), with_member s ?x ?nm (VObject p) (set_lua s ?l2 w))"
    using di_add_member_Ret [OF h] by (simp add: di_add_member_move_def)
  have "upd_lua (\<lambda>l2. l2\<lparr>obj_refs := hash_add p r (obj_refs l2)\<rparr>) s (with_member s ?x ?nm (VObject p) (set_lua s ?l2 w)) =
      Ret (set_lua s (with_proxy p name r l) (with_member s x ?nm (VObject p) w))"
    using x by (simp add: upd_lua_def get_lua_def put_lua_def put_payload_def get_obj_def with_member_def set_lua_def with_proxy_def put_obj_def)
  then show ?thesis using lua weak add
    by (simp add: new_object_proxy_def di_lua_pushproxy_def upd_lua_of [OF lua])
qed

lemma new_proxy_step:
  assumes tr: "tracks s l w" and H: "ref_ok H" and p: "hash_find p (obj_refs l) = None"
  shows "\<exists>w' l'. new_object_proxy H U s name p w = Ret w' \<and> tracks s l' w' \<and> lstack l' = LUser (lua_next_id l) # lstack l \<and>
    lusers l' (lua_next_id l) = Some (Proxy_object p name) \<and> hash_find p (obj_refs l') \<noteq> None \<and> (\<forall>q. q \<noteq> s \<longrightarrow> heap w' q = heap w q)"
proof -
  note D = tracksD [OF tr]
  obtain x where x: "heap w s = Some x" "payload x = PLuaState l" using D(1) by (auto simp: lua_of_def)
  define r where "r = lh_ref H (lregistry l)"
  have r: "0 \<le> r" "lregistry l r = None" using H D(3) by (auto simp: ref_ok_def r_def)
  have m: "hash_find (object_member_name r) (members x) = None" using D(7) [OF r] x(1) by (simp add: member_map_def)
  let ?w1 = "with_member s x (object_member_name r) (VObject p) w" and ?l = "with_proxy p name r l"
  note t = D(4) [OF x(1)]
  have mm: "member_map s ?w1 = (member_map s w)(object_member_name r \<mapsto> VObject p)"
    using member_map_with_member [OF t m x(1)] by simp
  have "tracks s ?l (set_lua s ?l ?w1)" unfolding tracks_def
  proof (intro conjI allI impI)
    show "lua_of s ?l (set_lua s ?l ?w1)" using x(1) by (simp add: lua_of_def set_lua_def with_member_def)
    show "table_ok (obj_refs ?l)" using alist.invar_add [OF D(2) p] by simp
    show "finite (dom (lregistry ?l))" using D(3) by simp
    show "table_ok (members y)" if "heap (set_lua s ?l ?w1) s = Some y" for y
      using that x(1) alist.invar_add [OF t m] by (auto simp: set_lua_def with_member_def)
    show "lusers ?l u = None" if "lua_next_id ?l \<le> u" for u using that D(5) by auto
  next
    fix q k assume a: "hash_find q (obj_refs ?l) = Some k"
    then have c: "q = p \<and> k = r \<or> q \<noteq> p \<and> hash_find q (obj_refs l) = Some k"
      using alist.find_add [OF D(2) p, of q r] by (auto split: if_splits)
    then show "0 \<le> k" using r D(6) by blast
    show "member_map s (set_lua s ?l ?w1) (object_member_name k) = Some (VObject q)"
      using c r D(6) [of q k] object_member_name_inject [of r k] by (auto simp: mm)
    show "\<exists>u n. lregistry ?l k = Some (Reg_weak u) \<and> lusers ?l u = Some (Proxy_object q n)"
      using c r D(6) [of q k] D(5) by (fastforce split: if_splits)
  next
    fix k assume "0 \<le> (k :: int)" "member_map s (set_lua s ?l ?w1) (object_member_name k) \<noteq> None"
    then show "lregistry ?l k \<noteq> None"
      using D(7) [of k] r object_member_name_inject [of k r] by (cases "lregistry l k") (auto simp: mm split: if_splits)
  qed
  moreover have "hash_find p (obj_refs ?l) \<noteq> None" using alist.find_add [OF D(2) p, of p r] by simp
  moreover have "heap (set_lua s ?l ?w1) q = heap w q" if "q \<noteq> s" for q
    using that x(1) by (simp add: set_lua_def with_member_def)
  ultimately show ?thesis using new_proxy_Ret [OF x m r_def]
    by (intro exI [of _ "set_lua s ?l ?w1"] exI [of _ ?l]) simp
qed

text \<open>Forgetting an object that somebody else still holds.\<close>

definition without_proxy :: "oref \<Rightarrow> int \<Rightarrow> lua_state \<Rightarrow> lua_state" where
  "without_proxy p r l = l\<lparr>obj_refs := hash_del p (obj_refs l), lregistry := (lregistry l)(r := None)\<rparr>"

lemma forget_step:
  assumes tr: "tracks s l w" and p: "hash_find p (obj_refs l) = Some r" "p \<noteq> s" "heap w p = Some y" "ref_count y \<noteq> 0" "ref_count y \<noteq> 1"
    and U: "U = di_unref_object E (Suc n)"
  shows "\<exists>w'. di_lua_forget_object U s p r w = Ret w' \<and> tracks s (without_proxy p r l) w' \<and>
    heap w' p = Some (y\<lparr>ref_count := ref_count y - 1\<rparr>) \<and> (\<forall>q. q \<noteq> s \<and> q \<noteq> p \<longrightarrow> heap w' q = heap w q)"
proof -
  note D = tracksD [OF tr]
  obtain x where x: "heap w s = Some x" "payload x = PLuaState l" using D(1) by (auto simp: lua_of_def)
  note t = D(4) [OF x(1)]
  have r: "0 \<le> r" "member_map s w (object_member_name r) = Some (VObject p)" using D(6) [OF p(1)] by simp_all
  obtain m where m: "hash_find (object_member_name r) (members x) = Some m" "m_val m = VObject p"
    using r(2) x(1) by (auto simp: member_map_def)
  let ?nm = "object_member_name r" and ?l1 = "l\<lparr>obj_refs := hash_del p (obj_refs l)\<rparr>" and ?l = "without_proxy p r l"
  let ?z = "y\<lparr>ref_count := ref_count y - 1\<rparr>"
  let ?x = "x\<lparr>members := hash_del ?nm (members x), payload := PLuaState ?l\<rparr>"
  let ?x1 = "x\<lparr>payload := PLuaState ?l1, members := hash_del ?nm (members x)\<rparr>"
  let ?w = "put_obj p ?z (put_obj s ?x w)"
  have "di_remove_member_raw U s (Some ?nm) (set_lua s ?l1 w) = Ret (Inr (), put_obj p ?z (put_obj s ?x1 w))"
    unfolding U using x m p unref_shared [of "put_obj s ?x1 w" p y E n]
    by (simp add: di_remove_member_raw_def di_lookup_def get_obj_def di_remove_member_raw_impl_def set_lua_def put_obj_def
        del: di_unref_object.simps)
  moreover have "upd_lua (luaL_unref r) s (put_obj p ?z (put_obj s ?x1 w)) = Ret ?w"
    using p(2) r(1) by (simp add: upd_lua_def get_lua_def get_obj_def put_lua_def put_payload_def luaL_unref_def without_proxy_def
        put_obj_def fun_upd_twist)
  ultimately have run: "di_lua_forget_object U s p r w = Ret ?w"
    by (simp add: di_lua_forget_object_def upd_lua_of [OF D(1)])
  have mm: "member_map s ?w = (member_map s w)(?nm := None)"
    using x p(2) alist.find_del [OF t, of _ ?nm] by (auto simp: member_map_def fun_eq_iff)
  have "tracks s ?l ?w" unfolding tracks_def
  proof (intro conjI allI impI)
    show "lua_of s ?l ?w" using p(2) by (simp add: lua_of_def)
    show "table_ok (obj_refs ?l)" using alist.invar_del [OF D(2)] by (simp add: without_proxy_def)
    show "finite (dom (lregistry ?l))" using D(3) by (simp add: without_proxy_def)
    show "table_ok (members z)" if "heap ?w s = Some z" for z using that p(2) alist.invar_del [OF t] by auto
    show "lusers ?l u = None" if "lua_next_id ?l \<le> u" for u using that D(5) by (simp add: without_proxy_def)
  next
    fix q k assume "hash_find q (obj_refs ?l) = Some k"
    then have c: "q \<noteq> p" "hash_find q (obj_refs l) = Some k" using alist.find_del [OF D(2), of q p] by (auto simp: without_proxy_def split: if_splits)
    note Dq = D(6) [OF c(2)]
    then have kr: "k \<noteq> r" using r(2) c(1) by auto
    show "0 \<le> k" using Dq by simp
    show "member_map s ?w (object_member_name k) = Some (VObject q)"
      using Dq kr object_member_name_inject [of k r] r(1) unfolding mm by simp
    show "\<exists>u n. lregistry ?l k = Some (Reg_weak u) \<and> lusers ?l u = Some (Proxy_object q n)" using Dq kr by (simp add: without_proxy_def)
  next
    fix k assume "0 \<le> (k :: int)" "member_map s ?w (object_member_name k) \<noteq> None"
    then show "lregistry ?l k \<noteq> None" using D(7) [of k] unfolding mm by (cases "lregistry l k") (auto simp: without_proxy_def split: if_splits)
  qed
  then show ?thesis using run p(2,3) by auto
qed

lemma tracks_other: "p \<noteq> s \<Longrightarrow> tracks s l (put_obj p z w) = tracks s l w"
proof -
  assume "p \<noteq> s"
  then have "heap (put_obj p z w) s = heap w s" "member_map s (put_obj p z w) = member_map s w"
    by (simp_all add: member_map_def fun_eq_iff)
  then show ?thesis unfolding tracks_def lua_of_def by simp
qed

lemma tracks_push:
  assumes "tracks s l w"
  shows "tracks s (lpush v l) (set_lua s (lpush v l) w)"
proof -
  note D = tracksD [OF assms]
  have "lua_next_id (lpush v l) = lua_next_id l" by (simp add: lpush_def)
  moreover have "table_ok (members x)" if "heap (set_lua s (lpush v l) w) s = Some x" for x
    using that D(1,4) by (auto simp: set_lua_def lua_of_def)
  ultimately show ?thesis using assms unfolding tracks_def by (auto simp: lua_of_set)
qed

text \<open>
  C24. One proxy per object.  Pushing an object keeps the three records of the plugin in step: the hash
  table, the weak reference in the registry, and the member of the state that owns the object.  An
  object that was pushed before is pushed as the same proxy, and the reference handed over is dropped.
  When that proxy was collected but not finalized yet, a new one is made; then a stray nil stays on
  the stack below it.
\<close>

theorem lua_pushobject_tracks:
  assumes tr: "tracks s l w" and H: "ref_ok H" and p: "p \<noteq> s" "heap w p = Some y"
    and held: "hash_find p (obj_refs l) \<noteq> None \<longrightarrow> ref_count y \<noteq> 0 \<and> ref_count y \<noteq> 1" and U: "U = di_unref_object E (Suc n)"
  shows "\<exists>w' l' u name'. di_lua_pushobject H U s name p w = Ret w' \<and> tracks s l' w' \<and> hash_find p (obj_refs l') \<noteq> None \<and>
    lusers l' u = Some (Proxy_object p name') \<and>
    (case hash_find p (obj_refs l) of
       None \<Rightarrow> lstack l' = LUser u # lstack l
     | Some r \<Rightarrow> heap w' p = Some (y\<lparr>ref_count := ref_count y - 1\<rparr>) \<and>
         (\<exists>u0. lregistry l r = Some (Reg_weak u0) \<and>
            (if ldead l u0 then lstack l' = LUser u # LNil # lstack l else u = u0 \<and> lstack l' = LUser u # lstack l)))"
proof (cases "hash_find p (obj_refs l)")
  case None
  then show ?thesis using new_proxy_step [OF tr H None, of U name] get_lua_of [OF tracksD(1) [OF tr]]
    by (auto simp: di_lua_pushobject_def)
next
  case (Some r)
  note D = tracksD [OF tr]
  obtain u0 n0 where u0: "lregistry l r = Some (Reg_weak u0)" "lusers l u0 = Some (Proxy_object p n0)" using D(6) [OF Some] by blast
  show ?thesis
  proof (cases "ldead l u0")
    case False
    let ?w1 = "set_lua s (lpush (LUser u0) l) w" and ?z = "y\<lparr>ref_count := ref_count y - 1\<rparr>"
    have h: "heap ?w1 p = Some y" using p D(1) by (auto simp: set_lua_def lua_of_def)
    have tr': "tracks s (lpush (LUser u0) l) (put_obj p ?z ?w1)"
      using tracks_push [OF tr, of "LUser u0"] tracks_other [OF p(1)] by simp
    have "di_lua_pushobject H U s name p w = Ret (put_obj p ?z ?w1)"
      unfolding U using Some u0 False held unref_shared [OF h] get_lua_of [OF D(1)] put_lua_of [OF D(1)]
      by (simp add: di_lua_pushobject_def luaL_weakref_get_def del: di_unref_object.simps)
    then show ?thesis using tr' Some u0 False
      by (intro exI [of _ "put_obj p ?z ?w1"] exI [of _ "lpush (LUser u0) l"] exI [of _ u0] exI [of _ n0]) simp
  next
    case True
    let ?l1 = "lpush LNil l" and ?w1 = "set_lua s (lpush LNil l) w"
    have h: "heap ?w1 p = Some y" using p D(1) by (auto simp: set_lua_def lua_of_def)
    obtain w2 where w2: "di_lua_forget_object U s p r ?w1 = Ret w2" "tracks s (without_proxy p r ?l1) w2" "heap w2 p = Some (y\<lparr>ref_count := ref_count y - 1\<rparr>)"
      using forget_step [OF tracks_push [OF tr, of LNil], of p r y U E n] Some p(1) h held U by auto
    have none: "hash_find p (obj_refs (without_proxy p r ?l1)) = None" using alist.find_del [OF D(2), of p p] by (simp add: without_proxy_def)
    obtain w3 l3 where w3: "new_object_proxy H U s name p w2 = Ret w3" "tracks s l3 w3"
      "lstack l3 = LUser (lua_next_id l) # LNil # lstack l" "lusers l3 (lua_next_id l) = Some (Proxy_object p name)"
      "hash_find p (obj_refs l3) \<noteq> None" "heap w3 p = heap w2 p"
      using new_proxy_step [OF w2(2) H none, of U name] p(1) by (auto simp: without_proxy_def lpush_def)
    have "di_lua_pushobject H U s name p w = Ret w3"
      using Some u0 True w2(1) w3(1) get_lua_of [OF D(1)] put_lua_of [OF D(1)] by (simp add: di_lua_pushobject_def luaL_weakref_get_def)
    then show ?thesis using w2(3) w3 Some u0 True
      by (intro exI [of _ w3] exI [of _ l3] exI [of _ "lua_next_id l"] exI [of _ name]) simp
  qed
qed

section \<open>A concrete state\<close>

text \<open>
  The state object at address 1, a script at 2, another object at 3; the registry hands out the
  reference after the largest one, and Lua code returns nil.
\<close>

definition example_host :: lua_host where
  "example_host = \<lparr>lh_fn = length, lh_ref = \<lambda>reg. Max (insert 0 (dom reg)) + 1, lh_integer = LInt, lh_number = LNum, lh_pcall = \<lambda>s f args w. Ret (Inr LNil, w)\<rparr>"

definition example_lua :: "lua_val list \<Rightarrow> (nat \<Rightarrow> lua_table option) \<Rightarrow> lua_state" where
  "example_lua st tbs = new_lua_state\<lparr>lstack := st, ltables := tbs, lscript := 2, lua_next_id := 9\<rparr>"

definition lua_world :: "lua_val list \<Rightarrow> (nat \<Rightarrow> lua_table option) \<Rightarrow> world" where
  "lua_world st tbs = \<lparr>heap = [1 \<mapsto> empty_object\<lparr>payload := PLuaState (example_lua st tbs)\<rparr>, 2 \<mapsto> empty_object, 3 \<mapsto> empty_object],
     sigs = Map.empty, next_addr = 10, all_objects = [3, 2, 1], log_lines = []\<rparr>"

lemma lua_world_of: "lua_of 1 (example_lua st tbs) (lua_world st tbs)"
  by (simp add: lua_of_def lua_world_def)

lemma example_host_ref: "ref_ok example_host"
proof -
  have "0 \<le> Max (insert 0 (dom reg)) + 1 \<and> reg (Max (insert 0 (dom reg)) + 1) = None" if "finite (dom reg)" for reg :: "int \<Rightarrow> lua_reg option"
  proof
    have ge: "x \<le> Max (insert 0 (dom reg))" if "x \<in> insert 0 (dom reg)" for x using that \<open>finite (dom reg)\<close> by (intro Max_ge) auto
    show "0 \<le> Max (insert 0 (dom reg)) + 1" using ge [of 0] by simp
    show "reg (Max (insert 0 (dom reg)) + 1) = None" using ge [of "Max (insert 0 (dom reg)) + 1"] by (cases "reg (Max (insert 0 (dom reg)) + 1)") auto
  qed
  then show ?thesis by (simp add: ref_ok_def example_host_def)
qed

theorem lua_push_read_roundtrip_witness:
  "\<exists>u l1. di_lua_pushvariant example_host drop_ref 1 None (VArray DI_TYPE_NINT (Some [VNint 3, VNint (-1)])) (lua_world [] Map.empty) =
      Ret (1, set_lua 1 l1 (lua_world [] Map.empty)) \<and> lstack l1 = [u] \<and>
    di_lua_type_to_di example_host 2 drop_ref 1 1 True (set_lua 1 l1 (lua_world [] Map.empty)) =
      Ret ((None, DI_TYPE_ARRAY, VArray DI_TYPE_INT (Some [VInt 3, VInt (-1)])), set_lua 1 l1 (lua_world [] Map.empty))"
proof -
  let ?v = "VArray DI_TYPE_NINT (Some [VNint 3, VNint (-1)])"
  have "flat ?v" by simp
  have "lua53 example_host" by (simp add: lua53_def example_host_def)
  from lua_push_read_roundtrip [OF this lua_world_of \<open>flat ?v\<close>, of drop_ref None "[]" Map.empty 0]
  obtain u l1 where r: "di_lua_pushvariant example_host drop_ref 1 None ?v (lua_world [] Map.empty) = Ret (1, set_lua 1 l1 (lua_world [] Map.empty))"
    "lstack l1 = [u]" "di_lua_type_to_di example_host (Suc (Suc 0)) drop_ref 1 1 True (set_lua 1 l1 (lua_world [] Map.empty)) =
      Ret ((None, di_typeof (lua_image ?v), lua_image ?v), set_lua 1 l1 (lua_world [] Map.empty))"
    by (auto simp: example_lua_def simp del: di_lua_type_to_di.simps di_lua_pushvariant.simps lua_image.simps)
  have "lua_image ?v = VArray DI_TYPE_INT (Some [VInt 3, VInt (-1)])" by (simp add: lua_type_def is_integer_def)
  then show ?thesis using r by (intro exI [of _ u] exI [of _ l1]) (simp add: numeral_2_eq_2 del: di_lua_type_to_di.simps di_lua_pushvariant.simps lua_image.simps)
qed

theorem lua_nested_table_faults_witness:
  "di_lua_type_to_di example_host 2 drop_ref 1 1 True
     (lua_world [LTable 5] [5 \<mapsto> \<lparr>lt_items = [(LInt 1, LTable 6)], lt_meta = False\<rparr>, 6 \<mapsto> \<lparr>lt_items = [], lt_meta = False\<rparr>]) =
   Fault Type_Confusion"
proof -
  let ?tbs = "[5 \<mapsto> \<lparr>lt_items = [(LInt 1, LTable 6)], lt_meta = False\<rparr>, 6 \<mapsto> \<lparr>lt_items = [], lt_meta = False\<rparr>]"
  have "lindex 1 (example_lua [LTable 5] ?tbs) = LTable 5" by (simp add: lindex_def example_lua_def)
  then show ?thesis
    using lua_nested_table_faults [OF lua_world_of [of "[LTable 5]" ?tbs], of 1 5 "\<lparr>lt_items = [(LInt 1, LTable 6)], lt_meta = False\<rparr>" 6
        "\<lparr>lt_items = [], lt_meta = False\<rparr>" example_host 0 drop_ref True]
    by (simp add: example_lua_def rawgeti_def numeral_2_eq_2 del: di_lua_type_to_di.simps)
qed

theorem lua_reference_takes_top_witness:
  "\<exists>p w1 l1 r. di_lua_type_to_di example_host 1 drop_ref 1 1 True (lua_world [LInt 42, LFun 7] Map.empty) =
      Ret ((None, DI_TYPE_OBJECT, VObject p), w1) \<and>
    lua_of 1 l1 w1 \<and> get_lua_ref p w1 = Ret r \<and> registry_value r l1 = LInt 42 \<and> lstack l1 = [LInt 42, LFun 7]"
proof -
  let ?w = "lua_world [LInt 42, LFun 7] Map.empty" and ?l = "example_lua [LInt 42, LFun 7] Map.empty"
  have "lindex 1 ?l = LFun 7" by (simp add: lindex_def example_lua_def)
  moreover have "lstack ?l = LInt 42 # [LFun 7]" "lscript ?l = 2" "next_addr ?w = 10" "heap ?w 2 = Some empty_object"
    by (simp_all add: example_lua_def lua_world_def)
  ultimately show ?thesis
    using lua_reference_takes_top [OF lua_world_of [of "[LInt 42, LFun 7]" Map.empty], of 1 7 "LInt 42" "[LFun 7]" empty_object example_host 0 drop_ref]
    by (simp del: di_lua_type_to_di.simps)
qed

theorem lua_pushobject_tracks_witness:
  "\<exists>w' l' u name'. di_lua_pushobject example_host drop_ref 1 None 3 (lua_world [] Map.empty) = Ret w' \<and> tracks 1 l' w' \<and>
    hash_find 3 (obj_refs l') \<noteq> None \<and> lusers l' u = Some (Proxy_object 3 name') \<and> lstack l' = [LUser u]"
proof -
  have tr: "tracks 1 (example_lua [] Map.empty) (lua_world [] Map.empty)"
    by (simp add: tracks_def lua_of_def lua_world_def example_lua_def new_lua_state_def empty_object_def member_map_def)
  have U: "drop_ref = di_unref_object plain_ext (Suc 0)" by (simp add: drop_ref_def)
  have "heap (lua_world [] Map.empty) 3 = Some empty_object" "obj_refs (example_lua [] Map.empty) = []" "lstack (example_lua [] Map.empty) = []"
    by (simp_all add: lua_world_def example_lua_def new_lua_state_def)
  then show ?thesis using lua_pushobject_tracks [OF tr example_host_ref _ _ _ U, of 3 empty_object None] by simp
qed

end
