(* ===== verification/Macros.thy ===== *)
theory Macros
  imports Core
begin

text \<open>
  The call macros of \<open>include/deai/helper.h\<close> the plugins are written with: \<open>di_call\<close> ignores the result of
  a method, \<open>di_callr\<close> wants one of a given type, and \<open>di_mgetm\<close> fetches another module.
\<close>

definition di_call :: "drop_fn \<Rightarrow> call_obj \<Rightarrow> oref \<Rightarrow> string \<Rightarrow> di_value list \<Rightarrow> world \<Rightarrow> (unit outcome \<times> world) res" where
  "di_call U C p name args w =
     bind_res (di_callx U C p (Some name) args w) (\<lambda>(r, _, w1).
       case r of
         Inl e \<Rightarrow> Ret (Inl e, w1)
       | Inr v \<Rightarrow> bind_res (di_free_value U v w1) (\<lambda>w2. Ret (Inr (), w2)))"

definition di_callr :: "drop_fn \<Rightarrow> call_obj \<Rightarrow> oref \<Rightarrow> string \<Rightarrow> di_type \<Rightarrow> di_value list \<Rightarrow> world \<Rightarrow> (di_value outcome \<times> world) res" where
  "di_callr U C p name rt args w =
     bind_res (di_callx U C p (Some name) args w) (\<lambda>(r, _, w1).
       case r of
         Inl e \<Rightarrow> Ret (Inl e, w1)
       | Inr v \<Rightarrow> if di_typeof v \<noteq> rt then bind_res (di_free_value U v w1) (\<lambda>w2. Ret (Inl EINVAL, w2)) else Ret (Inr v, w1))"

text \<open>\<open>di_mgetm\<close>: the module \<open>modn\<close>, or nothing when the core is gone or has no such module.\<close>

definition di_mgetm :: "drop_fn \<Rightarrow> call_obj \<Rightarrow> oref \<Rightarrow> string \<Rightarrow> world \<Rightarrow> (oref option \<times> world) res" where
  "di_mgetm U C m modn w =
     bind_res (di_module_get_deai U C m w) (\<lambda>(di, w1).
       case di of
         None \<Rightarrow> Ret (None, w1)
       | Some d \<Rightarrow>
          bind_res (di_getxt U C d (Some modn) DI_TYPE_OBJECT w1) (\<lambda>(r, w2).
            bind_res (U d w2) (\<lambda>w3.
              case r of
                Inl e \<Rightarrow> Ret (None, w3)
              | Inr (VObject p) \<Rightarrow> Ret (Some p, w3)
              | Inr _ \<Rightarrow> Fault Type_Confusion)))"

end
