(* ===== verification/DBus.thy ===== *)
theory DBus
  imports Sedes Macros Signals
begin

text \<open>
  The D-Bus plugin \<open>plugins/dbus/dbus.c\<close>: connections, the names known on the bus, the signals of remote
  objects, method calls and their replies.

  libdbus is seen through what it answers: a message is a record, sending gives a pending call or fails,
  and the match rules registered at the bus are kept beside the connection.  A name handed over as a
  \<open>struct di_string\<close> comes from a C string, so the byte after it is the terminating NUL.
\<close>

section \<open>Messages and connections\<close>

datatype dbus_msg_type = METHOD_CALL | METHOD_RETURN | ERROR_MSG | SIGNAL_MSG

record dbus_message =
  msg_type :: dbus_msg_type
  msg_sender :: "string option"
  msg_path :: string
  msg_interface :: string
  msg_member :: string
  msg_args :: "dbus_arg list"

definition DBUS_SERVICE_DBUS :: string where "DBUS_SERVICE_DBUS = ''org.freedesktop.DBus''"
definition DBUS_PATH_DBUS :: string where "DBUS_PATH_DBUS = ''/org/freedesktop/DBus''"
definition DBUS_INTERFACE_DBUS :: string where "DBUS_INTERFACE_DBUS = ''org.freedesktop.DBus''"

definition get_conn :: "oref \<Rightarrow> world \<Rightarrow> di_dbus_connection res" where
  "get_conn c w = bind_res (get_obj c w) (\<lambda>x. case payload x of PDBusConnection v \<Rightarrow> Ret v | _ \<Rightarrow> Fault Type_Confusion)"

definition put_conn :: "oref \<Rightarrow> di_dbus_connection \<Rightarrow> world \<Rightarrow> world res" where
  "put_conn c v w = put_payload c (PDBusConnection v) w"

section \<open>Known names\<close>

text \<open>
  \<open>di_dbus_update_name\<close> on the list \<open>known_names\<close>.  An entry is removed when its well-known name \<^emph>\<open>starts
  with\<close> the given one, since only the bytes of the given name are compared.
\<close>

definition strncmp_zero :: "string \<Rightarrow> nat \<Rightarrow> string \<Rightarrow> bool" where
  "strncmp_zero a n b \<longleftrightarrow> take n (cstr a @ [CHR 0x00]) = take n (cstr b @ [CHR 0x00])"

definition di_dbus_update_name :: "(string \<times> string) list \<Rightarrow> di_string \<Rightarrow> di_string \<Rightarrow> di_string \<Rightarrow> bool \<Rightarrow> (string \<times> string) list res" where
  "di_dbus_update_name names wk old unique force_remove =
     (case wk of
        None \<Rightarrow> Fault Null_Deref
      | Some wkb \<Rightarrow>
         if wkb \<noteq> [] \<and> hd wkb = CHR '':'' then Ret names
         else
           let names1 = (if force_remove \<or> 0 < di_string_length old
                         then filter (\<lambda>e. \<not> strncmp_zero wkb (length wkb) (fst e)) names else names) in
           Ret (if di_string_length unique \<noteq> 0 then (cstr wkb, cstr (di_string_bytes unique)) # names1 else names1))"

section \<open>Match rules\<close>

definition name_owner_rule :: "string \<Rightarrow> string" where
  "name_owner_rule busname =
     ''type='signal',sender='org.freedesktop.DBus',path='/org/freedesktop/DBus',interface='org.freedesktop.DBus',member='NameOwnerChanged',arg0=''
       @ [CHR 0x27] @ busname @ [CHR 0x27]"

text \<open>\<open>quoted k v\<close> is the text \<open>k='v'\<close> of a rule.\<close>

definition quoted :: "string \<Rightarrow> string \<Rightarrow> string" where
  "quoted k v = k @ ''='' @ [CHR 0x27] @ v @ [CHR 0x27]"

text \<open>\<open>memchr\<close> and \<open>memrchr\<close>: the bytes before and after the first, or the last, occurrence.\<close>

definition split_first :: "char \<Rightarrow> string \<Rightarrow> (string \<times> string) option" where
  "split_first c s = (if c \<in> set s then Some (takeWhile (\<lambda>x. x \<noteq> c) s, tl (dropWhile (\<lambda>x. x \<noteq> c) s)) else None)"

definition split_last :: "char \<Rightarrow> string \<Rightarrow> (string \<times> string) option" where
  "split_last c s = map_option (\<lambda>(b, a). (rev a, rev b)) (split_first c (rev s))"

text \<open>
  \<open>to_dbus_match_rule\<close>, for a name \<open><bus name>%<path>%<interface>.<signal name>\<close>.  The interface ends at the
  \<^emph>\<open>first\<close> dot.
\<close>

definition to_dbus_match_rule :: "string \<Rightarrow> string option" where
  "to_dbus_match_rule name =
     (case split_first (CHR ''%'') name of
        None \<Rightarrow> None
      | Some (bus, rest) \<Rightarrow>
         (case split_first (CHR ''%'') rest of
            None \<Rightarrow> None
          | Some (path, sig) \<Rightarrow>
             if path = [] then None
             else (case split_first (CHR ''.'') sig of
                 Some (interface, signal) \<Rightarrow>
                   if interface = [] \<or> cstr signal = [] then None
                   else Some (quoted ''type'' ''signal'' @ '','' @ quoted ''sender'' (cstr bus) @ '','' @ quoted ''path'' (cstr path) @ '','' @
                     quoted ''interface'' (cstr interface) @ '','' @ quoted ''member'' (cstr signal))
               | None \<Rightarrow>
                   Some (quoted ''type'' ''signal'' @ '','' @ quoted ''sender'' (cstr bus) @ '','' @ quoted ''path'' (cstr path) @ '','' @
                     quoted ''member'' (cstr sig)))))"

definition signal_rule :: "di_string \<Rightarrow> string option" where
  "signal_rule name =
     (case name of
        None \<Rightarrow> None
      | Some s \<Rightarrow> if s \<noteq> [] \<and> hd s = CHR ''%'' then to_dbus_match_rule (tl s) else None)"

definition di_dbus_new_signal :: "oref \<Rightarrow> di_string \<Rightarrow> world \<Rightarrow> world res" where
  "di_dbus_new_signal c name w =
     bind_res (get_conn c w) (\<lambda>v.
       if dc_conn v = None then Ret w
       else case signal_rule name of
           None \<Rightarrow> Ret w
         | Some match \<Rightarrow> put_conn c (v\<lparr>dc_matches := match # dc_matches v\<rparr>) w)"

definition di_dbus_del_signal :: "oref \<Rightarrow> di_string \<Rightarrow> world \<Rightarrow> world res" where
  "di_dbus_del_signal c name w =
     bind_res (get_conn c w) (\<lambda>v.
       if dc_conn v = None then Ret w
       else case signal_rule name of
           None \<Rightarrow> Ret w
         | Some match \<Rightarrow> put_conn c (v\<lparr>dc_matches := remove1 match (dc_matches v)\<rparr>) w)"

definition di_dbus_unwatch_name :: "oref \<Rightarrow> string \<Rightarrow> world \<Rightarrow> world res" where
  "di_dbus_unwatch_name c busname w =
     bind_res (get_conn c w) (\<lambda>v.
       if dc_conn v = None then Ret w
       else put_conn c (v\<lparr>dc_matches := remove1 (name_owner_rule busname) (dc_matches v)\<rparr>) w)"

section \<open>Signals from the bus\<close>

text \<open>The signals \<open>dbus_filter\<close> emits for one message, in order.\<close>

definition two_signals :: "string \<Rightarrow> dbus_message \<Rightarrow> string list" where
  "two_signals bus m =
     [''%'' @ bus @ ''%'' @ msg_path m @ ''%'' @ msg_interface m @ ''.'' @ msg_member m,
      ''%'' @ bus @ ''%'' @ msg_path m @ ''%'' @ msg_member m]"

definition is_name_owner_changed :: "dbus_message \<Rightarrow> bool" where
  "is_name_owner_changed m \<longleftrightarrow> msg_member m = ''NameOwnerChanged'' \<and> msg_sender m = Some DBUS_SERVICE_DBUS \<and>
     msg_path m = DBUS_PATH_DBUS \<and> msg_interface m = DBUS_INTERFACE_DBUS"

text \<open>\<open>strcmp\<close> on the sender crashes when there is none and the member is \<open>NameOwnerChanged\<close>.\<close>

definition update_on_owner_changed :: "oref \<Rightarrow> dbus_message \<Rightarrow> di_value list \<Rightarrow> world \<Rightarrow> world res" where
  "update_on_owner_changed c m t w =
     (if msg_member m = ''NameOwnerChanged'' \<and> msg_sender m = None then Fault Null_Deref
      else if is_name_owner_changed m then
        (case t of
           VString wk # VString old # VString new # _ \<Rightarrow>
             bind_res (get_conn c w) (\<lambda>v.
               bind_res (di_dbus_update_name (known_names v) wk old new False) (\<lambda>names.
                 put_conn c (v\<lparr>known_names := names\<rparr>) w))
         | _ \<Rightarrow> Fault Type_Confusion)
      else Ret w)"

fun emit_signals :: "drop_fn \<Rightarrow> call_obj \<Rightarrow> oref \<Rightarrow> string list \<Rightarrow> di_value list \<Rightarrow> world \<Rightarrow> world res" where
  "emit_signals U C c [] t w = Ret w"
| "emit_signals U C c (s # ss) t w = bind_res (di_emitn U C c s t w) (\<lambda>(_, w1). emit_signals U C c ss t w1)"

text \<open>
  The loop over the known names holds a pointer to the entry it visits; when an emission has changed the
  list from that entry on, going on is a use after free.
\<close>

fun emit_known :: "drop_fn \<Rightarrow> call_obj \<Rightarrow> oref \<Rightarrow> string \<Rightarrow> dbus_message \<Rightarrow> di_value list \<Rightarrow> (string \<times> string) list \<Rightarrow> world \<Rightarrow> world res" where
  "emit_known U C c bus m t [] w = Ret w"
| "emit_known U C c bus m t (e # es) w =
     (if snd e \<noteq> bus then emit_known U C c bus m t es w
      else bind_res (emit_signals U C c (two_signals (fst e) m) t w) (\<lambda>w1.
        bind_res (get_conn c w1) (\<lambda>v.
          if drop (length (known_names v) - Suc (length es)) (known_names v) = e # es
          then emit_known U C c bus m t es w1 else Fault (Use_After_Free c))))"

text \<open>The result says whether the message was handled.  A message without sender keeps the values it was read into.\<close>

definition dbus_filter :: "drop_fn \<Rightarrow> call_obj \<Rightarrow> oref \<Rightarrow> dbus_message \<Rightarrow> world \<Rightarrow> (bool \<times> world) res" where
  "dbus_filter U C c m w =
     (if msg_type m \<noteq> SIGNAL_MSG then Ret (False, w)
      else bind_res (deserialize_fields U (msg_args m) w) (\<lambda>(t, w1).
        bind_res (update_on_owner_changed c m t w1) (\<lambda>w2.
          bind_res (di_ref_object c w2) (\<lambda>w3.
            case msg_sender m of
              None \<Rightarrow> bind_res (U c w3) (\<lambda>w4. Ret (False, w4))
            | Some bus \<Rightarrow>
               bind_res (if bus \<noteq> [] \<and> hd bus = CHR '':''
                         then bind_res (get_conn c w3) (\<lambda>v. emit_known U C c bus m t (known_names v) w3)
                         else emit_signals U C c (two_signals bus m) t w3) (\<lambda>w4.
                 bind_res (di_free_elems U t w4) (\<lambda>w5.
                   bind_res (U c w5) (\<lambda>w6. Ret (True, w6))))))))"

section \<open>Pending calls\<close>

text \<open>
  \<open>dbus_host\<close>: the numbers of the C functions, what sending a message gives (a pending call, or nothing),
  the messages behind pointers, whether libdbus has memory for containers, and how \<open>%p\<close> prints a pointer.
\<close>

record dbus_host =
  dh_fn :: "string \<Rightarrow> nat"
  dh_prep_cif :: "di_type \<Rightarrow> di_type list \<Rightarrow> bool"
  dh_send :: "dbus_message \<Rightarrow> nat option"
  dh_message :: "nat \<Rightarrow> dbus_message"
  dh_mem :: "bool list"
  dh_ptr :: "nat \<Rightarrow> string"

definition di_dbus_send :: "dbus_host \<Rightarrow> drop_fn \<Rightarrow> dbus_message \<Rightarrow> world \<Rightarrow> (oref option \<times> world) res" where
  "di_dbus_send H U m w =
     (let (p, w1) = alloc_object w in
      bind_res (di_set_type U p ''deai.plugin.dbus:DBusPendingReplyRaw'' w1) (\<lambda>(_, w2).
        case dh_send H m of
          None \<Rightarrow> bind_res (U p w2) (\<lambda>w3. Ret (None, w3))
        | Some pc \<Rightarrow>
           bind_res (put_payload p (PDBusPending pc) w2) (\<lambda>w3.
             bind_res (di_set_object_dtor p (Some (Dtor_ext (dh_fn H ''di_dbus_free_pending_reply''))) w3) (\<lambda>w4.
               bind_res (di_weakly_ref_object p w4) (\<lambda>w5. Ret (Some p, w5))))))"

text \<open>The callback of a pending call; \<open>fin\<close> is \<open>di_finalize_object\<close> and \<open>msg\<close> the pointer to the reply.\<close>

definition dbus_pending_call_notify_fn ::
  "drop_fn \<Rightarrow> call_obj \<Rightarrow> (oref \<Rightarrow> world \<Rightarrow> world res) \<Rightarrow> nat \<Rightarrow> oref \<Rightarrow> world \<Rightarrow> world res" where
  "dbus_pending_call_notify_fn U C fin msg ud w =
     bind_res (di_upgrade_weak_ref ud w) (\<lambda>(r, w1).
       case r of
         None \<Rightarrow> Fault (Aborted ''dbus_pending_call_notify_fn'')
       | Some p \<Rightarrow>
          bind_res (di_emitn U C p ''reply'' [VPointer msg] w1) (\<lambda>(_, w2).
            bind_res (fin p w2) (U p)))"

definition watch_member :: "string \<Rightarrow> string" where
  "watch_member busname = ''__dbus_watch_'' @ busname @ ''_change_request''"

definition watch_handle_member :: "string \<Rightarrow> string" where
  "watch_handle_member busname = ''__dbus_watch_'' @ busname @ ''_change_request_listen_handle''"

definition remove_member_checked :: "drop_fn \<Rightarrow> oref \<Rightarrow> string \<Rightarrow> world \<Rightarrow> world res" where
  "remove_member_checked U p name w =
     bind_res (di_remove_member_raw U p (Some name) w) (\<lambda>(r, w1). assert_res (r = Inr ()) ''DI_CHECK_OK'' (Ret w1))"

text \<open>
  \<open>di_dbus_update_name_from_msg\<close>, the reply to \<open>GetNameOwner\<close>.  An error reply leaves the two members of
  the connection.
\<close>

definition di_dbus_update_name_from_msg :: "drop_fn \<Rightarrow> oref \<Rightarrow> di_string \<Rightarrow> dbus_message \<Rightarrow> world \<Rightarrow> world res" where
  "di_dbus_update_name_from_msg U weak busname m w =
     (if msg_type m \<noteq> METHOD_RETURN then Ret w
      else bind_res (di_upgrade_weak_ref weak w) (\<lambda>(r, w1).
        case r of
          None \<Rightarrow> Fault (Aborted ''di_dbus_update_name_from_msg'')
        | Some c \<Rightarrow>
           bind_res (remove_member_checked U c (watch_member (cstr (di_string_bytes busname))) w1) (\<lambda>w2.
             bind_res (remove_member_checked U c (watch_handle_member (cstr (di_string_bytes busname))) w2) (\<lambda>w3.
               bind_res (case msg_args m of
                   [D_string unique] \<Rightarrow>
                     bind_res (get_conn c w3) (\<lambda>v.
                       bind_res (di_dbus_update_name (known_names v) busname DI_STRING_INIT (di_string_borrow unique) True) (\<lambda>names.
                         put_conn c (v\<lparr>known_names := names\<rparr>) w3))
                 | _ \<Rightarrow> Ret w3) (U c)))))"

definition di_dbus_watch_name :: "dbus_host \<Rightarrow> drop_fn \<Rightarrow> call_obj \<Rightarrow> oref \<Rightarrow> string \<Rightarrow> world \<Rightarrow> world res" where
  "di_dbus_watch_name H U C c busname w =
     bind_res (get_conn c w) (\<lambda>v.
       if dc_conn v = None then Ret w
       else bind_res (put_conn c (v\<lparr>dc_matches := name_owner_rule busname # dc_matches v\<rparr>) w) (\<lambda>w1.
         bind_res (di_dbus_send H U \<lparr>msg_type = METHOD_CALL, msg_sender = Some DBUS_SERVICE_DBUS, msg_path = DBUS_PATH_DBUS,
             msg_interface = DBUS_INTERFACE_DBUS, msg_member = ''GetNameOwner'', msg_args = [D_string busname]\<rparr> w1) (\<lambda>(r, w2).
           case r of
             None \<Rightarrow> Fault (Aborted ''di_dbus_watch_name'')
           | Some p \<Rightarrow>
              bind_res (di_weakly_ref_object c w2) (\<lambda>w3.
                bind_res (di_create_closure (dh_prep_cif H) U (dh_fn H ''di_dbus_update_name_from_msg'') DI_TYPE_NIL
                    [VWeak c, VString (di_string_borrow busname)] [DI_TYPE_POINTER] w3) (\<lambda>(cl, w4).
                  case cl of
                    Inl e \<Rightarrow> Fault Type_Confusion
                  | Inr f \<Rightarrow>
                     bind_res (di_listen_to U C p ''reply'' f w4) (\<lambda>(lh, w5).
                       bind_res (di_add_member_move U c (Some (watch_member busname)) (VObject p) w5) (\<lambda>(_, w6).
                         bind_res (di_add_member_move U c (Some (watch_handle_member busname)) (VObject lh) w6) (\<lambda>(_, w7).
                           bind_res (U f w7) (di_drop_weak_ref c)))))))))"

section \<open>Remote objects\<close>

text \<open>\<open>di_dbus_object_getter\<close>: the interface is what precedes the last dot; it must have a dot of its own.\<close>

definition method_parts :: "string \<Rightarrow> string + (string option \<times> string)" where
  "method_parts method =
     (case split_last (CHR ''.'') method of
        None \<Rightarrow> Inr (None, cstr method)
      | Some (ifc, m) \<Rightarrow>
         if ifc = [] \<or> m = [] \<or> hd m = CHR 0x00 then Inl ''Method name or interface name is empty''
         else if CHR ''.'' \<notin> set ifc then Inl ''Invalid interface name''
         else Inr (Some (cstr ifc), cstr m))"

definition di_dbus_object_getter :: "dbus_host \<Rightarrow> drop_fn \<Rightarrow> string \<Rightarrow> world \<Rightarrow> (oref \<times> world) res" where
  "di_dbus_object_getter H U method w =
     (case method_parts method of
        Inl e \<Rightarrow> di_new_error U e w
      | Inr (ifc, m) \<Rightarrow>
         let (p, w1) = alloc_object w in
         bind_res (di_set_type U p ''deai.plugin.dbus:DBusMethod'' w1) (\<lambda>(_, w2).
           bind_res (put_payload p (PDBusMethod ifc m) w2) (\<lambda>w3.
             bind_res (di_set_object_dtor p (Some (Dtor_ext (dh_fn H ''di_dbus_free_method''))) w3) (\<lambda>w4.
               bind_res (di_set_object_call p (Some (Call_ext (dh_fn H ''call_dbus_method''))) w4) (\<lambda>w5. Ret (p, w5))))))"

definition get_connection :: "drop_fn \<Rightarrow> call_obj \<Rightarrow> oref \<Rightarrow> world \<Rightarrow> (oref \<times> world) res" where
  "get_connection U C p w =
     bind_res (di_getxt U C p (Some ''___deai_dbus_connection'') DI_TYPE_OBJECT w) (\<lambda>(r, w1).
       case r of Inr (VObject c) \<Rightarrow> Ret (c, w1) | _ \<Rightarrow> Fault (Aborted ''DI_CHECK_OK''))"

text \<open>The signal of the connection that stands for a signal of a remote object.\<close>

definition remote_signal :: "string \<Rightarrow> string \<Rightarrow> string \<Rightarrow> string" where
  "remote_signal bus obj name = ''%'' @ bus @ ''%'' @ obj @ ''%'' @ cstr name"

definition di_dbus_object_new_signal :: "dbus_host \<Rightarrow> drop_fn \<Rightarrow> call_obj \<Rightarrow> oref \<Rightarrow> string \<Rightarrow> world \<Rightarrow> world res" where
  "di_dbus_object_new_signal H U C p name w =
     bind_res (get_obj p w) (\<lambda>x.
       case payload x of
         PDBusObject bus obj \<Rightarrow>
           bind_res (get_connection U C p w) (\<lambda>(c, w1).
             bind_res (di_proxy_signal (dh_prep_cif H) (dh_fn H ''del_proxied_signal'') U C c (remote_signal bus obj name) p name w1) (\<lambda>(_, w2).
               U c w2))
       | _ \<Rightarrow> Fault Type_Confusion)"

definition di_dbus_get_object :: "dbus_host \<Rightarrow> drop_fn \<Rightarrow> call_obj \<Rightarrow> oref \<Rightarrow> di_string \<Rightarrow> di_string \<Rightarrow> world \<Rightarrow> (oref \<times> world) res" where
  "di_dbus_get_object H U C c bus obj w =
     (let (p, w1) = alloc_object w; bus_c = cstr (di_string_bytes bus); obj_c = cstr (di_string_bytes obj) in
      bind_res (di_set_type U p ''deai.plugin.dbus:DBusObject'' w1) (\<lambda>(_, w2).
        bind_res (di_add_member_clonev U p (Some ''___deai_dbus_connection'') (VObject c) w2) (\<lambda>(_, w3).
          bind_res (put_payload p (PDBusObject bus_c obj_c) w3) (\<lambda>w4.
            bind_res (di_dbus_watch_name H U C c bus_c w4) (\<lambda>w5.
              bind_res (add_methods (dh_prep_cif H) U p
                  [(''put'', dh_fn H ''di_finalize_object'', DI_TYPE_NIL, []),
                   (''__get'', dh_fn H ''di_dbus_object_getter'', DI_TYPE_OBJECT, [DI_TYPE_STRING]),
                   (''__new_signal'', dh_fn H ''di_dbus_object_new_signal'', DI_TYPE_NIL, [DI_TYPE_STRING])] w5) (\<lambda>w6.
                bind_res (di_set_object_dtor p (Some (Dtor_ext (dh_fn H ''di_free_dbus_object''))) w6) (\<lambda>w7. Ret (p, w7))))))))"

definition di_free_dbus_object :: "drop_fn \<Rightarrow> call_obj \<Rightarrow> oref \<Rightarrow> world \<Rightarrow> world res" where
  "di_free_dbus_object U C p w =
     bind_res (get_obj p w) (\<lambda>x.
       case payload x of
         PDBusObject bus obj \<Rightarrow>
           bind_res (get_connection U C p w) (\<lambda>(c, w1).
             bind_res (di_dbus_unwatch_name c bus w1) (\<lambda>w2.
               bind_res (put_payload p PNone w2) (U c)))
       | _ \<Rightarrow> Fault Type_Confusion)"

section \<open>Method calls\<close>

definition dbus_call_method_reply_cb :: "drop_fn \<Rightarrow> call_obj \<Rightarrow> oref \<Rightarrow> dbus_message \<Rightarrow> world \<Rightarrow> world res" where
  "dbus_call_method_reply_cb U C weak m w =
     bind_res (di_upgrade_weak_ref weak w) (\<lambda>(r, w1).
       case r of
         None \<Rightarrow> Ret w1
       | Some sig \<Rightarrow>
          bind_res (deserialize_fields U (msg_args m) w1) (\<lambda>(t, w2).
            bind_res (if msg_type m = METHOD_RETURN then di_emitn U C sig ''reply'' t w2
                      else if msg_type m = ERROR_MSG then di_emitn U C sig ''error'' t w2 else Ret (Inr (), w2)) (\<lambda>(_, w3).
              bind_res (di_free_elems U t w3) (\<lambda>w4.
                bind_res (di_remove_member_raw U sig (Some ''___original_object'') w4) (\<lambda>(_, w5).
                  bind_res (di_remove_member_raw U sig (Some ''___original_object_listen_handle'') w5) (\<lambda>(_, w6).
                    bind_res (di_remove_member_raw U sig (Some ''___deai_dbus_connection'') w6) (\<lambda>(_, w7). U sig w7)))))))"

text \<open>
  \<open>dbus_call_method\<close>; \<open>args_of\<close> turns the calls of the serializer into the arguments of the message.  An
  error return does not free the message, and a message that cannot be sent is used as if it was.
\<close>

definition dbus_call_method ::
  "dbus_host \<Rightarrow> (dbus_call list \<Rightarrow> dbus_arg list) \<Rightarrow> drop_fn \<Rightarrow> call_obj \<Rightarrow> string option \<Rightarrow> string \<Rightarrow> di_value list \<Rightarrow> world \<Rightarrow>
   (oref \<times> world) res" where
  "dbus_call_method H args_of U C iface method t w =
     (case t of
        VObject dobj # args \<Rightarrow>
          bind_res (get_obj dobj w) (\<lambda>x.
            case payload x of
              PDBusObject bus obj \<Rightarrow>
                bind_res (get_connection U C dobj w) (\<lambda>(c, w1).
                  bind_res (dbus_serialize_struct args (dh_mem H)) (\<lambda>(rc, cs).
                    if rc < 0 then bind_res (di_new_error U ''Can't serialize arguments'' w1) (\<lambda>(e, w2). bind_res (U c w2) (\<lambda>w3. Ret (e, w3)))
                    else
                      let (ret, w2) = alloc_object w1 in
                      bind_res (di_set_type U ret ''deai.plugin.dbus:DBusPendingReply'' w2) (\<lambda>(_, w3).
                        bind_res (di_dbus_send H U \<lparr>msg_type = METHOD_CALL, msg_sender = Some bus, msg_path = obj,
                            msg_interface = (case iface of None \<Rightarrow> [] | Some i \<Rightarrow> i), msg_member = method, msg_args = args_of cs\<rparr> w3) (\<lambda>(p, w4).
                          bind_res (di_weakly_ref_object ret w4) (\<lambda>w5.
                            bind_res (di_create_closure (dh_prep_cif H) U (dh_fn H ''dbus_call_method_reply_cb'') DI_TYPE_NIL
                                [VWeak ret] [DI_TYPE_POINTER] w5) (\<lambda>(cl, w6).
                              case (p, cl) of
                                (Some pp, Inr f) \<Rightarrow>
                                  bind_res (di_listen_to U C pp ''reply'' f w6) (\<lambda>(lh, w7).
                                    bind_res (di_add_member_move U ret (Some ''___original_object'') (VObject pp) w7) (\<lambda>(_, w8).
                                      bind_res (di_add_member_move U ret (Some ''___original_object_listen_handle'') (VObject lh) w8) (\<lambda>(_, w9).
                                        bind_res (di_add_member_clonev U ret (Some ''___deai_dbus_connection'') (VObject c) w9) (\<lambda>(_, w10).
                                          bind_res (U f w10) (\<lambda>w11.
                                            bind_res (di_drop_weak_ref ret w11) (\<lambda>w12.
                                              bind_res (U c w12) (\<lambda>w13. Ret (ret, w13))))))))
                              | (None, _) \<Rightarrow> Fault Null_Deref
                              | (_, Inl _) \<Rightarrow> Fault Type_Confusion))))))
            | _ \<Rightarrow> Fault Type_Confusion)
      | _ \<Rightarrow> di_new_error U ''first argument to dbus method call is not a dbus object'' w)"

definition call_dbus_method ::
  "dbus_host \<Rightarrow> (dbus_call list \<Rightarrow> dbus_arg list) \<Rightarrow> drop_fn \<Rightarrow> call_obj \<Rightarrow> oref \<Rightarrow> di_value list \<Rightarrow> world \<Rightarrow> (di_value outcome \<times> world) res" where
  "call_dbus_method H args_of U C m t w =
     bind_res (get_obj m w) (\<lambda>x.
       case payload x of
         PDBusMethod ifc name \<Rightarrow> bind_res (dbus_call_method H args_of U C ifc name t w) (\<lambda>(p, w1). Ret (Inr (VObject p), w1))
       | _ \<Rightarrow> Fault Type_Confusion)"

section \<open>Connections\<close>

text \<open>
  \<open>di_dbus_shutdown\<close>, the destructor: the connection is closed when the loop comes around, through a
  listener of \<open>prepare\<close> kept alive as a root.
\<close>

definition di_dbus_shutdown :: "dbus_host \<Rightarrow> drop_fn \<Rightarrow> call_obj \<Rightarrow> oref \<Rightarrow> oref \<Rightarrow> world \<Rightarrow> (64 word option \<times> world) res" where
  "di_dbus_shutdown H U C roots c w =
     bind_res (get_conn c w) (\<lambda>v.
       case dc_conn v of
         None \<Rightarrow> Ret (None, w)
       | Some dc \<Rightarrow>
          bind_res (di_object_get_deai_strong U C c w) (\<lambda>(di, w1).
            case di of
              None \<Rightarrow> Fault Null_Deref
            | Some d \<Rightarrow>
               bind_res (di_getxt U C d (Some ''event'') DI_TYPE_OBJECT w1) (\<lambda>(ev, w2).
                 case ev of
                   Inr (VObject eventm) \<Rightarrow>
                     bind_res (di_create_closure (dh_prep_cif H) U (dh_fn H ''di_dbus_shutdown_part2'') DI_TYPE_NIL
                         [VPointer c, VPointer dc] [] w2) (\<lambda>(cl, w3).
                       case cl of
                         Inl e \<Rightarrow> Fault Type_Confusion
                       | Inr f \<Rightarrow>
                          bind_res (di_listen_to U C eventm ''prepare'' f w3) (\<lambda>(lh, w4).
                            bind_res (di_add_anonymous_root roots lh w4) (\<lambda>(rh, w5).
                              bind_res (put_conn c (v\<lparr>dc_conn := None, known_names := []\<rparr>) w5) (\<lambda>w6.
                                bind_res (U lh w6) (\<lambda>w7. bind_res (U f w7) (\<lambda>w8.
                                  bind_res (U eventm w8) (\<lambda>w9. bind_res (U d w9) (\<lambda>w10. Ret (Some rh, w10)))))))))
                 | _ \<Rightarrow> Fault (Aborted ''di_dbus_shutdown''))))"

definition di_dbus_shutdown_part2 :: "drop_fn \<Rightarrow> oref \<Rightarrow> 64 word \<Rightarrow> world \<Rightarrow> world res" where
  "di_dbus_shutdown_part2 U roots root_handle w = di_remove_anonymous_root U roots root_handle w"

text \<open>\<open>conn\<close> is the private connection to the session bus, or the message of the error.\<close>

definition di_dbus_get_session_bus :: "dbus_host \<Rightarrow> string + nat \<Rightarrow> drop_fn \<Rightarrow> call_obj \<Rightarrow> oref \<Rightarrow> world \<Rightarrow> (oref \<times> world) res" where
  "di_dbus_get_session_bus H conn U C m w =
     (case conn of
        Inl msg \<Rightarrow> di_new_error U msg w
      | Inr dc \<Rightarrow>
         bind_res (di_module_get_deai U C m w) (\<lambda>(di, w1).
           case di of
             None \<Rightarrow> di_new_error U ''deai is shutting down...'' w1
           | Some d \<Rightarrow>
              let (c, w2) = alloc_object w1 in
              bind_res (di_set_type U c ''deai.plugin.dbus:DBusConnection'' w2) (\<lambda>(_, w3).
                bind_res (put_conn c \<lparr>dc_conn = Some dc, known_names = [], dc_matches = []\<rparr> w3) (\<lambda>w4.
                  bind_res (di_add_member_move U c (Some ''__deai'') (VObject d) w4) (\<lambda>(_, w5).
                    bind_res (add_methods (dh_prep_cif H) U c
                        [(''get'', dh_fn H ''di_dbus_get_object'', DI_TYPE_OBJECT, [DI_TYPE_STRING, DI_TYPE_STRING]),
                         (''__new_signal'', dh_fn H ''di_dbus_new_signal'', DI_TYPE_NIL, [DI_TYPE_STRING]),
                         (''__del_signal'', dh_fn H ''di_dbus_del_signal'', DI_TYPE_NIL, [DI_TYPE_STRING])] w5) (\<lambda>w6.
                      bind_res (di_set_object_dtor c (Some (Dtor_ext (dh_fn H ''di_dbus_shutdown''))) w6) (\<lambda>w7. Ret (c, w7))))))))"

section \<open>Watches of the connection\<close>

text \<open>
  libdbus asks for events on its file descriptors through watches; each becomes an event source kept as a
  member of the connection.
\<close>

record dbus_watch =
  wt_addr :: nat
  wt_readable :: bool
  wt_writable :: bool
  wt_fd :: "32 word"
  wt_enabled :: bool

definition watch_ioev_name :: "dbus_host \<Rightarrow> dbus_watch \<Rightarrow> string" where
  "watch_ioev_name H wt = ''__dbus_ioev_for_watch_'' @ dh_ptr H (wt_addr wt)"

definition watch_listen_name :: "dbus_host \<Rightarrow> dbus_watch \<Rightarrow> string" where
  "watch_listen_name H wt = ''__dbus_ioev_listen_handle_for_watch_'' @ dh_ptr H (wt_addr wt)"

text \<open>
  \<open>ioev_callback\<close>: \<open>dispatch\<close> is what \<open>dbus_connection_dispatch\<close> does with one message, \<open>queue\<close> the messages
  that are there after the read.
\<close>

definition ioev_callback :: "(dbus_message \<Rightarrow> world \<Rightarrow> world res) \<Rightarrow> 32 word \<Rightarrow> dbus_message list \<Rightarrow> world \<Rightarrow> world res" where
  "ioev_callback dispatch event queue w = (if bit event 0 then fold_res dispatch queue w else Ret w)"

definition keep_watch :: "dbus_host \<Rightarrow> drop_fn \<Rightarrow> call_obj \<Rightarrow> oref \<Rightarrow> dbus_watch \<Rightarrow> oref \<Rightarrow> world \<Rightarrow> world res" where
  "keep_watch H U C c wt ioev w =
     bind_res (get_conn c w) (\<lambda>v.
       bind_res (di_create_closure (dh_prep_cif H) U (dh_fn H ''ioev_callback'') DI_TYPE_NIL
           [VPointer (case dc_conn v of None \<Rightarrow> 0 | Some dc \<Rightarrow> dc), VPointer (wt_addr wt)] [DI_TYPE_NINT] w) (\<lambda>(cl, w1).
         case cl of
           Inl e \<Rightarrow> Fault Type_Confusion
         | Inr f \<Rightarrow>
            bind_res (di_listen_to U C ioev ''io'' f w1) (\<lambda>(lh, w2).
              bind_res (U f w2) (\<lambda>w3.
                bind_res (if wt_enabled wt then Ret (Inr (), w3) else di_call U C ioev ''stop'' [] w3) (\<lambda>(_, w4).
                  bind_res (di_add_member_move U c (Some (watch_listen_name H wt)) (VObject lh) w4) (\<lambda>(r1, w5).
                    assert_res (r1 = Inr ()) ''DI_CHECK_OK''
                      (bind_res (di_add_member_move U c (Some (watch_ioev_name H wt)) (VObject ioev) w5) (\<lambda>(r2, w6).
                        assert_res (r2 = Inr ()) ''DI_CHECK_OK'' (di_weakly_ref_object c w6)))))))))"

definition dbus_add_watch :: "dbus_host \<Rightarrow> drop_fn \<Rightarrow> call_obj \<Rightarrow> oref \<Rightarrow> dbus_watch \<Rightarrow> world \<Rightarrow> (bool \<times> world) res" where
  "dbus_add_watch H U C c wt w =
     bind_res (di_getxt U C c (Some (watch_ioev_name H wt)) DI_TYPE_OBJECT w) (\<lambda>(r, w1).
       case r of
         Inr _ \<Rightarrow> Fault (Aborted ''Same watch added multiple times by dbus'')
       | Inl _ \<Rightarrow>
          bind_res (di_object_get_deai_strong U C c w1) (\<lambda>(di, w2).
            case di of
              None \<Rightarrow> Fault Null_Deref
            | Some d \<Rightarrow>
               bind_res (di_getxt U C d (Some ''event'') DI_TYPE_OBJECT w2) (\<lambda>(ev, w3).
                 case ev of
                   Inr (VObject eventm) \<Rightarrow>
                     bind_res (di_callr U C eventm ''fdevent'' DI_TYPE_OBJECT
                         [VNint (wt_fd wt), VNint ((if wt_readable wt then 1 else 0) + (if wt_writable wt then 2 else 0))] w3) (\<lambda>(io, w4).
                       bind_res (case io of Inr (VObject ioev) \<Rightarrow> keep_watch H U C c wt ioev w4 | _ \<Rightarrow> Ret w4) (\<lambda>w5.
                         bind_res (U d w5) (\<lambda>w6. bind_res (U eventm w6) (\<lambda>w7. Ret (\<not> isl io, w7)))))
                 | Inr _ \<Rightarrow> Fault Type_Confusion
                 | Inl _ \<Rightarrow> bind_res (U d w3) (\<lambda>w4. Ret (False, w4)))))"

definition dbus_remove_watch :: "dbus_host \<Rightarrow> drop_fn \<Rightarrow> oref \<Rightarrow> dbus_watch \<Rightarrow> world \<Rightarrow> world res" where
  "dbus_remove_watch H U ud wt w =
     bind_res (di_upgrade_weak_ref ud w) (\<lambda>(r, w1).
       case r of
         None \<Rightarrow> Fault (Aborted ''dbus_remove_watch'')
       | Some c \<Rightarrow>
          bind_res (di_remove_member_raw U c (Some (watch_ioev_name H wt)) w1) (\<lambda>(_, w2).
            bind_res (di_remove_member_raw U c (Some (watch_listen_name H wt)) w2) (\<lambda>(_, w3). U c w3)))"

definition dbus_toggle_watch :: "dbus_host \<Rightarrow> drop_fn \<Rightarrow> call_obj \<Rightarrow> oref \<Rightarrow> dbus_watch \<Rightarrow> world \<Rightarrow> world res" where
  "dbus_toggle_watch H U C c wt w =
     bind_res (di_getxt U C c (Some (watch_ioev_name H wt)) DI_TYPE_OBJECT w) (\<lambda>(r, w1).
       case r of
         Inr (VObject ioev) \<Rightarrow> bind_res (di_call U C ioev ''toggle'' [] w1) (\<lambda>(_, w2). U ioev w2)
       | _ \<Rightarrow> Fault (Aborted ''DI_CHECK_OK''))"

definition dbus_plugin_init :: "dbus_host \<Rightarrow> drop_fn \<Rightarrow> oref \<Rightarrow> world \<Rightarrow> world res" where
  "dbus_plugin_init H U di w =
     bind_res (di_new_module U di w) (\<lambda>(pm, w1).
       case pm of
         None \<Rightarrow> Fault Null_Deref
       | Some m \<Rightarrow>
          bind_res (add_methods (dh_prep_cif H) U m [(''__get_session_bus'', dh_fn H ''di_dbus_get_session_bus'', DI_TYPE_OBJECT, [])] w1) (\<lambda>w2.
            bind_res (di_register_module U di (Some ''dbus'') m w2) (\<lambda>(_, w3). Ret w3)))"

end
