(* ===== verification/DBusProps.thy ===== *)
theory DBusProps
  imports DBus SpawnExamples Examples
begin

text \<open>
  What the D-Bus plugin promises about names, match rules and the signals it emits.
\<close>

section \<open>Known names\<close>

lemma di_string_length_bytes: "di_string_length s = length (di_string_bytes s)"
  by (simp add: di_string_length_def di_string_bytes_def split: option.split)

lemma take_snoc_eq_iff:
  assumes "nul_free a" "nul_free b"
  shows "(take (length a) (b @ [CHR 0x00]) = a) = starts_with a b"
proof
  assume h: "take (length a) (b @ [CHR 0x00]) = a"
  have "length a \<le> length b"
  proof (rule ccontr)
    assume "\<not> length a \<le> length b"
    with h have "a = b @ [CHR 0x00]" by (simp add: not_le Suc_le_eq)
    with assms(1) show False by (simp add: nul_free_def)
  qed
  with h show "starts_with a b" by (simp add: starts_with_def)
next
  assume "starts_with a b"
  then show "take (length a) (b @ [CHR 0x00]) = a" using starts_with_length by (fastforce simp: starts_with_def)
qed

lemma strncmp_zero_prefix:
  assumes "nul_free a" "nul_free b"
  shows "strncmp_zero a (length a) b = starts_with a b"
  using take_snoc_eq_iff [OF assms] assms by (auto simp: strncmp_zero_def)

text \<open>What the owner of a name becomes, and the bookkeeping of owners as a map.\<close>

definition name_owner :: "string \<Rightarrow> bool \<Rightarrow> string \<Rightarrow> (string \<Rightarrow> string option) \<Rightarrow> string \<Rightarrow> string option" where
  "name_owner wk outdated unique m =
     (if unique \<noteq> [] then m(wk \<mapsto> unique) else if outdated then m(wk := None) else m)"

lemma map_of_filter_prefix:
  "map_of (filter (\<lambda>e. \<not> starts_with wk (fst e)) t) k = (if starts_with wk k then None else map_of t k)"
  by (induction t) auto

lemma map_of_update_name:
  assumes n: "di_dbus_update_name names (Some wk) old unique f = Ret names'" and wk: "\<not> starts_with '':'' wk" "nul_free wk"
    and u: "nul_free (di_string_bytes unique)" and keys: "\<forall>k \<in> fst ` set names. nul_free k"
  shows "map_of names' k =
    (if k = wk \<and> di_string_bytes unique \<noteq> [] then Some (di_string_bytes unique)
     else if (f \<or> 0 < di_string_length old) \<and> starts_with wk k then None else map_of names k)"
proof -
  have hd: "\<not> (wk \<noteq> [] \<and> hd wk = CHR '':'')" using wk(1) by (cases wk) (auto simp: starts_with_def)
  have "filter (\<lambda>e. \<not> strncmp_zero wk (length wk) (fst e)) names = filter (\<lambda>e. \<not> starts_with wk (fst e)) names"
    using keys wk(2) by (intro filter_cong) (auto simp: strncmp_zero_prefix)
  then show ?thesis using n hd wk u
    by (auto simp: di_dbus_update_name_def Let_def di_string_length_bytes map_of_filter_prefix
        split: if_splits)
qed

lemma update_name_returns: "\<exists>names'. di_dbus_update_name names (Some wk) old unique f = Ret names'"
  by (simp add: di_dbus_update_name_def Let_def)

lemma update_name_unique [simp]: "starts_with '':'' wk \<Longrightarrow> di_dbus_update_name names (Some wk) old unique f = Ret names"
  by (auto simp: di_dbus_update_name_def starts_with_iff)

text \<open>
  C25. The list of known names is kept as a map of owners would be: after an update for a well-known name
  its owner is the new one, or nobody, and all other names keep theirs.  Names that start with a colon
  are not recorded.  The code compares only the bytes of the given name, so this needs that no known name
  has the given one as a proper prefix; the second part says what happens to those names: they are
  forgotten whenever an outdated entry is removed.
\<close>

theorem dbus_update_name_owner:
  assumes wk: "nul_free wk" and u: "nul_free (di_string_bytes unique)" and keys: "\<forall>k \<in> dom (map_of names). nul_free k"
  shows "\<exists>names'. di_dbus_update_name names (Some wk) old unique f = Ret names' \<and>
      (if starts_with '':'' wk then names' = names
       else ((\<forall>k \<in> dom (map_of names). starts_with wk k \<longrightarrow> k = wk) \<longrightarrow>
               map_of names' = name_owner wk (f \<or> 0 < di_string_length old) (di_string_bytes unique) (map_of names)) \<and>
            ((f \<or> 0 < di_string_length old) \<longrightarrow> (\<forall>k. starts_with wk k \<longrightarrow> k \<noteq> wk \<longrightarrow> map_of names' k = None)))"
proof (cases "starts_with '':'' wk")
  case False
  obtain names' where n: "di_dbus_update_name names (Some wk) old unique f = Ret names'" using update_name_returns by blast
  have "\<forall>k \<in> fst ` set names. nul_free k" using keys by (simp add: dom_map_of_conv_image_fst)
  note m = map_of_update_name [OF n False wk u this]
  have "map_of names' = name_owner wk (f \<or> 0 < di_string_length old) (di_string_bytes unique) (map_of names)"
    if p: "\<forall>k \<in> dom (map_of names). starts_with wk k \<longrightarrow> k = wk"
  proof
    fix k
    have "map_of names k = None" if "starts_with wk k" "k \<noteq> wk" using p that by (auto simp: domIff)
    moreover have "starts_with wk wk" by (simp add: starts_with_def)
    ultimately show "map_of names' k = name_owner wk (f \<or> 0 < di_string_length old) (di_string_bytes unique) (map_of names) k"
      by (auto simp: m name_owner_def)
  qed
  with n False m show ?thesis by auto
qed simp

theorem dbus_update_name_owner_witness:
  "\<exists>names'. di_dbus_update_name [(''org.x'', '':1.1''), (''org.y'', '':1.7'')] (Some ''org.x'') (Some '':1.1'') (Some '':1.2'') False = Ret names' \<and>
     map_of names' ''org.x'' = Some '':1.2'' \<and> map_of names' ''org.y'' = Some '':1.7''"
proof -
  have "nul_free ''org.x''" "nul_free (di_string_bytes (Some '':1.2''))"
    "\<forall>k \<in> dom (map_of [(''org.x'', '':1.1''), (''org.y'', '':1.7'')]). nul_free k"
    by (auto simp: nul_free_def di_string_bytes_def split: if_splits)
  from dbus_update_name_owner [OF this, of "Some '':1.1''" False] show ?thesis
    by (fastforce simp: starts_with_def name_owner_def di_string_length_def di_string_bytes_def split: if_splits)
qed

section \<open>Match rules\<close>

text \<open>The rule for a signal of an object at \<open>path\<close>, of an interface or of any.\<close>

definition match_rule :: "string \<Rightarrow> string \<Rightarrow> string option \<Rightarrow> string \<Rightarrow> string" where
  "match_rule bus path iface member =
     quoted ''type'' ''signal'' @ '','' @ quoted ''sender'' bus @ '','' @ quoted ''path'' path @ '','' @
       (case iface of None \<Rightarrow> [] | Some i \<Rightarrow> quoted ''interface'' i @ '','') @ quoted ''member'' member"

lemma split_first_append: "c \<notin> set a \<Longrightarrow> split_first c (a @ c # b) = Some (a, b)"
  by (induction a) (auto simp: split_first_def)

lemma split_first_absent: "c \<notin> set a \<Longrightarrow> split_first c a = None"
  by (simp add: split_first_def)

lemma nul_free_append [simp]: "nul_free (a @ b) = (nul_free a \<and> nul_free b)"
  by (auto simp: nul_free_def)

lemma nul_free_Cons [simp]: "nul_free (c # b) = (c \<noteq> CHR 0x00 \<and> nul_free b)"
  by (auto simp: nul_free_def)

lemma to_dbus_match_rule_plain:
  assumes "CHR ''%'' \<notin> set bus" "CHR ''%'' \<notin> set path" "path \<noteq> []" "CHR ''.'' \<notin> set sig"
    "nul_free bus" "nul_free path" "nul_free sig"
  shows "to_dbus_match_rule (bus @ CHR ''%'' # path @ CHR ''%'' # sig) = Some (match_rule bus path None sig)"
  using assms by (simp add: to_dbus_match_rule_def split_first_append split_first_absent match_rule_def)

lemma to_dbus_match_rule_dotted:
  assumes "CHR ''%'' \<notin> set bus" "CHR ''%'' \<notin> set path" "path \<noteq> []" "CHR ''.'' \<notin> set a" "a \<noteq> []" "b \<noteq> []"
    "nul_free bus" "nul_free path" "nul_free a" "nul_free b"
  shows "to_dbus_match_rule (bus @ CHR ''%'' # path @ CHR ''%'' # a @ CHR ''.'' # b) = Some (match_rule bus path (Some a) b)"
  using assms by (simp add: to_dbus_match_rule_def split_first_append match_rule_def)

text \<open>
  The names the filter emits for a message, and the rules that listening to them registers at the bus.
\<close>

definition proper_message :: "string \<Rightarrow> dbus_message \<Rightarrow> bool" where
  "proper_message bus m \<longleftrightarrow> CHR ''%'' \<notin> set bus \<and> nul_free bus \<and> CHR ''%'' \<notin> set (msg_path m) \<and> msg_path m \<noteq> [] \<and> nul_free (msg_path m) \<and>
     nul_free (msg_interface m) \<and> CHR ''.'' \<notin> set (msg_member m) \<and> msg_member m \<noteq> [] \<and> nul_free (msg_member m)"

lemma signal_rule_plain:
  assumes "proper_message bus m"
  shows "signal_rule (Some (two_signals bus m ! 1)) = Some (match_rule bus (msg_path m) None (msg_member m))"
  using assms to_dbus_match_rule_plain [of bus "msg_path m" "msg_member m"]
  by (simp add: signal_rule_def two_signals_def proper_message_def)

lemma signal_rule_interface:
  assumes "proper_message bus m" "msg_interface m = a @ CHR ''.'' # b" "CHR ''.'' \<notin> set a" "a \<noteq> []"
  shows "signal_rule (Some (two_signals bus m ! 0)) =
    Some (match_rule bus (msg_path m) (Some a) (b @ CHR ''.'' # msg_member m))"
  using assms to_dbus_match_rule_dotted [of bus "msg_path m" a "b @ CHR ''.'' # msg_member m"]
  by (simp add: signal_rule_def two_signals_def proper_message_def)

text \<open>
  C27. Listening to a remote signal by its bare name registers the match rule of that signal.  Listening to
  it with its interface does not: an interface name has a dot of its own and the name is cut at the first
  one, so the rule asks for the first word of the interface and takes the rest as the name of the signal.
  The bus then never sends the signal the filter would emit under that name.
\<close>

theorem dbus_signal_rules:
  assumes m: "proper_message bus m" and i: "msg_interface m = a @ CHR ''.'' # b" "CHR ''.'' \<notin> set a" "a \<noteq> []"
  shows "signal_rule (Some (two_signals bus m ! 1)) = Some (match_rule bus (msg_path m) None (msg_member m)) \<and>
    signal_rule (Some (two_signals bus m ! 0)) = Some (match_rule bus (msg_path m) (Some a) (b @ CHR ''.'' # msg_member m)) \<and>
    signal_rule (Some (two_signals bus m ! 0)) \<noteq> Some (match_rule bus (msg_path m) (Some (msg_interface m)) (msg_member m))"
  using signal_rule_plain [OF m] signal_rule_interface [OF m i] i(1) by (simp add: match_rule_def quoted_def)

definition player_message :: dbus_message where
  "player_message = \<lparr>msg_type = SIGNAL_MSG, msg_sender = Some '':1.7'', msg_path = ''/p'', msg_interface = ''org.mpris.Player'',
     msg_member = ''Seeked'', msg_args = []\<rparr>"

theorem dbus_signal_rules_witness:
  "signal_rule (Some ''%org.vlc%/p%Seeked'') = Some (match_rule ''org.vlc'' ''/p'' None ''Seeked'') \<and>
   signal_rule (Some ''%org.vlc%/p%org.mpris.Player.Seeked'') = Some (match_rule ''org.vlc'' ''/p'' (Some ''org'') ''mpris.Player.Seeked'') \<and>
   signal_rule (Some ''%org.vlc%/p%org.mpris.Player.Seeked'') \<noteq> Some (match_rule ''org.vlc'' ''/p'' (Some ''org.mpris.Player'') ''Seeked'')"
proof -
  have "proper_message ''org.vlc'' player_message" "msg_interface player_message = ''org'' @ CHR ''.'' # ''mpris.Player''"
    by (simp_all add: proper_message_def player_message_def nul_free_def)
  from dbus_signal_rules [OF this] show ?thesis by (auto simp: two_signals_def player_message_def)
qed

section \<open>Signals from the bus\<close>

text \<open>
  \<open>emitting I U C c names t\<close>: while \<open>I\<close> holds the known names of the connection are \<open>names\<close>, and emissions on it with
  the arguments \<open>t\<close>, made while the filter holds one more reference to it, return, leave that reference
  alone and keep \<open>I\<close>.
\<close>

definition held :: "oref \<Rightarrow> world \<Rightarrow> world" where
  "held c w = bump (one_at c) (\<lambda>_. 0) w"

definition emitting :: "(world \<Rightarrow> bool) \<Rightarrow> drop_fn \<Rightarrow> call_obj \<Rightarrow> oref \<Rightarrow> (string \<times> string) list \<Rightarrow> di_value list \<Rightarrow> bool" where
  "emitting I U C c names t \<longleftrightarrow>
     (\<forall>w. I w \<longrightarrow> (\<exists>v. get_conn c w = Ret v \<and> known_names v = names) \<and> has_room (one_at c) (\<lambda>_. 0) w \<and>
        (\<forall>s. \<exists>r w'. di_emitn U C c s t (held c w) = Ret (r, held c w') \<and> I w'))"

lemma get_conn_held [simp]: "get_conn c (held c w) = get_conn c w"
  by (simp add: get_conn_def get_obj_def held_def heap_bump split: option.splits)

lemma emittingD:
  assumes "emitting I U C c names t" "I w"
  shows "\<exists>v. get_conn c (held c w) = Ret v \<and> known_names v = names" "has_room (one_at c) (\<lambda>_. 0) w"
    "\<exists>r w'. di_emitn U C c s t (held c w) = Ret (r, held c w') \<and> I w'"
  using assms unfolding emitting_def by auto

lemma emit_signals_keeps:
  "emitting I U C c names t \<Longrightarrow> I w \<Longrightarrow> \<exists>w'. emit_signals U C c ss t (held c w) = Ret (held c w') \<and> I w'"
proof (induction ss arbitrary: w)
  case (Cons s ss)
  then obtain r w1 where "di_emitn U C c s t (held c w) = Ret (r, held c w1)" "I w1" using emittingD(3) by blast
  with Cons show ?case by simp
qed auto

lemma emit_signals_append:
  "emit_signals U C c (ss @ ss') t w = bind_res (emit_signals U C c ss t w) (emit_signals U C c ss' t)"
  by (induction ss arbitrary: w) (auto simp: bind_res_assoc intro!: bind_res_cong)

text \<open>
  The names under which the proxies of a remote object listen, see \<open>di_dbus_object_new_signal\<close>: a signal can be
  asked for with its interface or by its bare name.
\<close>

definition proxy_names :: "string \<Rightarrow> dbus_message \<Rightarrow> string list" where
  "proxy_names bus m = [remote_signal bus (msg_path m) (msg_interface m @ ''.'' @ msg_member m), remote_signal bus (msg_path m) (msg_member m)]"

text \<open>The well-known names a sender goes by.\<close>

definition sender_names :: "string \<Rightarrow> (string \<times> string) list \<Rightarrow> string list" where
  "sender_names bus names = (if starts_with '':'' bus then map fst (filter (\<lambda>e. snd e = bus) names) else [bus])"

lemma two_signals_proxy:
  "nul_free (msg_interface m) \<Longrightarrow> nul_free (msg_member m) \<Longrightarrow> two_signals bus m = proxy_names bus m"
  by (simp add: two_signals_def proxy_names_def remote_signal_def)

lemma emit_known_eq:
  assumes e: "emitting I U C c names t" and m: "nul_free (msg_interface m)" "nul_free (msg_member m)"
  shows "I w \<Longrightarrow> \<exists>ds. names = ds @ es \<Longrightarrow> emit_known U C c bus m t es (held c w) =
    emit_signals U C c (concat (map (\<lambda>n. proxy_names n m) (map fst (filter (\<lambda>e. snd e = bus) es)))) t (held c w)"
proof (induction es arbitrary: w)
  case (Cons e1 es)
  then obtain ds where ds: "names = (ds @ [e1]) @ es" by auto
  show ?case
  proof (cases "snd e1 = bus")
    case True
    obtain w1 where w1: "emit_signals U C c (proxy_names (fst e1) m) t (held c w) = Ret (held c w1)" "I w1"
      using emit_signals_keeps [OF e Cons.prems(1)] by blast
    obtain v where v: "get_conn c (held c w1) = Ret v" "known_names v = names" using emittingD(1) [OF e w1(2)] by blast
    from True w1 v ds Cons.IH [OF w1(2)] show ?thesis by (simp add: two_signals_proxy [OF m] emit_signals_append)
  next
    case False
    with Cons.IH [OF Cons.prems(1)] ds show ?thesis by simp
  qed
qed simp

lemma starts_with_colon: "starts_with '':'' s = (s \<noteq> [] \<and> hd s = CHR '':'')"
  by (cases s) (auto simp: starts_with_def)

text \<open>Arguments that hold no objects: everything but dictionaries.\<close>

definition plain_args :: "di_value list \<Rightarrow> bool" where
  "plain_args t \<longleftrightarrow> (\<forall>v \<in> set t. free_ok v \<and> (\<forall>a. strong_refs v a = 0 \<and> weak_refs v a = 0))"

lemma free_plain_args: "plain_args t \<Longrightarrow> di_free_elems (di_unref_object E (Suc n)) t w = Ret w"
proof -
  assume t: "plain_args t"
  have z: "strong_refs_list t = (\<lambda>_. 0)" "weak_refs_list t = (\<lambda>_. 0)"
    using t by (auto simp: plain_args_def strong_refs_list_def weak_refs_list_def fun_eq_iff)
  have "\<forall>v \<in> set t. free_ok v" using t by (simp add: plain_args_def)
  from free_elems_bump [OF refl this, of w w E n] show ?thesis by (simp add: z has_room_def)
qed

text \<open>
  C26. A signal from the bus is handed on under every well-known name its sender has, in the order of the list
  of known names, each time under the two names by which proxies of the remote object listen: with the
  interface and without.  A sender that gives a well-known name is taken by that name.  When the message
  announces a new owner of a name, the list it goes by is the updated one.  The message is handled, its
  arguments are released, and the reference that kept the connection alive meanwhile has been given
  back.  The listeners may do what they want as long as they return, the known names stay the same and
  the filter's reference is left alone: \<open>I\<close> is any invariant of theirs that says so.  The arguments hold no
  dictionary.
\<close>

theorem dbus_filter_emits:
  assumes m: "msg_type m = SIGNAL_MSG" "msg_sender m = Some bus" "nul_free (msg_interface m)" "nul_free (msg_member m)"
    and t: "deserialize_fields (di_unref_object E (Suc n)) (msg_args m) w = Ret (t, w1)" "plain_args t"
    and u: "update_on_owner_changed c m t w1 = Ret w2"
    and I: "emitting I (di_unref_object E (Suc n)) C c names t" "I w2"
  shows "\<exists>w3. emit_signals (di_unref_object E (Suc n)) C c (concat (map (\<lambda>b. proxy_names b m) (sender_names bus names))) t (held c w2) =
      Ret (held c w3) \<and> I w3 \<and> dbus_filter (di_unref_object E (Suc n)) C c m w = Ret (True, w3)"
proof -
  let ?U = "di_unref_object E (Suc n)" and ?ss = "concat (map (\<lambda>b. proxy_names b m) (sender_names bus names))"
  obtain v where v: "get_conn c (held c w2) = Ret v" "known_names v = names" using emittingD(1) [OF I] by blast
  obtain w3 where w3: "emit_signals ?U C c ?ss t (held c w2) = Ret (held c w3)" "I w3" using emit_signals_keeps [OF I] by blast
  obtain x where "heap w2 c = Some x" using has_roomD(1) [OF emittingD(2) [OF I], of c] by auto
  then have r: "di_ref_object c w2 = Ret (held c w2)" unfolding held_def by (rule di_ref_object_bump)
  have "emit_known ?U C c bus m t names (held c w2) =
      emit_signals ?U C c (concat (map (\<lambda>n. proxy_names n m) (map fst (filter (\<lambda>e. snd e = bus) names)))) t (held c w2)"
    by (rule emit_known_eq [OF I(1) m(3,4) I(2)]) simp
  then have e: "(if bus \<noteq> [] \<and> hd bus = CHR '':'' then bind_res (get_conn c (held c w2)) (\<lambda>v. emit_known ?U C c bus m t (known_names v) (held c w2))
      else emit_signals ?U C c (two_signals bus m) t (held c w2)) = Ret (held c w3)"
    using v w3(1) by (auto simp: sender_names_def starts_with_colon two_signals_proxy [OF m(3,4)] simp del: get_conn_held)
  have "?U c (held c w3) = Ret w3" unfolding held_def by (rule unref_bump' [OF emittingD(2) [OF I(1) w3(2)]])
  with m(1,2) t(1) u r e free_plain_args [OF t(2)] w3 show ?thesis
    by (simp add: dbus_filter_def del: di_unref_object.simps get_conn_held)
qed

text \<open>
  A connection at 5 that knows the sender by two names, with a listener to one signal of one of them: the
  handler at 2 writes a line to the log, 3 is the listen handle and 4 the signal struct.
\<close>

definition bus_object :: di_object_internal where
  "bus_object = empty_object\<lparr>signals := [(''%org.y%/p%Seeked'', 4)], weak_ref_count := 2, payload := PDBusConnection
     \<lparr>dc_conn = Some 9, known_names = [(''org.vlc'', '':1.7''), (''org.x'', '':1.2''), (''org.y'', '':1.7'')], dc_matches = []\<rparr>\<rparr>"

definition bus_world :: world where
  "bus_world = \<lparr>heap =
      [5 \<mapsto> bus_object, 2 \<mapsto> empty_object\<lparr>call := Some (Call_ext 0)\<rparr>,
       3 \<mapsto> empty_object\<lparr>members := [(''__handler'', \<lparr>m_addr = 7, m_val = VObject 2\<rparr>)], weak_ref_count := 2,
              dtor := Some Dtor_listen_handle, payload := PListenHandle (Some 4)\<rparr>],
     sigs = [4 \<mapsto> \<lparr>sig_name = ''%org.y%/p%Seeked'', nlisteners = 1, owner = 5, listeners = [3]\<rparr>],
     next_addr = 10, all_objects = [5, 3, 2], log_lines = []\<rparr>"

lemma bus_world_heap:
  "heap bus_world 5 = Some bus_object" "heap bus_world 2 = Some (empty_object\<lparr>call := Some (Call_ext 0)\<rparr>)"
  "heap bus_world 3 = Some (empty_object\<lparr>members := [(''__handler'', \<lparr>m_addr = 7, m_val = VObject 2\<rparr>)], weak_ref_count := 2,
     dtor := Some Dtor_listen_handle, payload := PListenHandle (Some 4)\<rparr>)"
  "sigs bus_world 4 = Some \<lparr>sig_name = ''%org.y%/p%Seeked'', nlisteners = 1, owner = 5, listeners = [3]\<rparr>"
  by (simp_all add: bus_world_def)

lemma bus_world_emit:
  "di_emitn (di_unref_object logging_ext 1) (obj_call logging_ext 1) 5 s [] (held 5 (with_log ls bus_world)) =
     Ret (Inr (), held 5 (with_log ((if s = ''%org.y%/p%Seeked'' then [''called''] else []) @ ls) bus_world))"
proof (cases "s = ''%org.y%/p%Seeked''")
  case True
  let ?w = "held 5 (with_log ls bus_world)"
  have "listening ?w 2 3" by (simp add: held_def listening_def member_map_def bus_world_heap empty_object_def)
  moreover have "has_room (\<lambda>a. one_at 3 a + one_at 2 a) (one_at 3) ?w"
    by (auto simp: has_room_def held_def heap_bump bus_world_heap bump_object_def empty_object_def split: if_splits)
  ultimately show ?thesis
    using True emit_logged [of ?w 5 "bump_object 1 0 bus_object" s 4 "''%org.y%/p%Seeked''" 5 3 "[]" 2 "bump_object 0 0 (empty_object\<lparr>call := Some (Call_ext 0)\<rparr>)"]
    by (simp add: held_def heap_bump bus_world_heap bus_object_def bump_with_log bump_object_def empty_object_def del: di_unref_object.simps obj_call.simps)
next
  case False
  then show ?thesis
    using emit_unheard [of "held 5 (with_log ls bus_world)" 5 "bump_object 1 0 bus_object" s "[]"]
    by (simp add: held_def heap_bump bus_world_heap bus_object_def bump_object_def empty_object_def)
qed

theorem dbus_filter_emits_witness:
  "dbus_filter (di_unref_object logging_ext 1) (obj_call logging_ext 1) 5 player_message bus_world = Ret (True, with_log [''called''] bus_world)"
proof -
  let ?U = "di_unref_object logging_ext (Suc 0)" and ?C = "obj_call logging_ext 1" and ?I = "\<lambda>w. \<exists>ls. w = with_log ls bus_world"
  let ?names = "[(''org.vlc'', '':1.7''), (''org.x'', '':1.2''), (''org.y'', '':1.7'')]"
  have m: "msg_type player_message = SIGNAL_MSG" "msg_sender player_message = Some '':1.7''" "nul_free (msg_interface player_message)"
    "nul_free (msg_member player_message)" by (simp_all add: player_message_def nul_free_def)
  have t: "deserialize_fields ?U (msg_args player_message) bus_world = Ret ([], bus_world)" "plain_args []"
    by (simp_all add: player_message_def plain_args_def)
  have u: "update_on_owner_changed 5 player_message [] bus_world = Ret bus_world"
    by (simp add: update_on_owner_changed_def is_name_owner_changed_def player_message_def)
  have "has_room (one_at 5) (\<lambda>_. 0) bus_world" by (auto simp: has_room_def bus_world_def bus_object_def empty_object_def split: if_splits)
  then have e: "emitting ?I ?U ?C 5 ?names []"
    unfolding emitting_def using bus_world_emit
    by (fastforce simp: get_conn_def get_obj_def bus_world_heap bus_object_def simp del: di_unref_object.simps obj_call.simps)
  have i: "?I bus_world" by (rule exI [of _ "[]"]) simp
  have s: "concat (map (\<lambda>b. proxy_names b player_message) (sender_names '':1.7'' ?names)) =
      [''%org.vlc%/p%org.mpris.Player.Seeked'', ''%org.vlc%/p%Seeked'', ''%org.y%/p%org.mpris.Player.Seeked'', ''%org.y%/p%Seeked'']"
    by (simp add: sender_names_def proxy_names_def remote_signal_def player_message_def starts_with_def cstr_def)
  obtain w3 where w3: "emit_signals ?U ?C 5 [''%org.vlc%/p%org.mpris.Player.Seeked'', ''%org.vlc%/p%Seeked'', ''%org.y%/p%org.mpris.Player.Seeked'',
        ''%org.y%/p%Seeked''] [] (held 5 bus_world) = Ret (held 5 w3)" "?I w3"
    "dbus_filter ?U ?C 5 player_message bus_world = Ret (True, w3)"
    using dbus_filter_emits [OF m t u e i, unfolded s] by blast
  obtain ls where ls: "w3 = with_log ls bus_world" using w3(2) by blast
  have "held 5 w3 = held 5 (with_log [''called''] bus_world)"
    using w3(1) bus_world_emit [of _ "[]"] bus_world_emit by (simp del: di_unref_object.simps obj_call.simps)
  then have "log_lines (held 5 w3) = log_lines (held 5 (with_log [''called''] bus_world))" by simp
  then have "ls = [''called'']" by (simp add: ls held_def bump_def with_log_def bus_world_def)
  with w3(3) ls show ?thesis by simp
qed

end
