(* ===== verification/Uthash.thy ===== *)
theory Uthash
  imports Simulation
begin

text \<open>
  The hash tables of \<open>uthash.h\<close>: elements in buckets by the low bits of their hash value, a list of all elements
  in the order they were added, and buckets that are doubled when a chain becomes long.

  Elements are addresses; their keys and hash values are what their handles hold.  The two doubly linked
  lists an element is in, that of all elements and the chain of its bucket, are lists of elements here;
  counters have the width of \<open>unsigned\<close>.  A failing allocation makes the macros call \<open>exit\<close>: \<open>avail\<close> is the
  number of buckets that can be allocated at once, fewer than the counter of buckets can hold, and \<open>None\<close>
  as a state is a process that has exited.  Keys are shorter than 2^32 characters, the range of \<open>keylen\<close>.

  The theorems show that such a table is the association list that the rest of the development uses for
  hash tables: the same elements in the same order, found by the same keys.
\<close>

section \<open>The hash function\<close>

unbundle bit_operations_syntax

definition HASH_JEN_MIX :: "32 word \<Rightarrow> 32 word \<Rightarrow> 32 word \<Rightarrow> 32 word \<times> 32 word \<times> 32 word" where
  "HASH_JEN_MIX a0 b0 c0 =
     (let a1 = (a0 - b0 - c0) XOR drop_bit 13 c0;
          b1 = (b0 - c0 - a1) XOR push_bit 8 a1;
          c1 = (c0 - a1 - b1) XOR drop_bit 13 b1;
          a2 = (a1 - b1 - c1) XOR drop_bit 12 c1;
          b2 = (b1 - c1 - a2) XOR push_bit 16 a2;
          c2 = (c1 - a2 - b2) XOR drop_bit 5 b2;
          a3 = (a2 - b2 - c2) XOR drop_bit 3 c2;
          b3 = (b2 - c2 - a3) XOR push_bit 10 a3;
          c3 = (c2 - a3 - b3) XOR drop_bit 15 b3
      in (a3, b3, c3))"

definition key_byte :: "string \<Rightarrow> nat \<Rightarrow> nat \<Rightarrow> 32 word" where
  "key_byte key k shift = push_bit shift (of_nat (of_char (key ! k)))"

definition key_word :: "string \<Rightarrow> nat \<Rightarrow> 32 word" where
  "key_word key k = key_byte key k 0 + key_byte key (k + 1) 8 + key_byte key (k + 2) 16 + key_byte key (k + 3) 24"

text \<open>The bytes of a rest of fewer than twelve: the cases of the \<open>switch\<close> that are fallen through.\<close>

definition rest_byte :: "string \<Rightarrow> nat \<Rightarrow> nat \<Rightarrow> 32 word" where
  "rest_byte key k shift = (if k < length key then key_byte key k shift else 0)"

function jen_loop :: "32 word \<Rightarrow> 32 word \<Rightarrow> 32 word \<Rightarrow> string \<Rightarrow> (32 word \<times> 32 word \<times> 32 word) \<times> string" where
  "jen_loop i j hashv key =
     (if length key < 12 then ((i, j, hashv), key)
      else case HASH_JEN_MIX (i + key_word key 0) (j + key_word key 4) (hashv + key_word key 8) of
        (i', j', h') \<Rightarrow> jen_loop i' j' h' (drop 12 key))"
  by pat_completeness auto

termination jen_loop
  by (relation "measure (\<lambda>(i, j, h, key). length key)") auto

definition HASH_JEN :: "string \<Rightarrow> 32 word" where
  "HASH_JEN key =
     (case jen_loop 0x9e3779b9 0x9e3779b9 0xfeedbeef key of
        ((i, j, hashv), rest) \<Rightarrow>
          snd (snd (HASH_JEN_MIX
            (i + rest_byte rest 3 24 + rest_byte rest 2 16 + rest_byte rest 1 8 + rest_byte rest 0 0)
            (j + rest_byte rest 7 24 + rest_byte rest 6 16 + rest_byte rest 5 8 + rest_byte rest 4 0)
            (hashv + of_nat (length key) + rest_byte rest 10 24 + rest_byte rest 9 16 + rest_byte rest 8 8))))"

section \<open>Tables\<close>

record UT_hash_bucket =
  chain :: "nat list"
  count :: "32 word"
  expand_mult :: "32 word"

record UT_hash_table =
  buckets :: "UT_hash_bucket list"
  num_buckets :: "32 word"
  log2_num_buckets :: "32 word"
  num_items :: "32 word"
  ideal_chain_maxlen :: "32 word"
  nonideal_items :: "32 word"
  ineff_expands :: "32 word"
  noexpand :: bool

record uthash =
  ut_order :: "nat list"
  ut_key :: "nat \<Rightarrow> string"
  ut_hashv :: "nat \<Rightarrow> 32 word"
  ut_tbl :: "UT_hash_table option"

definition HASH_INITIAL_NUM_BUCKETS :: nat where
  "HASH_INITIAL_NUM_BUCKETS = 32"

definition HASH_BKT_CAPACITY_THRESH :: "32 word" where
  "HASH_BKT_CAPACITY_THRESH = 10"

definition empty_bucket :: UT_hash_bucket where
  "empty_bucket = \<lparr>chain = [], count = 0, expand_mult = 0\<rparr>"

definition HASH_MAKE_TABLE :: UT_hash_table where
  "HASH_MAKE_TABLE =
     \<lparr>buckets = replicate HASH_INITIAL_NUM_BUCKETS empty_bucket, num_buckets = of_nat HASH_INITIAL_NUM_BUCKETS, log2_num_buckets = 5,
      num_items = 0, ideal_chain_maxlen = 0, nonideal_items = 0, ineff_expands = 0, noexpand = False\<rparr>"

definition HASH_TO_BKT :: "32 word \<Rightarrow> 32 word \<Rightarrow> nat" where
  "HASH_TO_BKT hashv num_bkts = unat (hashv AND (num_bkts - 1))"

section \<open>Finding\<close>

definition HASH_FIND_IN_BKT :: "uthash \<Rightarrow> UT_hash_bucket \<Rightarrow> string \<Rightarrow> 32 word \<Rightarrow> nat option" where
  "HASH_FIND_IN_BKT s bkt key hashv =
     List.find (\<lambda>e. ut_hashv s e = hashv \<and> length (ut_key s e) = length key \<and> ut_key s e = key) (chain bkt)"

definition HASH_FIND :: "string \<Rightarrow> uthash \<Rightarrow> nat option res" where
  "HASH_FIND key s =
     (case ut_tbl s of
        None \<Rightarrow> Ret None
      | Some t \<Rightarrow>
         let hashv = HASH_JEN key; b = HASH_TO_BKT hashv (num_buckets t) in
         if b < length (buckets t) then Ret (HASH_FIND_IN_BKT s (buckets t ! b) key hashv) else Fault Out_Of_Bounds)"

definition HASH_COUNT :: "uthash \<Rightarrow> 32 word" where
  "HASH_COUNT s = (case ut_tbl s of None \<Rightarrow> 0 | Some t \<Rightarrow> num_items t)"

section \<open>Adding\<close>

text \<open>One element goes into its new bucket; the number of elements beyond the ideal chain length is counted.\<close>

definition rehash ::
  "(nat \<Rightarrow> 32 word) \<Rightarrow> 32 word \<Rightarrow> 32 word \<Rightarrow> nat \<Rightarrow> UT_hash_bucket list \<times> 32 word \<Rightarrow> (UT_hash_bucket list \<times> 32 word) res" where
  "rehash hashv n ideal e st =
     (case st of (bks, nonideal) \<Rightarrow>
        let b = HASH_TO_BKT (hashv e) n in
        if \<not> b < length bks then Fault Out_Of_Bounds
        else
          let bk = bks ! b; c = count bk + 1; over = ideal < c;
              m = (if over \<and> expand_mult bk * ideal < c then expand_mult bk + 1 else expand_mult bk)
          in Ret (bks[b := \<lparr>chain = e # chain bk, count = c, expand_mult = m\<rparr>], if over then nonideal + 1 else nonideal))"

definition HASH_EXPAND_BUCKETS :: "32 word \<Rightarrow> (nat \<Rightarrow> 32 word) \<Rightarrow> UT_hash_table \<Rightarrow> UT_hash_table option res" where
  "HASH_EXPAND_BUCKETS avail hashv t =
     (if unat avail < 2 * unat (num_buckets t) then Ret None
      else
        let n2 = num_buckets t * 2;
            ideal = drop_bit (unat (log2_num_buckets t + 1)) (num_items t) + (if num_items t AND (n2 - 1) \<noteq> 0 then 1 else 0)
        in bind_res (fold_res (rehash hashv n2 ideal) (concat (map chain (take (unat (num_buckets t)) (buckets t))))
                (replicate (2 * unat (num_buckets t)) empty_bucket, 0)) (\<lambda>(bks, nonideal).
          let ineff = (if drop_bit 1 (num_items t) < nonideal then ineff_expands t + 1 else 0) in
          Ret (Some (t\<lparr>buckets := bks, num_buckets := n2, log2_num_buckets := log2_num_buckets t + 1,
                ideal_chain_maxlen := ideal, nonideal_items := nonideal, ineff_expands := ineff,
                noexpand := (if 1 < ineff then True else noexpand t)\<rparr>))))"

definition HASH_ADD_TO_BKT :: "32 word \<Rightarrow> (nat \<Rightarrow> 32 word) \<Rightarrow> nat \<Rightarrow> nat \<Rightarrow> UT_hash_table \<Rightarrow> UT_hash_table option res" where
  "HASH_ADD_TO_BKT avail hashv b e t =
     (if \<not> b < length (buckets t) then Fault Out_Of_Bounds
      else
        let bk = (buckets t ! b)\<lparr>chain := e # chain (buckets t ! b), count := count (buckets t ! b) + 1\<rparr>;
            t1 = t\<lparr>buckets := (buckets t)[b := bk]\<rparr>
        in if (expand_mult bk + 1) * HASH_BKT_CAPACITY_THRESH \<le> count bk \<and> \<not> noexpand t
           then HASH_EXPAND_BUCKETS avail hashv t1 else Ret (Some t1))"

definition HASH_ADD_TO_TABLE :: "32 word \<Rightarrow> nat \<Rightarrow> uthash \<Rightarrow> UT_hash_table \<Rightarrow> uthash option res" where
  "HASH_ADD_TO_TABLE avail e s t =
     bind_res (HASH_ADD_TO_BKT avail (ut_hashv s) (HASH_TO_BKT (ut_hashv s e) (num_buckets t)) e (t\<lparr>num_items := num_items t + 1\<rparr>)) (\<lambda>r.
       Ret (case r of None \<Rightarrow> None | Some t1 \<Rightarrow> Some (s\<lparr>ut_tbl := Some t1\<rparr>)))"

definition HASH_ADD_KEYPTR :: "32 word \<Rightarrow> string \<Rightarrow> nat \<Rightarrow> uthash \<Rightarrow> uthash option res" where
  "HASH_ADD_KEYPTR avail key e s =
     (let s1 = s\<lparr>ut_key := (ut_key s)(e := key), ut_hashv := (ut_hashv s)(e := HASH_JEN key)\<rparr> in
      case ut_tbl s of
        None \<Rightarrow>
          if unat avail < HASH_INITIAL_NUM_BUCKETS then Ret None
          else HASH_ADD_TO_TABLE avail e (s1\<lparr>ut_order := [e]\<rparr>) HASH_MAKE_TABLE
      | Some t \<Rightarrow> HASH_ADD_TO_TABLE avail e (s1\<lparr>ut_order := ut_order s @ [e]\<rparr>) t)"

section \<open>Deleting\<close>

definition HASH_DEL_IN_BKT :: "nat \<Rightarrow> UT_hash_bucket \<Rightarrow> UT_hash_bucket" where
  "HASH_DEL_IN_BKT e bk = bk\<lparr>chain := remove1 e (chain bk), count := count bk - 1\<rparr>"

text \<open>An element without neighbours is the only one: the table is freed with it.\<close>

definition HASH_DELETE :: "nat \<Rightarrow> uthash \<Rightarrow> uthash res" where
  "HASH_DELETE e s =
     (case ut_tbl s of
        None \<Rightarrow> Fault Null_Deref
      | Some t \<Rightarrow>
         if ut_order s = [e] then Ret (s\<lparr>ut_order := [], ut_tbl := None\<rparr>)
         else
           let b = HASH_TO_BKT (ut_hashv s e) (num_buckets t) in
           if \<not> b < length (buckets t) then Fault Out_Of_Bounds
           else Ret (s\<lparr>ut_order := remove1 e (ut_order s),
                 ut_tbl := Some (t\<lparr>buckets := (buckets t)[b := HASH_DEL_IN_BKT e (buckets t ! b)], num_items := num_items t - 1\<rparr>)\<rparr>))"

definition HASH_CLEAR :: "uthash \<Rightarrow> uthash" where
  "HASH_CLEAR s = (case ut_tbl s of None \<Rightarrow> s | Some _ \<Rightarrow> s\<lparr>ut_order := [], ut_tbl := None\<rparr>)"

section \<open>The invariant of the buckets\<close>

declare jen_loop.simps [simp del]

lemma unat_inc32: "unat w + 1 < 2 ^ 32 \<Longrightarrow> unat (w + 1 :: 32 word) = unat w + 1"
  by (simp add: unat_word_ariths)

lemma unat_less_32: "unat (w :: 32 word) < 2 ^ 32"
  by (rule less_le_trans [OF unsigned_less]) simp

lemma unat_dec32: "w \<noteq> 0 \<Longrightarrow> unat (w - 1 :: 32 word) = unat w - 1"
  by (simp add: unat_minus_one)

lemma HASH_TO_BKT_less: "n \<noteq> 0 \<Longrightarrow> HASH_TO_BKT h n < unat n"
proof -
  assume n: "n \<noteq> 0"
  have "h AND (n - 1) \<le> n - 1" by (rule word_and_le1)
  moreover have "unat (n - 1) < unat n" using n unat_dec32 [OF n] by (simp add: unat_gt_0)
  ultimately show ?thesis unfolding HASH_TO_BKT_def by (simp add: word_le_nat_alt)
qed

text \<open>The elements \<open>es\<close> are spread over the buckets by \<open>f\<close>, once each, and the counters are right.\<close>

definition spread :: "nat set \<Rightarrow> (nat \<Rightarrow> nat) \<Rightarrow> UT_hash_bucket list \<Rightarrow> bool" where
  "spread es f bks \<longleftrightarrow> finite es \<and> (\<forall>b < length bks. distinct (chain (bks ! b)) \<and> set (chain (bks ! b)) = {e \<in> es. f e = b} \<and>
     unat (count (bks ! b)) = length (chain (bks ! b)))"

lemma spreadD:
  assumes "spread es f bks" "b < length bks"
  shows "distinct (chain (bks ! b))" "set (chain (bks ! b)) = {e \<in> es. f e = b}" "unat (count (bks ! b)) = length (chain (bks ! b))"
  using assms by (auto simp: spread_def)

lemma chain_length_le: "spread es f bks \<Longrightarrow> b < length bks \<Longrightarrow> length (chain (bks ! b)) \<le> card es"
proof -
  assume a: "spread es f bks" "b < length bks"
  have "length (chain (bks ! b)) = card (set (chain (bks ! b)))" using spreadD(1) [OF a] by (simp add: distinct_card)
  also have "\<dots> \<le> card es" using a spreadD(2) [OF a] by (intro card_mono) (auto simp: spread_def)
  finally show ?thesis .
qed

lemma spread_empty: "spread {} f (replicate n empty_bucket)"
  by (simp add: spread_def empty_bucket_def)

lemma spread_insert:
  assumes s: "spread es f bks" and b: "f e = b" "b < length bks" and e: "e \<notin> es" and c: "card es + 1 < 2 ^ 32"
  shows "spread (insert e es) f (bks[b := \<lparr>chain = e # chain (bks ! b), count = count (bks ! b) + 1, expand_mult = m\<rparr>])"
proof -
  note d = spreadD [OF s b(2)]
  have "unat (count (bks ! b)) + 1 < 2 ^ 32" using chain_length_le [OF s b(2)] d(3) c by simp
  then have "unat (count (bks ! b) + 1) = Suc (length (chain (bks ! b)))" using unat_inc32 [of "count (bks ! b)"] d(3) by simp
  then show ?thesis unfolding spread_def using s d b e
    by (auto simp: spread_def nth_list_update)
qed

lemma spread_remove:
  assumes s: "spread es f bks" and b: "f e = b" "b < length bks" and e: "e \<in> es"
  shows "spread (es - {e}) f (bks[b := HASH_DEL_IN_BKT e (bks ! b)])"
proof -
  note d = spreadD [OF s b(2)]
  have i: "e \<in> set (chain (bks ! b))" using d(2) b(1) e by simp
  then have "count (bks ! b) \<noteq> 0" using d(3) by (metis length_greater_0_conv length_pos_if_in_set less_numeral_extra(3) unat_0)
  then have "unat (count (bks ! b) - 1) = length (remove1 e (chain (bks ! b)))"
    using unat_dec32 [of "count (bks ! b)"] d(3) i by (simp add: length_remove1)
  then show ?thesis unfolding spread_def HASH_DEL_IN_BKT_def using s d b
    by (auto simp: spread_def nth_list_update set_remove1_eq)
qed

section \<open>Doubling the buckets\<close>

lemma rehash_spread:
  assumes f: "f = (\<lambda>e. HASH_TO_BKT (hashv e) n)" and n: "n \<noteq> 0"
  shows "distinct xs \<Longrightarrow> set xs \<inter> es = {} \<Longrightarrow> card es + length xs < 2 ^ 32 \<Longrightarrow> spread es f bks \<Longrightarrow> length bks = unat n \<Longrightarrow>
    \<exists>bks' i'. fold_res (rehash hashv n ideal) xs (bks, i) = Ret (bks', i') \<and> spread (es \<union> set xs) f bks' \<and> length bks' = unat n"
proof (induction xs arbitrary: es bks i)
  case (Cons e xs)
  let ?b = "HASH_TO_BKT (hashv e) n"
  have b: "?b < length bks" using HASH_TO_BKT_less [OF n] Cons.prems(5) by simp
  obtain m i1 where r: "rehash hashv n ideal e (bks, i) =
      Ret (bks[?b := \<lparr>chain = e # chain (bks ! ?b), count = count (bks ! ?b) + 1, expand_mult = m\<rparr>], i1)"
    using b by (auto simp: rehash_def Let_def)
  have "spread (insert e es) f (bks[?b := \<lparr>chain = e # chain (bks ! ?b), count = count (bks ! ?b) + 1, expand_mult = m\<rparr>])"
    using Cons.prems f b by (intro spread_insert) auto
  moreover have "card (insert e es) + length xs < 2 ^ 32" using Cons.prems by (simp add: spread_def)
  ultimately show ?case
    using Cons.IH [of "insert e es" "bks[?b := \<lparr>chain = e # chain (bks ! ?b), count = count (bks ! ?b) + 1, expand_mult = m\<rparr>]" i1]
      Cons.prems r by (simp add: insert_commute)
qed simp

lemma distinct_chains:
  "(\<And>i. i < length xss \<Longrightarrow> distinct (xss ! i)) \<Longrightarrow>
   (\<And>i j. i < length xss \<Longrightarrow> j < length xss \<Longrightarrow> i \<noteq> j \<Longrightarrow> set (xss ! i) \<inter> set (xss ! j) = {}) \<Longrightarrow> distinct (concat xss)"
proof (induction xss)
  case (Cons xs xss)
  have "distinct (concat xss)" using Cons.prems(1) [of "Suc _"] Cons.prems(2) [of "Suc _" "Suc _"] by (intro Cons.IH) auto
  moreover have "set xs \<inter> set ys = {}" if "ys \<in> set xss" for ys
    using that Cons.prems(2) [of 0 "Suc _"] by (auto simp: in_set_conv_nth)
  ultimately show ?case using Cons.prems(1) [of 0] by auto
qed simp

definition tbl_ok :: "nat set \<Rightarrow> (nat \<Rightarrow> 32 word) \<Rightarrow> UT_hash_table \<Rightarrow> bool" where
  "tbl_ok es hashv t \<longleftrightarrow> num_buckets t \<noteq> 0 \<and> length (buckets t) = unat (num_buckets t) \<and>
     spread es (\<lambda>e. HASH_TO_BKT (hashv e) (num_buckets t)) (buckets t)"

lemma all_chains:
  assumes "tbl_ok es hashv t"
  shows "distinct (concat (map chain (buckets t)))" "set (concat (map chain (buckets t))) = es"
proof -
  let ?f = "\<lambda>e. HASH_TO_BKT (hashv e) (num_buckets t)"
  have s: "spread es ?f (buckets t)" and n: "num_buckets t \<noteq> 0" "length (buckets t) = unat (num_buckets t)"
    using assms by (auto simp: tbl_ok_def)
  show "distinct (concat (map chain (buckets t)))"
    using spreadD(1,2) [OF s] by (intro distinct_chains) auto
  have "e \<in> set (concat (map chain (buckets t))) \<longleftrightarrow> e \<in> es" for e
  proof
    assume "e \<in> set (concat (map chain (buckets t)))"
    then obtain b where "b < length (buckets t)" "e \<in> set (chain (buckets t ! b))" by (auto simp: in_set_conv_nth [of _ "buckets t"])
    then show "e \<in> es" using spreadD(2) [OF s] by simp
  next
    assume "e \<in> es"
    then have "e \<in> set (chain (buckets t ! ?f e))" using spreadD(2) [OF s, of "?f e"] HASH_TO_BKT_less [OF n(1)] n(2) by simp
    moreover have "buckets t ! ?f e \<in> set (buckets t)" using HASH_TO_BKT_less [OF n(1)] n(2) by simp
    ultimately show "e \<in> set (concat (map chain (buckets t)))" by auto
  qed
  then show "set (concat (map chain (buckets t))) = es" by blast
qed

lemma expand_ok:
  assumes t: "tbl_ok es hashv t" and c: "card es < 2 ^ 32"
  shows "HASH_EXPAND_BUCKETS avail hashv t = Ret None \<and> unat avail < 2 * unat (num_buckets t) \<or>
    (\<exists>t'. HASH_EXPAND_BUCKETS avail hashv t = Ret (Some t') \<and> tbl_ok es hashv t' \<and> num_items t' = num_items t)"
proof (cases "unat avail < 2 * unat (num_buckets t)")
  case False
  let ?n2 = "num_buckets t * 2" and ?xs = "concat (map chain (buckets t))"
  have u: "unat ?n2 = 2 * unat (num_buckets t)" using False unat_less_32 [of avail] by (simp add: unat_word_ariths mult.commute)
  moreover have "unat (num_buckets t) \<noteq> 0" using t by (simp add: tbl_ok_def unat_eq_0)
  ultimately have n: "?n2 \<noteq> 0" by (metis mult_eq_0_iff unat_0 zero_neq_numeral)
  note ch = all_chains [OF t]
  have "length ?xs = card es" using distinct_card [OF ch(1)] ch(2) by simp
  then have x: "distinct ?xs" "set ?xs \<inter> {} = {}" "card {} + length ?xs < 2 ^ 32" using ch(1) c by simp_all
  define ideal where "ideal = drop_bit (unat (log2_num_buckets t + 1)) (num_items t) + (if num_items t AND (?n2 - 1) \<noteq> 0 then 1 else 0)"
  obtain bks i where r: "fold_res (rehash hashv ?n2 ideal) ?xs (replicate (2 * unat (num_buckets t)) empty_bucket, 0) = Ret (bks, i)"
    "spread es (\<lambda>e. HASH_TO_BKT (hashv e) ?n2) bks" "length bks = unat ?n2"
    using rehash_spread [OF refl n x spread_empty, of "2 * unat (num_buckets t)" hashv ideal 0] u ch(2) by auto
  have tk: "take (unat (num_buckets t)) (buckets t) = buckets t" using t by (simp add: tbl_ok_def)
  show ?thesis using False r n by (simp add: HASH_EXPAND_BUCKETS_def Let_def tbl_ok_def tk ideal_def)
qed (simp add: HASH_EXPAND_BUCKETS_def)

section \<open>Tables are association lists\<close>

text \<open>
  Several elements may have been added under one key: the macros do not look.  Which of them is found
  then depends on how the chain has been rebuilt since.  \<open>find_dup i k t\<close> is one of them, the number \<open>i\<close> counted
  around.
\<close>

definition find_dup :: "nat \<Rightarrow> 'k \<Rightarrow> ('k, 'v) table \<Rightarrow> 'v option" where
  "find_dup i k t = (let vs = map snd (filter (\<lambda>e. fst e = k) t) in if vs = [] then None else Some (vs ! (i mod length vs)))"

lemma find_dup_None_iff: "find_dup i k t = None \<longleftrightarrow> k \<notin> fst ` set t"
  by (auto simp: find_dup_def Let_def filter_empty_conv)

lemma find_dup_SomeD: "find_dup i k t = Some v \<Longrightarrow> (k, v) \<in> set t"
proof -
  let ?vs = "map snd (filter (\<lambda>e. fst e = k) t)"
  assume a: "find_dup i k t = Some v"
  then have "?vs \<noteq> []" by (auto simp: find_dup_def Let_def)
  then have "?vs ! (i mod length ?vs) \<in> set ?vs" by (intro nth_mem) simp
  with a show ?thesis by (auto simp: find_dup_def Let_def split: if_splits)
qed

lemma find_dup_every: "(k, v) \<in> set t \<Longrightarrow> \<exists>i. find_dup i k t = Some v"
proof -
  let ?vs = "map snd (filter (\<lambda>e. fst e = k) t)"
  assume "(k, v) \<in> set t"
  then have "v \<in> set ?vs" by force
  then obtain i where "i < length ?vs" "?vs ! i = v" unfolding in_set_conv_nth by blast
  then have "find_dup i k t = Some v" by (auto simp: find_dup_def Let_def)
  then show ?thesis ..
qed

lemma find_dup_unique: "table_ok t \<Longrightarrow> find_dup i k t = hash_find k t"
proof (cases "hash_find k t")
  case None
  moreover have "find_dup i k t = None" using None by (simp add: find_dup_None_iff hash_find_None_iff)
  ultimately show ?thesis by simp
next
  case (Some v)
  assume t: "table_ok t"
  have "(k, v) \<in> set t" by (rule hash_find_SomeD [OF Some])
  then obtain u where u: "find_dup i k t = Some u" using find_dup_None_iff [of i k t] by force
  with Some t show ?thesis
    using find_dup_SomeD [OF u] hash_find_SomeD [OF Some] eq_key_imp_eq_value [of t k u v] by (simp add: table_ok_def)
qed

text \<open>
  \<open>ut_holds es s\<close>: the elements of the table \<open>s\<close> are those of the association list \<open>es\<close> in its order, under the
  same keys.  \<open>ut_ok\<close>: and no key occurs twice.
\<close>

definition ut_holds :: "(string, nat) table \<Rightarrow> uthash \<Rightarrow> bool" where
  "ut_holds es s \<longleftrightarrow> distinct (map snd es) \<and> length es < 2 ^ 32 \<and> ut_order s = map snd es \<and>
     (\<forall>(k, e) \<in> set es. ut_key s e = k \<and> ut_hashv s e = HASH_JEN k) \<and>
     (case ut_tbl s of
        None \<Rightarrow> es = []
      | Some t \<Rightarrow> es \<noteq> [] \<and> unat (num_items t) = length es \<and> tbl_ok (snd ` set es) (ut_hashv s) t)"

definition ut_ok :: "(string, nat) table \<Rightarrow> uthash \<Rightarrow> bool" where
  "ut_ok es s \<longleftrightarrow> table_ok es \<and> ut_holds es s"

definition ut_rel :: "(string, nat) table \<Rightarrow> uthash option \<Rightarrow> bool" where
  "ut_rel es r \<longleftrightarrow> (case r of None \<Rightarrow> True | Some s \<Rightarrow> ut_ok es s)"

text \<open>Finding by key is looking up the key: an element under the key is found when there is one.\<close>

lemma find_in_bucket:
  assumes ok: "ut_holds es s" and t: "ut_tbl s = Some t"
  shows "\<exists>i. HASH_FIND key s = Ret (find_dup i key es)"
proof -
  let ?h = "HASH_JEN key" and ?f = "\<lambda>e. HASH_TO_BKT (ut_hashv s e) (num_buckets t)"
  let ?b = "HASH_TO_BKT ?h (num_buckets t)" and ?P = "\<lambda>e. ut_hashv s e = ?h \<and> length (ut_key s e) = length key \<and> ut_key s e = key"
  have k: "\<And>k e. (k, e) \<in> set es \<Longrightarrow> ut_key s e = k \<and> ut_hashv s e = HASH_JEN k"
    and tb: "tbl_ok (snd ` set es) (ut_hashv s) t" using ok t by (auto simp: ut_holds_def)
  have b: "?b < length (buckets t)" using tb HASH_TO_BKT_less by (simp add: tbl_ok_def)
  have c: "set (chain (buckets t ! ?b)) = {e \<in> snd ` set es. ?f e = ?b}" using tb spreadD(2) [OF _ b] by (auto simp: tbl_ok_def)
  have "\<exists>i. List.find ?P (chain (buckets t ! ?b)) = find_dup i key es"
  proof (cases "List.find ?P (chain (buckets t ! ?b))")
    case None
    then have n: "\<And>e. e \<in> set (chain (buckets t ! ?b)) \<Longrightarrow> \<not> ?P e" by (auto simp: find_None_iff)
    have "(key, e) \<notin> set es" for e
    proof
      assume m: "(key, e) \<in> set es"
      then have "e \<in> set (chain (buckets t ! ?b))" using c k by force
      from n [OF this] k [OF m] show False by simp
    qed
    then have "key \<notin> fst ` set es" by auto
    then have "find_dup 0 key es = None" by (simp add: find_dup_None_iff)
    with None show ?thesis by (intro exI [of _ 0]) simp
  next
    case (Some e)
    then have "e \<in> set (chain (buckets t ! ?b))" "?P e" by (auto simp: find_Some_iff)
    moreover from this(1) obtain k' where k': "(k', e) \<in> set es" using c by auto
    ultimately have "(key, e) \<in> set es" using k [OF k'] by simp
    then obtain i where "find_dup i key es = Some e" using find_dup_every [of key e es] by blast
    with Some show ?thesis by (intro exI [of _ i]) simp
  qed
  then show ?thesis using b t by (simp add: HASH_FIND_def HASH_FIND_IN_BKT_def Let_def)
qed

lemma find_holds: "ut_holds es s \<Longrightarrow> \<exists>i. HASH_FIND key s = Ret (find_dup i key es)"
proof (cases "ut_tbl s")
  case None
  assume "ut_holds es s"
  with None show ?thesis by (simp add: ut_holds_def HASH_FIND_def find_dup_def)
qed (rule find_in_bucket)

lemma find_ok: "ut_ok es s \<Longrightarrow> HASH_FIND key s = Ret (hash_find key es)"
  using find_holds [of es s key] find_dup_unique [of es _ key] by (auto simp: ut_ok_def)

lemma count_ok: "ut_ok es s \<Longrightarrow> unat (HASH_COUNT s) = length es"
  by (auto simp: ut_ok_def ut_holds_def HASH_COUNT_def split: option.splits)

lemma spread_cong: "(\<And>e. e \<in> es \<Longrightarrow> f e = g e) \<Longrightarrow> spread es f bks = spread es g bks"
proof -
  assume "\<And>e. e \<in> es \<Longrightarrow> f e = g e"
  then have "{e \<in> es. f e = b} = {e \<in> es. g e = b}" for b by auto
  then show ?thesis by (simp add: spread_def)
qed

lemma add_to_bkt_ok:
  assumes t: "tbl_ok es hashv t" and e: "e \<notin> es" and c: "card es + 1 < 2 ^ 32"
  shows "HASH_ADD_TO_BKT avail hashv (HASH_TO_BKT (hashv e) (num_buckets t)) e t = Ret None \<or>
    (\<exists>t'. HASH_ADD_TO_BKT avail hashv (HASH_TO_BKT (hashv e) (num_buckets t)) e t = Ret (Some t') \<and>
      tbl_ok (insert e es) hashv t' \<and> num_items t' = num_items t)"
proof -
  let ?b = "HASH_TO_BKT (hashv e) (num_buckets t)" and ?bks = "buckets t"
  let ?bk = "(?bks ! ?b)\<lparr>chain := e # chain (?bks ! ?b), count := count (?bks ! ?b) + 1\<rparr>"
  let ?t1 = "t\<lparr>buckets := ?bks[?b := ?bk]\<rparr>"
  have b: "?b < length ?bks" using t HASH_TO_BKT_less by (simp add: tbl_ok_def)
  have bk: "?bk = \<lparr>chain = e # chain (?bks ! ?b), count = count (?bks ! ?b) + 1, expand_mult = expand_mult (?bks ! ?b)\<rparr>"
    by (cases "?bks ! ?b") simp
  have s: "spread es (\<lambda>e. HASH_TO_BKT (hashv e) (num_buckets t)) ?bks" and fin: "finite es" using t by (auto simp: tbl_ok_def spread_def)
  have t1: "tbl_ok (insert e es) hashv ?t1"
    using t spread_insert [OF s refl b e c] unfolding bk by (simp add: tbl_ok_def)
  have "card (insert e es) < 2 ^ 32" using c fin e by simp
  from expand_ok [OF t1 this, of avail] t1 show ?thesis using b by (auto simp: HASH_ADD_TO_BKT_def Let_def)
qed

lemma add_to_table_ok:
  assumes t: "tbl_ok (set xs) hashv t" and xs: "distinct xs" "e \<notin> set xs" "length xs + 1 < 2 ^ 32"
    and s: "ut_hashv s = hashv" and n: "unat (num_items t) = length xs"
  shows "HASH_ADD_TO_TABLE avail e s t = Ret None \<or>
    (\<exists>t'. HASH_ADD_TO_TABLE avail e s t = Ret (Some (s\<lparr>ut_tbl := Some t'\<rparr>)) \<and> tbl_ok (insert e (set xs)) hashv t' \<and>
      unat (num_items t') = length xs + 1)"
proof -
  let ?t = "t\<lparr>num_items := num_items t + 1\<rparr>"
  have "tbl_ok (set xs) hashv ?t" using t by (simp add: tbl_ok_def)
  moreover have "card (set xs) + 1 < 2 ^ 32" using xs by (simp add: distinct_card)
  moreover have "unat (num_items ?t) = length xs + 1" using unat_inc32 [of "num_items t"] n xs(3) by simp
  ultimately show ?thesis using add_to_bkt_ok [of "set xs" hashv ?t e avail] xs(2) s
    by (auto simp: HASH_ADD_TO_TABLE_def)
qed

lemma make_table_ok: "tbl_ok {} hashv HASH_MAKE_TABLE"
  by (simp add: tbl_ok_def HASH_MAKE_TABLE_def HASH_INITIAL_NUM_BUCKETS_def spread_empty)

lemma add_holds:
  assumes ok: "ut_holds es s" and e: "e \<notin> snd ` set es" and n: "length es + 1 < 2 ^ 32"
  shows "\<exists>r. HASH_ADD_KEYPTR avail k e s = Ret r \<and> (\<forall>s'. r = Some s' \<longrightarrow> ut_holds (hash_add k e es) s')"
proof -
  let ?h = "(ut_hashv s)(e := HASH_JEN k)"
  let ?s = "s\<lparr>ut_key := (ut_key s)(e := k), ut_hashv := ?h, ut_order := ut_order s @ [e]\<rparr>"
  have d: "distinct (map snd es)" "ut_order s = map snd es" "\<forall>(k, e) \<in> set es. ut_key s e = k \<and> ut_hashv s e = HASH_JEN k"
    using ok by (auto simp: ut_holds_def)
  have ne: "(x, e) \<notin> set es" for x using e by force
  have new: "ut_holds (hash_add k e es) (?s\<lparr>ut_tbl := Some t'\<rparr>)"
    if "tbl_ok (insert e (set (map snd es))) ?h t'" "unat (num_items t') = length (map snd es) + 1" for t'
    using that d e n ne by (auto simp: ut_holds_def hash_add_def)
  define t where "t = (case ut_tbl s of None \<Rightarrow> HASH_MAKE_TABLE | Some t \<Rightarrow> t)"
  have t: "tbl_ok (set (map snd es)) ?h t" "unat (num_items t) = length (map snd es)"
  proof -
    have "tbl_ok (set (map snd es)) (ut_hashv s) t" "unat (num_items t) = length (map snd es)"
      using ok make_table_ok by (auto simp: t_def ut_holds_def HASH_MAKE_TABLE_def split: option.splits)
    moreover have "HASH_TO_BKT (?h x) m = HASH_TO_BKT (ut_hashv s x) m" if "x \<in> set (map snd es)" for x m using that e by auto
    ultimately show "tbl_ok (set (map snd es)) ?h t" "unat (num_items t) = length (map snd es)"
      using spread_cong [of "set (map snd es)" "\<lambda>x. HASH_TO_BKT (?h x) (num_buckets t)" "\<lambda>x. HASH_TO_BKT (ut_hashv s x) (num_buckets t)"]
      by (simp_all add: tbl_ok_def)
  qed
  have run: "HASH_ADD_KEYPTR avail k e s = Ret None \<or> HASH_ADD_KEYPTR avail k e s = HASH_ADD_TO_TABLE avail e ?s t"
    using ok by (auto simp: HASH_ADD_KEYPTR_def ut_holds_def t_def Let_def split: option.splits)
  have e': "e \<notin> set (map snd es)" "length (map snd es) + 1 < 2 ^ 32" using e n by auto
  have "HASH_ADD_TO_TABLE avail e ?s t = Ret None \<or> (\<exists>t'. HASH_ADD_TO_TABLE avail e ?s t = Ret (Some (?s\<lparr>ut_tbl := Some t'\<rparr>)) \<and>
      tbl_ok (insert e (set (map snd es))) ?h t' \<and> unat (num_items t') = length (map snd es) + 1)"
    by (rule add_to_table_ok [OF t(1) d(1) e' _ t(2)]) simp
  then show ?thesis using run new by auto
qed

lemma add_ok:
  assumes "ut_ok es s" "hash_find k es = None" "e \<notin> snd ` set es" "length es + 1 < 2 ^ 32"
  shows "\<exists>r. HASH_ADD_KEYPTR avail k e s = Ret r \<and> ut_rel (hash_add k e es) r"
proof -
  have "table_ok (hash_add k e es)" using assms(1,2) by (auto simp: ut_ok_def table_ok_def hash_add_def hash_find_None_iff)
  moreover have "ut_holds es s" using assms(1) by (simp add: ut_ok_def)
  from add_holds [OF this assms(3,4), of avail k] obtain r
    where "HASH_ADD_KEYPTR avail k e s = Ret r" "\<forall>s'. r = Some s' \<longrightarrow> ut_holds (hash_add k e es) s'" by blast
  ultimately show ?thesis by (auto simp: ut_rel_def ut_ok_def split: option.splits)
qed

lemma map_snd_filter: "distinct (map snd es) \<Longrightarrow> remove1 e (map snd es) = map snd (filter (\<lambda>p. snd p \<noteq> e) es)"
  by (auto simp: distinct_remove1_removeAll removeAll_filter_not_eq filter_map o_def intro!: arg_cong [of _ _ "map snd"] filter_cong)

lemma delete_holds:
  assumes ok: "ut_holds es s" and e: "e \<in> snd ` set es"
  shows "\<exists>s'. HASH_DELETE e s = Ret s' \<and> ut_holds (filter (\<lambda>p. snd p \<noteq> e) es) s'"
proof -
  let ?es = "filter (\<lambda>p. snd p \<noteq> e) es"
  have d: "distinct (map snd es)" "ut_order s = map snd es" "\<forall>(k, e) \<in> set es. ut_key s e = k \<and> ut_hashv s e = HASH_JEN k"
    "length es < 2 ^ 32" using ok by (auto simp: ut_holds_def)
  obtain t where t: "ut_tbl s = Some t" "unat (num_items t) = length es" "tbl_ok (snd ` set es) (ut_hashv s) t"
    using ok e by (auto simp: ut_holds_def split: option.splits)
  show ?thesis
  proof (cases "ut_order s = [e]")
    case True
    then have "?es = []" using d(2) by (auto simp: filter_empty_conv)
    then show ?thesis using True t(1) by (simp add: HASH_DELETE_def ut_holds_def)
  next
    case False
    let ?b = "HASH_TO_BKT (ut_hashv s e) (num_buckets t)"
    have b: "?b < length (buckets t)" using t(3) HASH_TO_BKT_less by (simp add: tbl_ok_def)
    let ?t = "t\<lparr>buckets := (buckets t)[?b := HASH_DEL_IN_BKT e (buckets t ! ?b)], num_items := num_items t - 1\<rparr>"
    have im: "snd ` set ?es = snd ` set es - {e}" by auto
    have "tbl_ok (snd ` set ?es) (ut_hashv s) ?t"
      using t(3) spread_remove [of "snd ` set es" _ "buckets t" e ?b] b e unfolding im by (simp add: tbl_ok_def)
    moreover have l: "length ?es = length es - 1"
      using map_snd_filter [OF d(1), of e] e length_remove1 [of e "map snd es"] by (metis image_set length_map)
    moreover have "?es \<noteq> []"
    proof
      assume "?es = []"
      with l e have "length (map snd es) = 1" by (cases es) auto
      with e False d(2) show False by (auto simp: length_Suc_conv)
    qed
    moreover have "unat (num_items ?t) = length es - 1" using t(2) unat_dec32 [of "num_items t"] e by (cases "num_items t = 0") auto
    moreover have "distinct (map snd ?es)" using d(1) by (simp add: distinct_map_filter)
    ultimately have "ut_holds ?es (s\<lparr>ut_order := remove1 e (ut_order s), ut_tbl := Some ?t\<rparr>)"
      using d map_snd_filter [OF d(1), of e] by (auto simp: ut_holds_def)
    then show ?thesis using False t(1) b by (simp add: HASH_DELETE_def Let_def)
  qed
qed

lemma delete_ok:
  assumes "ut_ok es s" "e \<in> snd ` set es"
  shows "\<exists>s'. HASH_DELETE e s = Ret s' \<and> ut_ok (filter (\<lambda>p. snd p \<noteq> e) es) s'"
  using assms delete_holds [of es s e] by (auto simp: ut_ok_def table_ok_def distinct_map_filter)

text \<open>The operations, and what they are on association lists.  An element is deleted by its address.\<close>

datatype ut_op = Ut_add string nat | Ut_del nat | Ut_clear

fun ut_run :: "32 word \<Rightarrow> ut_op \<Rightarrow> uthash option \<Rightarrow> uthash option res" where
  "ut_run avail op None = Ret None"
| "ut_run avail (Ut_add k e) (Some s) = HASH_ADD_KEYPTR avail k e s"
| "ut_run avail (Ut_del e) (Some s) = bind_res (HASH_DELETE e s) (\<lambda>s'. Ret (Some s'))"
| "ut_run avail Ut_clear (Some s) = Ret (Some (HASH_CLEAR s))"

fun spec_ut :: "ut_op \<Rightarrow> (string, nat) table \<Rightarrow> (string, nat) table" where
  "spec_ut (Ut_add k e) es = hash_add k e es"
| "spec_ut (Ut_del e) es = filter (\<lambda>p. snd p \<noteq> e) es"
| "spec_ut Ut_clear es = []"

fun ut_enabled :: "ut_op \<Rightarrow> (string, nat) table \<Rightarrow> bool" where
  "ut_enabled (Ut_add k e) es \<longleftrightarrow> hash_find k es = None \<and> e \<notin> snd ` set es \<and> length es + 1 < 2 ^ 32"
| "ut_enabled (Ut_del e) es \<longleftrightarrow> e \<in> snd ` set es"
| "ut_enabled Ut_clear es \<longleftrightarrow> True"

lemma clear_ok: "ut_ok es s \<Longrightarrow> ut_ok [] (HASH_CLEAR s)"
  by (auto simp: ut_ok_def ut_holds_def HASH_CLEAR_def table_ok_def split: option.splits)

lemma ut_step:
  assumes "ut_rel es r" "ut_enabled op es"
  shows "\<exists>r'. ut_run avail op r = Ret r' \<and> ut_rel (spec_ut op es) r'"
proof (cases r)
  case None
  then show ?thesis by (simp add: ut_rel_def)
next
  case (Some s)
  with assms(1) have ok: "ut_ok es s" by (simp add: ut_rel_def)
  show ?thesis
  proof (cases op)
    case (Ut_add k e)
    then show ?thesis using Some assms(2) add_ok [OF ok, of k e avail] by auto
  next
    case (Ut_del e)
    then show ?thesis using Some assms(2) delete_ok [OF ok, of e] by (auto simp: ut_rel_def)
  next
    case Ut_clear
    then show ?thesis using Some clear_ok [OF ok] by (simp add: ut_rel_def)
  qed
qed

interpretation uthash_32: step_refinement spec_ut "ut_run avail" ut_enabled ut_rel
  by unfold_locales (rule ut_step)

text \<open>Deleting the element found under a key is deleting the key.\<close>

lemma delete_found: "table_ok es \<Longrightarrow> distinct (map snd es) \<Longrightarrow> hash_find k es = Some e \<Longrightarrow> filter (\<lambda>p. snd p \<noteq> e) es = hash_del k es"
proof -
  assume t: "table_ok es" "distinct (map snd es)" and f: "hash_find k es = Some e"
  have "(k, e) \<in> set es" by (rule hash_find_SomeD [OF f])
  then have "snd p \<noteq> e \<longleftrightarrow> fst p \<noteq> k" if "p \<in> set es" for p
    using that t by (cases p) (fastforce simp: table_ok_def distinct_map inj_on_def)
  then show ?thesis unfolding hash_del_def by (rule filter_cong [OF refl])
qed

section \<open>Tables with equal keys\<close>

fun dup_enabled :: "ut_op \<Rightarrow> (string, nat) table \<Rightarrow> bool" where
  "dup_enabled (Ut_add k e) es \<longleftrightarrow> e \<notin> snd ` set es \<and> length es + 1 < 2 ^ 32"
| "dup_enabled (Ut_del e) es \<longleftrightarrow> e \<in> snd ` set es"
| "dup_enabled Ut_clear es \<longleftrightarrow> True"

definition dup_rel :: "(string, nat) table \<Rightarrow> uthash option \<Rightarrow> bool" where
  "dup_rel es r \<longleftrightarrow> (\<forall>s. r = Some s \<longrightarrow> ut_holds es s)"

lemma clear_holds: "ut_holds es s \<Longrightarrow> ut_holds [] (HASH_CLEAR s)"
  by (auto simp: ut_holds_def HASH_CLEAR_def split: option.splits)

lemma dup_step:
  assumes "dup_rel es r" "dup_enabled op es"
  shows "\<exists>r'. ut_run avail op r = Ret r' \<and> dup_rel (spec_ut op es) r'"
proof (cases r)
  case None
  then show ?thesis by (simp add: dup_rel_def)
next
  case (Some s)
  with assms(1) have ok: "ut_holds es s" by (simp add: dup_rel_def)
  show ?thesis
  proof (cases op)
    case (Ut_add k e)
    then show ?thesis using Some assms(2) add_holds [OF ok, of e avail k] by (auto simp: dup_rel_def)
  next
    case (Ut_del e)
    then show ?thesis using Some assms(2) delete_holds [OF ok, of e] by (auto simp: dup_rel_def)
  next
    case Ut_clear
    then show ?thesis using Some clear_holds [OF ok] by (simp add: dup_rel_def)
  qed
qed

interpretation uthash_dup: step_refinement spec_ut "ut_run avail" dup_enabled dup_rel
  by unfold_locales (rule dup_step)

text \<open>
  A key may be added again.  The table still holds all its elements in the order they were added, and a lookup
  finds one of those under the key, whenever there is one.
\<close>

theorem uthash_keeps_duplicates:
  assumes "dup_rel es r" "all_enabled spec_ut dup_enabled ops es"
  shows "\<exists>r'. fold_res (ut_run avail) ops r = Ret r' \<and> (\<forall>s. r' = Some s \<longrightarrow>
    ut_order s = map snd (fold spec_ut ops es) \<and> (\<forall>key. \<exists>i. HASH_FIND key s = Ret (find_dup i key (fold spec_ut ops es))))"
proof -
  obtain r' where r': "fold_res (ut_run avail) ops r = Ret r'" "dup_rel (fold spec_ut ops es) r'"
    using uthash_dup.run [OF assms] by blast
  have "ut_order s = map snd (fold spec_ut ops es) \<and> (\<forall>key. \<exists>i. HASH_FIND key s = Ret (find_dup i key (fold spec_ut ops es)))"
    if "r' = Some s" for s
    using r'(2) that find_holds [of "fold spec_ut ops es" s] by (simp add: dup_rel_def ut_holds_def)
  with r'(1) show ?thesis by blast
qed

section \<open>Small tables\<close>

text \<open>
  A table with fewer than ten elements never doubles its buckets, so that it only needs memory for the
  first 32: the process does not exit.
\<close>

definition small_rel :: "(string, nat) table \<Rightarrow> uthash option \<Rightarrow> bool" where
  "small_rel es r \<longleftrightarrow> (\<exists>s. r = Some s \<and> ut_ok es s \<and>
     (\<forall>t. ut_tbl s = Some t \<longrightarrow> (\<forall>bk \<in> set (buckets t). expand_mult bk = 0)))"

definition small_enabled :: "ut_op \<Rightarrow> (string, nat) table \<Rightarrow> bool" where
  "small_enabled op es \<longleftrightarrow> ut_enabled op es \<and> length es < 9"

lemma add_to_bkt_small:
  assumes t: "tbl_ok es hashv t" and m: "\<forall>bk \<in> set (buckets t). expand_mult bk = 0" and c: "card es < 9" and b: "b < length (buckets t)"
  shows "\<exists>t'. HASH_ADD_TO_BKT avail hashv b e t = Ret (Some t') \<and> (\<forall>bk \<in> set (buckets t'). expand_mult bk = 0)"
proof -
  let ?bk = "buckets t ! b"
  have s: "spread es (\<lambda>e. HASH_TO_BKT (hashv e) (num_buckets t)) (buckets t)" using t by (simp add: tbl_ok_def)
  have "unat (count ?bk) < 9" using chain_length_le [OF s b] spreadD(3) [OF s b] c by simp
  then have "\<not> 10 \<le> count ?bk + 1" using unat_inc32 [of "count ?bk"] by (simp add: word_le_nat_alt)
  moreover have z: "expand_mult ?bk = 0" using m b by simp
  moreover have "\<forall>bk \<in> set ((buckets t)[b := ?bk\<lparr>chain := e # chain ?bk, count := count ?bk + 1\<rparr>]). expand_mult bk = 0"
    using m z set_update_subset_insert [of "buckets t" b] by fastforce
  ultimately show ?thesis using b by (simp add: HASH_ADD_TO_BKT_def HASH_BKT_CAPACITY_THRESH_def Let_def)
qed

lemma small_add:
  assumes "small_rel es (Some s)" "ut_enabled (Ut_add k e) es" "length es < 9" "32 \<le> unat avail"
  shows "\<exists>r'. HASH_ADD_KEYPTR avail k e s = Ret r' \<and> small_rel (hash_add k e es) r'"
proof -
  have ok: "ut_ok es s" and m: "\<forall>t. ut_tbl s = Some t \<longrightarrow> (\<forall>bk \<in> set (buckets t). expand_mult bk = 0)"
    using assms(1) by (auto simp: small_rel_def)
  obtain r where r: "HASH_ADD_KEYPTR avail k e s = Ret r" "ut_rel (hash_add k e es) r" using add_ok [OF ok, of k e avail] assms(2) by auto
  define t where "t = (case ut_tbl s of None \<Rightarrow> HASH_MAKE_TABLE | Some t \<Rightarrow> t)"
  let ?s = "s\<lparr>ut_key := (ut_key s)(e := k), ut_hashv := (ut_hashv s)(e := HASH_JEN k), ut_order := ut_order s @ [e]\<rparr>"
  let ?t = "t\<lparr>num_items := num_items t + 1\<rparr>" and ?h = "(ut_hashv s)(e := HASH_JEN k)"
  have tb: "tbl_ok (snd ` set es) (ut_hashv s) t" and mt: "\<forall>bk \<in> set (buckets ?t). expand_mult bk = 0"
    using ok m make_table_ok by (auto simp: t_def ut_ok_def ut_holds_def HASH_MAKE_TABLE_def empty_bucket_def split: option.splits)
  have "card (snd ` set es) \<le> length es" by (metis card_length length_map list.set_map)
  then have c: "card (snd ` set es) < 9" using assms(3) by simp
  have h: "HASH_TO_BKT (?h x) (num_buckets t) = HASH_TO_BKT (ut_hashv s x) (num_buckets t)" if "x \<in> snd ` set es" for x
    using that assms(2) by auto
  have "spread (snd ` set es) (\<lambda>x. HASH_TO_BKT (?h x) (num_buckets t)) (buckets t)"
    using tb spread_cong [of "snd ` set es", OF h] by (simp add: tbl_ok_def cong: if_cong)
  then have th: "tbl_ok (snd ` set es) ?h ?t" using tb by (simp add: tbl_ok_def)
  have b: "HASH_TO_BKT (?h e) (num_buckets t) < length (buckets ?t)" using tb HASH_TO_BKT_less by (simp add: tbl_ok_def)
  have run: "HASH_ADD_KEYPTR avail k e s = HASH_ADD_TO_TABLE avail e ?s t"
    using ok assms(4) by (auto simp: HASH_ADD_KEYPTR_def HASH_INITIAL_NUM_BUCKETS_def ut_ok_def ut_holds_def t_def Let_def split: option.splits)
  obtain t' where t': "HASH_ADD_TO_BKT avail ?h (HASH_TO_BKT (?h e) (num_buckets t)) e ?t = Ret (Some t')"
    "\<forall>bk \<in> set (buckets t'). expand_mult bk = 0" using add_to_bkt_small [OF th mt c b] by blast
  then have "r = Some (?s\<lparr>ut_tbl := Some t'\<rparr>)" using run r(1) by (simp add: HASH_ADD_TO_TABLE_def)
  then show ?thesis using r t'(2) by (auto simp: small_rel_def ut_rel_def)
qed

lemma small_step:
  assumes a: "32 \<le> unat avail" and r: "small_rel es r" and e: "small_enabled op es"
  shows "\<exists>r'. ut_run avail op r = Ret r' \<and> small_rel (spec_ut op es) r'"
proof -
  obtain s where s: "r = Some s" "ut_ok es s" "\<forall>t. ut_tbl s = Some t \<longrightarrow> (\<forall>bk \<in> set (buckets t). expand_mult bk = 0)"
    using r by (auto simp: small_rel_def)
  show ?thesis
  proof (cases op)
    case (Ut_add k x)
    then show ?thesis using s r e a small_add [of es s k x avail] by (auto simp: small_enabled_def)
  next
    case (Ut_del x)
    then obtain s' where s': "HASH_DELETE x s = Ret s'" "ut_ok (filter (\<lambda>p. snd p \<noteq> x) es) s'"
      using delete_ok [OF s(2), of x] e by (auto simp: small_enabled_def)
    have "expand_mult bk = 0" if "ut_tbl s' = Some t'" "bk \<in> set (buckets t')" for t' bk
    proof -
      obtain t where t: "ut_tbl s = Some t" using s'(1) by (auto simp: HASH_DELETE_def split: option.splits)
      have "HASH_DEL_IN_BKT x b = b\<lparr>chain := remove1 x (chain b), count := count b - 1\<rparr>" for b by (rule HASH_DEL_IN_BKT_def)
      then show ?thesis using s'(1) t that s(3) set_update_subset_insert [of "buckets t"]
        by (fastforce simp: HASH_DELETE_def Let_def split: if_splits)
    qed
    then show ?thesis using Ut_del s(1) s' by (auto simp: small_rel_def)
  next
    case Ut_clear
    then show ?thesis using s clear_ok [OF s(2)] by (auto simp: small_rel_def HASH_CLEAR_def split: option.splits)
  qed
qed

lemma small_run:
  assumes a: "32 \<le> unat avail"
  shows "small_rel es r \<Longrightarrow> all_enabled spec_ut small_enabled ops es \<Longrightarrow>
    \<exists>r'. fold_res (ut_run avail) ops r = Ret r' \<and> small_rel (fold spec_ut ops es) r'"
proof (induction ops arbitrary: es r)
  case (Cons op ops)
  then obtain r1 where "ut_run avail op r = Ret r1" "small_rel (spec_ut op es) r1" using small_step [OF a, of es r op] by auto
  with Cons.IH [of "spec_ut op es" r1] Cons.prems(2) show ?case by auto
qed simp

definition empty_uthash :: uthash where
  "empty_uthash = \<lparr>ut_order = [], ut_key = (\<lambda>_. []), ut_hashv = (\<lambda>_. 0), ut_tbl = None\<rparr>"

lemma empty_ut_ok: "ut_ok [] empty_uthash"
  by (simp add: ut_ok_def ut_holds_def empty_uthash_def table_ok_def)

section \<open>The hash tables are association lists\<close>

text \<open>
  C33. Whatever sequence of additions of new keys, deletions of present elements and clearing is run on a
  hash table, no bucket is accessed out of bounds, and unless memory ran out and the process has
  exited, the table holds the elements of the association list on which the same operations are run, in
  the order of their addition, counts them, and finds under every key what the association list has
  under it, however often the buckets were doubled in between.
\<close>

theorem uthash_refines_alist:
  assumes "ut_rel es r" "all_enabled spec_ut ut_enabled ops es"
  shows "\<exists>r'. fold_res (ut_run avail) ops r = Ret r' \<and> (\<forall>s. r' = Some s \<longrightarrow>
    ut_order s = map snd (fold spec_ut ops es) \<and> unat (HASH_COUNT s) = length (fold spec_ut ops es) \<and>
    (\<forall>key. HASH_FIND key s = Ret (hash_find key (fold spec_ut ops es))))"
proof -
  obtain r' where r': "fold_res (ut_run avail) ops r = Ret r'" "ut_rel (fold spec_ut ops es) r'"
    using uthash_32.run [OF assms] by blast
  have "ut_order s = map snd (fold spec_ut ops es)" "unat (HASH_COUNT s) = length (fold spec_ut ops es)"
    "HASH_FIND key s = Ret (hash_find key (fold spec_ut ops es))" if "r' = Some s" for s key
  proof -
    have ok: "ut_ok (fold spec_ut ops es) s" using r'(2) that by (simp add: ut_rel_def)
    then show "ut_order s = map snd (fold spec_ut ops es)" by (simp add: ut_ok_def ut_holds_def)
    show "unat (HASH_COUNT s) = length (fold spec_ut ops es)" by (rule count_ok [OF ok])
    show "HASH_FIND key s = Ret (hash_find key (fold spec_ut ops es))" by (rule find_ok [OF ok])
  qed
  with r'(1) show ?thesis by blast
qed

theorem uthash_refines_alist_witness:
  "\<exists>s. fold_res (ut_run 100) [Ut_add ''a'' 1, Ut_add ''b'' 2, Ut_del 1] (Some empty_uthash) = Ret (Some s) \<and>
    ut_order s = [2] \<and> unat (HASH_COUNT s) = 1 \<and> HASH_FIND ''a'' s = Ret None \<and> HASH_FIND ''b'' s = Ret (Some 2)"
proof -
  let ?ops = "[Ut_add ''a'' 1, Ut_add ''b'' 2, Ut_del 1]"
  have es: "fold spec_ut ?ops [] = [(''b'', 2)]" by (simp add: hash_add_def)
  have en: "all_enabled spec_ut ut_enabled ?ops []" "all_enabled spec_ut small_enabled ?ops []"
    by (simp_all add: hash_add_def hash_find_def small_enabled_def)
  have "ut_rel [] (Some empty_uthash)" using empty_ut_ok by (simp add: ut_rel_def)
  from uthash_refines_alist [OF this en(1), of 100, unfolded es]
  obtain r' where r': "fold_res (ut_run 100) ?ops (Some empty_uthash) = Ret r'"
    "\<And>s. r' = Some s \<Longrightarrow> ut_order s = [2] \<and> unat (HASH_COUNT s) = 1 \<and> (\<forall>key. HASH_FIND key s = Ret (hash_find key [(''b'', 2)]))"
    by auto
  have "small_rel [] (Some empty_uthash)" using empty_ut_ok by (simp add: small_rel_def empty_uthash_def)
  from small_run [OF _ this en(2), of 100] r'(1) obtain s where "r' = Some s" by (auto simp: small_rel_def)
  with r' show ?thesis by (auto simp: hash_find_def)
qed

end
