(* ===== verification/FileWatch.thy ===== *)
theory FileWatch
  imports Macros Signals Uthash
begin

text \<open>
  The file plugin \<open>plugins/file/file.c\<close>: watches on files through inotify.

  The kernel is seen through what it answers: \<open>inotify_add_watch\<close> gives a watch descriptor or \<open>-1\<close>, and a
  read gives a sequence of events.  A watcher keeps its entries in two hash tables, by name and by
  descriptor.  An entry is memory of its own, so that a listener that removes a watch while its event is
  being delivered shows up as a use after free.
\<close>

section \<open>Events\<close>

record inotify_event =
  ev_wd :: int
  ev_mask :: "32 word"
  ev_cookie :: "32 word"
  ev_name :: string

definition IN_ACCESS :: nat where "IN_ACCESS = 0"
definition IN_MODIFY :: nat where "IN_MODIFY = 1"
definition IN_ATTRIB :: nat where "IN_ATTRIB = 2"
definition IN_CLOSE_WRITE :: nat where "IN_CLOSE_WRITE = 3"
definition IN_CLOSE_NOWRITE :: nat where "IN_CLOSE_NOWRITE = 4"
definition IN_OPEN :: nat where "IN_OPEN = 5"
definition IN_MOVED_FROM :: nat where "IN_MOVED_FROM = 6"
definition IN_MOVED_TO :: nat where "IN_MOVED_TO = 7"
definition IN_CREATE :: nat where "IN_CREATE = 8"
definition IN_DELETE :: nat where "IN_DELETE = 9"
definition IN_DELETE_SELF :: nat where "IN_DELETE_SELF = 10"
definition IN_MOVE_SELF :: nat where "IN_MOVE_SELF = 11"

text \<open>The bit of the mask, the signal and whether the cookie is an argument, in the order of the tests.\<close>

definition event_signals :: "(nat \<times> string \<times> bool) list" where
  "event_signals =
     [(IN_CREATE, ''create'', False), (IN_ACCESS, ''access'', False), (IN_ATTRIB, ''attrib'', False),
      (IN_CLOSE_WRITE, ''close-write'', False), (IN_CLOSE_NOWRITE, ''close-nowrite'', False),
      (IN_DELETE, ''delete'', False), (IN_DELETE_SELF, ''delete-self'', False), (IN_MODIFY, ''modify'', False),
      (IN_MOVE_SELF, ''move-self'', False), (IN_OPEN, ''open'', False),
      (IN_MOVED_FROM, ''moved-from'', True), (IN_MOVED_TO, ''moved-to'', True)]"

definition signals_of :: "inotify_event \<Rightarrow> (string \<times> bool) list" where
  "signals_of ev = map snd (filter (\<lambda>s. bit (ev_mask ev) (fst s)) event_signals)"

definition signal_args :: "string \<Rightarrow> inotify_event \<Rightarrow> bool \<Rightarrow> di_value list" where
  "signal_args fname ev with_cookie =
     [VLiteral fname, VLiteral (cstr (ev_name ev))] @ (if with_cookie then [VNuint (ev_cookie ev)] else [])"

section \<open>The watcher\<close>

definition get_fw :: "oref \<Rightarrow> world \<Rightarrow> di_file_watch res" where
  "get_fw p w = bind_res (get_obj p w) (\<lambda>x. case payload x of PFileWatch v \<Rightarrow> Ret v | _ \<Rightarrow> Fault Type_Confusion)"

text \<open>
  One path can be watched twice, and two paths can be the same file: then several entries have one key, and which of
  them a lookup finds depends on how often the buckets have been doubled since (see \<open>uthash_keeps_duplicates\<close>).
  The operations that look up take the number \<open>which\<close> of the entry found, counted among those with the key.
\<close>

text \<open>One \<open>di_emit\<close> for an event; it reads the entry the loop holds a pointer to.\<close>

definition emit_event :: "drop_fn \<Rightarrow> call_obj \<Rightarrow> oref \<Rightarrow> nat \<Rightarrow> inotify_event \<Rightarrow> string \<times> bool \<Rightarrow> world \<Rightarrow> world res" where
  "emit_event U C p we ev s w =
     bind_res (get_fw p w) (\<lambda>v.
       case fw_entries v we of
         None \<Rightarrow> Fault (Use_After_Free we)
       | Some e \<Rightarrow> bind_res (di_emitn U C p (fst s) (signal_args (we_fname e) ev (snd s)) w) (\<lambda>(_, w1). Ret w1))"

text \<open>
  The loop of \<open>di_file_ioev\<close>, with fuel; \<open>which\<close> is given by the fuel left.  An event whose descriptor is not in the table is skipped
  \<^emph>\<open>without\<close> advancing to the next one.
\<close>

fun file_ioev_loop :: "(nat \<Rightarrow> nat) \<Rightarrow> nat \<Rightarrow> drop_fn \<Rightarrow> call_obj \<Rightarrow> oref \<Rightarrow> inotify_event list \<Rightarrow> world \<Rightarrow> world res" where
  "file_ioev_loop which n U C p [] w = Ret w"
| "file_ioev_loop which 0 U C p (ev # evs) w = Fault OutOfFuel"
| "file_ioev_loop which (Suc n) U C p (ev # evs) w =
     bind_res (get_fw p w) (\<lambda>v.
       case find_dup (which n) (ev_wd ev) (fw_bywd v) of
         None \<Rightarrow> file_ioev_loop which n U C p (ev # evs) w
       | Some we \<Rightarrow> bind_res (fold_res (emit_event U C p we ev) (signals_of ev) w) (\<lambda>w1. file_ioev_loop which n U C p evs w1))"

definition di_file_ioev :: "(nat \<Rightarrow> nat) \<Rightarrow> nat \<Rightarrow> drop_fn \<Rightarrow> call_obj \<Rightarrow> inotify_event list \<Rightarrow> oref \<Rightarrow> world \<Rightarrow> world res" where
  "di_file_ioev which n U C evs weak w =
     bind_res (di_upgrade_weak_ref weak w) (\<lambda>(r, w1).
       case r of
         None \<Rightarrow> Fault (Aborted ''got ioev events but the listener has died'')
       | Some p \<Rightarrow> bind_res (file_ioev_loop which n U C p evs w1) (U p))"

text \<open>The entry is allocated at a fresh address.\<close>

definition add_entry :: "string \<Rightarrow> int \<Rightarrow> nat \<Rightarrow> di_file_watch \<Rightarrow> di_file_watch" where
  "add_entry path wd a v =
     v\<lparr>fw_entries := (fw_entries v)(a \<mapsto> \<lparr>we_fname = cstr path, we_wd = wd\<rparr>),
       fw_bywd := hash_add wd a (fw_bywd v), fw_byname := hash_add path a (fw_byname v)\<rparr>"

definition remove_entry :: "nat \<Rightarrow> di_file_watch \<Rightarrow> di_file_watch" where
  "remove_entry a v =
     v\<lparr>fw_entries := (fw_entries v)(a := None),
       fw_bywd := filter (\<lambda>e. snd e \<noteq> a) (fw_bywd v), fw_byname := filter (\<lambda>e. snd e \<noteq> a) (fw_byname v)\<rparr>"

text \<open>\<open>add_watch\<close> is \<open>inotify_add_watch\<close> on the descriptor of the watcher.  Its failure \<open>-1\<close> is handed on, which reads as \<open>-EPERM\<close>.\<close>

definition di_file_add_watch :: "(string \<Rightarrow> nat option) \<Rightarrow> oref \<Rightarrow> di_string \<Rightarrow> world \<Rightarrow> (unit outcome \<times> world) res" where
  "di_file_add_watch add_watch p path w =
     (case path of
        None \<Rightarrow> Ret (Inl EINVAL, w)
      | Some s \<Rightarrow>
         (case add_watch (cstr s) of
            None \<Rightarrow> Ret (Inl EPERM, w)
          | Some wd \<Rightarrow>
             bind_res (get_fw p w) (\<lambda>v.
               bind_res (put_payload p (PFileWatch (add_entry s (int wd) (next_addr w) v)) (w\<lparr>next_addr := Suc (next_addr w)\<rparr>))
                 (\<lambda>w1. Ret (Inr (), w1)))))"

text \<open>The kernel is asked again for every path of a batch: \<open>add_watch i\<close> is its answer to the path number \<open>i\<close>.\<close>

fun add_watches :: "(nat \<Rightarrow> string \<Rightarrow> nat option) \<Rightarrow> oref \<Rightarrow> di_string list \<Rightarrow> world \<Rightarrow> (unit outcome \<times> world) res" where
  "add_watches add_watch p [] w = Ret (Inr (), w)"
| "add_watches add_watch p (s # ss) w =
     bind_res (di_file_add_watch (add_watch 0) p s w) (\<lambda>(ret, w1).
       if ret \<noteq> Inr () then Ret (ret, w1) else add_watches (\<lambda>i. add_watch (Suc i)) p ss w1)"

fun path_elem :: "di_value \<Rightarrow> di_string res" where
  "path_elem (VString s) = Ret s"
| "path_elem (VLiteral s) = Ret (di_string_borrow s)"
| "path_elem _ = Fault Type_Confusion"

fun path_elems :: "di_value list \<Rightarrow> di_string list res" where
  "path_elems [] = Ret []"
| "path_elems (v # vs) = bind_res (path_elem v) (\<lambda>s. bind_res (path_elems vs) (\<lambda>ss. Ret (s # ss)))"

definition di_file_add_many_watch :: "(nat \<Rightarrow> string \<Rightarrow> nat option) \<Rightarrow> oref \<Rightarrow> di_type \<Rightarrow> di_value list \<Rightarrow> world \<Rightarrow> (unit outcome \<times> world) res" where
  "di_file_add_many_watch add_watch p elem_type paths w =
     (if paths = [] then Ret (Inr (), w)
      else if elem_type \<noteq> DI_TYPE_STRING \<and> elem_type \<noteq> DI_TYPE_STRING_LITERAL then Ret (Inl EINVAL, w)
      else bind_res (path_elems paths) (\<lambda>ss. add_watches add_watch p ss w))"

definition di_file_rm_watch :: "nat \<Rightarrow> oref \<Rightarrow> di_string \<Rightarrow> world \<Rightarrow> (unit outcome \<times> world) res" where
  "di_file_rm_watch which p path w =
     (case path of
        None \<Rightarrow> Ret (Inl EINVAL, w)
      | Some s \<Rightarrow>
         bind_res (get_fw p w) (\<lambda>v.
           case find_dup which s (fw_byname v) of
             None \<Rightarrow> Ret (Inl ENOENT, w)
           | Some we \<Rightarrow> bind_res (put_payload p (PFileWatch (remove_entry we v)) w) (\<lambda>w1. Ret (Inr (), w1))))"

text \<open>The destructor; \<open>HASH_ITER\<close> visits the entries in the order they were added.\<close>

definition stop_file_watcher :: "oref \<Rightarrow> world \<Rightarrow> world res" where
  "stop_file_watcher p w =
     bind_res (di_has_member p ''__inotify_fd_event'' w) (\<lambda>b. assert_res b ''stop_file_watcher''
       (bind_res (get_fw p w) (\<lambda>v. put_payload p (PFileWatch (fold remove_entry (map snd (fw_bywd v)) v)) w)))"

text \<open>
  \<open>di_file_new_watch\<close>: \<open>ifd\<close> is the result of \<open>inotify_init1\<close>.  When the event module cannot be found the
  new object is left with its reference.
\<close>

record file_host =
  fh_fn :: "string \<Rightarrow> nat"
  fh_prep_cif :: "di_type \<Rightarrow> di_type list \<Rightarrow> bool"
  fh_ifd :: int
  fh_add_watch :: "nat \<Rightarrow> string \<Rightarrow> nat option"

definition file_watch_object :: "file_host \<Rightarrow> drop_fn \<Rightarrow> world \<Rightarrow> (oref \<times> world) res" where
  "file_watch_object H U w =
     (let (p, w1) = alloc_object w in
      bind_res (di_set_type U p ''deai.plugin.file:Watch'' w1) (\<lambda>(_, w2).
        bind_res (put_payload p (PFileWatch \<lparr>fw_fd = fh_ifd H, fw_entries = Map.empty, fw_byname = [], fw_bywd = []\<rparr>) w2) (\<lambda>w3.
          bind_res (di_set_object_dtor p (Some (Dtor_ext (fh_fn H ''stop_file_watcher''))) w3) (\<lambda>w4.
            bind_res (add_methods (fh_prep_cif H) U p
                [(''add'', fh_fn H ''di_file_add_many_watch'', DI_TYPE_NINT, [DI_TYPE_ARRAY]),
                 (''add_one'', fh_fn H ''di_file_add_watch'', DI_TYPE_NINT, [DI_TYPE_STRING]),
                 (''remove'', fh_fn H ''di_file_rm_watch'', DI_TYPE_NINT, [DI_TYPE_STRING])] w4) (\<lambda>w5. Ret (p, w5))))))"

definition listen_inotify :: "file_host \<Rightarrow> drop_fn \<Rightarrow> call_obj \<Rightarrow> oref \<Rightarrow> oref \<Rightarrow> world \<Rightarrow> world res" where
  "listen_inotify H U C p eventm w =
     bind_res (di_callr U C eventm ''fdevent'' DI_TYPE_OBJECT [VNint (word_of_int (fh_ifd H)), VNint 1] w) (\<lambda>(r, w1).
       case r of
         Inr (VObject fdevent) \<Rightarrow>
           bind_res (di_weakly_ref_object p w1) (\<lambda>w2.
             bind_res (di_create_closure (fh_prep_cif H) U (fh_fn H ''di_file_ioev'') DI_TYPE_NINT [VWeak p] [] w2) (\<lambda>(cl, w3).
               case cl of
                 Inl e \<Rightarrow> Fault Type_Confusion
               | Inr f \<Rightarrow>
                  bind_res (di_listen_to U C fdevent ''read'' f w3) (\<lambda>(lh, w4).
                    bind_res (di_add_member_move U p (Some ''__inotify_fd_event'') (VObject fdevent) w4) (\<lambda>(_, w5).
                      bind_res (di_add_member_move U p (Some ''__inotify_fd_event_read_listen_handle'') (VObject lh) w5) (\<lambda>(_, w6).
                        bind_res (U f w6) (di_drop_weak_ref p))))))
       | _ \<Rightarrow> Fault (Aborted ''DI_CHECK_OK''))"

definition di_file_new_watch :: "file_host \<Rightarrow> drop_fn \<Rightarrow> call_obj \<Rightarrow> oref \<Rightarrow> di_type \<Rightarrow> di_value list \<Rightarrow> world \<Rightarrow> (oref \<times> world) res" where
  "di_file_new_watch H U C f elem_type paths w =
     (if paths \<noteq> [] \<and> elem_type \<noteq> DI_TYPE_STRING \<and> elem_type \<noteq> DI_TYPE_STRING_LITERAL
      then di_new_error U ''Argument needs to be an array of strings'' w
      else if fh_ifd H < 0 then di_new_error U ''Failed to create new inotify file descriptor'' w
      else bind_res (file_watch_object H U w) (\<lambda>(p, w1).
        bind_res (di_mgetm U C f ''event'' w1) (\<lambda>(ev, w2).
          case ev of
            None \<Rightarrow> di_new_error U ''Can't find event module'' w2
          | Some eventm \<Rightarrow>
             bind_res (listen_inotify H U C p eventm w2) (\<lambda>w3.
               bind_res (di_file_add_many_watch (fh_add_watch H) p elem_type paths w3) (\<lambda>(ret, w4).
                 if ret \<noteq> Inr ()
                 then bind_res (U p w4) (\<lambda>w5. bind_res (di_new_error U ''Failed to add watches'' w5) (\<lambda>(e, w6).
                   bind_res (U eventm w6) (\<lambda>w7. Ret (e, w7))))
                 else bind_res (U eventm w4) (\<lambda>w5. Ret (p, w5)))))))"

definition file_plugin_init :: "(di_type \<Rightarrow> di_type list \<Rightarrow> bool) \<Rightarrow> (string \<Rightarrow> nat) \<Rightarrow> drop_fn \<Rightarrow> oref \<Rightarrow> world \<Rightarrow> world res" where
  "file_plugin_init P fn U di w =
     bind_res (di_new_module U di w) (\<lambda>(fm, w1).
       case fm of
         None \<Rightarrow> Fault Null_Deref
       | Some m \<Rightarrow>
          bind_res (add_methods P U m [(''watch'', fn ''di_file_new_watch'', DI_TYPE_OBJECT, [DI_TYPE_ARRAY])] w1) (\<lambda>w2.
            bind_res (di_register_module U di (Some ''file'') m w2) (\<lambda>(_, w3). Ret w3)))"

end
