(* ===== verification/FileWatchProps.thy ===== *)
theory FileWatchProps
  imports FileWatch SpawnExamples Examples Simulation
begin

text \<open>
  What the file plugin promises: the two tables of a watcher agree, a batch of events is turned into
  signals in order, and when it is not.
\<close>

section \<open>The tables of a watcher\<close>

text \<open>
  \<open>watch_ok a v\<close>: both tables hold the same entries, each under its key, all allocated below the address
  \<open>a\<close>, and no entry is in neither.
\<close>

definition watch_ok :: "nat \<Rightarrow> di_file_watch \<Rightarrow> bool" where
  "watch_ok a v \<longleftrightarrow> map snd (fw_byname v) = map snd (fw_bywd v) \<and> distinct (map snd (fw_bywd v)) \<and>
     snd ` set (fw_bywd v) = dom (fw_entries v) \<and> (\<forall>x \<in> dom (fw_entries v). x < a) \<and>
     (\<forall>(wd, x) \<in> set (fw_bywd v). map_option we_wd (fw_entries v x) = Some wd) \<and>
     (\<forall>(name, x) \<in> set (fw_byname v). map_option we_fname (fw_entries v x) = Some (cstr name))"

lemma watch_ok_empty: "watch_ok a \<lparr>fw_fd = fd, fw_entries = Map.empty, fw_byname = [], fw_bywd = []\<rparr>"
  by (simp add: watch_ok_def)

lemma watch_okD:
  assumes "watch_ok a v"
  shows "map snd (fw_byname v) = map snd (fw_bywd v)" "distinct (map snd (fw_bywd v))" "snd ` set (fw_bywd v) = dom (fw_entries v)"
    "snd ` set (fw_byname v) = dom (fw_entries v)" "\<And>x. x \<in> dom (fw_entries v) \<Longrightarrow> x < a"
    "\<And>wd x. (wd, x) \<in> set (fw_bywd v) \<Longrightarrow> map_option we_wd (fw_entries v x) = Some wd"
    "\<And>name x. (name, x) \<in> set (fw_byname v) \<Longrightarrow> map_option we_fname (fw_entries v x) = Some (cstr name)"
proof -
  show "snd ` set (fw_byname v) = dom (fw_entries v)" using assms by (simp add: watch_ok_def flip: set_map)
qed (use assms in \<open>auto simp: watch_ok_def\<close>)

lemma watch_okI:
  assumes "map snd (fw_byname v) = map snd (fw_bywd v)" "distinct (map snd (fw_bywd v))" "snd ` set (fw_bywd v) = dom (fw_entries v)"
    "\<And>x. x \<in> dom (fw_entries v) \<Longrightarrow> x < a"
    "\<And>wd x. (wd, x) \<in> set (fw_bywd v) \<Longrightarrow> map_option we_wd (fw_entries v x) = Some wd"
    "\<And>name x. (name, x) \<in> set (fw_byname v) \<Longrightarrow> map_option we_fname (fw_entries v x) = Some (cstr name)"
  shows "watch_ok a v"
  using assms by (auto simp: watch_ok_def)

lemma watch_ok_add:
  assumes v: "watch_ok a v"
  shows "watch_ok (Suc a) (add_entry path wd a v)"
proof (rule watch_okI)
  have a: "a \<notin> dom (fw_entries v)" using watch_okD(5) [OF v, of a] by blast
  then have n: "a \<notin> snd ` set (fw_bywd v)" "a \<notin> snd ` set (fw_byname v)" using watch_okD(3,4) [OF v] by simp_all
  then have ne: "(k, a) \<notin> set (fw_bywd v)" "(j, a) \<notin> set (fw_byname v)" for k j by (metis snd_conv image_eqI)+
  show "map snd (fw_byname (add_entry path wd a v)) = map snd (fw_bywd (add_entry path wd a v))"
    using watch_okD(1) [OF v] by (simp add: add_entry_def hash_add_def)
  show "distinct (map snd (fw_bywd (add_entry path wd a v)))" using watch_okD(2) [OF v] n by (simp add: add_entry_def hash_add_def)
  show "snd ` set (fw_bywd (add_entry path wd a v)) = dom (fw_entries (add_entry path wd a v))"
    using watch_okD(3) [OF v] by (simp add: add_entry_def hash_add_def)
  show "x < Suc a" if "x \<in> dom (fw_entries (add_entry path wd a v))" for x
    using that watch_okD(5) [OF v, of x] by (auto simp: add_entry_def dom_def less_Suc_eq split: if_splits)
  show "map_option we_wd (fw_entries (add_entry path wd a v) x) = Some k" if "(k, x) \<in> set (fw_bywd (add_entry path wd a v))" for k x
    using that ne watch_okD(6) [OF v, of k x] by (auto simp: add_entry_def hash_add_def)
  show "map_option we_fname (fw_entries (add_entry path wd a v) x) = Some (cstr k)" if "(k, x) \<in> set (fw_byname (add_entry path wd a v))" for k x
    using that ne watch_okD(7) [OF v, of k x] by (auto simp: add_entry_def hash_add_def)
qed

lemma watch_ok_remove:
  assumes v: "watch_ok a v"
  shows "watch_ok a (remove_entry y v)"
proof (rule watch_okI)
  have f: "map snd (filter (\<lambda>e. snd e \<noteq> y) t) = filter (\<lambda>x. x \<noteq> y) (map snd t)" for t :: "('k \<times> nat) list" by (induction t) auto
  show "map snd (fw_byname (remove_entry y v)) = map snd (fw_bywd (remove_entry y v))"
    using watch_okD(1) [OF v] by (simp add: remove_entry_def f)
  show "distinct (map snd (fw_bywd (remove_entry y v)))" using watch_okD(2) [OF v] by (simp add: remove_entry_def f)
  have "snd ` set (filter (\<lambda>e. snd e \<noteq> y) (fw_bywd v)) = snd ` set (fw_bywd v) - {y}" by auto
  then show "snd ` set (fw_bywd (remove_entry y v)) = dom (fw_entries (remove_entry y v))"
    using watch_okD(3) [OF v] by (simp add: remove_entry_def)
  show "x < a" if "x \<in> dom (fw_entries (remove_entry y v))" for x
    using that watch_okD(5) [OF v, of x] by (auto simp: remove_entry_def split: if_splits)
  show "map_option we_wd (fw_entries (remove_entry y v) x) = Some k" if "(k, x) \<in> set (fw_bywd (remove_entry y v))" for k x
    using that watch_okD(6) [OF v, of k x] by (auto simp: remove_entry_def)
  show "map_option we_fname (fw_entries (remove_entry y v) x) = Some (cstr k)" if "(k, x) \<in> set (fw_byname (remove_entry y v))" for k x
    using that watch_okD(7) [OF v, of k x] by (auto simp: remove_entry_def)
qed

lemma get_fw_Ret: "get_fw p w = Ret v \<longleftrightarrow> (\<exists>x. heap w p = Some x \<and> payload x = PFileWatch v)"
  by (auto simp: get_fw_def get_obj_def split: option.splits payload.splits)

lemma put_fw:
  assumes "get_fw p w = Ret v"
  shows "\<exists>w'. put_payload p (PFileWatch v') (w\<lparr>next_addr := a\<rparr>) = Ret w' \<and> get_fw p w' = Ret v' \<and> next_addr w' = a"
  using assms by (auto simp: get_fw_Ret put_payload_def get_obj_def put_obj_def)

section \<open>Adding and removing watches\<close>

text \<open>
  The contract: a watcher is the list of its watches, names with their descriptors, in the order they
  were added.  Adding appends when the kernel gives a descriptor; removing drops one watch of that name.
  An operation comes with what the program cannot know: the answers of the kernel to its request, and which of
  several entries of that name the table finds.
\<close>

datatype file_op = Add_one "string \<Rightarrow> nat option" di_string | Add_many "nat \<Rightarrow> string \<Rightarrow> nat option" "di_string list" | Remove nat di_string

fun drop_nth :: "nat \<Rightarrow> 'k \<Rightarrow> ('k \<times> 'v) list \<Rightarrow> ('k \<times> 'v) list" where
  "drop_nth i k [] = []"
| "drop_nth i k (x # xs) =
     (if fst x \<noteq> k then x # drop_nth i k xs else if i = 0 then xs else x # drop_nth (i - 1) k xs)"

definition spec_remove :: "nat \<Rightarrow> 'k \<Rightarrow> ('k \<times> 'v) list \<Rightarrow> ('k \<times> 'v) list" where
  "spec_remove i k xs = (if k \<in> fst ` set xs then drop_nth (i mod length (filter (\<lambda>x. fst x = k) xs)) k xs else xs)"

definition spec_add :: "(string \<Rightarrow> nat option) \<Rightarrow> di_string \<Rightarrow> (string \<times> int) list \<Rightarrow> (string \<times> int) list" where
  "spec_add aw path xs =
     (case path of None \<Rightarrow> xs | Some s \<Rightarrow> (case aw (cstr s) of None \<Rightarrow> xs | Some wd \<Rightarrow> xs @ [(s, int wd)]))"

fun spec_add_many :: "(nat \<Rightarrow> string \<Rightarrow> nat option) \<Rightarrow> di_string list \<Rightarrow> (string \<times> int) list \<Rightarrow> (string \<times> int) list" where
  "spec_add_many aw [] xs = xs"
| "spec_add_many aw (p # ps) xs =
     (if \<exists>s wd. p = Some s \<and> aw 0 (cstr s) = Some wd then spec_add_many (\<lambda>i. aw (Suc i)) ps (spec_add (aw 0) p xs) else xs)"

fun spec_file :: "file_op \<Rightarrow> (string \<times> int) list \<Rightarrow> (string \<times> int) list" where
  "spec_file (Add_one aw path) xs = spec_add aw path xs"
| "spec_file (Add_many aw paths) xs = spec_add_many aw paths xs"
| "spec_file (Remove i path) xs = (case path of None \<Rightarrow> xs | Some s \<Rightarrow> spec_remove i s xs)"

fun file_run :: "oref \<Rightarrow> file_op \<Rightarrow> world \<Rightarrow> world res" where
  "file_run p (Add_one aw path) w = bind_res (di_file_add_watch aw p path w) (\<lambda>(_, w1). Ret w1)"
| "file_run p (Add_many aw paths) w = bind_res (di_file_add_many_watch aw p DI_TYPE_STRING (map VString paths) w) (\<lambda>(_, w1). Ret w1)"
| "file_run p (Remove i path) w = bind_res (di_file_rm_watch i p path w) (\<lambda>(_, w1). Ret w1)"

definition watch_list :: "di_file_watch \<Rightarrow> (string \<times> int) list" where
  "watch_list v = zip (map fst (fw_byname v)) (map fst (fw_bywd v))"

definition fw_rel :: "oref \<Rightarrow> (string \<times> int) list \<Rightarrow> world \<Rightarrow> bool" where
  "fw_rel p xs w \<longleftrightarrow> (\<exists>v. get_fw p w = Ret v \<and> watch_ok (next_addr w) v \<and> watch_list v = xs)"

lemma watch_list_add: "watch_ok a v \<Longrightarrow> watch_list (add_entry s wd a v) = watch_list v @ [(s, wd)]"
  using watch_okD(1) [of a v] by (simp add: watch_list_def add_entry_def hash_add_def) (metis length_map zip_append zip_Cons_Cons zip_Nil)

lemma filter_other: "a \<notin> snd ` set t \<Longrightarrow> filter (\<lambda>e. snd e \<noteq> a) t = t"
  by (induction t) auto

lemma drop_nth_zip:
  assumes "map snd ns = map snd ds" "distinct (map snd ds)" "i < length (filter (\<lambda>e. fst e = k) ns)"
    "a = map snd (filter (\<lambda>e. fst e = k) ns) ! i"
  shows "zip (map fst (filter (\<lambda>e. snd e \<noteq> a) ns)) (map fst (filter (\<lambda>e. snd e \<noteq> a) ds)) = drop_nth i k (zip (map fst ns) (map fst ds))"
proof -
  have "length ns = length ds" using assms(1) map_eq_imp_length_eq by blast
  then show ?thesis using assms
  proof (induction ns ds arbitrary: i rule: list_induct2)
    case (Cons n ns d ds)
    have eq: "snd n = snd d" "map snd ns = map snd ds" "snd d \<notin> snd ` set ds" "distinct (map snd ds)" using Cons.prems by auto
    have other: "snd d \<noteq> a" if "a \<in> set (map snd ns)" using that eq(3) unfolding eq(2) by auto
    have here: "map snd (filter (\<lambda>e. fst e = k) ns) ! j \<in> set (map snd ns)" if "j < length (filter (\<lambda>e. fst e = k) ns)" for j
    proof -
      have "map snd (filter (\<lambda>e. fst e = k) ns) ! j \<in> set (map snd (filter (\<lambda>e. fst e = k) ns))" by (rule nth_mem) (simp add: that)
      then show ?thesis by auto
    qed
    show ?case
    proof (cases "fst n = k")
      case False
      then have i: "i < length (filter (\<lambda>e. fst e = k) ns)" "a = map snd (filter (\<lambda>e. fst e = k) ns) ! i" using Cons.prems(3,4) by auto
      have "snd d \<noteq> a" using other here [OF i(1)] unfolding i(2) [symmetric] .
      with False eq Cons.IH [OF eq(2,4) i] show ?thesis by simp
    next
      case True
      show ?thesis
      proof (cases i)
        case 0
        then have a: "snd n = a" "snd d = a" "a \<notin> snd ` set ds" using True Cons.prems(4) eq by auto
        moreover have "a \<notin> snd ` set ns" using a eq by (simp flip: set_map)
        ultimately show ?thesis using True 0 by (simp add: filter_other)
      next
        case (Suc j)
        then have j: "j < length (filter (\<lambda>e. fst e = k) ns)" "a = map snd (filter (\<lambda>e. fst e = k) ns) ! j" using True Cons.prems(3,4) by auto
        have "snd d \<noteq> a" using other here [OF j(1)] unfolding j(2) [symmetric] .
        with True Suc eq Cons.IH [OF eq(2,4) j] show ?thesis by simp
      qed
    qed
  qed simp
qed

lemma length_filter_fst: "map fst xs = map fst ys \<Longrightarrow> length (filter (\<lambda>x. fst x = k) xs) = length (filter (\<lambda>y. fst y = k) ys)"
proof (induction xs arbitrary: ys)
  case (Cons x xs)
  then show ?case by (cases ys) auto
qed simp

lemma watch_list_names: "watch_ok a v \<Longrightarrow> map fst (watch_list v) = map fst (fw_byname v)"
  using map_eq_imp_length_eq [OF watch_okD(1) [of a v]] by (simp add: watch_list_def)

lemma watch_list_values: "watch_ok a v \<Longrightarrow> map snd (watch_list v) = map fst (fw_bywd v)"
  using map_eq_imp_length_eq [OF watch_okD(1) [of a v]] by (simp add: watch_list_def)

lemma watch_list_keys: "watch_ok a v \<Longrightarrow> fst ` set (watch_list v) = fst ` set (fw_byname v)"
  using watch_list_names by (metis list.set_map)

lemma watch_list_remove:
  assumes v: "watch_ok a v" and f: "find_dup i s (fw_byname v) = Some we"
  shows "watch_list (remove_entry we v) = spec_remove i s (watch_list v)"
proof -
  let ?n = "length (filter (\<lambda>e. fst e = s) (fw_byname v))"
  have s: "s \<in> fst ` set (fw_byname v)" using f find_dup_SomeD by force
  then have n: "0 < ?n" by (auto simp: filter_empty_conv)
  have "we = map snd (filter (\<lambda>e. fst e = s) (fw_byname v)) ! (i mod ?n)" using f by (auto simp: find_dup_def Let_def split: if_splits)
  from drop_nth_zip [OF watch_okD(1,2) [OF v] _ this] n
  have "watch_list (remove_entry we v) = drop_nth (i mod ?n) s (watch_list v)" by (simp add: watch_list_def remove_entry_def)
  then show ?thesis using s watch_list_keys [OF v] length_filter_fst [OF watch_list_names [OF v], of s] by (simp add: spec_remove_def)
qed

lemma add_watch_step:
  assumes "fw_rel p xs w"
  shows "\<exists>r w'. di_file_add_watch aw p path w = Ret (r, w') \<and> fw_rel p (spec_add aw path xs) w' \<and>
    (r = Inr ()) = (\<exists>s wd. path = Some s \<and> aw (cstr s) = Some wd)"
proof -
  obtain v where v: "get_fw p w = Ret v" "watch_ok (next_addr w) v" "watch_list v = xs" using assms by (auto simp: fw_rel_def)
  show ?thesis
  proof (cases "\<exists>s wd. path = Some s \<and> aw (cstr s) = Some wd")
    case True
    then obtain s wd where s: "path = Some s" "aw (cstr s) = Some wd" by blast
    obtain w' where "put_payload p (PFileWatch (add_entry s (int wd) (next_addr w) v)) (w\<lparr>next_addr := Suc (next_addr w)\<rparr>) = Ret w'"
      "get_fw p w' = Ret (add_entry s (int wd) (next_addr w) v)" "next_addr w' = Suc (next_addr w)"
      using put_fw [OF v(1)] by blast
    with s v watch_ok_add [OF v(2)] watch_list_add [OF v(2)] show ?thesis
      by (simp add: di_file_add_watch_def fw_rel_def spec_add_def)
  next
    case False
    with assms show ?thesis by (auto simp: di_file_add_watch_def spec_add_def split: option.splits)
  qed
qed

lemma add_watches_step:
  "fw_rel p xs w \<Longrightarrow> \<exists>r w'. add_watches aw p paths w = Ret (r, w') \<and> fw_rel p (spec_add_many aw paths xs) w'"
proof (induction paths arbitrary: aw xs w)
  case (Cons s ss)
  obtain r w1 where r: "di_file_add_watch (aw 0) p s w = Ret (r, w1)" "fw_rel p (spec_add (aw 0) s xs) w1"
    "(r = Inr ()) = (\<exists>t wd. s = Some t \<and> aw 0 (cstr t) = Some wd)"
    using add_watch_step [OF Cons.prems] by blast
  show ?case
  proof (cases "r = Inr ()")
    case True
    with r Cons.IH [OF r(2)] show ?thesis by simp
  next
    case False
    then have "spec_add (aw 0) s xs = xs" using r(3) by (auto simp: spec_add_def split: option.splits)
    with r False show ?thesis by auto
  qed
qed simp

lemma path_elems_VString [simp]: "path_elems (map VString paths) = Ret paths"
  by (induction paths) simp_all

lemma rm_watch_step:
  assumes "fw_rel p xs w"
  shows "\<exists>r w'. di_file_rm_watch i p path w = Ret (r, w') \<and> fw_rel p (spec_file (Remove i path) xs) w'"
proof -
  obtain v where v: "get_fw p w = Ret v" "watch_ok (next_addr w) v" "watch_list v = xs" using assms by (auto simp: fw_rel_def)
  show ?thesis
  proof (cases path)
    case (Some s)
    show ?thesis
    proof (cases "find_dup i s (fw_byname v)")
      case None
      then have "spec_remove i s xs = xs" using watch_list_keys [OF v(2)] v(3) by (simp add: find_dup_None_iff spec_remove_def)
      with None Some v assms show ?thesis by (simp add: di_file_rm_watch_def)
    next
      case (Some we)
      obtain w' where "put_payload p (PFileWatch (remove_entry we v)) w = Ret w'" "get_fw p w' = Ret (remove_entry we v)" "next_addr w' = next_addr w"
        using put_fw [OF v(1), of "remove_entry we v" "next_addr w"] by auto
      with Some \<open>path = Some s\<close> v watch_ok_remove [OF v(2)] watch_list_remove [OF v(2) Some] show ?thesis
        by (simp add: di_file_rm_watch_def fw_rel_def)
    qed
  qed (use assms in \<open>simp add: di_file_rm_watch_def\<close>)
qed

lemma add_many_step:
  assumes "fw_rel p xs w"
  shows "\<exists>r w'. di_file_add_many_watch aw p DI_TYPE_STRING (map VString paths) w = Ret (r, w') \<and> fw_rel p (spec_add_many aw paths xs) w'"
  using add_watches_step [OF assms] assms by (cases paths) (auto simp: di_file_add_many_watch_def simp del: add_watches.simps spec_add_many.simps(2))

lemma file_step:
  assumes "fw_rel p xs w"
  shows "\<exists>w'. file_run p op w = Ret w' \<and> fw_rel p (spec_file op xs) w'"
proof (cases op)
  case (Add_one aw path)
  with add_watch_step [OF assms, of aw path] show ?thesis by auto
next
  case (Add_many aw paths)
  with add_many_step [OF assms, of aw paths] show ?thesis by auto
next
  case (Remove i path)
  with rm_watch_step [OF assms, of i path] show ?thesis by auto
qed

interpretation file_watch: step_refinement spec_file "file_run p" "\<lambda>_ _. True" "fw_rel p"
  by unfold_locales (rule file_step)

lemma always_enabled: "all_enabled f (\<lambda>_ _. True) ops a"
  by (induction ops arbitrary: a) simp_all

text \<open>
  C28. A watcher behaves as the list of its watches.  Whatever sequence of \<open>add\<close>, \<open>add_one\<close> and \<open>remove\<close> is
  called, whatever the kernel answers to each request, every call returns, the tables by name and by descriptor
  stay in step, and they hold exactly the watches of the list, in order: adding appends the watches the
  kernel accepts, up to the first it refuses; removing drops one watch of that name, if there is one.  When a
  name is watched several times, it is any of these watches that goes, as the hash table has it.
\<close>

theorem file_watch_refines_list:
  assumes "fw_rel p xs w"
  shows "\<exists>w'. fold_res (file_run p) ops w = Ret w' \<and> fw_rel p (fold spec_file ops xs) w'"
  using file_watch.run [OF assms always_enabled] .

definition fw_object :: di_object_internal where
  "fw_object = empty_object\<lparr>payload := PFileWatch \<lparr>fw_fd = 4, fw_entries = Map.empty, fw_byname = [], fw_bywd = []\<rparr>\<rparr>"

definition fw_world :: world where
  "fw_world = \<lparr>heap = [1 \<mapsto> fw_object], sigs = Map.empty, next_addr = 2, all_objects = [1], log_lines = []\<rparr>"

lemma fw_world_rel: "fw_rel 1 [] fw_world"
  unfolding fw_rel_def get_fw_Ret
  by (intro exI [where x = "\<lparr>fw_fd = 4, fw_entries = Map.empty, fw_byname = [], fw_bywd = []\<rparr>"])
    (simp add: watch_ok_empty watch_list_def fw_world_def fw_object_def)

theorem file_watch_refines_list_witness:
  "\<exists>w'. fold_res (file_run 1)
      [Add_many (\<lambda>i s. if s = ''/x'' then None else Some (length s)) [Some ''/a'', Some ''/bc'', Some ''/x'', Some ''/d''],
       Add_one (\<lambda>_. Some 9) (Some ''/a''), Remove 0 (Some ''/a'')] fw_world = Ret w' \<and>
    fw_rel 1 [(''/bc'', 3), (''/a'', 9)] w'"
  using file_watch_refines_list [OF fw_world_rel, of
      "[Add_many (\<lambda>i s. if s = ''/x'' then None else Some (length s)) [Some ''/a'', Some ''/bc'', Some ''/x'', Some ''/d''],
        Add_one (\<lambda>_. Some 9) (Some ''/a''), Remove 0 (Some ''/a'')]"]
  by (simp add: spec_add_def spec_remove_def cstr_def del: fold_res.simps file_run.simps)

section \<open>Delivering events\<close>

text \<open>
  \<open>serving I U C p v\<close>: while \<open>I\<close> holds the watcher is \<open>v\<close>, and emissions of its signals return and keep \<open>I\<close>.
\<close>

definition serving :: "(world \<Rightarrow> bool) \<Rightarrow> drop_fn \<Rightarrow> call_obj \<Rightarrow> oref \<Rightarrow> di_file_watch \<Rightarrow> bool" where
  "serving I U C p v \<longleftrightarrow>
     (\<forall>w. I w \<longrightarrow> get_fw p w = Ret v \<and> (\<forall>s fname ev b. \<exists>r w'. di_emitn U C p s (signal_args fname ev b) w = Ret (r, w') \<and> I w'))"

definition emit_pair :: "drop_fn \<Rightarrow> call_obj \<Rightarrow> oref \<Rightarrow> string \<times> di_value list \<Rightarrow> world \<Rightarrow> world res" where
  "emit_pair U C p s w = bind_res (di_emitn U C p (fst s) (snd s) w) (\<lambda>(_, w1). Ret w1)"

text \<open>
  The documented signals of an event: their names with the masks of the kernel's interface.  A signal has the
  name of the watch and the name in the event as its arguments, and those of a move also the cookie.
\<close>

definition signal_masks :: "(string \<times> 32 word) list" where
  "signal_masks =
     [(''create'', 0x100), (''access'', 0x1), (''attrib'', 0x4), (''close-write'', 0x8), (''close-nowrite'', 0x10),
      (''delete'', 0x200), (''delete-self'', 0x400), (''modify'', 0x2), (''move-self'', 0x800), (''open'', 0x20),
      (''moved-from'', 0x40), (''moved-to'', 0x80)]"

definition expected_signals :: "string \<Rightarrow> inotify_event \<Rightarrow> (string \<times> di_value list) list" where
  "expected_signals fname ev =
     map (\<lambda>s. (fst s, VLiteral fname # VLiteral (cstr (ev_name ev)) #
         (if fst s \<in> {''moved-from'', ''moved-to''} then [VNuint (ev_cookie ev)] else [])))
       (filter (\<lambda>s. ev_mask ev AND snd s \<noteq> 0) signal_masks)"

lemma mask_bits:
  fixes w :: "32 word"
  shows "w AND 0x100 = 0 \<longleftrightarrow> \<not> bit w 8" "w AND 0x1 = 0 \<longleftrightarrow> \<not> bit w 0" "w AND 0x4 = 0 \<longleftrightarrow> \<not> bit w 2" "w AND 0x8 = 0 \<longleftrightarrow> \<not> bit w 3"
    "w AND 0x10 = 0 \<longleftrightarrow> \<not> bit w 4" "w AND 0x200 = 0 \<longleftrightarrow> \<not> bit w 9" "w AND 0x400 = 0 \<longleftrightarrow> \<not> bit w 10" "w AND 0x2 = 0 \<longleftrightarrow> \<not> bit w 1"
    "w AND 0x800 = 0 \<longleftrightarrow> \<not> bit w 11" "w AND 0x20 = 0 \<longleftrightarrow> \<not> bit w 5" "w AND 0x40 = 0 \<longleftrightarrow> \<not> bit w 6" "w AND 0x80 = 0 \<longleftrightarrow> \<not> bit w 7"
  using and_exp_eq_0_iff_not_bit [of w 8] and_exp_eq_0_iff_not_bit [of w 0] and_exp_eq_0_iff_not_bit [of w 2] and_exp_eq_0_iff_not_bit [of w 3]
    and_exp_eq_0_iff_not_bit [of w 4] and_exp_eq_0_iff_not_bit [of w 9] and_exp_eq_0_iff_not_bit [of w 10] and_exp_eq_0_iff_not_bit [of w 1]
    and_exp_eq_0_iff_not_bit [of w 11] and_exp_eq_0_iff_not_bit [of w 5] and_exp_eq_0_iff_not_bit [of w 6] and_exp_eq_0_iff_not_bit [of w 7]
  by simp_all

lemmas inotify_bits = IN_ACCESS_def IN_MODIFY_def IN_ATTRIB_def IN_CLOSE_WRITE_def IN_CLOSE_NOWRITE_def IN_OPEN_def
  IN_MOVED_FROM_def IN_MOVED_TO_def IN_CREATE_def IN_DELETE_def IN_DELETE_SELF_def IN_MOVE_SELF_def

lemma signals_of_expected: "map (\<lambda>s. (fst s, signal_args fname ev (snd s))) (signals_of ev) = expected_signals fname ev"
  unfolding expected_signals_def signals_of_def signal_masks_def event_signals_def
  by (simp add: mask_bits inotify_bits signal_args_def)

lemma emit_event_eq:
  assumes "serving I U C p v" "I w" "fw_entries v a = Some e"
  shows "emit_event U C p a ev s w = emit_pair U C p (fst s, signal_args (we_fname e) ev (snd s)) w"
    and "\<exists>w'. emit_pair U C p (fst s, signal_args (we_fname e) ev (snd s)) w = Ret w' \<and> I w'"
proof -
  show "emit_event U C p a ev s w = emit_pair U C p (fst s, signal_args (we_fname e) ev (snd s)) w"
    using assms by (simp add: serving_def emit_event_def emit_pair_def)
  obtain r w' where "di_emitn U C p (fst s) (signal_args (we_fname e) ev (snd s)) w = Ret (r, w')" "I w'"
    using assms unfolding serving_def by blast
  then show "\<exists>w'. emit_pair U C p (fst s, signal_args (we_fname e) ev (snd s)) w = Ret w' \<and> I w'" by (simp add: emit_pair_def)
qed

lemma fold_emit_event:
  assumes "serving I U C p v" "fw_entries v a = Some e"
  shows "I w \<Longrightarrow> \<exists>w'. fold_res (emit_event U C p a ev) ss w = Ret w' \<and>
    fold_res (emit_pair U C p) (map (\<lambda>s. (fst s, signal_args (we_fname e) ev (snd s))) ss) w = Ret w' \<and> I w'"
proof (induction ss arbitrary: w)
  case (Cons s ss)
  obtain w1 where w1: "emit_pair U C p (fst s, signal_args (we_fname e) ev (snd s)) w = Ret w1" "I w1"
    using emit_event_eq(2) [OF assms(1) Cons.prems assms(2)] by blast
  with Cons.IH [OF w1(2)] emit_event_eq(1) [OF assms(1) Cons.prems assms(2), of ev s] show ?case by auto
qed simp

text \<open>A descriptor that is found is that of a watch in the list, and the entry has its name.\<close>

lemma found_watch:
  assumes v: "watch_ok a v" and f: "find_dup i wd (fw_bywd v) = Some x"
  shows "\<exists>e s. fw_entries v x = Some e \<and> (s, wd) \<in> set (watch_list v) \<and> we_fname e = cstr s"
proof -
  let ?ns = "fw_byname v" and ?ds = "fw_bywd v"
  obtain j where j: "j < length ?ds" "?ds ! j = (wd, x)" using find_dup_SomeD [OF f] by (auto simp: in_set_conv_nth)
  have len: "length ?ns = length ?ds" using map_eq_imp_length_eq [OF watch_okD(1) [OF v]] .
  have "snd (?ns ! j) = snd (?ds ! j)" using watch_okD(1) [OF v] j(1) len by (metis nth_map)
  then obtain s where s: "?ns ! j = (s, x)" using j(2) by (metis prod.collapse snd_conv)
  then have "(s, x) \<in> set ?ns" using j(1) len by (metis nth_mem)
  from watch_okD(7) [OF v this] obtain e where "fw_entries v x = Some e" "we_fname e = cstr s" by auto
  moreover have "watch_list v ! j = (s, wd)" "j < length (watch_list v)" using j s len by (simp_all add: watch_list_def)
  then have "(s, wd) \<in> set (watch_list v)" by (metis nth_mem)
  ultimately show ?thesis by blast
qed

definition named_after :: "(string \<times> int) list \<Rightarrow> string \<Rightarrow> inotify_event \<Rightarrow> bool" where
  "named_after xs fname ev \<longleftrightarrow> (\<exists>s. (s, ev_wd ev) \<in> set xs \<and> fname = cstr s)"

lemma loop_emits:
  assumes s: "serving I U C p v" and v: "watch_ok a v"
  shows "I w \<Longrightarrow> length evs \<le> n \<Longrightarrow> \<forall>ev \<in> set evs. ev_wd ev \<in> snd ` set (watch_list v) \<Longrightarrow>
    \<exists>names w'. list_all2 (named_after (watch_list v)) names evs \<and> file_ioev_loop which n U C p evs w = Ret w' \<and>
      fold_res (emit_pair U C p) (concat (map2 expected_signals names evs)) w = Ret w' \<and> I w'"
proof (induction evs arbitrary: w n)
  case (Cons ev evs)
  obtain m where m: "n = Suc m" "length evs \<le> m" using Cons.prems(2) by (cases n) auto
  have "ev_wd ev \<in> fst ` set (fw_bywd v)" using Cons.prems(3) watch_list_values [OF v] by (metis list.set_intros(1) list.set_map)
  then obtain x where x: "find_dup (which m) (ev_wd ev) (fw_bywd v) = Some x" by (metis find_dup_None_iff not_None_eq)
  from found_watch [OF v x] obtain e nm where e: "fw_entries v x = Some e" "(nm, ev_wd ev) \<in> set (watch_list v)" "we_fname e = cstr nm" by blast
  obtain w1 where w1: "fold_res (emit_event U C p x ev) (signals_of ev) w = Ret w1"
    "fold_res (emit_pair U C p) (expected_signals (cstr nm) ev) w = Ret w1" "I w1"
    using fold_emit_event [OF s e(1) Cons.prems(1), of ev "signals_of ev"] by (auto simp: signals_of_expected e(3))
  obtain names w' where IH: "list_all2 (named_after (watch_list v)) names evs" "file_ioev_loop which m U C p evs w1 = Ret w'"
    "fold_res (emit_pair U C p) (concat (map2 expected_signals names evs)) w1 = Ret w'" "I w'"
    using Cons.IH [OF w1(3) m(2)] Cons.prems(3) by auto
  have "get_fw p w = Ret v" using s Cons.prems(1) by (simp add: serving_def)
  then have "file_ioev_loop which n U C p (ev # evs) w = Ret w'" using m(1) x w1(1) IH(2) by simp
  moreover have "fold_res (emit_pair U C p) (concat (map2 expected_signals (cstr nm # names) (ev # evs))) w = Ret w'"
    using w1(2) IH(3) by (simp add: fold_res_append)
  moreover have "list_all2 (named_after (watch_list v)) (cstr nm # names) (ev # evs)" using e(2) IH(1) by (auto simp: named_after_def)
  ultimately show ?case using IH(4) by blast
qed simp

lemma loop_stuck:
  assumes "get_fw p w = Ret v" "ev_wd ev \<notin> fst ` set (fw_bywd v)"
  shows "file_ioev_loop which n U C p (ev # evs) w = Fault OutOfFuel"
proof (induction n)
  case (Suc n)
  have "find_dup (which n) (ev_wd ev) (fw_bywd v) = None" using assms(2) by (simp add: find_dup_None_iff)
  with Suc assms(1) show ?case by simp
qed simp

text \<open>
  C29. Events of known watches are delivered: the loop over what was read comes to its end, after as many
  rounds as there are events, and has emitted for every event, in order, the documented signals of its mask with
  the name of a watch that has the descriptor of the event, the name in the event and, for moves, the
  cookie.  The reference the handler takes to the watcher is dropped at the end.  The listeners may do what they
  want as long as they return and leave the table of watches as it is: \<open>I\<close> is any invariant of theirs that says so.
\<close>

theorem file_ioev_delivers:
  assumes "di_upgrade_weak_ref p w = Ret (Some p, w1)" "serving I U C p v" "I w1" "watch_ok a v"
    and "\<forall>ev \<in> set evs. ev_wd ev \<in> snd ` set (watch_list v)" "length evs \<le> n"
  shows "\<exists>names w2. list_all2 (named_after (watch_list v)) names evs \<and>
    fold_res (emit_pair U C p) (concat (map2 expected_signals names evs)) w1 = Ret w2 \<and> I w2 \<and>
    di_file_ioev which n U C evs p w = U p w2"
  using loop_emits [OF assms(2,4,3,6,5), of which] assms(1) by (auto simp: di_file_ioev_def)

text \<open>
  A watcher at 5 with one watch and a listener to \<open>moved-from\<close>, whose handler at 2 writes a line to the log; 3 is the
  listen handle and 4 the signal struct.
\<close>

definition watching :: di_file_watch where
  "watching = \<lparr>fw_fd = 4, fw_entries = [8 \<mapsto> \<lparr>we_fname = ''/a'', we_wd = 2\<rparr>], fw_byname = [(''/a'', 8)], fw_bywd = [(2, 8)]\<rparr>"

definition watching_object :: di_object_internal where
  "watching_object = empty_object\<lparr>payload := PFileWatch watching, signals := [(''moved-from'', 4)], weak_ref_count := 3\<rparr>"

definition watching_world :: world where
  "watching_world = \<lparr>heap =
      [5 \<mapsto> watching_object, 2 \<mapsto> empty_object\<lparr>call := Some (Call_ext 0)\<rparr>,
       3 \<mapsto> empty_object\<lparr>members := [(''__handler'', \<lparr>m_addr = 7, m_val = VObject 2\<rparr>)], weak_ref_count := 2,
              dtor := Some Dtor_listen_handle, payload := PListenHandle (Some 4)\<rparr>],
     sigs = [4 \<mapsto> \<lparr>sig_name = ''moved-from'', nlisteners = 1, owner = 5, listeners = [3]\<rparr>],
     next_addr = 9, all_objects = [5, 3, 2], log_lines = []\<rparr>"

lemma watching_heap:
  "heap watching_world 5 = Some watching_object" "heap watching_world 2 = Some (empty_object\<lparr>call := Some (Call_ext 0)\<rparr>)"
  "heap watching_world 3 = Some (empty_object\<lparr>members := [(''__handler'', \<lparr>m_addr = 7, m_val = VObject 2\<rparr>)], weak_ref_count := 2,
     dtor := Some Dtor_listen_handle, payload := PListenHandle (Some 4)\<rparr>)"
  "sigs watching_world 4 = Some \<lparr>sig_name = ''moved-from'', nlisteners = 1, owner = 5, listeners = [3]\<rparr>"
  by (simp_all add: watching_world_def)

lemma watching_ok: "watch_ok 9 watching" "watch_list watching = [(''/a'', 2)]"
  by (simp_all add: watching_def watch_ok_def watch_list_def cstr_def)

definition moved_event :: inotify_event where
  "moved_event = \<lparr>ev_wd = 2, ev_mask = 64, ev_cookie = 5, ev_name = ''f''\<rparr>"

abbreviation busy_watch :: "string list \<Rightarrow> world" where
  "busy_watch ls \<equiv> bump (one_at 5) (\<lambda>_. 0) (with_log ls watching_world)"

lemma watching_emit:
  assumes "length args \<le> MAX_NARGS"
  shows "di_emitn (di_unref_object logging_ext 1) (obj_call logging_ext 1) 5 s args (busy_watch ls) =
     Ret (Inr (), busy_watch ((if s = ''moved-from'' then [''called''] else []) @ ls))"
proof (cases "s = ''moved-from''")
  case True
  let ?w = "busy_watch ls"
  have "listening ?w 2 3" by (simp add: listening_def member_map_def watching_heap empty_object_def)
  moreover have "has_room (\<lambda>a. one_at 3 a + one_at 2 a) (one_at 3) ?w"
    by (auto simp: has_room_def heap_bump watching_heap bump_object_def empty_object_def split: if_splits)
  ultimately show ?thesis
    using True assms emit_logged [of ?w 5 "bump_object 1 0 watching_object" s 4 "''moved-from''" 5 3 args 2 "bump_object 0 0 (empty_object\<lparr>call := Some (Call_ext 0)\<rparr>)"]
    by (simp add: heap_bump watching_heap watching_object_def bump_with_log bump_object_def empty_object_def del: di_unref_object.simps obj_call.simps)
next
  case False
  then show ?thesis
    using assms emit_unheard [of "busy_watch ls" 5 "bump_object 1 0 watching_object" s args]
    by (simp add: heap_bump watching_heap watching_object_def bump_object_def empty_object_def)
qed

lemma watching_serving: "serving (\<lambda>w. \<exists>ls. w = busy_watch ls) (di_unref_object logging_ext 1) (obj_call logging_ext 1) 5 watching"
proof -
  have "get_fw 5 (busy_watch ls) = Ret watching" for ls by (simp add: get_fw_Ret heap_bump watching_heap watching_object_def)
  moreover have "length (signal_args fname ev b) \<le> MAX_NARGS" for fname ev b by (simp add: signal_args_def MAX_NARGS_def)
  note watching_emit [OF this]
  ultimately show ?thesis unfolding serving_def by blast
qed

theorem file_ioev_delivers_witness:
  "di_file_ioev (\<lambda>_. 0) 1 (di_unref_object logging_ext 1) (obj_call logging_ext 1) [moved_event] 5 watching_world =
     Ret (with_log [''called''] watching_world)"
proof -
  let ?U = "di_unref_object logging_ext 1" and ?C = "obj_call logging_ext 1"
  have u: "di_upgrade_weak_ref 5 watching_world = Ret (Some 5, busy_watch [])"
    by (simp add: di_upgrade_weak_ref_def get_obj_def watching_heap di_ref_object_bump) (simp add: watching_object_def empty_object_def)
  have k: "\<forall>ev \<in> set [moved_event]. ev_wd ev \<in> snd ` set (watch_list watching)" by (simp add: watching_ok moved_event_def)
  obtain names w2 where w2: "list_all2 (named_after [(''/a'', 2)]) names [moved_event]"
    "fold_res (emit_pair ?U ?C 5) (concat (map2 expected_signals names [moved_event])) (busy_watch []) = Ret w2"
    "di_file_ioev (\<lambda>_. 0) 1 ?U ?C [moved_event] 5 watching_world = ?U 5 w2"
    using file_ioev_delivers [OF u watching_serving exI [of _ "[]", OF refl] watching_ok(1) k, of 1 "\<lambda>_. 0"] unfolding watching_ok(2) by auto
  have n: "names = [''/a'']" using w2(1) by (auto simp: list_all2_Cons2 named_after_def moved_event_def cstr_def)
  have "expected_signals ''/a'' moved_event = [(''moved-from'', [VLiteral ''/a'', VLiteral ''f'', VNuint 5])]"
    by (simp add: expected_signals_def signal_masks_def moved_event_def cstr_def)
  then have "w2 = busy_watch [''called'']"
    using w2(2) watching_emit [of "[VLiteral ''/a'', VLiteral ''f'', VNuint 5]" "''moved-from''" "[]"]
    by (simp add: n emit_pair_def MAX_NARGS_def del: di_unref_object.simps obj_call.simps)
  moreover have "has_room (one_at 5) (\<lambda>_. 0) (with_log [''called''] watching_world)"
    by (auto simp: has_room_def watching_heap watching_object_def empty_object_def split: if_splits)
  ultimately show ?thesis using w2(3) unref_bump' [of 5 "with_log [''called''] watching_world" logging_ext 0] by (simp del: di_unref_object.simps)
qed

lemma upgrade_fw:
  assumes "get_fw p w = Ret v" "heap w p = Some x" "ref_count x \<noteq> 0"
  shows "\<exists>w1. di_upgrade_weak_ref p w = Ret (Some p, w1) \<and> get_fw p w1 = Ret v"
  using assms by (auto simp: di_upgrade_weak_ref_def get_obj_def di_ref_object_def get_fw_Ret put_obj_def word_gt_0)

lemma drop_nth_values:
  "distinct (map snd xs) \<Longrightarrow> i < length (filter (\<lambda>x. fst x = k) xs) \<Longrightarrow> map snd (filter (\<lambda>x. fst x = k) xs) ! i \<notin> snd ` set (drop_nth i k xs)"
proof (induction xs arbitrary: i)
  case (Cons x xs)
  have here: "map snd (filter (\<lambda>x. fst x = k) xs) ! j \<noteq> snd x" if "j < length (filter (\<lambda>x. fst x = k) xs)" for j
  proof -
    have "map snd (filter (\<lambda>x. fst x = k) xs) ! j \<in> set (map snd (filter (\<lambda>x. fst x = k) xs))" by (rule nth_mem) (simp add: that)
    then have "map snd (filter (\<lambda>x. fst x = k) xs) ! j \<in> snd ` set xs" by auto
    moreover have "snd x \<notin> snd ` set xs" using Cons.prems(1) by simp
    ultimately show ?thesis by metis
  qed
  show ?case
  proof (cases "fst x = k")
    case True
    show ?thesis
    proof (cases i)
      case 0
      then show ?thesis using True Cons.prems(1) by auto
    next
      case (Suc j)
      then have "j < length (filter (\<lambda>x. fst x = k) xs)" using True Cons.prems(2) by simp
      then show ?thesis using True Suc Cons.IH [of j] Cons.prems(1) here [of j] by simp
    qed
  next
    case False
    then show ?thesis using Cons.IH [of i] Cons.prems here [of i] by simp
  qed
qed simp

lemma spec_remove_values:
  assumes "distinct (map snd xs)" "find_dup i k xs = Some d"
  shows "d \<notin> snd ` set (spec_remove i k xs)"
proof -
  let ?n = "length (filter (\<lambda>x. fst x = k) xs)"
  have k: "k \<in> fst ` set xs" using find_dup_SomeD [OF assms(2)] by force
  then have "filter (\<lambda>x. fst x = k) xs \<noteq> []" by (auto simp: filter_empty_conv)
  then have n: "i mod ?n < ?n" by simp
  have "d = map snd (filter (\<lambda>x. fst x = k) xs) ! (i mod ?n)" using assms(2) by (auto simp: find_dup_def Let_def split: if_splits)
  with drop_nth_values [OF assms(1) n] k show ?thesis by (simp add: spec_remove_def)
qed

text \<open>
  C30. After \<open>remove\<close> the watcher cannot take the next event.  Removing a watch makes the kernel queue one
  last event for its descriptor, which the table no longer has; the loop then looks at that event again
  and again.  Whatever the fuel, \<open>di_file_ioev\<close> does not return.
\<close>

theorem file_remove_hangs:
  assumes "fw_rel p xs w" "heap w p = Some x" "ref_count x \<noteq> 0"
    and "find_dup i s xs = Some wd" "distinct (map snd xs)" "ev_wd ev = wd"
  shows "\<exists>w'. di_file_rm_watch i p (Some s) w = Ret (Inr (), w') \<and> (\<forall>which n U C. di_file_ioev which n U C (ev # evs) p w' = Fault OutOfFuel)"
proof -
  obtain v where v: "get_fw p w = Ret v" "watch_ok (next_addr w) v" "watch_list v = xs" using assms(1) by (auto simp: fw_rel_def)
  have "s \<in> fst ` set (fw_byname v)" using find_dup_SomeD [OF assms(4)] watch_list_keys [OF v(2)] v(3) by force
  then obtain we where we: "find_dup i s (fw_byname v) = Some we" by (metis find_dup_None_iff not_None_eq)
  let ?v = "remove_entry we v" and ?w = "put_obj p (x\<lparr>payload := PFileWatch (remove_entry we v)\<rparr>) w"
  have "wd \<notin> snd ` set (watch_list ?v)"
    using spec_remove_values [OF assms(5,4)] watch_list_remove [OF v(2) we] v(3) by simp
  then have n: "ev_wd ev \<notin> fst ` set (fw_bywd ?v)"
    using watch_list_values [OF watch_ok_remove [OF v(2), of we]] assms(6) by (metis list.set_map)
  obtain w1 where "di_upgrade_weak_ref p ?w = Ret (Some p, w1)" "get_fw p w1 = Ret ?v"
    using upgrade_fw [of p ?w ?v] assms(3) by (auto simp: get_fw_Ret put_obj_def)
  then have "di_file_ioev which n U C (ev # evs) p ?w = Fault OutOfFuel" for which n U C
    using loop_stuck [OF _ n] by (simp add: di_file_ioev_def)
  moreover have "di_file_rm_watch i p (Some s) w = Ret (Inr (), ?w)"
    using v we assms(2) by (simp add: di_file_rm_watch_def put_payload_Ret)
  ultimately show ?thesis by blast
qed

theorem file_remove_hangs_witness:
  "\<exists>w'. di_file_rm_watch 0 5 (Some ''/a'') watching_world = Ret (Inr (), w') \<and>
     (\<forall>which n U C. di_file_ioev which n U C [moved_event\<lparr>ev_mask := 32768\<rparr>] 5 w' = Fault OutOfFuel)"
proof -
  have "fw_rel 5 [(''/a'', 2)] watching_world"
    unfolding fw_rel_def get_fw_Ret
    by (intro exI [where x = watching]) (simp add: watching_ok watching_heap watching_object_def, simp add: watching_world_def watching_ok)
  then show ?thesis
    using file_remove_hangs [of 5 "[(''/a'', 2)]" watching_world watching_object 0 "''/a''" 2 "moved_event\<lparr>ev_mask := 32768\<rparr>" "[]"]
    by (simp add: watching_heap watching_object_def empty_object_def moved_event_def find_dup_def)
qed

end
