(* ===== verification/TypedReads.thy ===== *)
theory TypedReads
  imports Property Examples
begin

text \<open>
  Typed reads: what \<open>di_rawgetxt\<close> and \<open>di_getxt\<close> hand out has the type the caller asked for, whatever the
  getters of the object return.
\<close>

lemma integer_conversion_type:
  "integer_conversion v t = Ret (Inr u) \<Longrightarrow> di_typeof u = t"
  by (auto simp: integer_conversion_def convert_switch_def convert_case_def
      split: if_splits di_value.splits di_type.splits option.splits)

lemma type_conversion_type:
  "di_type_conversion v t b w = Ret (Inr u, cl, w') \<Longrightarrow> di_typeof u = t"
proof (induction v t b w rule: di_type_conversion.induct)
  case (1 v t b w)
  show ?case
  proof (cases "di_typeof v = t \<or> t = DI_TYPE_VARIANT \<or> t = DI_TYPE_NIL")
    case True
    then show ?thesis using "1.prems" by (auto simp: di_type_conversion.simps [of v] split: if_splits di_value.splits)
  next
    case False
    then show ?thesis using "1.prems" [unfolded di_type_conversion.simps [of v]] "1.IH"
      by (cases v) (auto split: if_splits dest!: integer_conversion_type)
  qed
qed

lemma gen_tfunc_type:
  assumes "gen_tfunc U getter p prop t w = Ret (Inr v, w')"
  shows "di_typeof v = t"
proof -
  obtain r w1 where r: "getter p prop w = Ret (r, w1)" using assms by (auto simp: gen_tfunc_def)
  show ?thesis
  proof (cases r)
    case (Inr x)
    with assms r obtain cl w2 where "di_type_conversion x t False w1 = Ret (Inr v, cl, w2)"
      by (auto simp: gen_tfunc_def split: if_splits)
    then show ?thesis by (rule type_conversion_type)
  qed (use assms r in \<open>simp add: gen_tfunc_def\<close>)
qed

text \<open>
  C35. A typed read is type safe.  When \<open>di_rawgetxt\<close> or \<open>di_getxt\<close> succeeds the value has the requested
  type: the C caller reads it through a pointer of that type without looking at its tag.  This holds for
  every getter and every content of the heap, and through any nesting of variants.
\<close>

theorem typed_read_type:
  shows "(di_rawgetxt U p name t w = Ret (Inr v, w') \<longrightarrow> di_typeof v = t) \<and>
    (di_getxt U C p name t w = Ret (Inr v, w') \<longrightarrow> di_typeof v = t)"
  using gen_tfunc_type by (auto simp: di_rawgetxt_def di_getxt_def)

theorem typed_read_type_witness:
  "di_rawgetxt (di_unref_object plain_ext 5) 1 (Some ''child'') DI_TYPE_OBJECT parent_child =
     Ret (Inr (VObject 2), bump (one_at 2) (\<lambda>_. 0) parent_child) \<and> di_typeof (VObject 2) = DI_TYPE_OBJECT"
proof -
  have "di_rawgetxt (di_unref_object plain_ext 5) 1 (Some ''child'') DI_TYPE_OBJECT parent_child =
      Ret (Inr (VObject 2), bump (one_at 2) (\<lambda>_. 0) parent_child)"
    using di_ref_object_bump [of parent_child 2 empty_object]
    by (simp add: di_rawgetxt_def gen_tfunc_def di_rawgetx_def di_lookup_def get_obj_def parent_child_heap di_type_conversion.simps
        del: di_unref_object.simps)
  with typed_read_type show ?thesis by blast
qed

end
