(* ===== verification/XorgKey.thy ===== *)
theory XorgKey
  imports Macros Log StringBuf Signals
begin

text \<open>
  Key bindings of the X11 plugin, \<open>plugins/xorg/key.c\<close>.

  The X server and the keyboard libraries are seen through what they answer, the fields of \<open>xserver\<close>:
  the symbol of a key name and back, the keycodes of a symbol (none when no key has it), whether a grab
  is granted, the modifier mapping, atoms, and the numbers of the C functions.
\<close>

record modifier_mapping =
  mm_keycodes_per_modifier :: nat
  mm_length :: nat
  mm_keycodes :: "8 word list"

record xserver =
  xs_fn :: "string \<Rightarrow> nat"
  xs_prep_cif :: "di_type \<Rightarrow> di_type list \<Rightarrow> bool"
  xs_log_level :: int
  xs_hex :: "8 word \<Rightarrow> string"
  xs_keysym_from_name :: "string \<Rightarrow> 32 word"
  xs_keysym_name :: "32 word \<Rightarrow> string option"
  xs_keycodes :: "32 word \<Rightarrow> 8 word list option"
  xs_grab_granted :: "8 word \<Rightarrow> 16 word \<Rightarrow> bool"
  xs_modifier_mapping :: "modifier_mapping option"
  xs_intern_atom :: "string \<Rightarrow> 32 word option"
  xs_atom_name :: "32 word \<Rightarrow> string option"

section \<open>The structs\<close>

definition get_xc :: "oref \<Rightarrow> world \<Rightarrow> di_xorg_connection res" where
  "get_xc p w = bind_res (get_obj p w) (\<lambda>x. case payload x of PXorgConnection v \<Rightarrow> Ret v | _ \<Rightarrow> Fault Type_Confusion)"

definition get_ext :: "oref \<Rightarrow> world \<Rightarrow> di_xorg_ext res" where
  "get_ext p w = bind_res (get_obj p w) (\<lambda>x. case payload x of PXorgExt v \<Rightarrow> Ret v | _ \<Rightarrow> Fault Type_Confusion)"

definition get_kb :: "oref \<Rightarrow> world \<Rightarrow> keybinding res" where
  "get_kb p w = bind_res (get_obj p w) (\<lambda>x. case payload x of PKeybinding v \<Rightarrow> Ret v | _ \<Rightarrow> Fault Type_Confusion)"

definition get_bindings :: "oref \<Rightarrow> world \<Rightarrow> oref list res" where
  "get_bindings k w = bind_res (get_ext k w) (\<lambda>e. case xe_kind e of Key bs \<Rightarrow> Ret bs | _ \<Rightarrow> Fault Type_Confusion)"

definition set_bindings :: "oref \<Rightarrow> oref list \<Rightarrow> world \<Rightarrow> world res" where
  "set_bindings k bs w = bind_res (get_ext k w) (\<lambda>e. put_payload k (PXorgExt (e\<lparr>xe_kind := Key bs\<rparr>)) w)"

text \<open>Requests on a connection that was closed go through a null pointer.\<close>

definition xcb_send :: "oref \<Rightarrow> xreq list \<Rightarrow> world \<Rightarrow> world res" where
  "xcb_send dc rs w =
     bind_res (get_xc dc w) (\<lambda>v.
       if \<not> xc_c v then Fault Null_Deref else put_payload dc (PXorgConnection (v\<lparr>xc_reqs := xc_reqs v @ rs\<rparr>)) w)"

text \<open>
  \<open>di_mgetmi(dc->x, log)\<close> and a line for the log module.  Where the code does not ask whether there is a log
  module (\<open>guarded\<close> is false) a missing one is a null pointer.
\<close>

definition xorg_log_at :: "int \<Rightarrow> bool \<Rightarrow> xserver \<Rightarrow> drop_fn \<Rightarrow> call_obj \<Rightarrow> oref \<Rightarrow> string res option \<Rightarrow> world \<Rightarrow> world res" where
  "xorg_log_at lvl guarded X U C dc text w =
     bind_res (get_xc dc w) (\<lambda>v.
       case xc_x v of
         None \<Rightarrow> Fault Null_Deref
       | Some m \<Rightarrow>
          bind_res (di_mgetm U C m ''log'' w) (\<lambda>(r, w1).
            case r of
              None \<Rightarrow> if guarded \<or> text = None then Ret w1 else Fault Null_Deref
            | Some logm \<Rightarrow>
               (case text of
                  None \<Rightarrow> U logm w1
                | Some tr \<Rightarrow> bind_res tr (\<lambda>t. U logm (snd (di_log_va (xs_log_level X) lvl t w1))))))"

definition xorg_log :: "xserver \<Rightarrow> drop_fn \<Rightarrow> call_obj \<Rightarrow> oref \<Rightarrow> string res option \<Rightarrow> world \<Rightarrow> world res" where
  "xorg_log = xorg_log_at 0 True"

section \<open>Modifiers\<close>

definition modifier_names :: "string list" where
  "modifier_names = [''shift'', ''lock'', ''control'', ''mod1'', ''mod2'', ''mod3'', ''mod4'', ''mod5'']"

fun find_modifier :: "string \<Rightarrow> 16 word \<Rightarrow> string list \<Rightarrow> 16 word option" where
  "find_modifier s m [] = None"
| "find_modifier s m (n # ns) = (if strncasecmp_eq s n then Some m else find_modifier s (m * 2) ns)"

text \<open>\<open>name_to_mod\<close>; zero is \<open>XCB_NO_SYMBOL\<close> and 32768 \<open>XCB_BUTTON_MASK_ANY\<close>.\<close>

definition name_to_mod :: "string \<Rightarrow> 16 word" where
  "name_to_mod keyname =
     (case find_modifier keyname 1 modifier_names of
        Some m \<Rightarrow> m
      | None \<Rightarrow> if strncasecmp_eq keyname ''ctrl'' then 4
                 else if strncasecmp_eq keyname ''any'' then 32768 else 0)"

fun modifiers_of :: "di_string list \<Rightarrow> 16 word option" where
  "modifiers_of [] = Some 0"
| "modifiers_of (s # ss) =
     (let tmp = name_to_mod (di_string_bytes s) in
      if tmp = 0 then None else map_option (\<lambda>m. or tmp m) (modifiers_of ss))"

fun push_modifiers :: "16 word \<Rightarrow> nat \<Rightarrow> string list \<Rightarrow> bool \<times> string_buf \<Rightarrow> bool \<times> string_buf" where
  "push_modifiers mods i [] s = s"
| "push_modifiers mods i (n # ns) (first, buf) =
     push_modifiers mods (Suc i) ns
       (if bit mods i then (False, string_buf_push n (if first then buf else string_buf_push ''+'' buf)) else (first, buf))"

definition describe_keybinding :: "xserver \<Rightarrow> keybinding \<Rightarrow> string res" where
  "describe_keybinding X b =
     (let keyname = (case xs_keysym_name X (kb_keysym b) of None \<Rightarrow> ''(invalid)'' | Some s \<Rightarrow> s);
          (first, buf) = push_modifiers (kb_modifiers b) 0 modifier_names (True, string_buf_new)
      in bind_res (string_buf_dump (string_buf_push keyname (if first then buf else string_buf_push ''+'' buf))) (\<lambda>(s, _). Ret s))"

section \<open>Grabs\<close>

definition ungrab :: "keybinding \<Rightarrow> world \<Rightarrow> world res" where
  "ungrab b w =
     (case kb_k b of
        None \<Rightarrow> Fault Null_Deref
      | Some k \<Rightarrow>
         bind_res (get_ext k w) (\<lambda>e.
           case xe_dc e of
             None \<Rightarrow> Ret w
           | Some dc \<Rightarrow>
              (case kb_keycodes b of
                 None \<Rightarrow> Fault Null_Deref
               | Some kcs \<Rightarrow> xcb_send dc (map (\<lambda>kc. Ungrab_key kc (kb_modifiers b)) kcs) w)))"

text \<open>The destructor of a binding; the array of keycodes is freed and the pointer to it dangles.\<close>

definition binding_dtor :: "drop_fn \<Rightarrow> oref \<Rightarrow> world \<Rightarrow> world res" where
  "binding_dtor U kb w =
     bind_res (get_kb kb w) (\<lambda>b.
       bind_res (ungrab b w) (\<lambda>w1.
         case kb_k b of
           None \<Rightarrow> Fault Null_Deref
         | Some k \<Rightarrow>
            bind_res (get_bindings k w1) (\<lambda>bs.
              if kb \<notin> set bs then Fault (Use_After_Free kb)
              else bind_res (set_bindings k (remove1 kb bs) w1) (\<lambda>w2.
                bind_res (U k w2) (put_payload kb (PKeybinding (b\<lparr>kb_keycodes := None, kb_k := None\<rparr>)))))))"

fun grab_keys :: "xserver \<Rightarrow> drop_fn \<Rightarrow> call_obj \<Rightarrow> oref \<Rightarrow> keybinding \<Rightarrow> 8 word list \<Rightarrow> world \<Rightarrow> world res" where
  "grab_keys X U C dc b [] w = Ret w"
| "grab_keys X U C dc b (kc # kcs) w =
     bind_res (xcb_send dc [Grab_key kc (kb_modifiers b)] w) (\<lambda>w1.
       bind_res (if xs_grab_granted X kc (kb_modifiers b) then Ret w1
                 else xorg_log X U C dc (Some (bind_res (describe_keybinding X b) (\<lambda>d.
                   Ret (''Cannot grab '' @ xs_hex X kc @ '', for keybinding '' @ d)))) w1) (\<lambda>w2.
         grab_keys X U C dc b kcs w2))"

text \<open>\<open>refresh_binding\<close>; the result says whether it returned 0.\<close>

definition refresh_binding :: "xserver \<Rightarrow> drop_fn \<Rightarrow> call_obj \<Rightarrow> oref \<Rightarrow> world \<Rightarrow> (bool \<times> world) res" where
  "refresh_binding X U C kb w =
     bind_res (get_kb kb w) (\<lambda>b.
       bind_res (if kb_keycodes b = None then Ret w else ungrab b w) (\<lambda>w1.
         case xs_keycodes X (kb_keysym b) of
           None \<Rightarrow> bind_res (put_payload kb (PKeybinding (b\<lparr>kb_keycodes := None\<rparr>)) w1) (\<lambda>w2. Ret (False, w2))
         | Some kcs \<Rightarrow>
            bind_res (put_payload kb (PKeybinding (b\<lparr>kb_keycodes := Some kcs\<rparr>)) w1) (\<lambda>w2.
              case kb_k b of
                None \<Rightarrow> Fault Null_Deref
              | Some k \<Rightarrow>
                 bind_res (get_ext k w2) (\<lambda>e.
                   case xe_dc e of
                     None \<Rightarrow> Fault Null_Deref
                   | Some dc \<Rightarrow> bind_res (grab_keys X U C dc b kcs w2) (\<lambda>w3. Ret (True, w3))))))"

definition bind_object :: "xserver \<Rightarrow> oref \<Rightarrow> 32 word \<Rightarrow> 16 word \<Rightarrow> bool \<Rightarrow> world \<Rightarrow> (oref \<times> world) res" where
  "bind_object X k ks mods replay w =
     (let (kb, w1) = alloc_object w in
      bind_res (put_payload kb (PKeybinding \<lparr>kb_keysym = ks, kb_keycodes = None, kb_modifiers = mods, kb_k = Some k, kb_replay = replay\<rparr>) w1) (\<lambda>w2.
        bind_res (di_set_object_dtor kb (Some (Dtor_ext (xs_fn X ''binding_dtor''))) w2) (\<lambda>w3.
          bind_res (di_ref_object k w3) (\<lambda>w4.
            bind_res (get_bindings k w4) (\<lambda>bs.
              bind_res (set_bindings k (kb # bs) w4) (\<lambda>w5. Ret (kb, w5)))))))"

definition new_binding ::
  "xserver \<Rightarrow> drop_fn \<Rightarrow> call_obj \<Rightarrow> oref \<Rightarrow> di_type \<Rightarrow> di_string list \<Rightarrow> di_string \<Rightarrow> bool \<Rightarrow> world \<Rightarrow> (oref \<times> world) res" where
  "new_binding X U C k elem_type modifiers key replay w =
     bind_res (get_ext k w) (\<lambda>e.
       let ks = xs_keysym_from_name X (cstr (di_string_bytes key)) in
       if xe_dc e = None then di_new_error U ''Connection died'' w
       else if ks = 0 then di_new_error U ''Invalid key name'' w
       else if modifiers \<noteq> [] \<and> elem_type \<noteq> DI_TYPE_STRING then di_new_error U ''Invalid modifiers'' w
       else case modifiers_of modifiers of
           None \<Rightarrow> di_new_error U ''Invalid modifiers'' w
         | Some mods \<Rightarrow>
            bind_res (bind_object X k ks mods replay w) (\<lambda>(kb, w1).
              bind_res (refresh_binding X U C kb w1) (\<lambda>(ok, w2).
                if ok then Ret (kb, w2)
                else bind_res (U kb w2) (di_new_error U ''Failed to setup key grab''))))"

text \<open>\<open>free_key\<close>; \<open>fin\<close> is \<open>di_finalize_object\<close>.  The loop holds the binding after the one it finalizes.\<close>

function free_bindings :: "(oref \<Rightarrow> world \<Rightarrow> world res) \<Rightarrow> oref \<Rightarrow> oref list \<Rightarrow> world \<Rightarrow> world res" where
  "free_bindings fin k [] w = Ret w"
| "free_bindings fin k (kb # kbs) w =
     bind_res (fin kb w) (\<lambda>w1.
       bind_res (get_bindings k w1) (\<lambda>bs.
         if kbs \<noteq> [] \<and> hd kbs \<notin> set bs then Fault (Use_After_Free (hd kbs))
         else free_bindings fin k (filter (\<lambda>b. b \<in> set bs) kbs) w1))"
  by pat_completeness auto
termination
  by (relation "measure (\<lambda>(_, _, kbs, _). length kbs)") (auto simp: le_imp_less_Suc)

definition free_key :: "(oref \<Rightarrow> world \<Rightarrow> world res) \<Rightarrow> oref \<Rightarrow> world \<Rightarrow> world res" where
  "free_key fin k w = bind_res (get_bindings k w) (\<lambda>bs. free_bindings fin k bs w)"

section \<open>Events\<close>

text \<open>
  \<open>mod_from_keycode\<close>: the loop runs over \<open>length\<close> keycodes, the field of the reply that counts its size in
  units of four bytes.
\<close>

fun keycode_mods :: "nat \<Rightarrow> nat \<Rightarrow> 8 word \<Rightarrow> 8 word list \<Rightarrow> 16 word" where
  "keycode_mods per i kc [] = 0"
| "keycode_mods per i kc (x # xs) =
     or (if x \<noteq> 0 \<and> x = kc then push_bit (i div per) 1 else 0) (keycode_mods per (Suc i) kc xs)"

definition mod_from_keycode :: "xserver \<Rightarrow> 8 word \<Rightarrow> 16 word" where
  "mod_from_keycode X kc =
     (case xs_modifier_mapping X of
        None \<Rightarrow> 0
      | Some r \<Rightarrow>
         if mm_keycodes_per_modifier r = 0 then 0
         else keycode_mods (mm_keycodes_per_modifier r) 0 kc (take (mm_length r) (mm_keycodes r)))"

datatype key_event =
    Key_press "8 word" "16 word"
  | Key_release "8 word" "16 word"
  | Mapping_notify bool bool
  | Other_event

text \<open>
  A new mapping: every binding looks up its keycodes again.  A binding whose key is gone is finalized,
  which takes it from the list, and the loop then goes on from it.
\<close>

fun refresh_all :: "xserver \<Rightarrow> drop_fn \<Rightarrow> call_obj \<Rightarrow> (oref \<Rightarrow> world \<Rightarrow> world res) \<Rightarrow> oref list \<Rightarrow> world \<Rightarrow> world res" where
  "refresh_all X U C fin [] w = Ret w"
| "refresh_all X U C fin (kb # kbs) w =
     bind_res (refresh_binding X U C kb w) (\<lambda>(ok, w1).
       if ok then refresh_all X U C fin kbs w1 else bind_res (fin kb w1) (\<lambda>_. Fault (Use_After_Free kb)))"

text \<open>
  The loop over the bindings for a key event.  The caller has taken a reference to each; a binding with
  other modifiers is skipped before the reference is given back.
\<close>

function key_loop ::
  "drop_fn \<Rightarrow> call_obj \<Rightarrow> oref \<Rightarrow> string \<Rightarrow> 8 word \<Rightarrow> 16 word \<Rightarrow> oref list \<Rightarrow> bool \<Rightarrow> world \<Rightarrow> (bool \<times> world) res" where
  "key_loop U C k event kc mods [] replay w = Ret (replay, w)"
| "key_loop U C k event kc mods (kb # kbs) replay w =
     bind_res (get_kb kb w) (\<lambda>b.
       if kb_modifiers b \<noteq> mods then key_loop U C k event kc mods kbs replay w
       else (case kb_keycodes b of
           None \<Rightarrow> Fault Null_Deref
         | Some kcs \<Rightarrow>
            bind_res (if kc \<in> set kcs then bind_res (di_emitn U C kb event [] w) (\<lambda>(_, w1). Ret w1) else Ret w) (\<lambda>w1.
              bind_res (U kb w1) (\<lambda>w2.
                bind_res (get_bindings k w2) (\<lambda>bs.
                  if kbs \<noteq> [] \<and> hd kbs \<notin> set bs then Fault (Use_After_Free (hd kbs))
                  else key_loop U C k event kc mods (filter (\<lambda>b. b \<in> set bs) kbs)
                    (if kc \<in> set kcs then kb_replay b else replay) w2)))))"
  by pat_completeness auto
termination
  by (relation "measure (\<lambda>(_, _, _, _, _, _, kbs, _, _). length kbs)") (auto simp: le_imp_less_Suc)

definition key_event_loop :: "drop_fn \<Rightarrow> call_obj \<Rightarrow> oref \<Rightarrow> string \<Rightarrow> 8 word \<Rightarrow> 16 word \<Rightarrow> world \<Rightarrow> world res" where
  "key_event_loop U C k event kc mods w =
     bind_res (get_bindings k w) (\<lambda>bs.
       bind_res (fold_res di_ref_object bs w) (\<lambda>w1.
         bind_res (key_loop U C k event kc mods bs True w1) (\<lambda>(replay, w2).
           bind_res (get_ext k w2) (\<lambda>e.
             case xe_dc e of
               None \<Rightarrow> Fault Null_Deref
             | Some dc \<Rightarrow> xcb_send dc [if replay then Allow_replay else Allow_sync] w2))))"

text \<open>\<open>handle_key\<close>; the result is the status, 1 to go on with the next extension.\<close>

definition handle_key ::
  "xserver \<Rightarrow> drop_fn \<Rightarrow> call_obj \<Rightarrow> (oref \<Rightarrow> world \<Rightarrow> world res) \<Rightarrow> oref \<Rightarrow> key_event \<Rightarrow> world \<Rightarrow> (int \<times> world) res" where
  "handle_key X U C fin k ev w =
     (case ev of
        Key_press kc state \<Rightarrow> bind_res (key_event_loop U C k ''pressed'' kc state w) (\<lambda>w1. Ret (0, w1))
      | Key_release kc state \<Rightarrow>
          bind_res (key_event_loop U C k ''released'' kc (and state (not (mod_from_keycode X kc))) w) (\<lambda>w1. Ret (0, w1))
      | Mapping_notify pointer refreshed \<Rightarrow>
          if pointer \<or> \<not> refreshed then Ret (1, w)
          else bind_res (get_bindings k w) (\<lambda>bs. bind_res (refresh_all X U C fin bs w) (\<lambda>w1. Ret (1, w1)))
      | Other_event \<Rightarrow> Ret (1, w))"

text \<open>\<open>di_new_object_with_type2\<close>: a new object with its type.\<close>

definition typed_object :: "drop_fn \<Rightarrow> string \<Rightarrow> payload \<Rightarrow> world \<Rightarrow> (oref \<times> world) res" where
  "typed_object U ty pl w =
     (let (p, w1) = alloc_object w in
      bind_res (di_set_type U p ty w1) (\<lambda>(_, w2). bind_res (put_payload p pl w2) (\<lambda>w3. Ret (p, w3))))"

definition new_key :: "xserver \<Rightarrow> drop_fn \<Rightarrow> oref \<Rightarrow> world \<Rightarrow> (oref \<times> world) res" where
  "new_key X U dc w =
     bind_res (typed_object U ''deai.plugin.xorg:Key''
         (PXorgExt \<lparr>xe_dc = Some dc, xe_extname = ''key'', xe_opcode = 0, xe_kind = Key []\<rparr>) w) (\<lambda>(k, w1).
       bind_res (add_methods (xs_prep_cif X) U k
           [(''new'', xs_fn X ''new_binding'', DI_TYPE_OBJECT, [DI_TYPE_ARRAY, DI_TYPE_STRING, DI_TYPE_BOOL])] w1) (\<lambda>w2. Ret (k, w2)))"

end
