(* ===== verification/XorgAtoms.thy ===== *)
theory XorgAtoms
  imports XorgKey
begin

text \<open>
  Atoms and the resource database of an X11 connection (\<open>plugins/xorg/xorg.c\<close>).  The two hash tables of
  atoms hold the same entries, here one list with the latest first.
\<close>

definition add_atom :: "oref \<Rightarrow> di_atom_entry \<Rightarrow> world \<Rightarrow> world res" where
  "add_atom xc a w = bind_res (get_xc xc w) (\<lambda>v. put_payload xc (PXorgConnection (v\<lparr>xc_atoms := a # xc_atoms v\<rparr>)) w)"

definition di_xorg_get_atom_name :: "xserver \<Rightarrow> oref \<Rightarrow> 32 word \<Rightarrow> world \<Rightarrow> (string option \<times> world) res" where
  "di_xorg_get_atom_name X xc atom w =
     bind_res (get_xc xc w) (\<lambda>v.
       case find (\<lambda>a. ae_atom a = atom) (xc_atoms v) of
         Some a \<Rightarrow> Ret (Some (ae_name a), w)
       | None \<Rightarrow>
          if \<not> xc_c v then Fault Null_Deref
          else (case xs_atom_name X atom of
              None \<Rightarrow> Ret (None, w)
            | Some s \<Rightarrow> bind_res (add_atom xc \<lparr>ae_name = s, ae_atom = atom\<rparr> w) (\<lambda>w1. Ret (Some s, w1))))"

text \<open>
  \<open>di_xorg_intern_atom\<close>: the atom and the error.  Without a log module the function returns before the
  error is set, which is \<open>None\<close>.
\<close>

definition di_xorg_intern_atom :: "xserver \<Rightarrow> drop_fn \<Rightarrow> call_obj \<Rightarrow> oref \<Rightarrow> di_string \<Rightarrow> world \<Rightarrow> ((32 word \<times> bool option) \<times> world) res" where
  "di_xorg_intern_atom X U C xc name w =
     bind_res (get_xc xc w) (\<lambda>v.
       case xc_x v of
         None \<Rightarrow> Fault Null_Deref
       | Some m \<Rightarrow>
          bind_res (di_mgetm U C m ''log'' w) (\<lambda>(lg, w1).
            case lg of
              None \<Rightarrow> Ret ((0, None), w1)
            | Some logm \<Rightarrow>
               bind_res (get_xc xc w1) (\<lambda>v1.
                 case find (\<lambda>a. ae_name a = di_string_bytes name) (xc_atoms v1) of
                   Some a \<Rightarrow> bind_res (U logm w1) (\<lambda>w2. Ret ((ae_atom a, Some False), w2))
                 | None \<Rightarrow>
                    if \<not> xc_c v1 then Fault Null_Deref
                    else (case xs_intern_atom X (di_string_bytes name) of
                        None \<Rightarrow> bind_res (U logm (snd (di_log_va (xs_log_level X) 0 ''Cannot intern atom'' w1))) (\<lambda>w2. Ret ((0, Some True), w2))
                      | Some atom \<Rightarrow>
                         bind_res (add_atom xc \<lparr>ae_name = di_string_bytes name, ae_atom = atom\<rparr> w1) (\<lambda>w2.
                           bind_res (U logm w2) (\<lambda>w3. Ret ((atom, Some False), w3)))))))"

text \<open>
  \<open>di_xorg_get_resource\<close>: \<open>reply n\<close> is what the server has of the property when \<open>n\<close> units are asked for,
  with the number of bytes left.
\<close>

definition di_xorg_get_resource :: "(nat \<Rightarrow> (string \<times> nat) option) \<Rightarrow> oref \<Rightarrow> world \<Rightarrow> di_string res" where
  "di_xorg_get_resource reply xc w =
     bind_res (get_xc xc w) (\<lambda>v.
       if \<not> xc_c v then Fault Null_Deref
       else case reply 0 of
           None \<Rightarrow> Ret DI_STRING_INIT
         | Some (_, real_size) \<Rightarrow>
            (case reply real_size of None \<Rightarrow> Ret DI_STRING_INIT | Some (s, _) \<Rightarrow> Ret (Some s)))"

definition di_xorg_set_resource :: "oref \<Rightarrow> di_string \<Rightarrow> world \<Rightarrow> world res" where
  "di_xorg_set_resource xc rdb w = xcb_send xc [Change_resource (di_string_bytes rdb)] w"

definition add_fields :: "drop_fn \<Rightarrow> oref \<Rightarrow> (string \<times> di_type \<times> nat) list \<Rightarrow> world \<Rightarrow> world res" where
  "add_fields U p = fold_res (\<lambda>(name, t, ofs) w. bind_res (di_field U p name t ofs w) (\<lambda>(_, w1). Ret w1))"

text \<open>An object with fields at the offsets 0, 1, 2 and so on.\<close>

definition fields_object :: "drop_fn \<Rightarrow> string \<Rightarrow> (string \<times> di_value) list \<Rightarrow> world \<Rightarrow> (oref \<times> world) res" where
  "fields_object U ty fs w =
     bind_res (typed_object U ty (PFields (zip [0..<length fs] (map snd fs))) w) (\<lambda>(p, w1).
       bind_res (add_fields U p (zip (map fst fs) (zip (map (di_typeof \<circ> snd) fs) [0..<length fs])) w1) (\<lambda>w2. Ret (p, w2)))"

definition get_screen :: "64 word \<Rightarrow> 64 word \<Rightarrow> drop_fn \<Rightarrow> oref \<Rightarrow> world \<Rightarrow> (oref \<times> world) res" where
  "get_screen width height U dc w =
     bind_res (get_xc dc w) (\<lambda>v.
       if \<not> xc_c v then Fault Null_Deref
       else fields_object U ''deai.plugin.xorg:Screen'' [(''height'', VUint height), (''width'', VUint width)] w)"

end
