(* ===== verification/XorgRandr.thy ===== *)
theory XorgRandr
  imports XorgAtoms
begin

text \<open>
  The RandR extension of the X11 plugin, \<open>plugins/xorg/randr.c\<close>: outputs, views (the CRTCs of the server)
  and modes.  The replies of the server are arguments; \<open>None\<close> is a failed request.
\<close>

record output_info =
  oi_status :: nat
  oi_crtc :: "32 word"
  oi_connection :: "8 word"
  oi_mm_width :: "32 word"
  oi_mm_height :: "32 word"
  oi_subpixel :: "8 word"
  oi_name :: string

record crtc_info =
  ci_status :: nat
  ci_x :: "16 word"
  ci_y :: "16 word"
  ci_width :: "16 word"
  ci_height :: "16 word"
  ci_rotation :: "16 word"
  ci_outputs :: "32 word list"

record mode_info =
  mi_id :: "32 word"
  mi_width :: "16 word"
  mi_height :: "16 word"

definition get_output :: "oref \<Rightarrow> world \<Rightarrow> (oref \<times> 32 word) res" where
  "get_output p w = bind_res (get_obj p w) (\<lambda>x. case payload x of PXorgOutput rr oid \<Rightarrow> Ret (rr, oid) | _ \<Rightarrow> Fault Type_Confusion)"

definition get_view :: "oref \<Rightarrow> world \<Rightarrow> (oref \<times> 32 word) res" where
  "get_view p w = bind_res (get_obj p w) (\<lambda>x. case payload x of PXorgView rr cid \<Rightarrow> Ret (rr, cid) | _ \<Rightarrow> Fault Type_Confusion)"

text \<open>The connection of the extension, and a request on it.\<close>

definition rr_connection :: "oref \<Rightarrow> world \<Rightarrow> oref option res" where
  "rr_connection rr w =
     bind_res (get_ext rr w) (\<lambda>e.
       case xe_dc e of
         None \<Rightarrow> Ret None
       | Some dc \<Rightarrow> bind_res (get_xc dc w) (\<lambda>v. if xc_c v then Ret (Some dc) else Fault Null_Deref))"

section \<open>Outputs\<close>

definition get_output_info :: "output_info option \<Rightarrow> xserver \<Rightarrow> drop_fn \<Rightarrow> oref \<Rightarrow> world \<Rightarrow> (oref \<times> world) res" where
  "get_output_info reply X U p w =
     bind_res (get_output p w) (\<lambda>(rr, oid).
       bind_res (rr_connection rr w) (\<lambda>dc.
         if dc = None then Ret (alloc_object w)
         else case reply of
             None \<Rightarrow> Ret (alloc_object w)
           | Some r \<Rightarrow>
              if oi_status r \<noteq> 0 then Ret (alloc_object w)
              else bind_res (fields_object U ''deai.plugin.xorg.randr:OutputInfo''
                  [(''connection'', VNint (ucast (oi_connection r))), (''mm_width'', VNuint (oi_mm_width r)),
                   (''mm_height'', VNuint (oi_mm_height r)), (''name'', VLiteral (cstr (oi_name r))),
                   (''subpixel_order'', VNint (ucast (oi_subpixel r)))] w) (\<lambda>(o', w1).
                bind_res (di_set_object_dtor o' (Some (Dtor_ext (xs_fn X ''free_output_info''))) w1) (\<lambda>w2. Ret (o', w2)))))"

definition add_rr_object :: "xserver \<Rightarrow> drop_fn \<Rightarrow> string \<Rightarrow> payload \<Rightarrow> string \<Rightarrow> (string \<times> nat \<times> di_type \<times> di_type list) list \<Rightarrow> oref \<Rightarrow> world \<Rightarrow> (oref \<times> world) res" where
  "add_rr_object X U ty pl dtor_name ms rr w =
     bind_res (get_ext rr w) (\<lambda>e. assert_res (xe_dc e \<noteq> None) ''rr->dc''
       (bind_res (typed_object U ty pl w) (\<lambda>(p, w1).
          bind_res (add_methods (xs_prep_cif X) U p ms w1) (\<lambda>w2.
            bind_res (di_set_object_dtor p (Some (Dtor_ext (xs_fn X dtor_name))) w2) (\<lambda>w3.
              bind_res (di_ref_object rr w3) (\<lambda>w4. Ret (p, w4)))))))"

definition make_object_for_output :: "xserver \<Rightarrow> drop_fn \<Rightarrow> oref \<Rightarrow> 32 word \<Rightarrow> world \<Rightarrow> (oref \<times> world) res" where
  "make_object_for_output X U rr oid w =
     add_rr_object X U ''deai.plugin.xorg:randr_output'' (PXorgOutput rr oid) ''output_dtor''
       [(''__get_view'', xs_fn X ''get_output_view'', DI_TYPE_OBJECT, []),
        (''__get_info'', xs_fn X ''get_output_info'', DI_TYPE_OBJECT, []),
        (''__get_backlight'', xs_fn X ''get_output_backlight'', DI_TYPE_NINT, []),
        (''__set_backlight'', xs_fn X ''set_output_backlight'', DI_TYPE_NIL, [DI_TYPE_NINT]),
        (''__get_max_backlight'', xs_fn X ''get_output_max_backlight'', DI_TYPE_NINT, [])] rr w"

definition make_object_for_view :: "xserver \<Rightarrow> drop_fn \<Rightarrow> oref \<Rightarrow> 32 word \<Rightarrow> world \<Rightarrow> (oref \<times> world) res" where
  "make_object_for_view X U rr cid w =
     add_rr_object X U ''deai.plugin.xorg.randr:View'' (PXorgView rr cid) ''view_dtor''
       [(''__get_outputs'', xs_fn X ''get_view_outputs'', DI_TYPE_ARRAY, []),
        (''__get_config'', xs_fn X ''get_view_config'', DI_TYPE_OBJECT, []),
        (''__set_config'', xs_fn X ''set_view_config'', DI_TYPE_NIL, [DI_TYPE_OBJECT])] rr w"

definition output_dtor :: "drop_fn \<Rightarrow> oref \<Rightarrow> world \<Rightarrow> world res" where
  "output_dtor U p w = bind_res (get_output p w) (\<lambda>(rr, _). U rr w)"

definition view_dtor :: "drop_fn \<Rightarrow> oref \<Rightarrow> world \<Rightarrow> world res" where
  "view_dtor U p w = bind_res (get_view p w) (\<lambda>(rr, _). U rr w)"

definition get_output_view :: "output_info option \<Rightarrow> xserver \<Rightarrow> drop_fn \<Rightarrow> oref \<Rightarrow> world \<Rightarrow> (oref \<times> world) res" where
  "get_output_view reply X U p w =
     bind_res (get_output p w) (\<lambda>(rr, oid).
       bind_res (rr_connection rr w) (\<lambda>dc.
         if dc = None then Ret (alloc_object w)
         else case reply of
             None \<Rightarrow> Ret (alloc_object w)
           | Some r \<Rightarrow> if oi_status r \<noteq> 0 \<or> oi_crtc r = 0 then Ret (alloc_object w) else make_object_for_view X U rr (oi_crtc r) w))"

text \<open>
  The three functions on the backlight share the lookup of its atom.  The result is \<open>None\<close> when the
  connection is gone, and an error that was not set is read.
\<close>

definition backlight_atom :: "xserver \<Rightarrow> drop_fn \<Rightarrow> call_obj \<Rightarrow> oref \<Rightarrow> world \<Rightarrow> ((oref \<times> 32 word \<times> bool) option \<times> world) res" where
  "backlight_atom X U C rr w =
     bind_res (rr_connection rr w) (\<lambda>dc.
       case dc of
         None \<Rightarrow> Ret (None, w)
       | Some d \<Rightarrow>
          bind_res (di_xorg_intern_atom X U C d (di_string_borrow ''Backlight'') w) (\<lambda>((a, e), w1).
            case e of None \<Rightarrow> Fault Uninitialised | Some b \<Rightarrow> Ret (Some (d, a, b), w1)))"

text \<open>\<open>prop\<close>: the 32-bit integer the server has for an output and an atom, when that is what it has.\<close>

definition get_output_backlight :: "(32 word \<Rightarrow> 32 word \<Rightarrow> 32 word option) \<Rightarrow> xserver \<Rightarrow> drop_fn \<Rightarrow> call_obj \<Rightarrow> oref \<Rightarrow> world \<Rightarrow> (32 word \<times> world) res" where
  "get_output_backlight prop X U C p w =
     bind_res (get_output p w) (\<lambda>(rr, oid).
       bind_res (backlight_atom X U C rr w) (\<lambda>(r, w1).
         case r of
           None \<Rightarrow> Ret (0, w1)
         | Some (d, a, failed) \<Rightarrow>
            if failed then Ret (- 1, w1) else Ret (case prop oid a of None \<Rightarrow> - 1 | Some v \<Rightarrow> v, w1)))"

definition set_output_backlight :: "bool \<Rightarrow> xserver \<Rightarrow> drop_fn \<Rightarrow> call_obj \<Rightarrow> oref \<Rightarrow> 32 word \<Rightarrow> world \<Rightarrow> world res" where
  "set_output_backlight accepted X U C p bkl w =
     bind_res (get_output p w) (\<lambda>(rr, oid).
       bind_res (backlight_atom X U C rr w) (\<lambda>(r, w1).
         case r of
           None \<Rightarrow> Ret w1
         | Some (d, a, failed) \<Rightarrow>
            if failed then Ret w1
            else bind_res (xcb_send d [Change_output_property oid a bkl] w1) (\<lambda>w2.
              if accepted then Ret w2 else xorg_log X U C d (Some (Ret ''Failed to set backlight'')) w2)))"

text \<open>\<open>valid\<close>: the valid values of the property.\<close>

definition get_output_max_backlight :: "(32 word \<Rightarrow> 32 word \<Rightarrow> 32 word list option) \<Rightarrow> xserver \<Rightarrow> drop_fn \<Rightarrow> call_obj \<Rightarrow> oref \<Rightarrow> world \<Rightarrow> (32 word \<times> world) res" where
  "get_output_max_backlight valid X U C p w =
     bind_res (get_output p w) (\<lambda>(rr, oid).
       bind_res (backlight_atom X U C rr w) (\<lambda>(r, w1).
         case r of
           None \<Rightarrow> Ret (0, w1)
         | Some (d, a, failed) \<Rightarrow>
            if failed then Ret (- 1, w1)
            else Ret (case valid oid a of Some [_, hi] \<Rightarrow> hi | _ \<Rightarrow> - 1, w1)))"

section \<open>Views\<close>

text \<open>
  Rotations and reflections: the bits of RandR against the numbers of a configuration.  The field of a
  new object is zero, so no rotation bit reads as 0.
\<close>

definition rotation_of :: "16 word \<Rightarrow> 64 word" where
  "rotation_of r = (if bit r 0 then 0 else if bit r 1 then 1 else if bit r 2 then 2 else if bit r 3 then 3 else 0)"

definition reflection_of :: "16 word \<Rightarrow> 64 word" where
  "reflection_of r = (if bit r 4 then (if bit r 5 then 3 else 1) else if bit r 5 then 2 else 0)"

definition rr_rotation :: "int \<Rightarrow> 32 word \<Rightarrow> 16 word option" where
  "rr_rotation rotation reflection =
     map_option (\<lambda>r. or (or r (if bit reflection 0 then 16 else 0)) (if bit reflection 1 then 32 else 0))
       (if rotation = 0 then Some 1 else if rotation = 1 then Some 2
        else if rotation = 2 then Some 4 else if rotation = 3 then Some 8 else None)"

definition get_view_config :: "crtc_info option \<Rightarrow> drop_fn \<Rightarrow> oref \<Rightarrow> world \<Rightarrow> (oref \<times> world) res" where
  "get_view_config reply U p w =
     bind_res (get_view p w) (\<lambda>(rr, cid).
       bind_res (rr_connection rr w) (\<lambda>dc.
         if dc = None then Ret (alloc_object w)
         else case reply of
             None \<Rightarrow> Ret (alloc_object w)
           | Some cr \<Rightarrow>
              if ci_status cr \<noteq> 0 then Ret (alloc_object w)
              else fields_object U ''deai.plugin.xorg.randr:ViewConfig''
                [(''x'', VInt (scast (ci_x cr))), (''y'', VInt (scast (ci_y cr))), (''width'', VUint (ucast (ci_width cr))),
                 (''height'', VUint (ucast (ci_height cr))), (''rotation'', VUint (rotation_of (ci_rotation cr))),
                 (''reflection'', VUint (reflection_of (ci_rotation cr)))] w))"

text \<open>
  The retry loop of \<open>set_view_config\<close>: each attempt reads the view and sets it; \<open>replies\<close> are what the server
  answers to the attempts, whether the view could be read and the status of the change.
\<close>

fun set_crtc :: "(bool \<times> nat option) list \<Rightarrow> oref \<Rightarrow> xreq \<Rightarrow> world \<Rightarrow> world res" where
  "set_crtc [] dc r w = Fault OutOfFuel"
| "set_crtc ((readable, status) # rs) dc r w =
     (if \<not> readable then Ret w
      else bind_res (xcb_send dc [r] w) (\<lambda>w1. if status = Some 2 then set_crtc rs dc r w1 else Ret w1))"

fun get_nints :: "drop_fn \<Rightarrow> call_obj \<Rightarrow> oref \<Rightarrow> (string \<times> di_type) list \<Rightarrow> world \<Rightarrow> (32 word list option \<times> world) res" where
  "get_nints U C p [] w = Ret (Some [], w)"
| "get_nints U C p ((name, t) # ns) w =
     bind_res (di_getxt U C p (Some name) t w) (\<lambda>(r, w1).
       case r of
         Inr (VNint i) \<Rightarrow> bind_res (get_nints U C p ns w1) (\<lambda>(is, w2). Ret (map_option ((#) i) is, w2))
       | Inr (VNuint i) \<Rightarrow> bind_res (get_nints U C p ns w1) (\<lambda>(is, w2). Ret (map_option ((#) i) is, w2))
       | Inr _ \<Rightarrow> Fault Type_Confusion
       | Inl _ \<Rightarrow> Ret (None, w1))"

definition set_view_config :: "(bool \<times> nat option) list \<Rightarrow> drop_fn \<Rightarrow> call_obj \<Rightarrow> oref \<Rightarrow> oref \<Rightarrow> world \<Rightarrow> world res" where
  "set_view_config replies U C p cfg w =
     bind_res (get_view p w) (\<lambda>(rr, cid).
       bind_res (rr_connection rr w) (\<lambda>dc.
         if dc = None then Ret w
         else bind_res (get_nints U C cfg [(''x'', DI_TYPE_NINT), (''y'', DI_TYPE_NINT), (''mode'', DI_TYPE_NUINT),
             (''rotation'', DI_TYPE_NINT), (''reflection'', DI_TYPE_NINT)] w) (\<lambda>(vals, w1).
           case vals of
             Some [x, y, mode, rotation, reflection] \<Rightarrow>
               if sint x < - 32768 \<or> 32767 < sint x \<or> sint y < - 32768 \<or> 32767 < sint y then Ret w1
               else (case rr_rotation (sint rotation) reflection of
                   None \<Rightarrow> Ret w1
                 | Some rot \<Rightarrow>
                    bind_res (rr_connection rr w1) (\<lambda>dc1.
                      case dc1 of
                        None \<Rightarrow> Fault Null_Deref
                      | Some d \<Rightarrow> set_crtc replies d (Set_crtc_config cid (sint x) (sint y) mode rot) w1))
           | _ \<Rightarrow> Ret w1)))"

fun make_outputs :: "xserver \<Rightarrow> drop_fn \<Rightarrow> oref \<Rightarrow> 32 word list \<Rightarrow> world \<Rightarrow> (di_value list \<times> world) res" where
  "make_outputs X U rr [] w = Ret ([], w)"
| "make_outputs X U rr (oid # oids) w =
     bind_res (make_object_for_output X U rr oid w) (\<lambda>(p, w1).
       bind_res (make_outputs X U rr oids w1) (\<lambda>(ps, w2). Ret (VObject p # ps, w2)))"

definition get_view_outputs :: "crtc_info option \<Rightarrow> xserver \<Rightarrow> drop_fn \<Rightarrow> oref \<Rightarrow> world \<Rightarrow> (di_value \<times> world) res" where
  "get_view_outputs reply X U p w =
     bind_res (get_view p w) (\<lambda>(rr, cid).
       bind_res (rr_connection rr w) (\<lambda>dc.
         if dc = None then Ret (DI_ARRAY_INIT, w)
         else case reply of
             None \<Rightarrow> Fault Null_Deref
           | Some r \<Rightarrow> bind_res (make_outputs X U rr (ci_outputs r) w) (\<lambda>(ps, w1). Ret (VArray DI_TYPE_OBJECT (Some ps), w1))))"

section \<open>The extension\<close>

record randr_event =
  re_response_type :: int
  re_subcode :: nat
  re_id :: "32 word"
  re_config_timestamp :: "32 word"

definition set_cts :: "oref \<Rightarrow> 32 word \<Rightarrow> world \<Rightarrow> world res" where
  "set_cts rr ts w =
     bind_res (get_ext rr w) (\<lambda>e.
       case xe_kind e of
         Randr evbase _ \<Rightarrow> put_payload rr (PXorgExt (e\<lparr>xe_kind := Randr evbase ts\<rparr>)) w
       | _ \<Rightarrow> Fault Type_Confusion)"

definition handle_randr_event :: "xserver \<Rightarrow> drop_fn \<Rightarrow> call_obj \<Rightarrow> oref \<Rightarrow> randr_event \<Rightarrow> world \<Rightarrow> (int \<times> world) res" where
  "handle_randr_event X U C rr ev w =
     bind_res (get_ext rr w) (\<lambda>e.
       case xe_kind e of
         Randr evbase _ \<Rightarrow>
           if re_response_type ev = evbase
           then bind_res (set_cts rr (re_config_timestamp ev) w) (\<lambda>w1. Ret (0, w1))
           else if re_response_type ev \<noteq> evbase + 1 then Ret (1, w)
           else if re_subcode ev = 1 then
             bind_res (make_object_for_output X U rr (re_id ev) w) (\<lambda>(o', w1).
               bind_res (di_emitn U C rr ''output-change'' [VObject o'] w1) (\<lambda>(_, w2).
                 bind_res (set_cts rr (re_config_timestamp ev) w2) (\<lambda>w3.
                   bind_res (U o' w3) (\<lambda>w4. Ret (0, w4)))))
           else if re_subcode ev = 0 then
             bind_res (make_object_for_view X U rr (re_id ev) w) (\<lambda>(o', w1).
               bind_res (di_emitn U C rr ''view-change'' [VObject o'] w1) (\<lambda>(_, w2).
                 bind_res (U o' w2) (\<lambda>w3. Ret (0, w3))))
           else Ret (0, w)
       | _ \<Rightarrow> Fault Type_Confusion)"

definition rr_select_input :: "bool \<Rightarrow> xserver \<Rightarrow> drop_fn \<Rightarrow> call_obj \<Rightarrow> oref \<Rightarrow> 16 word \<Rightarrow> world \<Rightarrow> world res" where
  "rr_select_input accepted X U C rr m w =
     bind_res (get_ext rr w) (\<lambda>e.
       case xe_dc e of
         None \<Rightarrow> Ret w
       | Some dc \<Rightarrow>
          bind_res (xcb_send dc [Rr_select_input m] w) (\<lambda>w1.
            xorg_log X U C dc (if accepted then None else Some (Ret ''randr select input failed'')) w1))"

definition free_randr :: "xserver \<Rightarrow> drop_fn \<Rightarrow> call_obj \<Rightarrow> oref \<Rightarrow> world \<Rightarrow> world res" where
  "free_randr X U C x w = rr_select_input True X U C x 0 w"

text \<open>The resources of the screen: its outputs, its modes and the configuration time.\<close>

record screen_resources =
  sr_outputs :: "32 word list"
  sr_modes :: "mode_info list"
  sr_config_timestamp :: "32 word"

definition rr_outputs :: "screen_resources option \<Rightarrow> xserver \<Rightarrow> drop_fn \<Rightarrow> oref \<Rightarrow> world \<Rightarrow> (di_value \<times> world) res" where
  "rr_outputs sr X U rr w =
     bind_res (rr_connection rr w) (\<lambda>dc.
       case (dc, sr) of
         (Some _, Some r) \<Rightarrow> bind_res (make_outputs X U rr (sr_outputs r) w) (\<lambda>(ps, w1). Ret (VArray DI_TYPE_OBJECT (Some ps), w1))
       | _ \<Rightarrow> Ret (DI_ARRAY_INIT, w))"

definition make_object_for_modes :: "drop_fn \<Rightarrow> mode_info \<Rightarrow> world \<Rightarrow> (oref \<times> world) res" where
  "make_object_for_modes U m w =
     fields_object U ''deai.plugin.xorg.randr:Mode''
       [(''width'', VNuint (ucast (mi_width m))), (''height'', VNuint (ucast (mi_height m))), (''id'', VNuint (mi_id m))] w"

fun make_modes :: "drop_fn \<Rightarrow> mode_info list \<Rightarrow> world \<Rightarrow> (di_value list \<times> world) res" where
  "make_modes U [] w = Ret ([], w)"
| "make_modes U (m # ms) w =
     bind_res (make_object_for_modes U m w) (\<lambda>(p, w1). bind_res (make_modes U ms w1) (\<lambda>(ps, w2). Ret (VObject p # ps, w2)))"

definition rr_modes :: "screen_resources option \<Rightarrow> drop_fn \<Rightarrow> oref \<Rightarrow> world \<Rightarrow> (di_value \<times> world) res" where
  "rr_modes sr U rr w =
     bind_res (rr_connection rr w) (\<lambda>dc.
       case (dc, sr) of
         (Some _, Some r) \<Rightarrow> bind_res (make_modes U (sr_modes r) w) (\<lambda>(ps, w1). Ret (VArray DI_TYPE_OBJECT (Some ps), w1))
       | _ \<Rightarrow> Ret (DI_ARRAY_INIT, w))"

text \<open>
  \<open>xorg_has_extension\<close> compares only as many bytes as the server's name has, so a name that is a prefix of
  the wanted one passes.
\<close>

definition xorg_has_extension :: "string list option \<Rightarrow> string \<Rightarrow> bool" where
  "xorg_has_extension names name = (case names of None \<Rightarrow> False | Some ns \<Rightarrow> (\<exists>n \<in> set ns. starts_with n name))"

text \<open>\<open>new_randr\<close>: \<open>query\<close> is the reply to the query of the extension, its opcode and first event.\<close>

definition new_randr ::
  "string list option \<Rightarrow> (8 word \<times> 8 word) option \<Rightarrow> screen_resources option \<Rightarrow> xserver \<Rightarrow> drop_fn \<Rightarrow> call_obj \<Rightarrow> oref \<Rightarrow> world \<Rightarrow>
   (oref option \<times> world) res" where
  "new_randr names query sr X U C dc w =
     (case (xorg_has_extension names ''RANDR'', query, sr) of
        (True, Some (opcode, first_event), Some r) \<Rightarrow>
          bind_res (typed_object U ''deai.plugin.xorg:RandrExt''
              (PXorgExt \<lparr>xe_dc = Some dc, xe_extname = ''randr'', xe_opcode = opcode, xe_kind = Randr (uint first_event) (sr_config_timestamp r)\<rparr>) w) (\<lambda>(rr, w1).
            bind_res (add_methods (xs_prep_cif X) U rr
                [(''__get_outputs'', xs_fn X ''rr_outputs'', DI_TYPE_ARRAY, []), (''__get_modes'', xs_fn X ''rr_modes'', DI_TYPE_ARRAY, [])] w1) (\<lambda>w2.
              bind_res (rr_select_input True X U C rr 7 w2) (\<lambda>w3. Ret (Some rr, w3))))
      | _ \<Rightarrow> Ret (None, w))"

end
