(* ===== verification/XorgInput.thy ===== *)
theory XorgInput
  imports XorgRandr
begin

text \<open>
  The XInput extension of the X11 plugin, \<open>plugins/xorg/xinput.c\<close>: which events are selected, input devices
  and their properties.
\<close>

definition XI_LASTEVENT :: int where "XI_LASTEVENT = 26"
definition XCB_INPUT_HIERARCHY :: int where "XCB_INPUT_HIERARCHY = 11"

section \<open>Selected events\<close>

text \<open>The macros \<open>set_mask\<close>, \<open>clear_mask\<close> and \<open>get_mask\<close> on the bytes of a mask.\<close>

definition set_mask :: "8 word list \<Rightarrow> nat \<Rightarrow> 8 word list" where
  "set_mask a m = a[m div 8 := or (a ! (m div 8)) (push_bit (m mod 8) 1)]"

definition clear_mask :: "8 word list \<Rightarrow> nat \<Rightarrow> 8 word list" where
  "clear_mask a m = a[m div 8 := and (a ! (m div 8)) (not (push_bit (m mod 8) 1))]"

definition get_mask :: "8 word list \<Rightarrow> nat \<Rightarrow> bool" where
  "get_mask a m \<longleftrightarrow> and (a ! (m div 8)) (push_bit (m mod 8) 1) \<noteq> 0"

definition get_xi :: "oref \<Rightarrow> world \<Rightarrow> (oref option \<times> 8 word list \<times> 32 word list) res" where
  "get_xi p w = bind_res (get_ext p w) (\<lambda>e. case xe_kind e of Xinput m c \<Rightarrow> Ret (xe_dc e, m, c) | _ \<Rightarrow> Fault Type_Confusion)"

definition put_xi :: "oref \<Rightarrow> 8 word list \<Rightarrow> 32 word list \<Rightarrow> world \<Rightarrow> world res" where
  "put_xi p m c w = bind_res (get_ext p w) (\<lambda>e. put_payload p (PXorgExt (e\<lparr>xe_kind := Xinput m c\<rparr>)) w)"

text \<open>\<open>accepted\<close> says whether the server accepts the selection; the log module is fetched in any case.\<close>

definition select_events :: "bool \<Rightarrow> xserver \<Rightarrow> drop_fn \<Rightarrow> call_obj \<Rightarrow> oref \<Rightarrow> oref \<Rightarrow> 8 word list \<Rightarrow> 32 word list \<Rightarrow> world \<Rightarrow> world res" where
  "select_events accepted X U C xi dc m c w =
     bind_res (put_xi xi m c w) (\<lambda>w1.
       bind_res (xcb_send dc [Xi_select_events m] w1) (\<lambda>w2.
         xorg_log X U C dc (if accepted then None else Some (Ret ''select events failed'')) w2))"

definition di_xorg_xi_start_listen_for_event :: "bool \<Rightarrow> xserver \<Rightarrow> drop_fn \<Rightarrow> call_obj \<Rightarrow> oref \<Rightarrow> int \<Rightarrow> world \<Rightarrow> world res" where
  "di_xorg_xi_start_listen_for_event accepted X U C xi ev w =
     bind_res (get_xi xi w) (\<lambda>(dc, m, c).
       case dc of
         None \<Rightarrow> Fault Null_Deref
       | Some d \<Rightarrow>
          if XI_LASTEVENT < ev then xorg_log X U C d (Some (Ret ''invalid xi event number'')) w
          else if ev < 0 then Fault Out_Of_Bounds
          else
            let i = nat ev; c' = c[i := c ! i + 1] in
            if 1 < c' ! i then bind_res (put_xi xi m c' w) (xorg_log X U C d None)
            else select_events accepted X U C xi d (set_mask m i) c' w)"

definition di_xorg_xi_stop_listen_for_event :: "bool \<Rightarrow> xserver \<Rightarrow> drop_fn \<Rightarrow> call_obj \<Rightarrow> oref \<Rightarrow> int \<Rightarrow> world \<Rightarrow> world res" where
  "di_xorg_xi_stop_listen_for_event accepted X U C xi ev w =
     bind_res (get_xi xi w) (\<lambda>(dc, m, c).
       case dc of
         None \<Rightarrow> Fault Null_Deref
       | Some d \<Rightarrow>
          if XI_LASTEVENT < ev then xorg_log X U C d (Some (Ret ''invalid xi event number'')) w
          else if ev < 0 then Fault Out_Of_Bounds
          else assert_res (0 < c ! nat ev) ''xi->listener_count[ev] > 0''
            (let i = nat ev; c' = c[i := c ! i - 1] in
             if 0 < c' ! i then bind_res (put_xi xi m c' w) (xorg_log X U C d None)
             else select_events accepted X U C xi d (clear_mask m i) c' w))"

definition enable_hierarchy_event :: "bool \<Rightarrow> xserver \<Rightarrow> drop_fn \<Rightarrow> call_obj \<Rightarrow> oref \<Rightarrow> world \<Rightarrow> world res" where
  "enable_hierarchy_event accepted X U C xi w = di_xorg_xi_start_listen_for_event accepted X U C xi XCB_INPUT_HIERARCHY w"

definition disable_hierarchy_event :: "bool \<Rightarrow> xserver \<Rightarrow> drop_fn \<Rightarrow> call_obj \<Rightarrow> oref \<Rightarrow> world \<Rightarrow> world res" where
  "disable_hierarchy_event accepted X U C xi w = di_xorg_xi_stop_listen_for_event accepted X U C xi XCB_INPUT_HIERARCHY w"

text \<open>\<open>di_xorg_free_xinput\<close> sends the empty mask twice.\<close>

definition di_xorg_free_xinput :: "bool \<Rightarrow> xserver \<Rightarrow> drop_fn \<Rightarrow> call_obj \<Rightarrow> oref \<Rightarrow> world \<Rightarrow> world res" where
  "di_xorg_free_xinput accepted X U C x w =
     bind_res (get_xi x w) (\<lambda>(dc, m, c).
       case dc of
         None \<Rightarrow> Ret w
       | Some d \<Rightarrow>
          bind_res (xcb_send d [Xi_select_events (replicate 4 0)] w) (\<lambda>w1.
            select_events accepted X U C x d (replicate 4 0) c w1))"

section \<open>Devices\<close>

text \<open>\<open>xi_info\<close>: what the server tells of a device; \<open>xi_type\<close> is the atom of its type in the old list of devices.\<close>

record xi_info =
  xi_deviceid :: "32 word"
  xi_name :: string
  xi_use :: nat

definition get_device :: "oref \<Rightarrow> world \<Rightarrow> (32 word \<times> oref) res" where
  "get_device p w = bind_res (get_obj p w) (\<lambda>x. case payload x of PXiDevice i xi \<Rightarrow> Ret (i, xi) | _ \<Rightarrow> Fault Type_Confusion)"

definition xcb_input_get_device_info :: "xi_info list option \<Rightarrow> 32 word \<Rightarrow> xi_info option" where
  "xcb_input_get_device_info reply deviceid =
     (case reply of None \<Rightarrow> None | Some is \<Rightarrow> find (\<lambda>i. xi_deviceid i = deviceid) is)"

text \<open>The device, if the connection is there; the query of a closed one goes through a null pointer.\<close>

definition device_info :: "xi_info list option \<Rightarrow> oref \<Rightarrow> world \<Rightarrow> xi_info option res" where
  "device_info reply p w =
     bind_res (get_device p w) (\<lambda>(i, xi).
       bind_res (rr_connection xi w) (\<lambda>dc. Ret (if dc = None then None else xcb_input_get_device_info reply i)))"

definition di_xorg_xinput_get_device_name :: "xi_info list option \<Rightarrow> oref \<Rightarrow> world \<Rightarrow> di_string res" where
  "di_xorg_xinput_get_device_name reply p w =
     bind_res (device_info reply p w) (\<lambda>r. Ret (Some (case r of None \<Rightarrow> ''unknown'' | Some i \<Rightarrow> xi_name i)))"

definition use_name :: "nat \<Rightarrow> string" where
  "use_name t = (if t = 1 then ''master pointer'' else if t = 2 then ''master keyboard'' else if t = 3 then ''pointer''
     else if t = 4 then ''keyboard'' else ''unknown'')"

definition di_xorg_xinput_get_device_use :: "xi_info list option \<Rightarrow> oref \<Rightarrow> world \<Rightarrow> string res" where
  "di_xorg_xinput_get_device_use reply p w =
     bind_res (device_info reply p w) (\<lambda>r. Ret (case r of None \<Rightarrow> ''unknown'' | Some i \<Rightarrow> use_name (xi_use i)))"

text \<open>
  \<open>di_xorg_xinput_get_device_type\<close>: \<open>devices\<close> are the ids and type atoms of the old list.  When the device is
  not in it the iterator is read past its end.
\<close>

definition di_xorg_xinput_get_device_type :: "(32 word \<times> 32 word) list option \<Rightarrow> xserver \<Rightarrow> oref \<Rightarrow> world \<Rightarrow> (di_string \<times> world) res" where
  "di_xorg_xinput_get_device_type devices X p w =
     bind_res (get_device p w) (\<lambda>(i, xi).
       bind_res (rr_connection xi w) (\<lambda>dc.
         case dc of
           None \<Rightarrow> Ret (Some ''unknown'', w)
         | Some d \<Rightarrow>
            (case devices of
               None \<Rightarrow> Fault Null_Deref
             | Some ds \<Rightarrow>
                (case map_of ds i of
                   None \<Rightarrow> Fault Out_Of_Bounds
                 | Some ty \<Rightarrow>
                    bind_res (di_xorg_get_atom_name X d ty w) (\<lambda>(nm, w1).
                      Ret (case nm of None \<Rightarrow> Some ''unknown'' | Some s \<Rightarrow> di_string_tolower (Some s), w1))))))"

definition di_xorg_xinput_get_device_id :: "oref \<Rightarrow> world \<Rightarrow> 32 word res" where
  "di_xorg_xinput_get_device_id p w = bind_res (get_device p w) (\<lambda>(i, _). Ret i)"

section \<open>Properties\<close>

text \<open>
  A property of a device as the server has it: its type, the width of its items and the items.  \<open>fl\<close> is the
  atom of floats, \<open>4\<close> that of atoms, \<open>6\<close> of cardinals, \<open>19\<close> of integers and \<open>31\<close> of strings.
\<close>

record xi_property =
  xp_type :: "32 word"
  xp_format :: nat
  xp_items :: "xi_item list"

definition XCB_ATOM_ATOM :: "32 word" where "XCB_ATOM_ATOM = 4"
definition XCB_ATOM_CARDINAL :: "32 word" where "XCB_ATOM_CARDINAL = 6"
definition XCB_ATOM_INTEGER :: "32 word" where "XCB_ATOM_INTEGER = 19"
definition XCB_ATOM_STRING :: "32 word" where "XCB_ATOM_STRING = 31"

definition is_int_type :: "32 word \<Rightarrow> bool" where
  "is_int_type t \<longleftrightarrow> t = XCB_ATOM_INTEGER \<or> t = XCB_ATOM_CARDINAL"

text \<open>Storing a 64-bit integer in an item of 8, 16 or 32 bits keeps its low bits.\<close>

definition store_bits :: "nat \<Rightarrow> 64 word \<Rightarrow> xi_item" where
  "store_bits fmt i = Bits (take_bit fmt (ucast i))"

text \<open>
  The integer the first switch of \<open>di_xorg_xinput_set_prop\<close> reads from a value.
\<close>

fun prop_int :: "di_value \<Rightarrow> 64 word option" where
  "prop_int (VInt i) = Some i"
| "prop_int (VUint i) = Some i"
| "prop_int (VNint i) = Some (scast i)"
| "prop_int (VNuint i) = Some (ucast i)"
| "prop_int _ = None"

text \<open>
  One item of \<open>di_xorg_xinput_set_prop\<close>: \<open>Inr\<close> an item, \<open>Inl True\<close> the label \<open>err\<close>, \<open>Inl False\<close> a silent return.
  \<open>cvt\<close> is the conversion to a 32-bit float.  A string literal is interned for an atom and then refused.
  A type that is none of the known ones leaves the item unset.
\<close>

definition set_item ::
  "(di_value \<Rightarrow> double) \<Rightarrow> xserver \<Rightarrow> drop_fn \<Rightarrow> call_obj \<Rightarrow> oref \<Rightarrow> 32 word \<Rightarrow> xi_property \<Rightarrow> di_value \<Rightarrow> world \<Rightarrow>
   ((bool + xi_item) \<times> world) res" where
  "set_item cvt X U C dc fl prop v w =
     (case v of
        VString s \<Rightarrow>
          if xp_type prop \<noteq> XCB_ATOM_ATOM then Ret (Inl True, w)
          else bind_res (di_xorg_intern_atom X U C dc s w) (\<lambda>((a, e), w1).
            case e of
              None \<Rightarrow> Fault Uninitialised
            | Some True \<Rightarrow> Ret (Inl False, w1)
            | Some False \<Rightarrow> Ret (Inr (Bits a), w1))
      | VLiteral s \<Rightarrow>
          if xp_type prop \<noteq> XCB_ATOM_ATOM then Ret (Inl True, w)
          else bind_res (di_xorg_intern_atom X U C dc (di_string_borrow s) w) (\<lambda>((a, e), w1).
            case e of
              None \<Rightarrow> Fault Uninitialised
            | Some failed \<Rightarrow> Ret (Inl (\<not> failed), w1))
      | VFloat d \<Rightarrow>
          if is_int_type (xp_type prop) then Ret (Inl True, w)
          else if xp_type prop = fl then Ret (Inr (Float_item (cvt v)), w)
          else if xp_type prop = XCB_ATOM_ATOM then Ret (Inl True, w) else Fault Uninitialised
      | VLast \<Rightarrow> Fault (Aborted ''Impossible types appeared in property'')
      | _ \<Rightarrow>
         (case prop_int v of
            None \<Rightarrow> Ret (Inl True, w)
          | Some i \<Rightarrow>
             if is_int_type (xp_type prop) then
               if xp_format prop \<in> {8, 16, 32} then Ret (Inr (store_bits (xp_format prop) i), w) else Fault Uninitialised
             else if xp_type prop = fl then Ret (Inr (Float_item (cvt v)), w)
             else if xp_type prop = XCB_ATOM_ATOM then Ret (Inl True, w) else Fault Uninitialised))"

fun set_items ::
  "(di_value \<Rightarrow> double) \<Rightarrow> xserver \<Rightarrow> drop_fn \<Rightarrow> call_obj \<Rightarrow> oref \<Rightarrow> 32 word \<Rightarrow> xi_property \<Rightarrow> di_value list \<Rightarrow> world \<Rightarrow>
   ((bool + xi_item list) \<times> world) res" where
  "set_items cvt X U C dc fl prop [] w = Ret (Inr [], w)"
| "set_items cvt X U C dc fl prop (v # vs) w =
     bind_res (set_item cvt X U C dc fl prop v w) (\<lambda>(r, w1).
       case r of
         Inl b \<Rightarrow> Ret (Inl b, w1)
       | Inr it \<Rightarrow> bind_res (set_items cvt X U C dc fl prop vs w1) (\<lambda>(rs, w2). Ret (map_sum id ((#) it) rs, w2)))"

text \<open>
  \<open>di_xorg_xinput_set_prop\<close>: \<open>query\<close> is the reply of the server about an atom: \<open>Some (Some _)\<close> the property it has
  under the atom, \<open>Some None\<close> that it has none, \<open>None\<close> that the request failed and the reply is a null pointer, which
  the code does not check.  \<open>accepted\<close> says whether the server takes the new items.
\<close>

definition prop_values :: "di_value \<Rightarrow> di_value list" where
  "prop_values v = (case v of VArray t (Some vs) \<Rightarrow> vs | VArray t None \<Rightarrow> [] | _ \<Rightarrow> [v])"

definition di_xorg_xinput_set_prop ::
  "bool \<Rightarrow> (di_value \<Rightarrow> double) \<Rightarrow> (32 word \<Rightarrow> xi_property option option) \<Rightarrow> xserver \<Rightarrow> drop_fn \<Rightarrow> call_obj \<Rightarrow> oref \<Rightarrow> di_string \<Rightarrow> di_value \<Rightarrow>
   world \<Rightarrow> world res" where
  "di_xorg_xinput_set_prop accepted cvt query X U C p key var w =
     bind_res (get_device p w) (\<lambda>(i, xi).
       bind_res (rr_connection xi w) (\<lambda>dc.
         case dc of
           None \<Rightarrow> Ret w
         | Some d \<Rightarrow>
            bind_res (di_xorg_intern_atom X U C d key w) (\<lambda>((a, e), w1).
              case e of
                None \<Rightarrow> Fault Uninitialised
              | Some True \<Rightarrow> Ret w1
              | Some False \<Rightarrow>
                 bind_res (di_xorg_intern_atom X U C d (di_string_borrow ''FLOAT'') w1) (\<lambda>((fl, _), w2).
                   case query a of
                     None \<Rightarrow> Fault Null_Deref
                   | Some None \<Rightarrow> xorg_log_at 3 True X U C d (Some (Ret (''setting non-existent property: '' @ di_string_bytes key))) w2
                   | Some (Some prop) \<Rightarrow>
                      if (xp_type prop = fl \<or> xp_type prop = XCB_ATOM_ATOM) \<and> xp_format prop \<noteq> 32 then
                        xorg_log_at 0 False X U C d (Some (Ret ''Xorg return invalid format for float/atom type'')) w2
                      else bind_res (set_items cvt X U C d fl prop (prop_values var) w2) (\<lambda>(r, w3).
                        case r of
                          Inr its \<Rightarrow>
                            bind_res (xcb_send d [Xi_change_property i a (xp_type prop) (xp_format prop) its] w3) (\<lambda>w4.
                              xorg_log_at 0 False X U C d (if accepted then None else Some (Ret (''Failed to set property '' @ di_string_bytes key))) w4)
                        | Inl reported \<Rightarrow>
                            xorg_log_at 0 False X U C d (if reported then Some (Ret ''Try to set xinput property with wrong type of data'') else None) w3)))))"

text \<open>
  One item of \<open>di_xorg_xinput_get_prop\<close>: integers are read at their width as unsigned numbers.
\<close>

fun item_value :: "xserver \<Rightarrow> oref \<Rightarrow> 32 word \<Rightarrow> xi_item \<Rightarrow> world \<Rightarrow> (di_value \<times> world) res" where
  "item_value X dc ty (Bits b) w =
     (if is_int_type ty then Ret (VInt (ucast b), w)
      else bind_res (di_xorg_get_atom_name X dc b w) (\<lambda>(nm, w1). Ret (VString nm, w1)))"
| "item_value X dc ty (Float_item d) w = Ret (VFloat d, w)"

fun item_values :: "xserver \<Rightarrow> oref \<Rightarrow> 32 word \<Rightarrow> xi_item list \<Rightarrow> world \<Rightarrow> (di_value list \<times> world) res" where
  "item_values X dc ty [] w = Ret ([], w)"
| "item_values X dc ty (it # its) w =
     bind_res (item_value X dc ty it w) (\<lambda>(v, w1). bind_res (item_values X dc ty its w1) (\<lambda>(vs, w2). Ret (v # vs, w2)))"

definition prop_elem_type :: "32 word \<Rightarrow> 32 word \<Rightarrow> di_type option" where
  "prop_elem_type fl ty =
     (if is_int_type ty then Some DI_TYPE_INT
      else if ty = XCB_ATOM_ATOM \<or> ty = XCB_ATOM_STRING then Some DI_TYPE_STRING
      else if ty = fl then Some DI_TYPE_FLOAT else None)"

text \<open>The bytes of a string property are its items, read up to the first zero.\<close>

definition item_char :: "xi_item \<Rightarrow> char" where
  "item_char it = (case it of Bits b \<Rightarrow> char_of (unat b) | Float_item _ \<Rightarrow> CHR 0x00)"

definition error_value :: "drop_fn \<Rightarrow> string \<Rightarrow> world \<Rightarrow> (di_value \<times> world) res" where
  "error_value U msg w = bind_res (di_new_error U msg w) (\<lambda>(e, w1). Ret (VObject e, w1))"

definition read_prop ::
  "xserver \<Rightarrow> drop_fn \<Rightarrow> call_obj \<Rightarrow> oref \<Rightarrow> 32 word \<Rightarrow> xi_property \<Rightarrow> world \<Rightarrow> (di_value \<times> world) res" where
  "read_prop X U C d fl prop w =
     (case prop_elem_type fl (xp_type prop) of
        None \<Rightarrow> bind_res (xorg_log_at 1 True X U C d (Some (Ret ''Unknown property type'')) w) (error_value U ''Property has unknown type'')
      | Some t \<Rightarrow>
         if xp_format prop \<notin> {8, 16, 32} then
           bind_res (xorg_log_at 1 True X U C d (Some (Ret ''Xorg returns invalid format'')) w) (error_value U ''Property has invalid format'')
         else if (xp_type prop = fl \<or> xp_type prop = XCB_ATOM_ATOM) \<and> xp_format prop \<noteq> 32 then
           bind_res (xorg_log_at 1 False X U C d (Some (Ret ''Xorg return invalid format for float/atom'')) w) (error_value U ''X server is misbehaving'')
         else if xp_type prop = XCB_ATOM_STRING then
           assert_res (xp_format prop = 8) ''prop->format == 8'' (Ret (VString (di_string_dup (map item_char (xp_items prop))), w))
         else bind_res (item_values X d (xp_type prop) (xp_items prop) w) (\<lambda>(vs, w1).
           Ret (case vs of [v] \<Rightarrow> v | _ \<Rightarrow> VArray t (Some vs), w1)))"

definition di_xorg_xinput_get_prop ::
  "(32 word \<Rightarrow> xi_property option option) \<Rightarrow> xserver \<Rightarrow> drop_fn \<Rightarrow> call_obj \<Rightarrow> oref \<Rightarrow> di_string \<Rightarrow> world \<Rightarrow> (di_value \<times> world) res" where
  "di_xorg_xinput_get_prop query X U C p name w =
     bind_res (get_device p w) (\<lambda>(i, xi).
       bind_res (rr_connection xi w) (\<lambda>dc.
         case dc of
           None \<Rightarrow> error_value U ''Lost X connection'' w
         | Some d \<Rightarrow>
            bind_res (di_xorg_intern_atom X U C d name w) (\<lambda>((a, e), w1).
              case e of
                None \<Rightarrow> Fault Uninitialised
              | Some True \<Rightarrow> error_value U ''Failed to intern atom'' w1
              | Some False \<Rightarrow>
                 bind_res (di_xorg_intern_atom X U C d (di_string_borrow ''FLOAT'') w1) (\<lambda>((fl, _), w2).
                   case query a of
                     None \<Rightarrow> Fault Null_Deref
                   | Some None \<Rightarrow> Ret (VLast, w2)
                   | Some (Some prop) \<Rightarrow> read_prop X U C d fl prop w2))))"

section \<open>Objects and events\<close>

definition di_xorg_xinput_props :: "xserver \<Rightarrow> drop_fn \<Rightarrow> oref \<Rightarrow> world \<Rightarrow> (oref \<times> world) res" where
  "di_xorg_xinput_props X U p w =
     bind_res (get_device p w) (\<lambda>(i, xi).
       bind_res (typed_object U ''deai.plugin.xorg.xi:Device'' (PXiDevice i xi) w) (\<lambda>(o', w1).
         bind_res (add_methods (xs_prep_cif X) U o'
             [(''__get'', xs_fn X ''di_xorg_xinput_get_prop'', DI_TYPE_VARIANT, [DI_TYPE_STRING]),
              (''__set'', xs_fn X ''di_xorg_xinput_set_prop'', DI_TYPE_NIL, [DI_TYPE_STRING, DI_TYPE_VARIANT])] w1) (\<lambda>w2. Ret (o', w2))))"

definition free_xi_device_object :: "drop_fn \<Rightarrow> oref \<Rightarrow> world \<Rightarrow> world res" where
  "free_xi_device_object U p w = bind_res (get_device p w) (\<lambda>(_, xi). U xi w)"

definition di_xorg_make_object_for_devid :: "xserver \<Rightarrow> drop_fn \<Rightarrow> oref \<Rightarrow> 32 word \<Rightarrow> world \<Rightarrow> (oref \<times> world) res" where
  "di_xorg_make_object_for_devid X U xi deviceid w =
     bind_res (typed_object U ''deai.plugin.xorg.xi:Device'' (PXiDevice deviceid xi) w) (\<lambda>(p, w1).
       bind_res (di_ref_object xi w1) (\<lambda>w2.
         bind_res (di_set_object_dtor p (Some (Dtor_ext (xs_fn X ''free_xi_device_object''))) w2) (\<lambda>w3.
           bind_res (add_methods (xs_prep_cif X) U p
               [(''__get_name'', xs_fn X ''di_xorg_xinput_get_device_name'', DI_TYPE_STRING, []),
                (''__get_use'', xs_fn X ''di_xorg_xinput_get_device_use'', DI_TYPE_STRING_LITERAL, []),
                (''__get_id'', xs_fn X ''di_xorg_xinput_get_device_id'', DI_TYPE_NINT, []),
                (''__get_type'', xs_fn X ''di_xorg_xinput_get_device_type'', DI_TYPE_STRING, []),
                (''__get_props'', xs_fn X ''di_xorg_xinput_props'', DI_TYPE_OBJECT, [])] w3) (\<lambda>w4. Ret (p, w4)))))"

fun make_devices :: "xserver \<Rightarrow> drop_fn \<Rightarrow> oref \<Rightarrow> 32 word list \<Rightarrow> world \<Rightarrow> (di_value list \<times> world) res" where
  "make_devices X U xi [] w = Ret ([], w)"
| "make_devices X U xi (i # is) w =
     bind_res (di_xorg_make_object_for_devid X U xi i w) (\<lambda>(p, w1).
       bind_res (make_devices X U xi is w1) (\<lambda>(ps, w2). Ret (VObject p # ps, w2)))"

definition di_xorg_get_all_devices :: "xi_info list option \<Rightarrow> xserver \<Rightarrow> drop_fn \<Rightarrow> oref \<Rightarrow> world \<Rightarrow> (di_value \<times> world) res" where
  "di_xorg_get_all_devices reply X U xi w =
     bind_res (rr_connection xi w) (\<lambda>dc.
       if dc = None then Ret (DI_ARRAY_INIT, w)
       else case reply of
           None \<Rightarrow> Fault Null_Deref
         | Some is \<Rightarrow>
            bind_res (make_devices X U xi (map xi_deviceid is) w) (\<lambda>(ps, w1).
              Ret (VArray DI_TYPE_OBJECT (if ps = [] then None else Some ps), w1)))"

text \<open>
  \<open>handle_xinput_event\<close>: \<open>ext\<close> is the opcode in the event, when it is a generic one; \<open>infos\<close> are the entries of a
  hierarchy event, a device with its flags.
\<close>

definition emit_if :: "bool \<Rightarrow> drop_fn \<Rightarrow> call_obj \<Rightarrow> oref \<Rightarrow> string \<Rightarrow> oref \<Rightarrow> world \<Rightarrow> world res" where
  "emit_if b U C xi name dev w = (if b then bind_res (di_emitn U C xi name [VObject dev] w) (\<lambda>(_, w1). Ret w1) else Ret w)"

definition hierarchy_info :: "xserver \<Rightarrow> drop_fn \<Rightarrow> call_obj \<Rightarrow> oref \<Rightarrow> 32 word \<times> 32 word \<Rightarrow> world \<Rightarrow> world res" where
  "hierarchy_info X U C xi info w =
     bind_res (di_xorg_make_object_for_devid X U xi (fst info) w) (\<lambda>(dev, w1).
       bind_res (emit_if (bit (snd info) 2) U C xi ''new-device'' dev w1) (\<lambda>w2.
         bind_res (emit_if (bit (snd info) 6) U C xi ''device-enabled'' dev w2) (\<lambda>w3.
           bind_res (emit_if (bit (snd info) 7) U C xi ''device-disabled'' dev w3) (U dev))))"

definition handle_xinput_event ::
  "xserver \<Rightarrow> drop_fn \<Rightarrow> call_obj \<Rightarrow> oref \<Rightarrow> 8 word option \<Rightarrow> int \<Rightarrow> (32 word \<times> 32 word) list \<Rightarrow> world \<Rightarrow> (int \<times> world) res" where
  "handle_xinput_event X U C xi ext event_type infos w =
     bind_res (get_ext xi w) (\<lambda>e.
       if ext \<noteq> Some (xe_opcode e) then Ret (1, w)
       else if event_type \<noteq> XCB_INPUT_HIERARCHY then Ret (0, w)
       else bind_res (fold_res (hierarchy_info X U C xi) infos w) (\<lambda>w1. Ret (0, w1)))"

definition new_xinput :: "string list option \<Rightarrow> 8 word option \<Rightarrow> bool \<Rightarrow> xserver \<Rightarrow> drop_fn \<Rightarrow> call_obj \<Rightarrow> oref \<Rightarrow> world \<Rightarrow> (oref option \<times> world) res" where
  "new_xinput names query accepted X U C dc w =
     (case (xorg_has_extension names ''XInputExtension'', query) of
        (True, Some opcode) \<Rightarrow>
          bind_res (typed_object U ''deai.plugin.xorg:XiExt''
              (PXorgExt \<lparr>xe_dc = Some dc, xe_extname = ''xinput'', xe_opcode = opcode, xe_kind = Xinput (replicate 4 0) (replicate 27 0)\<rparr>) w) (\<lambda>(xi, w1).
            bind_res (enable_hierarchy_event accepted X U C xi w1) (\<lambda>w2.
              bind_res (add_methods (xs_prep_cif X) U xi [(''__get_devices'', xs_fn X ''di_xorg_get_all_devices'', DI_TYPE_ARRAY, [])] w2) (\<lambda>w3.
                Ret (Some xi, w3))))
      | _ \<Rightarrow> Ret (None, w))"

end
