(* ===== verification/Xorg.thy ===== *)
theory Xorg
  imports XorgInput
begin

text \<open>
  Connections of the X11 plugin, \<open>plugins/xorg/xorg.c\<close>: extension objects, events, keyboard maps.

  The callbacks of an extension are dispatched on its kind.  \<open>fin\<close> is \<open>di_finalize_object\<close>.
\<close>

section \<open>Extension objects\<close>

definition ext_free :: "xserver \<Rightarrow> drop_fn \<Rightarrow> call_obj \<Rightarrow> (oref \<Rightarrow> world \<Rightarrow> world res) \<Rightarrow> oref \<Rightarrow> world \<Rightarrow> world res" where
  "ext_free X U C fin x w =
     bind_res (get_ext x w) (\<lambda>e.
       case xe_kind e of
         Xinput _ _ \<Rightarrow> di_xorg_free_xinput True X U C x w
       | Randr _ _ \<Rightarrow> free_randr X U C x w
       | Key _ \<Rightarrow> free_key fin x w)"

text \<open>
  \<open>di_xorg_free_sub\<close>, the destructor: the extension loses its connection \<^emph>\<open>before\<close> its own cleanup runs.
\<close>

definition di_xorg_free_sub :: "xserver \<Rightarrow> drop_fn \<Rightarrow> call_obj \<Rightarrow> (oref \<Rightarrow> world \<Rightarrow> world res) \<Rightarrow> oref \<Rightarrow> world \<Rightarrow> world res" where
  "di_xorg_free_sub X U C fin x w =
     bind_res (get_ext x w) (\<lambda>e.
       case xe_dc e of
         None \<Rightarrow> Ret w
       | Some dc \<Rightarrow>
          bind_res (get_xc dc w) (\<lambda>v.
            bind_res (put_payload dc (PXorgConnection (v\<lparr>xc_xext := filter (\<lambda>en. snd en \<noteq> x) (xc_xext v)\<rparr>)) w) (\<lambda>w1.
              bind_res (U dc w1) (\<lambda>w2.
                bind_res (get_ext x w2) (\<lambda>e1.
                  bind_res (put_payload x (PXorgExt (e1\<lparr>xe_dc := None\<rparr>)) w2) (ext_free X U C fin x))))))"

definition xorg_disconnect :: "(oref \<Rightarrow> world \<Rightarrow> world res) \<Rightarrow> oref \<Rightarrow> world \<Rightarrow> world res" where
  "xorg_disconnect fin xc w =
     bind_res (di_has_member xc ''__xcb_fd_event'' w) (\<lambda>b.
       if \<not> b then Ret w
       else bind_res (get_xc xc w) (\<lambda>v.
         bind_res (fold_res fin (map snd (xc_xext v)) w) (\<lambda>w1.
           bind_res (get_xc xc w1) (\<lambda>v1.
             assert_res (xc_c v1) ''xc->c != NULL''
               (put_payload xc (PXorgConnection (v1\<lparr>xc_x := None, xc_c := False, xc_atoms := [], xc_reqs := xc_reqs v1 @ [Xcb_disconnect]\<rparr>)) w1)))))"

section \<open>Events\<close>

text \<open>
  An event of the server: a generic one with the opcode of its extension, one in the range of RandR, or one
  of the core protocol.  Each extension looks at the type of the event first and passes on what is not its own.
\<close>

datatype x_event =
    Generic_event "8 word" int "(32 word \<times> 32 word) list"
  | Randr_notify randr_event
  | Core_event key_event

definition ext_handle_event ::
  "xserver \<Rightarrow> drop_fn \<Rightarrow> call_obj \<Rightarrow> (oref \<Rightarrow> world \<Rightarrow> world res) \<Rightarrow> oref \<Rightarrow> x_event \<Rightarrow> world \<Rightarrow> (int \<times> world) res" where
  "ext_handle_event X U C fin x ev w =
     bind_res (get_ext x w) (\<lambda>e.
       case xe_kind e of
         Xinput _ _ \<Rightarrow>
           (case ev of
              Generic_event opcode ty infos \<Rightarrow> handle_xinput_event X U C x (Some opcode) ty infos w
            | _ \<Rightarrow> handle_xinput_event X U C x None 0 [] w)
       | Randr _ _ \<Rightarrow> (case ev of Randr_notify r \<Rightarrow> handle_randr_event X U C x r w | _ \<Rightarrow> Ret (1, w))
       | Key _ \<Rightarrow> handle_key X U C fin x (case ev of Core_event k \<Rightarrow> k | _ \<Rightarrow> Other_event) w)"

text \<open>
  An event is offered to the extensions in the order they were created, until one has taken it.  The loop
  holds the extension after the one it calls.
\<close>

fun offer_event ::
  "xserver \<Rightarrow> drop_fn \<Rightarrow> call_obj \<Rightarrow> (oref \<Rightarrow> world \<Rightarrow> world res) \<Rightarrow> x_event \<Rightarrow> oref list \<Rightarrow> world \<Rightarrow> world res" where
  "offer_event X U C fin ev [] w = Ret w"
| "offer_event X U C fin ev (x # xs) w =
     bind_res (ext_handle_event X U C fin x ev w) (\<lambda>(status, w1). if status \<noteq> 1 then Ret w1 else offer_event X U C fin ev xs w1)"

fun poll_events ::
  "xserver \<Rightarrow> drop_fn \<Rightarrow> call_obj \<Rightarrow> (oref \<Rightarrow> world \<Rightarrow> world res) \<Rightarrow> oref \<Rightarrow> x_event list \<Rightarrow> world \<Rightarrow> world res" where
  "poll_events X U C fin dc [] w = bind_res (get_xc dc w) (\<lambda>v. if xc_c v then Ret w else Fault Null_Deref)"
| "poll_events X U C fin dc (ev # evs) w =
     bind_res (get_xc dc w) (\<lambda>v.
       if \<not> xc_c v then Fault Null_Deref
       else bind_res (offer_event X U C fin ev (map snd (xc_xext v)) w) (poll_events X U C fin dc evs))"

definition di_xorg_ioev ::
  "xserver \<Rightarrow> x_event list \<Rightarrow> bool \<Rightarrow> drop_fn \<Rightarrow> call_obj \<Rightarrow> (oref \<Rightarrow> world \<Rightarrow> world res) \<Rightarrow> oref \<Rightarrow> world \<Rightarrow> world res" where
  "di_xorg_ioev X evs has_error U C fin weak w =
     bind_res (di_upgrade_weak_ref weak w) (\<lambda>(r, w1).
       case r of
         None \<Rightarrow> Fault (Aborted ''got ioev events but the listener has died'')
       | Some dc \<Rightarrow>
          bind_res (poll_events X U C fin dc evs w1) (\<lambda>w2.
            bind_res (if has_error then bind_res (di_emitn U C dc ''connection-error'' [] w2) (\<lambda>(_, w3). fin dc w3) else Ret w2) (U dc)))"

section \<open>Getting an extension\<close>

text \<open>
  \<open>ext_replies\<close>: what the server answers while an extension object is made, its extensions, their opcodes and
  first events, the resources of the screen and whether the selection of events is accepted.
\<close>

record ext_replies =
  er_names :: "string list option"
  er_xinput :: "8 word option"
  er_randr :: "(8 word \<times> 8 word) option"
  er_screen :: "screen_resources option"
  er_accepted :: bool

text \<open>\<open>xext_reg\<close>, the constructor of an extension by its name; it gives nothing when the server does not have the extension.\<close>

definition xext_reg :: "ext_replies \<Rightarrow> xserver \<Rightarrow> drop_fn \<Rightarrow> call_obj \<Rightarrow> (string \<times> (oref \<Rightarrow> world \<Rightarrow> (oref option \<times> world) res)) list" where
  "xext_reg R X U C =
     [(''xinput'', new_xinput (er_names R) (er_xinput R) (er_accepted R) X U C),
      (''randr'', new_randr (er_names R) (er_randr R) (er_screen R) X U C),
      (''key'', \<lambda>dc w. bind_res (new_key X U dc w) (\<lambda>(k, w1). Ret (Some k, w1)))]"

text \<open>\<open>di_xorg_get_ext\<close>: an extension object that is there, or a new one.\<close>

definition di_xorg_get_ext :: "ext_replies \<Rightarrow> xserver \<Rightarrow> drop_fn \<Rightarrow> call_obj \<Rightarrow> oref \<Rightarrow> string \<Rightarrow> world \<Rightarrow> (di_value \<times> world) res" where
  "di_xorg_get_ext R X U C xc name w =
     bind_res (get_xc xc w) (\<lambda>v.
       case hash_find name (xc_xext v) of
         Some x \<Rightarrow> bind_res (di_ref_object x w) (\<lambda>w1. Ret (VObject x, w1))
       | None \<Rightarrow>
          case map_of (xext_reg R X U C) name of
            None \<Rightarrow> Ret (VLast, w)
          | Some new \<Rightarrow> bind_res (new xc w) (\<lambda>(r, w1).
            case r of
              None \<Rightarrow> Ret (VLast, w1)
            | Some x \<Rightarrow>
               bind_res (di_set_object_dtor x (Some (Dtor_ext (xs_fn X ''di_xorg_free_sub''))) w1) (\<lambda>w2.
                 bind_res (get_ext x w2) (\<lambda>e.
                   bind_res (get_xc xc w2) (\<lambda>v1.
                     bind_res (put_payload xc (PXorgConnection (v1\<lparr>xc_xext := hash_add (xe_extname e) x (xc_xext v1)\<rparr>)) w2) (\<lambda>w3.
                       bind_res (di_ref_object xc w3) (\<lambda>w4. Ret (VObject x, w4))))))))"

section \<open>Modifiers of a keyboard map\<close>

text \<open>
  \<open>xkb\<close>: a keyboard state of libxkbcommon, what pressing or releasing a key does to it and which parts of the
  state it changes, and whether one of the eight modifiers is active in those parts.
\<close>

record 's xkb =
  xkb_new :: 's
  xkb_update :: "'s \<Rightarrow> nat \<Rightarrow> bool \<Rightarrow> 's \<times> 32 word"
  xkb_active :: "'s \<Rightarrow> nat \<Rightarrow> 32 word \<Rightarrow> bool"

text \<open>
  The eight linked lists inside two arrays of 256 entries: \<open>ml_next\<close> has the next pointers, \<open>ml_head\<close> the heads
  and \<open>ml_keycodes\<close> the data.
\<close>

record mod_lists =
  ml_count :: "nat list"
  ml_next :: "int list"
  ml_keycodes :: "nat list"
  ml_head :: "int list"
  ml_total :: nat

definition ml_empty :: mod_lists where
  "ml_empty = \<lparr>ml_count = replicate 8 0, ml_next = replicate 256 (- 1), ml_keycodes = replicate 256 0, ml_head = replicate 8 (- 1), ml_total = 0\<rparr>"

definition ml_insert :: "nat \<Rightarrow> nat \<Rightarrow> mod_lists \<Rightarrow> mod_lists res" where
  "ml_insert i j l =
     (if 256 \<le> ml_total l then Fault Out_Of_Bounds
      else Ret (l\<lparr>ml_next := (ml_next l)[ml_total l := ml_head l ! j], ml_head := (ml_head l)[j := int (ml_total l)],
        ml_keycodes := (ml_keycodes l)[ml_total l := i], ml_total := ml_total l + 1, ml_count := (ml_count l)[j := ml_count l ! j + 1]\<rparr>))"

text \<open>Pressing one key; the second pair of updates takes back a lock.\<close>

definition press_key :: "'s xkb \<Rightarrow> nat \<Rightarrow> 's \<times> mod_lists \<Rightarrow> ('s \<times> mod_lists) res" where
  "press_key K i s =
     (let (st1, upd) = xkb_update K (fst s) i True; updates = and upd 7 in
      if updates = 0 then Ret (fst (xkb_update K st1 i False), snd s)
      else bind_res (fold_res (\<lambda>j l. if xkb_active K st1 j updates then ml_insert i j l else Ret l) [0..<8] (snd s)) (\<lambda>l.
        let st2 = fst (xkb_update K st1 i False);
            st3 = (if bit updates 2 then fst (xkb_update K (fst (xkb_update K st2 i True)) i False) else st2)
        in Ret (if bit updates 1 then xkb_new K else st3, l)))"

fun walk_list :: "nat \<Rightarrow> mod_lists \<Rightarrow> nat \<Rightarrow> nat \<Rightarrow> int \<Rightarrow> nat \<Rightarrow> 8 word list \<Rightarrow> 8 word list res" where
  "walk_list 0 l per i cur cnt ks = Fault OutOfFuel"
| "walk_list (Suc n) l per i cur cnt ks =
     (if cur = - 1 then Ret ks
      else assert_res (cnt < per) ''cnt < keycodes_per_modifiers''
        (walk_list n l per i (ml_next l ! nat cur) (Suc cnt) (ks[i * per + cnt := of_nat (ml_keycodes l ! nat cur)])))"

text \<open>
  The sanity check of \<open>find_modifiers\<close> is left out: the eight names are those of the real modifiers, which libxkbcommon has in
  every map.
\<close>

definition find_modifiers :: "'s xkb \<Rightarrow> nat \<Rightarrow> nat \<Rightarrow> (nat \<times> 8 word list) res" where
  "find_modifiers K lo hi =
     bind_res (fold_res (press_key K) [lo..<Suc hi] (xkb_new K, ml_empty)) (\<lambda>(_, l).
       let per = Max (insert 0 (set (ml_count l))) in
       bind_res (fold_res (\<lambda>i. walk_list 257 l per i (ml_head l ! i) 0) [0..<8] (replicate (8 * per) 0)) (\<lambda>ks. Ret (per, ks)))"

section \<open>Keyboard maps\<close>

text \<open>\<open>keymap\<close>: a compiled map; \<open>km_syms\<close> are the symbols of a key on a level.\<close>

record keymap =
  km_layouts :: nat
  km_min :: nat
  km_max :: nat
  km_levels :: "nat \<Rightarrow> nat"
  km_syms :: "nat \<Rightarrow> nat \<Rightarrow> 32 word list"

definition store_sym :: "nat \<Rightarrow> 32 word \<Rightarrow> 32 word list \<Rightarrow> 32 word list res" where
  "store_sym i s ks = (if i < length ks then Ret (ks[i := s]) else Fault Out_Of_Bounds)"

text \<open>One symbol of the table: the first two levels go to both groups.  A level with several symbols is left out (with a warning in the log).\<close>

definition put_level :: "keymap \<Rightarrow> nat \<Rightarrow> nat \<Rightarrow> nat \<Rightarrow> nat \<Rightarrow> 32 word list \<Rightarrow> 32 word list res" where
  "put_level m lo per i j ks =
     (case km_syms m i j of
        [s] \<Rightarrow>
          bind_res (if j < 2 then store_sym ((i - lo) * per + j) s ks else Ret ks) (store_sym ((i - lo) * per + j + 2) s)
      | _ \<Rightarrow> Ret ks)"

definition keysym_width :: "keymap \<Rightarrow> nat \<Rightarrow> nat \<Rightarrow> nat" where
  "keysym_width m lo hi = Max (insert 0 (km_levels m ` {lo..hi})) + 2"

definition keysym_table :: "keymap \<Rightarrow> nat \<Rightarrow> nat \<Rightarrow> 32 word list res" where
  "keysym_table m lo hi =
     (let per = keysym_width m lo hi in
      fold_res (\<lambda>i. fold_res (put_level m lo per i) [0..<km_levels m i]) [lo..<Suc hi] (replicate (per * Suc (hi - lo)) 0))"

text \<open>The loop that sets the modifiers: 0 is success, 1 busy and anything else a failure.\<close>

fun set_modifiers :: "xserver \<Rightarrow> nat option list \<Rightarrow> drop_fn \<Rightarrow> call_obj \<Rightarrow> oref \<Rightarrow> nat \<Rightarrow> 8 word list \<Rightarrow> world \<Rightarrow> world res" where
  "set_modifiers X [] U C xc per ks w = Fault OutOfFuel"
| "set_modifiers X (r # rs) U C xc per ks w =
     bind_res (xcb_send xc [Set_modifier_mapping per ks] w) (\<lambda>w1.
       if r = None \<or> r = Some 2 then xorg_log_at 0 False X U C xc (Some (Ret ''Failed to set modifiers, your keymap will be broken.'')) w1
       else if r = Some 0 then Ret w1 else set_modifiers X rs U C xc per ks w1)"

text \<open>
  \<open>set_keymap\<close>: \<open>compile\<close> gives the map and the keyboard state for the names of layout, model, variant and
  options; \<open>bounds\<close> are the keycodes the server allows.
\<close>

definition get_name :: "drop_fn \<Rightarrow> call_obj \<Rightarrow> oref \<Rightarrow> string \<Rightarrow> world \<Rightarrow> (string option \<times> world) res" where
  "get_name U C p name w =
     bind_res (di_getxt U C p (Some name) DI_TYPE_STRING w) (\<lambda>(r, w1).
       case r of
         Inr (VString s) \<Rightarrow> Ret (Some (cstr (di_string_bytes s)), w1)
       | Inr _ \<Rightarrow> Fault Type_Confusion
       | Inl _ \<Rightarrow> Ret (None, w1))"

definition apply_keymap ::
  "xserver \<Rightarrow> nat \<times> nat \<Rightarrow> bool \<Rightarrow> nat option list \<Rightarrow> drop_fn \<Rightarrow> call_obj \<Rightarrow> oref \<Rightarrow> keymap \<times> 's xkb \<Rightarrow> world \<Rightarrow> world res" where
  "apply_keymap X bounds accepted replies U C xc mk w =
     (let m = fst mk; hi = min (km_max m) (snd bounds); lo = max (km_min m) (fst bounds) in
      if km_layouts m \<noteq> 1 then xorg_log_at 0 False X U C xc (Some (Ret ''Using multiple layout at the same time is not currently supported.'')) w
      else bind_res (keysym_table m lo hi) (\<lambda>ks.
        bind_res (xcb_send xc [Change_keyboard_mapping lo (keysym_width m lo hi) ks] w) (\<lambda>w1.
          bind_res (if accepted then Ret w1 else xorg_log_at 0 False X U C xc (Some (Ret ''Failed to set keymap.'')) w1) (\<lambda>w2.
            bind_res (find_modifiers (snd mk) lo hi) (\<lambda>(per, kcs). set_modifiers X replies U C xc per kcs w2)))))"

definition set_keymap ::
  "xserver \<Rightarrow> (string \<Rightarrow> string option \<Rightarrow> string option \<Rightarrow> string option \<Rightarrow> (keymap \<times> 's xkb) option) \<Rightarrow> nat \<times> nat \<Rightarrow> bool \<Rightarrow> nat option list \<Rightarrow>
   drop_fn \<Rightarrow> call_obj \<Rightarrow> oref \<Rightarrow> oref option \<Rightarrow> world \<Rightarrow> world res" where
  "set_keymap X compile bounds accepted replies U C xc cfg w =
     (case cfg of
        None \<Rightarrow> xorg_log_at 0 False X U C xc (Some (Ret ''Invalid keymap object, key \"layout\" is not set'')) w
      | Some p \<Rightarrow>
         bind_res (get_name U C p ''layout'' w) (\<lambda>(layout, w1).
           case layout of
             None \<Rightarrow> xorg_log_at 0 False X U C xc (Some (Ret ''Invalid keymap object, key \"layout\" is not set'')) w1
           | Some l \<Rightarrow>
              bind_res (get_name U C p ''model'' w1) (\<lambda>(model, w2).
                bind_res (get_name U C p ''variant'' w2) (\<lambda>(variant, w3).
                  bind_res (get_name U C p ''options'' w3) (\<lambda>(options, w4).
                    case compile l model variant options of
                      None \<Rightarrow> Fault Null_Deref
                    | Some mk \<Rightarrow> apply_keymap X bounds accepted replies U C xc mk w4)))))"

section \<open>Connecting\<close>

definition di_xorg_connect_to :: "xserver \<Rightarrow> (string option \<Rightarrow> int option) \<Rightarrow> drop_fn \<Rightarrow> call_obj \<Rightarrow> oref \<Rightarrow> di_string \<Rightarrow> world \<Rightarrow> (oref \<times> world) res" where
  "di_xorg_connect_to X connect U C x displayname w =
     (case connect (if 0 < di_string_length displayname then Some (cstr (di_string_bytes displayname)) else None) of
        None \<Rightarrow> di_new_error U ''Cannot connect to the display'' w
      | Some fd \<Rightarrow>
         bind_res (di_mgetm U C x ''event'' w) (\<lambda>(ev, w1).
           case ev of
             None \<Rightarrow> di_new_error U ''Can't get event module'' w1
           | Some eventm \<Rightarrow>
              bind_res (typed_object U ''deai.plugin.xorg:Connection''
                  (PXorgConnection \<lparr>xc_x = Some x, xc_c = True, xc_xext = [], xc_atoms = [], xc_reqs = []\<rparr>) w1) (\<lambda>(dc, w2).
                bind_res (di_callr U C eventm ''fdevent'' DI_TYPE_OBJECT [VNint (word_of_int fd), VNint 1] w2) (\<lambda>(r, w3).
                  case r of
                    Inr (VObject fdev) \<Rightarrow>
                      bind_res (di_weakly_ref_object dc w3) (\<lambda>w4.
                        bind_res (di_create_closure (xs_prep_cif X) U (xs_fn X ''di_xorg_ioev'') DI_TYPE_NIL [VWeak dc] [] w4) (\<lambda>(cl, w5).
                          case cl of
                            Inl e \<Rightarrow> Fault Type_Confusion
                          | Inr f \<Rightarrow>
                             bind_res (di_listen_to U C fdev ''read'' f w5) (\<lambda>(lh, w6).
                               bind_res (di_add_member_move U dc (Some ''__xcb_fd_event'') (VObject fdev) w6) (\<lambda>(_, w7).
                                 bind_res (di_add_member_move U dc (Some ''__xcb_fd_event_read_listen_handle'') (VObject lh) w7) (\<lambda>(_, w8).
                                   bind_res (di_set_object_dtor dc (Some (Dtor_ext (xs_fn X ''xorg_disconnect''))) w8) (\<lambda>w9.
                                     bind_res (add_methods (xs_prep_cif X) U dc
                                         [(''__get'', xs_fn X ''di_xorg_get_ext'', DI_TYPE_VARIANT, [DI_TYPE_STRING]),
                                          (''__get_xrdb'', xs_fn X ''di_xorg_get_resource'', DI_TYPE_STRING, []),
                                          (''__set_xrdb'', xs_fn X ''di_xorg_set_resource'', DI_TYPE_NIL, [DI_TYPE_STRING]),
                                          (''__get_screen'', xs_fn X ''get_screen'', DI_TYPE_OBJECT, []),
                                          (''__set_keymap'', xs_fn X ''set_keymap'', DI_TYPE_NIL, [DI_TYPE_OBJECT]),
                                          (''disconnect'', xs_fn X ''di_finalize_object'', DI_TYPE_NIL, [])] w9) (\<lambda>w10.
                                       bind_res (U f w10) (\<lambda>w11. bind_res (di_drop_weak_ref dc w11) (\<lambda>w12.
                                         bind_res (U eventm w12) (\<lambda>w13. Ret (dc, w13)))))))))))
                  | _ \<Rightarrow> Fault Null_Deref))))"

definition di_xorg_connect :: "xserver \<Rightarrow> (string option \<Rightarrow> int option) \<Rightarrow> drop_fn \<Rightarrow> call_obj \<Rightarrow> oref \<Rightarrow> world \<Rightarrow> (oref \<times> world) res" where
  "di_xorg_connect X connect U C x w = di_xorg_connect_to X connect U C x DI_STRING_INIT w"

definition xorg_plugin_init :: "xserver \<Rightarrow> drop_fn \<Rightarrow> oref \<Rightarrow> world \<Rightarrow> world res" where
  "xorg_plugin_init X U di w =
     bind_res (di_new_module U di w) (\<lambda>(pm, w1).
       case pm of
         None \<Rightarrow> Fault Null_Deref
       | Some m \<Rightarrow>
          bind_res (add_methods (xs_prep_cif X) U m
              [(''connect'', xs_fn X ''di_xorg_connect'', DI_TYPE_OBJECT, []),
               (''connect_to'', xs_fn X ''di_xorg_connect_to'', DI_TYPE_OBJECT, [DI_TYPE_STRING])] w1) (\<lambda>w2.
            bind_res (di_register_module U di (Some ''xorg'') m w2) (\<lambda>(_, w3). Ret w3)))"

end
