(* ===== verification/XorgProps.thy ===== *)
theory XorgProps
  imports Xorg SpawnExamples
begin

text \<open>
  What the X11 plugin computes: the modifier map of a keyboard and the table of its symbols.
\<close>

section \<open>The modifier map\<close>

text \<open>
  \<open>presses\<close>: the pairs of a key and a modifier it is found to set, in the order they are found.
  \<open>mod_rows ps j\<close> are the keys of the modifier \<open>j\<close>, the latest first.
\<close>

definition key_mods :: "'s xkb \<Rightarrow> 's \<Rightarrow> nat \<Rightarrow> nat list" where
  "key_mods K st i =
     (let (st1, upd) = xkb_update K st i True; updates = and upd 7 in
      if updates = 0 then [] else filter (\<lambda>j. xkb_active K st1 j updates) [0..<8])"

definition key_state :: "'s xkb \<Rightarrow> 's \<Rightarrow> nat \<Rightarrow> 's" where
  "key_state K st i =
     (let (st1, upd) = xkb_update K st i True; updates = and upd 7; st2 = fst (xkb_update K st1 i False) in
      if updates = 0 then st2
      else if bit updates 1 then xkb_new K
      else if bit updates 2 then fst (xkb_update K (fst (xkb_update K st2 i True)) i False) else st2)"

fun presses :: "'s xkb \<Rightarrow> 's \<Rightarrow> nat list \<Rightarrow> (nat \<times> nat) list" where
  "presses K st [] = []"
| "presses K st (i # is) = map (Pair i) (key_mods K st i) @ presses K (key_state K st i) is"

definition mod_row :: "(nat \<times> nat) list \<Rightarrow> nat \<Rightarrow> nat list" where
  "mod_row ps j = rev (map fst (filter (\<lambda>p. snd p = j) ps))"

text \<open>\<open>chain l c xs\<close>: the list that starts at index \<open>c\<close> holds \<open>xs\<close>.\<close>

fun chain :: "mod_lists \<Rightarrow> int \<Rightarrow> nat list \<Rightarrow> bool" where
  "chain l c [] = (c = - 1)"
| "chain l c (x # xs) = (0 \<le> c \<and> nat c < ml_total l \<and> ml_keycodes l ! nat c = x \<and> chain l (ml_next l ! nat c) xs)"

definition ml_rep :: "(nat \<times> nat) list \<Rightarrow> mod_lists \<Rightarrow> bool" where
  "ml_rep ps l \<longleftrightarrow> ml_total l = length ps \<and> length ps \<le> 256 \<and> length (ml_next l) = 256 \<and> length (ml_keycodes l) = 256 \<and>
     length (ml_head l) = 8 \<and> ml_count l = map (\<lambda>j. length (mod_row ps j)) [0..<8] \<and> (\<forall>j < 8. chain l (ml_head l ! j) (mod_row ps j))"

lemma ml_rep_empty: "ml_rep [] ml_empty"
  by (simp add: ml_rep_def ml_empty_def mod_row_def map_replicate_const)

lemma chain_insert:
  assumes "chain l c xs" "ml_total l < 256" "length (ml_next l) = 256" "length (ml_keycodes l) = 256" "ml_insert i j l = Ret l'"
  shows "chain l' c xs"
  using assms(1)
proof (induction xs arbitrary: c)
  case (Cons x xs)
  then show ?case using assms(2-) by (auto simp: ml_insert_def)
qed simp

lemma mod_row_snoc: "mod_row (ps @ [(i, j)]) k = (if k = j then i # mod_row ps k else mod_row ps k)"
  by (simp add: mod_row_def)

lemma ml_insert_rep:
  assumes r: "ml_rep ps l" and j: "j < 8" and room: "length ps < 256"
  shows "\<exists>l'. ml_insert i j l = Ret l' \<and> ml_rep (ps @ [(i, j)]) l'"
proof -
  obtain l' where l': "ml_insert i j l = Ret l'" using room r by (simp add: ml_insert_def ml_rep_def)
  have "chain l' (ml_head l' ! k) (mod_row (ps @ [(i, j)]) k)" if "k < 8" for k
  proof -
    have "chain l' (ml_head l ! k) (mod_row ps k)"
      using chain_insert [OF _ _ _ _ l', of "ml_head l ! k" "mod_row ps k"] r room that by (simp add: ml_rep_def)
    then show ?thesis using l' r room j that by (auto simp: ml_insert_def ml_rep_def mod_row_snoc split: if_splits)
  qed
  moreover have "ml_count l' = map (\<lambda>k. length (mod_row (ps @ [(i, j)]) k)) [0..<8]"
    using l' r room j by (intro nth_equalityI) (auto simp: ml_insert_def ml_rep_def mod_row_snoc nth_list_update split: if_splits)
  ultimately show ?thesis using l' r room by (auto simp: ml_insert_def ml_rep_def split: if_splits)
qed

lemma insert_mods:
  assumes "\<forall>j \<in> set js. j < 8" "ml_rep ps l"
  shows "if length ps + length (filter P js) \<le> 256
    then \<exists>l'. fold_res (\<lambda>j l. if P j then ml_insert i j l else Ret l) js l = Ret l' \<and> ml_rep (ps @ map (Pair i) (filter P js)) l'
    else fold_res (\<lambda>j l. if P j then ml_insert i j l else Ret l) js l = Fault Out_Of_Bounds"
  using assms
proof (induction js arbitrary: ps l)
  case (Cons j js)
  show ?case
  proof (cases "P j")
    case True
    show ?thesis
    proof (cases "length ps < 256")
      case room: True
      obtain l' where l': "ml_insert i j l = Ret l'" "ml_rep (ps @ [(i, j)]) l'"
        using ml_insert_rep [OF Cons.prems(2), of j i] Cons.prems(1) room by auto
      with Cons.IH [OF _ l'(2)] Cons.prems(1) True show ?thesis by (auto split: if_splits)
    next
      case full: False
      then have "ml_insert i j l = Fault Out_Of_Bounds" using Cons.prems by (simp add: ml_insert_def ml_rep_def)
      with full True show ?thesis by simp
    qed
  next
    case False
    with Cons show ?thesis by simp
  qed
qed (simp add: ml_rep_def)

lemma press_key_rep:
  assumes "ml_rep ps l"
  shows "if length ps + length (key_mods K st i) \<le> 256
    then \<exists>l'. press_key K i (st, l) = Ret (key_state K st i, l') \<and> ml_rep (ps @ map (Pair i) (key_mods K st i)) l'
    else press_key K i (st, l) = Fault Out_Of_Bounds"
proof -
  obtain st1 upd where u: "xkb_update K st i True = (st1, upd)" by fastforce
  have "\<forall>j \<in> set [0..<8]. j < 8" by simp
  from insert_mods [OF this assms, of "\<lambda>j. xkb_active K st1 j (and upd 7)" i] u assms show ?thesis
    by (auto simp: press_key_def key_mods_def key_state_def Let_def ml_rep_def)
qed

lemma press_keys_rep:
  assumes "ml_rep ps l"
  shows "if length ps + length (presses K st is) \<le> 256
    then \<exists>st' l'. fold_res (press_key K) is (st, l) = Ret (st', l') \<and> ml_rep (ps @ presses K st is) l'
    else fold_res (press_key K) is (st, l) = Fault Out_Of_Bounds"
  using assms
proof (induction "is" arbitrary: ps st l)
  case Nil
  then show ?case by (auto simp: ml_rep_def)
next
  case (Cons i "is")
  show ?case
  proof (cases "length ps + length (key_mods K st i) \<le> 256")
    case True
    obtain l' where l': "press_key K i (st, l) = Ret (key_state K st i, l')" "ml_rep (ps @ map (Pair i) (key_mods K st i)) l'"
      using press_key_rep [OF Cons.prems, of K st i] True by auto
    from Cons.IH [OF l'(2), of "key_state K st i"] l'(1) show ?thesis by (auto simp: algebra_simps split: if_splits)
  next
    case False
    with press_key_rep [OF Cons.prems, of K st i] show ?thesis by simp
  qed
qed

text \<open>\<open>overlay off xs ks\<close>: the array \<open>ks\<close> with \<open>xs\<close> written from \<open>off\<close> on.\<close>

fun overlay :: "nat \<Rightarrow> 'a list \<Rightarrow> 'a list \<Rightarrow> 'a list" where
  "overlay off [] ks = ks"
| "overlay off (x # xs) ks = overlay (Suc off) xs (ks[off := x])"

lemma overlay_append: "length xs \<le> length ks \<Longrightarrow> overlay (length as) xs (as @ ks @ bs) = as @ xs @ drop (length xs) ks @ bs"
proof (induction xs arbitrary: as ks)
  case (Cons x xs)
  then obtain k ks' where k: "ks = k # ks'" by (cases ks) auto
  have "overlay (Suc (length as)) xs ((as @ ks @ bs)[length as := x]) = overlay (length (as @ [x])) xs ((as @ [x]) @ ks' @ bs)"
    by (simp add: k)
  also have "\<dots> = (as @ [x]) @ xs @ drop (length xs) ks' @ bs" using Cons k by (intro Cons.IH) simp
  finally show ?case by (simp add: k)
qed simp

lemma walk_chain:
  "chain l c xs \<Longrightarrow> length xs < n \<Longrightarrow> cnt + length xs \<le> per \<Longrightarrow>
   walk_list n l per i c cnt ks = Ret (overlay (i * per + cnt) (map of_nat xs) ks)"
proof (induction n arbitrary: c xs cnt ks)
  case (Suc n)
  show ?case
  proof (cases xs)
    case (Cons x xs')
    with Suc.prems have "walk_list n l per i (ml_next l ! nat c) (Suc cnt) (ks[i * per + cnt := of_nat x]) =
        Ret (overlay (i * per + Suc cnt) (map of_nat xs') (ks[i * per + cnt := of_nat x]))"
      by (intro Suc.IH) auto
    with Cons Suc.prems show ?thesis by simp
  qed (use Suc.prems in simp)
qed simp

definition padded_row :: "nat \<Rightarrow> (nat \<times> nat) list \<Rightarrow> nat \<Rightarrow> 8 word list" where
  "padded_row per ps j = map of_nat (mod_row ps j) @ replicate (per - length (mod_row ps j)) 0"

lemma length_mod_row: "length (mod_row ps j) \<le> length ps"
  by (simp add: mod_row_def)

lemma length_rows: "\<forall>j < m. length (mod_row ps j) \<le> per \<Longrightarrow> length (concat (map (padded_row per ps) [0..<m])) = m * per"
  by (induction m) (auto simp: padded_row_def)

lemma walk_rows:
  assumes r: "ml_rep ps l" and per: "\<forall>j < 8. length (mod_row ps j) \<le> per" and m: "m \<le> 8"
  shows "fold_res (\<lambda>i. walk_list 257 l per i (ml_head l ! i) 0) [0..<m] (replicate (8 * per) 0) =
    Ret (concat (map (padded_row per ps) [0..<m]) @ replicate ((8 - m) * per) 0)"
  using m
proof (induction m)
  case (Suc m)
  let ?done = "concat (map (padded_row per ps) [0..<m])" and ?xs = "map of_nat (mod_row ps m) :: 8 word list"
  have len: "length ?done = m * per" using per Suc.prems by (intro length_rows) auto
  have rep: "replicate ((8 - m) * per) (0 :: 8 word) = replicate per 0 @ replicate ((8 - Suc m) * per) 0"
    using Suc.prems by (simp add: replicate_add [symmetric] Suc_diff_le [symmetric] flip: mult_Suc)
  have le: "length ?xs \<le> length (replicate per (0 :: 8 word))" using per Suc.prems by simp
  have "length (mod_row ps m) < 257" using length_mod_row [of ps m] r by (simp add: ml_rep_def)
  then have "walk_list 257 l per m (ml_head l ! m) 0 (?done @ replicate ((8 - m) * per) 0) =
      Ret (overlay (m * per) ?xs (?done @ replicate per 0 @ replicate ((8 - Suc m) * per) 0))"
    using r per Suc.prems rep by (subst walk_chain [of l _ "mod_row ps m"]) (simp_all add: ml_rep_def)
  also have "overlay (m * per) ?xs (?done @ replicate per 0 @ replicate ((8 - Suc m) * per) 0) =
      ?done @ padded_row per ps m @ replicate ((8 - Suc m) * per) 0"
    using overlay_append [OF le, of ?done "replicate ((8 - Suc m) * per) 0"] len by (simp add: padded_row_def)
  finally show ?case using Suc by (simp add: fold_res_append)
qed simp

text \<open>
  C38. The modifier map is right as long as it fits.  \<open>find_modifiers\<close> threads eight linked lists through two
  arrays and copies them to a table with one row per modifier: each row has the keys found to set that
  modifier, the latest first, filled up with zeros, and all rows have the length of the longest.  When the
  keys set more than 256 modifiers in all the arrays are written past their end.
\<close>

theorem find_modifiers_rows:
  "find_modifiers K lo hi =
     (let ps = presses K (xkb_new K) [lo..<Suc hi]; per = Max (insert 0 ((\<lambda>j. length (mod_row ps j)) ` {0..<8})) in
      if length ps \<le> 256 then Ret (per, concat (map (padded_row per ps) [0..<8])) else Fault Out_Of_Bounds)"
proof (cases "length (presses K (xkb_new K) [lo..<Suc hi]) \<le> 256")
  case True
  let ?ps = "presses K (xkb_new K) [lo..<Suc hi]"
  obtain st' l' where l': "fold_res (press_key K) [lo..<Suc hi] (xkb_new K, ml_empty) = Ret (st', l')" "ml_rep ?ps l'"
    using press_keys_rep [OF ml_rep_empty, of K "xkb_new K" "[lo..<Suc hi]"] True by auto
  define per where "per = Max (insert 0 ((\<lambda>j. length (mod_row ?ps j)) ` {0..<8}))"
  have "set (ml_count l') = (\<lambda>j. length (mod_row ?ps j)) ` {0..<8}" using l'(2) by (simp add: ml_rep_def)
  then have p: "Max (insert 0 (set (ml_count l'))) = per" by (simp only: per_def)
  have "\<forall>j < 8. length (mod_row ?ps j) \<le> per" unfolding per_def by (intro allI impI Max_ge) auto
  from walk_rows [OF l'(2) this, of 8] show ?thesis
    unfolding find_modifiers_def l'(1) Let_def per_def [symmetric] using True by (simp add: p del: upt_Suc)
next
  case False
  then show ?thesis using press_keys_rep [OF ml_rep_empty, of K "xkb_new K" "[lo..<Suc hi]"] by (simp add: find_modifiers_def Let_def del: upt_Suc)
qed

end
