(* ===== verification/XorgKeyProps.thy ===== *)
theory XorgKeyProps
  imports XorgProps
begin

text \<open>
  What key bindings do: the events they are told of, the references and grabs they keep, and which
  modifiers a released key takes from its event.
\<close>

section \<open>Modifiers of a keycode\<close>

lemma bit_keycode_mods:
  "bit (keycode_mods per i kc xs) n \<longleftrightarrow> n < 16 \<and> kc \<noteq> 0 \<and> (\<exists>j < length xs. xs ! j = kc \<and> (i + j) div per = n)"
proof (induction xs arbitrary: i)
  case (Cons x xs)
  have "(\<exists>j < length (x # xs). (x # xs) ! j = kc \<and> (i + j) div per = n) \<longleftrightarrow>
      x = kc \<and> i div per = n \<or> (\<exists>j < length xs. xs ! j = kc \<and> (Suc i + j) div per = n)"
    by (auto simp: less_Suc_eq_0_disj)
  moreover have "bit (push_bit m 1 :: 16 word) n \<longleftrightarrow> n < 16 \<and> m = n" for m
    by (auto simp: push_bit_of_1 bit_exp_iff)
  ultimately show ?case unfolding keycode_mods.simps bit_or_iff Cons.IH by auto
qed simp

lemma set_take_drop: "m + n \<le> length xs \<Longrightarrow> set (take n (drop m xs)) = (\<lambda>i. xs ! (m + i)) ` {0..<n}"
proof -
  assume "m + n \<le> length xs"
  then have "take n (drop m xs) = map (\<lambda>i. xs ! (m + i)) [0..<n]" by (intro nth_equalityI) auto
  then show ?thesis by simp
qed

text \<open>
  Only the first two modifiers are recognised.  The mapping of the server has eight rows of
  \<open>keycodes_per_modifier\<close> keycodes, one row per modifier, and the length of the reply is counted in units of
  four bytes, so it is twice the length of a row.  \<open>mod_from_keycode\<close> takes that for the number of keycodes:
  the releasing of a key strips the modifiers shift and lock from the state, and no other modifier.
\<close>

theorem mod_from_keycode_first_two:
  assumes "xs_modifier_mapping X = Some r" "mm_keycodes_per_modifier r = per" "0 < per"
    "length (mm_keycodes r) = 8 * per" "mm_length r = 2 * per"
  shows "bit (mod_from_keycode X kc) n \<longleftrightarrow> n < 2 \<and> kc \<noteq> 0 \<and> kc \<in> set (take per (drop (n * per) (mm_keycodes r)))"
proof -
  let ?ks = "mm_keycodes r"
  have "bit (mod_from_keycode X kc) n \<longleftrightarrow> n < 16 \<and> kc \<noteq> 0 \<and> (\<exists>j < 2 * per. ?ks ! j = kc \<and> j div per = n)"
    using assms by (auto simp: mod_from_keycode_def bit_keycode_mods)
  also have "\<dots> \<longleftrightarrow> n < 2 \<and> kc \<noteq> 0 \<and> (\<exists>i < per. ?ks ! (n * per + i) = kc)"
  proof (intro iffI; elim conjE exE)
    fix j assume j: "j < 2 * per" "?ks ! j = kc" "j div per = n" "kc \<noteq> 0"
    have "n < 2" using j less_mult_imp_div_less [of j 2 per] by simp
    moreover have "n * per + j mod per = j" "j mod per < per" using j assms(3) by auto
    ultimately show "n < 2 \<and> kc \<noteq> 0 \<and> (\<exists>i < per. ?ks ! (n * per + i) = kc)" using j by metis
  next
    fix i assume i: "n < 2" "kc \<noteq> 0" "i < per" "?ks ! (n * per + i) = kc"
    have "n * per + i < 2 * per" using i by (auto simp: less_2_cases_iff)
    moreover have "(n * per + i) div per = n" using i by simp
    ultimately show "n < 16 \<and> kc \<noteq> 0 \<and> (\<exists>j < 2 * per. ?ks ! j = kc \<and> j div per = n)" using i by auto
  qed
  also have "n < 2 \<and> kc \<noteq> 0 \<and> (\<exists>i < per. ?ks ! (n * per + i) = kc) \<longleftrightarrow>
      n < 2 \<and> kc \<noteq> 0 \<and> kc \<in> set (take per (drop (n * per) ?ks))"
  proof (cases "n < 2")
    case True
    then have "n * per + per \<le> 2 * per" by (auto simp: less_2_cases_iff)
    then show ?thesis using assms set_take_drop [of "n * per" per ?ks] by auto
  qed simp
  finally show ?thesis .
qed

text \<open>Two keys for every modifier: 50 and 62 are shift, 37 and 105 control.\<close>

definition pc_server :: xserver where
  "pc_server = \<lparr>xs_fn = \<lambda>_. 1, xs_prep_cif = \<lambda>_ _. True, xs_log_level = 2, xs_hex = \<lambda>_. ''0x1'', xs_keysym_from_name = \<lambda>_. 1,
     xs_keysym_name = \<lambda>_. Some ''a'', xs_keycodes = \<lambda>ks. if ks = 1 then Some [38] else None, xs_grab_granted = \<lambda>_ _. True,
     xs_modifier_mapping = Some \<lparr>mm_keycodes_per_modifier = 2, mm_length = 4,
       mm_keycodes = [50, 62, 66, 0, 37, 105, 64, 108, 77, 0, 0, 0, 133, 134, 0, 0]\<rparr>,
     xs_intern_atom = \<lambda>s. Some (of_nat (length s)), xs_atom_name = \<lambda>a. None\<rparr>"

theorem mod_from_keycode_first_two_witness:
  "bit (mod_from_keycode pc_server 62) 0 \<and> \<not> bit (mod_from_keycode pc_server 37) 2"
  using mod_from_keycode_first_two [of pc_server _ 2 62 0] mod_from_keycode_first_two [of pc_server _ 2 37 2]
  by (simp add: pc_server_def)

section \<open>Key events\<close>

lemma get_kb_same [simp]: "get_kb p (bump s k w) = get_kb p w" "get_kb p (with_log ls w) = get_kb p w"
  by (auto simp: get_kb_def get_obj_def heap_bump bump_object_def split: option.splits)

lemma get_ext_same [simp]: "get_ext p (bump s k w) = get_ext p w" "get_ext p (with_log ls w) = get_ext p w"
  by (auto simp: get_ext_def get_obj_def heap_bump bump_object_def split: option.splits)

lemma get_bindings_same [simp]: "get_bindings p (bump s k w) = get_bindings p w" "get_bindings p (with_log ls w) = get_bindings p w"
  by (simp_all add: get_bindings_def)

lemma fold_refs:
  "\<forall>p \<in> set ps. heap w p \<noteq> None \<Longrightarrow> fold_res di_ref_object ps w = Ret (bump (count_list ps) (\<lambda>_. 0) w)"
proof (induction ps arbitrary: w)
  case Nil
  have "count_list [] = (\<lambda>_. 0)" by (simp add: fun_eq_iff)
  then show ?case by simp
next
  case (Cons p ps)
  then obtain x where x: "heap w p = Some x" by auto
  have "fold_res di_ref_object ps (bump (one_at p) (\<lambda>_. 0) w) = Ret (bump (count_list ps) (\<lambda>_. 0) (bump (one_at p) (\<lambda>_. 0) w))"
    using Cons by (intro Cons.IH) (auto simp: heap_bump)
  moreover have "(\<lambda>a. count_list ps a + one_at p a) = count_list (p # ps)" by auto
  ultimately show ?case using x by (simp add: di_ref_object_bump bump_bump del: count_list.simps)
qed

text \<open>
  \<open>kb_hits b kc mods bs\<close>: the bindings an event is for; \<open>kb_others b mods bs\<close>: those with other modifiers.
\<close>

definition kb_hits :: "(oref \<Rightarrow> keybinding) \<Rightarrow> 8 word \<Rightarrow> 16 word \<Rightarrow> oref list \<Rightarrow> oref list" where
  "kb_hits b kc mods bs = filter (\<lambda>p. kb_modifiers (b p) = mods \<and> (\<exists>kcs. kb_keycodes (b p) = Some kcs \<and> kc \<in> set kcs)) bs"

definition kb_others :: "(oref \<Rightarrow> keybinding) \<Rightarrow> 16 word \<Rightarrow> oref list \<Rightarrow> oref list" where
  "kb_others b mods bs = filter (\<lambda>p. kb_modifiers (b p) \<noteq> mods) bs"

definition last_replay :: "(oref \<Rightarrow> keybinding) \<Rightarrow> bool \<Rightarrow> oref list \<Rightarrow> bool" where
  "last_replay b r hits = (if hits = [] then r else kb_replay (b (last hits)))"

text \<open>
  \<open>event_answers U C event ev bs w\<close>: emitting the event on a binding returns, having written the lines \<open>ev\<close> to the
  log, also while references to the bindings are held.
\<close>

definition event_answers :: "drop_fn \<Rightarrow> call_obj \<Rightarrow> string \<Rightarrow> (oref \<Rightarrow> string list) \<Rightarrow> oref list \<Rightarrow> world \<Rightarrow> bool" where
  "event_answers U C event ev bs w \<longleftrightarrow> (\<forall>p \<in> set bs. \<forall>s ls. (\<forall>a. s a \<le> count_list bs a) \<longrightarrow>
     (\<exists>r. di_emitn U C p event [] (bump s (\<lambda>_. 0) (with_log ls w)) = Ret (r, with_log (ev p) (bump s (\<lambda>_. 0) (with_log ls w)))))"

lemma event_answersD:
  assumes "event_answers U C event ev bs w" "p \<in> set bs" "\<And>a. s a \<le> count_list bs a"
  shows "\<exists>r. di_emitn U C p event [] (bump s (\<lambda>_. 0) (with_log ls w)) = Ret (r, with_log (ev p) (bump s (\<lambda>_. 0) (with_log ls w)))"
  using assms unfolding event_answers_def by blast

text \<open>The visit of a binding that has the modifiers of the event.\<close>

lemma key_loop_match:
  assumes bs: "get_bindings k w = Ret bs" "set kbs \<subseteq> set bs" and gp: "p \<in> set bs" "get_kb p w = Ret b"
    and b: "kb_modifiers b = mods" "kb_keycodes b = Some kcs"
    and ev: "event_answers U C event ev bs w" and U: "U = di_unref_object E (Suc n)"
    and s: "\<And>a. one_at p a + s a \<le> count_list bs a" and room: "has_room (\<lambda>a. one_at p a + s a) (\<lambda>_. 0) w"
  shows "key_loop U C k event kc mods (p # kbs) r (bump (\<lambda>a. one_at p a + s a) (\<lambda>_. 0) (with_log ls w)) =
    key_loop U C k event kc mods kbs (if kc \<in> set kcs then kb_replay b else r)
      (bump s (\<lambda>_. 0) (with_log ((if kc \<in> set kcs then ev p else []) @ ls) w))"
proof -
  let ?ls = "(if kc \<in> set kcs then ev p else []) @ ls" and ?w = "bump (\<lambda>a. one_at p a + s a) (\<lambda>_. 0) (with_log ls w)"
  obtain q where q: "di_emitn U C p event [] ?w = Ret (q, with_log (ev p) ?w)"
    using event_answersD [OF ev gp(1), of "\<lambda>a. one_at p a + s a" ls] s by blast
  have split: "bump (\<lambda>a. one_at p a + s a) (\<lambda>_. 0) v = bump (one_at p) (\<lambda>_. 0) (bump s (\<lambda>_. 0) v)" for v
    by (simp add: bump_bump)
  have emit: "(if kc \<in> set kcs then bind_res (di_emitn U C p event [] ?w) (\<lambda>(_, w1). Ret w1) else Ret ?w) =
      Ret (bump (one_at p) (\<lambda>_. 0) (bump s (\<lambda>_. 0) (with_log ?ls w)))"
    unfolding q by (simp add: split bump_with_log)
  have "has_room (one_at p) (\<lambda>_. 0) (bump s (\<lambda>_. 0) (with_log ?ls w))"
    using has_room_split(2) [of "one_at p" s "\<lambda>_. 0" "\<lambda>_. 0" "with_log ?ls w"] room by simp
  then have u: "U p (bump (one_at p) (\<lambda>_. 0) (bump s (\<lambda>_. 0) (with_log ?ls w))) = Ret (bump s (\<lambda>_. 0) (with_log ?ls w))"
    unfolding U by (rule unref_bump')
  have "filter (\<lambda>q. q \<in> set bs) kbs = kbs" "kbs \<noteq> [] \<longrightarrow> hd kbs \<in> set bs" using bs(2) by (auto intro: filter_True)
  then show ?thesis using gp(2) b emit u bs(1) by (subst key_loop.simps) auto
qed

lemma key_loop_run:
  assumes bs: "get_bindings k w = Ret bs"
    and b: "\<And>p. p \<in> set bs \<Longrightarrow> get_kb p w = Ret (b p) \<and> kb_keycodes (b p) \<noteq> None"
    and ev: "event_answers U C event ev bs w" and U: "U = di_unref_object E (Suc n)"
  shows "set kbs \<subseteq> set bs \<Longrightarrow> (\<And>a. t a + count_list kbs a \<le> count_list bs a) \<Longrightarrow> has_room (\<lambda>a. t a + count_list kbs a) (\<lambda>_. 0) w \<Longrightarrow>
    key_loop U C k event kc mods kbs r (bump (\<lambda>a. t a + count_list kbs a) (\<lambda>_. 0) (with_log ls w)) =
      Ret (last_replay b r (kb_hits b kc mods kbs),
        bump (\<lambda>a. t a + count_list (kb_others b mods kbs) a) (\<lambda>_. 0) (with_log (concat (rev (map ev (kb_hits b kc mods kbs))) @ ls) w))"
proof (induction kbs arbitrary: t r ls)
  case Nil
  then show ?case by (simp add: last_replay_def kb_hits_def kb_others_def)
next
  case (Cons p kbs)
  have p: "p \<in> set bs" using Cons.prems(1) by simp
  obtain kcs where kcs: "kb_keycodes (b p) = Some kcs" and gp: "get_kb p w = Ret (b p)" using b [OF p] by blast
  show ?case
  proof (cases "kb_modifiers (b p) = mods")
    case False
    have eq: "(\<lambda>a. t a + count_list (p # kbs) a) = (\<lambda>a. (t a + one_at p a) + count_list kbs a)" by auto
    have le: "t a + one_at p a + count_list kbs a \<le> count_list bs a" for a using Cons.prems(2) [of a] by (simp split: if_splits)
    from Cons.IH [OF _ le, of r ls] False gp Cons.prems(1,3) show ?thesis
      by (simp add: eq kb_hits_def kb_others_def count_list_fun add.assoc del: count_list.simps)
  next
    case True
    let ?t = "\<lambda>a. t a + count_list kbs a"
    have eq: "(\<lambda>a. t a + count_list (p # kbs) a) = (\<lambda>a. one_at p a + ?t a)" by auto
    have le: "one_at p a + ?t a \<le> count_list bs a" for a using Cons.prems(2) [of a] by (simp split: if_splits)
    have room: "has_room (\<lambda>a. one_at p a + ?t a) (\<lambda>_. 0) w" using Cons.prems(3) unfolding eq .
    then have room': "has_room ?t (\<lambda>_. 0) w"
      using has_room_split(1) [of ?t "one_at p" "\<lambda>_. 0" "\<lambda>_. 0" w] by (simp add: add.commute)
    have le': "?t a \<le> count_list bs a" for a using le [of a] by simp
    have sub: "set kbs \<subseteq> set bs" using Cons.prems(1) by simp
    have "kb_others b mods (p # kbs) = kb_others b mods kbs" using True by (simp add: kb_others_def)
    moreover have "kb_hits b kc mods (p # kbs) = (if kc \<in> set kcs then [p] else []) @ kb_hits b kc mods kbs"
      using True kcs by (simp add: kb_hits_def)
    ultimately show ?thesis
      unfolding eq key_loop_match [OF bs sub p gp True kcs ev U le room] Cons.IH [OF sub le' room'] by (simp add: last_replay_def)
  qed
qed

text \<open>
  C39. A key press or release reaches every binding it is for, and leaks one reference of every binding it is
  not for.  The bindings with the modifiers of the event and its keycode get the event, in the order of the
  list; the last of them decides whether the server replays the key, which it does when there is none.
  The references taken before are given back for the bindings with the modifiers of the event only: one is
  lost of each of the others, which from then on is never destroyed by dropping references.
\<close>

theorem key_event_leaks_others:
  assumes bs: "get_bindings k w = Ret bs" and e: "get_ext k w = Ret e" "xe_dc e = Some dc"
    and b: "\<And>p. p \<in> set bs \<Longrightarrow> get_kb p w = Ret (b p) \<and> kb_keycodes (b p) \<noteq> None"
    and ev: "event_answers U C event ev bs w" and U: "U = di_unref_object E (Suc n)"
    and room: "has_room (count_list bs) (\<lambda>_. 0) w"
  shows "key_event_loop U C k event kc mods w =
    xcb_send dc [if last_replay b True (kb_hits b kc mods bs) then Allow_replay else Allow_sync]
      (bump (count_list (kb_others b mods bs)) (\<lambda>_. 0) (with_log (concat (rev (map ev (kb_hits b kc mods bs)))) w))"
proof -
  have "heap w p \<noteq> None" if "p \<in> set bs" for p using has_roomD(1) [OF room, of p] that by (metis count_list_0_iff neq0_conv option.distinct(1))
  then have "fold_res di_ref_object bs w = Ret (bump (count_list bs) (\<lambda>_. 0) w)" by (intro fold_refs) blast
  moreover have "key_loop U C k event kc mods bs True (bump (count_list bs) (\<lambda>_. 0) w) =
      Ret (last_replay b True (kb_hits b kc mods bs),
        bump (count_list (kb_others b mods bs)) (\<lambda>_. 0) (with_log (concat (rev (map ev (kb_hits b kc mods bs)))) w))"
    using key_loop_run [OF bs b ev U, where t = "\<lambda>_. 0" and ls = "[]"] room by simp
  ultimately show ?thesis using bs e by (simp add: key_event_loop_def)
qed

text \<open>A connection at address 2, its key extension at 1 and two bindings, for a key alone and with control.\<close>

definition binding_for :: "16 word \<Rightarrow> keybinding" where
  "binding_for m = \<lparr>kb_keysym = 1, kb_keycodes = Some [38], kb_modifiers = m, kb_k = Some 1, kb_replay = False\<rparr>"

definition key_world :: world where
  "key_world = \<lparr>heap = [1 \<mapsto> empty_object\<lparr>payload := PXorgExt \<lparr>xe_dc = Some 2, xe_extname = ''key'', xe_opcode = 0, xe_kind = Key [3, 4]\<rparr>, ref_count := 3\<rparr>,
       2 \<mapsto> empty_object\<lparr>payload := PXorgConnection \<lparr>xc_x = Some 5, xc_c = True, xc_xext = [(''key'', 1)], xc_atoms = [], xc_reqs = []\<rparr>\<rparr>,
       3 \<mapsto> empty_object\<lparr>payload := PKeybinding (binding_for 0)\<rparr>, 4 \<mapsto> empty_object\<lparr>payload := PKeybinding (binding_for 4)\<rparr>],
     sigs = Map.empty, next_addr = 10, all_objects = [4, 3, 2, 1], log_lines = []\<rparr>"

lemma key_world_ext: "get_ext 1 key_world = Ret \<lparr>xe_dc = Some 2, xe_extname = ''key'', xe_opcode = 0, xe_kind = Key [3, 4]\<rparr>"
  by (simp add: get_ext_def get_obj_def key_world_def)

lemma key_world_bindings: "get_bindings 1 key_world = Ret [3, 4]"
  using key_world_ext by (simp add: get_bindings_def)

lemma no_listeners_answer:
  assumes "\<And>p. p \<in> set bs \<Longrightarrow> \<exists>x. heap w p = Some x \<and> hash_find event (signals x) = None"
  shows "event_answers U C event (\<lambda>_. []) bs w"
  unfolding event_answers_def
proof (intro ballI allI impI)
  fix p s ls assume "p \<in> set bs"
  then obtain x where "heap w p = Some x" "hash_find event (signals x) = None" using assms by blast
  then show "\<exists>r. di_emitn U C p event [] (bump s (\<lambda>_. 0) (with_log ls w)) = Ret (r, with_log [] (bump s (\<lambda>_. 0) (with_log ls w)))"
    by (simp add: di_emitn_def get_obj_def heap_bump bump_object_def)
qed

theorem key_event_leaks_others_witness:
  "key_event_loop drop_ref call_ref 1 ''pressed'' 38 0 key_world = xcb_send 2 [Allow_sync] (bump (one_at 4) (\<lambda>_. 0) key_world)"
proof -
  let ?b = "\<lambda>p. if p = 3 then binding_for 0 else binding_for 4"
  have b: "get_kb p key_world = Ret (?b p) \<and> kb_keycodes (?b p) \<noteq> None" if "p \<in> set [3, 4]" for p
    using that by (auto simp: get_kb_def get_obj_def key_world_def binding_for_def)
  have ev: "event_answers drop_ref call_ref ''pressed'' (\<lambda>_. []) [3, 4] key_world"
    by (rule no_listeners_answer) (auto simp: key_world_def empty_object_def)
  have room: "has_room (count_list [3, 4]) (\<lambda>_. 0) key_world"
    by (auto simp: has_room_def key_world_def empty_object_def)
  have U: "drop_ref = di_unref_object plain_ext (Suc 0)" by (simp add: drop_ref_def)
  have c: "count_list [4] = one_at (4 :: nat)" by auto
  show ?thesis
    using key_event_leaks_others [OF key_world_bindings key_world_ext _ b ev U room, of 2 38 0]
    by (simp add: kb_hits_def kb_others_def last_replay_def binding_for_def c del: count_list.simps)
qed

section \<open>Keys that are not on the keyboard\<close>

lemma get_ext_Ret: "get_ext p w = Ret e \<longleftrightarrow> (\<exists>x. heap w p = Some x \<and> payload x = PXorgExt e)"
  by (auto simp: get_ext_def get_obj_def split: option.splits payload.splits)

lemma get_bindings_Ret: "get_bindings k w = Ret bs \<longleftrightarrow> (\<exists>e. get_ext k w = Ret e \<and> xe_kind e = Key bs)"
  by (cases "get_ext k w") (auto simp: get_bindings_def split: xext_kind.splits)

text \<open>\<open>runs_binding_dtor X E\<close>: the environment runs the destructor of bindings.\<close>

definition runs_binding_dtor :: "xserver \<Rightarrow> ext \<Rightarrow> bool" where
  "runs_binding_dtor X E \<longleftrightarrow> (\<forall>U C p w. ext_dtor E U C (xs_fn X ''binding_dtor'') p w = binding_dtor U p w)"

text \<open>The last reference to a binding without keycodes cannot be dropped while there is a connection.\<close>

lemma drop_binding_faults:
  assumes E: "runs_binding_dtor X E" and x: "heap w p = Some x" "payload x = PKeybinding b" "dtor x = Some (Dtor_ext (xs_fn X ''binding_dtor''))"
    "ref_count x = 1" "\<not> destroyed x"
    and b: "kb_keycodes b = None" "kb_k b = Some k" and k: "get_ext k w = Ret e" "xe_dc e = Some dc"
  shows "di_unref_object E (Suc n) p w = Fault Null_Deref"
proof -
  obtain y where y: "heap w k = Some y" "payload y = PXorgExt e" using k(1) by (auto simp: get_ext_Ret)
  have "p \<noteq> k" using x y by auto
  with E x b k(2) y show ?thesis
    by (simp add: unref_step_def get_obj_def put_obj_def Let_def di_destroy_object_def di_ref_object_def finalize_object_impl_def
        run_dtor_def runs_binding_dtor_def binding_dtor_def get_kb_def ungrab_def get_ext_def)
qed

lemma bind_object_run:
  assumes "get_bindings k w = Ret bs" "heap w (next_addr w) = None"
  shows "\<exists>x y e w1. bind_object X k ks mods replay w = Ret (next_addr w, w1) \<and> heap w1 (next_addr w) = Some x \<and>
    payload x = PKeybinding \<lparr>kb_keysym = ks, kb_keycodes = None, kb_modifiers = mods, kb_k = Some k, kb_replay = replay\<rparr> \<and>
    dtor x = Some (Dtor_ext (xs_fn X ''binding_dtor'')) \<and> ref_count x = 1 \<and> \<not> destroyed x \<and>
    get_ext k w = Ret e \<and> get_ext k w1 = Ret (e\<lparr>xe_kind := Key (next_addr w # bs)\<rparr>)"
proof -
  obtain e where e: "get_ext k w = Ret e" "xe_kind e = Key bs" using assms(1) by (auto simp: get_bindings_Ret)
  then obtain y where y: "heap w k = Some y" "payload y = PXorgExt e" by (auto simp: get_ext_Ret)
  have "k \<noteq> next_addr w" using y assms(2) by auto
  with e y show ?thesis
    by (simp add: bind_object_def alloc_object_def Let_def put_payload_def get_obj_def put_obj_def di_set_object_dtor_def di_ref_object_def
        get_bindings_def get_ext_def set_bindings_def empty_object_def)
qed

text \<open>
  Binding a key that the keyboard does not have crashes.  The name of the key and the modifiers are valid,
  but no keycode has the symbol: \<open>new_binding\<close> is about to report that the key cannot be grabbed and drops the
  binding, whose destructor walks the list of keycodes that was never set.
\<close>

theorem new_binding_no_keycode_faults:
  assumes E: "runs_binding_dtor X E" and k: "get_bindings k w = Ret bs" "get_ext k w = Ret e" "xe_dc e = Some dc"
    and fresh: "heap w (next_addr w) = None"
    and ks: "xs_keysym_from_name X (cstr (di_string_bytes key)) = ks" "ks \<noteq> 0" "xs_keycodes X ks = None"
    and mods: "elem_type = DI_TYPE_STRING" "modifiers_of modifiers \<noteq> None"
  shows "new_binding X (di_unref_object E (Suc n)) C k elem_type modifiers key replay w = Fault Null_Deref"
proof -
  obtain m where m: "modifiers_of modifiers = Some m" using mods(2) by blast
  let ?p = "next_addr w" and ?b = "\<lparr>kb_keysym = ks, kb_keycodes = None, kb_modifiers = m, kb_k = Some k, kb_replay = replay\<rparr>"
  obtain x w1 where x: "bind_object X k ks m replay w = Ret (?p, w1)" "heap w1 ?p = Some x" "payload x = PKeybinding ?b"
    "dtor x = Some (Dtor_ext (xs_fn X ''binding_dtor''))" "ref_count x = 1" "\<not> destroyed x"
    "get_ext k w1 = Ret (e\<lparr>xe_kind := Key (?p # bs)\<rparr>)"
    using bind_object_run [OF k(1) fresh, of X ks m replay] k(2) by auto
  have "put_obj ?p (x\<lparr>payload := PKeybinding ?b\<rparr>) w1 = w1" using x(2,3) by (simp add: put_obj_def fun_upd_idem)
  then have "refresh_binding X (di_unref_object E (Suc n)) C ?p w1 = Ret (False, w1)"
    using x ks by (simp add: refresh_binding_def get_kb_def get_obj_def put_payload_def)
  moreover have "di_unref_object E (Suc n) ?p w1 = Fault Null_Deref"
    by (rule drop_binding_faults [OF E x(2-6) _ _ x(7)]) (use k(3) in simp_all)
  ultimately show ?thesis using k ks mods m x(1) by (simp add: new_binding_def Let_def del: di_unref_object.simps)
qed

definition xorg_ext :: ext where
  "xorg_ext = plain_ext\<lparr>ext_dtor := \<lambda>U C n p w. binding_dtor U p w\<rparr>"

definition no_such_key :: xserver where
  "no_such_key = pc_server\<lparr>xs_keysym_from_name := \<lambda>_. 7\<rparr>"

theorem new_binding_no_keycode_faults_witness:
  "new_binding no_such_key (di_unref_object xorg_ext (Suc 4)) call_ref 1 DI_TYPE_STRING [Some ''ctrl''] (Some ''XF86Launch9'') False key_world = Fault Null_Deref"
  by (rule new_binding_no_keycode_faults [OF _ key_world_bindings key_world_ext, where ks = 7 and dc = 2])
    (simp_all add: runs_binding_dtor_def xorg_ext_def key_world_def no_such_key_def pc_server_def
      name_to_mod_def modifier_names_def)

end
