(* ===== verification/XorgLog.thy ===== *)
theory XorgLog
  imports XorgKeyProps
begin

text \<open>
  Reaching another module from a connection: \<open>di_mgetm\<close> goes over the weak reference of the module to the
  core and gives back every reference but the one to the module it returns.
\<close>

definition log_module :: "oref \<Rightarrow> oref \<Rightarrow> oref \<Rightarrow> world \<Rightarrow> bool" where
  "log_module m d l w \<longleftrightarrow> member_map m w ''__deai'' = Some (VWeak d) \<and> member_map d w ''log'' = Some (VObject l) \<and>
     has_room (\<lambda>a. one_at d a + one_at l a) (one_at d) w"

lemma getxt_weak_member:
  assumes "member_map p w n = Some (VWeak d)" "heap w d = Some y"
  shows "di_getxt U C p (Some n) DI_TYPE_WEAK_OBJECT w = Ret (Inr (VWeak d), bump (\<lambda>_. 0) (one_at d) w)"
  using assms di_weakly_ref_object_bump [OF assms(2)]
  by (auto simp: di_getxt_def gen_tfunc_def di_getx_def di_rawgetx_def di_lookup_def get_obj_def member_map_def
      di_type_conversion.simps split: option.splits)

lemma get_deai_run:
  assumes m: "member_map m w ''__deai'' = Some (VWeak d)" and room: "has_room (one_at d) (one_at d) w"
  shows "di_module_get_deai U C m w = Ret (Some d, bump (one_at d) (\<lambda>_. 0) w)"
proof -
  obtain y where y: "heap w d = Some y" "ref_count y \<noteq> 0" using has_roomD(1) [OF room, of d] by auto
  have get: "get_weak_deai U C m w = Ret (Some d, bump (\<lambda>_. 0) (one_at d) w)"
    by (simp add: get_weak_deai_def getxt_weak_member [OF m y(1)])
  have up: "di_upgrade_weak_ref d (bump (\<lambda>_. 0) (one_at d) w) = Ret (Some d, bump (one_at d) (\<lambda>_. 0) (bump (\<lambda>_. 0) (one_at d) w))"
    using y by (simp add: di_upgrade_weak_ref_def get_obj_def heap_bump bump_object_def word_gt_0 di_ref_object_bump)
  have "has_room (\<lambda>_. 0) (one_at d) (bump (one_at d) (\<lambda>_. 0) w)"
    using has_room_split(2) [of "\<lambda>_. 0" "one_at d" "one_at d" "\<lambda>_. 0" w] room by simp
  then have "di_drop_weak_ref d (bump (one_at d) (\<lambda>_. 0) (bump (\<lambda>_. 0) (one_at d) w)) = Ret (bump (one_at d) (\<lambda>_. 0) w)"
    using drop_weak_bump' [of d "bump (one_at d) (\<lambda>_. 0) w"] by (simp add: bump_bump)
  with get up show ?thesis by (simp add: di_module_get_deai_def di_object_get_deai_weak_def)
qed

lemma mgetm_log:
  assumes l: "log_module m d l w" and U: "U = di_unref_object E (Suc n)"
  shows "di_mgetm U C m ''log'' w = Ret (Some l, bump (one_at l) (\<lambda>_. 0) w)"
proof -
  have r: "has_room (\<lambda>a. one_at d a + one_at l a) (one_at d) w" using l by (simp add: log_module_def)
  have "has_room (one_at d) (one_at d) w" using has_room_split(1) [of "one_at d" "one_at l" "one_at d" "\<lambda>_. 0" w] r by simp
  then have g: "di_module_get_deai U C m w = Ret (Some d, bump (one_at d) (\<lambda>_. 0) w)"
    using l by (intro get_deai_run) (simp_all add: log_module_def)
  obtain x where x: "heap w l = Some x" using has_roomD(1) [OF r, of l] by auto
  have "di_getxt U C d (Some ''log'') DI_TYPE_OBJECT (bump (one_at d) (\<lambda>_. 0) w) =
      Ret (Inr (VObject l), bump (one_at l) (\<lambda>_. 0) (bump (one_at d) (\<lambda>_. 0) w))"
    using l by (intro getxt_object_member) (simp_all add: log_module_def heap_bump x)
  moreover have "has_room (one_at d) (\<lambda>_. 0) (bump (one_at l) (\<lambda>_. 0) w)"
    using has_room_split(2) [of "one_at d" "one_at l" "\<lambda>_. 0" "\<lambda>_. 0" w]
      has_room_split(1) [of "\<lambda>a. one_at d a + one_at l a" "\<lambda>_. 0" "\<lambda>_. 0" "one_at d" w] r by simp
  then have "U d (bump (one_at l) (\<lambda>_. 0) (bump (one_at d) (\<lambda>_. 0) w)) = Ret (bump (one_at l) (\<lambda>_. 0) w)"
    unfolding U using unref_bump' [of d "bump (one_at l) (\<lambda>_. 0) w"] by (simp add: bump_bump add.commute del: di_unref_object.simps)
  ultimately show ?thesis by (simp add: di_mgetm_def g)
qed

lemma drop_log:
  assumes "log_module m d l w" "U = di_unref_object E (Suc n)"
  shows "U l (bump (one_at l) (\<lambda>_. 0) (with_log ls w)) = Ret (with_log ls w)"
proof -
  have "has_room (one_at l) (\<lambda>_. 0) (with_log ls w)"
    using has_room_split(1) [of "one_at l" "one_at d" "\<lambda>_. 0" "one_at d" w] assms(1) by (simp add: log_module_def add.commute)
  then show ?thesis unfolding assms(2) by (rule unref_bump')
qed

definition logged :: "int \<Rightarrow> xserver \<Rightarrow> string option \<Rightarrow> string list" where
  "logged lvl X t = (case t of None \<Rightarrow> [] | Some s \<Rightarrow> if xs_log_level X < lvl then [] else [s])"

lemma di_log_va_run: "snd (di_log_va (xs_log_level X) lvl t w) = with_log (logged lvl X (Some t)) w"
  by (simp add: di_log_va_def logged_def)

lemma xorg_log_at_run:
  assumes v: "get_xc dc w = Ret v" "xc_x v = Some m" and l: "log_module m d l w" and U: "U = di_unref_object E (Suc n)"
  shows "xorg_log_at lvl guarded X U C dc (map_option Ret t) w = Ret (with_log (logged lvl X t) w)"
  using v mgetm_log [OF l U] drop_log [OF l U, of "[]"] drop_log [OF l U, of "logged lvl X t"]
  by (cases t) (simp_all add: xorg_log_at_def di_log_va_run bump_with_log logged_def)

lemmas xorg_log_run = xorg_log_at_run [where lvl = 0 and guarded = True, folded xorg_log_def]

lemma log_module_same [simp]: "log_module m d l (with_log ls w) = log_module m d l w"
  by (simp add: log_module_def)

lemma payload_keeps:
  assumes "put_payload p pl w = Ret w'"
  shows "member_map q w' = member_map q w" "has_room s k w \<Longrightarrow> has_room s k w'"
proof -
  obtain x where x: "heap w p = Some x" "w' = put_obj p (x\<lparr>payload := pl\<rparr>) w"
    using assms by (auto simp: put_payload_def get_obj_def split: option.splits)
  then show "member_map q w' = member_map q w" by (auto simp: member_map_def put_obj_def)
  have "(\<exists>y. heap w' q = Some y \<and> ref_count y \<noteq> 0 \<and> unat (ref_count y) + n < 2 ^ 64) \<longleftrightarrow>
      (\<exists>y. heap w q = Some y \<and> ref_count y \<noteq> 0 \<and> unat (ref_count y) + n < 2 ^ 64)"
    "(\<exists>y. heap w' q = Some y \<and> weak_ref_count y \<noteq> 0 \<and> unat (weak_ref_count y) + n < 2 ^ 64) \<longleftrightarrow>
      (\<exists>y. heap w q = Some y \<and> weak_ref_count y \<noteq> 0 \<and> unat (weak_ref_count y) + n < 2 ^ 64)" for q n
    using x by (auto simp: put_obj_def)
  then show "has_room s k w \<Longrightarrow> has_room s k w'" by (simp only: has_room_def)
qed

lemma put_payload_bump:
  assumes "put_payload p pl w = Ret w'"
  shows "put_payload p pl (bump s k w) = Ret (bump s k w')"
proof -
  obtain x where x: "heap w p = Some x" "w' = put_obj p (x\<lparr>payload := pl\<rparr>) w"
    using assms by (auto simp: put_payload_def get_obj_def split: option.splits)
  have "(heap (bump s k w))(p \<mapsto> (bump_object (s p) (k p) x)\<lparr>payload := pl\<rparr>) = heap (bump s k w')"
    using x by (auto simp: fun_eq_iff heap_bump bump_object_def put_obj_def)
  with x show ?thesis by (simp add: put_payload_def get_obj_def heap_bump) (simp add: put_obj_def bump_def)
qed

lemma log_module_payload: "log_module m d l w \<Longrightarrow> put_payload p pl w = Ret w' \<Longrightarrow> log_module m d l w'"
  using payload_keeps by (auto simp: log_module_def)

lemma get_xc_same [simp]: "get_xc p (bump s k w) = get_xc p w" "get_xc p (with_log ls w) = get_xc p w"
  by (auto simp: get_xc_def get_obj_def heap_bump bump_object_def split: option.splits)

lemma get_xc_Ret: "get_xc p w = Ret v \<longleftrightarrow> (\<exists>x. heap w p = Some x \<and> payload x = PXorgConnection v)"
  by (auto simp: get_xc_def get_obj_def split: option.splits payload.splits)

lemma put_xc:
  assumes "get_xc p w = Ret v"
  shows "\<exists>w'. put_payload p (PXorgConnection v') w = Ret w' \<and> get_xc p w' = Ret v' \<and>
    (\<forall>q. get_ext q w' = get_ext q w \<and> get_kb q w' = get_kb q w \<and> get_device q w' = get_device q w)"
  using assms by (auto simp: get_xc_Ret put_payload_def get_obj_def put_obj_def get_ext_def get_kb_def get_device_def)

lemma put_ext:
  assumes "get_ext p w = Ret e"
  shows "\<exists>w'. put_payload p (PXorgExt e') w = Ret w' \<and> get_ext p w' = Ret e' \<and> (\<forall>q. get_xc q w' = get_xc q w)"
  using assms by (auto simp: get_ext_Ret put_payload_def get_obj_def put_obj_def get_xc_def)

end
