(* ===== verification/XorgInputProps.thy ===== *)
theory XorgInputProps
  imports XorgLog Simulation
begin

text \<open>
  What the extensions keep in step with the X server: the cache of atoms, the properties of input devices,
  the events that are selected, and what is left when an extension object goes away.
\<close>

section \<open>Atoms\<close>

text \<open>
  \<open>atom_server X\<close>: for the server an atom and its name stand for each other.  \<open>connected X xc m d l w\<close>: the
  connection is open, can reach the log module, and its cache has pairs of the server.
\<close>

definition atom_server :: "xserver \<Rightarrow> bool" where
  "atom_server X \<longleftrightarrow> (\<forall>s a. xs_intern_atom X s = Some a \<longleftrightarrow> xs_atom_name X a = Some s)"

definition connected :: "xserver \<Rightarrow> oref \<Rightarrow> oref \<Rightarrow> oref \<Rightarrow> oref \<Rightarrow> world \<Rightarrow> bool" where
  "connected X xc m d l w \<longleftrightarrow> log_module m d l w \<and> (\<exists>v. get_xc xc w = Ret v \<and> xc_c v \<and> xc_x v = Some m \<and>
     (\<forall>a \<in> set (xc_atoms v). xs_intern_atom X (ae_name a) = Some (ae_atom a)))"

lemma connected_same [simp]: "connected X xc m d l (with_log ls w) = connected X xc m d l w"
  by (simp add: connected_def)

text \<open>A world whose only difference is in the connections and the log.\<close>

definition same_devices :: "world \<Rightarrow> world \<Rightarrow> bool" where
  "same_devices w w' \<longleftrightarrow> (\<forall>q. get_ext q w' = get_ext q w \<and> get_device q w' = get_device q w)"

lemma same_devices_refl [simp]: "same_devices w w"
  by (simp add: same_devices_def)

lemma same_devices_trans: "same_devices w w1 \<Longrightarrow> same_devices w1 w2 \<Longrightarrow> same_devices w w2"
  by (simp add: same_devices_def)

lemma get_device_same [simp]: "get_device p (bump s k w) = get_device p w" "get_device p (with_log ls w) = get_device p w"
  by (auto simp: get_device_def get_obj_def heap_bump bump_object_def split: option.splits)

lemma same_devices_log [simp]: "same_devices w (with_log ls w') = same_devices w w'"
  by (simp add: same_devices_def)

lemma add_atom_run:
  assumes c: "connected X xc m d l w" and a: "xs_intern_atom X s = Some atom"
  shows "\<exists>w'. add_atom xc \<lparr>ae_name = s, ae_atom = atom\<rparr> w = Ret w' \<and> connected X xc m d l w' \<and> same_devices w w'"
proof -
  obtain v where v: "get_xc xc w = Ret v" "xc_c v" "xc_x v = Some m" "log_module m d l w"
    "\<forall>a \<in> set (xc_atoms v). xs_intern_atom X (ae_name a) = Some (ae_atom a)" using c by (auto simp: connected_def)
  let ?v = "v\<lparr>xc_atoms := \<lparr>ae_name = s, ae_atom = atom\<rparr> # xc_atoms v\<rparr>"
  obtain w' where w': "put_payload xc (PXorgConnection ?v) w = Ret w'" "get_xc xc w' = Ret ?v" "same_devices w w'"
    using put_xc [OF v(1)] unfolding same_devices_def by blast
  with v a log_module_payload [OF v(4) w'(1)] show ?thesis by (auto simp: add_atom_def connected_def)
qed

definition interned :: "xserver \<Rightarrow> di_string \<Rightarrow> 32 word \<times> bool option" where
  "interned X s = (case xs_intern_atom X (di_string_bytes s) of None \<Rightarrow> (0, Some True) | Some a \<Rightarrow> (a, Some False))"

lemma intern_atom_run:
  assumes c: "connected X xc m d l w" and U: "U = di_unref_object E (Suc n)"
  shows "\<exists>w'. di_xorg_intern_atom X U C xc s w = Ret (interned X s, w') \<and> connected X xc m d l w' \<and> same_devices w w'"
proof -
  obtain v where v: "get_xc xc w = Ret v" "xc_c v" "xc_x v = Some m" "log_module m d l w"
    "\<forall>a \<in> set (xc_atoms v). xs_intern_atom X (ae_name a) = Some (ae_atom a)" using c by (auto simp: connected_def)
  note g = mgetm_log [OF v(4) U] and u = drop_log [OF v(4) U]
  show ?thesis
  proof (cases "find (\<lambda>a. ae_name a = di_string_bytes s) (xc_atoms v)")
    case (Some a)
    then have "a \<in> set (xc_atoms v)" "ae_name a = di_string_bytes s" by (auto simp: find_Some_iff)
    then have "interned X s = (ae_atom a, Some False)" using v(5) by (simp add: interned_def flip: \<open>ae_name a = _\<close>)
    with Some v c g u [of "[]"] show ?thesis by (simp add: di_xorg_intern_atom_def)
  next
    case None
    show ?thesis
    proof (cases "xs_intern_atom X (di_string_bytes s)")
      case None
      with \<open>find _ _ = None\<close> v c g u [of "logged 0 X (Some ''Cannot intern atom'')"] show ?thesis
        by (simp add: di_xorg_intern_atom_def interned_def di_log_va_run bump_with_log)
    next
      case (Some atom)
      let ?a = "\<lparr>ae_name = di_string_bytes s, ae_atom = atom\<rparr>"
      obtain w' where w': "add_atom xc ?a w = Ret w'" "connected X xc m d l w'" "same_devices w w'"
        using add_atom_run [OF c Some] by blast
      have "add_atom xc ?a (bump (one_at l) (\<lambda>_. 0) w) = Ret (bump (one_at l) (\<lambda>_. 0) w')"
        using w'(1) v(1) put_payload_bump [of xc _ w w'] by (simp add: add_atom_def)
      moreover have "U l (bump (one_at l) (\<lambda>_. 0) w') = Ret w'"
        using drop_log [of m d l w', OF _ U, of "[]"] w'(2) by (simp add: connected_def)
      ultimately show ?thesis using \<open>find _ _ = None\<close> Some v g w' by (simp add: di_xorg_intern_atom_def interned_def)
    qed
  qed
qed

lemma atom_name_run:
  assumes c: "connected X xc m d l w" and X: "atom_server X"
  shows "\<exists>w'. di_xorg_get_atom_name X xc a w = Ret (xs_atom_name X a, w') \<and> connected X xc m d l w' \<and> same_devices w w'"
proof -
  obtain v where v: "get_xc xc w = Ret v" "xc_c v" "\<forall>a \<in> set (xc_atoms v). xs_atom_name X (ae_atom a) = Some (ae_name a)"
    using c X by (auto simp: connected_def atom_server_def)
  show ?thesis
  proof (cases "find (\<lambda>e. ae_atom e = a) (xc_atoms v)")
    case (Some e)
    then have "xs_atom_name X a = Some (ae_name e)" using v(3) by (auto simp: find_Some_iff)
    with Some v(1) c show ?thesis by (simp add: di_xorg_get_atom_name_def)
  next
    case None
    with v c add_atom_run [OF c, of _ a] X show ?thesis
      by (cases "xs_atom_name X a") (auto simp: di_xorg_get_atom_name_def atom_server_def)
  qed
qed

text \<open>
  C37. The cache of atoms cannot be told from the server.  As long as the connection is open, looking up a
  name or an atom returns what the server has for it, whether it is found in the cache or asked for, and the
  cache afterwards still agrees with the server; nothing else changes in the extensions and devices.
\<close>

theorem atom_cache_transparent:
  assumes c: "connected X xc m d l w" and X: "atom_server X" and U: "U = di_unref_object E (Suc n)"
  shows "(\<exists>w'. di_xorg_intern_atom X U C xc s w = Ret (interned X s, w') \<and> connected X xc m d l w' \<and> same_devices w w') \<and>
    (\<exists>w'. di_xorg_get_atom_name X xc a w = Ret (xs_atom_name X a, w') \<and> connected X xc m d l w' \<and> same_devices w w')"
  using intern_atom_run [OF c U] atom_name_run [OF c X] by blast

text \<open>
  A connection at address 2 with the module at 5, the core at 3 and its log module at 4; an XInput extension at 1
  and a device at 6.
\<close>

definition two_atoms :: xserver where
  "two_atoms = pc_server\<lparr>xs_intern_atom := \<lambda>s. if s = ''FLOAT'' then Some 300 else if s = ''Device Accel'' then Some 301 else None,
     xs_atom_name := \<lambda>a. if a = 300 then Some ''FLOAT'' else if a = 301 then Some ''Device Accel'' else None\<rparr>"

definition xi_world :: world where
  "xi_world = \<lparr>heap = [1 \<mapsto> empty_object\<lparr>payload := PXorgExt \<lparr>xe_dc = Some 2, xe_extname = ''xinput'', xe_opcode = 131,
          xe_kind = Xinput (replicate 4 0) (replicate 27 0)\<rparr>, ref_count := 2\<rparr>,
       2 \<mapsto> empty_object\<lparr>payload := PXorgConnection \<lparr>xc_x = Some 5, xc_c = True, xc_xext = [(''xinput'', 1)],
          xc_atoms = [\<lparr>ae_name = ''FLOAT'', ae_atom = 300\<rparr>], xc_reqs = []\<rparr>, ref_count := 2\<rparr>,
       3 \<mapsto> empty_object\<lparr>weak_ref_count := 2, members := [(''log'', \<lparr>m_addr = 8, m_val = VObject 4\<rparr>)]\<rparr>,
       4 \<mapsto> empty_object,
       5 \<mapsto> empty_object\<lparr>members := [(''__deai'', \<lparr>m_addr = 7, m_val = VWeak 3\<rparr>)]\<rparr>,
       6 \<mapsto> empty_object\<lparr>payload := PXiDevice 9 1\<rparr>],
     sigs = Map.empty, next_addr = 10, all_objects = [6, 5, 4, 3, 2, 1], log_lines = []\<rparr>"

lemma two_atoms_server: "atom_server two_atoms"
  by (auto simp: atom_server_def two_atoms_def split: if_splits)

lemma xi_world_log: "log_module 5 3 4 xi_world"
  by (auto simp: log_module_def member_map_def has_room_def xi_world_def empty_object_def)

lemma xi_world_connected: "connected two_atoms 2 5 3 4 xi_world"
  using xi_world_log by (simp add: connected_def get_xc_Ret two_atoms_def) (simp add: xi_world_def)

theorem atom_cache_transparent_witness:
  "(\<exists>w'. di_xorg_intern_atom two_atoms drop_ref call_ref 2 (Some ''Device Accel'') xi_world = Ret ((301, Some False), w')) \<and>
   (\<exists>w'. di_xorg_get_atom_name two_atoms 2 300 xi_world = Ret (Some ''FLOAT'', w'))"
  using atom_cache_transparent [OF xi_world_connected two_atoms_server, of drop_ref plain_ext 0 call_ref "Some ''Device Accel''" 300]
  by (auto simp: drop_ref_def interned_def two_atoms_def)

section \<open>Properties of input devices\<close>

lemma rr_connection_run:
  assumes "connected X dc m d l w" "get_ext xi w = Ret e" "xe_dc e = Some dc"
  shows "rr_connection xi w = Ret (Some dc)"
  using assms by (auto simp: rr_connection_def connected_def)

definition int_of :: "di_value \<Rightarrow> 64 word" where
  "int_of v = (case prop_int v of None \<Rightarrow> 0 | Some i \<Rightarrow> i)"

definition one_or_array :: "di_value list \<Rightarrow> di_value" where
  "one_or_array xs = (case xs of [x] \<Rightarrow> x | _ \<Rightarrow> VArray DI_TYPE_INT (Some xs))"

lemma set_item_int:
  assumes "is_int_type (xp_type prop)" "xp_format prop \<in> {8, 16, 32}" "prop_int v \<noteq> None"
  shows "set_item cvt X U C dc fl prop v w = Ret (Inr (store_bits (xp_format prop) (int_of v)), w)"
  using assms by (cases v) (auto simp: set_item_def int_of_def)

lemma set_items_int:
  "is_int_type (xp_type prop) \<Longrightarrow> xp_format prop \<in> {8, 16, 32} \<Longrightarrow> \<forall>v \<in> set vs. prop_int v \<noteq> None \<Longrightarrow>
   set_items cvt X U C dc fl prop vs w = Ret (Inr (map (store_bits (xp_format prop) \<circ> int_of) vs), w)"
proof (induction vs)
  case (Cons v vs)
  then have "set_item cvt X U C dc fl prop v w = Ret (Inr (store_bits (xp_format prop) (int_of v)), w)" by (intro set_item_int) auto
  with Cons show ?case by simp
qed simp

lemma stored_low_bits: "fmt \<le> 32 \<Longrightarrow> (ucast (take_bit fmt (ucast (i :: 64 word)) :: 32 word) :: 64 word) = take_bit fmt i"
  by (rule bit_word_eqI) (auto simp: bit_simps)

lemma item_values_int:
  "is_int_type ty \<Longrightarrow> fmt \<le> 32 \<Longrightarrow> item_values X dc ty (map (store_bits fmt \<circ> int_of) vs) w = Ret (map (\<lambda>v. VInt (take_bit fmt (int_of v))) vs, w)"
  by (induction vs) (simp_all add: store_bits_def stored_low_bits)

lemma xcb_send_run:
  assumes c: "connected X dc m d l w" and v: "get_xc dc w = Ret v"
  shows "\<exists>w'. xcb_send dc rs w = Ret w' \<and> get_xc dc w' = Ret (v\<lparr>xc_reqs := xc_reqs v @ rs\<rparr>) \<and> connected X dc m d l w' \<and> same_devices w w'"
proof -
  have l: "log_module m d l w" "xc_c v" using c v by (auto simp: connected_def)
  let ?v = "v\<lparr>xc_reqs := xc_reqs v @ rs\<rparr>"
  obtain w' where w': "put_payload dc (PXorgConnection ?v) w = Ret w'" "get_xc dc w' = Ret ?v" "same_devices w w'"
    using put_xc [OF v] unfolding same_devices_def by blast
  with l v c log_module_payload [OF l(1) w'(1)] show ?thesis by (auto simp: xcb_send_def connected_def)
qed

lemma interned_float: "xs_intern_atom X ''FLOAT'' = Some fl \<Longrightarrow> interned X (di_string_borrow ''FLOAT'') = (fl, Some False)"
  by (simp add: interned_def di_string_borrow_def cstr_def)

lemma int_type_other:
  assumes "is_int_type ty" "\<not> is_int_type fl"
  shows "ty \<noteq> fl" "ty \<noteq> XCB_ATOM_ATOM" "ty \<noteq> XCB_ATOM_STRING"
  using assms by (auto simp: is_int_type_def XCB_ATOM_INTEGER_def XCB_ATOM_CARDINAL_def XCB_ATOM_ATOM_def XCB_ATOM_STRING_def)

text \<open>Both functions intern the name of the property and that of floats first.\<close>

lemma intern_both:
  assumes "connected X dc m d l w" "U = di_unref_object E (Suc n)"
  shows "\<exists>w1 w2. di_xorg_intern_atom X U C dc s w = Ret (interned X s, w1) \<and> di_xorg_intern_atom X U C dc t w1 = Ret (interned X t, w2) \<and>
    connected X dc m d l w2 \<and> same_devices w w2"
proof -
  obtain w1 where w1: "di_xorg_intern_atom X U C dc s w = Ret (interned X s, w1)" "connected X dc m d l w1" "same_devices w w1"
    using intern_atom_run [OF assms] by blast
  obtain w2 where "di_xorg_intern_atom X U C dc t w1 = Ret (interned X t, w2)" "connected X dc m d l w2" "same_devices w1 w2"
    using intern_atom_run [OF w1(2) assms(2)] by blast
  with w1 show ?thesis using same_devices_trans by blast
qed

lemma set_prop_run:
  assumes c: "connected X dc m d l w" and p: "get_device p w = Ret (i, xi)" and e: "get_ext xi w = Ret e" "xe_dc e = Some dc"
    and U: "U = di_unref_object E (Suc n)" and a: "xs_intern_atom X (di_string_bytes key) = Some a"
    and fl: "xs_intern_atom X ''FLOAT'' = Some fl" "\<not> is_int_type fl"
    and q: "query a = Some (Some pr)" "is_int_type (xp_type pr)" "xp_format pr \<in> {8, 16, 32}" and v: "\<forall>v \<in> set (prop_values var). prop_int v \<noteq> None"
  shows "\<exists>w' v'. di_xorg_xinput_set_prop ok cvt query X U C p key var w = Ret w' \<and> connected X dc m d l w' \<and> same_devices w w' \<and>
    get_xc dc w' = Ret v' \<and>
    last (xc_reqs v') = Xi_change_property i a (xp_type pr) (xp_format pr) (map (store_bits (xp_format pr) \<circ> int_of) (prop_values var))"
proof -
  let ?its = "map (store_bits (xp_format pr) \<circ> int_of) (prop_values var)"
  have i: "interned X key = (a, Some False)" using a by (simp add: interned_def)
  obtain w1 w2 where w2: "di_xorg_intern_atom X U C dc key w = Ret (interned X key, w1)" "connected X dc m d l w2" "same_devices w w2"
    "di_xorg_intern_atom X U C dc (di_string_borrow ''FLOAT'') w1 = Ret (interned X (di_string_borrow ''FLOAT''), w2)"
    using intern_both [OF c U] by blast
  obtain v2 where v2: "get_xc dc w2 = Ret v2" using w2(2) by (auto simp: connected_def)
  obtain w3 where w3: "xcb_send dc [Xi_change_property i a (xp_type pr) (xp_format pr) ?its] w2 = Ret w3" "connected X dc m d l w3"
    "same_devices w2 w3" "get_xc dc w3 = Ret (v2\<lparr>xc_reqs := xc_reqs v2 @ [Xi_change_property i a (xp_type pr) (xp_format pr) ?its]\<rparr>)"
    using xcb_send_run [OF w2(2) v2] by blast
  define t where "t = (if ok then None else Some (''Failed to set property '' @ di_string_bytes key))"
  have "xorg_log_at 0 False X U C dc (map_option Ret t) w3 = Ret (with_log (logged 0 X t) w3)"
    by (rule xorg_log_at_run [OF w3(4) _ _ U]) (use w3(2,4) in \<open>auto simp: connected_def\<close>)
  moreover have "map_option Ret t = (if ok then None else Some (Ret (''Failed to set property '' @ di_string_bytes key)))"
    by (simp add: t_def)
  ultimately have "di_xorg_xinput_set_prop ok cvt query X U C p key var w = Ret (with_log (logged 0 X t) w3)"
    using p rr_connection_run [OF c e] w2(1,4) w3(1) i interned_float [OF fl(1)] q int_type_other [OF q(2) fl(2)] set_items_int [OF q(2,3) v]
    by (simp add: di_xorg_xinput_set_prop_def)
  with w3 same_devices_trans [OF w2(3) w3(3)] show ?thesis by (simp del: map_map)
qed

lemma get_prop_run:
  assumes c: "connected X dc m d l w" and p: "get_device p w = Ret (i, xi)" and e: "get_ext xi w = Ret e" "xe_dc e = Some dc"
    and U: "U = di_unref_object E (Suc n)" and a: "xs_intern_atom X (di_string_bytes key) = Some a"
    and fl: "xs_intern_atom X ''FLOAT'' = Some fl" "\<not> is_int_type fl"
    and q: "query a = Some (Some pr)" "is_int_type (xp_type pr)" "xp_format pr \<in> {8, 16, 32}"
    and its: "xp_items pr = map (store_bits (xp_format pr) \<circ> int_of) vs"
  shows "\<exists>w'. di_xorg_xinput_get_prop query X U C p key w = Ret (one_or_array (map (\<lambda>v. VInt (take_bit (xp_format pr) (int_of v))) vs), w')"
proof -
  have i: "interned X key = (a, Some False)" using a by (simp add: interned_def)
  obtain w1 w2 where w2: "di_xorg_intern_atom X U C dc key w = Ret (interned X key, w1)"
    "di_xorg_intern_atom X U C dc (di_string_borrow ''FLOAT'') w1 = Ret (interned X (di_string_borrow ''FLOAT''), w2)"
    using intern_both [OF c U] by blast
  have "item_values X dc (xp_type pr) (xp_items pr) w2 = Ret (map (\<lambda>v. VInt (take_bit (xp_format pr) (int_of v))) vs, w2)"
    unfolding its by (rule item_values_int [OF q(2)]) (use q(3) in auto)
  then have "read_prop X U C dc fl pr w2 = Ret (one_or_array (map (\<lambda>v. VInt (take_bit (xp_format pr) (int_of v))) vs), w2)"
    using q int_type_other [OF q(2) fl(2)] by (simp add: read_prop_def prop_elem_type_def one_or_array_def)
  then show ?thesis using p rr_connection_run [OF c e] w2 i interned_float [OF fl(1)] q(1) by (simp add: di_xorg_xinput_get_prop_def)
qed

text \<open>
  C40. An integer property of a device keeps the low bits of what is written to it.  Setting the property to a
  number or to an array of numbers and reading it back gives the numbers cut to the width of the property
  and without their sign: what was negative comes back as a large positive number.  One number is read as a
  number, any other count as an array.
\<close>

theorem xinput_int_roundtrip:
  assumes c: "connected X dc m d l w" and p: "get_device p w = Ret (i, xi)" and e: "get_ext xi w = Ret e" "xe_dc e = Some dc"
    and U: "U = di_unref_object E (Suc n)" and a: "xs_intern_atom X (di_string_bytes key) = Some a"
    and fl: "xs_intern_atom X ''FLOAT'' = Some fl" "\<not> is_int_type fl"
    and q: "query a = Some (Some pr)" "is_int_type (xp_type pr)" "xp_format pr \<in> {8, 16, 32}"
    and v: "prop_values var = vs" "\<forall>v \<in> set vs. prop_int v \<noteq> None"
  shows "\<exists>its w1 w2 v'. di_xorg_xinput_set_prop ok cvt query X U C p key var w = Ret w1 \<and>
    get_xc dc w1 = Ret v' \<and> last (xc_reqs v') = Xi_change_property i a (xp_type pr) (xp_format pr) its \<and>
    di_xorg_xinput_get_prop (query(a \<mapsto> Some (pr\<lparr>xp_items := its\<rparr>))) X U C p key w1 =
      Ret (one_or_array (map (\<lambda>v. VInt (take_bit (xp_format pr) (int_of v))) vs), w2)"
proof -
  let ?its = "map (store_bits (xp_format pr) \<circ> int_of) vs"
  obtain w1 v' where w1: "di_xorg_xinput_set_prop ok cvt query X U C p key var w = Ret w1" "connected X dc m d l w1" "same_devices w w1"
    "get_xc dc w1 = Ret v'" "last (xc_reqs v') = Xi_change_property i a (xp_type pr) (xp_format pr) ?its"
    using set_prop_run [where query = query, OF c p e U a fl q, of var ok cvt C] v by auto
  have same: "get_device p w1 = Ret (i, xi)" "get_ext xi w1 = Ret e" using w1(3) p e(1) by (simp_all add: same_devices_def)
  have "\<exists>w2. di_xorg_xinput_get_prop (query(a \<mapsto> Some (pr\<lparr>xp_items := ?its\<rparr>))) X U C p key w1 =
      Ret (one_or_array (map (\<lambda>v. VInt (take_bit (xp_format pr) (int_of v))) vs), w2)"
    using get_prop_run [OF w1(2) same e(2) U a fl, of "query(a \<mapsto> Some (pr\<lparr>xp_items := ?its\<rparr>))" "pr\<lparr>xp_items := ?its\<rparr>" vs C] q(2,3) by simp
  with w1 show ?thesis by blast
qed

definition accel_prop :: "32 word \<Rightarrow> xi_property option option" where
  "accel_prop a = (if a = 301 then Some (Some \<lparr>xp_type = XCB_ATOM_INTEGER, xp_format = 8, xp_items = [Bits 0]\<rparr>) else Some None)"

theorem xinput_int_roundtrip_witness:
  "\<exists>its w1 w2 v'. di_xorg_xinput_set_prop True (\<lambda>_. NotANumber) accel_prop two_atoms drop_ref call_ref 6 (Some ''Device Accel'') (VInt (- 1)) xi_world = Ret w1 \<and>
     get_xc 2 w1 = Ret v' \<and> last (xc_reqs v') = Xi_change_property 9 301 XCB_ATOM_INTEGER 8 its \<and>
     di_xorg_xinput_get_prop (accel_prop(301 \<mapsto> Some \<lparr>xp_type = XCB_ATOM_INTEGER, xp_format = 8, xp_items = its\<rparr>)) two_atoms drop_ref call_ref 6
       (Some ''Device Accel'') w1 = Ret (VInt 255, w2)"
proof -
  have p: "get_device 6 xi_world = Ret (9, 1)" by (simp add: get_device_def get_obj_def xi_world_def)
  have e: "get_ext 1 xi_world = Ret \<lparr>xe_dc = Some 2, xe_extname = ''xinput'', xe_opcode = 131, xe_kind = Xinput (replicate 4 0) (replicate 27 0)\<rparr>"
    by (simp add: get_ext_def get_obj_def xi_world_def)
  have U: "drop_ref = di_unref_object plain_ext (Suc 0)" by (simp add: drop_ref_def)
  have "take_bit 8 (- 1 :: 64 word) = 255" by (simp add: take_bit_minus_one_eq_mask mask_eq_exp_minus_1)
  then show ?thesis
    using xinput_int_roundtrip [OF xi_world_connected p e _ U,
        where key = "Some ''Device Accel''" and a = "301" and fl = "300" and query = accel_prop and
        pr = "\<lparr>xp_type = XCB_ATOM_INTEGER, xp_format = 8, xp_items = [Bits 0]\<rparr>" and var = "VInt (- 1)" and vs = "[VInt (- 1)]" and
        cvt = "\<lambda>_. NotANumber" and C = call_ref and ok = True]
    by (simp add: one_or_array_def two_atoms_def accel_prop_def is_int_type_def XCB_ATOM_INTEGER_def XCB_ATOM_CARDINAL_def prop_values_def int_of_def)
qed

section \<open>Selected events\<close>

lemma get_mask_bit: "get_mask a i \<longleftrightarrow> bit (a ! (i div 8)) (i mod 8)"
  by (simp add: get_mask_def push_bit_of_1 and_exp_eq_0_iff_not_bit)

lemma same_byte: "i div 8 = j div 8 \<Longrightarrow> i = (j :: nat) \<longleftrightarrow> i mod 8 = j mod 8"
  by (metis div_mult_mod_eq)

lemma bit_one_byte: "bit (2 ^ (i mod 8) :: 8 word) (j mod 8) \<longleftrightarrow> i mod 8 = j mod 8"
  by (auto simp: bit_exp_iff)

lemma get_set_mask:
  assumes "i div 8 < length a"
  shows "get_mask (set_mask a i) j \<longleftrightarrow> i = j \<or> get_mask a j"
proof (cases "i div 8 = j div 8")
  case True
  then show ?thesis using assms unfolding same_byte [OF True] get_mask_bit by (simp add: set_mask_def bit_or_iff bit_one_byte) blast
next
  case False
  then have "i \<noteq> j" by auto
  with False show ?thesis by (simp add: get_mask_bit set_mask_def)
qed

lemma get_clear_mask:
  assumes "i div 8 < length a"
  shows "get_mask (clear_mask a i) j \<longleftrightarrow> i \<noteq> j \<and> get_mask a j"
proof (cases "i div 8 = j div 8")
  case True
  then show ?thesis using assms unfolding same_byte [OF True] get_mask_bit
    by (simp add: clear_mask_def bit_and_iff bit_not_iff bit_one_byte) blast
next
  case False
  then have "i \<noteq> j" by auto
  with False show ?thesis by (simp add: get_mask_bit clear_mask_def)
qed

text \<open>
  The contract: a number of listeners for every event.  The code keeps it in an array of counters, with the
  events that have a listener in a mask, and sends the mask to the server whenever it changes.
\<close>

datatype xi_op = Listen nat | Unlisten nat

fun spec_xi :: "xi_op \<Rightarrow> (nat \<Rightarrow> nat) \<Rightarrow> nat \<Rightarrow> nat" where
  "spec_xi (Listen i) f = f(i := f i + 1)"
| "spec_xi (Unlisten i) f = f(i := f i - 1)"

fun xi_enabled :: "xi_op \<Rightarrow> (nat \<Rightarrow> nat) \<Rightarrow> bool" where
  "xi_enabled (Listen i) f \<longleftrightarrow> i \<le> 26 \<and> f i + 1 < 2 ^ 32"
| "xi_enabled (Unlisten i) f \<longleftrightarrow> i \<le> 26 \<and> 0 < f i"

fun xi_run :: "bool \<Rightarrow> xserver \<Rightarrow> drop_fn \<Rightarrow> call_obj \<Rightarrow> oref \<Rightarrow> xi_op \<Rightarrow> world \<Rightarrow> world res" where
  "xi_run ok X U C xi (Listen i) w = di_xorg_xi_start_listen_for_event ok X U C xi (int i) w"
| "xi_run ok X U C xi (Unlisten i) w = di_xorg_xi_stop_listen_for_event ok X U C xi (int i) w"

text \<open>The mask the server was told last.\<close>

definition selected :: "xreq list \<Rightarrow> 8 word list" where
  "selected rs = fold (\<lambda>r m. case r of Xi_select_events m' \<Rightarrow> m' | _ \<Rightarrow> m) rs (replicate 4 0)"

definition counts_events :: "(nat \<Rightarrow> nat) \<Rightarrow> 8 word list \<Rightarrow> 32 word list \<Rightarrow> bool" where
  "counts_events f mk c \<longleftrightarrow> length mk = 4 \<and> length c = 27 \<and> (\<forall>i < 27. unat (c ! i) = f i \<and> (get_mask mk i \<longleftrightarrow> 0 < f i))"

definition xi_rel :: "oref \<Rightarrow> oref \<Rightarrow> oref \<Rightarrow> oref \<Rightarrow> oref \<Rightarrow> (nat \<Rightarrow> nat) \<Rightarrow> world \<Rightarrow> bool" where
  "xi_rel xi dc m d l f w \<longleftrightarrow> log_module m d l w \<and>
     (\<exists>e mk c v. get_ext xi w = Ret e \<and> xe_dc e = Some dc \<and> xe_kind e = Xinput mk c \<and> counts_events f mk c \<and>
       get_xc dc w = Ret v \<and> xc_c v \<and> xc_x v = Some m \<and> selected (xc_reqs v) = mk)"

lemma counts_listen:
  assumes "counts_events f mk c" "i \<le> 26" "f i + 1 < 2 ^ 32"
  shows "counts_events (f(i := f i + 1)) (set_mask mk i) (c[i := c ! i + 1])"
    "0 < f i \<Longrightarrow> counts_events (f(i := f i + 1)) mk (c[i := c ! i + 1])" "unat (c ! i + 1) = f i + 1"
proof -
  have c: "length mk = 4" "length c = 27" "unat (c ! i) = f i" using assms by (auto simp: counts_events_def)
  show u: "unat (c ! i + 1) = f i + 1" using c assms(3) by (simp add: unat_word_ariths take_bit_nat_eq_self)
  show "counts_events (f(i := f i + 1)) (set_mask mk i) (c[i := c ! i + 1])"
    using assms u c by (auto simp: counts_events_def nth_list_update get_set_mask) (simp_all add: set_mask_def)
  show "0 < f i \<Longrightarrow> counts_events (f(i := f i + 1)) mk (c[i := c ! i + 1])"
    using assms u c by (auto simp: counts_events_def nth_list_update)
qed

lemma counts_unlisten:
  assumes "counts_events f mk c" "i \<le> 26" "0 < f i"
  shows "f i = 1 \<Longrightarrow> counts_events (f(i := f i - 1)) (clear_mask mk i) (c[i := c ! i - 1])"
    "1 < f i \<Longrightarrow> counts_events (f(i := f i - 1)) mk (c[i := c ! i - 1])" "unat (c ! i - 1) = f i - 1" "0 < c ! i"
proof -
  have c: "length mk = 4" "length c = 27" "unat (c ! i) = f i" using assms by (auto simp: counts_events_def)
  show p: "0 < c ! i" using c assms(3) by (simp add: word_gt_0 flip: unat_eq_zero)
  show u: "unat (c ! i - 1) = f i - 1" using c p by (metis unat_minus_one word_gt_0)
  show "f i = 1 \<Longrightarrow> counts_events (f(i := f i - 1)) (clear_mask mk i) (c[i := c ! i - 1])"
    using assms u c by (auto simp: counts_events_def nth_list_update get_clear_mask) (simp_all add: clear_mask_def)
  show "1 < f i \<Longrightarrow> counts_events (f(i := f i - 1)) mk (c[i := c ! i - 1])"
    using assms u c by (auto simp: counts_events_def nth_list_update)
qed

lemma selected_snoc [simp]: "selected (rs @ [Xi_select_events mk]) = mk"
  by (simp add: selected_def)

lemma put_xi_run:
  assumes e: "get_ext xi w = Ret e" "xe_dc e = Some dc" and v: "get_xc dc w = Ret v" "xc_c v" "xc_x v = Some m"
    and l: "log_module m d l w" and f: "counts_events f mk c" and U: "U = di_unref_object E (Suc n)"
  shows "selected (xc_reqs v) = mk \<Longrightarrow> \<exists>w'. bind_res (put_xi xi mk c w) (xorg_log X U C dc None) = Ret w' \<and> xi_rel xi dc m d l f w'"
    "\<exists>w'. select_events ok X U C xi dc mk c w = Ret w' \<and> xi_rel xi dc m d l f w'"
proof -
  let ?e = "e\<lparr>xe_kind := Xinput mk c\<rparr>"
  obtain w1 where w1: "put_payload xi (PXorgExt ?e) w = Ret w1" "get_ext xi w1 = Ret ?e" "get_xc dc w1 = Ret v"
    using put_ext [OF e(1)] v(1) by metis
  note l1 = log_module_payload [OF l w1(1)]
  have put: "put_xi xi mk c w = Ret w1" using e(1) w1(1) by (simp add: put_xi_def)
  show "\<exists>w'. bind_res (put_xi xi mk c w) (xorg_log X U C dc None) = Ret w' \<and> xi_rel xi dc m d l f w'" if "selected (xc_reqs v) = mk"
    using xorg_log_run [OF w1(3) v(3) l1 U, of X C None] put that e v f l1 w1 by (auto simp: xi_rel_def)
  let ?v = "v\<lparr>xc_reqs := xc_reqs v @ [Xi_select_events mk]\<rparr>"
  obtain w2 where w2: "put_payload dc (PXorgConnection ?v) w1 = Ret w2" "get_xc dc w2 = Ret ?v" "get_ext xi w2 = Ret ?e"
    using put_xc [OF w1(3)] w1(2) by metis
  note l2 = log_module_payload [OF l1 w2(1)]
  have "xcb_send dc [Xi_select_events mk] w1 = Ret w2" using w1(3) w2(1) v(2) by (simp add: xcb_send_def)
  moreover have "xorg_log X U C dc (map_option Ret t) w2 = Ret (with_log (logged 0 X t) w2)" for t
    by (rule xorg_log_run [OF w2(2) _ l2 U]) (simp add: v(3))
  from this [of "if ok then None else Some ''select events failed''"]
  have "xorg_log X U C dc (if ok then None else Some (Ret ''select events failed'')) w2 =
      Ret (with_log (logged 0 X (if ok then None else Some ''select events failed'')) w2)" by (cases ok) simp_all
  ultimately show "\<exists>w'. select_events ok X U C xi dc mk c w = Ret w' \<and> xi_rel xi dc m d l f w'"
    using put e v f l2 w2 by (auto simp: select_events_def xi_rel_def)
qed

lemma xi_step:
  assumes r: "xi_rel xi dc m d l f w" and en: "xi_enabled op f" and U: "U = di_unref_object E (Suc n)"
  shows "\<exists>w'. xi_run ok X U C xi op w = Ret w' \<and> xi_rel xi dc m d l (spec_xi op f) w'"
proof -
  obtain e mk c v where e: "get_ext xi w = Ret e" "xe_dc e = Some dc" and x: "xe_kind e = Xinput mk c" and f: "counts_events f mk c"
    and v: "get_xc dc w = Ret v" "xc_c v" "xc_x v = Some m" and s: "selected (xc_reqs v) = mk" and l: "log_module m d l w"
    using r by (auto simp: xi_rel_def)
  have g: "get_xi xi w = Ret (Some dc, mk, c)" using e x by (simp add: get_xi_def)
  have len: "length c = 27" using f by (simp add: counts_events_def)
  note run = put_xi_run [OF e v l _ U]
  show ?thesis
  proof (cases op)
    case (Listen i)
    with en have i: "i \<le> 26" "f i + 1 < 2 ^ 32" by auto
    note c = counts_listen [OF f i]
    have "1 < c ! i + 1 \<longleftrightarrow> 0 < f i" using c(3) by (simp add: word_less_nat_alt)
    then show ?thesis using run(1) [OF c(2) s, of X C] run(2) [OF c(1), of ok X C] g i len Listen
      by (auto simp: di_xorg_xi_start_listen_for_event_def XI_LASTEVENT_def Let_def)
  next
    case (Unlisten i)
    with en have i: "i \<le> 26" "0 < f i" by auto
    note c = counts_unlisten [OF f i]
    have "0 < c ! i - 1 \<longleftrightarrow> 1 < f i" using c(3) by (simp add: word_less_nat_alt)
    then show ?thesis using run(1) [OF c(2) s, of X C] run(2) [OF c(1), of ok X C] g i len c(4) Unlisten
      by (cases "1 < f i") (auto simp: di_xorg_xi_stop_listen_for_event_def XI_LASTEVENT_def Let_def)
  qed
qed

interpretation xi_events: step_refinement spec_xi "xi_run ok X (di_unref_object E (Suc n)) C xi" xi_enabled "xi_rel xi dc m d l"
  by unfold_locales (rule xi_step [OF _ _ refl])

text \<open>
  C36. The server is asked for exactly the events that have a listener.  Whatever sequence of listeners
  comes and goes, as long as only listeners that were added are removed, every call returns, the counters
  are the numbers of listeners, and the mask the server was told last has the bit of an event set exactly
  when the event has a listener.
\<close>

theorem xinput_refines_listener_counts:
  assumes "xi_rel xi dc m d l f w" "all_enabled spec_xi xi_enabled ops f"
  shows "\<exists>w'. fold_res (xi_run ok X (di_unref_object E (Suc n)) C xi) ops w = Ret w' \<and> xi_rel xi dc m d l (fold spec_xi ops f) w'"
  by (rule xi_events.run [OF assms])

lemma xi_world_rel: "xi_rel 1 2 5 3 4 (\<lambda>_. 0) xi_world"
proof -
  have "counts_events (\<lambda>_. 0) (replicate 4 0) (replicate 27 0)" by (simp add: counts_events_def get_mask_bit)
  then show ?thesis using xi_world_log by (simp add: xi_rel_def get_ext_Ret get_xc_Ret) (simp add: xi_world_def selected_def)
qed

theorem xinput_refines_listener_counts_witness:
  "\<exists>w'. fold_res (xi_run True pc_server (di_unref_object plain_ext (Suc 0)) call_ref 1) [Listen 11, Listen 11, Listen 17, Unlisten 11, Unlisten 17] xi_world = Ret w' \<and>
    xi_rel 1 2 5 3 4 ((\<lambda>_. 0)(11 := 1, 17 := 0)) w'"
  using xinput_refines_listener_counts [OF xi_world_rel, of "[Listen 11, Listen 11, Listen 17, Unlisten 11, Unlisten 17]" True pc_server plain_ext 0 call_ref]
  by (simp del: fold_res.simps xi_run.simps di_unref_object.simps add: fun_upd_twist)

section \<open>Extensions that go away\<close>

lemma unref_connection:
  assumes "heap w dc = Some y" "payload y = PXorgConnection v" "1 < ref_count y"
  shows "\<exists>w'. di_unref_object E (Suc n) dc w = Ret w' \<and> get_xc dc w' = Ret v \<and> (\<forall>q. get_ext q w' = get_ext q w)"
proof -
  have "ref_count y - 1 \<noteq> 0" "0 < ref_count y" using assms(3) by (auto simp: word_gt_0)
  with assms(1,2) show ?thesis by (simp add: unref_step_def get_obj_def Let_def put_obj_def get_xc_def get_ext_def)
qed

text \<open>
  When an extension object goes away the server is told nothing.  The destructor takes the connection
  from the object before it calls the cleanup of the extension, and the cleanups of XInput and RandR, which
  would clear the events that were selected, do nothing without a connection: not one request is sent, and
  the server goes on sending the events to the client.
\<close>

theorem free_sub_keeps_selection:
  assumes e: "get_ext x w = Ret e" "xe_dc e = Some dc" "\<And>bs. xe_kind e \<noteq> Key bs"
    and y: "heap w dc = Some y" "payload y = PXorgConnection v" "1 < ref_count y" and U: "U = di_unref_object E (Suc n)"
  shows "\<exists>w'. di_xorg_free_sub X U C fin x w = Ret w' \<and> get_ext x w' = Ret (e\<lparr>xe_dc := None\<rparr>) \<and>
    get_xc dc w' = Ret (v\<lparr>xc_xext := filter (\<lambda>en. snd en \<noteq> x) (xc_xext v)\<rparr>)"
proof -
  have v: "get_xc dc w = Ret v" using y by (simp add: get_xc_Ret)
  let ?v = "v\<lparr>xc_xext := filter (\<lambda>en. snd en \<noteq> x) (xc_xext v)\<rparr>"
  let ?w1 = "put_obj dc (y\<lparr>payload := PXorgConnection ?v\<rparr>) w"
  have w1: "put_payload dc (PXorgConnection ?v) w = Ret ?w1" using y(1) by (rule put_payload_Ret)
  obtain w2 where w2: "U dc ?w1 = Ret w2" "get_xc dc w2 = Ret ?v" "\<forall>q. get_ext q w2 = get_ext q ?w1"
    using unref_connection [of ?w1 dc "y\<lparr>payload := PXorgConnection ?v\<rparr>" ?v E n] y(3) U by (auto simp: put_obj_def)
  have e2: "get_ext x w2 = Ret e" using w2(3) e(1) y by (auto simp: get_ext_Ret put_obj_def)
  obtain w3 where w3: "put_payload x (PXorgExt (e\<lparr>xe_dc := None\<rparr>)) w2 = Ret w3" "get_ext x w3 = Ret (e\<lparr>xe_dc := None\<rparr>)"
    "get_xc dc w3 = Ret ?v" using put_ext [OF e2] w2(2) by metis
  have "ext_free X U C fin x w3 = Ret w3"
    using w3(2) e(3) by (cases "xe_kind e") (auto simp: ext_free_def di_xorg_free_xinput_def get_xi_def free_randr_def rr_select_input_def)
  then show ?thesis using e(1,2) v w1 w2(1) e2 w3 by (simp add: di_xorg_free_sub_def)
qed

theorem free_sub_keeps_selection_witness:
  "\<exists>w'. di_xorg_free_sub two_atoms drop_ref call_ref (\<lambda>p w. Ret w) 1 xi_world = Ret w' \<and>
    get_xc 2 w' = Ret \<lparr>xc_x = Some 5, xc_c = True, xc_xext = [], xc_atoms = [\<lparr>ae_name = ''FLOAT'', ae_atom = 300\<rparr>], xc_reqs = []\<rparr>"
proof -
  let ?e = "\<lparr>xe_dc = Some 2, xe_extname = ''xinput'', xe_opcode = 131, xe_kind = Xinput (replicate 4 0) (replicate 27 0)\<rparr>"
  let ?v = "\<lparr>xc_x = Some 5, xc_c = True, xc_xext = [(''xinput'', 1)], xc_atoms = [\<lparr>ae_name = ''FLOAT'', ae_atom = 300\<rparr>], xc_reqs = []\<rparr>"
  have e: "get_ext 1 xi_world = Ret ?e" by (simp add: get_ext_def get_obj_def xi_world_def)
  have U: "drop_ref = di_unref_object plain_ext (Suc 0)" by (simp add: drop_ref_def)
  show ?thesis
    using free_sub_keeps_selection [OF e _ _ _ _ _ U, of 2 "empty_object\<lparr>payload := PXorgConnection ?v, ref_count := 2\<rparr>" ?v two_atoms call_ref "\<lambda>p w. Ret w"]
    by (auto simp: xi_world_def empty_object_def)
qed

end
