(* ===== verification/Lists.thy ===== *)
theory Lists
  imports Prelude
begin

text \<open>
  The circular doubly linked lists of \<open>list.h\<close>, on a memory of list heads addressed by 64-bit pointers.

  Every operation is its sequence of loads and stores.  An access to an address that holds no list head
  is a fault; the two poison addresses hold none.  The macros that iterate are loops over a body; the
  loops take fuel, and the number of entries plus one is enough.

  \<open>circ N P h xs\<close> is the shape of a list: starting at the head \<open>h\<close>, the entries are \<open>xs\<close>, in both directions.
  \<open>rep D A m\<close> says that the memory \<open>m\<close>, with list heads at the addresses \<open>D\<close>, holds the disjoint lists \<open>A\<close>.
\<close>

section \<open>Memory of list heads\<close>

type_synonym lptr = "64 word"

record list_head =
  lnext :: lptr
  lprev :: lptr

type_synonym lmem = "lptr \<rightharpoonup> list_head"

definition LIST_POISON1 :: lptr where
  "LIST_POISON1 = 0x00100100"

definition LIST_POISON2 :: lptr where
  "LIST_POISON2 = 0x00200200"

definition get_next :: "lptr \<Rightarrow> lmem \<Rightarrow> lptr res" where
  "get_next p m = (case m p of None \<Rightarrow> Fault (Use_After_Free (unat p)) | Some l \<Rightarrow> Ret (lnext l))"

definition get_prev :: "lptr \<Rightarrow> lmem \<Rightarrow> lptr res" where
  "get_prev p m = (case m p of None \<Rightarrow> Fault (Use_After_Free (unat p)) | Some l \<Rightarrow> Ret (lprev l))"

definition set_next :: "lptr \<Rightarrow> lptr \<Rightarrow> lmem \<Rightarrow> lmem res" where
  "set_next p v m = (case m p of None \<Rightarrow> Fault (Use_After_Free (unat p)) | Some l \<Rightarrow> Ret (m(p \<mapsto> l\<lparr>lnext := v\<rparr>)))"

definition set_prev :: "lptr \<Rightarrow> lptr \<Rightarrow> lmem \<Rightarrow> lmem res" where
  "set_prev p v m = (case m p of None \<Rightarrow> Fault (Use_After_Free (unat p)) | Some l \<Rightarrow> Ret (m(p \<mapsto> l\<lparr>lprev := v\<rparr>)))"

section \<open>Operations\<close>

definition INIT_LIST_HEAD :: "lptr \<Rightarrow> lmem \<Rightarrow> lmem res" where
  "INIT_LIST_HEAD l m = bind_res (set_next l l m) (set_prev l l)"

text \<open>\<open>__list_add(n, prev, next)\<close>, \<open>__list_del(prev, next)\<close> and \<open>__list_del_entry(entry)\<close>.\<close>

definition list_add_between :: "lptr \<Rightarrow> lptr \<Rightarrow> lptr \<Rightarrow> lmem \<Rightarrow> lmem res" where
  "list_add_between n p q m =
     bind_res (set_prev q n m) (\<lambda>m. bind_res (set_next n q m) (\<lambda>m. bind_res (set_prev n p m) (set_next p n)))"

definition list_add :: "lptr \<Rightarrow> lptr \<Rightarrow> lmem \<Rightarrow> lmem res" where
  "list_add n h m = bind_res (get_next h m) (\<lambda>q. list_add_between n h q m)"

definition list_add_tail :: "lptr \<Rightarrow> lptr \<Rightarrow> lmem \<Rightarrow> lmem res" where
  "list_add_tail n h m = bind_res (get_prev h m) (\<lambda>p. list_add_between n p h m)"

definition list_del_between :: "lptr \<Rightarrow> lptr \<Rightarrow> lmem \<Rightarrow> lmem res" where
  "list_del_between p q m = bind_res (set_prev q p m) (set_next p q)"

definition list_del_entry :: "lptr \<Rightarrow> lmem \<Rightarrow> lmem res" where
  "list_del_entry e m = bind_res (get_prev e m) (\<lambda>p. bind_res (get_next e m) (\<lambda>q. list_del_between p q m))"

definition list_del :: "lptr \<Rightarrow> lmem \<Rightarrow> lmem res" where
  "list_del e m =
     bind_res (get_prev e m) (\<lambda>p. bind_res (get_next e m) (\<lambda>q.
     bind_res (list_del_between p q m) (\<lambda>m. bind_res (set_next e LIST_POISON1 m) (set_prev e LIST_POISON2))))"

definition list_replace :: "lptr \<Rightarrow> lptr \<Rightarrow> lmem \<Rightarrow> lmem res" where
  "list_replace old n m =
     bind_res (get_next old m) (\<lambda>q. bind_res (set_next n q m) (\<lambda>m. bind_res (get_next n m) (\<lambda>q.
     bind_res (set_prev q n m) (\<lambda>m. bind_res (get_prev old m) (\<lambda>p. bind_res (set_prev n p m) (\<lambda>m.
     bind_res (get_prev n m) (\<lambda>p. set_next p n m)))))))"

definition list_replace_init :: "lptr \<Rightarrow> lptr \<Rightarrow> lmem \<Rightarrow> lmem res" where
  "list_replace_init old n m = bind_res (list_replace old n m) (INIT_LIST_HEAD old)"

definition list_del_init :: "lptr \<Rightarrow> lmem \<Rightarrow> lmem res" where
  "list_del_init e m = bind_res (list_del_entry e m) (INIT_LIST_HEAD e)"

definition list_move :: "lptr \<Rightarrow> lptr \<Rightarrow> lmem \<Rightarrow> lmem res" where
  "list_move l h m = bind_res (list_del_entry l m) (list_add l h)"

definition list_move_tail :: "lptr \<Rightarrow> lptr \<Rightarrow> lmem \<Rightarrow> lmem res" where
  "list_move_tail l h m = bind_res (list_del_entry l m) (list_add_tail l h)"

definition list_is_last :: "lptr \<Rightarrow> lptr \<Rightarrow> lmem \<Rightarrow> bool res" where
  "list_is_last l h m = bind_res (get_next l m) (\<lambda>q. Ret (q = h))"

definition list_empty :: "lptr \<Rightarrow> lmem \<Rightarrow> bool res" where
  "list_empty h m = bind_res (get_next h m) (\<lambda>q. Ret (q = h))"

definition list_empty_careful :: "lptr \<Rightarrow> lmem \<Rightarrow> bool res" where
  "list_empty_careful h m =
     bind_res (get_next h m) (\<lambda>q. if q = h then bind_res (get_prev h m) (\<lambda>p. Ret (q = p)) else Ret False)"

definition list_rotate_left :: "lptr \<Rightarrow> lmem \<Rightarrow> lmem res" where
  "list_rotate_left h m =
     bind_res (list_empty h m) (\<lambda>e. if e then Ret m else bind_res (get_next h m) (\<lambda>first. list_move_tail first h m))"

definition list_is_singular :: "lptr \<Rightarrow> lmem \<Rightarrow> bool res" where
  "list_is_singular h m =
     bind_res (list_empty h m) (\<lambda>e. if e then Ret False
       else bind_res (get_next h m) (\<lambda>q. bind_res (get_prev h m) (\<lambda>p. Ret (q = p))))"

text \<open>\<open>__list_cut_position\<close>.\<close>

definition list_cut_at :: "lptr \<Rightarrow> lptr \<Rightarrow> lptr \<Rightarrow> lmem \<Rightarrow> lmem res" where
  "list_cut_at l h e m =
     bind_res (get_next e m) (\<lambda>new_first. bind_res (get_next h m) (\<lambda>q. bind_res (set_next l q m) (\<lambda>m.
     bind_res (get_next l m) (\<lambda>q. bind_res (set_prev q l m) (\<lambda>m. bind_res (set_prev l e m) (\<lambda>m.
     bind_res (set_next e l m) (\<lambda>m. bind_res (set_next h new_first m) (set_prev new_first h))))))))"

definition list_cut_position :: "lptr \<Rightarrow> lptr \<Rightarrow> lptr \<Rightarrow> lmem \<Rightarrow> lmem res" where
  "list_cut_position l h e m =
     bind_res (list_empty h m) (\<lambda>empty. if empty then Ret m else
     bind_res (list_is_singular h m) (\<lambda>single. bind_res (get_next h m) (\<lambda>q.
       if single \<and> q \<noteq> e \<and> h \<noteq> e then Ret m
       else if e = h then INIT_LIST_HEAD l m
       else list_cut_at l h e m)))"

text \<open>\<open>__list_splice(list, prev, next)\<close>.\<close>

definition list_splice_between :: "lptr \<Rightarrow> lptr \<Rightarrow> lptr \<Rightarrow> lmem \<Rightarrow> lmem res" where
  "list_splice_between l p q m =
     bind_res (get_next l m) (\<lambda>first. bind_res (get_prev l m) (\<lambda>last.
     bind_res (set_prev first p m) (\<lambda>m. bind_res (set_next p first m) (\<lambda>m.
     bind_res (set_next last q m) (set_prev q last)))))"

definition list_splice :: "lptr \<Rightarrow> lptr \<Rightarrow> lmem \<Rightarrow> lmem res" where
  "list_splice l h m =
     bind_res (list_empty l m) (\<lambda>e. if e then Ret m else bind_res (get_next h m) (\<lambda>q. list_splice_between l h q m))"

definition list_splice_tail :: "lptr \<Rightarrow> lptr \<Rightarrow> lmem \<Rightarrow> lmem res" where
  "list_splice_tail l h m =
     bind_res (list_empty l m) (\<lambda>e. if e then Ret m else bind_res (get_prev h m) (\<lambda>p. list_splice_between l p h m))"

definition list_splice_init :: "lptr \<Rightarrow> lptr \<Rightarrow> lmem \<Rightarrow> lmem res" where
  "list_splice_init l h m =
     bind_res (list_empty l m) (\<lambda>e. if e then Ret m
       else bind_res (get_next h m) (\<lambda>q. bind_res (list_splice_between l h q m) (INIT_LIST_HEAD l)))"

definition list_splice_tail_init :: "lptr \<Rightarrow> lptr \<Rightarrow> lmem \<Rightarrow> lmem res" where
  "list_splice_tail_init l h m =
     bind_res (list_empty l m) (\<lambda>e. if e then Ret m
       else bind_res (get_prev h m) (\<lambda>p. bind_res (list_splice_between l p h m) (INIT_LIST_HEAD l)))"

section \<open>Iteration\<close>

text \<open>
  The macros that iterate, over a body that may change the memory and a state of its own.  \<open>rd\<close> is the link
  they follow, \<open>get_next\<close> or \<open>get_prev\<close>.  The entry variants work on the structs the list heads are members
  of; \<open>off\<close> is the offset of the member, so \<open>&pos->member\<close> is \<open>pos + off\<close>.
\<close>

type_synonym 's loop_body = "lptr \<Rightarrow> lmem \<times> 's \<Rightarrow> (lmem \<times> 's) res"

definition list_entry :: "lptr \<Rightarrow> lptr \<Rightarrow> lptr" where
  "list_entry off p = p - off"

definition list_first_entry :: "lptr \<Rightarrow> lptr \<Rightarrow> lmem \<Rightarrow> lptr res" where
  "list_first_entry off h m = bind_res (get_next h m) (\<lambda>q. Ret (list_entry off q))"

fun for_loop :: "(lptr \<Rightarrow> lmem \<Rightarrow> lptr res) \<Rightarrow> nat \<Rightarrow> 's loop_body \<Rightarrow> lptr \<Rightarrow> lptr \<Rightarrow> lmem \<times> 's \<Rightarrow> (lmem \<times> 's) res" where
  "for_loop rd 0 body h pos s = Fault OutOfFuel"
| "for_loop rd (Suc k) body h pos s =
     (if pos = h then Ret s
      else bind_res (body pos s) (\<lambda>s'. bind_res (rd pos (fst s')) (\<lambda>q. for_loop rd k body h q s')))"

definition list_for_each :: "nat \<Rightarrow> 's loop_body \<Rightarrow> lptr \<Rightarrow> lmem \<times> 's \<Rightarrow> (lmem \<times> 's) res" where
  "list_for_each k body h s = bind_res (get_next h (fst s)) (\<lambda>q. for_loop get_next k body h q s)"

definition list_for_each_prev :: "nat \<Rightarrow> 's loop_body \<Rightarrow> lptr \<Rightarrow> lmem \<times> 's \<Rightarrow> (lmem \<times> 's) res" where
  "list_for_each_prev k body h s = bind_res (get_prev h (fst s)) (\<lambda>q. for_loop get_prev k body h q s)"

fun safe_loop :: "(lptr \<Rightarrow> lmem \<Rightarrow> lptr res) \<Rightarrow> nat \<Rightarrow> 's loop_body \<Rightarrow> lptr \<Rightarrow> lptr \<Rightarrow> lptr \<Rightarrow> lmem \<times> 's \<Rightarrow> (lmem \<times> 's) res" where
  "safe_loop rd 0 body h pos n s = Fault OutOfFuel"
| "safe_loop rd (Suc k) body h pos n s =
     (if pos = h then Ret s
      else bind_res (body pos s) (\<lambda>s'. bind_res (rd n (fst s')) (\<lambda>q. safe_loop rd k body h n q s')))"

definition list_for_each_safe :: "nat \<Rightarrow> 's loop_body \<Rightarrow> lptr \<Rightarrow> lmem \<times> 's \<Rightarrow> (lmem \<times> 's) res" where
  "list_for_each_safe k body h s =
     bind_res (get_next h (fst s)) (\<lambda>p. bind_res (get_next p (fst s)) (\<lambda>n. safe_loop get_next k body h p n s))"

definition list_for_each_prev_safe :: "nat \<Rightarrow> 's loop_body \<Rightarrow> lptr \<Rightarrow> lmem \<times> 's \<Rightarrow> (lmem \<times> 's) res" where
  "list_for_each_prev_safe k body h s =
     bind_res (get_prev h (fst s)) (\<lambda>p. bind_res (get_prev p (fst s)) (\<lambda>n. safe_loop get_prev k body h p n s))"

fun entry_loop :: "(lptr \<Rightarrow> lmem \<Rightarrow> lptr res) \<Rightarrow> nat \<Rightarrow> lptr \<Rightarrow> 's loop_body \<Rightarrow> lptr \<Rightarrow> lptr \<Rightarrow> lmem \<times> 's \<Rightarrow> (lmem \<times> 's) res" where
  "entry_loop rd 0 off body h pos s = Fault OutOfFuel"
| "entry_loop rd (Suc k) off body h pos s =
     (if pos + off = h then Ret s
      else bind_res (body pos s) (\<lambda>s'. bind_res (rd (pos + off) (fst s')) (\<lambda>q.
             entry_loop rd k off body h (list_entry off q) s')))"

definition list_for_each_entry :: "nat \<Rightarrow> lptr \<Rightarrow> 's loop_body \<Rightarrow> lptr \<Rightarrow> lmem \<times> 's \<Rightarrow> (lmem \<times> 's) res" where
  "list_for_each_entry k off body h s =
     bind_res (get_next h (fst s)) (\<lambda>q. entry_loop get_next k off body h (list_entry off q) s)"

definition list_for_each_entry_reverse :: "nat \<Rightarrow> lptr \<Rightarrow> 's loop_body \<Rightarrow> lptr \<Rightarrow> lmem \<times> 's \<Rightarrow> (lmem \<times> 's) res" where
  "list_for_each_entry_reverse k off body h s =
     bind_res (get_prev h (fst s)) (\<lambda>q. entry_loop get_prev k off body h (list_entry off q) s)"

definition list_prepare_entry :: "lptr \<Rightarrow> lptr \<Rightarrow> lptr \<Rightarrow> lptr" where
  "list_prepare_entry off pos h = (if pos \<noteq> 0 then pos else list_entry off h)"

definition list_for_each_entry_continue :: "nat \<Rightarrow> lptr \<Rightarrow> 's loop_body \<Rightarrow> lptr \<Rightarrow> lptr \<Rightarrow> lmem \<times> 's \<Rightarrow> (lmem \<times> 's) res" where
  "list_for_each_entry_continue k off body h pos s =
     bind_res (get_next (pos + off) (fst s)) (\<lambda>q. entry_loop get_next k off body h (list_entry off q) s)"

definition list_for_each_entry_continue_reverse :: "nat \<Rightarrow> lptr \<Rightarrow> 's loop_body \<Rightarrow> lptr \<Rightarrow> lptr \<Rightarrow> lmem \<times> 's \<Rightarrow> (lmem \<times> 's) res" where
  "list_for_each_entry_continue_reverse k off body h pos s =
     bind_res (get_prev (pos + off) (fst s)) (\<lambda>q. entry_loop get_prev k off body h (list_entry off q) s)"

definition list_for_each_entry_from :: "nat \<Rightarrow> lptr \<Rightarrow> 's loop_body \<Rightarrow> lptr \<Rightarrow> lptr \<Rightarrow> lmem \<times> 's \<Rightarrow> (lmem \<times> 's) res" where
  "list_for_each_entry_from k off body h pos s = entry_loop get_next k off body h pos s"

text \<open>Of the safe entry loops only \<open>list_for_each_entry_safe\<close> stops reading at the head; \<open>chk\<close> tells which.\<close>

fun safe_entry_loop ::
  "(lptr \<Rightarrow> lmem \<Rightarrow> lptr res) \<Rightarrow> bool \<Rightarrow> nat \<Rightarrow> lptr \<Rightarrow> 's loop_body \<Rightarrow> lptr \<Rightarrow> lptr \<Rightarrow> lptr \<Rightarrow> lmem \<times> 's \<Rightarrow> (lmem \<times> 's) res" where
  "safe_entry_loop rd chk 0 off body h pos n s = Fault OutOfFuel"
| "safe_entry_loop rd chk (Suc k) off body h pos n s =
     (if pos + off = h then Ret s
      else bind_res (body pos s) (\<lambda>s'.
        if chk \<and> n + off = h then safe_entry_loop rd chk k off body h n 0 s'
        else bind_res (rd (n + off) (fst s')) (\<lambda>q. safe_entry_loop rd chk k off body h n (list_entry off q) s')))"

definition list_for_each_entry_safe :: "nat \<Rightarrow> lptr \<Rightarrow> 's loop_body \<Rightarrow> lptr \<Rightarrow> lmem \<times> 's \<Rightarrow> (lmem \<times> 's) res" where
  "list_for_each_entry_safe k off body h s =
     bind_res (get_next h (fst s)) (\<lambda>p. bind_res (get_next (list_entry off p + off) (fst s)) (\<lambda>n.
       safe_entry_loop get_next True k off body h (list_entry off p) (list_entry off n) s))"

definition list_for_each_entry_safe_continue :: "nat \<Rightarrow> lptr \<Rightarrow> 's loop_body \<Rightarrow> lptr \<Rightarrow> lptr \<Rightarrow> lmem \<times> 's \<Rightarrow> (lmem \<times> 's) res" where
  "list_for_each_entry_safe_continue k off body h pos s =
     bind_res (get_next (pos + off) (fst s)) (\<lambda>p. bind_res (get_next (list_entry off p + off) (fst s)) (\<lambda>n.
       safe_entry_loop get_next False k off body h (list_entry off p) (list_entry off n) s))"

definition list_for_each_entry_safe_from :: "nat \<Rightarrow> lptr \<Rightarrow> 's loop_body \<Rightarrow> lptr \<Rightarrow> lptr \<Rightarrow> lmem \<times> 's \<Rightarrow> (lmem \<times> 's) res" where
  "list_for_each_entry_safe_from k off body h pos s =
     bind_res (get_next (pos + off) (fst s)) (\<lambda>n. safe_entry_loop get_next False k off body h pos (list_entry off n) s)"

definition list_for_each_entry_safe_reverse :: "nat \<Rightarrow> lptr \<Rightarrow> 's loop_body \<Rightarrow> lptr \<Rightarrow> lmem \<times> 's \<Rightarrow> (lmem \<times> 's) res" where
  "list_for_each_entry_safe_reverse k off body h s =
     bind_res (get_prev h (fst s)) (\<lambda>p. bind_res (get_prev (list_entry off p + off) (fst s)) (\<lambda>n.
       safe_entry_loop get_prev False k off body h (list_entry off p) (list_entry off n) s))"

definition list_safe_reset_next :: "lptr \<Rightarrow> lptr \<Rightarrow> lmem \<Rightarrow> lptr res" where
  "list_safe_reset_next off pos m = bind_res (get_next (pos + off) m) (\<lambda>q. Ret (list_entry off q))"

section \<open>Loads and stores\<close>

definition nx :: "lmem \<Rightarrow> lptr \<rightharpoonup> lptr" where
  "nx m p = map_option lnext (m p)"

definition pv :: "lmem \<Rightarrow> lptr \<rightharpoonup> lptr" where
  "pv m p = map_option lprev (m p)"

definition upn :: "lptr \<Rightarrow> lptr \<Rightarrow> lmem \<Rightarrow> lmem" where
  "upn p v m = m(p \<mapsto> (the (m p))\<lparr>lnext := v\<rparr>)"

definition upp :: "lptr \<Rightarrow> lptr \<Rightarrow> lmem \<Rightarrow> lmem" where
  "upp p v m = m(p \<mapsto> (the (m p))\<lparr>lprev := v\<rparr>)"

lemma dom_nx: "dom (nx m) = dom m" and dom_pv: "dom (pv m) = dom m"
  by (auto simp: nx_def pv_def)

lemma nx_in_dom: "nx m p = Some q \<Longrightarrow> p \<in> dom m" and pv_in_dom: "pv m p = Some q \<Longrightarrow> p \<in> dom m"
  by (auto simp: nx_def pv_def)

lemma get_next_nx: "nx m p = Some q \<Longrightarrow> get_next p m = Ret q"
  by (auto simp: nx_def get_next_def)

lemma get_prev_pv: "pv m p = Some q \<Longrightarrow> get_prev p m = Ret q"
  by (auto simp: pv_def get_prev_def)

lemma set_next_upn: "p \<in> dom m \<Longrightarrow> set_next p v m = Ret (upn p v m)"
  by (auto simp: set_next_def upn_def)

lemma set_prev_upp: "p \<in> dom m \<Longrightarrow> set_prev p v m = Ret (upp p v m)"
  by (auto simp: set_prev_def upp_def)

lemma dom_up [simp]: "dom (upn p v m) = insert p (dom m)" "dom (upp p v m) = insert p (dom m)"
  by (auto simp: upn_def upp_def)

lemma nx_up [simp]: "nx (upn p v m) = (nx m)(p \<mapsto> v)" "p \<in> dom m \<Longrightarrow> nx (upp p v m) = nx m"
  by (auto simp: nx_def upn_def upp_def fun_eq_iff)

lemma pv_up [simp]: "pv (upp p v m) = (pv m)(p \<mapsto> v)" "p \<in> dom m \<Longrightarrow> pv (upn p v m) = pv m"
  by (auto simp: pv_def upn_def upp_def fun_eq_iff)

lemmas mem_simps = get_next_nx get_prev_pv set_next_upn set_prev_upp

section \<open>The shape of a list\<close>

text \<open>\<open>lseg N P a xs z\<close>: from \<open>a\<close> over the entries \<open>xs\<close> to \<open>z\<close>, with every backward link the inverse of a forward one.\<close>

fun lseg :: "(lptr \<rightharpoonup> lptr) \<Rightarrow> (lptr \<rightharpoonup> lptr) \<Rightarrow> lptr \<Rightarrow> lptr list \<Rightarrow> lptr \<Rightarrow> bool" where
  "lseg N P a [] z \<longleftrightarrow> N a = Some z \<and> P z = Some a"
| "lseg N P a (x # xs) z \<longleftrightarrow> N a = Some x \<and> P x = Some a \<and> lseg N P x xs z"

definition circ :: "(lptr \<rightharpoonup> lptr) \<Rightarrow> (lptr \<rightharpoonup> lptr) \<Rightarrow> lptr \<Rightarrow> lptr list \<Rightarrow> bool" where
  "circ N P h xs \<longleftrightarrow> distinct (h # xs) \<and> lseg N P h xs h"

lemma lseg_append: "lseg N P a (xs @ y # ys) z \<longleftrightarrow> lseg N P a xs y \<and> lseg N P y ys z"
  by (induction xs arbitrary: a) auto

lemma lseg_frame:
  "(\<And>x. x \<in> set (a # xs) \<Longrightarrow> N' x = N x) \<Longrightarrow> (\<And>x. x \<in> insert z (set xs) \<Longrightarrow> P' x = P x) \<Longrightarrow>
   lseg N' P' a xs z = lseg N P a xs z"
  by (induction xs arbitrary: a) auto

lemma lseg_upd [simp]:
  "p \<notin> set (a # xs) \<Longrightarrow> lseg (N(p \<mapsto> v)) P a xs z = lseg N P a xs z"
  "p \<notin> insert z (set xs) \<Longrightarrow> lseg N (P(p \<mapsto> v)) a xs z = lseg N P a xs z"
  by (rule lseg_frame; auto)+

lemma lseg_ends: "lseg N P a xs z \<Longrightarrow> N a = Some (hd (xs @ [z]))" "lseg N P a xs z \<Longrightarrow> P z = Some (last (a # xs))"
  by (induction xs arbitrary: a) auto

lemma circ_ends: "circ N P h xs \<Longrightarrow> N h = Some (hd (xs @ [h]))" "circ N P h xs \<Longrightarrow> P h = Some (last (h # xs))"
  using lseg_ends [of N P h xs h] by (auto simp: circ_def)

lemma circ_rotate: "circ N P h (xs @ p # ys) \<longleftrightarrow> circ N P p (ys @ h # xs)"
  by (auto simp: circ_def lseg_append)

lemma circ_frame:
  "(\<And>x. x \<in> set (h # xs) \<Longrightarrow> N' x = N x \<and> P' x = P x) \<Longrightarrow> circ N' P' h xs = circ N P h xs"
  unfolding circ_def using lseg_frame [of h xs N' N h P' P] by auto

lemma circ_linked: "circ N P h xs \<Longrightarrow> x \<in> set (h # xs) \<Longrightarrow> x \<in> dom N \<and> x \<in> dom P"
proof -
  assume c: "circ N P h xs" and x: "x \<in> set (h # xs)"
  have "\<exists>ys. circ N P x ys"
  proof (cases "x = h")
    case False
    with x obtain as bs where "xs = as @ x # bs" using split_list by fastforce
    with c show ?thesis using circ_rotate by blast
  qed (use c in auto)
  then show ?thesis using circ_ends by blast
qed

lemma circ_empty: "circ N P h [] \<longleftrightarrow> N h = Some h \<and> P h = Some h"
  by (auto simp: circ_def)

lemma circ_add:
  assumes "circ N P h xs" "n \<notin> set (h # xs)"
  shows "circ (N(n \<mapsto> hd (xs @ [h]), h \<mapsto> n)) (P(hd (xs @ [h]) \<mapsto> n, n \<mapsto> h)) h (n # xs)"
  using assms by (cases xs) (auto simp: circ_def)

lemma circ_del:
  assumes "circ N P e (z # zs)"
  shows "circ (N(last (z # zs) \<mapsto> z)) (P(z \<mapsto> last (z # zs))) z zs"
proof (cases zs rule: rev_cases)
  case (snoc ys y)
  with assms show ?thesis by (auto simp: circ_def lseg_append)
qed (use assms in \<open>auto simp: circ_def\<close>)

lemma circ_splice:
  assumes "circ N P h xs" "circ N P l (y # ys)" "set (h # xs) \<inter> set (l # y # ys) = {}"
  shows "circ (N(h \<mapsto> y, last (y # ys) \<mapsto> hd (xs @ [h]))) (P(y \<mapsto> h, hd (xs @ [h]) \<mapsto> last (y # ys))) h (y # ys @ xs)"
proof -
  obtain as b where b: "y # ys = as @ [b]" by (metis rev_exhaust list.distinct(1))
  have l: "last (y # ys) = b" using b by simp
  have "circ (N(h \<mapsto> y, b \<mapsto> hd (xs @ [h]))) (P(y \<mapsto> h, hd (xs @ [h]) \<mapsto> b)) h (as @ b # xs)"
  proof (cases as)
    case Nil
    with b assms show ?thesis by (cases xs) (auto simp: circ_def)
  next
    case (Cons a as')
    with b assms show ?thesis by (cases xs) (auto simp: circ_def lseg_append)
  qed
  then show ?thesis using b l by (metis append_Cons append_Nil append_assoc)
qed

lemma circ_replace:
  assumes "circ N P old zs" "n \<notin> set (old # zs)" "zs \<noteq> []"
  shows "circ (N(n \<mapsto> hd zs, last zs \<mapsto> n)) (P(hd zs \<mapsto> n, n \<mapsto> last zs)) n zs"
proof -
  obtain z zs' where z: "zs = z # zs'" using assms(3) by (cases zs) auto
  show ?thesis
  proof (cases zs' rule: rev_cases)
    case (snoc ys y)
    with assms z show ?thesis by (auto simp: circ_def lseg_append)
  qed (use assms z in \<open>auto simp: circ_def\<close>)
qed

lemma circ_cut:
  assumes "circ N P h (as @ e # bs)" "l \<notin> set (h # as @ e # bs)"
  defines "f \<equiv> hd (as @ [e])" and "nf \<equiv> hd (bs @ [h])"
  shows "circ (N(l \<mapsto> f, e \<mapsto> l, h \<mapsto> nf)) (P(f \<mapsto> l, l \<mapsto> e, nf \<mapsto> h)) l (as @ [e])"
    and "circ (N(l \<mapsto> f, e \<mapsto> l, h \<mapsto> nf)) (P(f \<mapsto> l, l \<mapsto> e, nf \<mapsto> h)) h bs"
  using assms(1,2) unfolding f_def nf_def by (cases as; cases bs; auto simp: circ_def lseg_append)+

section \<open>Disjoint lists in memory\<close>

type_synonym lists = "lptr \<rightharpoonup> lptr list"

definition nodes :: "lists \<Rightarrow> lptr \<Rightarrow> lptr set" where
  "nodes A h = (case A h of None \<Rightarrow> {} | Some xs \<Rightarrow> set (h # xs))"

definition in_lists :: "lists \<Rightarrow> lptr set" where
  "in_lists A = (\<Union>h. nodes A h)"

definition disjoint_lists :: "lists \<Rightarrow> bool" where
  "disjoint_lists A \<longleftrightarrow> (\<forall>h k. h \<noteq> k \<longrightarrow> nodes A h \<inter> nodes A k = {})"

definition rep :: "lptr set \<Rightarrow> lists \<Rightarrow> lmem \<Rightarrow> bool" where
  "rep D A m \<longleftrightarrow> dom m = D \<and> disjoint_lists A \<and> (\<forall>h xs. A h = Some xs \<longrightarrow> circ (nx m) (pv m) h xs)"

lemma nodes_None [simp]: "A h = None \<Longrightarrow> nodes A h = {}"
  and nodes_Some [simp]: "A h = Some xs \<Longrightarrow> nodes A h = set (h # xs)"
  by (simp_all add: nodes_def)

lemma nodes_in: "A h = Some xs \<Longrightarrow> x \<in> set (h # xs) \<Longrightarrow> x \<in> in_lists A"
  by (auto simp: in_lists_def nodes_def intro!: exI [of _ h])

lemma rep_circ: "rep D A m \<Longrightarrow> A h = Some xs \<Longrightarrow> circ (nx m) (pv m) h xs"
  by (auto simp: rep_def)

lemma rep_in_dom: "rep D A m \<Longrightarrow> A h = Some xs \<Longrightarrow> x \<in> set (h # xs) \<Longrightarrow> x \<in> dom m"
  using circ_linked [of "nx m" "pv m" h xs x] by (auto simp: rep_def dom_nx)

lemma rep_disjoint: "rep D A m \<Longrightarrow> A h = Some xs \<Longrightarrow> A k = Some ys \<Longrightarrow> h \<noteq> k \<Longrightarrow> set (h # xs) \<inter> set (k # ys) = {}"
  unfolding rep_def disjoint_lists_def by (metis nodes_Some)

text \<open>
  The rule all operations go through: the lists that change, \<open>K\<close>, have the right shape afterwards; no other
  list has a node that was written to, or that the changed lists have taken.
\<close>

lemma rep_change:
  assumes r: "rep D A m" and d: "dom m' = D" and K: "\<And>k. k \<notin> K \<Longrightarrow> B k = A k \<or> B k = None"
    and T: "\<And>x. x \<notin> T \<Longrightarrow> nx m' x = nx m x \<and> pv m' x = pv m x"
    and o: "\<And>k. k \<notin> K \<Longrightarrow> nodes B k \<inter> T = {}"
    and c: "\<And>k xs. k \<in> K \<Longrightarrow> B k = Some xs \<Longrightarrow> circ (nx m') (pv m') k xs"
    and n: "\<And>k j. k \<in> K \<Longrightarrow> k \<noteq> j \<Longrightarrow> nodes B k \<inter> nodes B j = {}"
  shows "rep D B m'"
  unfolding rep_def
proof (intro conjI allI impI)
  show "dom m' = D" by (rule d)
  show "disjoint_lists B" unfolding disjoint_lists_def
  proof (intro allI impI)
    fix h k :: lptr assume hk: "h \<noteq> k"
    have "nodes A h \<inter> nodes A k = {}" using r hk by (auto simp: rep_def disjoint_lists_def)
    moreover have "x \<notin> K \<Longrightarrow> nodes B x \<subseteq> nodes A x" for x using K [of x] by (auto simp: nodes_def)
    ultimately show "nodes B h \<inter> nodes B k = {}" using n [of h k] n [of k h] hk by (cases "h \<in> K"; cases "k \<in> K") blast+
  qed
  fix h xs assume B: "B h = Some xs"
  show "circ (nx m') (pv m') h xs"
  proof (cases "h \<in> K")
    case False
    with K [of h] B have "A h = Some xs" by auto
    then have "circ (nx m) (pv m) h xs" using r by (rule rep_circ [rotated])
    moreover have "set (h # xs) \<inter> T = {}" using o [OF False] B by simp
    ultimately show ?thesis using T circ_frame [of h xs "nx m'" "nx m" "pv m'" "pv m"] by blast
  qed (use B c in blast)
qed

lemma rep_forget: "rep D A m \<Longrightarrow> rep D (A(h := None)) m"
  by (rule rep_change [where K = "{h}" and T = "{}"]) (auto simp: rep_def)

lemma rep_loose: "rep D A m \<Longrightarrow> e \<in> D \<Longrightarrow> e \<notin> in_lists A \<Longrightarrow> rep D A (m(e \<mapsto> l))"
  by (rule rep_change [where K = "{}" and T = "{e}"]) (auto simp: rep_def nx_def pv_def in_lists_def)

lemma hd_app: "hd (xs @ [h]) \<in> set (h # xs)" and last_app: "last (h # xs) \<in> set (h # xs)"
  by (cases xs; simp)+

lemma other_nodes: "rep D A m \<Longrightarrow> A h = Some xs \<Longrightarrow> k \<noteq> h \<Longrightarrow> x \<in> set (h # xs) \<Longrightarrow> x \<notin> nodes A k"
  unfolding rep_def disjoint_lists_def by (metis disjoint_iff nodes_Some)

lemma loose_nodes: "n \<notin> in_lists A \<Longrightarrow> n \<notin> nodes A k"
  by (auto simp: in_lists_def)

lemma nodes_upd: "nodes (A(h := b)) k = (if k = h then (case b of None \<Rightarrow> {} | Some xs \<Rightarrow> set (h # xs)) else nodes A k)"
  by (auto simp: nodes_def)

text \<open>The case of one list that changes: only its nodes and loose nodes are written and taken.\<close>

lemma rep_change_one:
  assumes r: "rep D A m" and A: "A h = Some xs" and d: "dom m' = D" and S: "S \<inter> in_lists A = {}"
    and T: "\<And>x. x \<notin> set (h # xs) \<union> S \<Longrightarrow> nx m' x = nx m x \<and> pv m' x = pv m x"
    and c: "circ (nx m') (pv m') h ys" and s: "set ys \<subseteq> set (h # xs) \<union> S"
  shows "rep D (A(h \<mapsto> ys)) m'"
proof (rule rep_change [OF r d _ T, where K = "{h}"])
  have o: "k \<noteq> h \<Longrightarrow> nodes A k \<inter> (set (h # xs) \<union> S) = {}" for k
    using other_nodes [OF r A, of k] S by (auto simp: in_lists_def)
  show "nodes (A(h \<mapsto> ys)) k \<inter> (set (h # xs) \<union> S) = {}" if "k \<notin> {h}" for k using o [of k] that by (simp add: nodes_upd)
  show "nodes (A(h \<mapsto> ys)) k \<inter> nodes (A(h \<mapsto> ys)) j = {}" if "k \<in> {h}" "k \<noteq> j" for k j
    using o [of j] s that by (auto simp: nodes_upd)
qed (use c in auto)

lemma rep_init:
  assumes r: "rep D A m" and l: "l \<in> D" "\<And>k. k \<noteq> l \<Longrightarrow> l \<notin> nodes A k"
  shows "\<exists>m'. INIT_LIST_HEAD l m = Ret m' \<and> rep D (A(l \<mapsto> [])) m'"
proof (intro exI conjI)
  have d: "l \<in> dom m" "dom m = D" using r l by (auto simp: rep_def)
  show "INIT_LIST_HEAD l m = Ret (upp l l (upn l l m))" using d by (simp add: INIT_LIST_HEAD_def mem_simps)
  show "rep D (A(l \<mapsto> [])) (upp l l (upn l l m))"
    using d l(2) by (intro rep_change [OF r, where K = "{l}" and T = "{l}"]) (auto simp: nodes_upd circ_empty insert_absorb)
qed

lemma list_add_between_run:
  assumes "{n, p, q} \<subseteq> dom m"
  shows "\<exists>m'. list_add_between n p q m = Ret m' \<and> dom m' = dom m \<and>
    nx m' = (nx m)(n \<mapsto> q, p \<mapsto> n) \<and> pv m' = (pv m)(q \<mapsto> n, n \<mapsto> p)"
  using assms by (simp add: list_add_between_def mem_simps insert_absorb)

lemma rep_add:
  assumes r: "rep D A m" and A: "A h = Some xs" and n: "n \<in> D" "n \<notin> in_lists A"
  shows "\<exists>m'. list_add n h m = Ret m' \<and> rep D (A(h \<mapsto> n # xs)) m'"
proof -
  let ?q = "hd (xs @ [h])"
  note c = rep_circ [OF r A]
  have "{n, h, ?q} \<subseteq> dom m" using r n rep_in_dom [OF r A] hd_app [of xs h] by (auto simp: rep_def)
  from list_add_between_run [OF this] obtain m' where m': "list_add_between n h ?q m = Ret m'" "dom m' = dom m"
    "nx m' = (nx m)(n \<mapsto> ?q, h \<mapsto> n)" "pv m' = (pv m)(?q \<mapsto> n, n \<mapsto> h)" by blast
  have "list_add n h m = Ret m'" using circ_ends(1) [OF c] m'(1) by (simp add: list_add_def mem_simps)
  moreover have "rep D (A(h \<mapsto> n # xs)) m'"
  proof (rule rep_change_one [OF r A, where S = "{n}"])
    have "n \<notin> set (h # xs)" using n(2) nodes_in [of A h xs] A by blast
    then show "circ (nx m') (pv m') h (n # xs)" unfolding m' by (rule circ_add [OF c])
  qed (use r n m' hd_app [of xs h] in \<open>auto simp: rep_def\<close>)
  ultimately show ?thesis by blast
qed

lemma rep_add_tail:
  assumes r: "rep D A m" and A: "A h = Some xs" and n: "n \<in> D" "n \<notin> in_lists A"
  shows "\<exists>m'. list_add_tail n h m = Ret m' \<and> rep D (A(h \<mapsto> xs @ [n])) m'"
proof -
  let ?p = "last (h # xs)"
  note c = rep_circ [OF r A]
  have "{n, ?p, h} \<subseteq> dom m" using r n rep_in_dom [OF r A] last_app [of h xs] by (auto simp: rep_def)
  from list_add_between_run [OF this] obtain m' where m': "list_add_between n ?p h m = Ret m'" "dom m' = dom m"
    "nx m' = (nx m)(n \<mapsto> h, ?p \<mapsto> n)" "pv m' = (pv m)(h \<mapsto> n, n \<mapsto> ?p)" by blast
  have "list_add_tail n h m = Ret m'" using circ_ends(2) [OF c] m'(1) by (simp add: list_add_tail_def mem_simps)
  moreover have "rep D (A(h \<mapsto> xs @ [n])) m'"
  proof (rule rep_change_one [OF r A, where S = "{n}"])
    have f: "n \<notin> set (h # xs)" using n(2) nodes_in [of A h xs] A by blast
    show "circ (nx m') (pv m') h (xs @ [n])"
    proof (cases xs rule: rev_cases)
      case Nil
      then show ?thesis unfolding m' using circ_add [OF c f] by simp
    next
      case (snoc ys y)
      then have "circ (nx m) (pv m) y (h # ys)" using c circ_rotate [of _ _ h ys y "[]"] by simp
      from circ_add [OF this, of n] f snoc have "circ (nx m') (pv m') y (n # h # ys)" unfolding m' by simp
      then show ?thesis using circ_rotate [of "nx m'" "pv m'" h ys y "[n]"] snoc by simp
    qed
  qed (use r n m' last_app [of h xs] in \<open>auto simp: rep_def\<close>)
  ultimately show ?thesis by blast
qed

lemma list_del_entry_run:
  assumes "circ (nx m) (pv m) h (as @ e # bs)"
  defines "p \<equiv> last (h # as)" and "q \<equiv> hd (bs @ [h])"
  shows "get_prev e m = Ret p" "get_next e m = Ret q" "{p, q} \<subseteq> dom m"
    "\<exists>m'. list_del_between p q m = Ret m' \<and> dom m' = dom m \<and> nx m' = (nx m)(p \<mapsto> q) \<and> pv m' = (pv m)(q \<mapsto> p)"
proof -
  have r: "circ (nx m) (pv m) e (bs @ h # as)" using assms(1) by (simp add: circ_rotate)
  have l: "last (e # bs @ h # as) = p" "hd ((bs @ h # as) @ [e]) = q" by (simp_all add: p_def q_def hd_append)
  show "get_prev e m = Ret p" "get_next e m = Ret q" using circ_ends [OF r] l by (simp_all add: mem_simps)
  show "{p, q} \<subseteq> dom m" using circ_linked [OF assms(1)] hd_app [of bs h] last_app [of h as] unfolding p_def q_def
    by (auto simp: dom_nx)
  then show "\<exists>m'. list_del_between p q m = Ret m' \<and> dom m' = dom m \<and> nx m' = (nx m)(p \<mapsto> q) \<and> pv m' = (pv m)(q \<mapsto> p)"
    by (simp add: list_del_between_def mem_simps insert_absorb)
qed

lemma circ_del_entry:
  assumes "circ N P h (as @ e # bs)"
  shows "circ (N(last (h # as) \<mapsto> hd (bs @ [h]))) (P(hd (bs @ [h]) \<mapsto> last (h # as))) h (as @ bs)"
proof -
  have r: "circ N P e (bs @ h # as)" using assms by (simp add: circ_rotate)
  show ?thesis
  proof (cases bs)
    case Nil
    then show ?thesis using circ_del [of N P e h as] r by simp
  next
    case (Cons b bs')
    then show ?thesis using circ_del [of N P e b "bs' @ h # as"] r by (simp add: circ_rotate)
  qed
qed

lemma rep_del_entry:
  assumes r: "rep D A m" and A: "A h = Some (as @ e # bs)"
  shows "\<exists>m'. list_del_entry e m = Ret m' \<and> rep D (A(h \<mapsto> as @ bs)) m'"
proof -
  note c = rep_circ [OF r A]
  from list_del_entry_run [OF c] obtain m' where m': "list_del_entry e m = Ret m'" "dom m' = dom m"
    "nx m' = (nx m)(last (h # as) \<mapsto> hd (bs @ [h]))" "pv m' = (pv m)(hd (bs @ [h]) \<mapsto> last (h # as))"
    by (auto simp: list_del_entry_def)
  moreover have "rep D (A(h \<mapsto> as @ bs)) m'"
  proof (rule rep_change_one [OF r A, where S = "{}"])
    show "circ (nx m') (pv m') h (as @ bs)" unfolding m' by (rule circ_del_entry [OF c])
  qed (use r m' hd_app [of bs h] last_app [of h as] in \<open>auto simp: rep_def\<close>)
  ultimately show ?thesis by blast
qed

lemma deleted_loose:
  assumes r: "rep D A m" and A: "A h = Some (as @ e # bs)"
  shows "e \<notin> in_lists (A(h \<mapsto> as @ bs))" and "e \<in> D"
proof -
  have "e \<notin> set (h # as @ bs)" using rep_circ [OF r A] by (auto simp: circ_def)
  moreover have "e \<notin> nodes A k" if "k \<noteq> h" for k using other_nodes [OF r A that, of e] by simp
  ultimately show "e \<notin> in_lists (A(h \<mapsto> as @ bs))" by (auto simp: in_lists_def nodes_upd)
  show "e \<in> D" using rep_in_dom [OF r A, of e] r by (simp add: rep_def)
qed

lemma rep_del:
  assumes r: "rep D A m" and A: "A h = Some (as @ e # bs)"
  shows "\<exists>m'. list_del e m = Ret m' \<and> rep D (A(h \<mapsto> as @ bs)) m' \<and> m' e = Some \<lparr>lnext = LIST_POISON1, lprev = LIST_POISON2\<rparr>"
proof -
  let ?B = "A(h \<mapsto> as @ bs)" and ?l = "\<lparr>lnext = LIST_POISON1, lprev = LIST_POISON2\<rparr>"
  obtain m1 where m1: "list_del_entry e m = Ret m1" "rep D ?B m1" using rep_del_entry [OF r A] by blast
  note l = deleted_loose [OF r A]
  then have e: "e \<in> dom m1" using m1(2) by (simp add: rep_def)
  then obtain x where x: "m1 e = Some x" by auto
  have "list_del e m = Ret (m1(e \<mapsto> ?l))"
    using m1(1) x by (cases x) (auto simp: list_del_def list_del_entry_def set_next_def set_prev_def)
  then show ?thesis using rep_loose [OF m1(2) l(2,1)] by simp
qed

text \<open>Replacing the head of a list, which is what replacing an entry is after turning the ring.\<close>

lemma list_replace_run:
  assumes "circ (nx m) (pv m) old zs" "n \<in> dom m" "n \<notin> set (old # zs)"
  shows "\<exists>m'. list_replace old n m = Ret m' \<and> dom m' = dom m \<and> circ (nx m') (pv m') n zs \<and>
    (\<forall>x. x \<notin> set (n # old # zs) \<longrightarrow> nx m' x = nx m x \<and> pv m' x = pv m x)"
proof -
  let ?q = "hd (zs @ [old])" and ?p = "last (old # zs)"
  have d: "old \<in> dom m" "?q \<in> dom m" "?p \<in> dom m"
    using circ_linked [OF assms(1)] hd_app [of zs old] last_app [of old zs] by (auto simp: dom_nx)
  note e = circ_ends [OF assms(1)]
  show ?thesis
  proof (cases zs)
    case Nil
    with e d assms show ?thesis by (simp add: list_replace_def mem_simps insert_absorb circ_empty)
  next
    case (Cons z zs')
    have "z \<noteq> old" "n \<noteq> old" using assms(1,3) Cons by (auto simp: circ_def)
    with e d assms(2,3) Cons have run: "list_replace old n m = Ret (upn ?p n (upp n ?p (upp ?q n (upn n ?q m))))"
      by (simp add: list_replace_def mem_simps insert_absorb)
    let ?m = "upn ?p n (upp n ?p (upp ?q n (upn n ?q m)))"
    have "nx ?m = (nx m)(n \<mapsto> z, last zs \<mapsto> n)" "pv ?m = (pv m)(z \<mapsto> n, n \<mapsto> last zs)" "dom ?m = dom m"
      using d assms(2) Cons by (simp_all add: insert_absorb)
    then show ?thesis using run circ_replace [OF assms(1,3)] Cons last_app [of z zs']
      by (auto intro!: exI [of _ ?m])
  qed
qed

lemma rep_replace_entry:
  assumes r: "rep D A m" and A: "A h = Some (as @ old # bs)" and n: "n \<in> D" "n \<notin> in_lists A"
  shows "\<exists>m'. list_replace old n m = Ret m' \<and> rep D (A(h \<mapsto> as @ n # bs)) m'"
proof -
  have f: "n \<notin> set (h # as @ old # bs)" using n(2) nodes_in [of A h "as @ old # bs"] A by blast
  have d: "n \<in> dom m" and f': "n \<notin> set (old # bs @ h # as)" using f n r by (auto simp: rep_def)
  have "circ (nx m) (pv m) old (bs @ h # as)" using rep_circ [OF r A] by (simp add: circ_rotate)
  from list_replace_run [OF this d f'] obtain m' where m': "list_replace old n m = Ret m'" "dom m' = dom m"
    "circ (nx m') (pv m') n (bs @ h # as)" "\<And>x. x \<notin> set (n # old # bs @ h # as) \<Longrightarrow> nx m' x = nx m x \<and> pv m' x = pv m x"
    by blast
  have "rep D (A(h \<mapsto> as @ n # bs)) m'"
    using r n m' by (intro rep_change_one [OF r A, where S = "{n}"]) (auto simp: rep_def circ_rotate)
  with m'(1) show ?thesis by blast
qed

lemma rep_replace_head:
  assumes r: "rep D A m" and A: "A old = Some zs" and n: "n \<in> D" "n \<notin> in_lists A"
  shows "\<exists>m'. list_replace old n m = Ret m' \<and> rep D (A(old := None, n \<mapsto> zs)) m'"
proof -
  have f: "n \<notin> set (old # zs)" using n(2) nodes_in [of A old zs] A by blast
  have d: "n \<in> dom m" using n r by (auto simp: rep_def)
  from list_replace_run [OF rep_circ [OF r A] d f] obtain m' where m': "list_replace old n m = Ret m'" "dom m' = dom m"
    "circ (nx m') (pv m') n zs" "\<And>x. x \<notin> set (n # old # zs) \<Longrightarrow> nx m' x = nx m x \<and> pv m' x = pv m x"
    by blast
  have o: "k \<noteq> old \<Longrightarrow> nodes A k \<inter> set (n # old # zs) = {}" for k
    using other_nodes [OF r A, of k] loose_nodes [OF n(2)] by auto
  have "rep D (A(old := None, n \<mapsto> zs)) m'"
  proof (rule rep_change [OF r, where K = "{old, n}" and T = "set (n # old # zs)"])
    show "nodes (A(old := None, n \<mapsto> zs)) k \<inter> set (n # old # zs) = {}" if "k \<notin> {old, n}" for k
      using o [of k] that by (simp add: nodes_upd)
    show "nodes (A(old := None, n \<mapsto> zs)) k \<inter> nodes (A(old := None, n \<mapsto> zs)) j = {}" if "k \<in> {old, n}" "k \<noteq> j" for k j
      using o [of j] f that by (auto simp: nodes_upd)
  qed (use r m' f in \<open>auto simp: rep_def split: if_splits\<close>)
  with m'(1) show ?thesis by blast
qed

lemma list_empty_circ: "circ (nx m) (pv m) h xs \<Longrightarrow> list_empty h m = Ret (xs = [])"
  using circ_ends(1) [of "nx m" "pv m" h xs] by (cases xs) (auto simp: list_empty_def mem_simps circ_def)

lemma list_splice_between_run:
  assumes "circ (nx m) (pv m) l (y # ys)" "{p, q} \<subseteq> dom m"
  shows "\<exists>m'. list_splice_between l p q m = Ret m' \<and> dom m' = dom m \<and>
    nx m' = (nx m)(p \<mapsto> y, last (y # ys) \<mapsto> q) \<and> pv m' = (pv m)(y \<mapsto> p, q \<mapsto> last (y # ys))"
proof -
  have "y \<in> dom m" "last (y # ys) \<in> dom m" using circ_linked [OF assms(1)] last_app [of y ys] by (auto simp: dom_nx)
  then show ?thesis using assms(2) circ_ends [OF assms(1)] by (simp add: list_splice_between_def mem_simps insert_absorb)
qed

lemma rep_change_two:
  assumes r: "rep D A m" and A: "A h = Some xs" "A l = Some ys" "h \<noteq> l" and d: "dom m' = D"
    and T: "\<And>x. x \<notin> set (h # xs) \<union> set (l # ys) \<Longrightarrow> nx m' x = nx m x \<and> pv m' x = pv m x"
    and c: "circ (nx m') (pv m') h zs" and s: "set zs \<subseteq> set (h # xs) \<union> set ys"
  shows "rep D (A(h \<mapsto> zs, l := None)) m'"
proof (rule rep_change [OF r d _ T, where K = "{h, l}"])
  have o: "k \<noteq> h \<Longrightarrow> k \<noteq> l \<Longrightarrow> nodes A k \<inter> (set (h # xs) \<union> set (l # ys)) = {}" for k
    using other_nodes [OF r A(1), of k] other_nodes [OF r A(2), of k] by blast
  show "nodes (A(h \<mapsto> zs, l := None)) k \<inter> (set (h # xs) \<union> set (l # ys)) = {}" if "k \<notin> {h, l}" for k
    using o [of k] that by (simp add: nodes_upd)
  show "nodes (A(h \<mapsto> zs, l := None)) k \<inter> nodes (A(h \<mapsto> zs, l := None)) j = {}" if "k \<in> {h, l}" "k \<noteq> j" for k j
    using o [of j] s that by (auto simp: nodes_upd)
qed (use c A(3) in auto)

lemma rep_splice:
  assumes r: "rep D A m" and A: "A h = Some xs" "A l = Some (y # ys)" "h \<noteq> l"
  shows "\<exists>q m'. get_next h m = Ret q \<and> list_splice_between l h q m = Ret m' \<and> rep D (A(h \<mapsto> (y # ys) @ xs, l := None)) m'"
proof -
  let ?q = "hd (xs @ [h])"
  note c = rep_circ [OF r A(1)]
  have "{h, ?q} \<subseteq> dom m" using rep_in_dom [OF r A(1)] hd_app [of xs h] by auto
  from list_splice_between_run [OF rep_circ [OF r A(2)] this] obtain m' where m': "list_splice_between l h ?q m = Ret m'"
    "dom m' = dom m" "nx m' = (nx m)(h \<mapsto> y, last (y # ys) \<mapsto> ?q)" "pv m' = (pv m)(y \<mapsto> h, ?q \<mapsto> last (y # ys))" by blast
  have "rep D (A(h \<mapsto> (y # ys) @ xs, l := None)) m'"
  proof (rule rep_change_two [OF r A])
    show "circ (nx m') (pv m') h ((y # ys) @ xs)"
      using circ_splice [OF c rep_circ [OF r A(2)] rep_disjoint [OF r A(1,2,3)]] unfolding m' by simp
    show "nx m' x = nx m x \<and> pv m' x = pv m x" if "x \<notin> set (h # xs) \<union> set (l # y # ys)" for x
      using that hd_app [of xs h] last_app [of y ys] unfolding m' by auto
  qed (use r m' in \<open>auto simp: rep_def\<close>)
  then show ?thesis using m'(1) circ_ends(1) [OF c] by (auto simp: mem_simps)
qed

lemma circ_splice_tail:
  assumes "circ N P h xs" "circ N P l (y # ys)" "set (h # xs) \<inter> set (l # y # ys) = {}"
  shows "circ (N(last (h # xs) \<mapsto> y, last (y # ys) \<mapsto> h)) (P(y \<mapsto> last (h # xs), h \<mapsto> last (y # ys))) h (xs @ y # ys)"
proof (cases xs rule: rev_cases)
  case Nil
  then show ?thesis using circ_splice [OF assms] by simp
next
  case (snoc zs z)
  then have "circ N P z (h # zs)" using assms(1) circ_rotate [of N P h zs z "[]"] by simp
  moreover have "set (z # h # zs) \<inter> set (l # y # ys) = {}" using assms(3) snoc by auto
  ultimately have "circ (N(z \<mapsto> y, last (y # ys) \<mapsto> h)) (P(y \<mapsto> z, h \<mapsto> last (y # ys))) z (y # ys @ h # zs)"
    using circ_splice [of N P z "h # zs" l y ys] assms(2) by simp
  then show ?thesis using circ_rotate [of _ _ h zs z "y # ys"] snoc by simp
qed

lemma rep_splice_tail:
  assumes r: "rep D A m" and A: "A h = Some xs" "A l = Some (y # ys)" "h \<noteq> l"
  shows "\<exists>p m'. get_prev h m = Ret p \<and> list_splice_between l p h m = Ret m' \<and> rep D (A(h \<mapsto> xs @ y # ys, l := None)) m'"
proof -
  let ?p = "last (h # xs)"
  note c = rep_circ [OF r A(1)]
  have "{?p, h} \<subseteq> dom m" using rep_in_dom [OF r A(1)] last_app [of h xs] by auto
  from list_splice_between_run [OF rep_circ [OF r A(2)] this] obtain m' where m': "list_splice_between l ?p h m = Ret m'"
    "dom m' = dom m" "nx m' = (nx m)(?p \<mapsto> y, last (y # ys) \<mapsto> h)" "pv m' = (pv m)(y \<mapsto> ?p, h \<mapsto> last (y # ys))" by blast
  have "rep D (A(h \<mapsto> xs @ y # ys, l := None)) m'"
  proof (rule rep_change_two [OF r A])
    show "circ (nx m') (pv m') h (xs @ y # ys)"
      using circ_splice_tail [OF c rep_circ [OF r A(2)] rep_disjoint [OF r A(1,2,3)]] unfolding m' by simp
    show "nx m' x = nx m x \<and> pv m' x = pv m x" if "x \<notin> set (h # xs) \<union> set (l # y # ys)" for x
      using that last_app [of h xs] last_app [of y ys] unfolding m' by auto
  qed (use r m' in \<open>auto simp: rep_def\<close>)
  then show ?thesis using m'(1) circ_ends(2) [OF c] by (auto simp: mem_simps)
qed

lemma list_is_singular_circ: "circ (nx m) (pv m) h xs \<Longrightarrow> list_is_singular h m = Ret (length xs = 1)"
proof -
  assume c: "circ (nx m) (pv m) h xs"
  then have "list_is_singular h m = Ret (xs \<noteq> [] \<and> hd (xs @ [h]) = last (h # xs))"
    using circ_ends [OF c] list_empty_circ [OF c] by (simp add: list_is_singular_def mem_simps)
  moreover have "xs \<noteq> [] \<and> hd (xs @ [h]) = last (h # xs) \<longleftrightarrow> length xs = 1"
    using c by (cases xs rule: rev_cases; cases "butlast xs") (auto simp: circ_def hd_append)
  ultimately show ?thesis by simp
qed

lemma list_cut_at_run:
  assumes c: "circ (nx m) (pv m) h (as @ e # bs)" and l: "l \<in> dom m" "l \<notin> set (h # as @ e # bs)"
  defines "f \<equiv> hd (as @ [e])" and "nf \<equiv> hd (bs @ [h])"
  shows "\<exists>m'. list_cut_at l h e m = Ret m' \<and> dom m' = dom m \<and>
    nx m' = (nx m)(l \<mapsto> f, e \<mapsto> l, h \<mapsto> nf) \<and> pv m' = (pv m)(f \<mapsto> l, l \<mapsto> e, nf \<mapsto> h)"
proof -
  have "f \<in> set (h # as @ e # bs)" "nf \<in> set (h # as @ e # bs)"
    unfolding f_def nf_def using hd_app [of as e] hd_app [of bs h] by auto
  then have d: "h \<in> dom m" "e \<in> dom m" "f \<in> dom m" "nf \<in> dom m" using circ_linked [OF c] by (auto simp: dom_nx)
  have "nx m h = Some f" using circ_ends(1) [OF c] by (simp add: f_def hd_append)
  moreover have "nx m e = Some nf" using circ_ends(1) [of "nx m" "pv m" e "bs @ h # as"] c by (simp add: nf_def hd_append circ_rotate)
  ultimately show ?thesis using d l(1) by (simp add: list_cut_at_def mem_simps insert_absorb)
qed

lemma rep_cut:
  assumes r: "rep D A m" and A: "A h = Some (as @ e # bs)" and l: "l \<in> D" "l \<notin> in_lists A"
  shows "\<exists>m'. list_cut_position l h e m = Ret m' \<and> rep D (A(l \<mapsto> as @ [e], h \<mapsto> bs)) m'"
proof -
  note c = rep_circ [OF r A]
  have f: "l \<notin> set (h # as @ e # bs)" using l(2) nodes_in [of A h "as @ e # bs"] A by blast
  have d: "l \<in> dom m" using l r by (simp add: rep_def)
  let ?f = "hd (as @ [e])" and ?nf = "hd (bs @ [h])"
  from list_cut_at_run [OF c d f] obtain m' where m': "list_cut_at l h e m = Ret m'" "dom m' = dom m"
    "nx m' = (nx m)(l \<mapsto> ?f, e \<mapsto> l, h \<mapsto> ?nf)" "pv m' = (pv m)(?f \<mapsto> l, l \<mapsto> e, ?nf \<mapsto> h)" by blast
  have "e \<noteq> h" using c by (auto simp: circ_def)
  moreover have "length (as @ e # bs) = 1 \<Longrightarrow> hd (as @ e # bs @ [h]) = e" by simp
  ultimately have "list_cut_position l h e m = Ret m'"
    using m'(1) list_empty_circ [OF c] list_is_singular_circ [OF c] circ_ends(1) [OF c]
    by (auto simp: list_cut_position_def mem_simps)
  moreover have "rep D (A(l \<mapsto> as @ [e], h \<mapsto> bs)) m'"
  proof (rule rep_change [OF r, where K = "{l, h}" and T = "set (l # h # as @ e # bs)"])
    have o: "k \<noteq> h \<Longrightarrow> nodes A k \<inter> set (l # h # as @ e # bs) = {}" for k
      using other_nodes [OF r A, of k] loose_nodes [OF l(2)] by auto
    show "nodes (A(l \<mapsto> as @ [e], h \<mapsto> bs)) k \<inter> set (l # h # as @ e # bs) = {}" if "k \<notin> {l, h}" for k
      using o [of k] that by (simp add: nodes_upd)
    show "nodes (A(l \<mapsto> as @ [e], h \<mapsto> bs)) k \<inter> nodes (A(l \<mapsto> as @ [e], h \<mapsto> bs)) j = {}" if "k \<in> {l, h}" "k \<noteq> j" for k j
      using o [of j] f c that by (auto simp: nodes_upd circ_def)
    show "circ (nx m') (pv m') k xs" if "k \<in> {l, h}" "(A(l \<mapsto> as @ [e], h \<mapsto> bs)) k = Some xs" for k xs
      using that circ_cut [OF c f] f unfolding m' by (auto split: if_splits)
  qed (use r m' hd_app [of as e] hd_app [of bs h] in \<open>auto simp: rep_def\<close>)
  ultimately show ?thesis by blast
qed

end
