(* ===== verification/ListProps.thy ===== *)
theory ListProps
  imports Lists Simulation
begin

text \<open>
  What the linked lists of Lists promise.  \<open>spec_list\<close> is every operation as an operation on mere lists,
  \<open>list_enabled\<close> when it may be called; the interpretation \<open>linked_lists\<close> of \<open>step_refinement\<close> shows that the pointer
  code implements it.  The second part is about the loops: what they visit, and what may be deleted while
  they run.
\<close>

section \<open>The operations on disjoint lists\<close>

datatype list_op =
    Op_init lptr
  | Op_add lptr lptr
  | Op_add_tail lptr lptr
  | Op_del lptr
  | Op_del_init lptr
  | Op_replace lptr lptr
  | Op_replace_init lptr lptr
  | Op_move lptr lptr
  | Op_move_tail lptr lptr
  | Op_rotate_left lptr
  | Op_cut lptr lptr lptr
  | Op_splice lptr lptr
  | Op_splice_tail lptr lptr
  | Op_splice_init lptr lptr
  | Op_splice_tail_init lptr lptr

fun list_run :: "list_op \<Rightarrow> lmem \<Rightarrow> lmem res" where
  "list_run (Op_init l) = INIT_LIST_HEAD l"
| "list_run (Op_add n h) = list_add n h"
| "list_run (Op_add_tail n h) = list_add_tail n h"
| "list_run (Op_del e) = list_del e"
| "list_run (Op_del_init e) = list_del_init e"
| "list_run (Op_replace old n) = list_replace old n"
| "list_run (Op_replace_init old n) = list_replace_init old n"
| "list_run (Op_move e h) = list_move e h"
| "list_run (Op_move_tail e h) = list_move_tail e h"
| "list_run (Op_rotate_left h) = list_rotate_left h"
| "list_run (Op_cut l h e) = list_cut_position l h e"
| "list_run (Op_splice l h) = list_splice l h"
| "list_run (Op_splice_tail l h) = list_splice_tail l h"
| "list_run (Op_splice_init l h) = list_splice_init l h"
| "list_run (Op_splice_tail_init l h) = list_splice_tail_init l h"

text \<open>What the operations mean, on lists that are simply lists.\<close>

definition the_list :: "lists \<Rightarrow> lptr \<Rightarrow> lptr list" where
  "the_list A h = (case A h of None \<Rightarrow> [] | Some xs \<Rightarrow> xs)"

definition drop_entry :: "lptr \<Rightarrow> lists \<Rightarrow> lists" where
  "drop_entry e A = (\<lambda>h. map_option (removeAll e) (A h))"

definition exchange :: "lptr \<Rightarrow> lptr \<Rightarrow> lists \<Rightarrow> lists" where
  "exchange old n A =
     (case A old of
        Some xs \<Rightarrow> A(old := None, n \<mapsto> xs)
      | None \<Rightarrow> (\<lambda>h. map_option (map (\<lambda>x. if x = old then n else x)) ((A(n := None)) h)))"

fun spec_list :: "list_op \<Rightarrow> lists \<Rightarrow> lists" where
  "spec_list (Op_init l) A = A(l \<mapsto> [])"
| "spec_list (Op_add n h) A = A(n := None, h \<mapsto> n # the_list A h)"
| "spec_list (Op_add_tail n h) A = A(n := None, h \<mapsto> the_list A h @ [n])"
| "spec_list (Op_del e) A = drop_entry e A"
| "spec_list (Op_del_init e) A = (drop_entry e A)(e \<mapsto> [])"
| "spec_list (Op_replace old n) A = exchange old n A"
| "spec_list (Op_replace_init old n) A = (exchange old n A)(old \<mapsto> [])"
| "spec_list (Op_move e h) A = (drop_entry e A)(h \<mapsto> e # removeAll e (the_list A h))"
| "spec_list (Op_move_tail e h) A = (drop_entry e A)(h \<mapsto> removeAll e (the_list A h) @ [e])"
| "spec_list (Op_rotate_left h) A = A(h \<mapsto> rotate1 (the_list A h))"
| "spec_list (Op_cut l h e) A =
     (let xs = the_list A h in
      if xs = [] then A
      else if e = h then A(l \<mapsto> [])
      else A(l \<mapsto> takeWhile (\<lambda>x. x \<noteq> e) xs @ [e], h \<mapsto> tl (dropWhile (\<lambda>x. x \<noteq> e) xs)))"
| "spec_list (Op_splice l h) A = (if the_list A l = [] then A else A(h \<mapsto> the_list A l @ the_list A h, l := None))"
| "spec_list (Op_splice_tail l h) A = (if the_list A l = [] then A else A(h \<mapsto> the_list A h @ the_list A l, l := None))"
| "spec_list (Op_splice_init l h) A = A(h \<mapsto> the_list A l @ the_list A h, l \<mapsto> [])"
| "spec_list (Op_splice_tail_init l h) A = A(h \<mapsto> the_list A h @ the_list A l, l \<mapsto> [])"

text \<open>
  When the operations may be called: \<open>spare\<close> is a list head that is no entry of another list, \<open>unused\<close> one that
  moreover is in no list or heads an empty one.
\<close>

definition spare :: "lptr set \<Rightarrow> lptr \<Rightarrow> lists \<Rightarrow> bool" where
  "spare D l A \<longleftrightarrow> l \<in> D \<and> (\<forall>k. k \<noteq> l \<longrightarrow> l \<notin> nodes A k)"

definition unused :: "lptr set \<Rightarrow> lptr \<Rightarrow> lists \<Rightarrow> bool" where
  "unused D n A \<longleftrightarrow> spare D n A \<and> the_list A n = []"

definition is_entry :: "lptr \<Rightarrow> lists \<Rightarrow> bool" where
  "is_entry e A \<longleftrightarrow> (\<exists>h xs. A h = Some xs \<and> e \<in> set xs)"

fun list_enabled :: "lptr set \<Rightarrow> list_op \<Rightarrow> lists \<Rightarrow> bool" where
  "list_enabled D (Op_init l) A \<longleftrightarrow> spare D l A"
| "list_enabled D (Op_add n h) A \<longleftrightarrow> h \<in> dom A \<and> n \<noteq> h \<and> unused D n A"
| "list_enabled D (Op_add_tail n h) A \<longleftrightarrow> h \<in> dom A \<and> n \<noteq> h \<and> unused D n A"
| "list_enabled D (Op_del e) A \<longleftrightarrow> is_entry e A"
| "list_enabled D (Op_del_init e) A \<longleftrightarrow> is_entry e A"
| "list_enabled D (Op_replace old n) A \<longleftrightarrow> (is_entry old A \<or> old \<in> dom A) \<and> old \<noteq> n \<and> unused D n A"
| "list_enabled D (Op_replace_init old n) A \<longleftrightarrow> (is_entry old A \<or> old \<in> dom A) \<and> old \<noteq> n \<and> unused D n A"
| "list_enabled D (Op_move e h) A \<longleftrightarrow> is_entry e A \<and> h \<in> dom A"
| "list_enabled D (Op_move_tail e h) A \<longleftrightarrow> is_entry e A \<and> h \<in> dom A"
| "list_enabled D (Op_rotate_left h) A \<longleftrightarrow> h \<in> dom A"
| "list_enabled D (Op_cut l h e) A \<longleftrightarrow> h \<in> dom A \<and> e \<in> set (h # the_list A h) \<and> l \<noteq> h \<and> spare D l A"
| "list_enabled D (Op_splice l h) A \<longleftrightarrow> l \<in> dom A \<and> h \<in> dom A \<and> l \<noteq> h"
| "list_enabled D (Op_splice_tail l h) A \<longleftrightarrow> l \<in> dom A \<and> h \<in> dom A \<and> l \<noteq> h"
| "list_enabled D (Op_splice_init l h) A \<longleftrightarrow> l \<in> dom A \<and> h \<in> dom A \<and> l \<noteq> h"
| "list_enabled D (Op_splice_tail_init l h) A \<longleftrightarrow> l \<in> dom A \<and> h \<in> dom A \<and> l \<noteq> h"

lemma the_list_Some [simp]: "A h = Some xs \<Longrightarrow> the_list A h = xs"
  by (simp add: the_list_def)

lemma forget_loose: "spare D n A \<Longrightarrow> n \<notin> in_lists (A(n := None))"
  by (auto simp: spare_def in_lists_def nodes_upd)

lemma entry_split:
  assumes "rep D A m" "is_entry e A"
  obtains h as bs where "A h = Some (as @ e # bs)" "drop_entry e A = A(h \<mapsto> as @ bs)" "e \<noteq> h"
proof -
  from assms(2) obtain h as bs where A: "A h = Some (as @ e # bs)" by (auto simp: is_entry_def dest!: split_list)
  have d: "e \<notin> set (h # as @ bs)" using rep_circ [OF assms(1) A] by (auto simp: circ_def)
  have "drop_entry e A k = (A(h \<mapsto> as @ bs)) k" for k
  proof (cases "k = h")
    case True
    with A d show ?thesis by (simp add: drop_entry_def)
  next
    case False
    with other_nodes [OF assms(1) A, of k e] show ?thesis by (cases "A k") (auto simp: drop_entry_def)
  qed
  with A d show thesis by (intro that [of h as bs]) auto
qed

lemma exchange_entry:
  assumes "rep D A m" "A h = Some (as @ old # bs)" "n \<noteq> old" "n \<noteq> h"
  shows "exchange old n A = A(n := None, h \<mapsto> as @ n # bs)"
proof -
  have d: "old \<notin> set (h # as @ bs)" using rep_circ [OF assms(1,2)] by (auto simp: circ_def)
  have N: "A old = None" using other_nodes [OF assms(1,2), of old old] d by (cases "A old") auto
  have e: "old \<notin> set xs \<Longrightarrow> map (\<lambda>x. if x = old then n else x) xs = xs" for xs by (induction xs) auto
  have "exchange old n A k = (A(n := None, h \<mapsto> as @ n # bs)) k" for k
  proof (cases "k = h")
    case True
    with assms(2,4) d N show ?thesis by (simp add: exchange_def e)
  next
    case False
    with other_nodes [OF assms(1,2), of k old] N e show ?thesis by (cases "A k") (auto simp: exchange_def)
  qed
  then show ?thesis by blast
qed

lemma step_add:
  assumes "rep D A m" "h \<in> dom A" "n \<noteq> h" "unused D n A"
  shows "\<exists>m'. list_add n h m = Ret m' \<and> rep D (spec_list (Op_add n h) A) m'"
    and "\<exists>m'. list_add_tail n h m = Ret m' \<and> rep D (spec_list (Op_add_tail n h) A) m'"
proof -
  from assms(2,3) obtain xs where "A h = Some xs" "(A(n := None)) h = Some xs" by auto
  with rep_forget [OF assms(1), of n] forget_loose [of D n A] assms(4)
  show "\<exists>m'. list_add n h m = Ret m' \<and> rep D (spec_list (Op_add n h) A) m'"
    "\<exists>m'. list_add_tail n h m = Ret m' \<and> rep D (spec_list (Op_add_tail n h) A) m'"
    using rep_add [of D "A(n := None)" m h xs n] rep_add_tail [of D "A(n := None)" m h xs n]
    by (auto simp: unused_def spare_def)
qed

lemma step_del_entry:
  assumes "rep D A m" "is_entry e A"
  shows "\<exists>m'. list_del_entry e m = Ret m' \<and> rep D (drop_entry e A) m' \<and> e \<in> D \<and> e \<notin> in_lists (drop_entry e A)"
proof -
  obtain h as bs where A: "A h = Some (as @ e # bs)" "drop_entry e A = A(h \<mapsto> as @ bs)" by (rule entry_split [OF assms])
  show ?thesis using rep_del_entry [OF assms(1) A(1)] deleted_loose [OF assms(1) A(1)] A(2) by auto
qed

lemma step_del:
  assumes "rep D A m" "is_entry e A"
  shows "\<exists>m'. list_del e m = Ret m' \<and> rep D (drop_entry e A) m'"
proof -
  obtain h as bs where A: "A h = Some (as @ e # bs)" "drop_entry e A = A(h \<mapsto> as @ bs)" by (rule entry_split [OF assms])
  show ?thesis using rep_del [OF assms(1) A(1)] A(2) by auto
qed

lemma step_init: "rep D A m \<Longrightarrow> l \<in> D \<Longrightarrow> l \<notin> in_lists A \<Longrightarrow> \<exists>m'. INIT_LIST_HEAD l m = Ret m' \<and> rep D (A(l \<mapsto> [])) m'"
  by (rule rep_init) (auto simp: in_lists_def)

lemma step_del_init:
  assumes "rep D A m" "is_entry e A"
  shows "\<exists>m'. list_del_init e m = Ret m' \<and> rep D ((drop_entry e A)(e \<mapsto> [])) m'"
  using step_del_entry [OF assms] step_init [of D "drop_entry e A" _ e] by (auto simp: list_del_init_def)

lemma step_move:
  assumes "rep D A m" "is_entry e A" "h \<in> dom A"
  shows "\<exists>m'. list_move e h m = Ret m' \<and> rep D (spec_list (Op_move e h) A) m'"
    and "\<exists>m'. list_move_tail e h m = Ret m' \<and> rep D (spec_list (Op_move_tail e h) A) m'"
proof -
  obtain m1 where m1: "list_del_entry e m = Ret m1" "rep D (drop_entry e A) m1" "e \<in> D" "e \<notin> in_lists (drop_entry e A)"
    using step_del_entry [OF assms(1,2)] by auto
  have h: "drop_entry e A h = Some (removeAll e (the_list A h))" using assms(3) by (auto simp: drop_entry_def)
  show "\<exists>m'. list_move e h m = Ret m' \<and> rep D (spec_list (Op_move e h) A) m'"
    "\<exists>m'. list_move_tail e h m = Ret m' \<and> rep D (spec_list (Op_move_tail e h) A) m'"
    using rep_add [OF m1(2) h m1(3,4)] rep_add_tail [OF m1(2) h m1(3,4)] m1(1)
    by (auto simp: list_move_def list_move_tail_def)
qed

lemma step_rotate:
  assumes r: "rep D A m" and h: "h \<in> dom A"
  shows "\<exists>m'. list_rotate_left h m = Ret m' \<and> rep D (spec_list (Op_rotate_left h) A) m'"
proof -
  from h obtain xs where A: "A h = Some xs" by auto
  note c = rep_circ [OF r A]
  show ?thesis
  proof (cases xs)
    case Nil
    then show ?thesis using A r list_empty_circ [OF c] by (simp add: list_rotate_left_def map_upd_triv)
  next
    case (Cons x ys)
    have "is_entry x A" unfolding is_entry_def using A Cons by (intro exI [of _ h] exI [of _ xs]) simp
    note mv = step_move(2) [OF r this h]
    obtain k as bs where k: "A k = Some (as @ x # bs)" "drop_entry x A = A(k \<mapsto> as @ bs)" by (rule entry_split [OF r \<open>is_entry x A\<close>])
    have "k = h" using other_nodes [OF r A, of k x] k(1) Cons by fastforce
    moreover have "x \<notin> set ys" using c Cons by (auto simp: circ_def)
    ultimately have "spec_list (Op_move_tail x h) A = A(h \<mapsto> ys @ [x])" using k(2) A Cons by simp
    with mv show ?thesis using A Cons list_empty_circ [OF c] circ_ends(1) [OF c] by (simp add: list_rotate_left_def mem_simps)
  qed
qed

lemma step_replace:
  assumes r: "rep D A m" and old: "is_entry old A \<or> old \<in> dom A" and n: "old \<noteq> n" "unused D n A"
  shows "\<exists>m'. list_replace old n m = Ret m' \<and> rep D (exchange old n A) m'"
proof -
  note f = rep_forget [OF r, of n] and l = forget_loose [of D n A]
  have D: "n \<in> D" and s: "spare D n A" using n(2) by (auto simp: unused_def spare_def)
  show ?thesis
  proof (cases "A old")
    case (Some xs)
    then have "exchange old n A = (A(n := None))(old := None, n \<mapsto> xs)" by (auto simp: exchange_def)
    then show ?thesis using rep_replace_head [OF f _ D l [OF s], of old xs] Some n(1) by simp
  next
    case None
    with old have "is_entry old A" by auto
    then obtain h as bs where A: "A h = Some (as @ old # bs)" by (rule entry_split [OF r])
    have h: "n \<noteq> h" using n(2) A by (auto simp: unused_def)
    show ?thesis using rep_replace_entry [OF f _ D l [OF s], of h as old bs] A h exchange_entry [OF r A] n(1) by simp
  qed
qed

lemma exchanged_loose:
  assumes r: "rep D A m" and old: "is_entry old A \<or> old \<in> dom A" and n: "old \<noteq> n" "unused D n A"
  shows "old \<notin> in_lists (exchange old n A)" and "old \<in> D"
proof -
  obtain h xs where A: "A h = Some xs" "old \<in> set (h # xs)" using old by (auto simp: is_entry_def)
  show "old \<in> D" using rep_in_dom [OF r A] r by (simp add: rep_def)
  show "old \<notin> in_lists (exchange old n A)"
  proof (cases "A old")
    case (Some ys)
    then have "exchange old n A = A(old := None, n \<mapsto> ys)" by (auto simp: exchange_def)
    moreover have "old \<notin> set ys" using rep_circ [OF r Some] by (auto simp: circ_def)
    moreover have "k \<noteq> old \<Longrightarrow> old \<notin> nodes A k" for k using other_nodes [OF r Some, of k old] by simp
    ultimately show ?thesis using n(1) by (auto simp: in_lists_def nodes_upd)
  next
    case None
    with old have "is_entry old A" by auto
    then obtain h as bs where A: "A h = Some (as @ old # bs)" by (rule entry_split [OF r])
    have h: "n \<noteq> h" using n(2) A by (auto simp: unused_def)
    have "old \<notin> set (h # as @ bs)" using rep_circ [OF r A] by (auto simp: circ_def)
    moreover have "k \<noteq> h \<Longrightarrow> old \<notin> nodes A k" for k using other_nodes [OF r A, of k old] by simp
    ultimately show ?thesis using n(1) exchange_entry [OF r A _ h] by (auto simp: in_lists_def nodes_upd)
  qed
qed

lemma step_replace_init:
  assumes "rep D A m" "is_entry old A \<or> old \<in> dom A" "old \<noteq> n" "unused D n A"
  shows "\<exists>m'. list_replace_init old n m = Ret m' \<and> rep D ((exchange old n A)(old \<mapsto> [])) m'"
  using step_replace [OF assms] exchanged_loose [OF assms] step_init [of D "exchange old n A" _ old]
  by (auto simp: list_replace_init_def)

lemma step_cut:
  assumes r: "rep D A m" and h: "h \<in> dom A" "e \<in> set (h # the_list A h)" "l \<noteq> h" and l: "spare D l A"
  shows "\<exists>m'. list_cut_position l h e m = Ret m' \<and> rep D (spec_list (Op_cut l h e) A) m'"
proof -
  from h(1) obtain xs where A: "A h = Some xs" by auto
  note c = rep_circ [OF r A]
  show ?thesis
  proof (cases "xs = [] \<or> e = h")
    case True
    then show ?thesis
      using A r l rep_init [OF r, of l] list_empty_circ [OF c] list_is_singular_circ [OF c] circ_ends(1) [OF c]
      by (auto simp: list_cut_position_def spare_def mem_simps)
  next
    case False
    with h(2) A have "e \<in> set xs" by simp
    from split_list_first [OF this] obtain as bs where xs: "xs = as @ e # bs" "e \<notin> set as" by blast
    have "takeWhile (\<lambda>x. x \<noteq> e) xs = as" "dropWhile (\<lambda>x. x \<noteq> e) xs = e # bs"
      using xs by (auto simp: takeWhile_append dropWhile_append)
    moreover have "(A(l := None)) h = Some (as @ e # bs)" using A xs h(3) by simp
    ultimately show ?thesis using rep_cut [OF rep_forget [OF r, of l] _ _ forget_loose [OF l]] l False A by (simp add: spare_def)
  qed
qed

lemma step_splice:
  assumes r: "rep D A m" and h: "l \<in> dom A" "h \<in> dom A" "l \<noteq> h"
  shows "\<exists>m'. list_splice l h m = Ret m' \<and> rep D (spec_list (Op_splice l h) A) m'"
    and "\<exists>m'. list_splice_tail l h m = Ret m' \<and> rep D (spec_list (Op_splice_tail l h) A) m'"
proof -
  from h obtain ys xs where A: "A l = Some ys" "A h = Some xs" by auto
  note e = list_empty_circ [OF rep_circ [OF r A(1)]]
  show "\<exists>m'. list_splice l h m = Ret m' \<and> rep D (spec_list (Op_splice l h) A) m'"
    using e r A rep_splice [OF r A(2)] h(3) by (cases ys) (fastforce simp: list_splice_def)+
  show "\<exists>m'. list_splice_tail l h m = Ret m' \<and> rep D (spec_list (Op_splice_tail l h) A) m'"
    using e r A rep_splice_tail [OF r A(2)] h(3) by (cases ys) (fastforce simp: list_splice_tail_def)+
qed

text \<open>A list that was spliced into another one can be initialised again.\<close>

lemma step_reinit:
  assumes r: "rep D A m" and A: "A l = Some ys" and B: "rep D (A(h \<mapsto> zs, l := None)) m'" and s: "l \<notin> set (h # zs)"
  shows "\<exists>m''. INIT_LIST_HEAD l m' = Ret m'' \<and> rep D (A(h \<mapsto> zs, l \<mapsto> [])) m''"
proof -
  have "l \<in> D" using rep_in_dom [OF r A, of l] r by (simp add: rep_def)
  moreover have "k \<noteq> l \<Longrightarrow> l \<notin> nodes A k" for k using other_nodes [OF r A, of k l] by simp
  ultimately show ?thesis using rep_init [OF B, of l] s by (auto simp: nodes_upd)
qed

lemma step_splice_init:
  assumes r: "rep D A m" and h: "l \<in> dom A" "h \<in> dom A" "l \<noteq> h"
  shows "\<exists>m'. list_splice_init l h m = Ret m' \<and> rep D (spec_list (Op_splice_init l h) A) m'"
    and "\<exists>m'. list_splice_tail_init l h m = Ret m' \<and> rep D (spec_list (Op_splice_tail_init l h) A) m'"
proof -
  from h obtain ys xs where A: "A l = Some ys" "A h = Some xs" by auto
  note e = list_empty_circ [OF rep_circ [OF r A(1)]]
  have l: "l \<notin> set (h # ys @ xs)"
    using rep_circ [OF r A(1)] rep_disjoint [OF r A(2,1)] h(3) by (auto simp: circ_def)
  have t: "A(h \<mapsto> xs, l \<mapsto> []) = A" if "ys = []" using A that by auto
  show "\<exists>m'. list_splice_init l h m = Ret m' \<and> rep D (spec_list (Op_splice_init l h) A) m'"
  proof (cases ys)
    case (Cons y zs)
    obtain q m' where "get_next h m = Ret q" "list_splice_between l h q m = Ret m'" "rep D (A(h \<mapsto> ys @ xs, l := None)) m'"
      using rep_splice [OF r A(2)] A(1) h(3) Cons by blast
    then show ?thesis using step_reinit [OF r A(1), of h "ys @ xs" m'] l A e Cons by (simp add: list_splice_init_def)
  qed (use e r A t in \<open>simp add: list_splice_init_def\<close>)
  show "\<exists>m'. list_splice_tail_init l h m = Ret m' \<and> rep D (spec_list (Op_splice_tail_init l h) A) m'"
  proof (cases ys)
    case (Cons y zs)
    obtain p m' where "get_prev h m = Ret p" "list_splice_between l p h m = Ret m'" "rep D (A(h \<mapsto> xs @ ys, l := None)) m'"
      using rep_splice_tail [OF r A(2)] A(1) h(3) Cons by blast
    then show ?thesis using step_reinit [OF r A(1), of h "xs @ ys" m'] l A e Cons by (simp add: list_splice_tail_init_def)
  qed (use e r A t in \<open>simp add: list_splice_tail_init_def\<close>)
qed

lemma list_step:
  assumes r: "rep D A m" and "list_enabled D op A"
  shows "\<exists>m'. list_run op m = Ret m' \<and> rep D (spec_list op A) m'"
  using assms(2) step_add [OF r] step_del [OF r] step_del_init [OF r] step_replace [OF r] step_replace_init [OF r]
    step_move [OF r] step_rotate [OF r] step_cut [OF r] step_splice [OF r] step_splice_init [OF r] rep_init [OF r]
  by (cases op) (simp_all add: spare_def del: fun_upd_apply)

interpretation linked_lists: step_refinement spec_list list_run "list_enabled D" "rep D"
  by unfold_locales (rule list_step)

text \<open>
  C31. The linked lists are lists.  Whatever operations of the library are called on disjoint lists, each
  when its precondition holds, every one returns, touches no memory that holds no list head, and leaves the
  memory holding exactly the lists that the operations on mere lists give.
\<close>

theorem list_operations_refine_lists:
  assumes "rep D A m" "all_enabled spec_list (list_enabled D) ops A"
  shows "\<exists>m'. fold_res list_run ops m = Ret m' \<and> rep D (fold spec_list ops A) m'"
  by (rule linked_lists.run [OF assms])

text \<open>
  The witness: two lists with heads 16 and 32; entries are added, moved, cut off and spliced back.
\<close>

definition fresh_lists :: lmem where
  "fresh_lists = [16 \<mapsto> \<lparr>lnext = 16, lprev = 16\<rparr>, 32 \<mapsto> \<lparr>lnext = 32, lprev = 32\<rparr>, 1 \<mapsto> \<lparr>lnext = 0, lprev = 0\<rparr>,
     2 \<mapsto> \<lparr>lnext = 0, lprev = 0\<rparr>, 3 \<mapsto> \<lparr>lnext = 0, lprev = 0\<rparr>]"

definition sample_ops :: "list_op list" where
  "sample_ops = [Op_add 1 16, Op_add 2 16, Op_add_tail 3 16, Op_move 1 32, Op_rotate_left 16, Op_splice_tail_init 32 16,
     Op_cut 32 16 3, Op_del 3]"

theorem list_operations_refine_lists_witness:
  "\<exists>m'. fold_res list_run sample_ops fresh_lists = Ret m' \<and> rep {16, 32, 1, 2, 3} [16 \<mapsto> [2, 1], 32 \<mapsto> []] m'"
proof -
  let ?A = "[16 \<mapsto> [], 32 \<mapsto> []] :: lists" and ?D = "{16, 32, 1, 2, 3} :: lptr set"
  have "rep ?D ?A fresh_lists"
    by (auto simp: rep_def fresh_lists_def disjoint_lists_def nodes_def nx_def pv_def circ_empty split: if_splits)
  moreover have "all_enabled spec_list (list_enabled ?D) sample_ops ?A"
    by (auto simp: sample_ops_def unused_def spare_def nodes_def the_list_def is_entry_def drop_entry_def split: option.splits if_splits)
      (rule exI [of _ 16], simp)
  moreover have "fold spec_list sample_ops ?A = [16 \<mapsto> [2, 1], 32 \<mapsto> []]"
    by (auto simp: sample_ops_def the_list_def drop_entry_def fun_eq_iff)
  ultimately show ?thesis using list_operations_refine_lists [of ?D ?A fresh_lists sample_ops] by simp
qed

section \<open>Loops\<close>

lemma list_entry_member [simp]: "list_entry off p + off = p"
  by (simp add: list_entry_def)

lemma lseg_rev: "lseg N P a xs z = lseg P N z (rev xs) a"
proof (induction xs arbitrary: a)
  case (Cons x xs)
  then show ?case using lseg_append [of P N z "rev xs" x "[]" a] by auto
qed auto

lemma circ_rev: "circ N P h xs = circ P N h (rev xs)"
  by (simp add: circ_def lseg_rev [of N P h xs h])

text \<open>The entry loops are the plain loops on the members.\<close>

lemma entry_loop_for_loop: "entry_loop rd k off body h pos s = for_loop rd k (\<lambda>p. body (list_entry off p)) h (pos + off) s"
proof (induction k arbitrary: pos s)
  case (Suc k)
  have "list_entry off (pos + off) = pos" by (simp add: list_entry_def)
  then show ?case by (simp add: Suc.IH)
qed simp

text \<open>A body that only computes: it leaves the memory as it is.\<close>

definition visit :: "(lptr \<Rightarrow> 's \<Rightarrow> 's res) \<Rightarrow> 's loop_body" where
  "visit f p s = bind_res (f p (snd s)) (\<lambda>t. Ret (fst s, t))"

lemma for_loop_visits:
  assumes rd: "\<And>p q. N p = Some q \<Longrightarrow> rd p m = Ret q"
  shows "lseg N P a xs h \<Longrightarrow> h \<notin> set xs \<Longrightarrow> length xs < k \<Longrightarrow>
    bind_res (rd a m) (\<lambda>q. for_loop rd k (visit f) h q (m, t)) = bind_res (fold_res f xs t) (\<lambda>t. Ret (m, t))"
proof (induction xs arbitrary: a k t)
  case Nil
  then show ?case using rd [of a h] by (cases k) auto
next
  case (Cons x xs)
  then obtain k' where k: "k = Suc k'" "length xs < k'" by (cases k) auto
  show ?case
  proof (cases "f x t")
    case (Ret t')
    have "bind_res (rd x m) (\<lambda>q. for_loop rd k' (visit f) h q (m, t')) = bind_res (fold_res f xs t') (\<lambda>t. Ret (m, t))"
      using Cons.prems k by (intro Cons.IH) auto
    then show ?thesis using Cons.prems k Ret rd [of a x] visit_def [of f x "(m, t)"] by auto
  qed (use Cons.prems k rd [of a x] visit_def [of f x "(m, t)"] in auto)
qed

lemma visit_entry: "(\<lambda>p. visit f (list_entry off p)) = visit (\<lambda>p. f (list_entry off p))"
  by (simp add: visit_def fun_eq_iff)

lemma list_for_each_entry_visits:
  assumes "circ (nx m) (pv m) h xs" "length xs < k"
  shows "list_for_each_entry k off (visit f) h (m, t) = bind_res (fold_res (\<lambda>p. f (list_entry off p)) xs t) (\<lambda>t. Ret (m, t))"
  using for_loop_visits [of "nx m" get_next m "pv m" h xs h k] assms
  by (simp add: list_for_each_entry_def entry_loop_for_loop visit_entry get_next_nx circ_def)

lemma list_for_each_entry_reverse_visits:
  assumes "circ (nx m) (pv m) h xs" "length xs < k"
  shows "list_for_each_entry_reverse k off (visit f) h (m, t) =
    bind_res (fold_res (\<lambda>p. f (list_entry off p)) (rev xs) t) (\<lambda>t. Ret (m, t))"
  using for_loop_visits [of "pv m" get_prev m "nx m" h "rev xs" h k] assms circ_rev [of "nx m" "pv m" h xs]
  by (simp add: list_for_each_entry_reverse_def entry_loop_for_loop visit_entry get_prev_pv circ_def)

lemma list_for_each_entry_continue_visits:
  assumes "circ (nx m) (pv m) h (as @ (pos + off) # bs)" "length bs < k"
  shows "list_for_each_entry_continue k off (visit f) h pos (m, t) =
    bind_res (fold_res (\<lambda>p. f (list_entry off p)) bs t) (\<lambda>t. Ret (m, t))"
  using for_loop_visits [of "nx m" get_next m "pv m" "pos + off" bs h k] assms
  by (simp add: list_for_each_entry_continue_def entry_loop_for_loop visit_entry get_next_nx circ_def lseg_append)

lemma list_prepare_then_continue:
  assumes "circ (nx m) (pv m) h xs" "length xs < k"
  shows "list_for_each_entry_continue k off body h (list_prepare_entry off 0 h) (m, t) = list_for_each_entry k off body h (m, t)"
  by (simp add: list_for_each_entry_continue_def list_for_each_entry_def list_prepare_entry_def)

text \<open>A body that deletes the entries with a property, as the code does while it walks a list.\<close>

definition purge :: "(lptr \<Rightarrow> bool) \<Rightarrow> lptr \<Rightarrow> lptr list loop_body" where
  "purge Q off p s =
     (if Q p then bind_res (list_del (p + off) (fst s)) (\<lambda>m. Ret (m, snd s @ [p])) else Ret s)"

lemma purge_step:
  assumes r: "rep D A m" and A: "A h = Some (as @ b # bs)" and p: "p + off = b"
  shows "\<exists>m'. purge Q off p (m, t) = Ret (m', if Q p then t @ [p] else t) \<and>
    rep D (A(h \<mapsto> (if Q p then as else as @ [b]) @ bs)) m'"
proof (cases "Q p")
  case True
  then show ?thesis using rep_del [OF r A] p by (auto simp: purge_def)
next
  case False
  have "A(h \<mapsto> as @ b # bs) = A" using A by auto
  then show ?thesis using r False by (simp add: purge_def)
qed

lemma safe_entry_loop_purges:
  "rep D A m \<Longrightarrow> A h = Some (as @ bs) \<Longrightarrow> length bs < k \<Longrightarrow> p + off = hd (bs @ [h]) \<Longrightarrow> (bs \<noteq> [] \<Longrightarrow> n + off = hd (tl bs @ [h])) \<Longrightarrow>
   \<exists>m'. safe_entry_loop get_next True k off (purge Q off) h p n (m, t) =
     Ret (m', t @ filter Q (map (list_entry off) bs)) \<and>
     rep D (A(h \<mapsto> as @ filter (\<lambda>x. \<not> Q (list_entry off x)) bs)) m'"
proof (induction bs arbitrary: A m as k p n t)
  case Nil
  then obtain k' where "k = Suc k'" by (cases k) auto
  moreover have "A(h \<mapsto> as) = A" using Nil.prems by auto
  ultimately show ?case using Nil.prems by simp
next
  case (Cons b bs)
  from Cons.prems obtain k' where k: "k = Suc k'" "length bs < k'" by (cases k) auto
  have pb: "p + off = b" "p = list_entry off b" using Cons.prems(4) by (auto simp: list_entry_def)
  have no: "n + off = hd (bs @ [h])" using Cons.prems(5) by simp
  have bh: "b \<noteq> h" using rep_circ [OF Cons.prems(1,2)] by (auto simp: circ_def)
  define as' where "as' = (if Q p then as else as @ [b])"
  define t' where "t' = (if Q p then t @ [p] else t)"
  let ?A = "A(h \<mapsto> as' @ bs)"
  obtain m1 where m1: "purge Q off p (m, t) = Ret (m1, t')" "rep D ?A m1"
    using purge_step [OF Cons.prems(1,2) pb(1), of Q t] unfolding as'_def t'_def by auto
  have c: "circ (nx m1) (pv m1) h (as' @ bs)" using rep_circ [OF m1(2)] by simp
  obtain n' where n': "bs \<noteq> [] \<Longrightarrow> n' + off = hd (tl bs @ [h])"
    "safe_entry_loop get_next True k off (purge Q off) h p n (m, t) = safe_entry_loop get_next True k' off (purge Q off) h n n' (m1, t')"
  proof (cases bs)
    case Nil
    then show thesis using that [of 0] k m1 no pb bh by simp
  next
    case (Cons b' bs')
    have "circ (nx m1) (pv m1) b' (bs' @ h # as')" using c Cons by (simp add: circ_rotate)
    then have "get_next b' m1 = Ret (hd (bs' @ [h]))" using circ_ends(1) [of "nx m1" "pv m1" b'] by (simp add: get_next_nx hd_append)
    moreover have "b' \<noteq> h" using c Cons by (auto simp: circ_def)
    ultimately show thesis using that [of "list_entry off (hd (bs' @ [h]))"] k m1 no pb bh Cons by simp
  qed
  have "\<exists>m'. safe_entry_loop get_next True k' off (purge Q off) h n n' (m1, t') = Ret (m', t' @ filter Q (map (list_entry off) bs)) \<and>
     rep D (?A(h \<mapsto> as' @ filter (\<lambda>x. \<not> Q (list_entry off x)) bs)) m'"
    by (rule Cons.IH [OF m1(2) _ k(2) no n'(1)]) simp_all
  then show ?case using n'(2) pb(2) by (auto simp: as'_def t'_def simp del: fun_upd_apply)
qed

text \<open>
  C32. Deleting while walking is a filter.  \<open>list_for_each_entry_safe\<close> with a body that deletes the entries with
  a property visits every entry once and in order: it ends, the entries that are left are those without the
  property, and the other lists are as before.
\<close>

theorem list_for_each_entry_safe_purges:
  assumes "rep D A m" "A h = Some xs" "length xs < k"
  shows "\<exists>m'. list_for_each_entry_safe k off (purge Q off) h (m, []) = Ret (m', filter Q (map (list_entry off) xs)) \<and>
    rep D (A(h \<mapsto> filter (\<lambda>x. \<not> Q (list_entry off x)) xs)) m'"
proof -
  let ?p = "hd (xs @ [h])"
  note c = rep_circ [OF assms(1,2)]
  have "get_next h m = Ret ?p" using circ_ends(1) [OF c] by (simp add: get_next_nx)
  moreover obtain n where n: "get_next ?p m = Ret n" "xs \<noteq> [] \<Longrightarrow> n = hd (tl xs @ [h])"
  proof (cases xs)
    case Nil
    then show thesis using that [of h] circ_ends(1) [OF c] by (simp add: get_next_nx)
  next
    case (Cons x ys)
    then have "circ (nx m) (pv m) x (ys @ [h])" using c circ_rotate [of _ _ h "[]" x ys] by simp
    then show thesis using that [of "hd (ys @ [h])"] circ_ends(1) [of "nx m" "pv m" x "ys @ [h]"] Cons by (simp add: get_next_nx hd_append)
  qed
  ultimately have "list_for_each_entry_safe k off (purge Q off) h (m, []) =
      safe_entry_loop get_next True k off (purge Q off) h (list_entry off ?p) (list_entry off n) (m, [])"
    by (simp add: list_for_each_entry_safe_def)
  then show ?thesis
    using safe_entry_loop_purges [of D A m h "[]" xs k "list_entry off ?p" off "list_entry off n" Q "[]"] assms n(2) by simp
qed

definition two_entries :: lmem where
  "two_entries = [16 \<mapsto> \<lparr>lnext = 0x108, lprev = 0x208\<rparr>, 0x108 \<mapsto> \<lparr>lnext = 0x208, lprev = 16\<rparr>,
     0x208 \<mapsto> \<lparr>lnext = 16, lprev = 0x108\<rparr>]"

theorem list_for_each_entry_safe_purges_witness:
  "\<exists>m'. list_for_each_entry_safe 3 8 (purge (\<lambda>p. p = 0x100) 8) 16 (two_entries, []) = Ret (m', [0x100]) \<and>
     rep {16, 0x108, 0x208} [16 \<mapsto> [0x208]] m'"
proof -
  have "rep {16, 0x108, 0x208} [16 \<mapsto> [0x108, 0x208]] two_entries"
    by (auto simp: rep_def two_entries_def disjoint_lists_def nodes_def nx_def pv_def circ_def split: if_splits)
  from list_for_each_entry_safe_purges [OF this, of 16 "[0x108, 0x208]" 3 8 "\<lambda>p. p = 0x100"]
  show ?thesis by (simp add: list_entry_def)
qed

text \<open>The plain loop must not be used for that: it follows the poisoned link of the first entry it deleted.\<close>

theorem list_for_each_entry_deleting_faults:
  assumes r: "rep D A m" and A: "A h = Some (x # xs)" and P: "LIST_POISON1 \<notin> D"
  shows "list_for_each_entry (Suc (Suc k)) off (purge (\<lambda>_. True) off) h (m, t) = Fault (Use_After_Free 0x100100)"
proof -
  note c = rep_circ [OF r A]
  obtain m' where m': "list_del x m = Ret m'" "rep D (A(h \<mapsto> xs)) m'" "m' x = Some \<lparr>lnext = LIST_POISON1, lprev = LIST_POISON2\<rparr>"
    using rep_del [OF r, of h "[]" x xs] A by auto
  have "m' LIST_POISON1 = None" using m'(2) P by (auto simp: rep_def)
  then have f: "list_del LIST_POISON1 m' = Fault (Use_After_Free 0x100100)" by (simp add: list_del_def get_prev_def LIST_POISON1_def)
  have "h \<noteq> LIST_POISON1" using rep_in_dom [OF r A, of h] r P by (auto simp: rep_def)
  moreover have "x \<noteq> h" using c by (auto simp: circ_def)
  moreover have "get_next h m = Ret x" using circ_ends(1) [OF c] by (simp add: get_next_nx)
  moreover have "get_next x m' = Ret LIST_POISON1" using m'(3) by (simp add: get_next_def)
  ultimately show ?thesis using m'(1) f by (auto simp: list_for_each_entry_def purge_def)
qed

text \<open>The queries.\<close>

lemma list_queries:
  assumes "circ (nx m) (pv m) h xs"
  shows "list_empty h m = Ret (xs = [])" "list_empty_careful h m = Ret (xs = [])"
    "list_is_singular h m = Ret (length xs = 1)"
    "x \<in> set xs \<Longrightarrow> list_is_last x h m = Ret (x = last xs)"
    "xs \<noteq> [] \<Longrightarrow> list_first_entry off h m = Ret (list_entry off (hd xs))"
proof -
  note e = circ_ends [OF assms]
  show "list_empty h m = Ret (xs = [])" by (rule list_empty_circ [OF assms])
  show "list_empty_careful h m = Ret (xs = [])"
    using e assms by (cases xs) (auto simp: list_empty_careful_def mem_simps circ_def)
  show "list_is_singular h m = Ret (length xs = 1)" by (rule list_is_singular_circ [OF assms])
  show "list_first_entry off h m = Ret (list_entry off (hd xs))" if "xs \<noteq> []"
    using e that by (simp add: list_first_entry_def mem_simps)
  show "list_is_last x h m = Ret (x = last xs)" if "x \<in> set xs"
  proof -
    from split_list [OF that] obtain as bs where xs: "xs = as @ x # bs" by blast
    have c: "circ (nx m) (pv m) x (bs @ h # as)" using assms xs by (simp add: circ_rotate)
    have "hd (bs @ [h]) = h \<longleftrightarrow> x = last xs" using assms xs by (cases bs rule: rev_cases) (auto simp: circ_def hd_append)
    then show ?thesis using circ_ends(1) [OF c] by (cases "bs = []") (simp_all add: list_is_last_def mem_simps)
  qed
qed

end
