(* ===== verification/Start.thy ===== *)
theory Start
  imports Core Event LeakCheck
begin

text \<open>
  \<open>main\<close> of \<open>main.c\<close>, put together from the pieces of Core, Event, Log and Roots: the two objects the
  program starts with, the modules that come with it, the methods of the core, the command line, the call
  and the end of the program.

  The functions of the program are numbered by \<open>fn\<close>, \<open>P\<close> is libffi's opinion on a signature; \<open>loop\<close> is what
  the event loop does from an exit code and a heap on.  The title of the process and the watchers of the
  signals that end the loop are not part of the heap and are left out here.
\<close>

section \<open>Small functions\<close>

text \<open>\<open>di_get_hostname\<close> of \<open>os.c\<close>: \<open>nodename\<close> is what \<open>uname\<close> answers.\<close>

definition di_get_hostname :: "string option \<Rightarrow> string option" where
  "di_get_hostname nodename = (case nodename of None \<Rightarrow> None | Some n \<Rightarrow> Some (cstr n))"

text \<open>
  \<open>di_exec\<close>: \<open>execvp\<close> says whether the program is replaced, by its file and arguments; the first argument of an
  empty array is the null pointer that ends it.  \<open>Inl\<close> is the new program, \<open>Inr\<close> the result of a call that
  failed.
\<close>

definition di_exec :: "(string option \<Rightarrow> string list \<Rightarrow> bool) \<Rightarrow> di_string list \<Rightarrow> (string option \<times> string list) + int" where
  "di_exec execvp argv =
     (let nargv = map (\<lambda>s. cstr (di_string_to_chars_alloc s)) argv;
          file = (case nargv of [] \<Rightarrow> None | a # _ \<Rightarrow> Some a)
      in if execvp file nargv then Inl (file, nargv) else Inr (- 1))"

text \<open>\<open>di_terminate\<close>: the signals that were sent, as receiver and number.\<close>

definition SIGTERM :: int where
  "SIGTERM = 15"

definition di_terminate :: "(int \<times> int) list \<Rightarrow> (int \<times> int) list" where
  "di_terminate sent = sent @ [(0, SIGTERM)]"

section \<open>Starting\<close>

type_synonym method_spec = "string \<times> nat \<times> di_type \<times> di_type list"

text \<open>Methods whose registration is checked by \<open>DI_CHECK_OK\<close>.\<close>

definition check_methods ::
  "(di_type \<Rightarrow> di_type list \<Rightarrow> bool) \<Rightarrow> drop_fn \<Rightarrow> oref \<Rightarrow> method_spec list \<Rightarrow> world \<Rightarrow> world res" where
  "check_methods P U p =
     fold_res (\<lambda>(name, fn, rt, ats) w. bind_res (di_add_method P U p (Some name) fn rt ats w) (\<lambda>(r, w1).
       assert_res (r = Inr ()) ''DI_CHECK_OK'' (Ret w1)))"

definition roots_methods :: "(string \<Rightarrow> nat) \<Rightarrow> method_spec list" where
  "roots_methods fn =
     [(''add'', fn ''di_add_root'', DI_TYPE_BOOL, [DI_TYPE_STRING, DI_TYPE_OBJECT]),
      (''remove'', fn ''di_remove_root'', DI_TYPE_BOOL, [DI_TYPE_STRING]),
      (''clear'', fn ''di_clear_roots'', DI_TYPE_NIL, []),
      (''__add_anonymous'', fn ''di_add_anonymous_root'', DI_TYPE_UINT, [DI_TYPE_OBJECT]),
      (''__remove_anonymous'', fn ''di_remove_anonymous_root'', DI_TYPE_NIL, [DI_TYPE_UINT])]"

text \<open>The core object and the roots.\<close>

definition main_objects :: "(di_type \<Rightarrow> di_type list \<Rightarrow> bool) \<Rightarrow> (string \<Rightarrow> nat) \<Rightarrow> drop_fn \<Rightarrow> world \<Rightarrow> (oref \<times> oref \<times> world) res" where
  "main_objects P fn U w =
     (let (p, w1) = alloc_object w in
      bind_res (di_set_type U p ''deai:Core'' w1) (\<lambda>(_, w2).
        let (roots, w3) = alloc_object w2 in
        bind_res (di_set_type U roots ''deai:Roots'' w3) (\<lambda>(_, w4).
          bind_res (check_methods P U roots (roots_methods fn) w4) (\<lambda>w5.
            bind_res (di_set_object_dtor roots (Some Dtor_roots) w5) (\<lambda>w6.
              bind_res (put_payload roots (PRoots 1 []) w6) (\<lambda>w7.
                bind_res (di_set_object_dtor p (Some (Dtor_ext (fn ''di_dtor''))) w7) (\<lambda>w8.
                  Ret (p, roots, w8))))))))"

definition init_modules ::
  "(di_type \<Rightarrow> di_type list \<Rightarrow> bool) \<Rightarrow> (string \<Rightarrow> nat) \<Rightarrow> drop_fn \<Rightarrow> bool \<Rightarrow> oref \<Rightarrow> world \<Rightarrow> world res" where
  "init_modules P fn U reaper p w =
     bind_res (di_init_event P fn U p w) (\<lambda>(_, w1).
       bind_res (di_init_log P fn U p w1) (\<lambda>(_, w2).
         bind_res (di_init_os P fn U p w2) (\<lambda>w3.
           di_init_spawn P fn U reaper p w3)))"

definition core_methods :: "(string \<Rightarrow> nat) \<Rightarrow> method_spec list" where
  "core_methods fn =
     [(''load_plugin_from_dir'', fn ''load_plugin_from_dir'', DI_TYPE_NINT, [DI_TYPE_STRING]),
      (''load_plugin'', fn ''load_plugin'', DI_TYPE_NIL, [DI_TYPE_STRING]),
      (''register_module'', fn ''di_register_module_method'', DI_TYPE_NINT, [DI_TYPE_STRING, DI_TYPE_OBJECT]),
      (''chdir'', fn ''di_chdir'', DI_TYPE_NINT, [DI_TYPE_STRING]),
      (''exec'', fn ''di_exec'', DI_TYPE_NINT, [DI_TYPE_ARRAY]),
      (''quit'', fn ''di_prepare_quit'', DI_TYPE_NIL, []),
      (''exit'', fn ''di_prepare_exit'', DI_TYPE_NIL, [DI_TYPE_NINT]),
      (''terminate'', fn ''di_terminate'', DI_TYPE_NIL, []),
      (''__set_proctitle'', fn ''di_set_pr_name'', DI_TYPE_NIL, [DI_TYPE_STRING])]"

definition core_getters :: "(string \<Rightarrow> nat) \<Rightarrow> method_spec list" where
  "core_getters fn =
     [(''__get_roots'', fn ''di_roots_getter'', DI_TYPE_OBJECT, []),
      (''__get_argv'', fn ''di_get_argv'', DI_TYPE_ARRAY, [])]"

text \<open>
  The members of the core.  \<open>di_member\<close> moves the closure and the field getter into the object; its result is
  not looked at.  The offset is that of \<open>proctitle\<close> in \<open>struct deai\<close>.
\<close>

definition core_members :: "(di_type \<Rightarrow> di_type list \<Rightarrow> bool) \<Rightarrow> (string \<Rightarrow> nat) \<Rightarrow> drop_fn \<Rightarrow> oref \<Rightarrow> world \<Rightarrow> world res" where
  "core_members P fn U p w =
     bind_res (check_methods P U p (core_methods fn) w) (\<lambda>w1.
       bind_res (di_create_closure P U (fn ''di_dump_objects'') DI_TYPE_NIL [] [] w1) (\<lambda>(c, w2).
         case c of
           Inl _ \<Rightarrow> Fault Type_Confusion
         | Inr cl \<Rightarrow>
            bind_res (di_add_member_move U p (Some ''dump_objects'') (VObject cl) w2) (\<lambda>(_, w3).
              bind_res (check_methods P U p (core_getters fn) w3) (\<lambda>w4.
                bind_res (di_new_field_getter U DI_TYPE_STRING_LITERAL 152 w4) (\<lambda>(g, w5).
                  bind_res (di_add_member_move U p (Some ''__get_proctitle'') (VObject g) w5) (\<lambda>(_, w6). Ret w6))))))"

section \<open>Running\<close>

text \<open>
  The quit flag is set by the destructor of the core, which has run when no strong reference is left.
\<close>

definition core_gone :: "oref \<Rightarrow> world \<Rightarrow> bool" where
  "core_gone p w = (case heap w p of None \<Rightarrow> True | Some x \<Rightarrow> ref_count x = 0)"

type_synonym event_loop = "int \<Rightarrow> world \<Rightarrow> (int \<times> world) res"

text \<open>The end of \<open>main\<close>, after the core has been dropped; \<open>k\<close> is fuel for the leak detector.\<close>

definition main_tail :: "drop_fn \<Rightarrow> nat \<Rightarrow> event_loop \<Rightarrow> oref \<Rightarrow> oref \<Rightarrow> int \<Rightarrow> bool \<Rightarrow> world \<Rightarrow> (int \<times> world) res" where
  "main_tail U k loop p roots exit_code quit w =
     bind_res (di_mark_and_sweep k roots w) (\<lambda>_.
       bind_res (di_dump_objects (Some roots) w) (\<lambda>_.
         bind_res (if quit \<or> core_gone p w then Ret (exit_code, w) else loop exit_code w) (\<lambda>(ec, w1).
           bind_res (U roots w1) (\<lambda>w2.
             bind_res (di_dump_objects None w2) (\<lambda>_. Ret (ec, w2))))))"

text \<open>What the program finds; \<open>st_exit\<close> is the exit code the called method asks for.\<close>

record start =
  st_prep_cif :: "di_type \<Rightarrow> di_type list \<Rightarrow> bool"
  st_fn :: "string \<Rightarrow> nat"
  st_reaper :: bool
  st_plugin :: plugins
  st_stat :: "string \<Rightarrow> bool option"
  st_rpath :: string
  st_entries :: "dirent list"
  st_atof :: "string \<Rightarrow> double"
  st_exit :: int

definition main_run ::
  "start \<Rightarrow> drop_fn \<Rightarrow> call_obj \<Rightarrow> nat \<Rightarrow> event_loop \<Rightarrow> oref \<Rightarrow> oref \<Rightarrow> string list \<Rightarrow> posix \<Rightarrow> world \<Rightarrow> (int \<times> posix \<times> world) res" where
  "main_run S U C k loop p roots argv s w =
     (let (modname, meth) = parse_target (argv ! 1) in
      bind_res (parse_args (st_atof S) (drop 2 argv)) (\<lambda>a.
        case a of
          Inl e \<Rightarrow> Ret (1, s, log_line e w)
        | Inr args \<Rightarrow>
           bind_res (load_plugin_from_dir_impl (st_plugin S) (st_stat S) (st_rpath S) (st_entries S) s w) (\<lambda>(ret, s1, w1).
             bind_res (main_call U C p modname meth args (st_exit S)
                 (if ret \<noteq> 0 then log_line ''Failed to load plugins, which is fine.'' w1 else w1)) (\<lambda>(r, w2).
               case r of
                 None \<Rightarrow> Ret (1, s1, log_line ''Module not found'' w2)
               | Some (exit_code, quit) \<Rightarrow>
                  bind_res (main_tail U k loop p roots exit_code quit w2) (\<lambda>(ec, w3). Ret (ec, s1, w3))))))"

text \<open>\<open>main\<close>: the exit code, the descriptors and the heap at the end.\<close>

definition di_main ::
  "start \<Rightarrow> drop_fn \<Rightarrow> call_obj \<Rightarrow> nat \<Rightarrow> event_loop \<Rightarrow> string list \<Rightarrow> posix \<Rightarrow> world \<Rightarrow> (int \<times> posix \<times> world) res" where
  "di_main S U C k loop argv s w =
     bind_res (main_objects (st_prep_cif S) (st_fn S) U w) (\<lambda>(p, roots, w1).
       bind_res (init_modules (st_prep_cif S) (st_fn S) U (st_reaper S) p w1) (\<lambda>w2.
         if length argv < 2 then Ret (1, s, log_line ''Usage: <module>.<method> <arg1> <arg2> ...'' w2)
         else bind_res (core_members (st_prep_cif S) (st_fn S) U p w2) (\<lambda>w3.
           main_run S U C k loop p roots argv s w3)))"

section \<open>What starting builds\<close>

text \<open>
  \<open>grows p k names w w'\<close>: the object \<open>p\<close> has got members \<open>names\<close> behind the ones it had and \<open>k\<close> more weak
  references; no other object that existed has changed.
\<close>

definition grows :: "oref \<Rightarrow> nat \<Rightarrow> string list \<Rightarrow> world \<Rightarrow> world \<Rightarrow> bool" where
  "grows p k names w w' \<longleftrightarrow>
     (\<exists>x ms. heap w p = Some x \<and> map fst ms = names \<and>
        heap w' p = Some (x\<lparr>members := members x @ ms, weak_ref_count := weak_ref_count x + of_nat k\<rparr>)) \<and>
     next_addr w \<le> next_addr w' \<and> (\<forall>q < next_addr w. q \<noteq> p \<longrightarrow> heap w' q = heap w q)"

definition keeps_old :: "world \<Rightarrow> world \<Rightarrow> bool" where
  "keeps_old w w' \<longleftrightarrow> next_addr w \<le> next_addr w' \<and> (\<forall>q < next_addr w. heap w' q = heap w q)"

lemma keeps_old_refl [simp]: "keeps_old w w"
  by (simp add: keeps_old_def)

lemma keeps_old_trans: "keeps_old w w' \<Longrightarrow> keeps_old w' w'' \<Longrightarrow> keeps_old w w''"
  by (simp add: keeps_old_def)

lemma grows_trans: "grows p k a w w' \<Longrightarrow> grows p j b w' w'' \<Longrightarrow> grows p (k + j) (a @ b) w w''"
proof -
  assume g: "grows p k a w w'" and h: "grows p j b w' w''"
  from g obtain x ms where x: "heap w p = Some x" "map fst ms = a"
    "heap w' p = Some (x\<lparr>members := members x @ ms, weak_ref_count := weak_ref_count x + of_nat k\<rparr>)" by (auto simp: grows_def)
  with h obtain ns where "map fst ns = b" "heap w'' p =
      Some (x\<lparr>members := members x @ ms @ ns, weak_ref_count := weak_ref_count x + of_nat (k + j)\<rparr>)"
    by (auto simp: grows_def add.assoc)
  with x have "heap w p = Some x \<and> map fst (ms @ ns) = a @ b \<and>
      heap w'' p = Some (x\<lparr>members := members x @ ms @ ns, weak_ref_count := weak_ref_count x + of_nat (k + j)\<rparr>)" by simp
  then have "\<exists>x ms. heap w p = Some x \<and> map fst ms = a @ b \<and>
      heap w'' p = Some (x\<lparr>members := members x @ ms, weak_ref_count := weak_ref_count x + of_nat (k + j)\<rparr>)" by blast
  moreover have "next_addr w \<le> next_addr w''" "\<forall>q < next_addr w. q \<noteq> p \<longrightarrow> heap w'' q = heap w q"
    using g h by (auto simp: grows_def)
  ultimately show ?thesis unfolding grows_def by blast
qed

lemma grows_keeps: "grows p k a w w' \<Longrightarrow> keeps_old w' w'' \<Longrightarrow> p < next_addr w' \<Longrightarrow> grows p k a w w''"
  unfolding grows_def keeps_old_def by fastforce

lemma keeps_grows: "keeps_old w w' \<Longrightarrow> p < next_addr w \<Longrightarrow> grows p k a w' w'' \<Longrightarrow> grows p k a w w''"
  unfolding grows_def keeps_old_def by (elim exE conjE) auto

lemma keeps_grows_new: "keeps_old w w' \<Longrightarrow> next_addr w \<le> m \<Longrightarrow> grows m k a w' w'' \<Longrightarrow> keeps_old w w''"
  unfolding grows_def keeps_old_def by (elim exE conjE) auto

text \<open>Names that may be members: no internal name behind a handler prefix.\<close>

definition name_ok :: "string \<Rightarrow> bool" where
  "name_ok name \<longleftrightarrow> check_new_member empty_object name = None"

lemma new_member_iff: "check_new_member x name = None \<longleftrightarrow> name \<notin> fst ` set (members x) \<and> name_ok name"
proof -
  have "hash_find name (members x) = None \<longleftrightarrow> name \<notin> fst ` set (members x)" by (simp add: hash_find_def map_of_eq_None_iff)
  then show ?thesis by (auto simp: name_ok_def check_new_member_def empty_object_def hash_find_def Let_def split: if_splits)
qed

lemma with_member_grows: "heap w p = Some x \<Longrightarrow> grows p 0 [name] w (with_member p x name v w)"
  unfolding grows_def with_member_def put_obj_def hash_add_def
  by (intro conjI exI [of _ x] exI [of _ "[(name, \<lparr>m_addr = next_addr w, m_val = v\<rparr>)]"]) simp_all

definition plain_value :: "di_value \<Rightarrow> bool" where
  "plain_value v \<longleftrightarrow> (\<exists>q s. v = VObject q \<or> v = VWeak q \<or> v = VLiteral s)"

lemma plain_values [simp]: "plain_value (VObject q)" "plain_value (VWeak q)" "plain_value (VLiteral s)"
  by (auto simp: plain_value_def)

lemma sizeof_plain: "plain_value v \<Longrightarrow> \<exists>n. di_sizeof_type (di_typeof v) = Ret (Suc n)"
  by (auto simp: plain_value_def numeral_eq_Suc)

lemma move_grows:
  assumes x: "heap w p = Some x" "name \<notin> fst ` set (members x)" "name_ok name" and v: "plain_value v"
  shows "\<exists>w'. di_add_member_move U p (Some name) v w = Ret (Inr (), w') \<and> grows p 0 [name] w w'"
  using di_add_member_Ret [OF x(1), of name U v] new_member_iff [of x name] x sizeof_plain [OF v]
    with_member_grows [OF x(1), of name v] by (auto simp: di_add_member_move_def)

lemma name_ok_type: "name_ok ''__type''"
  by (simp add: name_ok_def check_new_member_def empty_object_def hash_find_def starts_with_def)

lemma set_type_run:
  assumes x: "heap w p = Some x" "''__type'' \<notin> fst ` set (members x)"
  shows "di_set_type U p ty w = Ret (Inr (), with_member p x ''__type'' (VLiteral ty) w)"
proof -
  have "hash_find ''__type'' (members x) = None" using x(2) by (simp add: hash_find_def map_of_eq_None_iff)
  then have "di_remove_member_raw U p (Some ''__type'') w = Ret (Inl ENOENT, w)"
    using x(1) by (simp add: di_remove_member_raw_def di_lookup_def get_obj_def)
  then show ?thesis using di_add_member_Ret [OF x(1), of "''__type''" U "VLiteral ty"] x(2) name_ok_type new_member_iff [of x]
    by (simp add: di_set_type_def di_add_member_clonev_def di_add_member_clone_def va_arg_with_di_type_def no_value_def)
qed

lemma alloc_keeps: "keeps_old w (snd (alloc_object w))" "fst (alloc_object w) = next_addr w"
  "heap (snd (alloc_object w)) (next_addr w) = Some empty_object" "next_addr (snd (alloc_object w)) = Suc (next_addr w)"
  by (auto simp: alloc_object_def keeps_old_def Let_def)

text \<open>Signatures the program uses: few arguments, and no type without a value.\<close>

definition sig_ok :: "di_type \<Rightarrow> di_type list \<Rightarrow> bool" where
  "sig_ok rt ats \<longleftrightarrow> length ats \<le> 2 \<and> (\<forall>t \<in> set ats. \<not> no_value t \<and> t \<noteq> DI_TYPE_NIL) \<and> \<not> no_value rt"

lemma any_size_zero_ok: "\<forall>t \<in> set ats. \<not> no_value t \<and> t \<noteq> DI_TYPE_NIL \<Longrightarrow> any_size_zero ats = Ret False"
proof (induction ats)
  case (Cons t ats)
  then have "\<exists>n. di_sizeof_type t = Ret (Suc n)" by (cases t) (auto simp: no_value_def numeral_eq_Suc)
  with Cons show ?case by auto
qed simp

lemma closure_keeps:
  assumes P: "\<And>r as. P r as" and n: "length ats \<le> 3" and t: "\<forall>t \<in> set ats. \<not> no_value t \<and> t \<noteq> DI_TYPE_NIL" "\<not> no_value rt"
  shows "\<exists>q w'. di_create_closure P U fn rt [] ats w = Ret (Inr q, w') \<and> keeps_old w w'"
proof -
  let ?p = "next_addr w"
  obtain w1 where w1: "alloc_object w = (?p, w1)" by (simp add: alloc_object_def Let_def)
  let ?cl = "\<lparr>cl_fn = fn, cl_cargs = [], cl_nargs = length ats, cl_rtype = rt, cl_atypes = ats\<rparr>"
  let ?x = "empty_object\<lparr>call := Some Call_closure, dtor := Some Dtor_free_closure, payload := PClosure ?cl\<rparr>"
  let ?w3 = "put_obj ?p ?x w1"
  have al: "heap w1 ?p = Some empty_object" "keeps_old w w1" using alloc_keeps [of w] w1 by simp_all
  have "di_ffi_prep_cif P rt ats = Ret True" using P t by (auto simp: di_ffi_prep_cif_def)
  moreover have h: "heap ?w3 ?p = Some ?x" by (simp add: put_obj_def)
  moreover have "di_set_type U ?p ''deai:closure'' ?w3 = Ret (Inr (), with_member ?p ?x ''__type'' (VLiteral ''deai:closure'') ?w3)"
    by (rule set_type_run [OF h]) (simp add: empty_object_def)
  ultimately have "di_create_closure P U fn rt [] ats w = Ret (Inr ?p, with_member ?p ?x ''__type'' (VLiteral ''deai:closure'') ?w3)"
    using w1 al any_size_zero_ok [OF t(1)] n by (simp add: di_create_closure_def MAX_NARGS_def get_obj_def Let_def)
  moreover have "keeps_old w (with_member ?p ?x ''__type'' (VLiteral ''deai:closure'') ?w3)"
    using al(2) by (auto simp: keeps_old_def with_member_def put_obj_def)
  ultimately show ?thesis by blast
qed

lemma method_grows:
  assumes P: "\<And>r as. P r as" and s: "sig_ok rt ats" and x: "heap w p = Some x" "p < next_addr w"
    and n: "name \<notin> fst ` set (members x)" "name_ok name"
  shows "\<exists>w'. di_add_method P U p (Some name) fn rt ats w = Ret (Inr (), w') \<and> grows p 0 [name] w w'"
proof -
  obtain q w1 where c: "di_create_closure P U fn rt [] (DI_TYPE_OBJECT # ats) w = Ret (Inr q, w1)" "keeps_old w w1"
    using closure_keeps [of P "DI_TYPE_OBJECT # ats" rt U fn w, OF P] s by (auto simp: sig_ok_def no_value_def)
  have h: "heap w1 p = Some x" using c(2) x by (simp add: keeps_old_def)
  obtain w' where "di_add_member_move U p (Some name) (VObject q) w1 = Ret (Inr (), w')" "grows p 0 [name] w1 w'"
    using move_grows [OF h n, of "VObject q"] by auto
  then show ?thesis using c s keeps_grows [OF c(2) x(2)] by (auto simp: di_add_method_def sig_ok_def MAX_NARGS_def)
qed

lemma check_methods_grows:
  assumes P: "\<And>r as. P r as"
  shows "heap w p = Some x \<Longrightarrow> p < next_addr w \<Longrightarrow> \<forall>(n, f, rt, ats) \<in> set ms. name_ok n \<and> sig_ok rt ats \<Longrightarrow>
    distinct (map fst (members x) @ map fst ms) \<Longrightarrow>
    \<exists>w'. check_methods P U p ms w = Ret w' \<and> add_methods P U p ms w = Ret w' \<and> grows p 0 (map fst ms) w w'"
proof (induction ms arbitrary: w x)
  case Nil
  then show ?case by (auto simp: check_methods_def add_methods_def grows_def intro!: exI [of _ x])
next
  case (Cons m ms)
  obtain n f rt ats where m: "m = (n, f, rt, ats)" by (cases m)
  obtain w1 where w1: "di_add_method P U p (Some n) f rt ats w = Ret (Inr (), w1)" "grows p 0 [n] w w1"
    using method_grows [of P rt ats w p x n U f, OF P] Cons.prems m by auto
  from w1(2) Cons.prems(1) obtain b where h: "heap w1 p = Some (x\<lparr>members := members x @ [(n, b)]\<rparr>)"
    by (auto simp: grows_def)
  obtain w' where w': "check_methods P U p ms w1 = Ret w'" "add_methods P U p ms w1 = Ret w'" "grows p 0 (map fst ms) w1 w'"
    using Cons.IH [OF h] Cons.prems m w1(2) by (auto simp: grows_def)
  then show ?case using w1 m grows_trans [OF w1(2) w'(3)] by (simp add: check_methods_def add_methods_def)
qed

lemma grows_other:
  assumes g: "grows p k a w w'" and h: "grows m j b w' w''" and m: "next_addr w \<le> m" and p: "p < next_addr w"
  shows "grows p k a w w''"
proof -
  have "heap w'' p = heap w' p" using h m p g by (auto simp: grows_def)
  moreover have "\<forall>q < next_addr w. q \<noteq> p \<longrightarrow> heap w'' q = heap w q" using g h m by (auto simp: grows_def)
  ultimately show ?thesis using g h unfolding grows_def by auto
qed

lemma grows_heap:
  assumes "grows p k a w w'" "heap w p = Some x" "p < next_addr w"
  shows "\<exists>y. heap w' p = Some y \<and> map fst (members y) = map fst (members x) @ a \<and> p < next_addr w' \<and>
    ref_count y = ref_count x \<and> weak_ref_count y = weak_ref_count x + of_nat k \<and> dtor y = dtor x \<and> payload y = payload x"
  using assms by (auto simp: grows_def)

lemma is_pow2_16: "is_pow2 16"
  by (simp add: is_pow2.simps)

text \<open>A new module holds a weak reference to the core.\<close>

lemma new_module_grows:
  assumes x: "heap w p = Some x" "p < next_addr w" and sz: "184 \<le> sz"
  shows "\<exists>w' y. di_new_module_with_size U p sz w = Ret (Some (next_addr w), w') \<and> grows p 1 [] w w' \<and> next_addr w < next_addr w' \<and>
    heap w' (next_addr w) = Some y \<and> map fst (members y) = [''__type'', ''__deai''] \<and>
    hash_find ''__type'' (members y) = Some \<lparr>m_addr = Suc (next_addr w), m_val = VLiteral ''deai:module''\<rparr>"
proof -
  let ?m = "next_addr w"
  obtain w1 where w1: "di_new_object sz 16 w = Ret (Some ?m, w1)" "heap w1 ?m = Some empty_object" "heap w1 p = Some x"
    "next_addr w1 = Suc ?m" "keeps_old w w1"
    using sz x is_pow2_16 by (auto simp: di_new_object_def alloc_object_def keeps_old_def Let_def)
  let ?w2 = "with_member ?m empty_object ''__type'' (VLiteral ''deai:module'') w1"
  have "di_set_type U ?m ''deai:module'' w1 = Ret (Inr (), ?w2)" by (rule set_type_run [OF w1(2)]) (simp add: empty_object_def)
  moreover have h2: "heap ?w2 p = Some x" using w1(3) x(2) by (simp add: with_member_def put_obj_def)
  moreover let ?w3 = "put_obj p (x\<lparr>weak_ref_count := weak_ref_count x + 1\<rparr>) ?w2"
  have "di_weakly_ref_object p ?w2 = Ret ?w3" using h2 by (simp add: di_weakly_ref_object_def get_obj_def)
  moreover define y where "y = empty_object\<lparr>members := [(''__type'', \<lparr>m_addr = next_addr w1, m_val = VLiteral ''deai:module''\<rparr>)]\<rparr>"
  have h3: "heap ?w3 ?m = Some y" using x(2) by (simp add: with_member_def put_obj_def y_def hash_add_def empty_object_def)
  have "check_new_member y ''__deai'' = None"
    unfolding new_member_iff by (simp add: y_def name_ok_def check_new_member_def empty_object_def hash_find_def starts_with_def)
  from di_add_member_Ret [OF h3 this, of U "VWeak p"]
  have "di_add_member_move U ?m (Some ''__deai'') (VWeak p) ?w3 = Ret (Inr (), with_member ?m y ''__deai'' (VWeak p) ?w3)"
    by (simp add: di_add_member_move_def)
  ultimately have run: "di_new_module_with_size U p sz w = Ret (Some ?m, with_member ?m y ''__deai'' (VWeak p) ?w3)"
    using w1(1) sz by (simp add: di_new_module_with_size_def)
  have "grows p 1 [] w (with_member ?m y ''__deai'' (VWeak p) ?w3)"
    using x w1(4,5) by (auto simp: grows_def keeps_old_def with_member_def put_obj_def)
  then show ?thesis using run w1(4) x(2)
    by (intro exI [of _ "with_member ?m y ''__deai'' (VWeak p) ?w3"])
      (simp add: with_member_def put_obj_def y_def hash_add_def hash_find_def)
qed

lemmas name_simps = name_ok_def check_new_member_def empty_object_def hash_find_def starts_with_def Let_def sig_ok_def no_value_def

lemma register_grows:
  assumes x: "heap w p = Some x" "n \<notin> fst ` set (members x)" "name_ok n" and g: "grows p 1 [] w w2"
  shows "\<exists>w3. di_register_module U p (Some n) m w2 = Ret (Inr (), w3) \<and> grows p 1 [n] w w3"
proof -
  from g x(1) have h: "heap w2 p = Some (x\<lparr>weak_ref_count := weak_ref_count x + 1\<rparr>)" by (auto simp: grows_def)
  obtain w3 where "di_add_member_move U p (Some n) (VObject m) w2 = Ret (Inr (), w3)" "grows p 0 [n] w2 w3"
    using move_grows [OF h, of n "VObject m"] x by auto
  then show ?thesis using grows_trans [OF g, of 0 "[n]" w3] by (auto simp: di_register_module_def)
qed

lemma init_event_grows:
  assumes P: "\<And>r as. P r as" and x: "heap w p = Some x" "p < next_addr w" and n: "''event'' \<notin> fst ` set (members x)"
  shows "\<exists>m w'. di_init_event P fn U p w = Ret (m, w') \<and> grows p 1 [''event''] w w'"
proof -
  let ?m = "next_addr w"
  let ?ms = "[(''fdevent'', fn ''di_create_ioev'', DI_TYPE_OBJECT, [DI_TYPE_NINT, DI_TYPE_NINT]),
     (''timer'', fn ''di_create_timer'', DI_TYPE_OBJECT, [DI_TYPE_FLOAT]),
     (''periodic'', fn ''di_create_periodic'', DI_TYPE_OBJECT, [DI_TYPE_FLOAT, DI_TYPE_FLOAT]),
     (''__new_signal_prepare'', fn ''di_new_signal_prepare'', DI_TYPE_NIL, []),
     (''__del_signal_prepare'', fn ''di_del_signal_prepare'', DI_TYPE_NIL, [])]"
  obtain w1 y where w1: "di_new_module U p w = Ret (Some ?m, w1)" "grows p 1 [] w w1" "?m < next_addr w1"
    "heap w1 ?m = Some y" "map fst (members y) = [''__type'', ''__deai'']"
    using new_module_grows [OF x, of 184 U] by (auto simp: di_new_module_def)
  obtain w2 where w2: "add_methods P U ?m ?ms w1 = Ret w2" "grows ?m 0 (map fst ?ms) w1 w2"
    using check_methods_grows [of P w1 ?m y ?ms U, OF P w1(4,3)] w1(5) by (auto simp: name_simps)
  have g: "grows p 1 [] w w2" by (rule grows_other [OF w1(2) w2(2) order_refl x(2)])
  obtain w3 where w3: "di_register_module U p (Some ''event'') ?m w2 = Ret (Inr (), w3)" "grows p 1 [''event''] w w3"
    using register_grows [OF x(1) n _ g, of U ?m] by (auto simp: name_simps)
  have "di_init_event P fn U p w = Ret (?m, w3)" using w1(1) w2(1) w3(1) by (simp add: di_init_event_def)
  with w3(2) show ?thesis by blast
qed

lemma init_spawn_grows:
  assumes P: "\<And>r as. P r as" and x: "heap w p = Some x" "p < next_addr w" and n: "''spawn'' \<notin> fst ` set (members x)"
  shows "\<exists>w'. di_init_spawn P fn U True p w = Ret w' \<and> grows p 1 [''spawn''] w w'"
proof -
  let ?m = "next_addr w" and ?ms = "[(''run'', fn ''di_spawn_run'', DI_TYPE_OBJECT, [DI_TYPE_ARRAY, DI_TYPE_BOOL])]"
  obtain w1 y where w1: "di_new_module_with_size U p 192 w = Ret (Some ?m, w1)" "grows p 1 [] w w1" "?m < next_addr w1"
    "heap w1 ?m = Some y" "map fst (members y) = [''__type'', ''__deai'']"
    using new_module_grows [OF x, of 192 U] by auto
  obtain w2 where w2: "add_methods P U ?m ?ms w1 = Ret w2" "grows ?m 0 (map fst ?ms) w1 w2"
    using check_methods_grows [of P w1 ?m y ?ms U, OF P w1(4,3)] w1(5) by (auto simp: name_simps)
  have g: "grows p 1 [] w w2" by (rule grows_other [OF w1(2) w2(2) order_refl x(2)])
  obtain w3 where w3: "di_register_module U p (Some ''spawn'') ?m w2 = Ret (Inr (), w3)" "grows p 1 [''spawn''] w w3"
    using register_grows [OF x(1) n _ g, of U ?m] by (auto simp: name_simps)
  have "di_init_spawn P fn U True p w = Ret w3" using w1(1) w2(1) w3(1) by (simp add: di_init_spawn_def)
  with w3(2) show ?thesis by blast
qed

text \<open>The spawn module is left out when the process cannot become the reaper of its descendants.\<close>

definition spawn_names :: "bool \<Rightarrow> string list" where
  "spawn_names reaper = (if reaper then [''spawn''] else [])"

lemma spawn_names_simps [simp]: "distinct (spawn_names r)" "a \<in> set (spawn_names r) \<longleftrightarrow> r \<and> a = ''spawn''"
  by (auto simp: spawn_names_def)

lemma maybe_spawn_grows:
  assumes P: "\<And>r as. P r as" and x: "heap w p = Some x" "p < next_addr w" and n: "''spawn'' \<notin> fst ` set (members x)"
  shows "\<exists>w'. di_init_spawn P fn U reaper p w = Ret w' \<and> grows p (of_bool reaper) (spawn_names reaper) w w'"
proof (cases reaper)
  case True
  then show ?thesis using init_spawn_grows [of P w p x fn U, OF P x n] by (simp add: spawn_names_def)
next
  case False
  have "x\<lparr>members := members x @ [], weak_ref_count := weak_ref_count x + of_nat 0\<rparr> = x" by simp
  then have "grows p 0 [] w w" using x(1) unfolding grows_def by (metis list.simps(8) order_refl)
  with False show ?thesis by (simp add: spawn_names_def di_init_spawn_def)
qed

lemma init_os_grows:
  assumes P: "\<And>r as. P r as" and x: "heap w p = Some x" "p < next_addr w" and n: "''os'' \<notin> fst ` set (members x)"
  shows "\<exists>w'. di_init_os P fn U p w = Ret w' \<and> grows p 1 [''os''] w w'"
proof -
  let ?m = "next_addr w"
  let ?es = "[(''__get'', fn ''di_env_get'', DI_TYPE_VARIANT, [DI_TYPE_STRING]),
     (''__set'', fn ''di_env_set'', DI_TYPE_NIL, [DI_TYPE_STRING, DI_TYPE_STRING]),
     (''__delete'', fn ''di_env_unset'', DI_TYPE_NIL, [DI_TYPE_STRING])]"
  let ?hs = "[(''__get_hostname'', fn ''di_get_hostname'', DI_TYPE_STRING_LITERAL, [])]"
  obtain w1 y where w1: "di_new_module U p w = Ret (Some ?m, w1)" "grows p 1 [] w w1" "?m < next_addr w1"
    "heap w1 ?m = Some y" "map fst (members y) = [''__type'', ''__deai'']"
    using new_module_grows [OF x, of 184 U] by (auto simp: di_new_module_def)
  let ?o = "next_addr w1"
  obtain w2 where w2: "alloc_object w1 = (?o, w2)" "heap w2 ?o = Some empty_object" "next_addr w2 = Suc ?o" "keeps_old w1 w2"
    using alloc_keeps [of w1] by (cases "alloc_object w1") auto
  let ?w3 = "with_member ?o empty_object ''__type'' (VLiteral ''deai.builtin.os:Env'') w2"
  have w3: "di_set_type U ?o ''deai.builtin.os:Env'' w2 = Ret (Inr (), ?w3)"
    by (rule set_type_run [OF w2(2)]) (simp add: empty_object_def)
  have g3: "grows ?o 0 [''__type''] w2 ?w3" by (rule with_member_grows [OF w2(2)])
  then obtain z where z: "heap ?w3 ?o = Some z" "map fst (members z) = [''__type'']" "?o < next_addr ?w3"
    using w2(2,3) by (auto simp: grows_def empty_object_def)
  obtain w4 where w4: "add_methods P U ?o ?es ?w3 = Ret w4" "grows ?o 0 (map fst ?es) ?w3 w4"
    using check_methods_grows [of P ?w3 ?o z ?es U, OF P z(1,3)] z(2) by (auto simp: name_simps)
  have k: "keeps_old w1 w4" using keeps_grows_new [OF w2(4) _ grows_trans [OF g3 w4(2)]] by simp
  then have h4: "heap w4 ?m = Some y" "?m < next_addr w4" using w1(3,4) by (auto simp: keeps_old_def)
  have "fst ` set (members y) = {''__type'', ''__deai''}" using w1(5) by (metis image_set list.set)
  then have env: "''env'' \<notin> fst ` set (members y)" "name_ok ''env''" by (simp_all add: name_simps)
  obtain w5 where w5: "di_add_member_move U ?m (Some ''env'') (VObject ?o) w4 = Ret (Inr (), w5)" "grows ?m 0 [''env''] w4 w5"
    using move_grows [OF h4(1) _ _ plain_values(1), of "''env''" U ?o] env by blast
  obtain y5 where y5: "heap w5 ?m = Some y5" "map fst (members y5) = [''__type'', ''__deai'', ''env'']" "?m < next_addr w5"
    using grows_heap [OF w5(2) h4] w1(5) by auto
  obtain w6 where w6: "add_methods P U ?m ?hs w5 = Ret w6" "grows ?m 0 (map fst ?hs) w5 w6"
    using check_methods_grows [of P w5 ?m y5 ?hs U, OF P y5(1,3)] y5(2) by (auto simp: name_simps)
  have "grows p 1 [] w w4" using grows_keeps [OF w1(2) k] x(2) w1(3) by simp
  from grows_other [OF this grows_trans [OF w5(2) w6(2)] order_refl x(2)] have g: "grows p 1 [] w w6" .
  obtain w7 where w7: "di_register_module U p (Some ''os'') ?m w6 = Ret (Inr (), w7)" "grows p 1 [''os''] w w7"
    using register_grows [OF x(1) n _ g, of U ?m] by (auto simp: name_simps)
  have "di_init_os P fn U p w = Ret w7" using w1(1) w2(1) w3 w4(1) w5(1) w6(1) w7(1) by (simp add: di_init_os_def)
  with w7(2) show ?thesis by blast
qed

text \<open>The log module changes the type that \<open>di_new_module_with_size\<close> has set.\<close>

lemma retype_run:
  assumes x: "heap w p = Some x" "hash_find ''__type'' (members x) = Some b" "m_val b = VLiteral t"
  shows "\<exists>w' y. di_set_type U p ty w = Ret (Inr (), w') \<and> heap w' p = Some y \<and> next_addr w' = Suc (next_addr w) \<and>
    map fst (members y) = map fst (hash_del ''__type'' (members x)) @ [''__type''] \<and> (\<forall>q. q \<noteq> p \<longrightarrow> heap w' q = heap w q)"
proof -
  let ?x = "x\<lparr>members := hash_del ''__type'' (members x)\<rparr>"
  let ?w1 = "put_obj p ?x w"
  have h: "heap ?w1 p = Some ?x" by (simp add: put_obj_def)
  have "di_remove_member_raw U p (Some ''__type'') w = Ret (Inr (), ?w1)"
    using x by (simp add: di_remove_member_raw_def di_remove_member_raw_impl_def di_lookup_def get_obj_def)
  moreover have "check_new_member ?x ''__type'' = None" unfolding new_member_iff using name_ok_type by (auto simp: hash_del_def)
  note di_add_member_Ret [OF h this, of U "VLiteral ty"]
  ultimately have "di_set_type U p ty w = Ret (Inr (), with_member p ?x ''__type'' (VLiteral ty) ?w1)"
    by (simp add: di_set_type_def di_add_member_clonev_def di_add_member_clone_def va_arg_with_di_type_def no_value_def)
  then show ?thesis by (simp add: with_member_def put_obj_def hash_add_def)
qed

lemma target_keeps:
  assumes P: "\<And>r as. P r as"
  shows "\<exists>t w'. stderr_target P U fn w = Ret (t, w') \<and> keeps_old w w'"
proof -
  let ?t = "next_addr w" and ?ty = "''deai.builtin.log:StderrTarget''"
  obtain w1 where w1: "alloc_object w = (?t, w1)" "heap w1 ?t = Some empty_object" "next_addr w1 = Suc ?t" "keeps_old w w1"
    using alloc_keeps [of w] by (cases "alloc_object w") auto
  let ?w2 = "with_member ?t empty_object ''__type'' (VLiteral ?ty) w1"
  have w2: "di_set_type U ?t ?ty w1 = Ret (Inr (), ?w2)" by (rule set_type_run [OF w1(2)]) (simp add: empty_object_def)
  obtain z where z: "heap ?w2 ?t = Some z" "map fst (members z) = [''__type'']" by (simp add: with_member_def put_obj_def empty_object_def hash_add_def)
  let ?w3 = "put_obj ?t (z\<lparr>dtor := None\<rparr>) ?w2"
  have w3: "di_set_object_dtor ?t None ?w2 = Ret ?w3" "heap ?w3 ?t = Some (z\<lparr>dtor := None\<rparr>)" "?t < next_addr ?w3"
    using z(1) w1(3) by (simp_all add: di_set_object_dtor_def get_obj_def put_obj_def with_member_def)
  have "fst ` set (members z) = {''__type''}" using z(2) by (metis image_set list.set)
  then have "''write'' \<notin> fst ` set (members (z\<lparr>dtor := None\<rparr>))" "name_ok ''write''" by (simp_all add: name_simps)
  from method_grows [of P DI_TYPE_NINT "[DI_TYPE_STRING]", OF P _ w3(2,3) this] obtain w4
    where w4: "di_add_method P U ?t (Some ''write'') fn DI_TYPE_NINT [DI_TYPE_STRING] ?w3 = Ret (Inr (), w4)" "grows ?t 0 [''write''] ?w3 w4"
    by (auto simp: sig_ok_def no_value_def)
  have "keeps_old w ?w3" using w1(4) by (auto simp: keeps_old_def with_member_def put_obj_def)
  then have "keeps_old w w4" by (rule keeps_grows_new [OF _ order_refl w4(2)])
  moreover have "stderr_target P U fn w = Ret (?t, w4)" using w1(1) w2 w3(1) w4(1) by (simp add: stderr_target_def new_target_def)
  ultimately show ?thesis by blast
qed

lemma init_log_grows:
  assumes P: "\<And>r as. P r as" and x: "heap w p = Some x" "p < next_addr w" and n: "''log'' \<notin> fst ` set (members x)"
  shows "\<exists>w'. di_init_log P fn U p w = Ret (1, w') \<and> grows p 1 [''log''] w w'"
proof -
  let ?m = "next_addr w" and ?ty = "''deai.builtin:LogModule''"
  let ?ms = "[(''file_target'', fn ''file_target'', DI_TYPE_OBJECT, [DI_TYPE_STRING, DI_TYPE_BOOL]),
     (''stderr_target'', fn ''stderr_target'', DI_TYPE_OBJECT, []),
     (''__get_log_level'', fn ''get_log_level'', DI_TYPE_STRING_LITERAL, []),
     (''__set_log_level'', fn ''set_log_level'', DI_TYPE_NINT, [DI_TYPE_STRING])]"
  obtain w1 y where w1: "di_new_module_with_size U p 192 w = Ret (Some ?m, w1)" "grows p 1 [] w w1" "?m < next_addr w1"
    "heap w1 ?m = Some y" "map fst (members y) = [''__type'', ''__deai'']"
    "hash_find ''__type'' (members y) = Some \<lparr>m_addr = Suc ?m, m_val = VLiteral ''deai:module''\<rparr>"
    using new_module_grows [OF x, of 192 U] by auto
  obtain a b where y: "members y = [(''__type'', a), (''__deai'', b)]" using w1(5) by (auto simp: map_eq_Cons_conv)
  obtain w2 z where w2: "di_set_type U ?m ?ty w1 = Ret (Inr (), w2)" "heap w2 ?m = Some z" "next_addr w2 = Suc (next_addr w1)"
    "map fst (members z) = [''__deai'', ''__type'']" "\<forall>q. q \<noteq> ?m \<longrightarrow> heap w2 q = heap w1 q"
    using retype_run [OF w1(4,6), of "''deai:module''" U ?ty] y by (auto simp: hash_del_def)
  have g2: "grows p 1 [] w w2" using w1(2) w2(3,5) x(2) by (auto simp: grows_def)
  obtain t w3 where w3: "stderr_target P U (fn ''file_target_write'') w2 = Ret (t, w3)" "keeps_old w2 w3"
    using target_keeps [of P U "fn ''file_target_write''" w2, OF P] by blast
  have g3: "grows p 1 [] w w3" using grows_keeps [OF g2 w3(2)] w2(3) w1(3) x(2) by simp
  have h3: "heap w3 ?m = Some z" "?m < next_addr w3" using w3(2) w2(2,3) w1(3) by (auto simp: keeps_old_def)
  have "fst ` set (members z) = {''__deai'', ''__type''}" using w2(4) by (metis image_set list.set)
  then have lt: "''log_target'' \<notin> fst ` set (members z)" "name_ok ''log_target''" by (simp_all add: name_simps)
  obtain w4 where w4: "di_add_member_move U ?m (Some ''log_target'') (VObject t) w3 = Ret (Inr (), w4)" "grows ?m 0 [''log_target''] w3 w4"
    using move_grows [OF h3(1) lt plain_values(1)] by blast
  obtain u where u: "heap w4 ?m = Some u" "map fst (members u) = [''__deai'', ''__type'', ''log_target'']" "?m < next_addr w4"
    using grows_heap [OF w4(2) h3] w2(4) by auto
  let ?w5 = "put_obj ?m (u\<lparr>call := Some (Call_ext (fn ''di_log''))\<rparr>) w4"
  have w5: "di_set_object_call ?m (Some (Call_ext (fn ''di_log''))) w4 = Ret ?w5" "heap ?w5 ?m = Some (u\<lparr>call := Some (Call_ext (fn ''di_log''))\<rparr>)"
    "?m < next_addr ?w5" using u by (simp_all add: di_set_object_call_def get_obj_def put_obj_def)
  obtain w6 where w6: "add_methods P U ?m ?ms ?w5 = Ret w6" "grows ?m 0 (map fst ?ms) ?w5 w6"
    using check_methods_grows [of P ?w5 ?m _ ?ms U, OF P w5(2,3)] u(2) by (auto simp: name_simps)
  have g4: "grows p 1 [] w w4" by (rule grows_other [OF g3 w4(2) order_refl x(2)])
  then have "grows p 1 [] w ?w5" using x(2) by (auto simp: grows_def put_obj_def)
  then have g: "grows p 1 [] w w6" by (rule grows_other [OF _ w6(2) order_refl x(2)])
  obtain w7 where w7: "di_register_module U p (Some ''log'') ?m w6 = Ret (Inr (), w7)" "grows p 1 [''log''] w w7"
    using register_grows [OF x(1) n _ g, of U ?m] by (auto simp: name_simps)
  have "di_init_log P fn U p w = Ret (1, w7)"
    using w1(1) w2(1) w3(1) w4(1) w5(1) w6(1) w7(1) by (simp add: di_init_log_def)
  with w7(2) show ?thesis by blast
qed

lemma not_member: "map fst (members y) = ns \<Longrightarrow> a \<notin> set ns \<Longrightarrow> a \<notin> fst ` set (members y)"
  by (metis image_set)

lemma field_getter_keeps: "\<exists>g w'. di_new_field_getter U t ofs w = Ret (g, w') \<and> keeps_old w w'"
proof -
  let ?g = "next_addr w" and ?x = "empty_object\<lparr>payload := PFieldGetter t ofs, call := Some Call_field_getter\<rparr>"
  obtain w1 where w1: "alloc_object w = (?g, w1)" "heap w1 ?g = Some empty_object" "keeps_old w w1"
    using alloc_keeps [of w] by (cases "alloc_object w") auto
  have h: "heap (put_obj ?g ?x w1) ?g = Some ?x" by (simp add: put_obj_def)
  have "di_set_type U ?g ''deai:FieldGetter'' (put_obj ?g ?x w1) =
      Ret (Inr (), with_member ?g ?x ''__type'' (VLiteral ''deai:FieldGetter'') (put_obj ?g ?x w1))"
    by (rule set_type_run [OF h]) (simp add: empty_object_def)
  then show ?thesis using w1 by (auto simp: di_new_field_getter_def get_obj_def keeps_old_def with_member_def put_obj_def)
qed

lemma init_modules_grows:
  assumes P: "\<And>r as. P r as" and x: "heap w p = Some x" "p < next_addr w" and n: "map fst (members x) = [''__type'']"
  shows "\<exists>w'. init_modules P fn U reaper p w = Ret w' \<and>
    grows p (3 + of_bool reaper) ([''event'', ''log'', ''os''] @ spawn_names reaper) w w'"
proof -
  obtain m w1 where w1: "di_init_event P fn U p w = Ret (m, w1)" "grows p 1 [''event''] w w1"
    using init_event_grows [of P w p x fn U, OF P x not_member [OF n]] by auto
  obtain x1 where x1: "heap w1 p = Some x1" "p < next_addr w1" "map fst (members x1) = [''__type'', ''event'']"
    using grows_heap [OF w1(2) x] n by auto
  obtain w2 where w2: "di_init_log P fn U p w1 = Ret (1, w2)" "grows p 1 [''log''] w1 w2"
    using init_log_grows [of P w1 p x1 fn U, OF P x1(1,2) not_member [OF x1(3)]] by auto
  obtain x2 where x2: "heap w2 p = Some x2" "p < next_addr w2" "map fst (members x2) = [''__type'', ''event'', ''log'']"
    using grows_heap [OF w2(2) x1(1,2)] x1(3) by auto
  obtain w3 where w3: "di_init_os P fn U p w2 = Ret w3" "grows p 1 [''os''] w2 w3"
    using init_os_grows [of P w2 p x2 fn U, OF P x2(1,2) not_member [OF x2(3)]] by auto
  obtain x3 where x3: "heap w3 p = Some x3" "p < next_addr w3" "map fst (members x3) = [''__type'', ''event'', ''log'', ''os'']"
    using grows_heap [OF w3(2) x2(1,2)] x2(3) by auto
  obtain w4 where w4: "di_init_spawn P fn U reaper p w3 = Ret w4" "grows p (of_bool reaper) (spawn_names reaper) w3 w4"
    using maybe_spawn_grows [of P w3 p x3 fn U reaper, OF P x3(1,2) not_member [OF x3(3)]] by auto
  have "grows p (1 + (1 + (1 + of_bool reaper))) ([''event''] @ [''log''] @ [''os''] @ spawn_names reaper) w w4"
    using grows_trans [OF w1(2) grows_trans [OF w2(2) grows_trans [OF w3(2) w4(2)]]] .
  then show ?thesis using w1(1) w2(1) w3(1) w4(1) by (simp add: init_modules_def numeral_eq_Suc)
qed

lemma core_members_grows:
  assumes P: "\<And>r as. P r as" and x: "heap w p = Some x" "p < next_addr w"
    and n: "map fst (members x) = [''__type'', ''event'', ''log'', ''os''] @ spawn_names reaper"
  shows "\<exists>w'. core_members P fn U p w = Ret w' \<and>
    grows p 0 (map fst (core_methods fn) @ [''dump_objects''] @ map fst (core_getters fn) @ [''__get_proctitle'']) w w'"
proof -
  obtain w1 where w1: "check_methods P U p (core_methods fn) w = Ret w1" "grows p 0 (map fst (core_methods fn)) w w1"
    using check_methods_grows [of P w p x "core_methods fn" U, OF P x] n by (auto simp: core_methods_def name_simps)
  obtain x1 where x1: "heap w1 p = Some x1" "p < next_addr w1" "map fst (members x1) = map fst (members x) @ map fst (core_methods fn)"
    using grows_heap [OF w1(2) x] by auto
  obtain cl w2 where w2: "di_create_closure P U (fn ''di_dump_objects'') DI_TYPE_NIL [] [] w1 = Ret (Inr cl, w2)" "keeps_old w1 w2"
    using closure_keeps [of P "[]" DI_TYPE_NIL U "fn ''di_dump_objects''" w1, OF P] by (auto simp: no_value_def)
  have x2: "heap w2 p = Some x1" "p < next_addr w2" using w2(2) x1 by (auto simp: keeps_old_def)
  have d: "''dump_objects'' \<notin> fst ` set (members x1)" "name_ok ''dump_objects''"
    by (rule not_member [OF x1(3)]) (simp_all add: n core_methods_def name_simps)
  obtain w3 where w3: "di_add_member_move U p (Some ''dump_objects'') (VObject cl) w2 = Ret (Inr (), w3)" "grows p 0 [''dump_objects''] w2 w3"
    using move_grows [OF x2(1) d plain_values(1)] by blast
  obtain x3 where x3: "heap w3 p = Some x3" "p < next_addr w3" "map fst (members x3) = map fst (members x1) @ [''dump_objects'']"
    using grows_heap [OF w3(2) x2] by auto
  obtain w4 where w4: "check_methods P U p (core_getters fn) w3 = Ret w4" "grows p 0 (map fst (core_getters fn)) w3 w4"
    using check_methods_grows [of P w3 p x3 "core_getters fn" U, OF P x3(1,2)] x1(3) x3(3) n
    by (auto simp: core_getters_def core_methods_def name_simps)
  obtain x4 where x4: "heap w4 p = Some x4" "p < next_addr w4" "map fst (members x4) = map fst (members x3) @ map fst (core_getters fn)"
    using grows_heap [OF w4(2) x3(1,2)] by auto
  obtain g w5 where w5: "di_new_field_getter U DI_TYPE_STRING_LITERAL 152 w4 = Ret (g, w5)" "keeps_old w4 w5"
    using field_getter_keeps by blast
  have x5: "heap w5 p = Some x4" "p < next_addr w5" using w5(2) x4 by (auto simp: keeps_old_def)
  have "''__get_proctitle'' \<notin> fst ` set (members x4)" "name_ok ''__get_proctitle''"
    by (rule not_member [OF x4(3)]) (simp_all add: n x1(3) x3(3) core_methods_def core_getters_def name_simps)
  from move_grows [OF x5(1) this plain_values(1)] obtain w6
    where w6: "di_add_member_move U p (Some ''__get_proctitle'') (VObject g) w5 = Ret (Inr (), w6)" "grows p 0 [''__get_proctitle''] w5 w6" by blast
  note g3 = keeps_grows [OF w2(2) x1(2) w3(2)] and g6 = keeps_grows [OF w5(2) x4(2) w6(2)]
  have "grows p (0 + (0 + (0 + 0))) (map fst (core_methods fn) @ [''dump_objects''] @ map fst (core_getters fn) @ [''__get_proctitle'']) w w6"
    using grows_trans [OF w1(2) grows_trans [OF g3 grows_trans [OF w4(2) g6]]] .
  then show ?thesis using w1(1) w2(1) w3(1) w4(1) w5(1) w6(1) by (simp add: core_members_def)
qed

text \<open>The names of the members the core and the roots have before any plugin is loaded.\<close>

definition core_names :: "bool \<Rightarrow> string list" where
  "core_names reaper = [''__type'', ''event'', ''log'', ''os''] @ (if reaper then [''spawn''] else []) @
     [''load_plugin_from_dir'', ''load_plugin'', ''register_module'', ''chdir'', ''exec'', ''quit'', ''exit'', ''terminate'', ''__set_proctitle'', ''dump_objects'', ''__get_roots'', ''__get_argv'',
     ''__get_proctitle'']"

definition roots_names :: "string list" where
  "roots_names = [''__type'', ''add'', ''remove'', ''clear'', ''__add_anonymous'', ''__remove_anonymous'']"

lemma set_dtor_run: "heap w p = Some x \<Longrightarrow> di_set_object_dtor p d w = Ret (put_obj p (x\<lparr>dtor := d\<rparr>) w)"
  by (simp add: di_set_object_dtor_def get_obj_def)

lemma main_objects_run:
  assumes P: "\<And>r as. P r as"
  shows "\<exists>r w' x y. main_objects P fn U w = Ret (next_addr w, r, w') \<and> next_addr w < r \<and> r < next_addr w' \<and>
    heap w' (next_addr w) = Some x \<and> map fst (members x) = [''__type''] \<and>
    ref_count x = 1 \<and> weak_ref_count x = 1 \<and> dtor x = Some (Dtor_ext (fn ''di_dtor'')) \<and>
    heap w' r = Some y \<and> map fst (members y) = roots_names \<and>
    ref_count y = 1 \<and> dtor y = Some Dtor_roots \<and> payload y = PRoots 1 [] \<and> keeps_old w w'"
proof -
  let ?p = "next_addr w"
  obtain w1 where w1: "alloc_object w = (?p, w1)" "heap w1 ?p = Some empty_object" "next_addr w1 = Suc ?p" "keeps_old w w1"
    using alloc_keeps [of w] by (cases "alloc_object w") auto
  let ?w2 = "with_member ?p empty_object ''__type'' (VLiteral ''deai:Core'') w1"
  have w2: "di_set_type U ?p ''deai:Core'' w1 = Ret (Inr (), ?w2)" by (rule set_type_run [OF w1(2)]) (simp add: empty_object_def)
  obtain x where x: "heap ?w2 ?p = Some x" "map fst (members x) = [''__type'']" "ref_count x = 1" "weak_ref_count x = 1"
    by (simp add: with_member_def put_obj_def empty_object_def hash_add_def)
  let ?r = "next_addr ?w2"
  have r: "?p < ?r" using w1(3) by (simp add: with_member_def)
  obtain w3 where w3: "alloc_object ?w2 = (?r, w3)" "heap w3 ?r = Some empty_object" "next_addr w3 = Suc ?r" "keeps_old ?w2 w3"
    using alloc_keeps [of ?w2] by (cases "alloc_object ?w2") auto
  let ?w4 = "with_member ?r empty_object ''__type'' (VLiteral ''deai:Roots'') w3"
  have w4: "di_set_type U ?r ''deai:Roots'' w3 = Ret (Inr (), ?w4)" by (rule set_type_run [OF w3(2)]) (simp add: empty_object_def)
  obtain z where z: "heap ?w4 ?r = Some z" "map fst (members z) = [''__type'']" "ref_count z = 1" "?r < next_addr ?w4"
    using w3(3) by (simp add: with_member_def put_obj_def empty_object_def hash_add_def)
  obtain w5 where w5: "check_methods P U ?r (roots_methods fn) ?w4 = Ret w5" "grows ?r 0 (map fst (roots_methods fn)) ?w4 w5"
    using check_methods_grows [of P ?w4 ?r z "roots_methods fn" U, OF P z(1,4)] z(2) by (auto simp: roots_methods_def name_simps)
  obtain y where y: "heap w5 ?r = Some y" "map fst (members y) = roots_names" "?r < next_addr w5" "ref_count y = 1"
    using grows_heap [OF w5(2) z(1,4)] z(2,3) by (auto simp: roots_names_def roots_methods_def)
  have k2: "keeps_old w ?w2" using w1(4) by (auto simp: keeps_old_def with_member_def put_obj_def)
  have k4: "keeps_old ?w2 ?w4" using w3(4) by (auto simp: keeps_old_def with_member_def put_obj_def)
  have k5: "keeps_old ?w2 w5" by (rule keeps_grows_new [OF k4 order_refl w5(2)])
  then have hp: "heap w5 ?p = Some x" using x(1) r by (auto simp: keeps_old_def)
  let ?y = "y\<lparr>dtor := Some Dtor_roots, payload := PRoots 1 []\<rparr>" and ?x = "x\<lparr>dtor := Some (Dtor_ext (fn ''di_dtor''))\<rparr>"
  let ?w7 = "put_obj ?r ?y w5"
  have "di_set_object_dtor ?r (Some Dtor_roots) w5 = Ret (put_obj ?r (y\<lparr>dtor := Some Dtor_roots\<rparr>) w5)"
    by (rule set_dtor_run [OF y(1)])
  moreover have "put_payload ?r (PRoots 1 []) (put_obj ?r (y\<lparr>dtor := Some Dtor_roots\<rparr>) w5) = Ret ?w7"
    using put_payload_Ret [of "put_obj ?r (y\<lparr>dtor := Some Dtor_roots\<rparr>) w5" ?r "y\<lparr>dtor := Some Dtor_roots\<rparr>" "PRoots 1 []"]
    by (simp add: put_obj_def)
  moreover have "heap ?w7 ?p = Some x" using hp r by (simp add: put_obj_def)
  note set_dtor_run [OF this, of "Some (Dtor_ext (fn ''di_dtor''))"]
  ultimately have run: "main_objects P fn U w = Ret (?p, ?r, put_obj ?p ?x ?w7)"
    using w1(1) w2 w3(1) w4 w5(1) by (simp add: main_objects_def)
  have "keeps_old w (put_obj ?p ?x ?w7)" using keeps_old_trans [OF k2 k5] r by (auto simp: keeps_old_def put_obj_def)
  then show ?thesis using run x(2-) y(2-) r
    by (intro exI [of _ ?r] exI [of _ "put_obj ?p ?x ?w7"] exI [of _ ?x] exI [of _ ?y] conjI) (simp_all add: put_obj_def)
qed

lemma start_run:
  assumes "\<And>r as. P r as"
  shows "\<exists>p r w1 w2 w3 x y. main_objects P fn U w = Ret (p, r, w1) \<and> init_modules P fn U reaper p w1 = Ret w2 \<and>
    core_members P fn U p w2 = Ret w3 \<and>
    heap w3 p = Some x \<and> map fst (members x) = core_names reaper \<and> ref_count x = 1 \<and>
    weak_ref_count x = (if reaper then 5 else 4) \<and> dtor x = Some (Dtor_ext (fn ''di_dtor'')) \<and>
    heap w3 r = Some y \<and> map fst (members y) = roots_names \<and> ref_count y = 1 \<and> dtor y = Some Dtor_roots \<and> payload y = PRoots 1 [] \<and>
    (\<forall>q < next_addr w. heap w3 q = heap w q)"
proof -
  let ?p = "next_addr w"
  obtain r w1 x y where m: "main_objects P fn U w = Ret (?p, r, w1)" "?p < r" "r < next_addr w1"
    and x: "heap w1 ?p = Some x" "map fst (members x) = [''__type'']" "ref_count x = 1" "weak_ref_count x = 1"
      "dtor x = Some (Dtor_ext (fn ''di_dtor''))"
    and y: "heap w1 r = Some y" "map fst (members y) = roots_names" "ref_count y = 1" "dtor y = Some Dtor_roots" "payload y = PRoots 1 []"
    and k: "keeps_old w w1"
    using main_objects_run [of P fn U w, OF assms] by (elim exE conjE) (rule that)
  have p: "?p < next_addr w1" using m(2,3) by simp
  let ?ms = "[''event'', ''log'', ''os''] @ spawn_names reaper"
  obtain w2 where w2: "init_modules P fn U reaper ?p w1 = Ret w2" "grows ?p (3 + of_bool reaper) ?ms w1 w2"
    using init_modules_grows [of P w1 ?p x fn U, OF assms x(1) p x(2)] by blast
  obtain x2 where x2: "heap w2 ?p = Some x2" "?p < next_addr w2" "map fst (members x2) = [''__type'', ''event'', ''log'', ''os''] @ spawn_names reaper"
    using grows_heap [OF w2(2) x(1) p] x(2) by auto
  let ?ns = "map fst (core_methods fn) @ [''dump_objects''] @ map fst (core_getters fn) @ [''__get_proctitle'']"
  obtain w3 where w3: "core_members P fn U ?p w2 = Ret w3" "grows ?p 0 ?ns w2 w3"
    using core_members_grows [of P w2 ?p x2 reaper fn U, OF assms x2] by blast
  have g: "grows ?p (3 + of_bool reaper + 0) (?ms @ ?ns) w1 w3" by (rule grows_trans [OF w2(2) w3(2)])
  obtain x3 where x3: "heap w3 ?p = Some x3" "map fst (members x3) = core_names reaper" "ref_count x3 = 1"
    "weak_ref_count x3 = (if reaper then 5 else 4)"
    "dtor x3 = Some (Dtor_ext (fn ''di_dtor''))"
    using grows_heap [OF g x(1) p] x(2-) by (auto simp: core_names_def core_methods_def core_getters_def spawn_names_def)
  have "heap w3 r = Some y" using g m(2,3) y(1) by (simp add: grows_def)
  moreover have "\<forall>q < next_addr w. heap w3 q = heap w q" using g k by (simp add: grows_def keeps_old_def)
  ultimately show ?thesis using m(1) w2(1) w3(1) x3 y(2-) by blast
qed

text \<open>
  C34. The program comes up.  When libffi accepts the signatures, no check of the start-up fails and no
  earlier object is touched; the core then has its modules and methods and the roots have theirs, under
  exactly these names and in this order.  The module \<open>spawn\<close> is among them just when the process could become
  the reaper of its descendants.  The core is held by \<open>main\<close> alone: the modules only have weak references to it,
  one each.
\<close>

theorem main_start_builds:
  assumes "\<And>r as. P r as"
  shows "\<exists>p r w1 w2 w3 x y. main_objects P fn U w = Ret (p, r, w1) \<and> init_modules P fn U reaper p w1 = Ret w2 \<and>
    core_members P fn U p w2 = Ret w3 \<and>
    heap w3 p = Some x \<and> map fst (members x) = core_names reaper \<and> ref_count x = 1 \<and>
    weak_ref_count x = (if reaper then 5 else 4) \<and> dtor x = Some (Dtor_ext (fn ''di_dtor'')) \<and>
    heap w3 r = Some y \<and> map fst (members y) = roots_names \<and> ref_count y = 1 \<and> dtor y = Some Dtor_roots \<and> payload y = PRoots 1 [] \<and>
    (\<forall>q < next_addr w. heap w3 q = heap w q)"
  by (rule start_run [of P, OF assms])

theorem main_start_builds_witness:
  "\<exists>p r w1 w2 w3 x y. main_objects (\<lambda>_ _. True) length (di_unref_object plain_ext 1) initial_world = Ret (p, r, w1) \<and>
    init_modules (\<lambda>_ _. True) length (di_unref_object plain_ext 1) False p w1 = Ret w2 \<and>
    core_members (\<lambda>_ _. True) length (di_unref_object plain_ext 1) p w2 = Ret w3 \<and>
    heap w3 p = Some x \<and> ''spawn'' \<notin> set (map fst (members x)) \<and> map fst (members x) = core_names False \<and> ref_count x = 1 \<and> weak_ref_count x = 4 \<and> dtor x = Some (Dtor_ext 7) \<and>
    heap w3 r = Some y \<and> map fst (members y) = roots_names \<and> ref_count y = 1 \<and> dtor y = Some Dtor_roots \<and> payload y = PRoots 1 [] \<and>
    (\<forall>q < 1. heap w3 q = heap initial_world q)"
proof -
  have "next_addr initial_world = 1" "length ''di_dtor'' = 7" by (simp_all add: initial_world_def)
  moreover have "''spawn'' \<notin> set (core_names False)" by (simp add: core_names_def)
  ultimately show ?thesis using main_start_builds [of "\<lambda>_ _. True" length "di_unref_object plain_ext 1" initial_world False, OF TrueI] by (metis (no_types, lifting))
qed

text \<open>
  Called without a method the program says how to call it and exits with 1; so it does when an argument is
  not of the documented form, before any plugin is loaded.
\<close>

theorem main_refuses:
  assumes P: "\<And>r as. st_prep_cif S r as" and a: "length argv < 2 \<or> parse_args (st_atof S) (drop 2 argv) = Ret (Inl e)"
  shows "\<exists>w'. di_main S U C k loop argv s w = Ret (1, s, w')"
proof -
  from start_run [of "st_prep_cif S" "st_fn S" U w "st_reaper S", OF P] obtain p q w1 w2 w3
    where "main_objects (st_prep_cif S) (st_fn S) U w = Ret (p, q, w1)" "init_modules (st_prep_cif S) (st_fn S) U (st_reaper S) p w1 = Ret w2"
      "core_members (st_prep_cif S) (st_fn S) U p w2 = Ret w3" by blast
  then show ?thesis using a by (auto simp: di_main_def main_run_def split: prod.splits)
qed

text \<open>When the call reports an error, or nothing keeps the core alive, the event loop is never entered.\<close>

lemma main_tail_no_loop: "quit \<or> core_gone p w \<Longrightarrow> main_tail U k loop p r ec quit w = main_tail U k loop' p r ec quit w"
  by (simp add: main_tail_def)

end
