(* ===== verification/Spec2Isabelle.thy ===== *)
theory Spec2Isabelle
  imports Examples SpawnExamples SedesProps Core EventExamples LuaProps DBusProps FileWatchProps TypedReads XorgInputProps
    ListProps Uthash Start
begin

text \<open>
  \<^bold>\<open>deai, a verification library\<close>

  deai is an event driven automation tool.  Its core is an object system in C: objects are reference
  counted, have named members of dynamic types, emit signals and can be called.  Everything else is built
  from such objects: the builtin modules (events, child processes, logging, the environment) and the
  plugins (Lua scripts, D-Bus, file watches, X11).  Modules meet only through objects: one calls a method
  of another, listens to a signal of it, or keeps a reference to it as a member.

  \<^bold>\<open>How the code is represented\<close>

  \<^item> A C function is a HOL function that returns a \<open>res\<close>: \<open>Ret\<close> with the result, or \<open>Fault\<close> with the reason
    the process stops or the behaviour is undefined (an assertion, a freed object, a null pointer, bytes
    read at another type, an index out of bounds, an uninitialised variable).  An error the code handles is
    a value: \<open>outcome\<close> has the error number on the left and the result on the right.
  \<^item> The heap is the field \<open>heap\<close> of \<open>world\<close>, a map from addresses to objects.  Addresses are never used
    twice, so that the use of freed memory is a fault.  An object has its two counters as 64-bit words, its
    members and signals as hash tables, destructor and call pointer, and a \<open>payload\<close>, the struct that
    embeds it (a closure, a timer, a Lua state, an X11 connection and so on).
  \<^item> Operations that may drop the last reference to an object can run any destructor, and with it any code.
    They take the function \<open>U\<close> that drops a reference and the function \<open>C\<close> that calls an object; the theory
    Runtime ties the knot: \<open>di_unref_object E n\<close> passes itself with less fuel.  One unit of fuel is one
    nested activation.  Destruction shows that fuel equal to a measure of the heap (the references that
    exist plus the objects alive) is enough: dropping a reference returns, and not only if it returns.
  \<^item> Loops are recursive functions that end by their arguments.  Where a loop ends only by an answer from
    outside (a retry until a server accepts) the list of answers bounds it, and the loops over linked lists
    (\<open>kill_all_descendants\<close>, the loops of \<open>list.h\<close>) and over the arrays of \<open>find_modifiers\<close> carry fuel that the
    theorems show to be enough: one more than the number of entries.
  \<^item> Code outside the repository is an argument: what libev, libdbus, the X server, the kernel and the
    interpreter answer; the operating system is the descriptor table of Posix with the answers of the calls
    that can fail.  What is assumed of it is a hypothesis of the theorem, and the witnesses discharge it at
    concrete answers.

  \<^bold>\<open>The theories and the code\<close>

  \<^item> Prelude: results, faults, C strings and hash tables (the macros of \<open>uthash.h\<close> as the code uses them).
    The locale \<open>hash_table\<close> states what find, add, delete and replace promise; its interpretation \<open>alist\<close> is
    on the association lists all tables of the model are.  Simulation: the locale \<open>step_refinement\<close>; a
    component that relates each of its operations to an abstract machine gets the same for every sequence
    of operations.
  \<^item> DiTypes (\<open>include/deai/object.h\<close>, \<open>include/deai/helper.h\<close>): types, values, strings.  Conversion
    (\<open>include/utils.h\<close>): integer conversions with C's arithmetic conversions.
  \<^item> Heap and Object (\<open>object.c\<close>, \<open>di_internal.h\<close>): allocation, the two kinds of references, members, copying
    and freeing of values, properties with handlers, destruction, listeners and emission.  Callable
    (\<open>callable.c\<close>), Helper (\<open>helper.c\<close>, \<open>include/deai/helper.h\<close>), Macros (the call macros), Roots (\<open>main.c\<close>), Runtime.
  \<^item> RefCount: the invariant \<open>counts_ok\<close>, the counters equal the references that exist.  Destruction: the
    locale \<open>drop_contract\<close>, what a drop keeps, and its interpretation \<open>unref\<close> on \<open>di_unref_object\<close>.  ValueCopy,
    Members, Property, Signals, TypedReads: what each operation does to counters, members and listeners.
    Client: reference ownership as an inductive step relation over all operations, with safety of every
    reachable state.  LeakCheck: the leak detector.  Examples: concrete heaps.
  \<^item> StringBuf (\<open>string_buf.c\<close>), Posix, Spawn (\<open>spawn.c\<close>): child processes and their descriptors.  Log (\<open>log.c\<close>,
    \<open>os.c\<close>).  ProcTree (\<open>kill_all_descendants\<close> of \<open>main.c\<close> on the links of \<open>list.h\<close>).  Core (the parts of
    \<open>main.c\<close>): plugins, arguments, the call, process title.  Start: \<open>main\<close> itself, from the first object to
    the exit code, composed of the parts of Core, Event, Log and Roots.
  \<^item> Lists, ListProps (\<open>list.h\<close>): the linked lists as loads and stores on a memory of list heads, and the loops
    over them; \<open>linked_lists\<close> interprets \<open>step_refinement\<close>.  The other theories keep such a list as a list of
    its entries; this is the justification.  ProcTree has links of its own, because \<open>main.c\<close> uses
    \<open>__list_splice\<close> on single nodes.
  \<^item> Uthash (\<open>uthash.h\<close>): the hash function, buckets and their doubling; \<open>uthash_32\<close> interprets
    \<open>step_refinement\<close>.  It is the justification of the association lists of Prelude.  Keys may also be added
    twice, as \<open>plugins/file/file.c\<close> does; then a search gives one of the elements with that key, and which one depends
    on the doublings of the buckets, which reverse the chains (\<open>uthash_dup\<close>).
  \<^item> Event (\<open>event.c\<close>): watchers and timers with the references to the core they hold while they are active;
    \<open>ioev\<close> and \<open>timer\<close> interpret \<open>step_refinement\<close>.
  \<^item> Sedes, SedesProps (\<open>plugins/dbus/sedes.c\<close>): values to messages and back.  DBus, DBusProps
    (\<open>plugins/dbus/dbus.c\<close>): names, match rules, signals, calls.
  \<^item> LuaTypes, Lua, LuaProps (\<open>plugins/lua/lua.c\<close>): stack, proxies, conversion in both directions, scripts;
    how the interpreter represents a number that is pushed to it is a field of \<open>lua_host\<close>.
  \<^item> FileWatch, FileWatchProps (\<open>plugins/file/file.c\<close>); \<open>file_watch\<close> interprets \<open>step_refinement\<close>.  The tables may hold a
    key twice; which of the duplicates a search gives is an argument, and the theorems hold for every choice.
  \<^item> XorgTypes, XorgKey (\<open>plugins/xorg/key.c\<close>), XorgAtoms and Xorg (\<open>plugins/xorg/xorg.c\<close>), XorgRandr (\<open>randr.c\<close>),
    XorgInput (\<open>xinput.c\<close>); XorgProps, XorgKeyProps, XorgLog, XorgInputProps: what they compute and keep;
    \<open>xi_events\<close> interprets \<open>step_refinement\<close>.

  \<^bold>\<open>What is shown\<close>

  \<^item> Object system: a client that keeps to the ownership protocol (\<open>permitted\<close>) never makes an operation fault, for
    all reachable states.  For heaps of plain objects, closures and the roots whose values can be freed,
    dropping a reference returns whatever the references between the objects are, and after the last outside
    reference of an acyclic heap nothing is left alive; listen handles and the destructors of modules are
    outside these two theorems.  Copying and freeing cancel, except that a copied array without elements
    cannot be freed.  Members behave as a finite map; handlers of properties are found in a fixed order; emission
    calls every live listener once, in the order of the list, and loses a weak reference to each dead one;
    typed reads have the type that was asked for; the leak detector finds exactly what the members do not reach.
  \<^item> Services: descriptors are closed on every path of starting a process and after its exit; output without NUL
    bytes is split into lines whatever the chunks; messages of supported values are read back as the values
    written; the descendants are signalled when parents come first; watchers, timers, file watches and event
    masks implement their abstract machines for every sequence of operations; the names and atoms cached
    agree with the bus and the server; signals of the bus and events of known watches are all handed to their
    listeners, under the documented names; flat values survive the trip to Lua 5.3 and back.
  \<^item> Linked lists: whatever operations are called within their preconditions, the memory holds the disjoint
    lists that the operations on mere lists give; walking a list while deleting from it is a filter with the
    safe loop, and follows a poisoned pointer with the plain one.
  \<^item> Hash tables: they are the association lists the other theories use, for every sequence of operations
    and however the buckets are doubled, unless memory runs out and the process exits; a table of fewer than
    ten elements needs no more than its first 32 buckets.
  \<^item> Start: when libffi accepts the signatures no check of the start-up fails, and the core has exactly the
    documented modules and methods, \<open>spawn\<close> among them just when the process could become the reaper of its descendants.
  \<^item> The errors of the code are theorems too: they say on which inputs an operation aborts, hangs, leaks or
    confuses types, with a witness of each.

  \<^bold>\<open>Not modelled\<close>

  \<^item> \<open>include/deai/c++\<close> and the C++ plugins \<open>udev\<close> and \<open>evdev\<close>: templates over the C interface, and thin wrappers
    around libudev and libevdev.
  \<^item> The macros of \<open>uthash.h\<close> the program never uses: sorted insertion, sorting, selection, the other hash
    functions, Bloom filters, recoverable allocation failures.
  \<^item> The traceback handler and the building of metatables in \<open>plugins/lua/lua.c\<close>, and \<open>compat.c\<close>, which supply
    functions of newer interpreters.
  \<^item> The introspection code of \<open>dbus.c\<close> and functions of \<open>randr.c\<close> that are compiled out.
  \<^item> The event loop of libev, and with it the watchers of the signals that break it.  The text of log messages
    is abbreviated, and the warning about several symbols on one key level in \<open>set_keymap\<close> is left out.
  \<^item> The macros of \<open>include/deai/object.h\<close> and \<open>include/deai/helper.h\<close> that only compute types at compile time:
    where they are used, the definitions have the type written out.
\<close>

end
